(* ===== verification/Prelude.thy ===== *)
theory Prelude
  imports Main "HOL-Library.Word" "HOL-Library.List_Lexorder"
begin

text \<open>
  What every component of the development shares: the result type of operations that may
  raise, its sequencing operators, the collections of simplification rules the component
  proofs are run with, and generic facts about lists, prefixes and distinct associations.

  A Python function that raises is a HOL function into \<open>'e + 'a\<close>: \<open>Inl e\<close> is the
  exception \<open>e\<close>, \<open>Inr x\<close> the returned value.  An \<open>if ...: raise\<close> guard of the source is
  an \<open>if\<close> of the model in the same place; a call whose exception propagates is \<open>ebind\<close>;
  a loop that validates each element is \<open>emap\<close>.
\<close>

named_theorems result_simps \<open>equations that push a result through ebind, emap and guards\<close>
named_theorems shape_simps \<open>lengths, prefixes and alphabets of the strings the code mints\<close>
named_theorems frame_simps \<open>fields an operation leaves unchanged\<close>

section \<open>Results\<close>

type_synonym ('e, 'a) result = "'e + 'a"

definition ebind :: "('e, 'a) result \<Rightarrow> ('a \<Rightarrow> ('e, 'b) result) \<Rightarrow> ('e, 'b) result" where
  "ebind m f = (case m of Inl e \<Rightarrow> Inl e | Inr x \<Rightarrow> f x)"

text \<open>\<open>try: m except E: raise f(E)\<close>, the way the code translates foreign exceptions.\<close>

definition ecatch :: "('e, 'a) result \<Rightarrow> ('e \<Rightarrow> ('f, 'a) result) \<Rightarrow> ('f, 'a) result" where
  "ecatch m h = (case m of Inl e \<Rightarrow> h e | Inr x \<Rightarrow> Inr x)"

fun emap :: "('a \<Rightarrow> ('e, 'b) result) \<Rightarrow> 'a list \<Rightarrow> ('e, 'b list) result" where
  "emap f [] = Inr []"
| "emap f (x # xs) = ebind (f x) (\<lambda>y. ebind (emap f xs) (\<lambda>ys. Inr (y # ys)))"

definition ok :: "('e, 'a) result \<Rightarrow> bool" where
  "ok m = (case m of Inl _ \<Rightarrow> False | Inr _ \<Rightarrow> True)"

lemma ebind_Inr [simp, result_simps]: "ebind (Inr x) f = f x"
  by (simp add: ebind_def)

lemma ebind_Inl [simp, result_simps]: "ebind (Inl e) f = Inl e"
  by (simp add: ebind_def)

lemma ecatch_Inr [simp, result_simps]: "ecatch (Inr x) h = Inr x"
  by (simp add: ecatch_def)

lemma ecatch_Inl [simp, result_simps]: "ecatch (Inl e) h = h e"
  by (simp add: ecatch_def)

lemma ebind_eq_Inr [result_simps]: "ebind m f = Inr y \<longleftrightarrow> (\<exists>x. m = Inr x \<and> f x = Inr y)"
  by (cases m) auto

lemma ebind_eq_Inl: "ebind m f = Inl e \<longleftrightarrow> m = Inl e \<or> (\<exists>x. m = Inr x \<and> f x = Inl e)"
  by (cases m) auto

lemma ecatch_eq_Inr: "ecatch m h = Inr y \<longleftrightarrow> m = Inr y \<or> (\<exists>e. m = Inl e \<and> h e = Inr y)"
  by (cases m) auto

lemma ecatch_raise_Inr [result_simps]: "ecatch m (\<lambda>_. Inl c) = Inr y \<longleftrightarrow> m = Inr y"
  by (cases m) auto

lemma if_Inl_eq_Inr [result_simps]: "(if b then Inl e else m) = Inr y \<longleftrightarrow> \<not> b \<and> m = Inr y"
  by auto

lemma if_Inr_else_Inl_eq_Inr [result_simps]: "(if b then m else Inl e) = Inr y \<longleftrightarrow> b \<and> m = Inr y"
  by auto

lemma ebind_assoc: "ebind (ebind m f) g = ebind m (\<lambda>x. ebind (f x) g)"
  by (cases m) simp_all

lemma ebind_cong [fundef_cong]:
  "m = m' \<Longrightarrow> (\<And>x. m' = Inr x \<Longrightarrow> f x = f' x) \<Longrightarrow> ebind m f = ebind m' f'"
  by (cases m') auto

lemma ok_simps [simp]: "ok (Inr x)" "\<not> ok (Inl e)"
  by (simp_all add: ok_def)

lemma ok_iff: "ok m \<longleftrightarrow> (\<exists>x. m = Inr x)"
  by (cases m) auto

lemma emap_eq_Inr: "emap f xs = Inr ys \<longleftrightarrow> list_all2 (\<lambda>x y. f x = Inr y) xs ys"
proof (induction xs arbitrary: ys)
  case Nil
  then show ?case by auto
next
  case (Cons x xs)
  then show ?case by (auto simp: ebind_eq_Inr list_all2_Cons1)
qed

lemma emap_map_Inr: "(\<And>x. x \<in> set xs \<Longrightarrow> f (g x) = Inr (h x)) \<Longrightarrow> emap f (map g xs) = Inr (map h xs)"
  by (induction xs) auto

lemma emap_length: "emap f xs = Inr ys \<Longrightarrow> length ys = length xs"
  by (auto simp: emap_eq_Inr dest: list_all2_lengthD)

section \<open>State and exceptions\<close>

text \<open>
  An operation on a world \<open>'w\<close> that may raise \<open>'e\<close>: it answers a result and the world it leaves, also
  when it raises.
\<close>

type_synonym ('e, 'w, 'a) effect = "'w \<Rightarrow> ('e, 'a) result \<times> 'w"

definition ret :: "'a \<Rightarrow> ('e, 'w, 'a) effect" where
  "ret x w = (Inr x, w)"

definition raising :: "'e \<Rightarrow> ('e, 'w, 'a) effect" where
  "raising e w = (Inl e, w)"

definition sbind :: "('e, 'w, 'a) effect \<Rightarrow> ('a \<Rightarrow> ('e, 'w, 'b) effect) \<Rightarrow> ('e, 'w, 'b) effect" where
  "sbind m f w = (case m w of (Inl e, w') \<Rightarrow> (Inl e, w') | (Inr x, w') \<Rightarrow> f x w')"

definition scatch :: "('e, 'w, 'a) effect \<Rightarrow> ('e \<Rightarrow> ('f, 'w, 'a) effect) \<Rightarrow> ('f, 'w, 'a) effect" where
  "scatch m h w = (case m w of (Inl e, w') \<Rightarrow> h e w' | (Inr x, w') \<Rightarrow> (Inr x, w'))"

lemma effect_simps [simp]: "ret x w = (Inr x, w)" "raising e w = (Inl e, w)"
  by (simp_all add: ret_def raising_def)

lemma sbind_Inr: "sbind m f w = (Inr y, w'') \<longleftrightarrow> (\<exists>x w'. m w = (Inr x, w') \<and> f x w' = (Inr y, w''))"
  by (auto simp: sbind_def split: prod.splits sum.splits)

lemma sbind_Inl: "sbind m f w = (Inl e, w'') \<longleftrightarrow> m w = (Inl e, w'') \<or> (\<exists>x w'. m w = (Inr x, w') \<and> f x w' = (Inl e, w''))"
  by (auto simp: sbind_def split: prod.splits sum.splits)

lemma sbind_run: "m w = (Inr x, w') \<Longrightarrow> sbind m f w = f x w'" "m w = (Inl e, w') \<Longrightarrow> sbind m f w = (Inl e, w')"
  by (simp_all add: sbind_def)

text \<open>An operation \<open>obeys\<close> a relation on worlds when every outcome is related to its start.\<close>

definition obeys :: "('w \<Rightarrow> 'w \<Rightarrow> bool) \<Rightarrow> ('e, 'w, 'a) effect \<Rightarrow> bool" where
  "obeys R m \<longleftrightarrow> (\<forall>w r w'. m w = (r, w') \<longrightarrow> R w w')"

lemma obeysD: "obeys R m \<Longrightarrow> m w = (r, w') \<Longrightarrow> R w w'"
  by (simp add: obeys_def)

named_theorems obeys_intros \<open>operations that respect a reflexive and transitive relation\<close>

text \<open>The rules of the calculus, for a preorder \<open>R\<close>.\<close>

locale preorder_effects =
  fixes R :: "'w \<Rightarrow> 'w \<Rightarrow> bool"
  assumes refl: "R w w"
    and trans: "R a b \<Longrightarrow> R b c \<Longrightarrow> R a c"
begin

lemma obeys_ret [intro]: "obeys R (ret x)"
  and obeys_raising [intro]: "obeys R (raising e)"
  by (auto simp: obeys_def refl)

lemma obeys_sbind: "obeys R m \<Longrightarrow> (\<And>x. obeys R (f x)) \<Longrightarrow> obeys R (sbind m f)"
  unfolding obeys_def sbind_def by (fastforce intro: trans split: prod.splits sum.splits)

lemma obeys_scatch: "obeys R m \<Longrightarrow> (\<And>e. obeys R (h e)) \<Longrightarrow> obeys R (scatch m h)"
  unfolding obeys_def scatch_def by (fastforce intro: trans split: prod.splits sum.splits)

lemma obeys_if: "obeys R m \<Longrightarrow> obeys R n \<Longrightarrow> obeys R (if b then m else n)"
  by simp

lemma obeys_option: "obeys R m \<Longrightarrow> (\<And>x. obeys R (f x)) \<Longrightarrow> obeys R (case v of None \<Rightarrow> m | Some x \<Rightarrow> f x)"
  by (cases v) simp_all

lemma obeys_prod: "(\<And>x y. obeys R (f x y)) \<Longrightarrow> obeys R (case v of (x, y) \<Rightarrow> f x y)"
  by (cases v) simp

lemma obeys_rows: "obeys R m \<Longrightarrow> (\<And>x. obeys R (f x)) \<Longrightarrow> (\<And>x y ys. obeys R (g x y ys)) \<Longrightarrow>
    obeys R (case v of [] \<Rightarrow> m | [x] \<Rightarrow> f x | x # y # ys \<Rightarrow> g x y ys)"
  by (auto split: list.split)

lemma obeys_pure: "(\<And>w. snd (m w) = w) \<Longrightarrow> obeys R m"
  by (auto simp: obeys_def refl dest: arg_cong [of _ _ snd])

lemmas frame_rules = obeys_sbind obeys_scatch obeys_if obeys_option obeys_prod obeys_ret obeys_raising

end

section \<open>Lists\<close>

lemma append_eq_same_length:
  "length xs = length ys \<Longrightarrow> xs @ us = ys @ vs \<longleftrightarrow> xs = ys \<and> us = vs"
  by (rule append_eq_append_conv) simp

lemma takeWhile_append_stop:
  "(\<And>x. x \<in> set xs \<Longrightarrow> P x) \<Longrightarrow> \<not> P y \<Longrightarrow> takeWhile P (xs @ y # ys) = xs"
  by (induction xs) auto

text \<open>
  Two runs of characters of one class, each followed by a character outside the class,
  can only be equal when the runs are: how a number ends at its delimiter.
\<close>

lemma run_delim_inj:
  assumes "\<forall>x \<in> set xs. P x" "\<forall>x \<in> set ys. P x" "\<not> P a" "\<not> P b"
    and "xs @ a # us = ys @ b # vs"
  shows "xs = ys \<and> a = b \<and> us = vs"
proof -
  have "takeWhile P (xs @ a # us) = xs" "takeWhile P (ys @ b # vs) = ys"
    using assms(1-4) by (auto intro!: takeWhile_append_stop)
  with assms(5) have "xs = ys" by simp
  with assms(5) show ?thesis by simp
qed

lemma map_of_eq_Some_iff_distinct:
  "distinct (map fst d) \<Longrightarrow> map_of d k = Some v \<longleftrightarrow> (k, v) \<in> set d"
  by simp

lemma length_eq_card_keys_distinct:
  assumes "length d = card K" and "fst ` set d = K"
  shows "distinct (map fst d)"
proof -
  have "card (set (map fst d)) = length (map fst d)" using assms by simp
  then show ?thesis by (rule card_distinct)
qed

end
