(* ===== verification/PyText.thy ===== *)
theory PyText
  imports Prelude
begin

text \<open>
  Python text.  A \<open>str\<close> is the list of its code points (\<open>pystr\<close>); \<open>u ''abc''\<close> is the
  ASCII literal.  \<open>bytes\<close> is a list of 8-bit words.  The theory defines the text
  operations the code uses: \<open>str.strip\<close> with Python's white space, UTF-8 encoding with the
  \<open>UnicodeEncodeError\<close> of a lone surrogate, decimal rendering, the hexadecimal grammars of
  digests, and line-end normalisation.  The Unicode character database behind
  \<open>unicodedata.normalize\<close> and \<open>str.isprintable\<close> is data outside the repository: it is the
  record \<open>unicode_db\<close>, an argument of the definitions that use it.
\<close>

section \<open>Strings\<close>

type_synonym pystr = "nat list"
type_synonym bytes = "8 word list"

definition u :: "string \<Rightarrow> pystr" where
  "u s = map of_char s"

lemma u_inj [simp]: "u a = u b \<longleftrightarrow> a = b"
  by (auto simp: u_def inj_map_eq_map [OF inj_of_char])

lemma u_Nil [simp]: "u [] = []"
  by (simp add: u_def)

lemma u_eq_Nil [simp]: "u s = [] \<longleftrightarrow> s = []" "[] = u s \<longleftrightarrow> s = []"
  by (auto simp: u_def)

lemma length_u [simp]: "length (u s) = length s"
  by (simp add: u_def)

lemma u_append: "u (a @ b) = u a @ u b"
  by (simp add: u_def)

lemma set_u_ascii: "\<forall>c \<in> set s. of_char c < (128::nat) \<Longrightarrow> \<forall>n \<in> set (u s). n < 128"
  by (auto simp: u_def)

text \<open>\<open>s.startswith(prefix)\<close> and the remainder after it.\<close>

fun startswith :: "pystr \<Rightarrow> pystr \<Rightarrow> bool" where
  "startswith xs [] = True"
| "startswith [] (p # ps) = False"
| "startswith (x # xs) (p # ps) = (x = p \<and> startswith xs ps)"

lemma startswith_iff: "startswith xs p \<longleftrightarrow> (\<exists>r. xs = p @ r)"
  by (induction xs p rule: startswith.induct) auto

lemma startswith_append [simp]: "startswith (p @ r) p"
  by (auto simp: startswith_iff)

subsection \<open>White space and strip\<close>

text \<open>The code points for which Python's \<open>str.isspace\<close> holds, the ones \<open>strip()\<close> removes.\<close>

definition py_isspace :: "nat \<Rightarrow> bool" where
  "py_isspace c \<longleftrightarrow>
     (9 \<le> c \<and> c \<le> 13) \<or> (28 \<le> c \<and> c \<le> 32) \<or> c = 133 \<or> c = 160 \<or> c = 5760
     \<or> (8192 \<le> c \<and> c \<le> 8202) \<or> c = 8232 \<or> c = 8233 \<or> c = 8239 \<or> c = 8287 \<or> c = 12288"

definition py_strip :: "pystr \<Rightarrow> pystr" where
  "py_strip s = rev (dropWhile py_isspace (rev (dropWhile py_isspace s)))"

lemma dropWhile_idem_hd: "xs = [] \<or> \<not> P (hd xs) \<Longrightarrow> dropWhile P xs = xs"
  by (cases xs) auto

lemma hd_dropWhile_or_Nil: "dropWhile P xs = [] \<or> \<not> P (hd (dropWhile P xs))"
  using hd_dropWhile [of P xs] by auto

lemma strip_last: "py_strip s = [] \<or> \<not> py_isspace (last (py_strip s))"
  using hd_dropWhile_or_Nil [of py_isspace "rev (dropWhile py_isspace s)"]
  by (auto simp: py_strip_def last_rev)

lemma hd_rev_dropWhile_rev:
  assumes "rev (dropWhile P (rev xs)) \<noteq> []"
  shows "hd (rev (dropWhile P (rev xs))) = hd xs"
proof -
  have "xs = rev (dropWhile P (rev xs)) @ rev (takeWhile P (rev xs))"
    by (metis rev_append rev_rev_ident takeWhile_dropWhile_id)
  with assms show ?thesis by (metis hd_append2)
qed

lemma strip_hd: "py_strip s = [] \<or> \<not> py_isspace (hd (py_strip s))"
proof (cases "py_strip s = []")
  case False
  then have "hd (py_strip s) = hd (dropWhile py_isspace s)"
    unfolding py_strip_def by (rule hd_rev_dropWhile_rev)
  moreover have "dropWhile py_isspace s \<noteq> []"
    using False by (cases "dropWhile py_isspace s = []") (auto simp: py_strip_def)
  ultimately show ?thesis
    using hd_dropWhile_or_Nil [of py_isspace s] by auto
qed simp

text \<open>A string neither starts nor ends with white space iff stripping leaves it alone.\<close>

lemma strip_id_iff:
  "py_strip s = s \<longleftrightarrow> s = [] \<or> (\<not> py_isspace (hd s) \<and> \<not> py_isspace (last s))"
proof
  assume "py_strip s = s"
  then show "s = [] \<or> (\<not> py_isspace (hd s) \<and> \<not> py_isspace (last s))"
    using strip_hd [of s] strip_last [of s] by auto
next
  assume *: "s = [] \<or> (\<not> py_isspace (hd s) \<and> \<not> py_isspace (last s))"
  have "dropWhile py_isspace s = s" using * by (intro dropWhile_idem_hd) auto
  moreover have "dropWhile py_isspace (rev s) = rev s"
    using * by (intro dropWhile_idem_hd) (auto simp: hd_rev)
  ultimately show "py_strip s = s" by (simp add: py_strip_def)
qed

lemma strip_strip [simp]: "py_strip (py_strip s) = py_strip s"
  using strip_id_iff strip_hd strip_last by blast

lemma strip_sublist: "\<exists>m n. py_strip s = take n (drop m s)"
proof -
  obtain a where a: "s = a @ dropWhile py_isspace s"
    by (metis takeWhile_dropWhile_id)
  let ?t = "dropWhile py_isspace s"
  have t: "?t = py_strip s @ rev (takeWhile py_isspace (rev ?t))"
    unfolding py_strip_def by (metis rev_append rev_rev_ident takeWhile_dropWhile_id)
  have "drop (length a) s = ?t" using a by (metis append_eq_conv_conj)
  moreover have "take (length (py_strip s)) ?t = py_strip s" using t by (metis append_eq_conv_conj)
  ultimately show ?thesis by metis
qed

lemma length_strip: "length (py_strip s) \<le> length s"
  using strip_sublist [of s] by (metis length_drop length_take min.coboundedI2 diff_le_self min.cobounded1 min.cobounded2 order_trans)

lemma set_strip: "set (py_strip s) \<subseteq> set s"
  using strip_sublist [of s] by (metis set_drop_subset set_take_subset order_trans)

subsection \<open>Line ends\<close>

text \<open>\<open>value.replace("\r\n", "\n").replace("\r", "\n")\<close>.\<close>

fun crlf_to_lf :: "pystr \<Rightarrow> pystr" where
  "crlf_to_lf (c # d # s) =
     (if c = 13 \<and> d = 10 then 10 # crlf_to_lf s else c # crlf_to_lf (d # s))"
| "crlf_to_lf [c] = [c]"
| "crlf_to_lf [] = []"

definition cr_to_lf :: "pystr \<Rightarrow> pystr" where
  "cr_to_lf s = map (\<lambda>c. if c = 13 then 10 else c) s"

definition normalize_newlines :: "pystr \<Rightarrow> pystr" where
  "normalize_newlines s = cr_to_lf (crlf_to_lf s)"

lemma normalize_newlines_no_cr: "13 \<notin> set (normalize_newlines s)"
  by (auto simp: normalize_newlines_def cr_to_lf_def)

lemma crlf_to_lf_id: "13 \<notin> set s \<Longrightarrow> crlf_to_lf s = s"
  by (induction s rule: crlf_to_lf.induct) auto

lemma normalize_newlines_id: "13 \<notin> set s \<Longrightarrow> normalize_newlines s = s"
  by (auto simp: normalize_newlines_def cr_to_lf_def crlf_to_lf_id intro!: map_idI)

text \<open>\<open>s.split(sep)\<close> on one character.\<close>

fun split_on :: "nat \<Rightarrow> pystr \<Rightarrow> pystr list" where
  "split_on sep [] = [[]]"
| "split_on sep (c # s) =
     (if c = sep then [] # split_on sep s
      else (case split_on sep s of x # xs \<Rightarrow> (c # x) # xs | [] \<Rightarrow> [[c]]))"

section \<open>The Unicode character database\<close>

record unicode_db =
  ud_nfc :: "pystr \<Rightarrow> pystr"
  ud_printable :: "nat \<Rightarrow> bool"
  ud_decimal :: "nat \<Rightarrow> nat option"

text \<open>
  What the code relies on: normalization form C is idempotent, empty only on the empty
  string, leaves ASCII alone, and every substring of a normalized string is normalized
  (Unicode Standard Annex 15, ``all of the Normalization Forms are closed under
  substringing''); the decimal digit property of the ASCII digits is their value and an
  ASCII non-digit has none; printability of ASCII is \<open>32..126\<close>.
\<close>

definition unicode_ok :: "unicode_db \<Rightarrow> bool" where
  "unicode_ok U \<longleftrightarrow>
     (\<forall>s. ud_nfc U (ud_nfc U s) = ud_nfc U s)
   \<and> (\<forall>s m n. ud_nfc U s = s \<longrightarrow> ud_nfc U (take n (drop m s)) = take n (drop m s))
   \<and> (\<forall>s. (\<forall>c \<in> set s. c < 128) \<longrightarrow> ud_nfc U s = s)
   \<and> (\<forall>c < 128. ud_printable U c \<longleftrightarrow> 32 \<le> c \<and> c \<le> 126)
   \<and> (\<forall>c < 128. ud_decimal U c = (if 48 \<le> c \<and> c \<le> 57 then Some (c - 48) else None))
   \<and> (\<forall>c d. ud_decimal U c = Some d \<longrightarrow> d \<le> 9)"

text \<open>The database restricted to ASCII: every other code point is unprintable and inert.\<close>

definition ascii_db :: unicode_db where
  "ascii_db = \<lparr>ud_nfc = (\<lambda>s. s), ud_printable = (\<lambda>c. 32 \<le> c \<and> c \<le> 126),
     ud_decimal = (\<lambda>c. if 48 \<le> c \<and> c \<le> 57 then Some (c - 48) else None)\<rparr>"

lemma ascii_db_ok: "unicode_ok ascii_db"
  by (auto simp: unicode_ok_def ascii_db_def split: if_splits)

lemma nfc_idem: "unicode_ok U \<Longrightarrow> ud_nfc U (ud_nfc U s) = ud_nfc U s"
  by (simp add: unicode_ok_def)

lemma nfc_strip: "unicode_ok U \<Longrightarrow> ud_nfc U s = s \<Longrightarrow> ud_nfc U (py_strip s) = py_strip s"
  using strip_sublist [of s] by (auto simp: unicode_ok_def)

lemma nfc_ascii: "unicode_ok U \<Longrightarrow> \<forall>c \<in> set s. c < 128 \<Longrightarrow> ud_nfc U s = s"
  by (simp add: unicode_ok_def)

section \<open>UTF-8\<close>

text \<open>
  \<open>str.encode("utf-8", "strict")\<close>: \<open>None\<close> is the \<open>UnicodeEncodeError\<close> raised on a lone
  surrogate (a code point of \<open>0xD800..0xDFFF\<close>).
\<close>

definition byte :: "nat \<Rightarrow> 8 word" where
  "byte n = word_of_nat n"

lemma unat_byte [simp]: "n < 256 \<Longrightarrow> unat (byte n) = n"
  by (simp add: byte_def unat_of_nat)

lemma byte_eq_iff: "m < 256 \<Longrightarrow> n < 256 \<Longrightarrow> byte m = byte n \<longleftrightarrow> m = n"
  by (metis unat_byte)

definition utf8_char :: "nat \<Rightarrow> bytes option" where
  "utf8_char c =
     (if c < 128 then Some [byte c]
      else if c < 2048 then Some [byte (192 + c div 64), byte (128 + c mod 64)]
      else if 55296 \<le> c \<and> c < 57344 then None
      else if c < 65536 then
        Some [byte (224 + c div 4096), byte (128 + c div 64 mod 64),
              byte (128 + c mod 64)]
      else if c < 1114112 then
        Some [byte (240 + c div 262144), byte (128 + c div 4096 mod 64),
              byte (128 + c div 64 mod 64), byte (128 + c mod 64)]
      else None)"

fun utf8_encode :: "pystr \<Rightarrow> bytes option" where
  "utf8_encode [] = Some []"
| "utf8_encode (c # s) =
     (case utf8_char c of None \<Rightarrow> None
      | Some b \<Rightarrow> (case utf8_encode s of None \<Rightarrow> None | Some bs \<Rightarrow> Some (b @ bs)))"

lemma utf8_encode_ascii:
  "\<forall>c \<in> set s. c < 128 \<Longrightarrow> utf8_encode s = Some (map byte s)"
  by (induction s) (auto simp: utf8_char_def)

lemma utf8_encode_append:
  "utf8_encode (s @ t) =
     (case utf8_encode s of None \<Rightarrow> None
      | Some a \<Rightarrow> (case utf8_encode t of None \<Rightarrow> None | Some b \<Rightarrow> Some (a @ b)))"
  by (induction s) (auto split: option.splits)

lemma utf8_char_length: "utf8_char c = Some b \<Longrightarrow> 1 \<le> length b \<and> length b \<le> 4"
  by (auto simp: utf8_char_def split: if_splits)

lemma utf8_encode_length:
  "utf8_encode s = Some b \<Longrightarrow> length s \<le> length b \<and> length b \<le> 4 * length s"
proof (induction s arbitrary: b)
  case (Cons c s)
  then show ?case by (fastforce split: option.splits dest: utf8_char_length)
qed simp

text \<open>The encoded form of a character announces its own length, so encoding is injective.\<close>

definition utf8_width :: "8 word \<Rightarrow> nat" where
  "utf8_width w = (if unat w < 128 then 1 else if unat w < 224 then 2 else if unat w < 240 then 3 else 4)"

lemma utf8_char_width: "utf8_char c = Some b \<Longrightarrow> b \<noteq> [] \<and> length b = utf8_width (hd b)"
  by (auto simp: utf8_char_def utf8_width_def split: if_splits)

text \<open>Decoding one character.\<close>

definition utf8_value :: "bytes \<Rightarrow> nat" where
  "utf8_value b =
     (case map unat b of
        [x] \<Rightarrow> x
      | [x, y] \<Rightarrow> (x - 192) * 64 + (y - 128)
      | [x, y, z] \<Rightarrow> (x - 224) * 4096 + (y - 128) * 64 + (z - 128)
      | [x, y, z, w] \<Rightarrow> (x - 240) * 262144 + (y - 128) * 4096 + (z - 128) * 64 + (w - 128)
      | _ \<Rightarrow> 0)"

lemma split_base64:
  "c div 4096 * 4096 + c div 64 mod 64 * 64 + c mod 64 = (c::nat)"
  "c div 262144 * 262144 + c div 4096 mod 64 * 4096 + c div 64 mod 64 * 64 + c mod 64 = c"
proof -
  have 1: "c div 4096 = c div 64 div 64" "c div 262144 = c div 4096 div 64"
    by (simp_all add: div_mult2_eq [symmetric])
  show "c div 4096 * 4096 + c div 64 mod 64 * 64 + c mod 64 = c"
    using div_mult_mod_eq [of c 64] div_mult_mod_eq [of "c div 64" 64] 1 by linarith
  then show "c div 262144 * 262144 + c div 4096 mod 64 * 4096 + c div 64 mod 64 * 64 + c mod 64 = c"
    using div_mult_mod_eq [of "c div 4096" 64] 1 by linarith
qed

lemma utf8_char_cases:
  assumes "utf8_char c = Some b"
  obtains "c < 128" "b = [byte c]"
  | "c < 2048" "b = [byte (192 + c div 64), byte (128 + c mod 64)]"
  | "c < 65536" "b = [byte (224 + c div 4096), byte (128 + c div 64 mod 64), byte (128 + c mod 64)]"
  | "c < 1114112" "b = [byte (240 + c div 262144), byte (128 + c div 4096 mod 64),
        byte (128 + c div 64 mod 64), byte (128 + c mod 64)]"
  using assms unfolding utf8_char_def by (metis option.distinct(1) option.inject)

lemma low_bits_bound [simp]: "128 + c mod 64 < (256::nat)"
  by (rule less_trans [of _ "128 + 64"]) simp_all

lemma utf8_value_char:
  assumes "utf8_char c = Some b"
  shows "utf8_value b = c"
  using assms
proof (cases rule: utf8_char_cases)
  case 1
  then show ?thesis by (simp add: utf8_value_def)
next
  case 2
  have "192 + c div 64 < 256" using 2 by simp
  with 2 show ?thesis by (simp add: utf8_value_def)
next
  case 3
  have "224 + c div 4096 < 256" using 3 by simp
  with 3 show ?thesis using split_base64(1) [of c] by (simp add: utf8_value_def)
next
  case 4
  have "240 + c div 262144 < 256" using 4 by simp
  with 4 show ?thesis using split_base64(2) [of c] by (simp add: utf8_value_def)
qed

lemma utf8_char_inj: "utf8_char c = Some b \<Longrightarrow> utf8_char d = Some b \<Longrightarrow> c = d"
  using utf8_value_char by blast

lemma utf8_encode_inj:
  "utf8_encode s = Some b \<Longrightarrow> utf8_encode t = Some b \<Longrightarrow> s = t"
proof (induction s arbitrary: t b)
  case Nil
  then show ?case by (cases t) (auto split: option.splits dest: utf8_char_length)
next
  case (Cons c s)
  obtain x xs where x: "utf8_char c = Some x" "utf8_encode s = Some xs" "b = x @ xs"
    using Cons.prems(1) by (auto split: option.splits)
  obtain d t' y ys where y: "t = d # t'" "utf8_char d = Some y" "utf8_encode t' = Some ys" "b = y @ ys"
    using Cons.prems(2) x utf8_char_length [OF x(1)] by (cases t) (auto split: option.splits)
  have "hd x = hd y" using x y utf8_char_width by (metis hd_append2)
  then have len: "length x = length y" using utf8_char_width x(1) y(2) by metis
  with x(3) y(4) have "x = y" "xs = ys" by auto
  then show ?case using Cons.IH [OF x(2)] utf8_char_inj x(1) y by auto
qed

section \<open>Decimal rendering\<close>

text \<open>\<open>str(n)\<close> of a natural number: its digits as code points, most significant first.\<close>

fun digits_of_nat :: "nat \<Rightarrow> pystr" where
  "digits_of_nat n = (if n < 10 then [48 + n] else digits_of_nat (n div 10) @ [48 + n mod 10])"

declare digits_of_nat.simps [simp del]

definition is_digit :: "nat \<Rightarrow> bool" where
  "is_digit c \<longleftrightarrow> 48 \<le> c \<and> c \<le> 57"

fun nat_of_digits :: "pystr \<Rightarrow> nat" where
  "nat_of_digits s = foldl (\<lambda>a c. 10 * a + (c - 48)) 0 s"

declare nat_of_digits.simps [simp del]

definition str_of_int :: "int \<Rightarrow> pystr" where
  "str_of_int i = (if i < 0 then 45 # digits_of_nat (nat (- i)) else digits_of_nat (nat i))"

text \<open>The format \<open>{n:02d}\<close>, and \<open>{n:0kd}\<close> in general.\<close>

definition zero_pad :: "nat \<Rightarrow> nat \<Rightarrow> pystr" where
  "zero_pad k n = replicate (k - length (digits_of_nat n)) 48 @ digits_of_nat n"

lemma digits_of_nat_digits: "\<forall>c \<in> set (digits_of_nat n). is_digit c"
proof (induction n rule: digits_of_nat.induct)
  case (1 n)
  then show ?case by (subst digits_of_nat.simps) (auto simp: is_digit_def)
qed

lemma digits_of_nat_nonempty [simp]: "digits_of_nat n \<noteq> []"
  by (subst digits_of_nat.simps) simp

lemma nat_of_digits_snoc: "nat_of_digits (s @ [c]) = 10 * nat_of_digits s + (c - 48)"
  by (simp add: nat_of_digits.simps)

lemma nat_of_digits_Nil [simp]: "nat_of_digits [] = 0"
  by (simp add: nat_of_digits.simps)

lemma nat_of_digits_of_nat [simp]: "nat_of_digits (digits_of_nat n) = n"
proof (induction n rule: digits_of_nat.induct)
  case (1 n)
  show ?case
  proof (cases "n < 10")
    case True
    then show ?thesis by (subst digits_of_nat.simps) (simp add: nat_of_digits.simps)
  next
    case False
    then show ?thesis using 1 by (subst digits_of_nat.simps) (simp add: nat_of_digits_snoc)
  qed
qed

lemma digits_of_nat_inj [simp]: "digits_of_nat m = digits_of_nat n \<longleftrightarrow> m = n"
  by (metis nat_of_digits_of_nat)

lemma nat_of_digits_append:
  "nat_of_digits (s @ t) = nat_of_digits s * 10 ^ length t + nat_of_digits t"
proof (induction t rule: rev_induct)
  case (snoc c t)
  have "nat_of_digits (s @ t @ [c]) = 10 * nat_of_digits (s @ t) + (c - 48)"
    using nat_of_digits_snoc [of "s @ t"] by simp
  then show ?case using snoc by (simp add: nat_of_digits_snoc algebra_simps)
qed simp

lemma nat_of_digits_replicate_zero [simp]: "nat_of_digits (replicate k 48 @ s) = nat_of_digits s"
proof -
  have "nat_of_digits (replicate k 48) = 0"
  proof (induction k)
    case (Suc k)
    then show ?case
      using nat_of_digits_snoc [of "replicate k 48" 48] by (simp add: replicate_append_same)
  qed simp
  then show ?thesis by (simp add: nat_of_digits_append)
qed

lemma nat_of_digits_zero_pad [simp]: "nat_of_digits (zero_pad k n) = n"
  by (simp add: zero_pad_def)

lemma digits_of_nat_bound: "n < 10 ^ k \<Longrightarrow> 0 < k \<Longrightarrow> length (digits_of_nat n) \<le> k"
proof (induction n arbitrary: k rule: digits_of_nat.induct)
  case (1 n)
  show ?case
  proof (cases "n < 10")
    case True
    then show ?thesis using 1 by (subst digits_of_nat.simps) simp
  next
    case False
    then obtain j where j: "k = Suc j" "0 < j"
      using "1.prems" by (cases k; cases "k - 1") auto
    have "n div 10 < 10 ^ j" using "1.prems" j by simp
    then have "length (digits_of_nat (n div 10)) \<le> j" using "1.IH" False j by blast
    then show ?thesis using False j by (subst digits_of_nat.simps) simp
  qed
qed

lemma length_zero_pad: "n < 10 ^ k \<Longrightarrow> 0 < k \<Longrightarrow> length (zero_pad k n) = k"
  using digits_of_nat_bound [of n k] by (simp add: zero_pad_def)

lemma zero_pad_digits: "\<forall>c \<in> set (zero_pad k n). is_digit c"
  using digits_of_nat_digits [of n] by (auto simp: zero_pad_def is_digit_def)

lemma is_digit_ascii: "is_digit c \<Longrightarrow> c < 128"
  by (simp add: is_digit_def)

lemma digits_of_nat_ascii: "c \<in> set (digits_of_nat n) \<Longrightarrow> c < 128"
  using digits_of_nat_digits [of n] is_digit_ascii by blast

lemma str_of_int_ascii: "\<forall>c \<in> set (str_of_int i). c < 128"
  by (auto simp: str_of_int_def dest: digits_of_nat_ascii)

lemma str_of_int_inj: "str_of_int i = str_of_int j \<longleftrightarrow> i = j"
proof -
  have nd: "hd (digits_of_nat n) \<noteq> 45" for n
    using digits_of_nat_digits [of n] hd_in_set [OF digits_of_nat_nonempty [of n]]
    by (force simp: is_digit_def)
  have "\<And>m n. 45 # digits_of_nat m \<noteq> digits_of_nat n"
    using nd by (metis list.sel(1))
  then show ?thesis by (auto simp: str_of_int_def) (metis nat_0_le neg_le_iff_le)
qed

text \<open>Canonical digits: no leading zero unless the number is zero itself.\<close>

lemma digits_of_nat_hd: "0 < n \<Longrightarrow> hd (digits_of_nat n) \<noteq> 48"
proof (induction n rule: digits_of_nat.induct)
  case (1 n)
  then show ?case by (subst digits_of_nat.simps) (auto simp: hd_append)
qed

section \<open>Hexadecimal digest grammars\<close>

definition is_hex :: "nat \<Rightarrow> bool" where
  "is_hex c \<longleftrightarrow> (48 \<le> c \<and> c \<le> 57) \<or> (97 \<le> c \<and> c \<le> 102)"

lemma is_hex_ascii: "is_hex c \<Longrightarrow> c < 128"
  by (auto simp: is_hex_def)

text \<open>
  A string of the form \<open>prefix\<close> followed by 64 lower-case hexadecimal digits.  This is what
  \<open>_is_prefixed_sha256\<close> decides and what the regular expressions
  \<open>prefix[0-9a-f]{64}\<close> match in full.
\<close>

definition prefixed_hex64 :: "pystr \<Rightarrow> pystr \<Rightarrow> bool" where
  "prefixed_hex64 p s \<longleftrightarrow>
     length s = length p + 64 \<and> startswith s p \<and> (\<forall>c \<in> set (drop (length p) s). is_hex c)"

lemma prefixed_hex64_mint:
  "length h = 64 \<Longrightarrow> \<forall>c \<in> set h. is_hex c \<Longrightarrow> prefixed_hex64 p (p @ h)"
  by (simp add: prefixed_hex64_def)

lemma prefixed_hex64_ascii:
  assumes "\<forall>c \<in> set p. c < 128" and "prefixed_hex64 p s"
  shows "\<forall>c \<in> set s. c < 128"
proof -
  obtain r where r: "s = p @ r" using assms(2) by (auto simp: prefixed_hex64_def startswith_iff)
  with assms show ?thesis by (auto simp: prefixed_hex64_def is_hex_ascii)
qed

lemma prefixed_hex64_length: "prefixed_hex64 p s \<Longrightarrow> length s = length p + 64"
  by (simp add: prefixed_hex64_def)

end
