(* ===== verification/PyRegex.thy ===== *)
theory PyRegex
  imports PyText
begin

text \<open>
  The regular expressions of the module \<open>re\<close> the code uses, as a backtracking matcher: the list of
  all ways a pattern matches at a position, in the order in which the engine tries them, the first being
  the match.  Text already consumed is kept reversed beside the text that remains, so that
  look-behind and positions need no index.  \<open>search\<close> and \<open>finditer\<close> are the methods of a compiled pattern.  The
  patterns of the program have at most one group, which takes part in every match; it is the
  third component of a position.
\<close>

section \<open>Characters\<close>

text \<open>
  What the engine asks of the character database: \<open>str.isalnum\<close> (which, with the underscore, is
  \<open>\w\<close>), the simple lower case, and whether the general category is one of the
  groups C and M.  \<open>\d\<close> is the decimal property of \<open>unicode_db\<close> and \<open>\s\<close> is \<open>str.isspace\<close>.
\<close>

record re_db =
  re_alnum :: "nat \<Rightarrow> bool"
  re_lower :: "nat \<Rightarrow> nat"
  re_control_or_mark :: "nat \<Rightarrow> bool"

datatype cls = ClsRange nat nat | ClsWord | ClsNotWord | ClsDigit | ClsSpace

text \<open>
  \<open>Fold c\<close> is a cased letter under \<open>IGNORECASE\<close>, \<open>Lit c\<close> a character without case.  The engine adds to the
  lower case of a letter the few letters listed in \<open>re._casefix\<close>, of which the
  patterns meet the dotless i and the long s.
\<close>

datatype one = Lit nat | Fold nat | AnyChar | InCls "cls list" | NotInCls "cls list"

definition word_char :: "re_db \<Rightarrow> nat \<Rightarrow> bool" where
  "word_char R c \<longleftrightarrow> re_alnum R c \<or> c = 95"

fun in_cls :: "unicode_db \<Rightarrow> re_db \<Rightarrow> cls \<Rightarrow> nat \<Rightarrow> bool" where
  "in_cls U R (ClsRange a b) c \<longleftrightarrow> a \<le> c \<and> c \<le> b"
| "in_cls U R ClsWord c \<longleftrightarrow> word_char R c"
| "in_cls U R ClsNotWord c \<longleftrightarrow> \<not> word_char R c"
| "in_cls U R ClsDigit c \<longleftrightarrow> ud_decimal U c \<noteq> None"
| "in_cls U R ClsSpace c \<longleftrightarrow> py_isspace c"

definition extra_cases :: "nat \<Rightarrow> nat list" where
  "extra_cases c = (if c = 105 then [305] else if c = 115 then [383] else [])"

fun one_matches :: "unicode_db \<Rightarrow> re_db \<Rightarrow> one \<Rightarrow> nat \<Rightarrow> bool" where
  "one_matches U R (Lit a) c \<longleftrightarrow> c = a"
| "one_matches U R (Fold a) c \<longleftrightarrow> re_lower R c = a \<or> re_lower R c \<in> set (extra_cases a)"
| "one_matches U R AnyChar c \<longleftrightarrow> True"
| "one_matches U R (InCls ks) c \<longleftrightarrow> list_ex (\<lambda>k. in_cls U R k c) ks"
| "one_matches U R (NotInCls ks) c \<longleftrightarrow> \<not> list_ex (\<lambda>k. in_cls U R k c) ks"

text \<open>
  The documented facts about the database the proofs use: it agrees with ASCII, a character is alphanumeric when its
  lower case is, the letters with a tilde or cedilla, the dotless i and the long s are letters, and white
  space is not alphanumeric.
\<close>

definition re_ok :: "re_db \<Rightarrow> bool" where
  "re_ok R \<longleftrightarrow>
     (\<forall>c < 128. re_alnum R c \<longleftrightarrow> 48 \<le> c \<and> c \<le> 57 \<or> 65 \<le> c \<and> c \<le> 90 \<or> 97 \<le> c \<and> c \<le> 122)
   \<and> (\<forall>c < 128. re_lower R c = (if 65 \<le> c \<and> c \<le> 90 then c + 32 else c))
   \<and> (\<forall>c. re_alnum R (re_lower R c) = re_alnum R c)
   \<and> (\<forall>c \<in> {227, 231, 245, 305, 383}. re_alnum R c)
   \<and> (\<forall>c. py_isspace c \<longrightarrow> \<not> re_alnum R c)"

definition latin_re :: re_db where
  "latin_re = \<lparr>
     re_alnum = (\<lambda>c. 48 \<le> c \<and> c \<le> 57 \<or> 65 \<le> c \<and> c \<le> 90 \<or> 97 \<le> c \<and> c \<le> 122 \<or> c \<in> {227, 231, 245, 305, 383}),
     re_lower = (\<lambda>c. if 65 \<le> c \<and> c \<le> 90 then c + 32 else c),
     re_control_or_mark = (\<lambda>c. c < 32 \<or> c = 127)\<rparr>"

lemma latin_re_ok: "re_ok latin_re"
  by (auto simp: re_ok_def latin_re_def py_isspace_def)

section \<open>Patterns\<close>

datatype rx =
    RxEps
  | RxOne one
  | RxSeq rx rx
  | RxAlt rx rx
  | RxStar rx
  | RxLook rx
  | RxNotLook rx
  | RxNotBehind one
  | RxAtomic rx
  | RxGroup rx
  | RxEnd

fun rx_seqs :: "rx list \<Rightarrow> rx" where
  "rx_seqs [] = RxEps"
| "rx_seqs [r] = r"
| "rx_seqs (r # rs) = RxSeq r (rx_seqs rs)"

text \<open>An alternation has at least one branch.\<close>

fun rx_alts :: "rx list \<Rightarrow> rx" where
  "rx_alts [] = RxNotLook RxEps"
| "rx_alts [r] = r"
| "rx_alts (r # rs) = RxAlt r (rx_alts rs)"

definition rx_opt :: "rx \<Rightarrow> rx" where
  "rx_opt r = RxAlt r RxEps"

definition rx_plus :: "rx \<Rightarrow> rx" where
  "rx_plus r = RxSeq r (RxStar r)"

definition rx_fold :: "pystr \<Rightarrow> rx" where
  "rx_fold s = rx_seqs (map (\<lambda>c. RxOne (Fold c)) s)"

section \<open>Matching\<close>

type_synonym rx_state = "pystr \<times> pystr \<times> pystr"

text \<open>Greedy iteration; as in the engine, an iteration that consumes nothing is not repeated.\<close>

function star_run :: "(rx_state \<Rightarrow> rx_state list) \<Rightarrow> rx_state \<Rightarrow> rx_state list" where
  "star_run f s =
     concat (map (star_run f) (filter (\<lambda>t. length (fst (snd t)) < length (fst (snd s))) (f s))) @ [s]"
  by pat_completeness auto

termination
  by (relation "measure (\<lambda>(f, s). length (fst (snd s)))") auto

declare star_run.simps [simp del]

text \<open>What a group captured: the text consumed since it was opened.\<close>

definition captured :: "pystr \<Rightarrow> pystr \<Rightarrow> pystr" where
  "captured r r' = take (length r - length r') r"

primrec run :: "unicode_db \<Rightarrow> re_db \<Rightarrow> rx \<Rightarrow> rx_state \<Rightarrow> rx_state list" where
  "run U R RxEps s = [s]"
| "run U R (RxOne k) s =
     (case s of (b, r, g) \<Rightarrow>
        (case r of [] \<Rightarrow> [] | c # r' \<Rightarrow> if one_matches U R k c then [(c # b, r', g)] else []))"
| "run U R (RxSeq p q) s = concat (map (run U R q) (run U R p s))"
| "run U R (RxAlt p q) s = run U R p s @ run U R q s"
| "run U R (RxStar p) s = star_run (run U R p) s"
| "run U R (RxLook p) s = (if run U R p s = [] then [] else [s])"
| "run U R (RxNotLook p) s = (if run U R p s = [] then [s] else [])"
| "run U R (RxNotBehind k) s =
     (case s of (b, r, g) \<Rightarrow> if b \<noteq> [] \<and> one_matches U R k (hd b) then [] else [s])"
| "run U R (RxAtomic p) s = take 1 (run U R p s)"
| "run U R (RxGroup p) s =
     (case s of (b, r, g) \<Rightarrow> map (\<lambda>(b', r', g'). (b', r', captured r r')) (run U R p s))"
| "run U R RxEnd s = (case s of (b, r, g) \<Rightarrow> if r = [] then [s] else [])"

text \<open>\<open>pattern.search(text)\<close> from a position: the first position at which the pattern matches.\<close>

fun search :: "unicode_db \<Rightarrow> re_db \<Rightarrow> rx \<Rightarrow> pystr \<Rightarrow> pystr \<Rightarrow> rx_state option" where
  "search U R p b r =
     (case run U R p (b, r, []) of
        s # _ \<Rightarrow> Some s
      | [] \<Rightarrow> (case r of [] \<Rightarrow> None | c # r' \<Rightarrow> search U R p (c # b) r'))"

declare search.simps [simp del]

definition rx_search :: "unicode_db \<Rightarrow> re_db \<Rightarrow> rx \<Rightarrow> pystr \<Rightarrow> rx_state option" where
  "rx_search U R p t = search U R p [] t"

text \<open>
  The groups of \<open>pattern.finditer(text)\<close>: non-overlapping matches from left to right.  The patterns it is used with match
  no empty text.
\<close>

function finditer :: "unicode_db \<Rightarrow> re_db \<Rightarrow> rx \<Rightarrow> pystr \<Rightarrow> pystr \<Rightarrow> pystr list" where
  "finditer U R p b r =
     (case search U R p b r of
        None \<Rightarrow> []
      | Some (b', r', g) \<Rightarrow> g # (if length r' < length r then finditer U R p b' r' else []))"
  by pat_completeness auto

termination
  by (relation "measure (\<lambda>(U, R, p, b, r). length r)") auto

declare finditer.simps [simp del]

definition rx_finditer :: "unicode_db \<Rightarrow> re_db \<Rightarrow> rx \<Rightarrow> pystr \<Rightarrow> pystr list" where
  "rx_finditer U R p t = finditer U R p [] t"

section \<open>What a match consumes\<close>

abbreviation before :: "rx_state \<Rightarrow> pystr" where "before s \<equiv> fst s"
abbreviation rest :: "rx_state \<Rightarrow> pystr" where "rest s \<equiv> fst (snd s)"
abbreviation grp :: "rx_state \<Rightarrow> pystr" where "grp s \<equiv> snd (snd s)"

definition consumes :: "rx_state \<Rightarrow> pystr \<Rightarrow> rx_state \<Rightarrow> bool" where
  "consumes s m t \<longleftrightarrow> rest s = m @ rest t \<and> before t = rev m @ before s"

lemma consumes_refl [simp]: "consumes s [] s"
  by (simp add: consumes_def)

lemma consumes_trans: "consumes s m t \<Longrightarrow> consumes t n v \<Longrightarrow> consumes s (m @ n) v"
  by (simp add: consumes_def)

lemma consumes_unique: "consumes s m t \<Longrightarrow> consumes s n t \<Longrightarrow> m = n"
  by (simp add: consumes_def)

lemma consumes_length: "consumes s m t \<Longrightarrow> length (rest s) = length m + length (rest t)"
  by (simp add: consumes_def)

text \<open>The possible results of an iteration are those of a chain of shortening steps.\<close>

lemma in_star_run:
  "t \<in> set (star_run f s) \<longleftrightarrow>
     t = s \<or> (\<exists>s' \<in> set (f s). length (rest s') < length (rest s) \<and> t \<in> set (star_run f s'))"
proof -
  have "set (star_run f s) =
    insert s (\<Union>s' \<in> {s' \<in> set (f s). length (rest s') < length (rest s)}. set (star_run f s'))"
    by (subst star_run.simps) simp
  then show ?thesis by blast
qed

lemma star_run_induct [consumes 1, case_names stop iter]:
  assumes "t \<in> set (star_run f s)"
    and "\<And>s. Q s s"
    and "\<And>s s' t. s' \<in> set (f s) \<Longrightarrow> length (rest s') < length (rest s) \<Longrightarrow> t \<in> set (star_run f s') \<Longrightarrow> Q s' t \<Longrightarrow> Q s t"
  shows "Q s t"
  using assms(1)
proof (induction "length (rest s)" arbitrary: s rule: less_induct)
  case less
  from less.prems have "t = s \<or> (\<exists>s' \<in> set (f s). length (rest s') < length (rest s) \<and> t \<in> set (star_run f s'))"
    using in_star_run [of t f s] by blast
  then show ?case
  proof (elim disjE bexE conjE)
    assume "t = s"
    then show ?thesis using assms(2) by simp
  next
    fix s' assume s': "s' \<in> set (f s)" "length (rest s') < length (rest s)" "t \<in> set (star_run f s')"
    have "Q s' t" by (rule less.hyps [OF s'(2,3)])
    then show ?thesis by (rule assms(3) [OF s'])
  qed
qed

lemma star_run_stop: "s \<in> set (star_run f s)"
  by (subst in_star_run) blast

lemma star_run_step:
  "s' \<in> set (f s) \<Longrightarrow> length (rest s') < length (rest s) \<Longrightarrow> t \<in> set (star_run f s') \<Longrightarrow> t \<in> set (star_run f s)"
  by (subst in_star_run) blast

lemma in_run_seq:
  "t \<in> set (run U R (RxSeq p q) s) \<longleftrightarrow> (\<exists>v \<in> set (run U R p s). t \<in> set (run U R q v))"
  by (simp del: split_paired_Ex)

lemma in_run_seqI: "v \<in> set (run U R p s) \<Longrightarrow> t \<in> set (run U R q v) \<Longrightarrow> t \<in> set (run U R (RxSeq p q) s)"
  unfolding in_run_seq by blast

lemma in_run_seqE:
  assumes "t \<in> set (run U R (RxSeq p q) s)"
  obtains v where "v \<in> set (run U R p s)" and "t \<in> set (run U R q v)"
  using assms unfolding in_run_seq by blast

lemma in_run_atomic: "t \<in> set (run U R (RxAtomic p) s) \<Longrightarrow> t \<in> set (run U R p s)"
  by (auto dest: in_set_takeD)

lemma in_run_group:
  "t \<in> set (run U R (RxGroup p) s) \<longleftrightarrow>
     (\<exists>v \<in> set (run U R p s). t = (before v, rest v, captured (rest s) (rest v)))"
  by (cases s) force

lemma in_run_star: "t \<in> set (run U R (RxStar p) s) \<longleftrightarrow> t \<in> set (star_run (run U R p) s)"
  by simp

text \<open>
  A pattern whose characters all satisfy \<open>P\<close> consumes only such characters.
\<close>

primrec chars_in :: "(nat \<Rightarrow> bool) \<Rightarrow> unicode_db \<Rightarrow> re_db \<Rightarrow> rx \<Rightarrow> bool" where
  "chars_in P U R RxEps \<longleftrightarrow> True"
| "chars_in P U R (RxOne k) \<longleftrightarrow> (\<forall>c. one_matches U R k c \<longrightarrow> P c)"
| "chars_in P U R (RxSeq p q) \<longleftrightarrow> chars_in P U R p \<and> chars_in P U R q"
| "chars_in P U R (RxAlt p q) \<longleftrightarrow> chars_in P U R p \<and> chars_in P U R q"
| "chars_in P U R (RxStar p) \<longleftrightarrow> chars_in P U R p"
| "chars_in P U R (RxLook p) \<longleftrightarrow> True"
| "chars_in P U R (RxNotLook p) \<longleftrightarrow> True"
| "chars_in P U R (RxNotBehind k) \<longleftrightarrow> True"
| "chars_in P U R (RxAtomic p) \<longleftrightarrow> chars_in P U R p"
| "chars_in P U R (RxGroup p) \<longleftrightarrow> chars_in P U R p"
| "chars_in P U R RxEnd \<longleftrightarrow> True"

lemma run_consumes:
  "t \<in> set (run U R p s) \<Longrightarrow> chars_in P U R p \<Longrightarrow> \<exists>m. consumes s m t \<and> (\<forall>c \<in> set m. P c)"
proof (induction p arbitrary: s t)
  case (RxOne k)
  then show ?case by (auto simp: consumes_def split: prod.splits list.splits if_splits)
next
  case (RxSeq p q)
  from RxSeq.prems(1) obtain v where v: "v \<in> set (run U R p s)" "t \<in> set (run U R q v)" unfolding in_run_seq by blast
  obtain m where m: "consumes s m v" "\<forall>c \<in> set m. P c" using RxSeq.IH(1) [OF v(1)] RxSeq.prems(2) unfolding chars_in.simps by blast
  obtain n where n: "consumes v n t" "\<forall>c \<in> set n. P c" using RxSeq.IH(2) [OF v(2)] RxSeq.prems(2) unfolding chars_in.simps by blast
  show ?case using consumes_trans [OF m(1) n(1)] m(2) n(2) by (intro exI [of _ "m @ n"]) auto
next
  case (RxStar p)
  from RxStar.prems(1) have "t \<in> set (star_run (run U R p) s)" by simp
  then show ?case
  proof (induction rule: star_run_induct)
    case (stop s)
    then show ?case by (intro exI [of _ "[]"]) simp
  next
    case (iter s s' t)
    obtain m where m: "consumes s m s'" "\<forall>c \<in> set m. P c"
      using RxStar.IH [OF iter(1)] RxStar.prems(2) unfolding chars_in.simps by blast
    obtain n where n: "consumes s' n t" "\<forall>c \<in> set n. P c" using iter(4) by blast
    show ?case using consumes_trans [OF m(1) n(1)] m(2) n(2) by (intro exI [of _ "m @ n"]) auto
  qed
next
  case (RxGroup p)
  then obtain v where "v \<in> set (run U R p s)" "rest t = rest v" "before t = before v"
    unfolding in_run_group by auto
  with RxGroup.IH RxGroup.prems(2) show ?case by (simp add: consumes_def)
next
  case (RxAtomic p)
  show ?case using RxAtomic.IH [OF in_run_atomic [OF RxAtomic.prems(1)]] RxAtomic.prems(2) by simp
qed (auto simp: consumes_def split: if_splits prod.splits)

lemma chars_in_True [simp]: "chars_in (\<lambda>c. True) U R p"
  by (induction p) auto

lemma run_split: "t \<in> set (run U R p s) \<Longrightarrow> \<exists>m. consumes s m t"
  using run_consumes [of t U R p s "\<lambda>c. True"] by auto

text \<open>The least number of characters a match consumes.\<close>

primrec min_length :: "rx \<Rightarrow> nat" where
  "min_length RxEps = 0"
| "min_length (RxOne k) = 1"
| "min_length (RxSeq p q) = min_length p + min_length q"
| "min_length (RxAlt p q) = min (min_length p) (min_length q)"
| "min_length (RxStar p) = 0"
| "min_length (RxLook p) = 0"
| "min_length (RxNotLook p) = 0"
| "min_length (RxNotBehind k) = 0"
| "min_length (RxAtomic p) = min_length p"
| "min_length (RxGroup p) = min_length p"
| "min_length RxEnd = 0"

lemma run_min_length: "t \<in> set (run U R p s) \<Longrightarrow> length (rest t) + min_length p \<le> length (rest s)"
proof (induction p arbitrary: s t)
  case (RxSeq p q)
  then obtain v where "v \<in> set (run U R p s)" "t \<in> set (run U R q v)" unfolding in_run_seq by blast
  from RxSeq.IH(1) [OF this(1)] RxSeq.IH(2) [OF this(2)] show ?case by simp
next
  case (RxAlt p q)
  then have "t \<in> set (run U R p s) \<or> t \<in> set (run U R q s)" by simp
  with RxAlt.IH [of t s] show ?case by (metis min_length.simps(4) min.cobounded1 min.cobounded2 add_left_mono order_trans)
next
  case (RxStar p)
  then have "t \<in> set (star_run (run U R p) s)" by simp
  then have "length (rest t) \<le> length (rest s)" by (induction rule: star_run_induct) auto
  then show ?case by simp
next
  case (RxAtomic p)
  show ?case using RxAtomic.IH [OF in_run_atomic [OF RxAtomic.prems]] by simp
next
  case (RxGroup p)
  then obtain v where "v \<in> set (run U R p s)" "rest t = rest v" unfolding in_run_group by auto
  with RxGroup.IH show ?case by simp
qed (auto split: if_splits prod.splits list.splits)

text \<open>A pattern without a group leaves the captured text alone.\<close>

primrec groupless :: "rx \<Rightarrow> bool" where
  "groupless RxEps \<longleftrightarrow> True"
| "groupless (RxOne k) \<longleftrightarrow> True"
| "groupless (RxSeq p q) \<longleftrightarrow> groupless p \<and> groupless q"
| "groupless (RxAlt p q) \<longleftrightarrow> groupless p \<and> groupless q"
| "groupless (RxStar p) \<longleftrightarrow> groupless p"
| "groupless (RxLook p) \<longleftrightarrow> True"
| "groupless (RxNotLook p) \<longleftrightarrow> True"
| "groupless (RxNotBehind k) \<longleftrightarrow> True"
| "groupless (RxAtomic p) \<longleftrightarrow> groupless p"
| "groupless (RxGroup p) \<longleftrightarrow> False"
| "groupless RxEnd \<longleftrightarrow> True"

lemma run_groupless: "t \<in> set (run U R p s) \<Longrightarrow> groupless p \<Longrightarrow> grp t = grp s"
proof (induction p arbitrary: s t)
  case (RxStar p)
  then have "t \<in> set (star_run (run U R p) s)" by simp
  then show ?case
  proof (induction rule: star_run_induct)
    case (iter s s' t)
    with RxStar.IH [OF iter(1)] RxStar.prems(2) show ?case by simp
  qed simp
next
  case (RxSeq p q)
  from RxSeq.prems(1) obtain v where "v \<in> set (run U R p s)" "t \<in> set (run U R q v)"
    unfolding in_run_seq by blast
  with RxSeq show ?case by simp
next
  case (RxAtomic p)
  then show ?case using in_run_atomic [of t U R p s] by simp
qed (auto split: if_splits prod.splits list.splits)

section \<open>Matches of simple patterns\<close>

lemma run_one: "run U R (RxOne k) (b, c # r, g) = (if one_matches U R k c then [(c # b, r, g)] else [])"
  by simp

lemma star_one_reaches:
  "\<forall>c \<in> set m. one_matches U R k c \<Longrightarrow> (rev m @ b, r, g) \<in> set (run U R (RxStar (RxOne k)) (b, m @ r, g))"
proof (induction m arbitrary: b)
  case Nil
  then show ?case unfolding in_run_star by (simp add: star_run_stop)
next
  case (Cons c m)
  then have "(rev m @ c # b, r, g) \<in> set (star_run (run U R (RxOne k)) (c # b, m @ r, g))"
    unfolding in_run_star [symmetric] by simp
  then have "(rev m @ c # b, r, g) \<in> set (star_run (run U R (RxOne k)) (b, (c # m) @ r, g))"
    by (rule star_run_step [rotated 2]) (use Cons.prems in simp_all)
  then show ?case unfolding in_run_star by simp
qed

lemma plus_one_reaches:
  assumes "m \<noteq> []" and "\<forall>c \<in> set m. one_matches U R k c"
  shows "(rev m @ b, r, g) \<in> set (run U R (rx_plus (RxOne k)) (b, m @ r, g))"
proof -
  obtain c n where m: "m = c # n" using assms(1) by (cases m) auto
  have "(rev n @ c # b, r, g) \<in> set (run U R (RxStar (RxOne k)) (c # b, n @ r, g))"
    using assms(2) m by (intro star_one_reaches) simp
  moreover have "(c # b, n @ r, g) \<in> set (run U R (RxOne k) (b, m @ r, g))" using assms(2) m by simp
  ultimately show ?thesis unfolding rx_plus_def in_run_seq by (auto simp: m)
qed

text \<open>What a plus over a character class consumes.\<close>

lemma plus_one_consumes:
  assumes "t \<in> set (run U R (rx_plus (RxOne k)) s)"
  shows "\<exists>m. m \<noteq> [] \<and> consumes s m t \<and> (\<forall>c \<in> set m. one_matches U R k c)"
proof -
  have "chars_in (\<lambda>c. one_matches U R k c) U R (rx_plus (RxOne k))" by (simp add: rx_plus_def)
  from run_consumes [OF assms this] obtain m where m: "consumes s m t" "\<forall>c \<in> set m. one_matches U R k c" by blast
  have "length (rest t) < length (rest s)" using run_min_length [OF assms] by (simp add: rx_plus_def)
  then have "m \<noteq> []" using consumes_length [OF m(1)] by auto
  with m show ?thesis by blast
qed

lemma run_look_empty: "run U R (RxNotLook p) s \<noteq> [] \<longleftrightarrow> run U R p s = []"
  by simp

text \<open>Text that spells a word, letter by letter and without regard to case.\<close>

definition spells :: "unicode_db \<Rightarrow> re_db \<Rightarrow> pystr \<Rightarrow> pystr \<Rightarrow> bool" where
  "spells U R w l \<longleftrightarrow> list_all2 (\<lambda>a c. one_matches U R (Fold a) c) w l"

lemma spells_length: "spells U R w l \<Longrightarrow> length l = length w"
  by (auto simp: spells_def dest: list_all2_lengthD)

lemma run_fold_Cons: "run U R (rx_fold (a # w)) s = run U R (RxSeq (RxOne (Fold a)) (rx_fold w)) s"
  by (cases w) (auto simp: rx_fold_def split: prod.split list.split)

lemma run_fold:
  "run U R (rx_fold w) (b, r, g) =
     (if length w \<le> length r \<and> spells U R w (take (length w) r)
      then [(rev (take (length w) r) @ b, drop (length w) r, g)] else [])"
proof (induction w arbitrary: b r)
  case Nil
  then show ?case by (simp add: rx_fold_def spells_def)
next
  case (Cons a w)
  show ?case
  proof (cases r)
    case Nil
    then show ?thesis by (simp add: run_fold_Cons)
  next
    case (Cons c r')
    then show ?thesis by (simp add: run_fold_Cons Cons.IH spells_def del: one_matches.simps)
  qed
qed

lemma run_fold_spells: "spells U R w l \<Longrightarrow> run U R (rx_fold w) (b, l @ r, g) = [(rev l @ b, r, g)]"
  by (simp add: run_fold spells_length)

lemma run_fold_consumes: "t \<in> set (run U R (rx_fold w) s) \<Longrightarrow> \<exists>l. spells U R w l \<and> consumes s l t"
  by (cases s) (auto simp: run_fold consumes_def split: if_splits intro!: exI [of _ "take (length w) (fst (snd s))"])

text \<open>
  The sets of results of the building blocks, as equivalences: with them membership in the results of a
  pattern unfolds into what stands in the text.
\<close>

named_theorems rx_sets \<open>which positions a pattern can reach\<close>

lemma in_run_not_behind [rx_sets]:
  "t \<in> set (run U R (RxNotBehind k) s) \<longleftrightarrow>
     t = s \<and> (before s = [] \<or> \<not> one_matches U R k (hd (before s)))"
  by (cases s) auto

lemma in_run_not_ahead [rx_sets]:
  "t \<in> set (run U R (RxNotLook (RxOne k)) s) \<longleftrightarrow>
     t = s \<and> (rest s = [] \<or> \<not> one_matches U R k (hd (rest s)))"
  by (cases s) (auto split: list.splits)

lemma in_run_one [rx_sets]:
  "t \<in> set (run U R (RxOne k) s) \<longleftrightarrow> (\<exists>c. one_matches U R k c \<and> consumes s [c] t \<and> grp t = grp s)"
  by (cases s; cases t) (auto simp: consumes_def split: list.splits)

lemma in_run_plus_one [rx_sets]:
  "t \<in> set (run U R (rx_plus (RxOne k)) s) \<longleftrightarrow>
     (\<exists>m. m \<noteq> [] \<and> (\<forall>c \<in> set m. one_matches U R k c) \<and> consumes s m t \<and> grp t = grp s)"
proof
  assume t: "t \<in> set (run U R (rx_plus (RxOne k)) s)"
  have "grp t = grp s" by (rule run_groupless [OF t]) (simp add: rx_plus_def)
  with plus_one_consumes [OF t] show "\<exists>m. m \<noteq> [] \<and> (\<forall>c \<in> set m. one_matches U R k c) \<and> consumes s m t \<and> grp t = grp s"
    by blast
next
  assume "\<exists>m. m \<noteq> [] \<and> (\<forall>c \<in> set m. one_matches U R k c) \<and> consumes s m t \<and> grp t = grp s"
  then obtain m where m: "m \<noteq> []" "\<forall>c \<in> set m. one_matches U R k c" "consumes s m t" "grp t = grp s" by blast
  with plus_one_reaches [OF m(1,2), of "before s" "rest t" "grp t"]
  show "t \<in> set (run U R (rx_plus (RxOne k)) s)" by (simp add: consumes_def) (metis prod.collapse)
qed

lemma in_run_star_one [rx_sets]:
  "t \<in> set (run U R (RxStar (RxOne k)) s) \<longleftrightarrow>
     (\<exists>m. (\<forall>c \<in> set m. one_matches U R k c) \<and> consumes s m t \<and> grp t = grp s)"
proof
  assume t: "t \<in> set (run U R (RxStar (RxOne k)) s)"
  have "grp t = grp s" by (rule run_groupless [OF t]) simp
  moreover have "chars_in (\<lambda>c. one_matches U R k c) U R (RxStar (RxOne k))" by simp
  from run_consumes [OF t this] obtain m where "consumes s m t" "\<forall>c \<in> set m. one_matches U R k c" by blast
  ultimately show "\<exists>m. (\<forall>c \<in> set m. one_matches U R k c) \<and> consumes s m t \<and> grp t = grp s" by blast
next
  assume "\<exists>m. (\<forall>c \<in> set m. one_matches U R k c) \<and> consumes s m t \<and> grp t = grp s"
  then obtain m where m: "\<forall>c \<in> set m. one_matches U R k c" "consumes s m t" "grp t = grp s" by blast
  with star_one_reaches [OF m(1), of "before s" "rest t" "grp t"]
  show "t \<in> set (run U R (RxStar (RxOne k)) s)" by (simp add: consumes_def) (metis prod.collapse)
qed

lemma groupless_seqs: "\<forall>p \<in> set ps. groupless p \<Longrightarrow> groupless (rx_seqs ps)"
  by (induction ps rule: rx_seqs.induct) auto

lemma groupless_fold: "groupless (rx_fold w)"
  unfolding rx_fold_def by (rule groupless_seqs) auto

lemma in_run_fold [rx_sets]:
  "t \<in> set (run U R (rx_fold w) s) \<longleftrightarrow> (\<exists>l. spells U R w l \<and> consumes s l t \<and> grp t = grp s)"
proof
  assume t: "t \<in> set (run U R (rx_fold w) s)"
  with run_groupless [OF t groupless_fold] run_fold_consumes [OF t]
  show "\<exists>l. spells U R w l \<and> consumes s l t \<and> grp t = grp s" by blast
next
  assume "\<exists>l. spells U R w l \<and> consumes s l t \<and> grp t = grp s"
  then obtain l where l: "spells U R w l" "consumes s l t" "grp t = grp s" by blast
  have "run U R (rx_fold w) (before s, l @ rest t, grp s) = [(rev l @ before s, rest t, grp s)]"
    by (rule run_fold_spells [OF l(1)])
  with l(2,3) show "t \<in> set (run U R (rx_fold w) s)" by (cases s; cases t) (simp add: consumes_def)
qed

lemma captured_consumes: "consumes s m t \<Longrightarrow> captured (rest s) (rest t) = m"
  by (simp add: captured_def consumes_def)

lemma spells_append:
  "spells U R (v @ w) l \<longleftrightarrow> (\<exists>l1 l2. l = l1 @ l2 \<and> spells U R v l1 \<and> spells U R w l2)"
  unfolding spells_def list_all2_append1 by (blast dest: list_all2_lengthD [symmetric])

text \<open>A word followed by one of several endings is one of several words.\<close>

lemma in_run_alt: "t \<in> set (run U R (RxAlt p q) s) \<longleftrightarrow> t \<in> set (run U R p s) \<or> t \<in> set (run U R q s)"
  by simp

lemma in_run_seq_alt:
  "t \<in> set (run U R (RxSeq p (RxAlt q r)) s) \<longleftrightarrow>
     t \<in> set (run U R (RxSeq p q) s) \<or> t \<in> set (run U R (RxSeq p r) s)"
  unfolding in_run_seq in_run_alt by blast

lemma in_run_fold_fold:
  "t \<in> set (run U R (RxSeq (rx_fold v) (rx_fold w)) s) \<longleftrightarrow> t \<in> set (run U R (rx_fold (v @ w)) s)"
proof
  assume "t \<in> set (run U R (RxSeq (rx_fold v) (rx_fold w)) s)"
  then obtain x where x: "x \<in> set (run U R (rx_fold v) s)" "t \<in> set (run U R (rx_fold w) x)"
    unfolding in_run_seq by blast
  obtain l where "spells U R v l" "consumes s l x" "grp x = grp s" using x(1) unfolding in_run_fold by blast
  moreover obtain m where "spells U R w m" "consumes x m t" "grp t = grp x"
    using x(2) unfolding in_run_fold by blast
  ultimately have "spells U R (v @ w) (l @ m) \<and> consumes s (l @ m) t \<and> grp t = grp s"
    unfolding spells_append by (auto intro: consumes_trans)
  then show "t \<in> set (run U R (rx_fold (v @ w)) s)" unfolding in_run_fold by blast
next
  assume "t \<in> set (run U R (rx_fold (v @ w)) s)"
  then obtain l m where l: "spells U R v l" "spells U R w m" "consumes s (l @ m) t" "grp t = grp s"
    unfolding in_run_fold spells_append by blast
  let ?x = "(rev l @ before s, m @ rest t, grp s)"
  have "consumes s l ?x" "consumes ?x m t" using l(3) by (simp_all add: consumes_def)
  with l have "?x \<in> set (run U R (rx_fold v) s)" "t \<in> set (run U R (rx_fold w) ?x)"
    unfolding in_run_fold by auto
  then show "t \<in> set (run U R (RxSeq (rx_fold v) (rx_fold w)) s)" unfolding in_run_seq by blast
qed

lemma fold_one: "RxOne (Fold a) = rx_fold [a]"
  by (simp add: rx_fold_def)

lemma fold_none: "RxEps = rx_fold []"
  by (simp add: rx_fold_def)

section \<open>Searching\<close>

lemma search_finds:
  assumes "search U R p b r = Some s"
  shows "\<exists>pre r'. r = pre @ r' \<and> run U R p (rev pre @ b, r', []) \<noteq> []
           \<and> s = hd (run U R p (rev pre @ b, r', []))
           \<and> (\<forall>q q'. pre @ r' = q @ q' \<and> length q < length pre \<longrightarrow> run U R p (rev q @ b, q', []) = [])"
  using assms
proof (induction r arbitrary: b)
  case Nil
  then show ?case by (subst (asm) search.simps) (auto split: list.splits)
next
  case (Cons c r)
  show ?case
  proof (cases "run U R p (b, c # r, [])")
    case (Cons x xs)
    with Cons.prems have "s = x" by (subst (asm) search.simps) simp
    with Cons show ?thesis by (intro exI [of _ "[]"] exI [of _ "c # r"]) simp
  next
    case Nil
    with Cons.prems have "search U R p (c # b) r = Some s" by (subst (asm) search.simps) simp
    then obtain pre r' where h: "r = pre @ r'" "run U R p (rev pre @ c # b, r', []) \<noteq> []"
      "s = hd (run U R p (rev pre @ c # b, r', []))"
      "\<forall>q q'. pre @ r' = q @ q' \<and> length q < length pre \<longrightarrow> run U R p (rev q @ c # b, q', []) = []"
      using Cons.IH by metis
    have "run U R p (rev q @ b, q', []) = []" if "(c # pre) @ r' = q @ q'" "length q < length (c # pre)" for q q'
    proof (cases q)
      case Nil
      with that(1) \<open>run U R p (b, c # r, []) = []\<close> h(1) show ?thesis by simp
    next
      case (Cons d q2)
      with that h(4) show ?thesis by auto
    qed
    with h show ?thesis by (intro exI [of _ "c # pre"] exI [of _ r']) simp
  qed
qed

lemma search_complete:
  assumes "run U R p (rev pre @ b, r, []) \<noteq> []"
  shows "search U R p b (pre @ r) \<noteq> None"
  using assms
proof (induction pre arbitrary: b)
  case Nil
  then show ?case by (subst search.simps) (auto split: list.splits)
next
  case (Cons c pre)
  then have "search U R p (c # b) (pre @ r) \<noteq> None" by simp
  then show ?case by (subst search.simps) (auto split: list.splits)
qed

lemma rx_search_complete: "run U R p (rev pre, r, []) \<noteq> [] \<Longrightarrow> rx_search U R p (pre @ r) \<noteq> None"
  using search_complete [of U R p pre "[]" r] by (simp add: rx_search_def)

text \<open>An alternation is found nowhere when none of its branches is.\<close>

lemma search_alt_None: "search U R p b r = None \<Longrightarrow> search U R q b r = None \<Longrightarrow> search U R (RxAlt p q) b r = None"
proof (induction r arbitrary: b)
  case Nil
  then show ?case by (subst search.simps, subst (asm) (1 2) search.simps) (auto split: list.splits)
next
  case (Cons c r)
  have "run U R p (b, c # r, []) = [] \<and> search U R p (c # b) r = None"
    using Cons.prems(1) by (subst (asm) search.simps) (auto split: list.splits)
  moreover have "run U R q (b, c # r, []) = [] \<and> search U R q (c # b) r = None"
    using Cons.prems(2) by (subst (asm) search.simps) (auto split: list.splits)
  ultimately show ?case using Cons.IH by (subst search.simps) simp
qed

lemma rx_search_alts: "ps \<noteq> [] \<Longrightarrow> \<forall>p \<in> set ps. rx_search U R p t = None \<Longrightarrow> rx_search U R (rx_alts ps) t = None"
  unfolding rx_search_def by (induction ps rule: rx_alts.induct) (simp_all add: search_alt_None)

lemma rx_search_consumes:
  assumes "rx_search U R p t = Some s"
  shows "\<exists>pre r. t = pre @ r \<and> s \<in> set (run U R p (rev pre, r, []))"
  using search_finds [of U R p "[]" t s] assms hd_in_set unfolding rx_search_def by force

text \<open>
  No match begins strictly inside another one.  For such a pattern the iterator misses nothing: it
  yields the groups of all positions at which the pattern matches.
\<close>

definition no_overlap :: "unicode_db \<Rightarrow> re_db \<Rightarrow> rx \<Rightarrow> bool" where
  "no_overlap U R p \<longleftrightarrow>
     (\<forall>s t m n r. t \<in> set (run U R p s) \<and> consumes s (m @ n) t \<and> m \<noteq> [] \<and> n \<noteq> []
        \<longrightarrow> run U R p (rev m @ before s, n @ rest t, r) = [])"

definition matches_at :: "unicode_db \<Rightarrow> re_db \<Rightarrow> rx \<Rightarrow> pystr \<Rightarrow> pystr \<Rightarrow> pystr \<Rightarrow> bool" where
  "matches_at U R p b r g \<longleftrightarrow> run U R p (b, r, []) \<noteq> [] \<and> grp (hd (run U R p (b, r, []))) = g"

lemma in_finditer:
  "g \<in> set (finditer U R p b r) \<longleftrightarrow>
     (\<exists>b' r' g'. search U R p b r = Some (b', r', g')
        \<and> (g = g' \<or> length r' < length r \<and> g \<in> set (finditer U R p b' r')))"
proof -
  have "finditer U R p b r =
    (case search U R p b r of None \<Rightarrow> []
     | Some (b', r', g) \<Rightarrow> g # (if length r' < length r then finditer U R p b' r' else []))"
    by (rule finditer.simps)
  then show ?thesis by (cases "search U R p b r") (auto split: prod.split)
qed

lemma finditer_sound:
  "g \<in> set (finditer U R p b r) \<Longrightarrow> \<exists>pre r'. r = pre @ r' \<and> matches_at U R p (rev pre @ b) r' g"
proof (induction U R p b r rule: finditer.induct)
  case (1 U R p b r)
  from "1.prems" obtain b' r' g' where f: "search U R p b r = Some (b', r', g')"
    and g: "g = g' \<or> length r' < length r \<and> g \<in> set (finditer U R p b' r')"
    using in_finditer [of g U R p b r] by blast
  obtain pre q where q: "r = pre @ q" "run U R p (rev pre @ b, q, []) \<noteq> []"
    "(b', r', g') = hd (run U R p (rev pre @ b, q, []))"
    using search_finds [OF f] by blast
  from g show ?case
  proof
    assume "g = g'"
    with q show ?thesis unfolding matches_at_def by (metis snd_conv)
  next
    assume g2: "length r' < length r \<and> g \<in> set (finditer U R p b' r')"
    then obtain pre2 r2 where h: "r' = pre2 @ r2" "matches_at U R p (rev pre2 @ b') r2 g"
      using "1.IH" [OF f refl refl] by blast
    have "(b', r', g') \<in> set (run U R p (rev pre @ b, q, []))" using q(2,3) by simp
    then obtain m where "consumes (rev pre @ b, q, []) m (b', r', g')" using run_split by blast
    with q(1) h show ?thesis by (intro exI [of _ "pre @ m @ pre2"] exI [of _ r2]) (simp add: consumes_def)
  qed
qed

lemma finditer_complete:
  assumes "no_overlap U R p" and "0 < min_length p"
    and "r = pre @ r0" and "matches_at U R p (rev pre @ b) r0 g"
  shows "g \<in> set (finditer U R p b r)"
  using assms(3,4)
proof (induction "length r" arbitrary: r pre b rule: less_induct)
  case less
  note run0 = less.prems(2) [unfolded matches_at_def]
  obtain b1 r1 g1 where f: "search U R p b r = Some (b1, r1, g1)"
    using search_complete [of U R p pre b r0] run0 less.prems(1) by fastforce
  obtain q q' where q: "r = q @ q'" "run U R p (rev q @ b, q', []) \<noteq> []"
    "(b1, r1, g1) = hd (run U R p (rev q @ b, q', []))"
    and first: "\<forall>x x'. q @ q' = x @ x' \<and> length x < length q \<longrightarrow> run U R p (rev x @ b, x', []) = []"
    using search_finds [OF f] by blast
  have le: "length q \<le> length pre"
    using first run0 q(1) less.prems(1) by (metis not_le)
  obtain x where x: "pre = q @ x" "q' = x @ r0"
    using q(1) less.prems(1) le by (auto simp: append_eq_append_conv2)
  have mem: "(b1, r1, g1) \<in> set (run U R p (rev q @ b, q', []))" using q(2,3) by simp
  show ?case
  proof (cases "x = []")
    case True
    then have "g = g1" using run0 q(3) x by (metis append_Nil append_Nil2 snd_conv)
    then show ?thesis using f in_finditer [of g U R p b r] by blast
  next
    case False
    obtain m where m: "consumes (rev q @ b, q', []) m (b1, r1, g1)" using run_split [OF mem] by blast
    then have m': "q' = m @ r1" "b1 = rev m @ rev q @ b" by (simp_all add: consumes_def)
    have "m \<noteq> []" using run_min_length [OF mem] assms(2) m'(1) by auto
    then have shorter: "length r1 < length r" using q(1) m'(1) by simp
    have "length m \<le> length x"
    proof (rule ccontr)
      assume "\<not> length m \<le> length x"
      then obtain n where n: "m = x @ n" "n \<noteq> []" "r0 = n @ r1"
        using m'(1) x(2) by (auto simp: append_eq_append_conv2)
      with m have "consumes (rev q @ b, q', []) (x @ n) (b1, r1, g1)" by simp
      then have "run U R p (rev x @ before (rev q @ b, q', []), n @ rest (b1, r1, g1), []) = []"
        using assms(1)[unfolded no_overlap_def] mem False n(2) by blast
      then show False using run0 x(1) n(3) by simp
    qed
    then obtain y where y: "x = m @ y" "r1 = y @ r0"
      using m'(1) x(2) by (auto simp: append_eq_append_conv2)
    then have "matches_at U R p (rev y @ b1) r0 g" using less.prems(2) x(1) m'(2) by simp
    then have "g \<in> set (finditer U R p b1 r1)" using less.hyps [OF shorter y(2)] by blast
    then show ?thesis using f shorter in_finditer [of g U R p b r] by blast
  qed
qed

theorem finditer_exact:
  assumes "no_overlap U R p" and "0 < min_length p"
  shows "g \<in> set (rx_finditer U R p t) \<longleftrightarrow> (\<exists>pre r. t = pre @ r \<and> matches_at U R p (rev pre) r g)"
  using finditer_sound [of g U R p "[]" t] finditer_complete [OF assms, of t _ _ "[]" g]
  by (auto simp: rx_finditer_def)

end
