(* ===== verification/PyHash.thy ===== *)
theory PyHash
  imports PyText
begin

unbundle bit_operations_syntax

text \<open>
  The digests of the program: \<open>hashlib.sha256\<close> (FIPS 180-4, defined here in full and
  executable), \<open>hexdigest\<close>, \<open>base64.b32encode\<close>, \<open>int.to_bytes(k, "big")\<close> and the
  length-prefixed framing \<open>_binary_frame\<close> every module of the report workflow puts its
  digest material in.  The lemmas give what the validators check of a minted digest (its
  length and alphabet) and that the framing is injective, so that a digest binds every
  part of its material separately.
\<close>

section \<open>Big-endian integers\<close>

fun int_to_bytes :: "nat \<Rightarrow> nat \<Rightarrow> bytes" where
  "int_to_bytes 0 n = []"
| "int_to_bytes (Suc k) n = int_to_bytes k (n div 256) @ [byte (n mod 256)]"

fun bytes_to_nat :: "bytes \<Rightarrow> nat" where
  "bytes_to_nat bs = foldl (\<lambda>a b. 256 * a + unat b) 0 bs"

lemma length_int_to_bytes [simp]: "length (int_to_bytes k n) = k"
  by (induction k arbitrary: n) auto

lemma int_to_bytes_inj:
  "m < 256 ^ k \<Longrightarrow> n < 256 ^ k \<Longrightarrow> int_to_bytes k m = int_to_bytes k n \<Longrightarrow> m = n"
proof (induction k arbitrary: m n)
  case (Suc k)
  have "m div 256 = n div 256"
    using Suc by (intro Suc.IH) auto
  moreover have "m mod 256 = n mod 256"
    using Suc.prems(3) by (simp add: byte_eq_iff)
  ultimately show ?case by (metis div_mult_mod_eq)
qed simp

section \<open>SHA-256\<close>

type_synonym word32 = "32 word"

definition ch32 :: "word32 \<Rightarrow> word32 \<Rightarrow> word32 \<Rightarrow> word32" where
  "ch32 x y z = (x AND y) XOR (NOT x AND z)"

definition maj32 :: "word32 \<Rightarrow> word32 \<Rightarrow> word32 \<Rightarrow> word32" where
  "maj32 x y z = (x AND y) XOR (x AND z) XOR (y AND z)"

definition big_sigma0 :: "word32 \<Rightarrow> word32" where
  "big_sigma0 x = word_rotr 2 x XOR word_rotr 13 x XOR word_rotr 22 x"

definition big_sigma1 :: "word32 \<Rightarrow> word32" where
  "big_sigma1 x = word_rotr 6 x XOR word_rotr 11 x XOR word_rotr 25 x"

definition small_sigma0 :: "word32 \<Rightarrow> word32" where
  "small_sigma0 x = word_rotr 7 x XOR word_rotr 18 x XOR drop_bit 3 x"

definition small_sigma1 :: "word32 \<Rightarrow> word32" where
  "small_sigma1 x = word_rotr 17 x XOR word_rotr 19 x XOR drop_bit 10 x"

definition sha256_k :: "word32 list" where
  "sha256_k =
    [1116352408, 1899447441, 3049323471, 3921009573, 961987163, 1508970993, 2453635748, 2870763221,
     3624381080, 310598401, 607225278, 1426881987, 1925078388, 2162078206, 2614888103, 3248222580,
     3835390401, 4022224774, 264347078, 604807628, 770255983, 1249150122, 1555081692, 1996064986,
     2554220882, 2821834349, 2952996808, 3210313671, 3336571891, 3584528711, 113926993, 338241895,
     666307205, 773529912, 1294757372, 1396182291, 1695183700, 1986661051, 2177026350, 2456956037,
     2730485921, 2820302411, 3259730800, 3345764771, 3516065817, 3600352804, 4094571909, 275423344,
     430227734, 506948616, 659060556, 883997877, 958139571, 1322822218, 1537002063, 1747873779,
     1955562222, 2024104815, 2227730452, 2361852424, 2428436474, 2756734187, 3204031479, 3329325298]"

definition sha256_init :: "word32 list" where
  "sha256_init = [1779033703, 3144134277, 1013904242, 2773480762, 1359893119, 2600822924, 528734635, 1541459225]"

definition sha256_pad :: "bytes \<Rightarrow> bytes" where
  "sha256_pad m =
     m @ [byte 128] @ replicate ((119 - length m mod 64) mod 64) (byte 0) @ int_to_bytes 8 (8 * length m)"

fun words_of_bytes :: "bytes \<Rightarrow> word32 list" where
  "words_of_bytes (a # b # c # d # r) =
     word_of_nat (bytes_to_nat [a, b, c, d]) # words_of_bytes r"
| "words_of_bytes _ = []"

text \<open>The message schedule, kept with the most recent word first.\<close>

fun sha256_schedule :: "nat \<Rightarrow> word32 list \<Rightarrow> word32 list" where
  "sha256_schedule 0 ws = ws"
| "sha256_schedule (Suc n) ws =
     sha256_schedule n
       ((small_sigma1 (ws ! 1) + ws ! 6 + small_sigma0 (ws ! 14) + ws ! 15) # ws)"

fun sha256_rounds :: "(word32 \<times> word32) list \<Rightarrow> word32 list \<Rightarrow> word32 list" where
  "sha256_rounds ((k, w) # kws) [a, b, c, d, e, f, g, h] =
     (let t1 = h + big_sigma1 e + ch32 e f g + k + w;
          t2 = big_sigma0 a + maj32 a b c
      in sha256_rounds kws [t1 + t2, a, b, c, d + t1, e, f, g])"
| "sha256_rounds _ s = s"

definition sha256_block :: "word32 list \<Rightarrow> word32 list \<Rightarrow> word32 list" where
  "sha256_block h ws =
     map2 (+) h (sha256_rounds (zip sha256_k (rev (sha256_schedule 48 (rev ws)))) h)"

fun sha256_blocks :: "nat \<Rightarrow> word32 list \<Rightarrow> word32 list \<Rightarrow> word32 list" where
  "sha256_blocks 0 h ws = h"
| "sha256_blocks (Suc n) h ws = sha256_blocks n (sha256_block h (take 16 ws)) (drop 16 ws)"

definition sha256 :: "bytes \<Rightarrow> bytes" where
  "sha256 m =
     (let ws = words_of_bytes (sha256_pad m)
      in concat (map (\<lambda>w. int_to_bytes 4 (unat w)) (sha256_blocks (length ws div 16) sha256_init ws)))"

lemma sha256_rounds_length: "length s = 8 \<Longrightarrow> length (sha256_rounds kws s) = 8"
  by (induction kws s rule: sha256_rounds.induct) (auto simp: Let_def)

lemma sha256_blocks_length: "length h = 8 \<Longrightarrow> length (sha256_blocks n h ws) = 8"
  by (induction n h ws rule: sha256_blocks.induct)
    (auto simp: sha256_block_def sha256_rounds_length)

lemma length_concat_const: "(\<And>x. length (f x) = k) \<Longrightarrow> length (concat (map f xs)) = k * length xs"
  by (induction xs) auto

lemma length_sha256 [simp, shape_simps]: "length (sha256 m) = 32"
  by (simp add: sha256_def Let_def length_concat_const [of _ 4] sha256_blocks_length sha256_init_def)

section \<open>Hexadecimal and base 32\<close>

definition hex_char :: "nat \<Rightarrow> nat" where
  "hex_char n = (if n < 10 then 48 + n else 87 + n)"

definition hex_of_byte :: "8 word \<Rightarrow> pystr" where
  "hex_of_byte b = [hex_char (unat b div 16), hex_char (unat b mod 16)]"

definition hexdigest :: "bytes \<Rightarrow> pystr" where
  "hexdigest bs = concat (map hex_of_byte bs)"

lemma byte_bound: "unat (b :: 8 word) < 256"
  by (rule order_less_le_trans [OF unsigned_less]) simp

lemma hex_char_hex: "n < 16 \<Longrightarrow> is_hex (hex_char n)"
  by (auto simp: hex_char_def is_hex_def)

lemma hexdigest_length: "length (hexdigest bs) = 2 * length bs"
  by (simp add: hexdigest_def hex_of_byte_def length_concat_const [of _ 2])

lemma hexdigest_hex: "\<forall>c \<in> set (hexdigest bs). is_hex c"
proof -
  have "unat (b :: 8 word) div 16 < 16" for b
    using byte_bound [of b] by simp
  then show ?thesis by (auto simp: hexdigest_def hex_of_byte_def hex_char_hex)
qed

lemma length_hexdigest_sha256 [simp, shape_simps]: "length (hexdigest (sha256 m)) = 64"
  by (simp add: hexdigest_length)

lemma prefixed_hex64_digest [simp, shape_simps]: "prefixed_hex64 p (p @ hexdigest (sha256 m))"
  by (rule prefixed_hex64_mint) (simp_all add: hexdigest_hex)

lemma hex_char_inj: "m < 16 \<Longrightarrow> n < 16 \<Longrightarrow> hex_char m = hex_char n \<Longrightarrow> m = n"
  by (auto simp: hex_char_def split: if_splits)

lemma hexdigest_inj: "length a = length b \<Longrightarrow> hexdigest a = hexdigest b \<Longrightarrow> a = b"
proof (induction a b rule: list_induct2)
  case (Cons x xs y ys)
  have lt: "unat (w :: 8 word) div 16 < 16" for w
    using byte_bound [of w] by simp
  have "unat x div 16 = unat y div 16" "unat x mod 16 = unat y mod 16"
    using Cons.prems by (auto simp: hexdigest_def hex_of_byte_def lt intro!: hex_char_inj)
  then have "unat x = unat y" by (metis div_mult_mod_eq)
  then have "x = y" by (simp add: word_unat_eq_iff)
  then show ?case using Cons by (auto simp: hexdigest_def hex_of_byte_def)
qed simp

text \<open>\<open>base64.b32encode\<close>: groups of five bytes, eight characters each, \<open>=\<close> padding.\<close>

definition b32_char :: "nat \<Rightarrow> nat" where
  "b32_char n = (if n < 26 then 65 + n else 24 + n)"

definition b32_group :: "bytes \<Rightarrow> pystr" where
  "b32_group bs =
     (let n = bytes_to_nat bs
      in map (\<lambda>i. b32_char (n div 32 ^ i mod 32)) [7, 6, 5, 4, 3, 2, 1, 0])"

fun b32_groups :: "bytes \<Rightarrow> pystr" where
  "b32_groups (a # b # c # d # e # r) = b32_group [a, b, c, d, e] @ b32_groups r"
| "b32_groups [] = []"
| "b32_groups r = b32_group (r @ replicate (5 - length r) (byte 0))"

definition b32encode :: "bytes \<Rightarrow> pystr" where
  "b32encode bs =
     (let s = b32_groups bs;
          pad = (case length bs mod 5 of 0 \<Rightarrow> 0 | Suc 0 \<Rightarrow> 6 | Suc (Suc 0) \<Rightarrow> 4
                   | Suc (Suc (Suc 0)) \<Rightarrow> 3 | _ \<Rightarrow> 1)
      in take (length s - pad) s @ replicate pad 61)"

definition is_b32 :: "nat \<Rightarrow> bool" where
  "is_b32 c \<longleftrightarrow> (65 \<le> c \<and> c \<le> 90) \<or> (50 \<le> c \<and> c \<le> 55)"

lemma b32_char_b32: "n < 32 \<Longrightarrow> is_b32 (b32_char n)"
  by (auto simp: b32_char_def is_b32_def)

lemma b32_group_shape: "length (b32_group bs) = 8" "\<forall>c \<in> set (b32_group bs). is_b32 c"
  by (auto simp: b32_group_def Let_def b32_char_b32)

lemma b32_groups_b32: "\<forall>c \<in> set (b32_groups bs). is_b32 c"
  by (induction bs rule: b32_groups.induct) (use b32_group_shape in auto)

lemma b32_groups_length: "length (b32_groups bs) = 8 * ((length bs + 4) div 5)"
proof (induction bs rule: b32_groups.induct)
  case (1 a b c d e r)
  have "(9 + length r) div 5 = Suc ((length r + 4) div 5)" by presburger
  with 1 show ?case by (simp add: b32_group_shape)
qed (simp_all add: b32_group_shape)

lemma take_b32encode_sha256 [shape_simps]:
  assumes "k \<le> 48"
  shows "length (take k (b32encode (sha256 m))) = k \<and> (\<forall>c \<in> set (take k (b32encode (sha256 m))). is_b32 c)"
proof -
  have *: "length (b32_groups (sha256 m)) = 56" by (simp add: b32_groups_length)
  have "take k (b32encode (sha256 m)) = take k (b32_groups (sha256 m))"
    using assms * by (simp add: b32encode_def Let_def min_def)
  then show ?thesis
    using assms * b32_groups_b32 [of "sha256 m"] by (auto dest: in_set_takeD)
qed

section \<open>Framing\<close>

text \<open>
  \<open>_binary_frame\<close>: the number of parts and the length of each part, as four-byte
  integers, before the parts.  (\<open>to_bytes(4)\<close> raises \<open>OverflowError\<close> on a part of 4 GiB;
  every caller frames parts of at most a few kilobytes, see the bounds in the components.)
\<close>

definition frame_part :: "bytes \<Rightarrow> bytes" where
  "frame_part p = int_to_bytes 4 (length p) @ p"

definition binary_frame :: "bytes list \<Rightarrow> bytes" where
  "binary_frame parts = int_to_bytes 4 (length parts) @ concat (map frame_part parts)"

definition frameable :: "bytes list \<Rightarrow> bool" where
  "frameable ps \<longleftrightarrow> length ps < 256 ^ 4 \<and> (\<forall>p \<in> set ps. length p < 256 ^ 4)"

lemma frame_parts_inj:
  "length ps = length qs \<Longrightarrow> \<forall>p \<in> set ps. length p < 256 ^ 4 \<Longrightarrow> \<forall>q \<in> set qs. length q < 256 ^ 4 \<Longrightarrow>
   concat (map frame_part ps) = concat (map frame_part qs) \<Longrightarrow> ps = qs"
proof (induction ps qs rule: list_induct2)
  case (Cons p ps q qs)
  have e: "frame_part p @ concat (map frame_part ps) = frame_part q @ concat (map frame_part qs)"
    using Cons.prems(3) by simp
  then have "int_to_bytes 4 (length p) @ (p @ concat (map frame_part ps))
      = int_to_bytes 4 (length q) @ (q @ concat (map frame_part qs))"
    by (simp only: frame_part_def append_assoc)
  then have "int_to_bytes 4 (length p) = int_to_bytes 4 (length q)"
    and t: "p @ concat (map frame_part ps) = q @ concat (map frame_part qs)"
    by (simp_all only: append_eq_same_length length_int_to_bytes)
  then have "length p = length q"
    using int_to_bytes_inj [of "length p" 4 "length q"] Cons.prems(1,2) by simp
  with t have "p = q" "concat (map frame_part ps) = concat (map frame_part qs)" by simp_all
  with Cons show ?case by simp
qed simp

lemma binary_frame_inj:
  assumes "frameable ps" "frameable qs" "binary_frame ps = binary_frame qs"
  shows "ps = qs"
proof -
  have "int_to_bytes 4 (length ps) = int_to_bytes 4 (length qs)"
    and t: "concat (map frame_part ps) = concat (map frame_part qs)"
    using assms(3) by (simp_all add: binary_frame_def append_eq_append_conv)
  then have "length ps = length qs"
    using int_to_bytes_inj [of "length ps" 4 "length qs"] assms(1,2) by (simp add: frameable_def)
  then show ?thesis using frame_parts_inj t assms(1,2) by (auto simp: frameable_def)
qed

text \<open>An ASCII string as bytes (\<open>s.encode("ascii")\<close> on a string known to be ASCII).\<close>

definition ascii_bytes :: "pystr \<Rightarrow> bytes" where
  "ascii_bytes s = map byte s"

lemma length_ascii_bytes [simp]: "length (ascii_bytes s) = length s"
  by (simp add: ascii_bytes_def)

lemma ascii_bytes_inj:
  "\<forall>c \<in> set s. c < 128 \<Longrightarrow> \<forall>c \<in> set t. c < 128 \<Longrightarrow> ascii_bytes s = ascii_bytes t \<Longrightarrow> s = t"
proof -
  assume s: "\<forall>c \<in> set s. c < 128" and t: "\<forall>c \<in> set t. c < 128"
    and e: "ascii_bytes s = ascii_bytes t"
  have "inj_on byte (set s \<union> set t)"
  proof (rule inj_onI)
    fix x y assume "x \<in> set s \<union> set t" "y \<in> set s \<union> set t" and b: "byte x = byte y"
    then have "x < 256" "y < 256" using s t by force+
    with b show "x = y" by (simp add: byte_eq_iff)
  qed
  with e show "s = t" unfolding ascii_bytes_def by (rule map_inj_on)
qed

section \<open>UUIDs\<close>

text \<open>
  A \<open>uuid.UUID\<close> is its 128-bit integer; \<open>.bytes\<close> is big-endian and \<open>str(uuid)\<close> the
  hexadecimal digits in groups of 8, 4, 4, 4 and 12.
\<close>

type_synonym uuid = "128 word"

definition uuid_bytes :: "uuid \<Rightarrow> bytes" where
  "uuid_bytes i = int_to_bytes 16 (unat i)"

definition str_of_uuid :: "uuid \<Rightarrow> pystr" where
  "str_of_uuid i =
     (let h = hexdigest (uuid_bytes i)
      in take 8 h @ [45] @ take 4 (drop 8 h) @ [45] @ take 4 (drop 12 h) @ [45] @ take 4 (drop 16 h)
         @ [45] @ drop 20 h)"

lemma uuid_bytes_inj: "uuid_bytes i = uuid_bytes j \<Longrightarrow> i = j"
proof -
  have b: "unat (k :: uuid) < 256 ^ 16" for k
    using unsigned_less [of k] by (simp add: power_mult [symmetric])
  assume "uuid_bytes i = uuid_bytes j"
  then have "unat i = unat j" using int_to_bytes_inj [OF b b] by (simp add: uuid_bytes_def)
  then show "i = j" by (simp add: word_unat_eq_iff)
qed

lemma length_uuid_hex: "length (hexdigest (uuid_bytes i)) = 32"
  by (simp add: hexdigest_length uuid_bytes_def)

lemma str_of_uuid_inj: "str_of_uuid i = str_of_uuid j \<longleftrightarrow> i = j"
proof
  let ?h = "\<lambda>i. hexdigest (uuid_bytes i)"
  have len: "length (?h i) = 32" for i by (rule length_uuid_hex)
  have glue: "h = take 8 h @ take 4 (drop 8 h) @ take 4 (drop 12 h) @ take 4 (drop 16 h) @ drop 20 h" for h :: pystr
    using append_take_drop_id [of 8 h] append_take_drop_id [of 4 "drop 8 h"]
      append_take_drop_id [of 4 "drop 12 h"] append_take_drop_id [of 4 "drop 16 h"]
    by (simp del: append_take_drop_id)
  assume "str_of_uuid i = str_of_uuid j"
  then have "take 8 (?h i) = take 8 (?h j) \<and> take 4 (drop 8 (?h i)) = take 4 (drop 8 (?h j))
      \<and> take 4 (drop 12 (?h i)) = take 4 (drop 12 (?h j)) \<and> take 4 (drop 16 (?h i)) = take 4 (drop 16 (?h j))
      \<and> drop 20 (?h i) = drop 20 (?h j)"
    by (simp add: str_of_uuid_def Let_def append_eq_same_length len)
  then have "?h i = ?h j" using glue [of "?h i"] glue [of "?h j"] by simp
  then have "uuid_bytes i = uuid_bytes j" by (intro hexdigest_inj) (simp_all add: uuid_bytes_def)
  then show "i = j" by (rule uuid_bytes_inj)
qed simp

lemma str_of_uuid_ascii: "\<forall>c \<in> set (str_of_uuid i). c < 128"
  using hexdigest_hex [of "uuid_bytes i"] is_hex_ascii
  by (auto simp: str_of_uuid_def Let_def dest!: in_set_takeD in_set_dropD)

end
