(* ===== verification/PyData.thy ===== *)
theory PyData
  imports PyHash
begin

text \<open>
  Python decimals: \<open>decimal.Decimal\<close> as its \<open>as_tuple()\<close> triple, the constructor from a
  string, exact comparisons, and the canonical two-decimal rendering of an amount of cents.
\<close>

section \<open>decimal.Decimal\<close>

datatype decimal =
    DFinite (dsign: bool) (dcoeff: "nat list") (dexp: int)
  | DInfinite bool
  | DNaN

definition coeff_nat :: "nat list \<Rightarrow> nat" where
  "coeff_nat ds = foldl (\<lambda>a d. 10 * a + d) 0 ds"

definition is_finite :: "decimal \<Rightarrow> bool" where
  "is_finite d = (case d of DFinite _ _ _ \<Rightarrow> True | _ \<Rightarrow> False)"

definition is_signed :: "decimal \<Rightarrow> bool" where
  "is_signed d = (case d of DFinite s _ _ \<Rightarrow> s | DInfinite s \<Rightarrow> s | DNaN \<Rightarrow> False)"

definition is_zero :: "decimal \<Rightarrow> bool" where
  "is_zero d = (case d of DFinite _ ds _ \<Rightarrow> coeff_nat ds = 0 | _ \<Rightarrow> False)"

text \<open>
  The comparison \<open>d > c / 100\<close> of a finite non-negative decimal with an amount of cents, by
  exact integer arithmetic.
\<close>

definition decimal_gt_cents :: "nat list \<Rightarrow> int \<Rightarrow> nat \<Rightarrow> bool" where
  "decimal_gt_cents ds e c =
     (if 0 \<le> e + 2 then c < coeff_nat ds * 10 ^ nat (e + 2)
      else c * 10 ^ nat (- (e + 2)) < coeff_nat ds)"

text \<open>Equality of two finite non-negative decimals: the same value, whatever the exponent.\<close>

definition decimal_same_value :: "nat list \<Rightarrow> int \<Rightarrow> nat list \<Rightarrow> int \<Rightarrow> bool" where
  "decimal_same_value ds e ds' e' =
     (if e' \<le> e then coeff_nat ds * 10 ^ nat (e - e') = coeff_nat ds'
      else coeff_nat ds = coeff_nat ds' * 10 ^ nat (e' - e))"

lemma coeff_nat_Nil [simp]: "coeff_nat [] = 0"
  by (simp add: coeff_nat_def)

lemma coeff_nat_snoc: "coeff_nat (ds @ [d]) = 10 * coeff_nat ds + d"
  by (simp add: coeff_nat_def)

lemma coeff_nat_append: "coeff_nat (xs @ ys) = coeff_nat xs * 10 ^ length ys + coeff_nat ys"
proof (induction ys rule: rev_induct)
  case (snoc y ys)
  have "coeff_nat (xs @ ys @ [y]) = 10 * coeff_nat (xs @ ys) + y"
    using coeff_nat_snoc [of "xs @ ys"] by simp
  with snoc show ?case by (simp add: coeff_nat_snoc algebra_simps)
qed simp

lemma coeff_nat_digits: "coeff_nat (map (\<lambda>c. c - 48) s) = nat_of_digits s"
proof (induction s rule: rev_induct)
  case (snoc c s)
  then show ?case by (simp add: coeff_nat_snoc nat_of_digits_snoc)
qed simp

lemma coeff_nat_less: "\<forall>d \<in> set ds. d \<le> 9 \<Longrightarrow> coeff_nat ds < 10 ^ length ds"
proof (induction ds rule: rev_induct)
  case (snoc d ds)
  then show ?case by (simp add: coeff_nat_snoc)
qed simp

lemma coeff_nat_zero_iff: "coeff_nat ds = 0 \<longleftrightarrow> (\<forall>d \<in> set ds. d = 0)"
  by (induction ds rule: rev_induct) (auto simp: coeff_nat_snoc)

text \<open>
  \<open>Decimal(s)\<close>.  The grammar of the constructor: optional sign, then \<open>Infinity\<close>/\<open>inf\<close>,
  \<open>NaN\<close>/\<open>sNaN\<close> with optional payload digits, or digits with an optional decimal point and an
  optional exponent, letters in either case, underscores ignored, white space stripped, any
  Unicode decimal digit accepted (\<open>ud_decimal\<close>).  \<open>None\<close> is \<open>InvalidOperation\<close>.  The
  exponent of the exact conversion is bounded as in the C implementation (\<open>MAX_EMAX\<close>,
  \<open>MIN_ETINY\<close>).
\<close>

definition decimal_emax :: int where "decimal_emax = 999999999999999999"
definition decimal_etiny :: int where "decimal_etiny = -1999999999999999997"

definition ascii_lower :: "pystr \<Rightarrow> pystr" where
  "ascii_lower s = map (\<lambda>c. if 65 \<le> c \<and> c \<le> 90 then c + 32 else c) s"

definition decimal_digit_fold :: "unicode_db \<Rightarrow> pystr \<Rightarrow> pystr" where
  "decimal_digit_fold U s = map (\<lambda>c. case ud_decimal U c of Some d \<Rightarrow> 48 + d | None \<Rightarrow> c) s"

fun take_sign :: "pystr \<Rightarrow> bool \<times> pystr" where
  "take_sign (c # s) = (if c = 45 then (True, s) else if c = 43 then (False, s) else (False, c # s))"
| "take_sign [] = (False, [])"

definition parse_exponent :: "pystr \<Rightarrow> int option" where
  "parse_exponent s =
     (let (neg, ds) = take_sign s
      in if ds \<noteq> [] \<and> list_all is_digit ds
         then Some (if neg then - int (nat_of_digits ds) else int (nat_of_digits ds)) else None)"

text \<open>The coefficient of a \<open>Decimal\<close> has no leading zeros; zero is the single digit \<open>0\<close>.\<close>

definition strip_leading_zeros :: "nat list \<Rightarrow> nat list" where
  "strip_leading_zeros ds = (let r = dropWhile (\<lambda>d. d = 0) ds in if r = [] then [0] else r)"

definition finite_decimal :: "bool \<Rightarrow> nat list \<Rightarrow> int \<Rightarrow> decimal option" where
  "finite_decimal neg ds e =
     (let r = strip_leading_zeros ds; zero = (r = [0]);
          adj = (if zero then e else e + int (length r) - 1)
      in if decimal_etiny \<le> e \<and> adj \<le> decimal_emax then Some (DFinite neg r e) else None)"

definition decimal_of_str :: "unicode_db \<Rightarrow> pystr \<Rightarrow> decimal option" where
  "decimal_of_str U s0 =
     (let s1 = filter (\<lambda>c. c \<noteq> 95) (py_strip s0);
          (neg, s) = take_sign (ascii_lower (decimal_digit_fold U s1));
          ip = takeWhile is_digit s; r1 = dropWhile is_digit s;
          (fp, r2) = (case r1 of c # r \<Rightarrow> if c = 46 then (takeWhile is_digit r, dropWhile is_digit r)
                                          else ([], r1)
                      | [] \<Rightarrow> ([], []))
      in if s = u ''inf'' \<or> s = u ''infinity'' then Some (DInfinite neg)
         else if startswith s (u ''nan'') \<and> list_all is_digit (drop 3 s) then Some DNaN
         else if startswith s (u ''snan'') \<and> list_all is_digit (drop 4 s) then Some DNaN
         else if ip = [] \<and> fp = [] then None
         else (case r2 of
                 [] \<Rightarrow> finite_decimal neg (map (\<lambda>c. c - 48) (ip @ fp)) (- int (length fp))
               | c # r \<Rightarrow>
                   if c = 101
                   then (case parse_exponent r of
                           Some x \<Rightarrow> finite_decimal neg (map (\<lambda>c. c - 48) (ip @ fp)) (x - int (length fp))
                         | None \<Rightarrow> None)
                   else None))"

lemma strip_leading_zeros_value [simp]: "coeff_nat (strip_leading_zeros ds) = coeff_nat ds"
proof -
  have "coeff_nat ds = coeff_nat (takeWhile (\<lambda>d. d = 0) ds @ dropWhile (\<lambda>d. d = 0) ds)" by simp
  also have "\<dots> = coeff_nat (dropWhile (\<lambda>d. d = 0) ds)"
    using coeff_nat_zero_iff [of "takeWhile (\<lambda>d. d = 0) ds"]
    by (simp add: coeff_nat_append del: takeWhile_dropWhile_id) (use set_takeWhileD in fastforce)
  finally have e: "coeff_nat ds = coeff_nat (dropWhile (\<lambda>d. d = 0) ds)" .
  show ?thesis
  proof (cases "dropWhile (\<lambda>d. d = 0) ds = []")
    case True
    have "coeff_nat [0] = 0" using coeff_nat_snoc [of "[]" 0] by simp
    moreover have "coeff_nat ds = 0" using e True by (simp only: coeff_nat_Nil)
    ultimately show ?thesis using True by (simp add: strip_leading_zeros_def)
  next
    case False
    then have "strip_leading_zeros ds = dropWhile (\<lambda>d. d = 0) ds"
      by (simp only: strip_leading_zeros_def Let_def if_False)
    then show ?thesis using e by simp
  qed
qed

lemma strip_leading_zeros_length: "ds \<noteq> [] \<Longrightarrow> length (strip_leading_zeros ds) \<le> length ds"
  by (auto simp: strip_leading_zeros_def Let_def length_dropWhile_le Suc_le_eq)

lemma strip_leading_zeros_digits:
  "\<forall>d \<in> set ds. d \<le> 9 \<Longrightarrow> \<forall>d \<in> set (strip_leading_zeros ds). d \<le> 9"
  by (auto simp: strip_leading_zeros_def Let_def dest: set_dropWhileD)

text \<open>The only decimals the money code builds from its own tokens: digits, or digits \<open>.\<close> digits.\<close>

lemma filter_digits [simp]: "\<forall>c \<in> set s. is_digit c \<Longrightarrow> filter (\<lambda>c. c \<noteq> 95) s = s"
  by (rule filter_True) (auto simp: is_digit_def)

lemma digit_not_space: "is_digit c \<or> c = 46 \<Longrightarrow> \<not> py_isspace c"
  by (auto simp: is_digit_def py_isspace_def)

lemma digit_fold_id:
  assumes "unicode_ok U" "is_digit c \<or> c = 46"
  shows "(case ud_decimal U c of Some d \<Rightarrow> 48 + d | None \<Rightarrow> c) = c"
proof -
  have "c < 128" using assms(2) by (auto simp: is_digit_def)
  then have "ud_decimal U c = (if 48 \<le> c \<and> c \<le> 57 then Some (c - 48) else None)"
    using assms(1) by (simp add: unicode_ok_def)
  then show ?thesis by simp
qed

lemma ascii_lower_id: "\<forall>c \<in> set s. is_digit c \<or> c = 46 \<Longrightarrow> ascii_lower s = s"
  unfolding ascii_lower_def by (rule map_idI) (fastforce simp: is_digit_def)

lemma decimal_of_digits_dot_digits:
  assumes U: "unicode_ok U" and a: "\<forall>c \<in> set a. is_digit c" "a \<noteq> []" "length a < 1000"
    and b: "\<forall>c \<in> set b. is_digit c" "length b < 1000"
  shows "decimal_of_str U (a @ 46 # b) =
    Some (DFinite False (strip_leading_zeros (map (\<lambda>c. c - 48) (a @ b))) (- int (length b)))"
proof -
  let ?s = "a @ 46 # b"
  have dig: "\<forall>c \<in> set ?s. is_digit c \<or> c = 46" using a b by auto
  then have nsp: "\<forall>c \<in> set ?s. \<not> py_isspace c" using digit_not_space by blast
  have strip: "py_strip ?s = ?s"
    using nsp by (intro strip_id_iff [THEN iffD2]) (metis hd_in_set last_in_set)
  have filt: "filter (\<lambda>c. c \<noteq> 95) ?s = ?s"
    using dig by (intro filter_True) (fastforce simp: is_digit_def)
  have fold: "decimal_digit_fold U ?s = ?s"
    unfolding decimal_digit_fold_def
    using dig digit_fold_id [OF U] by (intro map_idI) blast
  have low: "ascii_lower ?s = ?s"
    using dig by (rule ascii_lower_id)
  obtain c a' where ca: "a = c # a'" "is_digit c" using a by (cases a) auto
  then have c: "c \<noteq> 45" "c \<noteq> 43" "c \<noteq> 105" "c \<noteq> 110" "c \<noteq> 115" by (auto simp: is_digit_def)
  have sign: "take_sign ?s = (False, ?s)" using ca c by simp
  have words: "?s \<noteq> u ''inf''" "?s \<noteq> u ''infinity''" "\<not> startswith ?s (u ''nan'')" "\<not> startswith ?s (u ''snan'')"
    using ca c by (auto simp: u_def)
  have nd: "\<not> is_digit 46" by (simp add: is_digit_def)
  have tw: "takeWhile is_digit ?s = a" "dropWhile is_digit ?s = 46 # b"
    using a nd by (simp_all add: takeWhile_append2 dropWhile_append2)
  have tb: "takeWhile is_digit b = b" "dropWhile is_digit b = []"
    using b by (simp_all add: takeWhile_eq_all_conv dropWhile_eq_Nil_conv)
  let ?r = "strip_leading_zeros (map (\<lambda>c. c - 48) (a @ b))"
  have len: "length ?r \<le> length a + length b"
    using strip_leading_zeros_length [of "map (\<lambda>c. c - 48) (a @ b)"] a by simp
  have "finite_decimal False (map (\<lambda>c. c - 48) (a @ b)) (- int (length b)) = Some (DFinite False ?r (- int (length b)))"
    using len a b by (simp add: finite_decimal_def Let_def decimal_etiny_def decimal_emax_def)
  then show ?thesis
    using words a unfolding decimal_of_str_def Let_def strip filt fold low sign tw
    by (simp add: tw tb del: filter_append)
qed

lemma decimal_of_digits:
  assumes U: "unicode_ok U" and a: "\<forall>c \<in> set a. is_digit c" "a \<noteq> []" "length a < 1000"
  shows "decimal_of_str U a = Some (DFinite False (strip_leading_zeros (map (\<lambda>c. c - 48) a)) 0)"
proof -
  have nsp: "\<forall>c \<in> set a. \<not> py_isspace c" using a digit_not_space by blast
  have strip: "py_strip a = a"
    using nsp by (intro strip_id_iff [THEN iffD2]) (metis hd_in_set last_in_set)
  have fold: "decimal_digit_fold U a = a"
    unfolding decimal_digit_fold_def
    using a digit_fold_id [OF U] by (intro map_idI) blast
  have low: "ascii_lower a = a"
    using a by (intro ascii_lower_id) blast
  obtain c a' where ca: "a = c # a'" "is_digit c" using a by (cases a) auto
  then have c: "c \<noteq> 45" "c \<noteq> 43" "c \<noteq> 105" "c \<noteq> 110" "c \<noteq> 115" by (auto simp: is_digit_def)
  have sign: "take_sign a = (False, a)" using ca c by simp
  have words: "a \<noteq> u ''inf''" "a \<noteq> u ''infinity''" "\<not> startswith a (u ''nan'')" "\<not> startswith a (u ''snan'')"
    using ca c by (auto simp: u_def)
  have tw: "takeWhile is_digit a = a" "dropWhile is_digit a = []"
    using a by (simp_all add: takeWhile_eq_all_conv dropWhile_eq_Nil_conv)
  let ?r = "strip_leading_zeros (map (\<lambda>c. c - 48) a)"
  have len: "length ?r \<le> length a"
    using strip_leading_zeros_length [of "map (\<lambda>c. c - 48) a"] a by simp
  have "finite_decimal False (map (\<lambda>c. c - 48) a) 0 = Some (DFinite False ?r 0)"
    using len a by (simp add: finite_decimal_def Let_def decimal_etiny_def decimal_emax_def)
  then show ?thesis
    using words a by (simp add: decimal_of_str_def strip fold low sign tw)
qed

text \<open>\<open>f"{cents // 100}.{cents % 100:02d}"\<close>, the canonical two-decimal money string.\<close>

definition format_cents :: "nat \<Rightarrow> pystr" where
  "format_cents n = digits_of_nat (n div 100) @ 46 # zero_pad 2 (n mod 100)"

lemma format_cents_ascii: "\<forall>c \<in> set (format_cents n). c < 128"
  using zero_pad_digits [of 2 "n mod 100"] by (auto simp: format_cents_def is_digit_def dest: digits_of_nat_ascii)

lemma format_cents_inj: "format_cents m = format_cents n \<longleftrightarrow> m = n"
proof
  assume e: "format_cents m = format_cents n"
  have "digits_of_nat (m div 100) = digits_of_nat (n div 100) \<and> zero_pad 2 (m mod 100) = zero_pad 2 (n mod 100)"
    using run_delim_inj [of "digits_of_nat (m div 100)" is_digit "digits_of_nat (n div 100)" 46 46]
      e digits_of_nat_digits by (simp add: format_cents_def is_digit_def)
  then have "m div 100 = n div 100" "m mod 100 = n mod 100"
    by (auto dest: arg_cong [where f = nat_of_digits])
  then show "m = n" by (metis div_mult_mod_eq)
qed simp

text \<open>Parsing a formatted amount gives back its cents.\<close>

lemma decimal_of_format_cents:
  assumes U: "unicode_ok U" and n: "n < 10 ^ 20"
  shows "\<exists>ds. decimal_of_str U (format_cents n) = Some (DFinite False ds (- 2)) \<and> coeff_nat ds = n
           \<and> (\<forall>d \<in> set ds. d \<le> 9) \<and> length ds \<le> 22"
proof -
  let ?a = "digits_of_nat (n div 100)" and ?b = "zero_pad 2 (n mod 100)"
  have lb: "length ?b = 2" by (rule length_zero_pad) simp_all
  have "n div 100 < 10 ^ 20" using n by (meson div_le_dividend le_less_trans)
  then have la: "length ?a \<le> 20" by (rule digits_of_nat_bound) simp
  let ?ds = "strip_leading_zeros (map (\<lambda>c. c - 48) (?a @ ?b))"
  have "decimal_of_str U (format_cents n) = Some (DFinite False ?ds (- int (length ?b)))"
    unfolding format_cents_def
    by (rule decimal_of_digits_dot_digits [OF U])
      (use la lb digits_of_nat_digits zero_pad_digits in auto)
  moreover have "coeff_nat ?ds = n"
    by (simp only: strip_leading_zeros_value coeff_nat_digits) (simp add: nat_of_digits_append lb)
  moreover have "\<forall>d \<in> set ?ds. d \<le> 9"
    by (rule strip_leading_zeros_digits)
      (use digits_of_nat_digits zero_pad_digits in \<open>fastforce simp: is_digit_def\<close>)
  moreover have "length ?ds \<le> 22"
    using strip_leading_zeros_length [of "map (\<lambda>c. c - 48) (?a @ ?b)"] la lb by simp
  ultimately show ?thesis using lb by auto
qed

end
