(* ===== verification/PyJson.thy ===== *)
theory PyJson
  imports PyData "HOL-Library.Multiset"
begin

text \<open>
  The dynamically typed values (\<open>object\<close> parameters, JSON columns) as the datatype \<open>py\<close>, with
  dictionaries as association lists in insertion order, and
  \<open>json.dumps(..., ensure_ascii=False, sort_keys=True, separators=(",", ":"), allow_nan=False)\<close>,
  the canonical form the digests are taken of.  The main lemma is that the canonical form
  determines the value up to the order of its keys.
\<close>

section \<open>Values\<close>

text \<open>A float is kept as its \<open>repr\<close>; the code compares no floats, it only rejects them.\<close>

datatype py =
    PyNone
  | PyBool bool
  | PyInt int
  | PyFloat pystr
  | PyStr pystr
  | PyDecimal decimal
  | PyList "py list"
  | PyDict "(pystr \<times> py) list"

text \<open>\<open>d.get(k)\<close> and \<open>len(d) == len(K) and d.keys() == K\<close>.\<close>

definition py_get :: "(pystr \<times> py) list \<Rightarrow> pystr \<Rightarrow> py" where
  "py_get d k = (case map_of d k of Some v \<Rightarrow> v | None \<Rightarrow> PyNone)"

definition keys_exactly :: "(pystr \<times> py) list \<Rightarrow> pystr list \<Rightarrow> bool" where
  "keys_exactly d K \<longleftrightarrow> length d = length K \<and> set (map fst d) = set K"

lemma py_get_Cons: "py_get ((a, v) # d) k = (if a = k then v else py_get d k)"
  by (simp add: py_get_def)

lemma py_get_Nil: "py_get [] k = PyNone"
  by (simp add: py_get_def)

text \<open>Optional integers and strings as values.\<close>

definition py_of_int :: "int option \<Rightarrow> py" where
  "py_of_int x = (case x of None \<Rightarrow> PyNone | Some i \<Rightarrow> PyInt i)"

definition py_of_str :: "pystr option \<Rightarrow> py" where
  "py_of_str x = (case x of None \<Rightarrow> PyNone | Some s \<Rightarrow> PyStr s)"

fun py_str :: "py \<Rightarrow> pystr" where
  "py_str (PyStr s) = s"
| "py_str _ = []"

fun py_int :: "py \<Rightarrow> int" where
  "py_int (PyInt i) = i"
| "py_int _ = 0"

lemma py_of_inj [simp]: "py_of_int x = py_of_int y \<longleftrightarrow> x = y" "py_of_str s = py_of_str t \<longleftrightarrow> s = t"
  by (auto simp: py_of_int_def py_of_str_def split: option.splits)

lemma py_of_simps [simp]: "py_of_int None = PyNone" "py_of_int (Some i) = PyInt i"
  "py_of_str None = PyNone" "py_of_str (Some s) = PyStr s"
  by (simp_all add: py_of_int_def py_of_str_def)

lemma py_of_eq_simps [simp]: "py_of_str x = PyNone \<longleftrightarrow> x = None" "py_of_str x = PyStr s \<longleftrightarrow> x = Some s"
  "py_of_int y = PyNone \<longleftrightarrow> y = None" "py_of_int y = PyInt i \<longleftrightarrow> y = Some i"
  by (auto simp: py_of_int_def py_of_str_def split: option.splits)

section \<open>json.dumps\<close>

definition jhex2 :: "nat \<Rightarrow> pystr" where
  "jhex2 c = [hex_char (c div 16), hex_char (c mod 16)]"

definition jchar :: "nat \<Rightarrow> pystr" where
  "jchar c =
     (if c = 34 then [92, 34] else if c = 92 then [92, 92] else if c = 8 then [92, 98]
      else if c = 12 then [92, 102] else if c = 10 then [92, 110] else if c = 13 then [92, 114]
      else if c = 9 then [92, 116] else if c < 32 then [92, 117, 48, 48] @ jhex2 c else [c])"

definition jquote :: "pystr \<Rightarrow> pystr" where
  "jquote s = 34 # concat (map jchar s) @ [34]"

fun jitems :: "nat \<Rightarrow> pystr list \<Rightarrow> pystr" where
  "jitems e [] = [e]"
| "jitems e [x] = x @ [e]"
| "jitems e (x # y # xs) = x @ 44 # jitems e (y # xs)"

fun jtext :: "py \<Rightarrow> pystr" where
  "jtext PyNone = u ''null''"
| "jtext (PyBool b) = (if b then u ''true'' else u ''false'')"
| "jtext (PyInt i) = str_of_int i"
| "jtext (PyFloat r) = r"
| "jtext (PyDecimal d) = []"
| "jtext (PyStr s) = jquote s"
| "jtext (PyList xs) = 91 # jitems 93 (map jtext xs)"
| "jtext (PyDict d) = 123 # jitems 125 (map (\<lambda>(k, v). jquote k @ 58 # jtext v) d)"

fun sort_keys :: "py \<Rightarrow> py" where
  "sort_keys (PyList xs) = PyList (map sort_keys xs)"
| "sort_keys (PyDict d) = PyDict (sort_key fst (map (\<lambda>(k, v). (k, sort_keys v)) d))"
| "sort_keys v = v"

text \<open>\<open>TypeError\<close> on a \<open>Decimal\<close>, \<open>ValueError\<close> on a non-finite float.\<close>

fun json_ok :: "py \<Rightarrow> bool" where
  "json_ok (PyDecimal d) = False"
| "json_ok (PyFloat r) = (r \<notin> {u ''nan'', u ''inf'', u ''-inf''})"
| "json_ok (PyList xs) = list_all json_ok xs"
| "json_ok (PyDict d) = list_all (\<lambda>(k, v). json_ok v) d"
| "json_ok v = True"

definition json_dumps :: "py \<Rightarrow> pystr option" where
  "json_dumps v = (if json_ok v then Some (jtext (sort_keys v)) else None)"

section \<open>The canonical form determines the value\<close>

text \<open>Values without floats and decimals, the only ones that are digested.\<close>

fun plain :: "py \<Rightarrow> bool" where
  "plain (PyDecimal d) = False"
| "plain (PyFloat r) = False"
| "plain (PyList xs) = list_all plain xs"
| "plain (PyDict d) = list_all (\<lambda>(k, v). plain v) d"
| "plain v = True"

definition delim :: "pystr \<Rightarrow> bool" where
  "delim r \<longleftrightarrow> r = [] \<or> hd r \<in> {44, 93, 125}"

definition jkind :: "nat \<Rightarrow> nat" where
  "jkind c = (if c = 110 then 0 else if c = 116 \<or> c = 102 then 1 else if c = 45 \<or> is_digit c then 2
     else if c = 34 then 3 else if c = 91 then 4 else if c = 123 then 5 else 6)"

fun pkind :: "py \<Rightarrow> nat" where
  "pkind PyNone = 0" | "pkind (PyBool b) = 1" | "pkind (PyInt i) = 2" | "pkind (PyStr s) = 3"
| "pkind (PyList xs) = 4" | "pkind (PyDict d) = 5" | "pkind (PyFloat r) = 6" | "pkind (PyDecimal d) = 6"

lemma str_of_int_nonempty: "str_of_int i \<noteq> []"
  by (simp add: str_of_int_def)

lemma str_of_int_hd: "hd (str_of_int i) = 45 \<or> is_digit (hd (str_of_int i))"
proof -
  have "is_digit (hd (digits_of_nat n))" for n
    using digits_of_nat_digits [of n] hd_in_set [OF digits_of_nat_nonempty [of n]] by blast
  then show ?thesis by (simp add: str_of_int_def)
qed

lemma jtext_hd: "plain v \<Longrightarrow> jtext v \<noteq> [] \<and> jkind (hd (jtext v)) = pkind v"
proof (cases v)
  case (PyInt i)
  then show ?thesis using str_of_int_hd [of i] str_of_int_nonempty [of i] by (auto simp: jkind_def is_digit_def)
qed (auto simp: jkind_def u_def is_digit_def jquote_def)

lemma hd_mismatch: "plain v \<Longrightarrow> plain w \<Longrightarrow> jtext v @ r = jtext w @ s \<Longrightarrow> pkind v = pkind w"
  using jtext_hd [of v] jtext_hd [of w] by (metis hd_append2)

lemma jchar_cases: "jchar c = [c] \<and> c \<noteq> 34 \<and> c \<noteq> 92 \<and> 32 \<le> c
    \<or> (\<exists>e. jchar c = [92, e] \<and> e \<noteq> 117)
    \<or> jchar c = [92, 117, 48, 48] @ jhex2 c \<and> c < 32"
  by (auto simp: jchar_def)

lemma jchar_inj2: "jchar c = [92, e] \<Longrightarrow> jchar d = [92, e] \<Longrightarrow> c = d"
  by (auto simp: jchar_def jhex2_def split: if_splits)

lemma jhex2_inj: "c < 256 \<Longrightarrow> d < 256 \<Longrightarrow> jhex2 c = jhex2 d \<Longrightarrow> c = d"
proof -
  assume a: "c < 256" "d < 256" "jhex2 c = jhex2 d"
  have "c div 16 < 16" "d div 16 < 16" using a by (simp_all add: div_less_iff_less_mult)
  then have "c div 16 = d div 16" "c mod 16 = d mod 16"
    using a by (auto simp: jhex2_def intro!: hex_char_inj)
  then show "c = d" by (metis div_mult_mod_eq)
qed

lemma jchar_prefix: "jchar c @ x = jchar d @ y \<Longrightarrow> c = d \<and> x = y"
  using jchar_cases [of c] jchar_cases [of d] jchar_inj2 [of c _ d] jhex2_inj [of c d]
  by (auto simp: jhex2_def)

lemma jchar_hd: "jchar c \<noteq> [] \<and> hd (jchar c) \<noteq> 34"
  using jchar_cases [of c] by auto

lemma jstring_inj:
  "concat (map jchar s) @ 34 # x = concat (map jchar t) @ 34 # y \<Longrightarrow> s = t \<and> x = y"
proof (induction s arbitrary: t)
  case Nil
  then show ?case by (cases t) (use jchar_hd in \<open>auto dest: arg_cong [where f = hd]\<close>)
next
  case (Cons c s)
  obtain d t' where t: "t = d # t'"
    using Cons.prems jchar_hd [of c] by (cases t) (auto dest: arg_cong [where f = hd])
  have "jchar c @ (concat (map jchar s) @ 34 # x) = jchar d @ (concat (map jchar t') @ 34 # y)"
    using Cons.prems t by simp
  then have "c = d" "concat (map jchar s) @ 34 # x = concat (map jchar t') @ 34 # y"
    using jchar_prefix by blast+
  with Cons.IH t show ?case by blast
qed

lemma jquote_inj: "jquote s @ x = jquote t @ y \<Longrightarrow> s = t \<and> x = y"
  using jstring_inj [of s x t y] by (simp add: jquote_def)

lemma str_of_int_delim:
  assumes e: "str_of_int i @ r = str_of_int j @ s" and d: "delim r" "delim s"
  shows "i = j \<and> r = s"
proof -
  let ?P = "\<lambda>c. c = 45 \<or> is_digit c"
  have a: "\<forall>c \<in> set (str_of_int i). ?P c" for i
    using digits_of_nat_digits by (auto simp: str_of_int_def)
  have tw: "takeWhile ?P (str_of_int k @ q) = str_of_int k" if "delim q" for k q
    using a [of k] that by (cases q) (auto simp: delim_def is_digit_def takeWhile_append takeWhile_eq_all_conv)
  have "str_of_int i = str_of_int j" using tw [OF d(1), of i] tw [OF d(2), of j] e by simp
  then show ?thesis using e by (simp add: str_of_int_inj)
qed

lemma jitems_inj:
  assumes "\<And>x y r s. x \<in> set xs \<Longrightarrow> y \<in> set ys \<Longrightarrow> f x @ r = f y @ s \<Longrightarrow> delim r \<Longrightarrow> delim s \<Longrightarrow> x = y \<and> r = s"
    and "\<And>x. x \<in> set xs \<union> set ys \<Longrightarrow> f x \<noteq> [] \<and> hd (f x) \<noteq> e"
    and "e = 93 \<or> e = 125"
    and "jitems e (map f xs) @ r = jitems e (map f ys) @ s"
  shows "xs = ys \<and> r = s"
  using assms
proof (induction xs arbitrary: ys)
  case Nil
  then show ?case
  proof (cases ys)
    case (Cons y zs)
    then have "f y \<noteq> []" "hd (f y) \<noteq> e" using Nil.prems(2) by auto
    then show ?thesis using Nil.prems(4) Cons by (cases zs) (auto dest: arg_cong [where f = hd])
  qed simp
next
  case (Cons x xs)
  have fx: "f x \<noteq> []" "hd (f x) \<noteq> e" using Cons.prems(2) by auto
  obtain y zs where ys: "ys = y # zs"
    using Cons.prems(4) fx by (cases ys; cases xs) (auto dest: arg_cong [where f = hd])
  let ?tail = "\<lambda>us r. if us = [] then e # r else 44 # jitems e (map f us) @ r"
  have "f x @ ?tail xs r = f y @ ?tail zs s"
    using Cons.prems(4) ys by (cases xs; cases zs) auto
  moreover have "delim (?tail us q)" for us q using Cons.prems(3) by (auto simp: delim_def)
  ultimately have xy: "x = y" and tl: "?tail xs r = ?tail zs s"
    using Cons.prems(1) [of x y "?tail xs r" "?tail zs s"] ys by auto
  have "e \<noteq> 44" using Cons.prems(3) by auto
  then consider "xs = []" "zs = []" "r = s"
    | "xs \<noteq> []" "zs \<noteq> []" "jitems e (map f xs) @ r = jitems e (map f zs) @ s"
    using tl by (auto split: if_splits)
  then show ?case
  proof cases
    case 1
    then show ?thesis using xy ys by simp
  next
    case 2
    then have "xs = zs \<and> r = s"
      using Cons.prems ys by (intro Cons.IH) auto
    then show ?thesis using xy ys by simp
  qed
qed

lemma jtext_inj:
  "plain v \<Longrightarrow> plain w \<Longrightarrow> jtext v @ r = jtext w @ s \<Longrightarrow> delim r \<Longrightarrow> delim s \<Longrightarrow> v = w \<and> r = s"
proof (induction v arbitrary: w r s)
  case PyNone
  from hd_mismatch [OF PyNone.prems(1-3)] have "pkind w = 0" by simp
  then show ?case using PyNone.prems by (cases w) auto
next
  case (PyBool b)
  from hd_mismatch [OF PyBool.prems(1-3)] have "pkind w = 1" by simp
  then obtain c where "w = PyBool c" by (cases w) simp_all
  then show ?case using PyBool.prems by (cases b; cases c) (simp_all add: u_def)
next
  case (PyInt i)
  from hd_mismatch [OF PyInt.prems(1-3)] have "pkind w = 2" by simp
  then obtain j where w: "w = PyInt j" by (cases w) auto
  then have "str_of_int i @ r = str_of_int j @ s" using PyInt.prems(3) by simp
  with w show ?case using str_of_int_delim PyInt.prems(4,5) by blast
next
  case (PyStr t)
  from hd_mismatch [OF PyStr.prems(1-3)] have "pkind w = 3" by simp
  then obtain t' where w: "w = PyStr t'" by (cases w) auto
  then have "jquote t @ r = jquote t' @ s" using PyStr.prems(3) by simp
  with w show ?case using jquote_inj by blast
next
  case (PyList xs)
  from hd_mismatch [OF PyList.prems(1-3)] have "pkind w = 4" by simp
  then obtain ys where w: "w = PyList ys" by (cases w) auto
  have pl: "plain x" if "x \<in> set xs \<union> set ys" for x
    using PyList.prems(1,2) w that by (auto simp: list_all_iff)
  have "xs = ys \<and> r = s"
  proof (rule jitems_inj [where f = jtext and e = 93])
    show "x = y \<and> r' = s'" if "x \<in> set xs" "y \<in> set ys" "jtext x @ r' = jtext y @ s'" "delim r'" "delim s'"
      for x y r' s' using PyList.IH [of x y r' s'] pl that by blast
    show "jtext x \<noteq> [] \<and> hd (jtext x) \<noteq> 93" if "x \<in> set xs \<union> set ys" for x
      using jtext_hd [OF pl [OF that]] pl [OF that] by (cases x) (auto simp: jkind_def is_digit_def)
  qed (use PyList.prems(3) w in auto)
  with w show ?case by simp
next
  case (PyDict xs)
  from hd_mismatch [OF PyDict.prems(1-3)] have "pkind w = 5" by simp
  then obtain ys where w: "w = PyDict ys" by (cases w) auto
  have pl: "plain (snd x)" if "x \<in> set xs \<union> set ys" for x
    using PyDict.prems(1,2) w that by (auto simp: list_all_iff)
  let ?f = "\<lambda>(k, v). jquote k @ 58 # jtext v"
  have "xs = ys \<and> r = s"
  proof (rule jitems_inj [where f = ?f and e = 125])
    show "x = y \<and> r' = s'" if h: "x \<in> set xs" "y \<in> set ys" "?f x @ r' = ?f y @ s'" "delim r'" "delim s'"
      for x y r' s'
    proof -
      have "jquote (fst x) @ (58 # jtext (snd x) @ r') = jquote (fst y) @ (58 # jtext (snd y) @ s')"
        using h(3) by (simp add: case_prod_beta)
      then have "fst x = fst y" "jtext (snd x) @ r' = jtext (snd y) @ s'"
        using jquote_inj by blast+
      moreover from this have "snd x = snd y \<and> r' = s'"
        using PyDict.IH [of x "snd x" "snd y" r' s'] pl h by (auto simp: prod_set_simps snds.simps)
      ultimately show ?thesis by (auto intro: prod_eqI)
    qed
    show "?f x \<noteq> [] \<and> hd (?f x) \<noteq> 125" for x by (cases x) (simp add: jquote_def)
  qed (use PyDict.prems(3) w in auto)
  with w show ?case by simp
qed auto

lemma plain_json_ok: "plain v \<Longrightarrow> json_ok v"
  by (induction v) (auto simp: list_all_iff snds.simps)

lemma plain_sort_keys: "plain v \<Longrightarrow> plain (sort_keys v)"
  by (induction v) (auto simp: list_all_iff snds.simps)

lemma json_dumps_inj:
  assumes "plain v" "plain w" "json_dumps v = json_dumps w"
  shows "sort_keys v = sort_keys w"
  using jtext_inj [of "sort_keys v" "sort_keys w" "[]" "[]"] assms
  by (simp add: json_dumps_def plain_json_ok plain_sort_keys delim_def)

text \<open>
  A JSON column does not keep the order of the keys: two values with the same canonical form
  answer every lookup alike, up to that order.
\<close>

definition same_json :: "py \<Rightarrow> py \<Rightarrow> bool" where
  "same_json v w \<longleftrightarrow> sort_keys v = sort_keys w"

lemma same_json_refl [simp]: "same_json v v"
  by (simp add: same_json_def)

lemma same_json_atom: "(\<And>xs. w \<noteq> PyList xs) \<Longrightarrow> (\<And>d. w \<noteq> PyDict d) \<Longrightarrow> same_json v w \<Longrightarrow> v = w"
  by (cases v; cases w) (auto simp: same_json_def)

lemma same_json_of [simp]: "same_json v (py_of_str x) \<longleftrightarrow> v = py_of_str x" "same_json v (py_of_int y) \<longleftrightarrow> v = py_of_int y"
  "same_json v (PyStr s) \<longleftrightarrow> v = PyStr s" "same_json v (PyInt i) \<longleftrightarrow> v = PyInt i" "same_json v PyNone \<longleftrightarrow> v = PyNone"
  by (auto intro: same_json_atom simp: py_of_str_def py_of_int_def split: option.splits)

lemma map_of_sort_values:
  "map_of (map (\<lambda>(k, v). (k, sort_keys v)) d) k = map_option sort_keys (map_of d k)"
  by (induction d) auto

lemma same_json_dict:
  assumes "same_json v (PyDict d)" "distinct (map fst d)"
  obtains e where "v = PyDict e" "length e = length d" "set (map fst e) = set (map fst d)"
    "\<And>k. same_json (py_get e k) (py_get d k)"
proof -
  let ?g = "map (\<lambda>(k, v). (k, sort_keys v))"
  obtain e where e: "v = PyDict e" using assms(1) by (cases v) (auto simp: same_json_def)
  have "sort_key fst (?g e) = sort_key fst (?g d)" using assms(1) e by (simp add: same_json_def)
  then have m: "mset (?g e) = mset (?g d)" by (metis mset_sort)
  then have len: "length e = length d" by (metis length_map size_mset)
  have fst: "map fst (?g x) = map fst x" for x :: "(pystr \<times> py) list" by (induction x) auto
  have "mset (map fst (?g e)) = mset (map fst (?g d))" using arg_cong [OF m, of "image_mset fst"] by (simp only: mset_map)
  then have keys: "mset (map fst e) = mset (map fst d)" by (simp only: fst)
  then have ks: "set (map fst e) = set (map fst d)" by (metis set_mset_mset)
  have de: "distinct (map fst e)" using keys assms(2) by (metis distinct_count_atmost_1 set_mset_mset)
  have "map_of (?g e) = map_of (?g d)"
    using m de assms(2) by (subst map_of_inject_set) (simp_all only: fst, metis set_mset_mset)
  then have "map_option sort_keys (map_of e k) = map_option sort_keys (map_of d k)" for k
    by (simp only: map_of_sort_values [symmetric])
  then have "same_json (py_get e k) (py_get d k)" for k
    unfolding same_json_def py_get_def
    by (metis (mono_tags) option.case_eq_if option.map_disc_iff option.map_sel)
  then show thesis using that e len ks by blast
qed

lemma same_json_nil [simp]: "same_json v (PyList []) \<longleftrightarrow> v = PyList []"
  by (cases v) (auto simp: same_json_def)

text \<open>Two objects with the same keys and matching values are the same JSON value.\<close>

lemma same_json_dictI:
  assumes "distinct (map fst d)" "distinct (map fst e)" "set (map fst d) = set (map fst e)"
    and "\<And>k. k \<in> set (map fst e) \<Longrightarrow> same_json (py_get d k) (py_get e k)"
  shows "same_json (PyDict d) (PyDict e)"
proof -
  let ?g = "map (\<lambda>(k, v). (k, sort_keys v))"
  have fst: "map fst (?g x) = map fst x" for x :: "(pystr \<times> py) list" by (induction x) auto
  have "set (?g x) \<subseteq> set (?g y)"
    if "distinct (map fst x)" "distinct (map fst y)" "set (map fst x) = set (map fst y)"
      "\<And>k. k \<in> set (map fst y) \<Longrightarrow> sort_keys (py_get x k) = sort_keys (py_get y k)" for x y
  proof
    fix q assume "q \<in> set (?g x)"
    then obtain k v where q: "(k, v) \<in> set x" "q = (k, sort_keys v)" by auto
    then have "k \<in> set (map fst y)" using that(3) by force
    then obtain w where w: "(k, w) \<in> set y" by auto
    have "py_get x k = v" "py_get y k = w" using q w that(1,2) by (simp_all add: py_get_def)
    with that(4) \<open>k \<in> set (map fst y)\<close> have "sort_keys v = sort_keys w" by auto
    with w q(2) show "q \<in> set (?g y)" by force
  qed
  from this [of d e] this [of e d] have "set (?g d) = set (?g e)"
    using assms unfolding same_json_def by (metis subset_antisym)
  moreover from this have "inj_on fst (set (sort_key fst (?g d)) \<union> set (sort_key fst (?g e)))"
    using assms(1) unfolding fst [of d, symmetric] by (simp only: distinct_map set_sort Un_absorb)
  moreover have "distinct (map fst (sort_key fst (?g x)))" if "distinct (map fst x)" for x :: "(pystr \<times> py) list"
  proof -
    have "mset (map fst (sort_key fst (?g x))) = mset (map fst (?g x))" by (simp only: mset_map mset_sort)
    then show ?thesis using that fst [of x] mset_eq_imp_distinct_iff by metis
  qed
  ultimately have "sort_key fst (?g d) = sort_key fst (?g e)"
    using assms(1,2) by (intro map_sorted_distinct_set_unique [of fst]) auto
  then show ?thesis by (simp add: same_json_def)
qed

lemma keys_exactly_dist: "keys_exactly d K \<Longrightarrow> distinct K \<Longrightarrow> distinct (map fst d) \<and> set (map fst d) = set K"
  by (metis keys_exactly_def card_distinct distinct_card length_map)

end
