(* ===== verification/ReportCandidate.thy ===== *)
theory ReportCandidate
  imports PyJson
begin

text \<open>
  The report candidate of \<open>domain/cell_report_workflow.py\<close>: the shared product limits, the
  closed error vocabulary, the normalisers of counts, observations and offerings, the money
  grammar of the WhatsApp text, and the immutable candidate value with its merge, validation,
  payload and digest.
\<close>

section \<open>Limits and vocabularies\<close>

definition MAX_REPORT_TEXT_BYTES :: nat where "MAX_REPORT_TEXT_BYTES = 16384"
definition MAX_REPORT_OBSERVATIONS_LENGTH :: nat where "MAX_REPORT_OBSERVATIONS_LENGTH = 2000"
definition MAX_REPORT_OBSERVATIONS_BYTES :: nat where "MAX_REPORT_OBSERVATIONS_BYTES = 8000"
definition MAX_REPORT_CORRELATION_KEY_BYTES :: nat where "MAX_REPORT_CORRELATION_KEY_BYTES = 512"
definition MAX_REPORT_COUNT :: int where "MAX_REPORT_COUNT = 1000000"
definition MAX_REPORT_REVISION :: int where "MAX_REPORT_REVISION = 1000000"
definition MAX_REPORT_MONEY_TOKEN_BYTES :: nat where "MAX_REPORT_MONEY_TOKEN_BYTES = 32"
definition MAX_REPORT_DECIMAL_DIGITS :: nat where "MAX_REPORT_DECIMAL_DIGITS = 32"
definition MAX_REPORT_OFFERING_CENTS :: nat where "MAX_REPORT_OFFERING_CENTS = 99999999"

lemmas report_limits = MAX_REPORT_TEXT_BYTES_def MAX_REPORT_OBSERVATIONS_LENGTH_def
  MAX_REPORT_OBSERVATIONS_BYTES_def MAX_REPORT_CORRELATION_KEY_BYTES_def MAX_REPORT_COUNT_def
  MAX_REPORT_REVISION_def MAX_REPORT_MONEY_TOKEN_BYTES_def MAX_REPORT_DECIMAL_DIGITS_def
  MAX_REPORT_OFFERING_CENTS_def

datatype workflow_error =
    INVALID_TEXT
  | TEXT_LIMIT_EXCEEDED
  | INVALID_COUNT
  | COUNT_LIMIT_EXCEEDED
  | CONFLICTING_FIELD_VALUES
  | INVALID_OFFERING
  | OFFERING_LIMIT_EXCEEDED
  | INVALID_OBSERVATIONS
  | OBSERVATIONS_LIMIT_EXCEEDED
  | INVALID_CORRELATION_KEY
  | CORRELATION_KEY_LIMIT_EXCEEDED
  | INVALID_CANDIDATE
  | INVALID_WORKFLOW
  | REVISION_LIMIT_EXCEEDED
  | EMPTY_REVISION
  | INVALID_CONFIRMATION_COMMAND
  | CONFIRMATION_CODE_MISMATCH
  | INVALID_STATE_TRANSITION

section \<open>Normalisers\<close>

definition utf8_bytes :: "pystr \<Rightarrow> workflow_error \<Rightarrow> (workflow_error, bytes) result" where
  "utf8_bytes s invalid = (case utf8_encode s of None \<Rightarrow> Inl invalid | Some b \<Rightarrow> Inr b)"

definition normalized_count :: "py \<Rightarrow> (workflow_error, int option) result" where
  "normalized_count v =
     (case v of
        PyNone \<Rightarrow> Inr None
      | PyInt i \<Rightarrow> if i < 0 then Inl INVALID_COUNT
                  else if i > MAX_REPORT_COUNT then Inl COUNT_LIMIT_EXCEEDED
                  else Inr (Some i)
      | _ \<Rightarrow> Inl INVALID_COUNT)"

definition observation_char_ok :: "unicode_db \<Rightarrow> nat \<Rightarrow> bool" where
  "observation_char_ok U c \<longleftrightarrow> ud_printable U c \<or> c \<in> {10, 9}"

definition normalize_observations :: "unicode_db \<Rightarrow> py \<Rightarrow> (workflow_error, pystr option) result" where
  "normalize_observations U v =
     (case v of
        PyNone \<Rightarrow> Inr None
      | PyStr s \<Rightarrow>
          if length s > MAX_REPORT_OBSERVATIONS_LENGTH then Inl OBSERVATIONS_LIMIT_EXCEEDED
          else let n = py_strip (ud_nfc U s)
               in if n = [] then Inr None
                  else if \<not> list_all (observation_char_ok U) n then Inl INVALID_OBSERVATIONS
                  else ebind (utf8_bytes n INVALID_OBSERVATIONS)
                         (\<lambda>b. if length b > MAX_REPORT_OBSERVATIONS_BYTES
                              then Inl OBSERVATIONS_LIMIT_EXCEEDED else Inr (Some n))
      | _ \<Rightarrow> Inl INVALID_OBSERVATIONS)"

subsection \<open>Money\<close>

text \<open>The test \<open>s.isascii() and s.isdigit()\<close>.\<close>

definition ascii_digits :: "pystr \<Rightarrow> bool" where
  "ascii_digits s \<longleftrightarrow> s \<noteq> [] \<and> list_all is_digit s"

text \<open>The groups of a number with thousands separators: \<open>d{1,3}\<close> then \<open>ddd\<close> each.\<close>

definition thousands_groups_ok :: "pystr list \<Rightarrow> bool" where
  "thousands_groups_ok gs \<longleftrightarrow>
     gs \<noteq> [] \<and> hd gs \<noteq> [] \<and> length (hd gs) \<le> 3 \<and> list_all (\<lambda>g. length g = 3) (tl gs)
     \<and> list_all ascii_digits gs"

definition money_alphabet :: "pystr \<Rightarrow> bool" where
  "money_alphabet s \<longleftrightarrow> s \<noteq> [] \<and> is_digit (hd s) \<and> list_all (\<lambda>c. is_digit c \<or> c = 46 \<or> c = 44) s"

definition decimal_or_invalid :: "unicode_db \<Rightarrow> pystr \<Rightarrow> (workflow_error, decimal) result" where
  "decimal_or_invalid U s = (case decimal_of_str U s of None \<Rightarrow> Inl INVALID_OFFERING | Some d \<Rightarrow> Inr d)"

definition decimal_from_money_string :: "unicode_db \<Rightarrow> pystr \<Rightarrow> (workflow_error, decimal) result" where
  "decimal_from_money_string U v =
     (if length v > MAX_REPORT_MONEY_TOKEN_BYTES then Inl OFFERING_LIMIT_EXCEEDED
      else if v = [] \<or> v \<noteq> py_strip v then Inl INVALID_OFFERING
      else ebind (utf8_bytes v INVALID_OFFERING) (\<lambda>b.
        if length b > MAX_REPORT_MONEY_TOKEN_BYTES then Inl OFFERING_LIMIT_EXCEEDED
        else if \<not> money_alphabet v then Inl INVALID_OFFERING
        else if 44 \<in> set v then
          (if count_list v 44 \<noteq> 1 then Inl INVALID_OFFERING
           else let integer = split_on 44 v ! 0; fraction = split_on 44 v ! 1
                in if length fraction \<notin> {1, 2} \<or> \<not> ascii_digits fraction then Inl INVALID_OFFERING
                   else if 46 \<in> set integer then
                     (if \<not> thousands_groups_ok (split_on 46 integer) then Inl INVALID_OFFERING
                      else decimal_or_invalid U (concat (split_on 46 integer) @ 46 # fraction))
                   else decimal_or_invalid U (integer @ 46 # fraction))
        else if 46 \<in> set v then
          (let groups = split_on 46 v
           in if length groups = 2 \<and> length (groups ! 1) \<in> {1, 2} then
                (if \<not> list_all ascii_digits groups then Inl INVALID_OFFERING
                 else decimal_or_invalid U v)
              else if \<not> thousands_groups_ok groups then Inl INVALID_OFFERING
              else decimal_or_invalid U (concat groups))
        else decimal_or_invalid U v))"

text \<open>
  The cents of a finite unsigned non-zero amount; the digits are the coefficient, most
  significant first, and \<open>e\<close> the exponent.  More than two decimal places are accepted only
  when the extra digits are zeros.
\<close>

definition offering_cents :: "nat list \<Rightarrow> int \<Rightarrow> (workflow_error, nat) result" where
  "offering_cents ds e =
     (if length ds > MAX_REPORT_DECIMAL_DIGITS then Inl OFFERING_LIMIT_EXCEEDED
      else if e \<ge> 0 then
        (if e > int MAX_REPORT_DECIMAL_DIGITS then Inl OFFERING_LIMIT_EXCEEDED
         else Inr (coeff_nat ds * 10 ^ nat (e + 2)))
      else let scale = nat (- e)
           in if scale \<le> 2 then Inr (coeff_nat ds * 10 ^ (2 - scale))
              else let places = scale - 2
                   in if places \<ge> length ds then Inl INVALID_OFFERING
                      else if list_ex (\<lambda>d. d \<noteq> 0) (drop (length ds - places) ds) then Inl INVALID_OFFERING
                      else Inr (coeff_nat ds div 10 ^ places))"

definition canonical_amount :: "decimal \<Rightarrow> (workflow_error, pystr option) result" where
  "canonical_amount d =
     (if \<not> is_finite d \<or> is_signed d then Inl INVALID_OFFERING
      else if is_zero d then Inr (Some (u ''0.00''))
      else ebind (offering_cents (dcoeff d) (dexp d)) (\<lambda>cents.
        if cents > MAX_REPORT_OFFERING_CENTS then Inl OFFERING_LIMIT_EXCEEDED
        else Inr (Some (format_cents cents))))"

definition plain_amount_token :: "pystr \<Rightarrow> bool" where
  "plain_amount_token s \<longleftrightarrow>
     (let i = takeWhile is_digit s; r = dropWhile is_digit s
      in i \<noteq> [] \<and> (r = [] \<or> (hd r = 46 \<and> length (tl r) \<in> {1, 2} \<and> list_all is_digit (tl r))))"

definition canonical_offering :: "unicode_db \<Rightarrow> py \<Rightarrow> (workflow_error, pystr option) result" where
  "canonical_offering U v =
     (case v of
        PyNone \<Rightarrow> Inr None
      | PyDecimal d \<Rightarrow> canonical_amount d
      | PyStr s \<Rightarrow>
          if length s > MAX_REPORT_MONEY_TOKEN_BYTES then Inl OFFERING_LIMIT_EXCEEDED
          else if \<not> plain_amount_token s then Inl INVALID_OFFERING
          else ebind (decimal_or_invalid U s) canonical_amount
      | _ \<Rightarrow> Inl INVALID_OFFERING)"

definition canonical_report_offering :: "unicode_db \<Rightarrow> py \<Rightarrow> (workflow_error, pystr option) result" where
  "canonical_report_offering U v =
     (case v of
        PyStr s \<Rightarrow> ebind (decimal_from_money_string U s) (\<lambda>d. canonical_offering U (PyDecimal d))
      | _ \<Rightarrow> Inl INVALID_OFFERING)"

section \<open>Candidate\<close>

record candidate =
  presentes :: "int option"
  visitantes :: "int option"
  decisoes :: "int option"
  oferta :: "pystr option"
  observacoes :: "pystr option"

definition is_empty :: "candidate \<Rightarrow> bool" where
  "is_empty c \<longleftrightarrow> presentes c = None \<and> visitantes c = None \<and> decisoes c = None
     \<and> oferta c = None \<and> observacoes c = None"

definition missing_required_fields :: "candidate \<Rightarrow> string list" where
  "missing_required_fields c =
     map fst (filter (\<lambda>(f, absent). absent)
       [(''presentes'', presentes c = None), (''visitantes'', visitantes c = None),
        (''decisoes'', decisoes c = None), (''oferta'', oferta c = None)])"

definition is_complete :: "candidate \<Rightarrow> bool" where
  "is_complete c \<longleftrightarrow> missing_required_fields c = []"

definition build_cell_report_candidate ::
  "unicode_db \<Rightarrow> py \<Rightarrow> py \<Rightarrow> py \<Rightarrow> py \<Rightarrow> py \<Rightarrow> (workflow_error, candidate) result" where
  "build_cell_report_candidate U p v d oferta_v obs =
     ebind (normalized_count p) (\<lambda>p'.
     ebind (normalized_count v) (\<lambda>v'.
     ebind (normalized_count d) (\<lambda>d'.
     ebind (canonical_offering U oferta_v) (\<lambda>o'.
     ebind (normalize_observations U obs) (\<lambda>b'.
       Inr \<lparr>presentes = p', visitantes = v', decisoes = d', oferta = o', observacoes = b'\<rparr>)))))"

definition validate_candidate :: "unicode_db \<Rightarrow> candidate \<Rightarrow> (workflow_error, candidate) result" where
  "validate_candidate U c =
     ebind (build_cell_report_candidate U (py_of_int (presentes c)) (py_of_int (visitantes c))
              (py_of_int (decisoes c)) (py_of_str (oferta c)) (py_of_str (observacoes c)))
       (\<lambda>expected. if expected \<noteq> c then Inl INVALID_CANDIDATE else Inr c)"

definition overlay :: "'a option \<Rightarrow> 'a option \<Rightarrow> 'a option" where
  "overlay patch current = (if patch \<noteq> None then patch else current)"

definition merge_cell_report_candidates ::
  "unicode_db \<Rightarrow> candidate \<Rightarrow> candidate \<Rightarrow> (workflow_error, candidate) result" where
  "merge_cell_report_candidates U current patch =
     ebind (validate_candidate U current) (\<lambda>_.
     ebind (validate_candidate U patch) (\<lambda>_.
       build_cell_report_candidate U
         (py_of_int (overlay (presentes patch) (presentes current)))
         (py_of_int (overlay (visitantes patch) (visitantes current)))
         (py_of_int (overlay (decisoes patch) (decisoes current)))
         (py_of_str (overlay (oferta patch) (oferta current)))
         (py_of_str (overlay (observacoes patch) (observacoes current)))))"

definition candidate_payload :: "candidate \<Rightarrow> (pystr \<times> py) list" where
  "candidate_payload c =
     [(u ''schema_version'', PyStr (u ''v1'')),
      (u ''presentes'', py_of_int (presentes c)),
      (u ''visitantes'', py_of_int (visitantes c)),
      (u ''decisoes'', py_of_int (decisoes c)),
      (u ''oferta'', py_of_str (oferta c)),
      (u ''observacoes'', py_of_str (observacoes c))]"

definition cell_report_candidate_payload :: "unicode_db \<Rightarrow> candidate \<Rightarrow> (workflow_error, py) result" where
  "cell_report_candidate_payload U c =
     ebind (validate_candidate U c) (\<lambda>_. Inr (PyDict (candidate_payload c)))"

definition canonical_candidate_bytes :: "unicode_db \<Rightarrow> candidate \<Rightarrow> (workflow_error, bytes) result" where
  "canonical_candidate_bytes U c =
     ecatch
       (ebind (cell_report_candidate_payload U c) (\<lambda>p.
          case json_dumps p of
            None \<Rightarrow> Inl INVALID_CANDIDATE
          | Some t \<Rightarrow> utf8_bytes t INVALID_CANDIDATE))
       (\<lambda>_. Inl INVALID_CANDIDATE)"

definition candidate_material :: "bytes \<Rightarrow> bytes" where
  "candidate_material b =
     binary_frame [ascii_bytes (u ''pastorai.cell-report.candidate''), ascii_bytes (u ''v1''), b]"

definition derive_candidate_digest :: "unicode_db \<Rightarrow> candidate \<Rightarrow> (workflow_error, pystr) result" where
  "derive_candidate_digest U c =
     ebind (canonical_candidate_bytes U c) (\<lambda>b.
       Inr (u ''cell_report_candidate_v1_'' @ hexdigest (sha256 (candidate_material b))))"

section \<open>What the normalisers accept\<close>

definition count_ok :: "int option \<Rightarrow> bool" where
  "count_ok x \<longleftrightarrow> (case x of None \<Rightarrow> True | Some i \<Rightarrow> 0 \<le> i \<and> i \<le> MAX_REPORT_COUNT)"

definition observation_ok :: "unicode_db \<Rightarrow> pystr \<Rightarrow> bool" where
  "observation_ok U s \<longleftrightarrow>
     s \<noteq> [] \<and> length s \<le> MAX_REPORT_OBSERVATIONS_LENGTH \<and> ud_nfc U s = s \<and> py_strip s = s
     \<and> list_all (observation_char_ok U) s
     \<and> (case utf8_encode s of None \<Rightarrow> False | Some b \<Rightarrow> length b \<le> MAX_REPORT_OBSERVATIONS_BYTES)"

definition offering_ok :: "pystr option \<Rightarrow> bool" where
  "offering_ok x \<longleftrightarrow> (case x of None \<Rightarrow> True
     | Some s \<Rightarrow> \<exists>n \<le> MAX_REPORT_OFFERING_CENTS. s = format_cents n)"

lemma count_ok_Some: "count_ok (Some i) \<longleftrightarrow> 0 \<le> i \<and> i \<le> MAX_REPORT_COUNT"
  by (simp add: count_ok_def)

lemma normalized_count_result: "normalized_count v = Inr x \<longleftrightarrow> v = py_of_int x \<and> count_ok x"
  by (cases v; cases x) (auto simp: normalized_count_def count_ok_def)

lemma normalized_count_of_int [simp]: "count_ok x \<Longrightarrow> normalized_count (py_of_int x) = Inr x"
  by (simp add: normalized_count_result)

lemma utf8_bytes_Inr [result_simps]: "utf8_bytes s e = Inr b \<longleftrightarrow> utf8_encode s = Some b"
  by (simp add: utf8_bytes_def split: option.splits)

text \<open>Everything observed of an accepted observation except its length, see the finding below.\<close>

lemma normalize_observations_result:
  assumes "unicode_ok U" "normalize_observations U v = Inr (Some n)"
  shows "n \<noteq> [] \<and> ud_nfc U n = n \<and> py_strip n = n \<and> list_all (observation_char_ok U) n
    \<and> (\<exists>b. utf8_encode n = Some b \<and> length b \<le> MAX_REPORT_OBSERVATIONS_BYTES)"
proof -
  obtain s where s: "v = PyStr s" using assms(2) by (cases v) (auto simp: normalize_observations_def)
  have "n = py_strip (ud_nfc U s)" using assms(2) s
    by (auto simp: normalize_observations_def Let_def result_simps split: if_splits)
  moreover have "ud_nfc U (py_strip (ud_nfc U s)) = py_strip (ud_nfc U s)"
    using nfc_strip nfc_idem assms(1) by blast
  ultimately show ?thesis using assms(2) s
    by (auto simp: normalize_observations_def Let_def result_simps split: if_splits)
qed

lemma normalize_observations_id:
  "normalize_observations U (PyStr s) = Inr (Some s) \<longleftrightarrow> observation_ok U s" if "unicode_ok U"
proof
  assume a: "normalize_observations U (PyStr s) = Inr (Some s)"
  then have "length s \<le> MAX_REPORT_OBSERVATIONS_LENGTH"
    by (auto simp: normalize_observations_def split: if_splits)
  then show "observation_ok U s" using normalize_observations_result [OF that a]
    by (auto simp: observation_ok_def)
next
  assume "observation_ok U s"
  then show "normalize_observations U (PyStr s) = Inr (Some s)"
    by (auto simp: observation_ok_def normalize_observations_def utf8_bytes_def Let_def split: option.splits)
qed

lemma normalize_none [simp]: "normalize_observations U PyNone = Inr None" "canonical_offering U PyNone = Inr None"
  by (simp_all add: normalize_observations_def canonical_offering_def)

lemma normalize_observations_of_str [simp]:
  "unicode_ok U \<Longrightarrow> (case x of None \<Rightarrow> True | Some s \<Rightarrow> observation_ok U s) \<Longrightarrow>
   normalize_observations U (py_of_str x) = Inr x"
  by (cases x) (auto simp: normalize_observations_id)

subsection \<open>Offerings\<close>

lemma canonical_amount_result:
  "canonical_amount d = Inr r \<Longrightarrow> \<exists>n \<le> MAX_REPORT_OFFERING_CENTS. r = Some (format_cents n)"
proof -
  assume "canonical_amount d = Inr r"
  moreover have "u ''0.00'' = format_cents 0" by code_simp
  ultimately show ?thesis
    by (auto simp: canonical_amount_def result_simps not_less split: if_splits)
qed

lemma canonical_offering_result: "canonical_offering U v = Inr x \<Longrightarrow> offering_ok x"
  by (cases v)
    (auto simp: canonical_offering_def offering_ok_def result_simps dest!: canonical_amount_result
      split: if_splits)

text \<open>The exact meaning of a decimal in cents.\<close>

definition amount_is_cents :: "nat list \<Rightarrow> int \<Rightarrow> nat \<Rightarrow> bool" where
  "amount_is_cents ds e n \<longleftrightarrow>
     (if 0 \<le> e + 2 then n = coeff_nat ds * 10 ^ nat (e + 2)
      else coeff_nat ds = n * 10 ^ nat (- (e + 2)))"

lemma amount_is_cents_unique: "amount_is_cents ds e m \<Longrightarrow> amount_is_cents ds e n \<Longrightarrow> m = n"
  by (auto simp: amount_is_cents_def split: if_splits)

lemma amount_zero: "coeff_nat ds = 0 \<Longrightarrow> amount_is_cents ds e n \<longleftrightarrow> n = 0"
  by (auto simp: amount_is_cents_def)

lemma trailing_zeros_dvd:
  assumes "\<forall>d \<in> set ds. d \<le> 9" "k \<le> length ds"
  shows "list_ex (\<lambda>d. d \<noteq> 0) (drop (length ds - k) ds) \<longleftrightarrow> \<not> 10 ^ k dvd coeff_nat ds"
proof -
  let ?a = "take (length ds - k) ds" and ?b = "drop (length ds - k) ds"
  have b: "\<forall>d \<in> set ?b. d \<le> 9" using assms(1) by (auto dest: in_set_dropD)
  have l: "length ?b = k" using assms(2) by simp
  have "coeff_nat ds = coeff_nat ?a * 10 ^ k + coeff_nat ?b"
    using coeff_nat_append [of ?a ?b] l by simp
  then have "10 ^ k dvd coeff_nat ds \<longleftrightarrow> 10 ^ k dvd coeff_nat ?b" by (simp add: dvd_add_right_iff)
  also have "\<dots> \<longleftrightarrow> coeff_nat ?b = 0"
    using coeff_nat_less [OF b] l by (auto dest: dvd_imp_le)
  also have "\<dots> \<longleftrightarrow> \<not> list_ex (\<lambda>d. d \<noteq> 0) ?b"
    by (simp add: coeff_nat_zero_iff list_ex_iff)
  finally show ?thesis by blast
qed

lemma offering_cents_exact:
  assumes "\<forall>d \<in> set ds. d \<le> 9" "length ds \<le> MAX_REPORT_DECIMAL_DIGITS" "e \<le> int MAX_REPORT_DECIMAL_DIGITS"
    and nz: "coeff_nat ds \<noteq> 0"
  shows "offering_cents ds e = Inr n \<longleftrightarrow> amount_is_cents ds e n"
proof -
  consider "0 \<le> e" | "- 2 \<le> e" "e < 0" | "e < - 2" by linarith
  then show ?thesis
  proof cases
    case 1
    then show ?thesis using assms by (auto simp: offering_cents_def amount_is_cents_def)
  next
    case 2
    then have "2 - nat (- e) = nat (e + 2)" by arith
    with 2 show ?thesis using assms by (auto simp: offering_cents_def amount_is_cents_def Let_def)
  next
    case 3
    define k where "k = nat (- e) - 2"
    have k: "nat (- (e + 2)) = k" "\<not> nat (- e) \<le> 2" using 3 by (auto simp: k_def)
    have am: "amount_is_cents ds e n \<longleftrightarrow> coeff_nat ds = n * 10 ^ k"
      using 3 k by (simp add: amount_is_cents_def)
    show ?thesis
    proof (cases "k < length ds")
      case True
      have "offering_cents ds e = Inr n \<longleftrightarrow> 10 ^ k dvd coeff_nat ds \<and> coeff_nat ds div 10 ^ k = n"
        using 3 k True assms trailing_zeros_dvd [of ds k]
        by (auto simp: offering_cents_def Let_def k_def [symmetric])
      also have "\<dots> \<longleftrightarrow> coeff_nat ds = n * 10 ^ k" by (auto simp: dvd_def)
      finally show ?thesis using am by simp
    next
      case False
      have "coeff_nat ds < 10 ^ k"
        using coeff_nat_less [OF assms(1)] False
        by (meson less_le_trans not_less one_le_numeral power_increasing)
      then have "coeff_nat ds \<noteq> n * 10 ^ k" using nz by (cases n) auto
      with am show ?thesis using 3 k False assms(2) by (auto simp: offering_cents_def Let_def k_def [symmetric])
    qed
  qed
qed

lemma canonical_amount_exact:
  assumes "\<forall>d \<in> set ds. d \<le> 9" "length ds \<le> MAX_REPORT_DECIMAL_DIGITS" "e \<le> int MAX_REPORT_DECIMAL_DIGITS"
  shows "canonical_amount (DFinite False ds e) = Inr (Some s)
    \<longleftrightarrow> (\<exists>n \<le> MAX_REPORT_OFFERING_CENTS. amount_is_cents ds e n \<and> s = format_cents n)"
proof (cases "coeff_nat ds = 0")
  case True
  moreover have "u ''0.00'' = format_cents 0" by code_simp
  ultimately show ?thesis
    by (auto simp: canonical_amount_def is_finite_def is_signed_def is_zero_def amount_zero)
next
  case False
  then show ?thesis using offering_cents_exact [OF assms False]
    by (auto simp: canonical_amount_def is_finite_def is_signed_def is_zero_def result_simps not_less)
qed

lemma format_cents_parts:
  assumes "n \<le> MAX_REPORT_OFFERING_CENTS"
  shows "length (format_cents n) \<le> 11" "plain_amount_token (format_cents n)"
proof -
  let ?a = "digits_of_nat (n div 100)" and ?b = "zero_pad 2 (n mod 100)"
  have lb: "length ?b = 2" by (rule length_zero_pad) simp_all
  have "n div 100 < 10 ^ 8" using assms by (simp add: report_limits)
  then have "length ?a \<le> 8" by (rule digits_of_nat_bound) simp
  then show "length (format_cents n) \<le> 11" using lb by (simp add: format_cents_def)
  have nd: "\<not> is_digit 46" by (simp add: is_digit_def)
  have "takeWhile is_digit (?a @ 46 # ?b) = ?a" "dropWhile is_digit (?a @ 46 # ?b) = 46 # ?b"
    using digits_of_nat_digits [of "n div 100"] nd by (simp_all add: takeWhile_append2 dropWhile_append2)
  then show "plain_amount_token (format_cents n)"
    using lb zero_pad_digits [of 2 "n mod 100"]
    by (simp add: plain_amount_token_def format_cents_def list_all_iff)
qed

lemma canonical_offering_canonical:
  assumes U: "unicode_ok U" and n: "n \<le> MAX_REPORT_OFFERING_CENTS"
  shows "canonical_offering U (PyStr (format_cents n)) = Inr (Some (format_cents n))"
proof -
  have "n < 10 ^ 20" using n by (simp add: report_limits)
  then obtain ds where ds: "decimal_of_str U (format_cents n) = Some (DFinite False ds (- 2))"
      "coeff_nat ds = n" "\<forall>d \<in> set ds. d \<le> 9" "length ds \<le> 22"
    using decimal_of_format_cents [OF U] by blast
  have "canonical_amount (DFinite False ds (- 2)) = Inr (Some (format_cents n))"
    using ds n by (subst canonical_amount_exact) (auto simp: report_limits amount_is_cents_def)
  then show ?thesis
    using ds format_cents_parts [OF n]
    by (simp add: canonical_offering_def decimal_or_invalid_def report_limits)
qed

lemma canonical_offering_of_str [simp]:
  "unicode_ok U \<Longrightarrow> offering_ok x \<Longrightarrow> canonical_offering U (py_of_str x) = Inr x"
  by (cases x) (auto simp: offering_ok_def canonical_offering_canonical)

section \<open>Valid candidates\<close>

definition candidate_ok :: "unicode_db \<Rightarrow> candidate \<Rightarrow> bool" where
  "candidate_ok U c \<longleftrightarrow>
     count_ok (presentes c) \<and> count_ok (visitantes c) \<and> count_ok (decisoes c) \<and> offering_ok (oferta c)
     \<and> (case observacoes c of None \<Rightarrow> True | Some s \<Rightarrow> observation_ok U s)"

lemma build_of_ok:
  assumes "unicode_ok U" "candidate_ok U c"
  shows "build_cell_report_candidate U (py_of_int (presentes c)) (py_of_int (visitantes c))
           (py_of_int (decisoes c)) (py_of_str (oferta c)) (py_of_str (observacoes c)) = Inr c"
  using assms by (simp add: build_cell_report_candidate_def candidate_ok_def)

lemma build_result:
  assumes "unicode_ok U" "build_cell_report_candidate U p v d f b = Inr c"
  shows "p = py_of_int (presentes c) \<and> v = py_of_int (visitantes c) \<and> d = py_of_int (decisoes c)
    \<and> count_ok (presentes c) \<and> count_ok (visitantes c) \<and> count_ok (decisoes c) \<and> offering_ok (oferta c)
    \<and> normalize_observations U b = Inr (observacoes c)"
  using assms
  by (auto simp: build_cell_report_candidate_def result_simps normalized_count_result canonical_offering_result)

text \<open>
  A built candidate is valid unless normalisation form C has expanded its observation over
  the limit, which \<open>_normalize_observations\<close> only checks before normalising.
\<close>

lemma build_ok:
  assumes "unicode_ok U" "build_cell_report_candidate U p v d f b = Inr c"
    and "\<And>s. observacoes c = Some s \<Longrightarrow> length s \<le> MAX_REPORT_OBSERVATIONS_LENGTH"
  shows "candidate_ok U c"
  using build_result [OF assms(1,2)] assms(3) normalize_observations_result [OF assms(1), of b]
  by (fastforce simp: candidate_ok_def observation_ok_def split: option.splits)

lemma validate_candidate_iff:
  assumes U: "unicode_ok U"
  shows "validate_candidate U c = Inr d \<longleftrightarrow> d = c \<and> candidate_ok U c"
proof
  assume a: "validate_candidate U c = Inr d"
  then have b: "build_cell_report_candidate U (py_of_int (presentes c)) (py_of_int (visitantes c))
      (py_of_int (decisoes c)) (py_of_str (oferta c)) (py_of_str (observacoes c)) = Inr c" and "d = c"
    by (auto simp: validate_candidate_def result_simps)
  have "candidate_ok U c"
  proof (rule build_ok [OF U b])
    fix s assume s: "observacoes c = Some s"
    then have "normalize_observations U (PyStr s) = Inr (Some s)" using build_result [OF U b] by simp
    then show "length s \<le> MAX_REPORT_OBSERVATIONS_LENGTH"
      by (simp add: normalize_observations_id [OF U] observation_ok_def)
  qed
  with \<open>d = c\<close> show "d = c \<and> candidate_ok U c" by simp
next
  assume "d = c \<and> candidate_ok U c"
  then show "validate_candidate U c = Inr d"
    using build_of_ok [OF U, of c] by (simp add: validate_candidate_def)
qed

lemma validate_candidate_ok [simp]: "unicode_ok U \<Longrightarrow> candidate_ok U c \<Longrightarrow> validate_candidate U c = Inr c"
  by (simp add: validate_candidate_iff)

lemma empty_candidate_ok: "candidate_ok U \<lparr>presentes = None, visitantes = None, decisoes = None, oferta = None, observacoes = None\<rparr>"
  by (simp add: candidate_ok_def count_ok_def offering_ok_def)

lemma is_complete_iff:
  "is_complete c \<longleftrightarrow> presentes c \<noteq> None \<and> visitantes c \<noteq> None \<and> decisoes c \<noteq> None \<and> oferta c \<noteq> None"
  by (simp add: is_complete_def missing_required_fields_def)

lemma complete_not_empty: "is_complete c \<Longrightarrow> \<not> is_empty c"
  by (simp add: is_complete_iff is_empty_def)

definition overlay_candidate :: "candidate \<Rightarrow> candidate \<Rightarrow> candidate" where
  "overlay_candidate patch current =
     \<lparr>presentes = overlay (presentes patch) (presentes current),
      visitantes = overlay (visitantes patch) (visitantes current),
      decisoes = overlay (decisoes patch) (decisoes current),
      oferta = overlay (oferta patch) (oferta current),
      observacoes = overlay (observacoes patch) (observacoes current)\<rparr>"

lemma overlay_candidate_ok:
  "candidate_ok U p \<Longrightarrow> candidate_ok U c \<Longrightarrow> candidate_ok U (overlay_candidate p c)"
  by (simp add: candidate_ok_def overlay_candidate_def overlay_def)

lemma merge_ok:
  assumes "unicode_ok U" "candidate_ok U c" "candidate_ok U p"
  shows "merge_cell_report_candidates U c p = Inr (overlay_candidate p c)"
  using assms build_of_ok [OF assms(1) overlay_candidate_ok [OF assms(3,2)]]
  by (simp add: merge_cell_report_candidates_def overlay_candidate_def)

section \<open>Canonical bytes and digest\<close>

definition encodable :: "pystr \<Rightarrow> bool" where
  "encodable s \<longleftrightarrow> (\<forall>c \<in> set s. utf8_char c \<noteq> None)"

lemma utf8_encode_encodable: "utf8_encode s \<noteq> None \<longleftrightarrow> encodable s"
  by (induction s) (auto simp: encodable_def split: option.splits)

lemma encodable_append [simp]: "encodable (s @ t) \<longleftrightarrow> encodable s \<and> encodable t"
  by (auto simp: encodable_def)

lemma encodable_Cons [simp]: "encodable (c # t) \<longleftrightarrow> utf8_char c \<noteq> None \<and> encodable t"
  by (auto simp: encodable_def)

lemma encodable_Nil [simp]: "encodable []"
  by (simp add: encodable_def)

lemma encodable_ascii: "\<forall>c \<in> set s. c < 128 \<Longrightarrow> encodable s"
  by (simp add: encodable_def utf8_char_def)

lemma hex_char_ascii: "n < 16 \<Longrightarrow> hex_char n < 128"
  by (simp add: hex_char_def)

lemma encodable_jquote: "encodable s \<Longrightarrow> encodable (jquote s)"
proof -
  assume s: "encodable s"
  have "encodable (jchar c)" if "utf8_char c \<noteq> None" for c
  proof -
    have "c < 32 \<Longrightarrow> c div 16 < 16" by simp
    then show ?thesis using that hex_char_ascii [of "c div 16"] hex_char_ascii [of "c mod 16"]
      by (auto simp: jchar_def jhex2_def utf8_char_def)
  qed
  with s have "encodable (concat (map jchar s))" by (induction s) auto
  then show ?thesis by (simp add: jquote_def utf8_char_def)
qed

lemma encodable_py_of: "encodable (jtext (py_of_int x))" "(\<And>s. y = Some s \<Longrightarrow> encodable s) \<Longrightarrow> encodable (jtext (py_of_str y))"
proof -
  have n: "encodable (u ''null'')" by (simp add: u_def utf8_char_def)
  show "encodable (jtext (py_of_int x))"
    using n by (cases x) (simp_all add: encodable_ascii [OF str_of_int_ascii])
  show "(\<And>s. y = Some s \<Longrightarrow> encodable s) \<Longrightarrow> encodable (jtext (py_of_str y))"
    using n by (cases y) (simp_all add: encodable_jquote)
qed

text \<open>The payload with its keys in the order \<open>sort_keys\<close> gives.\<close>

definition sorted_payload :: "candidate \<Rightarrow> (pystr \<times> py) list" where
  "sorted_payload c =
     [(u ''decisoes'', py_of_int (decisoes c)), (u ''observacoes'', py_of_str (observacoes c)),
      (u ''oferta'', py_of_str (oferta c)), (u ''presentes'', py_of_int (presentes c)),
      (u ''schema_version'', PyStr (u ''v1'')), (u ''visitantes'', py_of_int (visitantes c))]"

lemma sort_keys_py_of [simp]: "sort_keys (py_of_int x) = py_of_int x" "sort_keys (py_of_str y) = py_of_str y"
  by (cases x; simp) (cases y; simp)

lemma sort_candidate_payload: "sort_keys (PyDict (candidate_payload c)) = PyDict (sorted_payload c)"
  by (simp add: candidate_payload_def sorted_payload_def u_def)

lemma plain_py_of [simp]: "plain (py_of_int x)" "plain (py_of_str y)"
  by (cases x; simp) (cases y; simp)

lemma plain_candidate_payload: "plain (PyDict (candidate_payload c))"
  by (simp add: candidate_payload_def)

lemma candidate_json: "json_dumps (PyDict (candidate_payload c)) = Some (jtext (PyDict (sorted_payload c)))"
  unfolding json_dumps_def sort_candidate_payload using plain_json_ok [OF plain_candidate_payload, of c]
  by (simp del: jtext.simps json_ok.simps)

lemma offering_ok_ascii: "offering_ok (Some s) \<Longrightarrow> encodable s"
  using format_cents_ascii by (auto simp: offering_ok_def intro!: encodable_ascii)

lemma encodable_candidate_json:
  assumes "candidate_ok U c"
  shows "encodable (jtext (PyDict (sorted_payload c)))"
proof -
  have o: "encodable s" if "oferta c = Some s" for s
    using assms that offering_ok_ascii by (simp add: candidate_ok_def)
  have b: "encodable s" if "observacoes c = Some s" for s
    using assms that utf8_encode_encodable [of s]
    by (auto simp: candidate_ok_def observation_ok_def split: option.splits)
  have keys: "encodable (jquote k)" if "k \<in> {u ''decisoes'', u ''observacoes'', u ''oferta'', u ''presentes'',
      u ''schema_version'', u ''visitantes'', u ''v1''}" for k
    by (rule encodable_jquote, rule encodable_ascii) (use that in \<open>auto simp: u_def\<close>)
  show ?thesis
    using encodable_py_of(1) encodable_py_of(2) [OF o] encodable_py_of(2) [OF b] keys
    by (simp add: sorted_payload_def utf8_char_def)
qed

definition candidate_bytes :: "candidate \<Rightarrow> bytes" where
  "candidate_bytes c = the (utf8_encode (jtext (PyDict (sorted_payload c))))"

lemma canonical_candidate_bytes_ok:
  assumes "unicode_ok U" "candidate_ok U c"
  shows "canonical_candidate_bytes U c = Inr (candidate_bytes c)"
proof -
  obtain b where "utf8_encode (jtext (PyDict (sorted_payload c))) = Some b"
    using encodable_candidate_json [OF assms(2)] utf8_encode_encodable by fastforce
  with assms show ?thesis
    by (simp add: canonical_candidate_bytes_def cell_report_candidate_payload_def candidate_json
        utf8_bytes_def candidate_bytes_def del: jtext.simps)
qed

lemma candidate_bytes_inj:
  assumes "candidate_ok U c" "candidate_ok U d" "candidate_bytes c = candidate_bytes d"
  shows "c = d"
proof -
  obtain x where "utf8_encode (jtext (PyDict (sorted_payload c))) = Some x"
    using encodable_candidate_json [OF assms(1)] utf8_encode_encodable by fastforce
  moreover obtain y where "utf8_encode (jtext (PyDict (sorted_payload d))) = Some y"
    using encodable_candidate_json [OF assms(2)] utf8_encode_encodable by fastforce
  ultimately have "jtext (PyDict (sorted_payload c)) = jtext (PyDict (sorted_payload d))"
    using assms(3) utf8_encode_inj by (auto simp: candidate_bytes_def simp del: jtext.simps)
  then have "sort_keys (PyDict (candidate_payload c)) = sort_keys (PyDict (candidate_payload d))"
    using json_dumps_inj [OF plain_candidate_payload plain_candidate_payload] candidate_json by metis
  then have "sorted_payload c = sorted_payload d"
    unfolding sort_candidate_payload by blast
  then show "c = d" by (simp add: sorted_payload_def)
qed

lemma candidate_material_inj: "candidate_material a = candidate_material b \<Longrightarrow> a = b"
  by (simp add: candidate_material_def binary_frame_def frame_part_def append_eq_same_length)

definition candidate_digest_of :: "candidate \<Rightarrow> pystr" where
  "candidate_digest_of c =
     u ''cell_report_candidate_v1_'' @ hexdigest (sha256 (candidate_material (candidate_bytes c)))"

lemma derive_candidate_digest_ok [simp]:
  "unicode_ok U \<Longrightarrow> candidate_ok U c \<Longrightarrow> derive_candidate_digest U c = Inr (candidate_digest_of c)"
  by (simp add: derive_candidate_digest_def canonical_candidate_bytes_ok candidate_digest_of_def)

lemma candidate_digest_shape [simp, shape_simps]: "prefixed_hex64 (u ''cell_report_candidate_v1_'') (candidate_digest_of c)"
  by (simp add: candidate_digest_of_def)

lemma candidate_digest_of_inj:
  assumes "candidate_ok U c" "candidate_ok U d" "candidate_digest_of c = candidate_digest_of d"
    and "sha256 (candidate_material (candidate_bytes c)) = sha256 (candidate_material (candidate_bytes d)) \<Longrightarrow>
         candidate_material (candidate_bytes c) = candidate_material (candidate_bytes d)"
  shows "c = d"
proof -
  have "sha256 (candidate_material (candidate_bytes c)) = sha256 (candidate_material (candidate_bytes d))"
    using assms(3) by (auto simp: candidate_digest_of_def intro: hexdigest_inj)
  then have "candidate_bytes c = candidate_bytes d" using assms(4) candidate_material_inj by blast
  then show ?thesis using candidate_bytes_inj assms(1,2) by blast
qed

section \<open>The money grammar of the messages\<close>

fun dots :: "pystr list \<Rightarrow> pystr" where
  "dots [] = []"
| "dots [g] = g"
| "dots (g # h # gs) = g @ 46 # dots (h # gs)"

lemma split_on_append: "sep \<notin> set g \<Longrightarrow> split_on sep (g @ sep # s) = g # split_on sep s"
  by (induction g) auto

lemma split_on_none: "sep \<notin> set g \<Longrightarrow> split_on sep g = [g]"
  by (induction g) auto

lemma split_dots: "gs \<noteq> [] \<Longrightarrow> \<forall>g \<in> set gs. 46 \<notin> set g \<Longrightarrow> split_on 46 (dots gs) = gs"
  by (induction gs rule: dots.induct) (auto simp: split_on_append split_on_none)

lemma set_dots: "set (dots gs) \<subseteq> insert 46 (\<Union>(set ` set gs))"
  by (induction gs rule: dots.induct) auto

lemma dots_single: "gs \<noteq> [] \<Longrightarrow> 46 \<notin> set (dots gs) \<Longrightarrow> dots gs = concat gs"
  by (induction gs rule: dots.induct) auto

lemma hd_dots: "gs \<noteq> [] \<Longrightarrow> hd gs \<noteq> [] \<Longrightarrow> dots gs \<noteq> [] \<and> hd (dots gs) = hd (hd gs)"
  by (induction gs rule: dots.induct) auto

lemma ascii_digits_set: "ascii_digits s \<Longrightarrow> c \<in> set s \<Longrightarrow> is_digit c"
  by (simp add: ascii_digits_def list_all_iff)

lemma amount_of_token:
  assumes "unicode_ok U" "ascii_digits i" "ascii_digits f" "length f \<in> {1, 2}" "length i + length f \<le> 32"
  shows "ebind (decimal_or_invalid U (i @ 46 # f)) (\<lambda>d. canonical_offering U (PyDecimal d)) =
    (let cents = nat_of_digits i * 100 + nat_of_digits f * 10 ^ (2 - length f)
     in if cents > MAX_REPORT_OFFERING_CENTS then Inl OFFERING_LIMIT_EXCEEDED else Inr (Some (format_cents cents)))"
proof -
  let ?ds = "strip_leading_zeros (map (\<lambda>c. c - 48) (i @ f))"
  have dig: "\<forall>c \<in> set i. is_digit c" "\<forall>c \<in> set f. is_digit c" "i \<noteq> []"
    using assms(2,3) ascii_digits_set by (auto simp: ascii_digits_def)
  then have "decimal_of_str U (i @ 46 # f) = Some (DFinite False ?ds (- int (length f)))"
    using assms by (intro decimal_of_digits_dot_digits) auto
  then have d: "decimal_or_invalid U (i @ 46 # f) = Inr (DFinite False ?ds (- int (length f)))"
    by (simp add: decimal_or_invalid_def)
  have "length ?ds \<le> length (i @ f)"
    using strip_leading_zeros_length [of "map (\<lambda>c. c - 48) (i @ f)"] dig by simp
  then have len: "length ?ds \<le> 32" using assms(5) by simp
  have coeff: "coeff_nat ?ds = nat_of_digits i * 10 ^ length f + nat_of_digits f"
    by (simp only: strip_leading_zeros_value coeff_nat_digits nat_of_digits_append)
  let ?c = "nat_of_digits i * 100 + nat_of_digits f * 10 ^ (2 - length f)"
  have cents: "coeff_nat ?ds * 10 ^ (2 - length f) = ?c"
    unfolding coeff using assms(4) by (auto simp: algebra_simps)
  have oc: "offering_cents ?ds (- int (length f)) = Inr (coeff_nat ?ds * 10 ^ (2 - length f))"
    using len assms(4) by (auto simp: offering_cents_def report_limits Let_def)
  have z: "coeff_nat ?ds = 0 \<longleftrightarrow> ?c = 0" using cents by (metis mult_eq_0_iff power_not_zero zero_neq_numeral)
  have fz: "format_cents 0 = u ''0.00''" by code_simp
  have "canonical_amount (DFinite False ?ds (- int (length f))) =
      (if ?c > MAX_REPORT_OFFERING_CENTS then Inl OFFERING_LIMIT_EXCEEDED else Inr (Some (format_cents ?c)))"
  proof (cases "?c = 0")
    case True
    then show ?thesis using z fz
      by (simp add: canonical_amount_def is_finite_def is_signed_def is_zero_def report_limits)
  next
    case False
    then show ?thesis using z oc cents
      by (auto simp: canonical_amount_def is_finite_def is_signed_def is_zero_def)
  qed
  with d show ?thesis unfolding Let_def by (simp add: canonical_offering_def del: map_append)
qed

text \<open>The Brazilian form with cents: grouped thousands or plain digits, a comma, one or two digits.\<close>

definition integer_text :: "pystr \<Rightarrow> pystr \<Rightarrow> bool" where
  "integer_text t i \<longleftrightarrow> t = i \<and> ascii_digits i
     \<or> (\<exists>gs. thousands_groups_ok gs \<and> length gs \<ge> 2 \<and> t = dots gs \<and> i = concat gs)"

lemma groups_digits: "thousands_groups_ok gs \<Longrightarrow> ascii_digits (concat gs) \<and> (\<forall>g \<in> set gs. \<forall>c \<in> set g. is_digit c)"
  by (cases gs) (auto simp: thousands_groups_ok_def ascii_digits_def list_all_iff)

lemma dot_in_dots: "length gs \<ge> 2 \<Longrightarrow> 46 \<in> set (dots gs)"
  by (cases gs rule: dots.cases) auto

lemma length_dots: "length (concat gs) \<le> length (dots gs)"
  by (induction gs rule: dots.induct) auto

lemma integer_textD:
  assumes "integer_text t i"
  shows "ascii_digits i" "t \<noteq> []" "is_digit (hd t)" "\<forall>c \<in> set t. is_digit c \<or> c = 46" "length i \<le> length t"
    "if 46 \<in> set t then thousands_groups_ok (split_on 46 t) \<and> concat (split_on 46 t) = i else t = i"
proof -
  have "ascii_digits i \<and> t \<noteq> [] \<and> is_digit (hd t) \<and> (\<forall>c \<in> set t. is_digit c \<or> c = 46) \<and> length i \<le> length t \<and>
    (if 46 \<in> set t then thousands_groups_ok (split_on 46 t) \<and> concat (split_on 46 t) = i else t = i)"
    using assms unfolding integer_text_def
  proof (elim disjE conjE exE)
    assume a: "t = i" "ascii_digits i"
    then have "46 \<notin> set t" using ascii_digits_set [of i 46] by (auto simp: is_digit_def)
    with a show ?thesis by (auto simp: ascii_digits_def list_all_iff)
  next
    fix gs assume g: "thousands_groups_ok gs" "2 \<le> length gs" "t = dots gs" "i = concat gs"
    have gs: "gs \<noteq> []" "hd gs \<noteq> []" using g(1) by (auto simp: thousands_groups_ok_def)
    have nodot: "\<forall>g \<in> set gs. 46 \<notin> set g" using groups_digits [OF g(1)] by (force simp: is_digit_def)
    have "hd (hd gs) \<in> set (hd gs)" "hd gs \<in> set gs" using gs by simp_all
    then have "is_digit (hd t)" using groups_digits [OF g(1)] hd_dots [OF gs] g(3) by auto
    then show ?thesis
      using g hd_dots [OF gs] groups_digits [OF g(1)] set_dots [of gs] split_dots [OF gs(1) nodot]
        dot_in_dots [OF g(2)] length_dots [of gs] by auto
  qed
  then show "ascii_digits i" "t \<noteq> []" "is_digit (hd t)" "\<forall>c \<in> set t. is_digit c \<or> c = 46" "length i \<le> length t"
    "if 46 \<in> set t then thousands_groups_ok (split_on 46 t) \<and> concat (split_on 46 t) = i else t = i" by auto
qed

lemma money_string_comma:
  assumes U: "unicode_ok U" and t: "integer_text t i" and f: "ascii_digits f" "length f \<in> {1, 2}"
    and len: "length t + length f \<le> 31"
  shows "decimal_from_money_string U (t @ 44 # f) = decimal_or_invalid U (i @ 46 # f)"
proof -
  let ?v = "t @ 44 # f"
  note T = integer_textD [OF t]
  have fd: "\<forall>c \<in> set f. is_digit c" "f \<noteq> []" using f ascii_digits_set by (auto simp: ascii_digits_def)
  have chars: "\<forall>c \<in> set ?v. is_digit c \<or> c = 46 \<or> c = 44" using T(4) fd(1) by auto
  have ends: "\<not> py_isspace (hd ?v)" "\<not> py_isspace (last ?v)"
    using T(2,3) fd digit_not_space by (auto simp: last_append)
  then have strip: "py_strip ?v = ?v" using strip_id_iff by blast
  have ascii: "\<forall>c \<in> set ?v. c < 128" using chars by (fastforce simp: is_digit_def)
  have nc: "44 \<notin> set t" "44 \<notin> set f" using T(4) fd(1) by (auto simp: is_digit_def)
  then have one: "count_list ?v 44 = 1" by (simp add: count_list_0_iff)
  have split: "split_on 44 ?v = [t, f]" using nc split_on_append split_on_none by simp
  have alpha: "money_alphabet ?v" using T(2,3) chars by (auto simp: money_alphabet_def list_all_iff)
  define v where "v = ?v"
  have v: "py_strip v = v" "v \<noteq> []" "length v \<le> 32" "utf8_encode v = Some (map byte v)" "money_alphabet v"
    "44 \<in> set v" "count_list v 44 = 1" "split_on 44 v = [t, f]"
    using strip len utf8_encode_ascii [OF ascii] alpha one split by (simp_all add: v_def)
  have "decimal_from_money_string U v = decimal_or_invalid U (i @ 46 # f)"
    using v T(6) f
    by (cases "46 \<in> set t") (auto simp: decimal_from_money_string_def report_limits utf8_bytes_def Let_def)
  then show ?thesis by (simp add: v_def)
qed

section \<open>Properties\<close>

definition sample_candidate :: candidate where
  "sample_candidate = \<lparr>presentes = Some 12, visitantes = Some 3, decisoes = Some 1,
     oferta = Some (u ''150.00''), observacoes = Some (u ''ok'')\<rparr>"

definition sample_patch :: candidate where
  "sample_patch = \<lparr>presentes = None, visitantes = Some 4, decisoes = None, oferta = None, observacoes = None\<rparr>"

lemma sample_offering: "u ''150.00'' = format_cents 15000"
  by (simp add: u_def format_cents_def digits_of_nat.simps zero_pad_def)

lemma sample_candidates_ok: "candidate_ok ascii_db sample_candidate" "candidate_ok ascii_db sample_patch"
proof -
  have "offering_ok (Some (u ''150.00''))"
    unfolding offering_ok_def using sample_offering by (auto simp: report_limits intro!: exI [of _ 15000])
  moreover have "observation_ok ascii_db (u ''ok'')"
    by (simp add: observation_ok_def ascii_db_def u_def report_limits strip_id_iff py_isspace_def
        observation_char_ok_def utf8_char_def)
  ultimately show "candidate_ok ascii_db sample_candidate"
    by (simp add: candidate_ok_def sample_candidate_def count_ok_def report_limits)
  show "candidate_ok ascii_db sample_patch"
    by (simp add: candidate_ok_def sample_patch_def count_ok_def offering_ok_def report_limits)
qed

text \<open>
  Offerings are never rounded.  An amount given as a \<open>Decimal\<close> (finite, unsigned, at most 32
  digits, exponent at most 32) is accepted exactly when its value is a whole number of cents
  within the product limit, and then the canonical string renders exactly those cents.
\<close>

theorem offering_decimal_exact:
  assumes "\<forall>d \<in> set ds. d \<le> 9" "length ds \<le> MAX_REPORT_DECIMAL_DIGITS" "e \<le> int MAX_REPORT_DECIMAL_DIGITS"
  shows "canonical_offering U (PyDecimal (DFinite False ds e)) = Inr (Some s)
    \<longleftrightarrow> (\<exists>n \<le> MAX_REPORT_OFFERING_CENTS. amount_is_cents ds e n \<and> s = format_cents n)"
  using canonical_amount_exact [OF assms] by (simp add: canonical_offering_def)

theorem offering_decimal_exact_witness:
  "canonical_offering ascii_db (PyDecimal (DFinite False [1, 5, 0, 0, 0] (- 3))) = Inr (Some (u ''15.00''))"
proof -
  have "format_cents 1500 = u ''15.00''"
    by (simp add: u_def format_cents_def digits_of_nat.simps zero_pad_def)
  then show ?thesis
    by (subst offering_decimal_exact) (auto simp: report_limits amount_is_cents_def coeff_nat_def intro!: exI [of _ 1500])
qed

text \<open>
  The Brazilian money notation of a message, thousands separated by dots and one or two
  digits after the comma, denotes the amount it reads as: the canonical string of exactly those
  cents, or the limit error when they exceed the product limit.
\<close>

theorem money_text_value:
  assumes "unicode_ok U" "integer_text t i" "ascii_digits f" "length f \<in> {1, 2}" "length t + length f \<le> 31"
  shows "canonical_report_offering U (PyStr (t @ u '','' @ f)) =
    (let cents = nat_of_digits i * 100 + nat_of_digits f * 10 ^ (2 - length f)
     in if cents > MAX_REPORT_OFFERING_CENTS then Inl OFFERING_LIMIT_EXCEEDED else Inr (Some (format_cents cents)))"
proof -
  have "length i + length f \<le> 32" using integer_textD(5) [OF assms(2)] assms(5) by simp
  then show ?thesis
    using amount_of_token [OF assms(1) integer_textD(1) [OF assms(2)] assms(3,4)] money_string_comma [OF assms]
    by (simp add: canonical_report_offering_def u_def)
qed

theorem money_text_value_witness:
  "canonical_report_offering ascii_db (PyStr (u ''1.234'' @ u '','' @ u ''5'')) = Inr (Some (u ''1234.50''))"
proof -
  have t: "integer_text (u ''1.234'') (u ''1234'')"
    unfolding integer_text_def
    by (rule disjI2, rule exI [of _ "[u ''1'', u ''234'']"])
      (simp add: thousands_groups_ok_def ascii_digits_def u_def is_digit_def)
  have "format_cents 123450 = u ''1234.50''"
    by (simp add: u_def format_cents_def digits_of_nat.simps zero_pad_def)
  moreover have "nat_of_digits (u ''1234'') * 100 + nat_of_digits (u ''5'') * 10 = 123450"
    by (simp add: u_def nat_of_digits.simps)
  ultimately show ?thesis
    by (subst money_text_value [OF ascii_db_ok t])
      (simp_all add: ascii_digits_def u_def is_digit_def report_limits)
qed

text \<open>
  A canonical offering is a fixed point: whatever value was accepted, its canonical string is
  a two-decimal rendering within the limit and is accepted again unchanged, so a stored
  offering survives every later validation.
\<close>

theorem offering_canonical_fixpoint:
  assumes "unicode_ok U" "canonical_offering U v = Inr (Some s)"
  shows "canonical_offering U (PyStr s) = Inr (Some s) \<and> (\<exists>n \<le> MAX_REPORT_OFFERING_CENTS. s = format_cents n)"
  using canonical_offering_result [OF assms(2)] canonical_offering_canonical [OF assms(1)]
  by (auto simp: offering_ok_def)

theorem offering_canonical_fixpoint_witness:
  "canonical_offering ascii_db (PyStr (u ''0.00'')) = Inr (Some (u ''0.00''))"
  by (rule offering_canonical_fixpoint [OF ascii_db_ok, of "PyDecimal (DFinite False [0] 0)", THEN conjunct1])
    (simp add: canonical_offering_def canonical_amount_def is_finite_def is_signed_def is_zero_def coeff_nat_def)

text \<open>
  Merging overlays exactly the fields present in the patch and nothing else, and the merge of
  two valid candidates is valid.
\<close>

theorem merge_overlays:
  assumes "unicode_ok U" "validate_candidate U current = Inr current" "validate_candidate U patch = Inr patch"
  shows "\<exists>m. merge_cell_report_candidates U current patch = Inr m \<and> validate_candidate U m = Inr m
    \<and> presentes m = (if presentes patch = None then presentes current else presentes patch)
    \<and> visitantes m = (if visitantes patch = None then visitantes current else visitantes patch)
    \<and> decisoes m = (if decisoes patch = None then decisoes current else decisoes patch)
    \<and> oferta m = (if oferta patch = None then oferta current else oferta patch)
    \<and> observacoes m = (if observacoes patch = None then observacoes current else observacoes patch)"
  using assms merge_ok [OF assms(1), of current patch] overlay_candidate_ok [of U patch current]
  by (auto simp: validate_candidate_iff overlay_candidate_def overlay_def)

theorem merge_overlays_witness:
  "\<exists>m. merge_cell_report_candidates ascii_db sample_candidate sample_patch = Inr m \<and> visitantes m = Some 4
     \<and> presentes m = Some 12"
  using merge_overlays [OF ascii_db_ok validate_candidate_ok [OF ascii_db_ok sample_candidates_ok(1)]
      validate_candidate_ok [OF ascii_db_ok sample_candidates_ok(2)]]
  by (auto simp: sample_candidate_def sample_patch_def)

text \<open>
  The candidate digest binds every field: two valid candidates with the same digest are the
  same candidate, unless the two canonical encodings themselves collide under SHA-256.
\<close>

theorem candidate_digest_binds:
  assumes "unicode_ok U" "validate_candidate U c = Inr c" "validate_candidate U d = Inr d"
    and "derive_candidate_digest U c = derive_candidate_digest U d"
  shows "c = d \<or> (candidate_bytes c \<noteq> candidate_bytes d
      \<and> sha256 (candidate_material (candidate_bytes c)) = sha256 (candidate_material (candidate_bytes d)))"
  using assms candidate_digest_of_inj [of U c d] candidate_bytes_inj [of U c d]
  by (auto simp: validate_candidate_iff candidate_digest_of_def intro: hexdigest_inj)

theorem candidate_digest_binds_witness:
  "sample_candidate = sample_candidate \<or> (candidate_bytes sample_candidate \<noteq> candidate_bytes sample_candidate
      \<and> sha256 (candidate_material (candidate_bytes sample_candidate))
        = sha256 (candidate_material (candidate_bytes sample_candidate)))"
  by (rule candidate_digest_binds [OF ascii_db_ok])
    (simp_all add: validate_candidate_ok [OF ascii_db_ok sample_candidates_ok(1)])

text \<open>
  The one gap of the normalisers.  A database in which normalization form C expands one code
  point, as the Unicode composition exclusions do (U+0958 is U+0915 U+093C): the length limit
  is checked before normalising, so a candidate is built that no validation accepts.
\<close>

definition expand_qa :: "nat \<Rightarrow> pystr" where
  "expand_qa c = (if c = 2392 then [2325, 2364] else [c])"

definition exclusion_db :: unicode_db where
  "exclusion_db = \<lparr>ud_nfc = (\<lambda>s. concat (map expand_qa s)),
     ud_printable = (\<lambda>c. (32 \<le> c \<and> c \<le> 126) \<or> 2304 \<le> c \<and> c \<le> 2431),
     ud_decimal = (\<lambda>c. if 48 \<le> c \<and> c \<le> 57 then Some (c - 48) else None)\<rparr>"

lemma expand_qa_id: "2392 \<notin> set s \<Longrightarrow> concat (map expand_qa s) = s"
  by (induction s) (auto simp: expand_qa_def)

lemma expand_qa_mem [simp]: "2392 \<notin> set (expand_qa x)"
  by (simp add: expand_qa_def)

lemma expand_qa_no: "2392 \<notin> set (concat (map expand_qa s))"
  by simp

lemma exclusion_db_ok: "unicode_ok exclusion_db"
proof -
  have id: "concat (map expand_qa s) = s \<longleftrightarrow> 2392 \<notin> set s" for s
    using expand_qa_id [of s] expand_qa_no [of s] by metis
  have "2392 \<notin> set (take n (drop m s))" if "2392 \<notin> set s" for m n and s :: pystr
    using that by (meson in_set_dropD in_set_takeD)
  moreover have "2392 \<notin> set s" if "\<forall>c \<in> set s. c < 128" for s :: pystr using that by force
  ultimately show ?thesis
    unfolding unicode_ok_def exclusion_db_def
    by (simp add: id expand_qa_no) (auto split: if_splits)
qed

lemma expanded_observation: "normalize_observations exclusion_db (PyStr (replicate 1300 2392))
    = Inr (Some (concat (replicate 1300 [2325, 2364])))"
proof -
  let ?n = "concat (replicate 1300 [2325, 2364 :: nat])"
  have "?n \<noteq> []" by simp
  have set: "set ?n = {2325, 2364}" by auto
  have nfc: "ud_nfc exclusion_db (replicate 1300 2392) = ?n"
    by (simp add: exclusion_db_def expand_qa_def map_replicate)
  have "hd ?n \<in> set ?n" "last ?n \<in> set ?n" using \<open>?n \<noteq> []\<close> by (blast intro: hd_in_set last_in_set)+
  then have sp: "\<not> py_isspace (hd ?n)" "\<not> py_isspace (last ?n)"
    unfolding set by (auto simp: py_isspace_def)
  have strip: "py_strip ?n = ?n" using strip_id_iff sp by blast
  have enc: "\<exists>b. utf8_encode (concat (replicate k [2325, 2364])) = Some b \<and> length b = 6 * k" for k
    by (induction k) (auto simp: utf8_char_def)
  have chars: "list_all (observation_char_ok exclusion_db) ?n"
    unfolding list_all_iff set by (simp add: observation_char_ok_def exclusion_db_def)
  obtain b where "utf8_encode ?n = Some b" "length b = 7800" using enc [of 1300] by auto
  then show ?thesis
    using nfc strip \<open>?n \<noteq> []\<close> chars
    by (simp add: normalize_observations_def Let_def report_limits utf8_bytes_def)
qed

text \<open>
  C40. The length limit of an observation is enforced before normalization form C and not after:
  there is an input of 1300 code points that \<open>build_cell_report_candidate\<close> accepts and whose
  candidate \<open>_validate_candidate\<close>, and with it every operation that takes it, rejects.
\<close>

theorem observation_limit_gap:
  "\<exists>c. build_cell_report_candidate exclusion_db PyNone PyNone PyNone PyNone (PyStr (replicate 1300 2392)) = Inr c
     \<and> validate_candidate exclusion_db c = Inl OBSERVATIONS_LIMIT_EXCEEDED"
proof -
  let ?n = "concat (replicate 1300 [2325, 2364 :: nat])"
  let ?c = "\<lparr>presentes = None, visitantes = None, decisoes = None, oferta = None, observacoes = Some ?n\<rparr>"
  have len: "length ?n = 2600" using length_concat_const [of "\<lambda>_. [2325, 2364 :: nat]" 2 "replicate 1300 0"]
    by (simp add: map_replicate)
  have n: "normalized_count PyNone = Inr None" by (simp add: normalized_count_def)
  have "build_cell_report_candidate exclusion_db PyNone PyNone PyNone PyNone (PyStr (replicate 1300 2392)) = Inr ?c"
    using expanded_observation n by (simp add: build_cell_report_candidate_def)
  moreover have "validate_candidate exclusion_db ?c = Inl OBSERVATIONS_LIMIT_EXCEEDED"
    using len n by (simp add: validate_candidate_def build_cell_report_candidate_def normalize_observations_def report_limits
        del: length_concat)
  ultimately show ?thesis by blast
qed

end
