(* ===== verification/ReportWorkflow.thy ===== *)
theory ReportWorkflow
  imports ReportCandidate
begin

text \<open>
  The proposal workflow of \<open>domain/cell_report_workflow.py\<close>: scope, proposal and confirmation
  digests, minting, validation by recomputation, the persisted payload and its rehydration,
  and the transitions (revise, correlate a confirmation, mark committed, terminalize).  The
  attributes that validation type-checks are \<open>py\<close> values, since rehydration stores whatever
  the JSON column holds before it validates.
\<close>

section \<open>States\<close>

datatype workflow_state =
    EMPTY
  | COLLECTING
  | AWAITING_CONFIRMATION
  | CONFIRMATION_ACCEPTED
  | COMMITTED
  | CANCELLED
  | EXPIRED
  | CONFLICTED
  | REJECTED

definition TERMINAL_REPORT_STATES :: "workflow_state list" where
  "TERMINAL_REPORT_STATES = [COMMITTED, CANCELLED, EXPIRED, CONFLICTED, REJECTED]"

definition EXPLICIT_TERMINAL_REPORT_STATES :: "workflow_state list" where
  "EXPLICIT_TERMINAL_REPORT_STATES = [CANCELLED, EXPIRED, CONFLICTED, REJECTED]"

definition REVISION_ALLOWED_REPORT_STATES :: "workflow_state list" where
  "REVISION_ALLOWED_REPORT_STATES = [EMPTY, COLLECTING, AWAITING_CONFIRMATION]"

fun state_value :: "workflow_state \<Rightarrow> string" where
  "state_value EMPTY = ''EMPTY''"
| "state_value COLLECTING = ''COLLECTING''"
| "state_value AWAITING_CONFIRMATION = ''AWAITING_CONFIRMATION''"
| "state_value CONFIRMATION_ACCEPTED = ''CONFIRMATION_ACCEPTED''"
| "state_value COMMITTED = ''COMMITTED''"
| "state_value CANCELLED = ''CANCELLED''"
| "state_value EXPIRED = ''EXPIRED''"
| "state_value CONFLICTED = ''CONFLICTED''"
| "state_value REJECTED = ''REJECTED''"

definition all_workflow_states :: "workflow_state list" where
  "all_workflow_states = [EMPTY, COLLECTING, AWAITING_CONFIRMATION, CONFIRMATION_ACCEPTED,
     COMMITTED, CANCELLED, EXPIRED, CONFLICTED, REJECTED]"

text \<open>\<open>CellReportWorkflowState(value)\<close>; \<open>None\<close> is its \<open>ValueError\<close>.\<close>

definition state_of_value :: "pystr \<Rightarrow> workflow_state option" where
  "state_of_value s = find (\<lambda>st. u (state_value st) = s) all_workflow_states"

lemma state_of_value_value [simp]: "state_of_value (u (state_value st)) = Some st"
  by (cases st) (simp_all add: state_of_value_def all_workflow_states_def)

section \<open>Digests\<close>

definition is_prefixed_sha256 :: "py \<Rightarrow> pystr \<Rightarrow> bool" where
  "is_prefixed_sha256 v prefix = (case v of PyStr s \<Rightarrow> prefixed_hex64 prefix s | _ \<Rightarrow> False)"

definition scope_prefix :: pystr where "scope_prefix = u ''cell_report_scope_v1_''"
definition candidate_prefix :: pystr where "candidate_prefix = u ''cell_report_candidate_v1_''"
definition proposal_prefix :: pystr where "proposal_prefix = u ''cell_report_proposal_v1_''"

definition derive_scope_digest :: "py \<Rightarrow> (workflow_error, pystr) result" where
  "derive_scope_digest key =
     (case key of
        PyStr s \<Rightarrow>
          if length s > MAX_REPORT_CORRELATION_KEY_BYTES then Inl CORRELATION_KEY_LIMIT_EXCEEDED
          else if \<not> prefixed_hex64 scope_prefix s then Inl INVALID_CORRELATION_KEY
          else ebind (utf8_bytes s INVALID_CORRELATION_KEY) (\<lambda>encoded.
            if length encoded > MAX_REPORT_CORRELATION_KEY_BYTES then Inl CORRELATION_KEY_LIMIT_EXCEEDED
            else Inr (scope_prefix @ hexdigest (sha256 (binary_frame
                   [ascii_bytes (u ''pastorai.cell-report.scope''), ascii_bytes (u ''v1''), encoded]))))
      | _ \<Rightarrow> Inl INVALID_CORRELATION_KEY)"

definition proposal_material :: "pystr \<Rightarrow> int \<Rightarrow> pystr \<Rightarrow> pystr option \<Rightarrow> bytes" where
  "proposal_material scope revision cand previous =
     binary_frame
       [ascii_bytes (u ''pastorai.cell-report.proposal''), ascii_bytes (u ''v1''),
        ascii_bytes scope, int_to_bytes 8 (nat revision), ascii_bytes cand,
        ascii_bytes (case previous of None \<Rightarrow> [] | Some p \<Rightarrow> p)]"

definition derive_proposal_digest :: "pystr \<Rightarrow> int \<Rightarrow> pystr \<Rightarrow> pystr option \<Rightarrow> pystr" where
  "derive_proposal_digest scope revision cand previous =
     proposal_prefix @ hexdigest (sha256 (proposal_material scope revision cand previous))"

definition derive_confirmation_code :: "pystr \<Rightarrow> pystr" where
  "derive_confirmation_code proposal =
     take 12 (b32encode (sha256 (binary_frame
       [ascii_bytes (u ''pastorai.cell-report.confirmation''), ascii_bytes (u ''v1''), ascii_bytes proposal])))"

definition open_state :: "candidate \<Rightarrow> workflow_state" where
  "open_state c = (if is_empty c then EMPTY else if is_complete c then AWAITING_CONFIRMATION else COLLECTING)"

section \<open>The workflow value\<close>

record workflow =
  schema_version :: py
  scope_digest :: py
  revision :: py
  wf_candidate :: candidate
  candidate_digest :: py
  previous_proposal_digest :: py
  proposal_digest :: py
  confirmation_code :: py
  state :: workflow_state
  accepted_proposal_digest :: py

definition mint_workflow ::
  "unicode_db \<Rightarrow> pystr \<Rightarrow> int \<Rightarrow> candidate \<Rightarrow> pystr option \<Rightarrow> workflow_state \<Rightarrow> pystr option
   \<Rightarrow> (workflow_error, workflow) result" where
  "mint_workflow U scope n c prev st acc =
     ebind (derive_candidate_digest U c) (\<lambda>cd.
       let pd = derive_proposal_digest scope n cd prev;
           code = (if is_complete c then Some (derive_confirmation_code pd) else None)
       in Inr \<lparr>schema_version = PyStr (u ''v1''), scope_digest = PyStr scope, revision = PyInt n,
               wf_candidate = c, candidate_digest = PyStr cd, previous_proposal_digest = py_of_str prev,
               proposal_digest = PyStr pd, confirmation_code = py_of_str code, state = st,
               accepted_proposal_digest = py_of_str acc\<rparr>)"

definition empty_candidate_build :: "unicode_db \<Rightarrow> (workflow_error, candidate) result" where
  "empty_candidate_build U = build_cell_report_candidate U PyNone PyNone PyNone PyNone PyNone"

definition start_cell_report_workflow ::
  "unicode_db \<Rightarrow> py \<Rightarrow> candidate option \<Rightarrow> (workflow_error, workflow) result" where
  "start_cell_report_workflow U key candidate =
     ebind (case candidate of None \<Rightarrow> empty_candidate_build U | Some c \<Rightarrow> Inr c) (\<lambda>resolved.
     ebind (validate_candidate U resolved) (\<lambda>_.
     ebind (derive_scope_digest key) (\<lambda>scope.
       mint_workflow U scope 1 resolved None (open_state resolved) None)))"

definition revision_in_range :: "py \<Rightarrow> bool" where
  "revision_in_range v = (case v of PyInt r \<Rightarrow> 1 \<le> r \<and> r \<le> MAX_REPORT_REVISION | _ \<Rightarrow> False)"

fun py_opt_str :: "py \<Rightarrow> pystr option" where
  "py_opt_str (PyStr s) = Some s"
| "py_opt_str _ = None"

text \<open>The last part of validation: the state against the candidate and the accepted digest.\<close>

definition state_consistent :: "workflow \<Rightarrow> bool" where
  "state_consistent w =
     (if state w \<in> set REVISION_ALLOWED_REPORT_STATES then
        state w = open_state (wf_candidate w) \<and> accepted_proposal_digest w = PyNone
      else if state w \<in> {CONFIRMATION_ACCEPTED, COMMITTED} then
        is_complete (wf_candidate w) \<and> accepted_proposal_digest w = proposal_digest w
      else accepted_proposal_digest w = PyNone \<or> accepted_proposal_digest w = proposal_digest w)"

definition validate_cell_report_workflow :: "unicode_db \<Rightarrow> workflow \<Rightarrow> (workflow_error, workflow) result" where
  "validate_cell_report_workflow U w =
     (if schema_version w \<noteq> PyStr (u ''v1'') \<or> \<not> is_prefixed_sha256 (scope_digest w) scope_prefix
         \<or> \<not> revision_in_range (revision w)
         \<or> \<not> is_prefixed_sha256 (candidate_digest w) candidate_prefix
         \<or> \<not> is_prefixed_sha256 (proposal_digest w) proposal_prefix
      then Inl INVALID_WORKFLOW
      else ebind (validate_candidate U (wf_candidate w)) (\<lambda>c.
        if (if py_int (revision w) = 1 then previous_proposal_digest w \<noteq> PyNone
            else \<not> is_prefixed_sha256 (previous_proposal_digest w) proposal_prefix)
        then Inl INVALID_WORKFLOW
        else ebind (derive_candidate_digest U c) (\<lambda>cd.
          let pd = derive_proposal_digest (py_str (scope_digest w)) (py_int (revision w)) cd
                     (py_opt_str (previous_proposal_digest w));
              code = (if is_complete c then Some (derive_confirmation_code pd) else None)
          in if candidate_digest w \<noteq> PyStr cd \<or> proposal_digest w \<noteq> PyStr pd
                \<or> confirmation_code w \<noteq> py_of_str code
             then Inl INVALID_WORKFLOW
             else if \<not> state_consistent w then Inl INVALID_WORKFLOW
             else Inr w)))"

section \<open>Payload and rehydration\<close>

definition workflow_payload :: "workflow \<Rightarrow> py \<Rightarrow> (pystr \<times> py) list" where
  "workflow_payload w cand =
     [(u ''schema_version'', schema_version w),
      (u ''scope_digest'', scope_digest w),
      (u ''revision'', revision w),
      (u ''candidate'', cand),
      (u ''candidate_digest'', candidate_digest w),
      (u ''previous_proposal_digest'', previous_proposal_digest w),
      (u ''proposal_digest'', proposal_digest w),
      (u ''confirmation_code'', confirmation_code w),
      (u ''state'', PyStr (u (state_value (state w)))),
      (u ''accepted_proposal_digest'', accepted_proposal_digest w)]"

definition cell_report_workflow_payload :: "unicode_db \<Rightarrow> workflow \<Rightarrow> (workflow_error, py) result" where
  "cell_report_workflow_payload U w =
     ebind (validate_cell_report_workflow U w) (\<lambda>cur.
     ebind (cell_report_candidate_payload U (wf_candidate cur)) (\<lambda>cand.
       Inr (PyDict (workflow_payload cur cand))))"

definition CANDIDATE_PAYLOAD_KEYS :: "pystr list" where
  "CANDIDATE_PAYLOAD_KEYS =
     map u [''schema_version'', ''presentes'', ''visitantes'', ''decisoes'', ''oferta'', ''observacoes'']"

definition WORKFLOW_PAYLOAD_KEYS :: "pystr list" where
  "WORKFLOW_PAYLOAD_KEYS =
     map u [''schema_version'', ''scope_digest'', ''revision'', ''candidate'', ''candidate_digest'',
            ''previous_proposal_digest'', ''proposal_digest'', ''confirmation_code'', ''state'',
            ''accepted_proposal_digest'']"

definition candidate_of_payload :: "unicode_db \<Rightarrow> py \<Rightarrow> (workflow_error, candidate) result" where
  "candidate_of_payload U v =
     (case v of
        PyDict d \<Rightarrow>
          if \<not> keys_exactly d CANDIDATE_PAYLOAD_KEYS \<or> py_get d (u ''schema_version'') \<noteq> PyStr (u ''v1'')
          then Inl INVALID_WORKFLOW
          else build_cell_report_candidate U (py_get d (u ''presentes'')) (py_get d (u ''visitantes''))
                 (py_get d (u ''decisoes'')) (py_get d (u ''oferta'')) (py_get d (u ''observacoes''))
      | _ \<Rightarrow> Inl INVALID_WORKFLOW)"

definition state_of_payload :: "py \<Rightarrow> (workflow_error, workflow_state) result" where
  "state_of_payload v =
     (case v of
        PyStr s \<Rightarrow> (case state_of_value s of None \<Rightarrow> Inl INVALID_WORKFLOW | Some st \<Rightarrow> Inr st)
      | _ \<Rightarrow> Inl INVALID_WORKFLOW)"

definition rehydrate_cell_report_workflow :: "unicode_db \<Rightarrow> py \<Rightarrow> (workflow_error, workflow) result" where
  "rehydrate_cell_report_workflow U v =
     (case v of
        PyDict d \<Rightarrow>
          if \<not> keys_exactly d WORKFLOW_PAYLOAD_KEYS then Inl INVALID_WORKFLOW
          else ebind (candidate_of_payload U (py_get d (u ''candidate''))) (\<lambda>c.
               ebind (state_of_payload (py_get d (u ''state''))) (\<lambda>st.
                 validate_cell_report_workflow U
                   \<lparr>schema_version = py_get d (u ''schema_version''),
                    scope_digest = py_get d (u ''scope_digest''),
                    revision = py_get d (u ''revision''),
                    wf_candidate = c,
                    candidate_digest = py_get d (u ''candidate_digest''),
                    previous_proposal_digest = py_get d (u ''previous_proposal_digest''),
                    proposal_digest = py_get d (u ''proposal_digest''),
                    confirmation_code = py_get d (u ''confirmation_code''),
                    state = st,
                    accepted_proposal_digest = py_get d (u ''accepted_proposal_digest'')\<rparr>))
      | _ \<Rightarrow> Inl INVALID_WORKFLOW)"

section \<open>Transitions\<close>

definition revise_cell_report_workflow ::
  "unicode_db \<Rightarrow> workflow \<Rightarrow> candidate \<Rightarrow> (workflow_error, workflow) result" where
  "revise_cell_report_workflow U w c =
     ebind (validate_cell_report_workflow U w) (\<lambda>cur.
     ebind (validate_candidate U c) (\<lambda>replacement.
       if state cur \<notin> set REVISION_ALLOWED_REPORT_STATES then Inl INVALID_STATE_TRANSITION
       else if py_int (revision cur) \<ge> MAX_REPORT_REVISION then Inl REVISION_LIMIT_EXCEEDED
       else mint_workflow U (py_str (scope_digest cur)) (py_int (revision cur) + 1) replacement
              (py_opt_str (proposal_digest cur)) (open_state replacement) None))"

definition confirmation_command_prefix :: pystr where
  "confirmation_command_prefix = u ''CONFIRMAR RELATORIO ''"

definition cell_report_confirmation_command :: "unicode_db \<Rightarrow> workflow \<Rightarrow> (workflow_error, pystr) result" where
  "cell_report_confirmation_command U w =
     ebind (validate_cell_report_workflow U w) (\<lambda>cur.
       if state cur \<noteq> AWAITING_CONFIRMATION \<or> confirmation_code cur = PyNone
       then Inl INVALID_STATE_TRANSITION
       else Inr (confirmation_command_prefix @ py_str (confirmation_code cur)))"

definition parse_cell_report_confirmation_command :: "py \<Rightarrow> (workflow_error, pystr) result" where
  "parse_cell_report_confirmation_command v =
     (case v of
        PyStr s \<Rightarrow>
          (let code = drop (length confirmation_command_prefix) s
           in if startswith s confirmation_command_prefix \<and> length code = 12 \<and> list_all is_b32 code
              then Inr code else Inl INVALID_CONFIRMATION_COMMAND)
      | _ \<Rightarrow> Inl INVALID_CONFIRMATION_COMMAND)"

definition correlate_cell_report_confirmation ::
  "unicode_db \<Rightarrow> workflow \<Rightarrow> py \<Rightarrow> (workflow_error, workflow) result" where
  "correlate_cell_report_confirmation U w command =
     ebind (validate_cell_report_workflow U w) (\<lambda>cur.
       if state cur \<noteq> AWAITING_CONFIRMATION \<or> confirmation_code cur = PyNone
       then Inl INVALID_STATE_TRANSITION
       else ebind (parse_cell_report_confirmation_command command) (\<lambda>supplied.
         if supplied \<noteq> py_str (confirmation_code cur) then Inl CONFIRMATION_CODE_MISMATCH
         else mint_workflow U (py_str (scope_digest cur)) (py_int (revision cur)) (wf_candidate cur)
                (py_opt_str (previous_proposal_digest cur)) CONFIRMATION_ACCEPTED
                (py_opt_str (proposal_digest cur))))"

definition mark_cell_report_committed :: "unicode_db \<Rightarrow> workflow \<Rightarrow> (workflow_error, workflow) result" where
  "mark_cell_report_committed U w =
     ebind (validate_cell_report_workflow U w) (\<lambda>cur.
       if state cur \<noteq> CONFIRMATION_ACCEPTED then Inl INVALID_STATE_TRANSITION
       else mint_workflow U (py_str (scope_digest cur)) (py_int (revision cur)) (wf_candidate cur)
              (py_opt_str (previous_proposal_digest cur)) COMMITTED (py_opt_str (proposal_digest cur)))"

definition terminalize_cell_report_workflow ::
  "unicode_db \<Rightarrow> workflow \<Rightarrow> workflow_state \<Rightarrow> (workflow_error, workflow) result" where
  "terminalize_cell_report_workflow U w st =
     ebind (validate_cell_report_workflow U w) (\<lambda>cur.
       if st \<notin> set EXPLICIT_TERMINAL_REPORT_STATES \<or> state cur \<in> set TERMINAL_REPORT_STATES
       then Inl INVALID_STATE_TRANSITION
       else mint_workflow U (py_str (scope_digest cur)) (py_int (revision cur)) (wf_candidate cur)
              (py_opt_str (previous_proposal_digest cur)) st (py_opt_str (accepted_proposal_digest cur)))"

section \<open>Valid workflows\<close>

definition proposal_of :: "pystr \<Rightarrow> int \<Rightarrow> candidate \<Rightarrow> pystr option \<Rightarrow> pystr" where
  "proposal_of scope n c prev = derive_proposal_digest scope n (candidate_digest_of c) prev"

definition minted ::
  "pystr \<Rightarrow> int \<Rightarrow> candidate \<Rightarrow> pystr option \<Rightarrow> workflow_state \<Rightarrow> pystr option \<Rightarrow> workflow" where
  "minted scope n c prev st acc =
     \<lparr>schema_version = PyStr (u ''v1''), scope_digest = PyStr scope, revision = PyInt n,
      wf_candidate = c, candidate_digest = PyStr (candidate_digest_of c),
      previous_proposal_digest = py_of_str prev,
      proposal_digest = PyStr (proposal_of scope n c prev),
      confirmation_code = py_of_str (if is_complete c
        then Some (derive_confirmation_code (proposal_of scope n c prev)) else None),
      state = st, accepted_proposal_digest = py_of_str acc\<rparr>"

lemma minted_sel [simp]:
  "schema_version (minted s n c p st a) = PyStr (u ''v1'')"
  "scope_digest (minted s n c p st a) = PyStr s"
  "revision (minted s n c p st a) = PyInt n"
  "wf_candidate (minted s n c p st a) = c"
  "candidate_digest (minted s n c p st a) = PyStr (candidate_digest_of c)"
  "previous_proposal_digest (minted s n c p st a) = py_of_str p"
  "proposal_digest (minted s n c p st a) = PyStr (proposal_of s n c p)"
  "confirmation_code (minted s n c p st a) =
     (if is_complete c then PyStr (derive_confirmation_code (proposal_of s n c p)) else PyNone)"
  "state (minted s n c p st a) = st"
  "accepted_proposal_digest (minted s n c p st a) = py_of_str a"
  by (simp_all add: minted_def)

lemma py_opt_str_of_str [simp]: "py_opt_str (py_of_str x) = x"
  by (cases x) simp_all

lemma mint_ok [simp]:
  "unicode_ok U \<Longrightarrow> candidate_ok U c \<Longrightarrow> mint_workflow U s n c p st a = Inr (minted s n c p st a)"
  by (simp add: mint_workflow_def minted_def proposal_of_def Let_def)

definition previous_ok :: "int \<Rightarrow> pystr option \<Rightarrow> bool" where
  "previous_ok n p \<longleftrightarrow> (if n = 1 then p = None else \<exists>d. p = Some d \<and> prefixed_hex64 proposal_prefix d)"

definition status_ok :: "candidate \<Rightarrow> workflow_state \<Rightarrow> pystr option \<Rightarrow> pystr \<Rightarrow> bool" where
  "status_ok c st a d \<longleftrightarrow>
     st = open_state c \<and> a = None
     \<or> (st = CONFIRMATION_ACCEPTED \<or> st = COMMITTED) \<and> is_complete c \<and> a = Some d
     \<or> st \<in> set EXPLICIT_TERMINAL_REPORT_STATES \<and> (a = None \<or> a = Some d)"

definition wf_parts ::
  "unicode_db \<Rightarrow> pystr \<Rightarrow> int \<Rightarrow> candidate \<Rightarrow> pystr option \<Rightarrow> workflow_state \<Rightarrow> pystr option \<Rightarrow> bool" where
  "wf_parts U s n c p st a \<longleftrightarrow>
     prefixed_hex64 scope_prefix s \<and> 1 \<le> n \<and> n \<le> MAX_REPORT_REVISION \<and> previous_ok n p
     \<and> candidate_ok U c \<and> status_ok c st a (proposal_of s n c p)"

definition workflow_ok :: "unicode_db \<Rightarrow> workflow \<Rightarrow> bool" where
  "workflow_ok U w \<longleftrightarrow> (\<exists>s n c p st a. w = minted s n c p st a \<and> wf_parts U s n c p st a)"

lemma proposal_shape [simp, shape_simps]: "prefixed_hex64 proposal_prefix (proposal_of s n c p)"
  by (simp add: proposal_of_def derive_proposal_digest_def)

lemma open_state_cases: "open_state c \<in> {EMPTY, COLLECTING, AWAITING_CONFIRMATION}"
  by (simp add: open_state_def)

lemma open_state_awaiting [simp]: "open_state c = AWAITING_CONFIRMATION \<longleftrightarrow> is_complete c"
  using complete_not_empty [of c] by (auto simp: open_state_def)

lemma open_state_not_closed [simp]:
  "open_state c \<noteq> CONFIRMATION_ACCEPTED" "open_state c \<noteq> COMMITTED"
  "open_state c \<notin> set TERMINAL_REPORT_STATES" "open_state c \<notin> set EXPLICIT_TERMINAL_REPORT_STATES"
  "open_state c \<in> set REVISION_ALLOWED_REPORT_STATES"
  by (auto simp: open_state_def TERMINAL_REPORT_STATES_def EXPLICIT_TERMINAL_REPORT_STATES_def
      REVISION_ALLOWED_REPORT_STATES_def)

lemma state_consistent_minted:
  "state_consistent (minted s n c p st a) \<longleftrightarrow> status_ok c st a (proposal_of s n c p)"
  by (cases st)
    (auto simp: state_consistent_def status_ok_def REVISION_ALLOWED_REPORT_STATES_def
      EXPLICIT_TERMINAL_REPORT_STATES_def open_state_def split: if_splits)

lemma prev_check: "(if n = 1 then py_of_str p \<noteq> PyNone else \<not> is_prefixed_sha256 (py_of_str p) proposal_prefix)
    \<longleftrightarrow> \<not> previous_ok n p"
  by (cases p) (auto simp: previous_ok_def is_prefixed_sha256_def)

lemma validate_minted:
  assumes "unicode_ok U" "wf_parts U s n c p st a"
  shows "validate_cell_report_workflow U (minted s n c p st a) = Inr (minted s n c p st a)"
proof -
  have "\<not> (if n = 1 then py_of_str p \<noteq> PyNone else \<not> is_prefixed_sha256 (py_of_str p) proposal_prefix)"
    unfolding prev_check using assms(2) by (simp add: wf_parts_def)
  moreover have "revision_in_range (PyInt n)" "state_consistent (minted s n c p st a)"
    using assms(2) by (simp_all add: wf_parts_def revision_in_range_def state_consistent_minted)
  moreover have "is_prefixed_sha256 (PyStr s) scope_prefix"
      "is_prefixed_sha256 (PyStr (candidate_digest_of c)) candidate_prefix"
      "is_prefixed_sha256 (PyStr (proposal_of s n c p)) proposal_prefix"
    using assms(2) by (simp_all add: wf_parts_def is_prefixed_sha256_def candidate_prefix_def)
  moreover have "candidate_ok U c" using assms(2) by (simp add: wf_parts_def)
  ultimately show ?thesis
    using assms(1)
    by (cases "n = 1") (simp_all add: validate_cell_report_workflow_def Let_def proposal_of_def [symmetric])
qed

lemma accepted_py: "state_consistent w \<Longrightarrow> proposal_digest w = PyStr d \<Longrightarrow> \<exists>a. accepted_proposal_digest w = py_of_str a"
  by (auto simp: state_consistent_def split: if_splits intro: exI [of _ None] exI [of _ "Some d"])

lemma is_prefixed_D: "is_prefixed_sha256 v q \<Longrightarrow> \<exists>s. v = PyStr s \<and> prefixed_hex64 q s"
  by (auto simp: is_prefixed_sha256_def split: py.splits)

lemma validate_only_ok:
  assumes U: "unicode_ok U" and v: "validate_cell_report_workflow U w = Inr x"
  shows "x = w \<and> workflow_ok U w"
proof -
  obtain n where n: "revision w = PyInt n" "1 \<le> n" "n \<le> MAX_REPORT_REVISION"
    using v by (auto simp: validate_cell_report_workflow_def revision_in_range_def split: py.splits if_splits)
  obtain s where s: "scope_digest w = PyStr s" "prefixed_hex64 scope_prefix s"
    using v by (auto simp: validate_cell_report_workflow_def split: if_splits dest!: is_prefixed_D)
  let ?c = "wf_candidate w"
  have sv: "schema_version w = PyStr (u ''v1'')" and c: "candidate_ok U ?c"
    using v by (auto simp: validate_cell_report_workflow_def result_simps validate_candidate_iff [OF U])
  have prev: "if n = 1 then previous_proposal_digest w = PyNone
      else is_prefixed_sha256 (previous_proposal_digest w) proposal_prefix"
    using v n by (auto simp: validate_cell_report_workflow_def result_simps)
  then obtain p where p: "previous_proposal_digest w = py_of_str p" "previous_ok n p"
  proof (cases "n = 1")
    case True
    with prev show ?thesis by (intro that [of None]) (auto simp: previous_ok_def)
  next
    case False
    with prev show ?thesis using is_prefixed_D that [of "Some _"] by (fastforce simp: previous_ok_def)
  qed
  have d: "candidate_digest w = PyStr (candidate_digest_of ?c)" "proposal_digest w = PyStr (proposal_of s n ?c p)"
      "confirmation_code w = py_of_str (if is_complete ?c
         then Some (derive_confirmation_code (proposal_of s n ?c p)) else None)" "state_consistent w" "x = w"
    using v n s p c U
    by (auto simp: validate_cell_report_workflow_def result_simps validate_candidate_iff Let_def proposal_of_def)
  then obtain a where a: "accepted_proposal_digest w = py_of_str a" using accepted_py by blast
  have "w = minted s n ?c p (state w) a"
    using sv n s p d a by (simp add: minted_def)
  moreover from this have "status_ok ?c (state w) a (proposal_of s n ?c p)"
    using d(4) state_consistent_minted by metis
  ultimately show ?thesis
    using n s p c d(5) unfolding workflow_ok_def wf_parts_def by blast
qed

lemma validate_iff:
  "unicode_ok U \<Longrightarrow> validate_cell_report_workflow U w = Inr x \<longleftrightarrow> x = w \<and> workflow_ok U w"
  using validate_minted validate_only_ok by (auto simp: workflow_ok_def)

section \<open>The operations on valid workflows\<close>

text \<open>
  Each operation on the canonical form \<open>minted\<close>: the rules every property below is proved
  with.  \<open>wf_parts\<close> supplies the side conditions.
\<close>

lemma wf_partsD:
  "wf_parts U s n c p st a \<Longrightarrow> candidate_ok U c"
  "wf_parts U s n c p st a \<Longrightarrow> 1 \<le> n \<and> n \<le> MAX_REPORT_REVISION"
  by (simp_all add: wf_parts_def)

lemma scope_digest_result:
  "derive_scope_digest key = Inr s \<Longrightarrow> prefixed_hex64 scope_prefix s"
  by (cases key) (auto simp: derive_scope_digest_def result_simps split: if_splits)

lemma derive_scope_digest_ok:
  assumes "prefixed_hex64 scope_prefix k"
  shows "\<exists>s. derive_scope_digest (PyStr k) = Inr s"
proof -
  have "\<forall>c \<in> set k. c < 128"
    by (rule prefixed_hex64_ascii [OF _ assms]) (auto simp: scope_prefix_def u_def)
  moreover have "length k = 85" using prefixed_hex64_length [OF assms] by (simp add: scope_prefix_def)
  ultimately show ?thesis using assms
    by (simp add: derive_scope_digest_def utf8_bytes_def utf8_encode_ascii report_limits)
qed

lemma empty_candidate_build_ok:
  "empty_candidate_build U = Inr \<lparr>presentes = None, visitantes = None, decisoes = None, oferta = None, observacoes = None\<rparr>"
  by (simp add: empty_candidate_build_def build_cell_report_candidate_def normalized_count_def)

lemma start_result:
  assumes U: "unicode_ok U" and "start_cell_report_workflow U key c = Inr w"
  obtains s d where "derive_scope_digest key = Inr s" "candidate_ok U d" "c = None \<or> c = Some d"
    "w = minted s 1 d None (open_state d) None" "wf_parts U s 1 d None (open_state d) None"
proof -
  obtain d s where d: "(case c of None \<Rightarrow> empty_candidate_build U | Some c \<Rightarrow> Inr c) = Inr d"
      "candidate_ok U d" "derive_scope_digest key = Inr s" "w = minted s 1 d None (open_state d) None"
    using assms by (auto simp: start_cell_report_workflow_def result_simps validate_candidate_iff)
  moreover from this have "wf_parts U s 1 d None (open_state d) None"
    using scope_digest_result
    by (simp add: wf_parts_def previous_ok_def status_ok_def report_limits)
  moreover have "c = None \<or> c = Some d" using d(1) by (cases c) auto
  ultimately show thesis using that by blast
qed

lemma revise_minted:
  assumes "unicode_ok U" "wf_parts U s n c p st a" "candidate_ok U d"
  shows "revise_cell_report_workflow U (minted s n c p st a) d =
    (if st \<notin> set REVISION_ALLOWED_REPORT_STATES then Inl INVALID_STATE_TRANSITION
     else if n \<ge> MAX_REPORT_REVISION then Inl REVISION_LIMIT_EXCEEDED
     else Inr (minted s (n + 1) d (Some (proposal_of s n c p)) (open_state d) None))"
  using assms by (simp add: revise_cell_report_workflow_def validate_minted)

lemma revised_parts:
  "wf_parts U s n c p st a \<Longrightarrow> candidate_ok U d \<Longrightarrow> n < MAX_REPORT_REVISION \<Longrightarrow>
   wf_parts U s (n + 1) d (Some (proposal_of s n c p)) (open_state d) None"
  by (auto simp: wf_parts_def previous_ok_def status_ok_def)

lemma code_length: "length (derive_confirmation_code d) = 12" "list_all is_b32 (derive_confirmation_code d)"
  using take_b32encode_sha256 [of 12] by (simp_all add: derive_confirmation_code_def list_all_iff)

lemma parse_command_iff:
  "parse_cell_report_confirmation_command v = Inr code \<longleftrightarrow>
   v = PyStr (confirmation_command_prefix @ code) \<and> length code = 12 \<and> list_all is_b32 code"
  by (cases v) (auto simp: parse_cell_report_confirmation_command_def Let_def startswith_iff result_simps)

lemma awaiting_status: "status_ok c AWAITING_CONFIRMATION a d \<longleftrightarrow> is_complete c \<and> a = None"
  using open_state_awaiting [of c]
  by (auto simp: status_ok_def EXPLICIT_TERMINAL_REPORT_STATES_def simp del: open_state_awaiting)

lemma correlate_minted:
  assumes "unicode_ok U" "wf_parts U s n c p st a"
  shows "correlate_cell_report_confirmation U (minted s n c p st a) v =
    (if st \<noteq> AWAITING_CONFIRMATION then Inl INVALID_STATE_TRANSITION
     else ebind (parse_cell_report_confirmation_command v) (\<lambda>code.
       if code \<noteq> derive_confirmation_code (proposal_of s n c p) then Inl CONFIRMATION_CODE_MISMATCH
       else Inr (minted s n c p CONFIRMATION_ACCEPTED (Some (proposal_of s n c p)))))"
proof (cases "st = AWAITING_CONFIRMATION")
  case True
  then have "is_complete c" using assms(2) by (simp add: wf_parts_def awaiting_status)
  then show ?thesis using assms True wf_partsD(1) [OF assms(2)]
    by (simp add: correlate_cell_report_confirmation_def validate_minted cong: if_cong)
next
  case False
  then show ?thesis using assms by (simp add: correlate_cell_report_confirmation_def validate_minted)
qed

lemma accepted_parts:
  "wf_parts U s n c p AWAITING_CONFIRMATION a \<Longrightarrow>
   wf_parts U s n c p CONFIRMATION_ACCEPTED (Some (proposal_of s n c p))"
  by (simp add: wf_parts_def awaiting_status) (simp add: status_ok_def)

lemma commit_minted:
  assumes "unicode_ok U" "wf_parts U s n c p st a"
  shows "mark_cell_report_committed U (minted s n c p st a) =
    (if st \<noteq> CONFIRMATION_ACCEPTED then Inl INVALID_STATE_TRANSITION
     else Inr (minted s n c p COMMITTED (Some (proposal_of s n c p))))"
  using assms wf_partsD(1) [OF assms(2)] by (simp add: mark_cell_report_committed_def validate_minted)

lemma committed_parts:
  "wf_parts U s n c p CONFIRMATION_ACCEPTED a \<Longrightarrow> wf_parts U s n c p COMMITTED (Some (proposal_of s n c p))"
  using open_state_not_closed [of c] by (auto simp: wf_parts_def status_ok_def EXPLICIT_TERMINAL_REPORT_STATES_def)

lemma terminalize_minted:
  assumes "unicode_ok U" "wf_parts U s n c p st a"
  shows "terminalize_cell_report_workflow U (minted s n c p st a) t =
    (if t \<notin> set EXPLICIT_TERMINAL_REPORT_STATES \<or> st \<in> set TERMINAL_REPORT_STATES
     then Inl INVALID_STATE_TRANSITION else Inr (minted s n c p t a))"
  using assms wf_partsD(1) [OF assms(2)] by (simp add: terminalize_cell_report_workflow_def validate_minted)

lemma terminalized_parts:
  "wf_parts U s n c p st a \<Longrightarrow> t \<in> set EXPLICIT_TERMINAL_REPORT_STATES \<Longrightarrow> wf_parts U s n c p t a"
  by (auto simp: wf_parts_def status_ok_def)

section \<open>Persistence\<close>

lemma payload_keys:
  "map fst (candidate_payload c) = CANDIDATE_PAYLOAD_KEYS" "map fst (workflow_payload w x) = WORKFLOW_PAYLOAD_KEYS"
  by (simp_all add: candidate_payload_def CANDIDATE_PAYLOAD_KEYS_def workflow_payload_def WORKFLOW_PAYLOAD_KEYS_def)

lemma payload_keys_distinct: "distinct CANDIDATE_PAYLOAD_KEYS" "distinct WORKFLOW_PAYLOAD_KEYS"
  by (simp_all add: CANDIDATE_PAYLOAD_KEYS_def WORKFLOW_PAYLOAD_KEYS_def)

lemma same_keys_exactly:
  assumes "same_json v (PyDict d)" "map fst d = K" "distinct K"
  obtains e where "v = PyDict e" "keys_exactly e K" "\<And>k. same_json (py_get e k) (py_get d k)"
  using same_json_dict [OF assms(1)] assms(2,3) by (metis keys_exactly_def length_map)

lemma payload_get [simp]:
  "py_get (candidate_payload c) (u ''schema_version'') = PyStr (u ''v1'')"
  "py_get (candidate_payload c) (u ''presentes'') = py_of_int (presentes c)"
  "py_get (candidate_payload c) (u ''visitantes'') = py_of_int (visitantes c)"
  "py_get (candidate_payload c) (u ''decisoes'') = py_of_int (decisoes c)"
  "py_get (candidate_payload c) (u ''oferta'') = py_of_str (oferta c)"
  "py_get (candidate_payload c) (u ''observacoes'') = py_of_str (observacoes c)"
  "py_get (workflow_payload w x) (u ''schema_version'') = schema_version w"
  "py_get (workflow_payload w x) (u ''scope_digest'') = scope_digest w"
  "py_get (workflow_payload w x) (u ''revision'') = revision w"
  "py_get (workflow_payload w x) (u ''candidate'') = x"
  "py_get (workflow_payload w x) (u ''candidate_digest'') = candidate_digest w"
  "py_get (workflow_payload w x) (u ''previous_proposal_digest'') = previous_proposal_digest w"
  "py_get (workflow_payload w x) (u ''proposal_digest'') = proposal_digest w"
  "py_get (workflow_payload w x) (u ''confirmation_code'') = confirmation_code w"
  "py_get (workflow_payload w x) (u ''state'') = PyStr (u (state_value (state w)))"
  "py_get (workflow_payload w x) (u ''accepted_proposal_digest'') = accepted_proposal_digest w"
  by (simp_all add: candidate_payload_def workflow_payload_def py_get_Cons)

lemma candidate_of_same_payload:
  assumes "unicode_ok U" "candidate_ok U c" "same_json v (PyDict (candidate_payload c))"
  shows "candidate_of_payload U v = Inr c"
proof -
  obtain e where e: "v = PyDict e" "keys_exactly e CANDIDATE_PAYLOAD_KEYS"
      "\<And>k. same_json (py_get e k) (py_get (candidate_payload c) k)"
    using same_keys_exactly [OF assms(3) payload_keys(1) payload_keys_distinct(1)] by blast
  have "py_get e (u ''schema_version'') = PyStr (u ''v1'')" "py_get e (u ''presentes'') = py_of_int (presentes c)"
    "py_get e (u ''visitantes'') = py_of_int (visitantes c)" "py_get e (u ''decisoes'') = py_of_int (decisoes c)"
    "py_get e (u ''oferta'') = py_of_str (oferta c)" "py_get e (u ''observacoes'') = py_of_str (observacoes c)"
    using e(3) [of "u ''schema_version''"] e(3) [of "u ''presentes''"] e(3) [of "u ''visitantes''"]
      e(3) [of "u ''decisoes''"] e(3) [of "u ''oferta''"] e(3) [of "u ''observacoes''"] by simp_all
  with e(1,2) show ?thesis
    using build_of_ok [OF assms(1,2)] by (simp add: candidate_of_payload_def)
qed

lemma payload_minted:
  assumes "unicode_ok U" "wf_parts U s n c p st a"
  shows "cell_report_workflow_payload U (minted s n c p st a) =
    Inr (PyDict (workflow_payload (minted s n c p st a) (PyDict (candidate_payload c))))"
  using assms wf_partsD(1) [OF assms(2)]
  by (simp add: cell_report_workflow_payload_def validate_minted cell_report_candidate_payload_def)

lemma rehydrate_same_payload:
  assumes U: "unicode_ok U" and w: "workflow_ok U w"
    and p: "cell_report_workflow_payload U w = Inr v" and same: "same_json v' v"
  shows "rehydrate_cell_report_workflow U v' = Inr w"
proof -
  obtain s n c q st a where m: "w = minted s n c q st a" "wf_parts U s n c q st a"
    using w by (auto simp: workflow_ok_def)
  let ?d = "workflow_payload w (PyDict (candidate_payload c))"
  have "same_json v' (PyDict ?d)" using p same payload_minted [OF U m(2)] m(1) by simp
  then obtain e where e: "v' = PyDict e" "keys_exactly e WORKFLOW_PAYLOAD_KEYS"
      "\<And>k. same_json (py_get e k) (py_get ?d k)"
    using same_keys_exactly [OF _ payload_keys(2) payload_keys_distinct(2)] by blast
  have cand: "candidate_of_payload U (py_get e (u ''candidate'')) = Inr c"
    using candidate_of_same_payload [OF U wf_partsD(1) [OF m(2)]] e(3) [of "u ''candidate''"] by simp
  have code: "py_get e (u ''confirmation_code'') = confirmation_code w"
    using e(3) [of "u ''confirmation_code''"] m(1) by (simp split: if_splits)
  have rest: "py_get e (u ''schema_version'') = schema_version w" "py_get e (u ''scope_digest'') = scope_digest w"
    "py_get e (u ''revision'') = revision w" "py_get e (u ''candidate_digest'') = candidate_digest w"
    "py_get e (u ''previous_proposal_digest'') = previous_proposal_digest w"
    "py_get e (u ''proposal_digest'') = proposal_digest w" "py_get e (u ''state'') = PyStr (u (state_value st))"
    "py_get e (u ''accepted_proposal_digest'') = accepted_proposal_digest w"
    using e(3) [of "u ''schema_version''"] e(3) [of "u ''scope_digest''"] e(3) [of "u ''revision''"]
      e(3) [of "u ''candidate_digest''"] e(3) [of "u ''previous_proposal_digest''"]
      e(3) [of "u ''proposal_digest''"] e(3) [of "u ''state''"] e(3) [of "u ''accepted_proposal_digest''"] m(1)
    by simp_all
  have "rehydrate_cell_report_workflow U v' = validate_cell_report_workflow U w"
    using e(1,2) cand code rest m(1) by (simp add: rehydrate_cell_report_workflow_def state_of_payload_def minted_def)
  then show ?thesis using validate_minted [OF U m(2)] m(1) by simp
qed

lemma rehydrated_ok:
  "unicode_ok U \<Longrightarrow> rehydrate_cell_report_workflow U v = Inr w \<Longrightarrow> workflow_ok U w"
  by (cases v) (auto simp: rehydrate_cell_report_workflow_def result_simps dest!: validate_only_ok split: if_splits)

section \<open>Reachable workflows and event sequences\<close>

text \<open>Every way the module offers to obtain a workflow.\<close>

inductive reachable :: "unicode_db \<Rightarrow> workflow \<Rightarrow> bool" for U where
  start: "start_cell_report_workflow U key c = Inr w \<Longrightarrow> reachable U w"
| revise: "reachable U w \<Longrightarrow> revise_cell_report_workflow U w c = Inr w' \<Longrightarrow> reachable U w'"
| confirm: "reachable U w \<Longrightarrow> correlate_cell_report_confirmation U w v = Inr w' \<Longrightarrow> reachable U w'"
| commit: "reachable U w \<Longrightarrow> mark_cell_report_committed U w = Inr w' \<Longrightarrow> reachable U w'"
| terminalize: "reachable U w \<Longrightarrow> terminalize_cell_report_workflow U w st = Inr w' \<Longrightarrow> reachable U w'"
| rehydrate: "rehydrate_cell_report_workflow U v = Inr w \<Longrightarrow> reachable U w"

inductive_cases reachableE: "reachable U w"

datatype report_event = Revise candidate | Confirm py | Commit | Terminalize workflow_state

definition workflow_step :: "unicode_db \<Rightarrow> workflow \<Rightarrow> report_event \<Rightarrow> (workflow_error, workflow) result" where
  "workflow_step U w ev =
     (case ev of
        Revise c \<Rightarrow> revise_cell_report_workflow U w c
      | Confirm v \<Rightarrow> correlate_cell_report_confirmation U w v
      | Commit \<Rightarrow> mark_cell_report_committed U w
      | Terminalize st \<Rightarrow> terminalize_cell_report_workflow U w st)"

lemma workflow_step_simps:
  "workflow_step U w (Revise c) = revise_cell_report_workflow U w c"
  "workflow_step U w (Confirm v) = correlate_cell_report_confirmation U w v"
  "workflow_step U w Commit = mark_cell_report_committed U w"
  "workflow_step U w (Terminalize st) = terminalize_cell_report_workflow U w st"
  by (simp_all add: workflow_step_def)

text \<open>The values are immutable: an event that raises leaves the caller with the value it had.\<close>

primrec workflow_run :: "unicode_db \<Rightarrow> workflow \<Rightarrow> report_event list \<Rightarrow> workflow" where
  "workflow_run U w [] = w"
| "workflow_run U w (e # es) =
     (case workflow_step U w e of Inl _ \<Rightarrow> workflow_run U w es | Inr w' \<Rightarrow> workflow_run U w' es)"

lemma workflow_run_append: "workflow_run U w (es @ fs) = workflow_run U (workflow_run U w es) fs"
  by (induction es arbitrary: w) (auto split: sum.splits)

text \<open>The transition a successful event makes, on canonical forms.\<close>

lemma workflow_step_cases:
  assumes U: "unicode_ok U" and m: "wf_parts U s n c p st a" and st: "workflow_step U (minted s n c p st a) ev = Inr w'"
  obtains (revise) d where "ev = Revise d" "candidate_ok U d" "st \<in> set REVISION_ALLOWED_REPORT_STATES"
      "n < MAX_REPORT_REVISION" "w' = minted s (n + 1) d (Some (proposal_of s n c p)) (open_state d) None"
      "wf_parts U s (n + 1) d (Some (proposal_of s n c p)) (open_state d) None"
  | (confirm) v where "ev = Confirm v" "st = AWAITING_CONFIRMATION"
      "v = PyStr (confirmation_command_prefix @ derive_confirmation_code (proposal_of s n c p))"
      "w' = minted s n c p CONFIRMATION_ACCEPTED (Some (proposal_of s n c p))"
      "wf_parts U s n c p CONFIRMATION_ACCEPTED (Some (proposal_of s n c p))"
  | (commit) "ev = Commit" "st = CONFIRMATION_ACCEPTED"
      "w' = minted s n c p COMMITTED (Some (proposal_of s n c p))"
      "wf_parts U s n c p COMMITTED (Some (proposal_of s n c p))"
  | (terminal) t where "ev = Terminalize t" "t \<in> set EXPLICIT_TERMINAL_REPORT_STATES"
      "st \<notin> set TERMINAL_REPORT_STATES" "w' = minted s n c p t a" "wf_parts U s n c p t a"
proof (cases ev)
  case (Revise d)
  then have d: "candidate_ok U d"
    using st U m by (auto simp: workflow_step_def revise_cell_report_workflow_def result_simps validate_candidate_iff)
  with Revise show thesis
    using st revise_minted [OF U m d] revised_parts [OF m d] revise
    by (auto simp: workflow_step_def split: if_splits)
next
  case (Confirm v)
  then show thesis
    using st correlate_minted [OF U m] accepted_parts [of U s n c p a] m confirm
    by (auto simp: workflow_step_def result_simps parse_command_iff split: if_splits)
next
  case Commit
  then show thesis using st commit_minted [OF U m] committed_parts [of U s n c p a] m commit
    by (auto simp: workflow_step_def split: if_splits)
next
  case (Terminalize t)
  then show thesis using st terminalize_minted [OF U m] terminalized_parts [OF m, of t] terminal
    by (auto simp: workflow_step_def split: if_splits)
qed

lemma minted_okI: "wf_parts U s n c p st a \<Longrightarrow> w = minted s n c p st a \<Longrightarrow> workflow_ok U w"
  unfolding workflow_ok_def by blast

lemma step_preserves_ok:
  assumes "unicode_ok U" "workflow_ok U w" "workflow_step U w ev = Inr w'"
  shows "workflow_ok U w'"
proof -
  obtain s n c p st a where m: "w = minted s n c p st a" "wf_parts U s n c p st a"
    using assms(2) by (auto simp: workflow_ok_def)
  show ?thesis
    using assms(1) m(2) assms(3) [unfolded m(1)]
    by (cases rule: workflow_step_cases) (blast intro: minted_okI)+
qed

lemma run_preserves_ok:
  "unicode_ok U \<Longrightarrow> workflow_ok U w \<Longrightarrow> workflow_ok U (workflow_run U w es)"
proof (induction es arbitrary: w)
  case (Cons e es)
  then show ?case using step_preserves_ok [of U w e] by (cases "workflow_step U w e") simp_all
qed simp

lemma started_ok: "unicode_ok U \<Longrightarrow> start_cell_report_workflow U key c = Inr w \<Longrightarrow> workflow_ok U w"
  by (erule start_result, assumption) (erule minted_okI, assumption)

lemma reachable_ok: "reachable U w \<Longrightarrow> unicode_ok U \<Longrightarrow> workflow_ok U w"
proof (induction rule: reachable.induct)
  case (start key c w)
  show ?case by (rule started_ok [OF start.prems start.hyps])
next
  case (revise w c w')
  show ?case
    by (rule step_preserves_ok [OF revise.prems revise.IH [OF revise.prems]]) (subst workflow_step_simps, rule revise.hyps)
next
  case (confirm w v w')
  show ?case
    by (rule step_preserves_ok [OF confirm.prems confirm.IH [OF confirm.prems]]) (subst workflow_step_simps, rule confirm.hyps)
next
  case (commit w w')
  show ?case
    by (rule step_preserves_ok [OF commit.prems commit.IH [OF commit.prems]]) (subst workflow_step_simps, rule commit.hyps)
next
  case (terminalize w st w')
  show ?case
    by (rule step_preserves_ok [OF terminalize.prems terminalize.IH [OF terminalize.prems]]) (subst workflow_step_simps, rule terminalize.hyps)
next
  case (rehydrate v w)
  show ?case by (rule rehydrated_ok [OF rehydrate.prems rehydrate.hyps])
qed

lemma terminal_stays:
  assumes "unicode_ok U" "workflow_ok U w" "state w \<in> set TERMINAL_REPORT_STATES"
  shows "\<not> ok (workflow_step U w ev)"
proof (cases "workflow_step U w ev")
  case (Inr w')
  obtain s n c p st a where m: "w = minted s n c p st a" "wf_parts U s n c p st a"
    using assms(2) by (auto simp: workflow_ok_def)
  have st: "st \<in> set TERMINAL_REPORT_STATES" using assms(3) m by simp
  show ?thesis
    using assms(1) m(2) Inr [unfolded m(1)]
    by (cases rule: workflow_step_cases) (use st in \<open>auto simp: TERMINAL_REPORT_STATES_def REVISION_ALLOWED_REPORT_STATES_def\<close>)
qed simp

text \<open>The literal confirmation of a workflow value.\<close>

definition confirms :: "unicode_db \<Rightarrow> workflow \<Rightarrow> report_event \<Rightarrow> bool" where
  "confirms U w ev \<longleftrightarrow> (\<exists>t. cell_report_confirmation_command U w = Inr t \<and> ev = Confirm (PyStr t))"

text \<open>
  What the state says of the past: an accepted state has a confirmation of the same proposal
  behind it, a committed state also a commit after that.
\<close>

definition history_ok :: "unicode_db \<Rightarrow> workflow \<Rightarrow> report_event list \<Rightarrow> bool" where
  "history_ok U w0 es \<longleftrightarrow>
     (let w = workflow_run U w0 es
      in (state w = CONFIRMATION_ACCEPTED \<or> state w = COMMITTED \<longrightarrow>
           (\<exists>before ev after. es = before @ ev # after \<and> confirms U (workflow_run U w0 before) ev
              \<and> proposal_digest (workflow_run U w0 before) = proposal_digest w
              \<and> (state w = COMMITTED \<longrightarrow> Commit \<in> set after))))"

lemma confirms_minted:
  assumes "unicode_ok U" "wf_parts U s n c p AWAITING_CONFIRMATION a"
  shows "confirms U (minted s n c p AWAITING_CONFIRMATION a)
    (Confirm (PyStr (confirmation_command_prefix @ derive_confirmation_code (proposal_of s n c p))))"
proof -
  have "is_complete c" using assms(2) by (simp add: wf_parts_def awaiting_status)
  then show ?thesis using assms
    by (simp add: confirms_def cell_report_confirmation_command_def validate_minted)
qed

lemma history_snoc:
  assumes U: "unicode_ok U" and w0: "workflow_ok U w0" and h: "history_ok U w0 es"
  shows "history_ok U w0 (es @ [ev])"
proof (cases "workflow_step U (workflow_run U w0 es) ev")
  case (Inl e)
  then have same: "workflow_run U w0 (es @ [ev]) = workflow_run U w0 es"
    by (simp add: workflow_run_append)
  show ?thesis using h unfolding history_ok_def same Let_def by (metis append_Cons append_assoc in_set_conv_decomp_first Un_iff set_append)
next
  case (Inr w')
  let ?w = "workflow_run U w0 es"
  have next_w: "workflow_run U w0 (es @ [ev]) = w'" using Inr by (simp add: workflow_run_append)
  obtain s n c p st a where m: "?w = minted s n c p st a" "wf_parts U s n c p st a"
    using run_preserves_ok [OF U w0, of es] by (auto simp: workflow_ok_def)
  show ?thesis
    using U m(2) Inr [unfolded m(1)]
  proof (cases rule: workflow_step_cases)
    case (confirm v)
    then have "confirms U ?w ev" using confirms_minted [OF U] m by simp
    moreover have "proposal_digest ?w = proposal_digest w'" "state w' = CONFIRMATION_ACCEPTED"
      using confirm m by simp_all
    ultimately show ?thesis unfolding history_ok_def next_w Let_def by force
  next
    case commit
    then obtain before e after where b: "es = before @ e # after" "confirms U (workflow_run U w0 before) e"
        "proposal_digest (workflow_run U w0 before) = proposal_digest ?w"
      using h m by (auto simp: history_ok_def)
    have "es @ [ev] = before @ e # (after @ [Commit])" "proposal_digest ?w = proposal_digest w'"
      using b commit m by simp_all
    then show ?thesis using b(2,3) unfolding history_ok_def next_w Let_def by force
  qed (unfold history_ok_def next_w Let_def, auto simp: EXPLICIT_TERMINAL_REPORT_STATES_def)
qed

lemma history_run:
  assumes U: "unicode_ok U" and w0: "start_cell_report_workflow U key c = Inr w0"
  shows "history_ok U w0 es"
proof (induction es rule: rev_induct)
  case Nil
  from U w0 show ?case by (rule start_result) (auto simp: history_ok_def)
next
  case (snoc ev es)
  then show ?case using history_snoc [OF U started_ok [OF U w0]] by blast
qed

text \<open>The confirmation of a valid workflow, as its literal command.\<close>

lemma correlate_literal:
  assumes "unicode_ok U" "workflow_ok U w"
  shows "correlate_cell_report_confirmation U w v = Inr w' \<longleftrightarrow>
    (\<exists>command. cell_report_confirmation_command U w = Inr command \<and> v = PyStr command
      \<and> w' = w\<lparr>state := CONFIRMATION_ACCEPTED, accepted_proposal_digest := proposal_digest w\<rparr>)"
proof -
  obtain s n c p st a where m: "w = minted s n c p st a" "wf_parts U s n c p st a"
    using assms by (auto simp: workflow_ok_def)
  have upd: "minted s n c p CONFIRMATION_ACCEPTED (Some (proposal_of s n c p)) =
      w\<lparr>state := CONFIRMATION_ACCEPTED, accepted_proposal_digest := proposal_digest w\<rparr>"
    using m(1) by (simp add: minted_def)
  show ?thesis
  proof (cases "st = AWAITING_CONFIRMATION")
    case True
    then have c: "is_complete c" using m(2) by (simp add: wf_parts_def awaiting_status)
    have "cell_report_confirmation_command U w =
        Inr (confirmation_command_prefix @ derive_confirmation_code (proposal_of s n c p))"
      using m True c assms(1) by (simp add: cell_report_confirmation_command_def validate_minted)
    then show ?thesis
      using True correlate_minted [OF assms(1) m(2), of v] upd m(1)
      by (auto simp: result_simps parse_command_iff code_length)
  next
    case False
    then have "cell_report_confirmation_command U w = Inl INVALID_STATE_TRANSITION"
      using m assms(1) by (simp add: cell_report_confirmation_command_def validate_minted)
    then show ?thesis using False correlate_minted [OF assms(1) m(2), of v] m(1) by simp
  qed
qed

section \<open>Properties\<close>

definition sample_scope :: pystr where
  "sample_scope = scope_prefix @ replicate 64 48"

definition sample_workflow :: workflow where
  "sample_workflow = minted sample_scope 1 sample_candidate None AWAITING_CONFIRMATION None"

lemma sample_complete: "is_complete sample_candidate"
  by (simp add: is_complete_iff sample_candidate_def)

lemma sample_parts: "wf_parts ascii_db sample_scope 1 sample_candidate None AWAITING_CONFIRMATION None"
proof -
  have "prefixed_hex64 scope_prefix sample_scope"
    unfolding sample_scope_def by (rule prefixed_hex64_mint) (simp_all add: is_hex_def)
  then show ?thesis
    using sample_complete sample_candidates_ok(1)
    by (simp add: wf_parts_def previous_ok_def awaiting_status report_limits)
qed

lemma sample_workflow_ok: "workflow_ok ascii_db sample_workflow" "state sample_workflow = AWAITING_CONFIRMATION"
  using sample_parts by (auto simp: sample_workflow_def intro: minted_okI)

lemma sample_validates: "validate_cell_report_workflow ascii_db sample_workflow = Inr sample_workflow"
  by (simp add: validate_iff [OF ascii_db_ok] sample_workflow_ok)

definition sample_command :: pystr where
  "sample_command = confirmation_command_prefix
     @ derive_confirmation_code (proposal_of sample_scope 1 sample_candidate None)"

lemma sample_confirms: "cell_report_confirmation_command ascii_db sample_workflow = Inr sample_command"
  using confirms_minted [OF ascii_db_ok sample_parts]
  by (auto simp: confirms_def sample_workflow_def sample_command_def)

definition sample_accepted :: workflow where
  "sample_accepted = minted sample_scope 1 sample_candidate None CONFIRMATION_ACCEPTED
     (Some (proposal_of sample_scope 1 sample_candidate None))"

definition sample_committed :: workflow where
  "sample_committed = minted sample_scope 1 sample_candidate None COMMITTED
     (Some (proposal_of sample_scope 1 sample_candidate None))"

lemma sample_correlates:
  "correlate_cell_report_confirmation ascii_db sample_workflow (PyStr sample_command) = Inr sample_accepted"
  unfolding sample_workflow_def correlate_minted [OF ascii_db_ok sample_parts]
  by (simp add: parse_command_iff [THEN iffD2, of _ "derive_confirmation_code (proposal_of sample_scope 1 sample_candidate None)"]
      sample_command_def code_length sample_accepted_def)

lemma sample_commits: "mark_cell_report_committed ascii_db sample_accepted = Inr sample_committed"
  unfolding sample_accepted_def commit_minted [OF ascii_db_ok accepted_parts [OF sample_parts]]
  by (simp add: sample_committed_def)

lemma sample_start:
  "\<exists>w. start_cell_report_workflow ascii_db (PyStr sample_scope) (Some sample_candidate) = Inr w
     \<and> state w = AWAITING_CONFIRMATION"
proof -
  have "prefixed_hex64 scope_prefix sample_scope" using sample_parts by (simp add: wf_parts_def)
  from derive_scope_digest_ok [OF this] obtain s where "derive_scope_digest (PyStr sample_scope) = Inr s" by blast
  then show ?thesis using sample_candidates_ok(1) ascii_db_ok sample_complete
    by (simp add: start_cell_report_workflow_def)
qed

text \<open>
  C27. Every workflow value the module can produce, by starting, revising, confirming, committing,
  terminalizing or rehydrating in any order, passes its own validation: all its digests and its
  confirmation code are the ones recomputed from its fields, and its state fits its candidate.
\<close>

theorem reachable_validates:
  assumes "unicode_ok U" "reachable U w"
  shows "validate_cell_report_workflow U w = Inr w"
  using validate_iff [OF assms(1)] reachable_ok [OF assms(2,1)] by simp

theorem reachable_validates_witness:
  "\<exists>w. start_cell_report_workflow ascii_db (PyStr sample_scope) (Some sample_candidate) = Inr w
     \<and> validate_cell_report_workflow ascii_db w = Inr w"
  using sample_start reachable_validates [OF ascii_db_ok reachable.start] by blast

text \<open>
  C6. Nothing is committed without a literal confirmation.  After any sequence of events from a
  started workflow, a committed state has, at some earlier point, the exact confirmation command
  of the then current proposal, a commit event after it, and the proposal digest it was given
  for is the one that is committed: no revision slipped in between.
\<close>

theorem committed_only_after_confirmation:
  assumes "unicode_ok U" "start_cell_report_workflow U key c = Inr w0"
    and "state (workflow_run U w0 es) = COMMITTED"
  shows "\<exists>before command after.
      es = before @ Confirm (PyStr command) # after \<and> Commit \<in> set after
    \<and> cell_report_confirmation_command U (workflow_run U w0 before) = Inr command
    \<and> proposal_digest (workflow_run U w0 before) = proposal_digest (workflow_run U w0 es)"
  using history_run [OF assms(1,2), of es] assms(3) by (auto simp: history_ok_def confirms_def)

theorem committed_only_after_confirmation_witness:
  "\<exists>w0 command. start_cell_report_workflow ascii_db (PyStr sample_scope) (Some sample_candidate) = Inr w0
     \<and> state (workflow_run ascii_db w0 [Confirm (PyStr command), Commit]) = COMMITTED
     \<and> (\<exists>before command' after. [Confirm (PyStr command), Commit] = before @ Confirm (PyStr command') # after
          \<and> Commit \<in> set after)"
proof -
  obtain w0 where w0: "start_cell_report_workflow ascii_db (PyStr sample_scope) (Some sample_candidate) = Inr w0"
      "state w0 = AWAITING_CONFIRMATION" using sample_start by blast
  obtain s d where m: "w0 = minted s 1 d None (open_state d) None" "wf_parts ascii_db s 1 d None (open_state d) None"
    using w0(1) by (rule start_result [OF ascii_db_ok])
  let ?d = "proposal_of s 1 d None"
  let ?command = "confirmation_command_prefix @ derive_confirmation_code ?d"
  have aw: "open_state d = AWAITING_CONFIRMATION" using w0(2) m(1) by simp
  have p: "wf_parts ascii_db s 1 d None AWAITING_CONFIRMATION None" using m(2) aw by metis
  have s1: "workflow_step ascii_db w0 (Confirm (PyStr ?command)) = Inr (minted s 1 d None CONFIRMATION_ACCEPTED (Some ?d))"
    using m(1) aw correlate_minted [OF ascii_db_ok p]
      parse_command_iff [THEN iffD2, of "PyStr ?command" "derive_confirmation_code ?d"]
    by (simp add: workflow_step_simps code_length del: open_state_awaiting)
  have s2: "workflow_step ascii_db (minted s 1 d None CONFIRMATION_ACCEPTED (Some ?d)) Commit = Inr (minted s 1 d None COMMITTED (Some ?d))"
    using commit_minted [OF ascii_db_ok accepted_parts [OF p]] by (simp add: workflow_step_simps)
  have run: "state (workflow_run ascii_db w0 [Confirm (PyStr ?command), Commit]) = COMMITTED"
    using s1 s2 by simp
  show ?thesis
    using committed_only_after_confirmation [OF ascii_db_ok w0(1) run] w0(1) run by blast
qed

text \<open>
  C28. A confirmation is accepted exactly for the literal command of the awaiting proposal, to the
  character and without trimming, and then only the state and the accepted digest change.
\<close>

theorem confirmation_iff_literal:
  assumes "unicode_ok U" "validate_cell_report_workflow U w = Inr w"
  shows "correlate_cell_report_confirmation U w v = Inr w' \<longleftrightarrow>
    (\<exists>command. cell_report_confirmation_command U w = Inr command \<and> v = PyStr command
      \<and> w' = w\<lparr>state := CONFIRMATION_ACCEPTED, accepted_proposal_digest := proposal_digest w\<rparr>)"
  by (rule correlate_literal) (use assms in \<open>simp_all add: validate_iff\<close>)

theorem confirmation_iff_literal_witness:
  "correlate_cell_report_confirmation ascii_db sample_workflow (PyStr sample_command) =
     Inr (sample_workflow\<lparr>state := CONFIRMATION_ACCEPTED, accepted_proposal_digest := proposal_digest sample_workflow\<rparr>)"
  using confirmation_iff_literal [OF ascii_db_ok sample_validates] sample_confirms by blast

text \<open>The five terminal states are final: no operation of the module succeeds on them.\<close>

theorem terminal_states_final:
  assumes "unicode_ok U" "validate_cell_report_workflow U w = Inr w" "state w \<in> set TERMINAL_REPORT_STATES"
  shows "\<not> ok (revise_cell_report_workflow U w c) \<and> \<not> ok (correlate_cell_report_confirmation U w v)
    \<and> \<not> ok (mark_cell_report_committed U w) \<and> \<not> ok (terminalize_cell_report_workflow U w st)"
  using terminal_stays [OF assms(1) _ assms(3), of "Revise c"] terminal_stays [OF assms(1) _ assms(3), of "Confirm v"]
    terminal_stays [OF assms(1) _ assms(3), of Commit] terminal_stays [OF assms(1) _ assms(3), of "Terminalize st"]
    assms(2) by (simp add: validate_iff [OF assms(1)] workflow_step_simps)

theorem terminal_states_final_witness:
  "\<not> ok (terminalize_cell_report_workflow ascii_db sample_committed CANCELLED)"
proof -
  have "wf_parts ascii_db sample_scope 1 sample_candidate None COMMITTED (Some (proposal_of sample_scope 1 sample_candidate None))"
    using committed_parts [OF accepted_parts [OF sample_parts]] .
  then have "validate_cell_report_workflow ascii_db sample_committed = Inr sample_committed"
    unfolding sample_committed_def by (rule validate_minted [OF ascii_db_ok])
  then show ?thesis
    using terminal_states_final [OF ascii_db_ok, of sample_committed]
    by (auto simp: sample_committed_def TERMINAL_REPORT_STATES_def)
qed

text \<open>
  C29. Persistence loses nothing: the payload of a valid workflow, read back from a JSON column
  that has reordered its keys at every level, rehydrates to the same workflow.
\<close>

theorem rehydrate_payload_roundtrip:
  assumes "unicode_ok U" "validate_cell_report_workflow U w = Inr w"
  shows "\<exists>v. cell_report_workflow_payload U w = Inr v
    \<and> (\<forall>v'. sort_keys v' = sort_keys v \<longrightarrow> rehydrate_cell_report_workflow U v' = Inr w)"
proof -
  have w: "workflow_ok U w" using assms by (simp add: validate_iff)
  then obtain v where v: "cell_report_workflow_payload U w = Inr v"
    using payload_minted [OF assms(1)] by (auto simp: workflow_ok_def)
  then show ?thesis using rehydrate_same_payload [OF assms(1) w v] by (auto simp: same_json_def)
qed

theorem rehydrate_payload_roundtrip_witness:
  "\<exists>v. cell_report_workflow_payload ascii_db sample_workflow = Inr v
     \<and> rehydrate_cell_report_workflow ascii_db v = Inr sample_workflow"
  using rehydrate_payload_roundtrip [OF ascii_db_ok sample_validates] by blast

text \<open>
  A stored object is only rehydrated when it is closed (exactly the ten keys, each once) and
  every derivable field in it is the recomputed one; the workflow returned carries the fields
  of the object and its candidate in canonical form.
\<close>

theorem rehydrate_recomputes:
  assumes "unicode_ok U" "rehydrate_cell_report_workflow U (PyDict d) = Inr w"
  shows "keys_exactly d WORKFLOW_PAYLOAD_KEYS \<and> validate_cell_report_workflow U w = Inr w
    \<and> candidate_of_payload U (py_get d (u ''candidate'')) = Inr (wf_candidate w)
    \<and> derive_candidate_digest U (wf_candidate w) = Inr (py_str (py_get d (u ''candidate_digest'')))
    \<and> py_get d (u ''proposal_digest'') = PyStr (derive_proposal_digest (py_str (py_get d (u ''scope_digest'')))
          (py_int (py_get d (u ''revision''))) (py_str (py_get d (u ''candidate_digest'')))
          (py_opt_str (py_get d (u ''previous_proposal_digest''))))
    \<and> py_get d (u ''confirmation_code'') = (if is_complete (wf_candidate w)
          then PyStr (derive_confirmation_code (py_str (py_get d (u ''proposal_digest'')))) else PyNone)
    \<and> py_get d (u ''state'') = PyStr (u (state_value (state w)))"
proof -
  have ok: "workflow_ok U w" using rehydrated_ok [OF assms] .
  then obtain s n c p st a where m: "w = minted s n c p st a" "wf_parts U s n c p st a"
    by (auto simp: workflow_ok_def)
  obtain c' st' where f: "keys_exactly d WORKFLOW_PAYLOAD_KEYS"
      "candidate_of_payload U (py_get d (u ''candidate'')) = Inr c'"
      "state_of_payload (py_get d (u ''state'')) = Inr st'"
    and v: "validate_cell_report_workflow U
        \<lparr>schema_version = py_get d (u ''schema_version''), scope_digest = py_get d (u ''scope_digest''),
         revision = py_get d (u ''revision''), wf_candidate = c',
         candidate_digest = py_get d (u ''candidate_digest''),
         previous_proposal_digest = py_get d (u ''previous_proposal_digest''),
         proposal_digest = py_get d (u ''proposal_digest''),
         confirmation_code = py_get d (u ''confirmation_code''), state = st',
         accepted_proposal_digest = py_get d (u ''accepted_proposal_digest'')\<rparr> = Inr w"
    using assms(2) by (auto simp: rehydrate_cell_report_workflow_def result_simps)
  have w: "w = \<lparr>schema_version = py_get d (u ''schema_version''), scope_digest = py_get d (u ''scope_digest''),
         revision = py_get d (u ''revision''), wf_candidate = c',
         candidate_digest = py_get d (u ''candidate_digest''),
         previous_proposal_digest = py_get d (u ''previous_proposal_digest''),
         proposal_digest = py_get d (u ''proposal_digest''),
         confirmation_code = py_get d (u ''confirmation_code''), state = st',
         accepted_proposal_digest = py_get d (u ''accepted_proposal_digest'')\<rparr>"
    using v by (simp add: validate_iff [OF assms(1)])
  have get: "wf_candidate w = c'" "state w = st'" "py_get d (u ''candidate_digest'') = PyStr (candidate_digest_of c)"
    "py_get d (u ''scope_digest'') = PyStr s" "py_get d (u ''revision'') = PyInt n"
    "py_get d (u ''previous_proposal_digest'') = py_of_str p"
    "py_get d (u ''proposal_digest'') = PyStr (proposal_of s n c p)"
    using arg_cong [OF w, of candidate_digest] arg_cong [OF w, of scope_digest] arg_cong [OF w, of revision]
      arg_cong [OF w, of previous_proposal_digest] arg_cong [OF w, of proposal_digest]
      arg_cong [OF w, of wf_candidate] arg_cong [OF w, of state] m(1)
    by simp_all
  have code: "py_get d (u ''confirmation_code'') = confirmation_code w"
    using arg_cong [OF w, of confirmation_code] by (simp only: workflow.simps)
  have st: "py_get d (u ''state'') = PyStr (u (state_value st'))"
    using f(3) by (auto simp: state_of_payload_def state_of_value_def find_Some_iff split: py.splits option.splits)
  show ?thesis
    using f ok get code st m assms(1) wf_partsD(1) [OF m(2)]
    by (simp add: validate_iff proposal_of_def)
qed

theorem rehydrate_recomputes_witness:
  "\<exists>d. rehydrate_cell_report_workflow ascii_db (PyDict d) = Inr sample_workflow
     \<and> py_get d (u ''state'') = PyStr (u ''AWAITING_CONFIRMATION'')"
proof -
  obtain d where d: "rehydrate_cell_report_workflow ascii_db (PyDict d) = Inr sample_workflow"
    using rehydrate_same_payload [OF ascii_db_ok sample_workflow_ok(1), of _ _] payload_minted [OF ascii_db_ok sample_parts]
      same_json_refl unfolding sample_workflow_def by metis
  show ?thesis using rehydrate_recomputes [OF ascii_db_ok d] d sample_workflow_ok(2) by auto
qed

text \<open>
  A revision is a link of a chain: it keeps the scope, increments the revision number by one
  up to the bound, records the digest of the proposal it replaces, reopens the state from the
  new candidate and drops any acceptance; and it is refused in every closed state.
\<close>

theorem revision_chains:
  assumes "unicode_ok U" "validate_cell_report_workflow U w = Inr w" "validate_candidate U c = Inr c"
  shows "revise_cell_report_workflow U w c = Inr w' \<longleftrightarrow>
    state w \<in> {EMPTY, COLLECTING, AWAITING_CONFIRMATION} \<and> py_int (revision w) < MAX_REPORT_REVISION
    \<and> validate_cell_report_workflow U w' = Inr w'
    \<and> scope_digest w' = scope_digest w \<and> revision w' = PyInt (py_int (revision w) + 1)
    \<and> previous_proposal_digest w' = proposal_digest w \<and> wf_candidate w' = c
    \<and> state w' = open_state c \<and> accepted_proposal_digest w' = PyNone"
    (is "?l \<longleftrightarrow> ?r")
proof -
  obtain s n b p st a where m: "w = minted s n b p st a" "wf_parts U s n b p st a"
    using assms by (auto simp: validate_iff workflow_ok_def)
  have c: "candidate_ok U c" using assms(1,3) by (simp add: validate_candidate_iff)
  note rev = revise_minted [OF assms(1) m(2) c]
  show ?thesis
  proof
    assume ?l
    then show ?r using rev m revised_parts [OF m(2) c] validate_minted [OF assms(1)]
      by (auto simp: REVISION_ALLOWED_REPORT_STATES_def split: if_splits)
  next
    assume r: ?r
    then obtain s' n' c' p' st' a' where m': "w' = minted s' n' c' p' st' a'"
      using assms(1) by (auto simp: validate_iff workflow_ok_def)
    have "p' = Some (proposal_of s n b p)" "a' = None" "s' = s" "n' = n + 1" "c' = c" "st' = open_state c"
      using r m(1) m' by (auto simp: py_of_str_def split: option.splits)
    with m' r rev m(1) show ?l by (auto simp: REVISION_ALLOWED_REPORT_STATES_def)
  qed
qed

theorem revision_chains_witness:
  "\<exists>w'. revise_cell_report_workflow ascii_db sample_workflow sample_patch = Inr w'
     \<and> revision w' = PyInt 2 \<and> previous_proposal_digest w' = proposal_digest sample_workflow"
proof -
  have p: "validate_candidate ascii_db sample_patch = Inr sample_patch"
    using validate_candidate_ok [OF ascii_db_ok sample_candidates_ok(2)] .
  obtain w' where "revise_cell_report_workflow ascii_db sample_workflow sample_patch = Inr w'"
    using revise_minted [OF ascii_db_ok sample_parts sample_candidates_ok(2)]
    by (auto simp: sample_workflow_def report_limits REVISION_ALLOWED_REPORT_STATES_def)
  then show ?thesis
    using revision_chains [OF ascii_db_ok sample_validates p, of w'] by (auto simp: sample_workflow_def)
qed

text \<open>The material of a proposal digest determines each of its parts.\<close>

lemma proposal_material_inj:
  assumes "prefixed_hex64 scope_prefix s" "prefixed_hex64 scope_prefix s'"
    and "0 \<le> n" "n \<le> MAX_REPORT_REVISION" "0 \<le> n'" "n' \<le> MAX_REPORT_REVISION"
    and "prefixed_hex64 candidate_prefix c" "prefixed_hex64 candidate_prefix c'"
    and p: "p = None \<or> (\<exists>d. p = Some d \<and> prefixed_hex64 proposal_prefix d)"
      "p' = None \<or> (\<exists>d. p' = Some d \<and> prefixed_hex64 proposal_prefix d)"
    and eq: "proposal_material s n c p = proposal_material s' n' c' p'"
  shows "s = s' \<and> n = n' \<and> c = c' \<and> p = p'"
proof -
  have pre: "\<forall>x \<in> set scope_prefix. x < 128" "\<forall>x \<in> set candidate_prefix. x < 128" "\<forall>x \<in> set proposal_prefix. x < 128"
    by (auto simp: scope_prefix_def candidate_prefix_def proposal_prefix_def u_def)
  note sh = prefixed_hex64_ascii [OF pre(1)] prefixed_hex64_ascii [OF pre(2)] prefixed_hex64_ascii [OF pre(3)]
    prefixed_hex64_length
  let ?p = "case p of None \<Rightarrow> [] | Some d \<Rightarrow> d" and ?p' = "case p' of None \<Rightarrow> [] | Some d \<Rightarrow> d"
  have pa: "\<forall>x \<in> set ?p. x < 128" "\<forall>x \<in> set ?p'. x < 128" "length ?p < 256 ^ 4" "length ?p' < 256 ^ 4"
    using p sh(3) sh(4) [of proposal_prefix] by (auto simp: proposal_prefix_def)
  have "frameable [ascii_bytes (u ''pastorai.cell-report.proposal''), ascii_bytes (u ''v1''), ascii_bytes s,
          int_to_bytes 8 (nat n), ascii_bytes c, ascii_bytes ?p]"
       "frameable [ascii_bytes (u ''pastorai.cell-report.proposal''), ascii_bytes (u ''v1''), ascii_bytes s',
          int_to_bytes 8 (nat n'), ascii_bytes c', ascii_bytes ?p']"
    using assms pa sh(4) by (simp_all add: frameable_def scope_prefix_def candidate_prefix_def)
  then have "ascii_bytes s = ascii_bytes s' \<and> int_to_bytes 8 (nat n) = int_to_bytes 8 (nat n')
      \<and> ascii_bytes c = ascii_bytes c' \<and> ascii_bytes ?p = ascii_bytes ?p'"
    using binary_frame_inj eq unfolding proposal_material_def by blast
  then have "s = s'" "int_to_bytes 8 (nat n) = int_to_bytes 8 (nat n')" "c = c'" "?p = ?p'"
    using ascii_bytes_inj assms(1,2,7,8) sh(1,2) pa by metis+
  moreover from this have "nat n = nat n'"
    using int_to_bytes_inj [of "nat n" 8 "nat n'"] assms(3-6) by (simp add: report_limits)
  moreover have "p = p'"
    using p \<open>?p = ?p'\<close> by (cases p; cases p') (auto simp: proposal_prefix_def prefixed_hex64_def)
  ultimately show ?thesis using assms(3,5) by simp
qed

text \<open>
  The proposal digest, from which the confirmation code is derived, binds the scope, the
  revision number, the candidate and the whole chain before it: two valid workflows with the
  same proposal digest agree on all four, unless one of the digests involved is an explicit
  SHA-256 collision of its two materials.
\<close>

theorem proposal_digest_binds:
  assumes "unicode_ok U" "validate_cell_report_workflow U w = Inr w" "validate_cell_report_workflow U w' = Inr w'"
    and "proposal_digest w = proposal_digest w'"
  shows "scope_digest w = scope_digest w' \<and> revision w = revision w' \<and> wf_candidate w = wf_candidate w'
      \<and> previous_proposal_digest w = previous_proposal_digest w'
    \<or> (\<exists>m m'. m \<noteq> m' \<and> sha256 m = sha256 m'
        \<and> (m, m') \<in> {(candidate_material (candidate_bytes (wf_candidate w)), candidate_material (candidate_bytes (wf_candidate w'))),
            (proposal_material (py_str (scope_digest w)) (py_int (revision w)) (py_str (candidate_digest w))
               (py_opt_str (previous_proposal_digest w)),
             proposal_material (py_str (scope_digest w')) (py_int (revision w')) (py_str (candidate_digest w'))
               (py_opt_str (previous_proposal_digest w')))})"
proof -
  obtain s n c p st a where m: "w = minted s n c p st a" "wf_parts U s n c p st a"
    using assms by (auto simp: validate_iff workflow_ok_def)
  obtain s' n' c' p' st' a' where m': "w' = minted s' n' c' p' st' a'" "wf_parts U s' n' c' p' st' a'"
    using assms by (auto simp: validate_iff workflow_ok_def)
  let ?m = "proposal_material s n (candidate_digest_of c) p"
  let ?m' = "proposal_material s' n' (candidate_digest_of c') p'"
  have h: "sha256 ?m = sha256 ?m'"
    using assms(4) m m' by (auto simp: proposal_of_def derive_proposal_digest_def intro: hexdigest_inj)
  have cs: "prefixed_hex64 candidate_prefix (candidate_digest_of d)" for d
    using candidate_digest_shape by (simp add: candidate_prefix_def)
  have pv: "q = None \<or> (\<exists>d. q = Some d \<and> prefixed_hex64 proposal_prefix d)" if "previous_ok k q" for k q
    using that by (auto simp: previous_ok_def split: if_splits)
  consider "?m \<noteq> ?m'" | "?m = ?m'" by blast
  then show ?thesis
  proof cases
    case 1
    then show ?thesis using h m m' by auto
  next
    case 2
    then have e: "s = s' \<and> n = n' \<and> candidate_digest_of c = candidate_digest_of c' \<and> p = p'"
      using m(2) m'(2) cs pv [of n p] pv [of n' p'] by (intro proposal_material_inj) (auto simp: wf_parts_def)
    then show ?thesis
      using candidate_digest_of_inj [OF wf_partsD(1) [OF m(2)] wf_partsD(1) [OF m'(2)]] m m'
      by (auto simp: candidate_digest_of_def intro: hexdigest_inj)
  qed
qed

theorem proposal_digest_binds_witness:
  "\<exists>w' m m'. proposal_digest sample_accepted = proposal_digest w' \<and> w' \<noteq> sample_accepted
     \<and> (revision sample_accepted = revision w' \<or> m \<noteq> m' \<and> sha256 m = sha256 m')"
proof -
  have "validate_cell_report_workflow ascii_db sample_accepted = Inr sample_accepted"
    unfolding sample_accepted_def by (rule validate_minted [OF ascii_db_ok accepted_parts [OF sample_parts]])
  moreover have "proposal_digest sample_accepted = proposal_digest sample_workflow" "sample_workflow \<noteq> sample_accepted"
    by (auto simp: sample_accepted_def sample_workflow_def dest: arg_cong [where f = state])
  ultimately show ?thesis
    using proposal_digest_binds [OF ascii_db_ok _ sample_validates, of sample_accepted] by blast
qed

end
