(* ===== verification/ReportText.thy ===== *)
theory ReportText
  imports PyRegex ReportWorkflow
begin

text \<open>
  The text extractor of \<open>domain/cell_report_workflow.py\<close>: the patterns of the three counts, of the offering and of
  the observation, the patterns that refuse negative and malformed numbers, and
  \<open>parse_cell_report_candidate\<close> with the two operations that start and revise a workflow from a message.
  The lemmas relate what the matcher finds to the numbers that stand beside a label in the text.
\<close>

section \<open>Patterns\<close>

definition NEGATIVE_SIGNS :: pystr where
  "NEGATIVE_SIGNS = [45, 8722, 8211, 8212, 65123, 65293]"

definition negative_sign_class :: "cls list" where
  "negative_sign_class = map (\<lambda>c. ClsRange c c) NEGATIVE_SIGNS"

definition rx_word :: rx where
  "rx_word = RxOne (InCls [ClsWord])"

definition rx_space :: rx where
  "rx_space = RxOne (InCls [ClsSpace])"

definition rx_digit :: rx where
  "rx_digit = RxOne (InCls [ClsRange 48 57])"

definition not_word_behind :: rx where
  "not_word_behind = RxNotBehind (InCls [ClsWord])"

definition not_word_ahead :: rx where
  "not_word_ahead = RxNotLook rx_word"

definition rx_negative :: rx where
  "rx_negative = RxOne (InCls negative_sign_class)"

text \<open>The characters \<open>[:=]\<close>, \<open>[.,]\<close> and \<open>[.,/]\<close>.\<close>

definition rx_colon :: rx where
  "rx_colon = RxOne (InCls [ClsRange 58 58, ClsRange 61 61])"

definition rx_point :: rx where
  "rx_point = RxOne (InCls [ClsRange 46 46, ClsRange 44 44])"

definition rx_point_slash :: rx where
  "rx_point_slash = RxOne (InCls [ClsRange 46 46, ClsRange 44 44, ClsRange 47 47])"

text \<open>The words of the labels; \<open>o\<close> and \<open>a\<close> with a tilde are the code points 245 and 227.\<close>

definition decisao_tilde :: pystr where
  "decisao_tilde = u ''decis'' @ [227] @ u ''o''"

definition decisoes_tilde :: pystr where
  "decisoes_tilde = u ''decis'' @ [245] @ u ''es''"

datatype count_field = Presentes | Visitantes | Decisoes

fun field_label :: "count_field \<Rightarrow> rx" where
  "field_label Presentes = RxSeq (rx_fold (u ''presente'')) (rx_opt (RxOne (Fold 115)))"
| "field_label Visitantes = RxSeq (rx_fold (u ''visitante'')) (rx_opt (RxOne (Fold 115)))"
| "field_label Decisoes =
     RxSeq (rx_fold (u ''decis''))
       (rx_alts [rx_fold ([227] @ u ''o''), rx_fold ([245] @ u ''es''), rx_fold (u ''ao''), rx_fold (u ''oes'')])"

definition COUNT_LABEL :: rx where
  "COUNT_LABEL = RxAtomic (rx_alts (map rx_fold
     [u ''presentes'', u ''presente'', u ''visitantes'', u ''visitante'',
      decisoes_tilde, decisao_tilde, u ''decisoes'', u ''decisao'']))"

definition COUNT_LABEL_CLOSED :: rx where
  "COUNT_LABEL_CLOSED = rx_seqs [not_word_behind, COUNT_LABEL, not_word_ahead]"

definition OFFERING_LABEL :: rx where
  "OFFERING_LABEL = RxAtomic (rx_alts (map rx_fold [u ''ofertas'', u ''oferta'']))"

definition OFFERING_LABEL_CLOSED :: rx where
  "OFFERING_LABEL_CLOSED = rx_seqs [not_word_behind, OFFERING_LABEL, not_word_ahead]"

definition WORD_NON_DIGIT :: rx where
  "WORD_NON_DIGIT = RxOne (NotInCls [ClsNotWord, ClsDigit])"

definition GLUED_NUMBER_TOKEN :: rx where
  "GLUED_NUMBER_TOKEN = rx_seqs
     [RxLook (RxSeq (RxStar rx_word) WORD_NON_DIGIT), RxLook (RxSeq (RxStar rx_word) rx_digit), rx_plus rx_word]"

definition money_char :: rx where
  "money_char = RxOne (InCls [ClsWord, ClsRange 46 46, ClsRange 44 44])"

definition GLUED_MONEY_TOKEN :: rx where
  "GLUED_MONEY_TOKEN = rx_seqs
     [RxLook (RxSeq (RxStar money_char) WORD_NON_DIGIT), RxLook (RxSeq (RxStar money_char) rx_digit),
      rx_plus money_char]"

text \<open>The separators \<open>(?:\s*[:=]\s*|\s+)\<close>, \<open>\s*(?:[:=]\s* )?\<close> and \<open>\s*[:=]?\s*\<close>.\<close>

definition label_separator :: rx where
  "label_separator = RxAlt (rx_seqs [RxStar rx_space, rx_colon, RxStar rx_space]) (rx_plus rx_space)"

definition negative_separator :: rx where
  "negative_separator = RxSeq (RxStar rx_space) (rx_opt (RxSeq rx_colon (RxStar rx_space)))"

definition loose_separator :: rx where
  "loose_separator = rx_seqs [RxStar rx_space, rx_opt rx_colon, RxStar rx_space]"

definition number_before_label :: "rx \<Rightarrow> rx" where
  "number_before_label l = rx_seqs
     [RxNotBehind (InCls (ClsWord # ClsRange 43 43 # negative_sign_class)),
      RxGroup (rx_plus rx_digit), rx_plus rx_space, l, not_word_ahead]"

definition number_after_label :: "rx \<Rightarrow> rx" where
  "number_after_label l = rx_seqs
     [not_word_behind, l, not_word_ahead, label_separator, RxGroup (rx_plus rx_digit), not_word_ahead]"

definition COUNT_PATTERNS :: "count_field \<Rightarrow> rx list" where
  "COUNT_PATTERNS f = [number_before_label (field_label f), number_after_label (field_label f)]"

text \<open>
  Money: \<open>(?:[0-9]{1,3}(?:\.[0-9]{3})+|[0-9]+)(?:,[0-9]{1,2})?|[0-9]+\.[0-9]{1,2}\<close>, not followed by a
  word character or by another decimal part.
\<close>

definition one_or_two_digits :: rx where
  "one_or_two_digits = RxSeq rx_digit (rx_opt rx_digit)"

definition one_to_three_digits :: rx where
  "one_to_three_digits = RxSeq rx_digit (rx_opt one_or_two_digits)"

definition thousands_rx :: rx where
  "thousands_rx = RxSeq one_to_three_digits
     (rx_plus (rx_seqs [RxOne (Lit 46), rx_digit, rx_digit, rx_digit]))"

definition MONEY_BODY :: rx where
  "MONEY_BODY = RxAlt
     (RxSeq (RxAlt thousands_rx (rx_plus rx_digit)) (rx_opt (RxSeq (RxOne (Lit 44)) one_or_two_digits)))
     (rx_seqs [rx_plus rx_digit, RxOne (Lit 46), one_or_two_digits])"

definition money_end :: rx where
  "money_end = RxNotLook (RxAlt rx_word (RxSeq rx_point rx_digit))"

definition MONEY_TOKEN :: rx where
  "MONEY_TOKEN = RxSeq (RxGroup MONEY_BODY) money_end"

definition rx_real :: rx where
  "rx_real = RxSeq (rx_fold (u ''rea'')) (RxAlt (RxOne (Fold 108)) (rx_fold (u ''is'')))"

definition OPTIONAL_REAL_SUFFIX :: rx where
  "OPTIONAL_REAL_SUFFIX = RxSeq
     (rx_opt (rx_seqs [rx_plus rx_space, rx_real, not_word_ahead]))
     (RxNotLook (rx_seqs [rx_plus rx_space, rx_real, rx_word]))"

text \<open>\<open>r\$\<close> and \<open>r\$\s*\<close>.\<close>

definition currency :: rx where
  "currency = RxSeq (RxOne (Fold 114)) (RxOne (Lit 36))"

definition currency_spaced :: rx where
  "currency_spaced = RxSeq currency (RxStar rx_space)"

definition OFFERING_PATTERNS :: "rx list" where
  "OFFERING_PATTERNS =
     [rx_seqs [OFFERING_LABEL_CLOSED, label_separator, rx_opt currency_spaced, MONEY_TOKEN, OPTIONAL_REAL_SUFFIX],
      rx_seqs [not_word_behind, currency_spaced, MONEY_TOKEN, OPTIONAL_REAL_SUFFIX]]"

text \<open>
  The label of the observation; \<open>c\<close> with a cedilla is 231.  \<open>[:=-]\<close> is a colon, an equals sign or a hyphen.
\<close>

definition OBSERVATIONS_PATTERN :: rx where
  "OBSERVATIONS_PATTERN = rx_seqs
     [RxAlt
        (rx_seqs [rx_fold (u ''observa''), RxAlt (RxOne (Fold 231)) (RxOne (Fold 99)),
           rx_alts [rx_fold ([227] @ u ''o''), rx_fold (u ''ao''), rx_fold ([245] @ u ''es''), rx_fold (u ''oes'')]])
        (rx_fold (u ''obs'')),
      RxStar rx_space,
      RxOne (InCls [ClsRange 58 58, ClsRange 61 61, ClsRange 45 45]),
      RxStar rx_space, RxGroup (RxStar (RxOne AnyChar)), RxEnd]"

section \<open>Refused numbers\<close>

definition NEGATIVE_COUNT_PATTERN :: rx where
  "NEGATIVE_COUNT_PATTERN = RxAlt
     (rx_seqs [rx_negative, RxStar rx_space, rx_plus rx_digit, RxStar rx_space, COUNT_LABEL, not_word_ahead])
     (rx_seqs [COUNT_LABEL_CLOSED, negative_separator, rx_negative, RxStar rx_space, rx_plus rx_digit])"

definition NEGATIVE_OFFERING_PATTERN :: rx where
  "NEGATIVE_OFFERING_PATTERN = rx_alts
     [rx_seqs [OFFERING_LABEL_CLOSED, negative_separator, rx_opt currency_spaced, rx_negative,
               RxStar rx_space, rx_digit],
      rx_seqs [OFFERING_LABEL_CLOSED, negative_separator, rx_negative, RxStar rx_space,
               rx_opt currency_spaced, rx_digit],
      rx_seqs [not_word_behind, currency_spaced, rx_negative, RxStar rx_space, rx_digit]]"

definition MALFORMED_COUNT_TOKEN_PATTERN :: rx where
  "MALFORMED_COUNT_TOKEN_PATTERN = rx_alts
     [rx_seqs [not_word_behind, rx_plus rx_digit, rx_point_slash, rx_plus rx_digit, rx_plus rx_space,
               COUNT_LABEL, not_word_ahead],
      rx_seqs [COUNT_LABEL_CLOSED, label_separator, rx_plus rx_digit, rx_point_slash, rx_plus rx_digit],
      rx_seqs [not_word_behind, GLUED_NUMBER_TOKEN, not_word_ahead, RxStar rx_space, COUNT_LABEL, not_word_ahead],
      rx_seqs [COUNT_LABEL_CLOSED, loose_separator, GLUED_NUMBER_TOKEN, not_word_ahead],
      rx_seqs [not_word_behind, rx_plus rx_digit, RxStar rx_space, COUNT_LABEL, RxLook rx_word],
      rx_seqs [not_word_behind, COUNT_LABEL, RxLook rx_word, RxStar rx_word, loose_separator,
               rx_plus rx_digit, not_word_ahead],
      rx_seqs [not_word_behind, rx_plus rx_digit, COUNT_LABEL, not_word_ahead],
      rx_seqs [COUNT_LABEL_CLOSED, rx_plus rx_digit, not_word_ahead],
      rx_seqs [not_word_behind, rx_plus rx_digit, rx_plus rx_space, rx_plus rx_word, COUNT_LABEL,
               RxStar rx_word, not_word_ahead],
      rx_seqs [not_word_behind, RxLook (RxSeq (RxStar rx_word) COUNT_LABEL),
               RxLook (RxSeq (RxStar rx_word) rx_digit), rx_plus rx_word, not_word_ahead],
      rx_seqs [not_word_behind, rx_plus rx_word, COUNT_LABEL, RxStar rx_word, loose_separator,
               rx_plus rx_digit, not_word_ahead]]"

definition MALFORMED_OFFERING_TOKEN_PATTERN :: rx where
  "MALFORMED_OFFERING_TOKEN_PATTERN = rx_alts
     [rx_seqs [OFFERING_LABEL_CLOSED, loose_separator, rx_opt currency_spaced, GLUED_MONEY_TOKEN, not_word_ahead],
      rx_seqs [not_word_behind, currency_spaced, GLUED_MONEY_TOKEN, not_word_ahead],
      rx_seqs [OFFERING_LABEL_CLOSED, loose_separator, rx_opt currency_spaced, MONEY_BODY, money_end,
               rx_plus rx_space, rx_real, RxLook rx_word, RxStar rx_word],
      rx_seqs [not_word_behind, currency_spaced, MONEY_BODY, money_end, rx_plus rx_space, rx_real,
               RxLook rx_word, RxStar rx_word],
      rx_seqs [not_word_behind, OFFERING_LABEL, RxLook rx_word, RxStar rx_word, loose_separator,
               rx_opt currency_spaced, MONEY_BODY, money_end],
      rx_seqs [OFFERING_LABEL_CLOSED, MONEY_BODY, money_end],
      rx_seqs [not_word_behind, rx_plus rx_word, OFFERING_LABEL, RxStar rx_word, loose_separator,
               rx_opt currency_spaced, MONEY_BODY, money_end],
      rx_seqs [not_word_behind, RxLook (RxSeq (RxStar rx_word) OFFERING_LABEL),
               RxLook (RxSeq (RxStar rx_word) rx_digit), rx_plus rx_word, not_word_ahead]]"

section \<open>Extraction\<close>

definition normalized_text :: "unicode_db \<Rightarrow> re_db \<Rightarrow> py \<Rightarrow> (workflow_error, pystr) result" where
  "normalized_text U R v =
     (case v of
        PyNone \<Rightarrow> Inr []
      | PyStr s \<Rightarrow>
          if length s > MAX_REPORT_TEXT_BYTES then Inl TEXT_LIMIT_EXCEEDED
          else let n = ud_nfc U (normalize_newlines s)
               in if list_ex (\<lambda>c. re_control_or_mark R c \<and> c \<notin> {10, 9}) n then Inl INVALID_TEXT
                  else ebind (utf8_bytes n INVALID_TEXT) (\<lambda>b.
                    if length b > MAX_REPORT_TEXT_BYTES then Inl TEXT_LIMIT_EXCEEDED else Inr n)
      | _ \<Rightarrow> Inl INVALID_TEXT)"

text \<open>
  \<open>_unique_match\<close>: the set of converted values of all matches of all patterns, in the order in which they are converted
  and may raise.
\<close>

definition unique_match ::
  "unicode_db \<Rightarrow> re_db \<Rightarrow> rx list \<Rightarrow> pystr \<Rightarrow> (pystr \<Rightarrow> (workflow_error, 'a option) result)
     \<Rightarrow> (workflow_error, 'a option) result" where
  "unique_match U R patterns text convert =
     ebind (emap convert (concat (map (\<lambda>p. rx_finditer U R p text) patterns))) (\<lambda>values.
       if length (remdups values) > 1 then Inl CONFLICTING_FIELD_VALUES
       else Inr (case values of [] \<Rightarrow> None | v # _ \<Rightarrow> v))"

text \<open>
  The token is matched by \<open>[0-9]+\<close>, so \<open>int\<close> reads it.  The error class is a subclass of \<open>ValueError\<close>: what
  \<open>_normalized_count\<close> raises inside the \<open>try\<close> is caught there.
\<close>

definition parse_count_token :: "pystr \<Rightarrow> (workflow_error, int option) result" where
  "parse_count_token v =
     (if length v > 7 then Inl COUNT_LIMIT_EXCEEDED
      else ecatch (normalized_count (PyInt (int (nat_of_digits v)))) (\<lambda>_. Inl INVALID_COUNT))"

definition parsed_count ::
  "unicode_db \<Rightarrow> re_db \<Rightarrow> pystr \<Rightarrow> count_field \<Rightarrow> (workflow_error, int option) result" where
  "parsed_count U R t f = unique_match U R (COUNT_PATTERNS f) t parse_count_token"

definition refuse_match ::
  "unicode_db \<Rightarrow> re_db \<Rightarrow> rx \<Rightarrow> pystr \<Rightarrow> workflow_error \<Rightarrow> (workflow_error, unit) result" where
  "refuse_match U R p t e = (if rx_search U R p t \<noteq> None then Inl e else Inr ())"

definition parsed_observation :: "unicode_db \<Rightarrow> re_db \<Rightarrow> pystr \<Rightarrow> pystr option" where
  "parsed_observation U R t = map_option (\<lambda>s. snd (snd s)) (rx_search U R OBSERVATIONS_PATTERN t)"

definition parse_cell_report_candidate ::
  "unicode_db \<Rightarrow> re_db \<Rightarrow> py \<Rightarrow> (workflow_error, candidate) result" where
  "parse_cell_report_candidate U R v =
     ebind (normalized_text U R v) (\<lambda>t.
     ebind (refuse_match U R NEGATIVE_COUNT_PATTERN t INVALID_COUNT) (\<lambda>_.
     ebind (refuse_match U R NEGATIVE_OFFERING_PATTERN t INVALID_OFFERING) (\<lambda>_.
     ebind (refuse_match U R MALFORMED_COUNT_TOKEN_PATTERN t INVALID_COUNT) (\<lambda>_.
     ebind (refuse_match U R MALFORMED_OFFERING_TOKEN_PATTERN t INVALID_OFFERING) (\<lambda>_.
     ebind (parsed_count U R t Presentes) (\<lambda>p.
     ebind (parsed_count U R t Visitantes) (\<lambda>v.
     ebind (parsed_count U R t Decisoes) (\<lambda>d.
     ebind (unique_match U R OFFERING_PATTERNS t (\<lambda>m. canonical_report_offering U (PyStr m))) (\<lambda>a.
       build_cell_report_candidate U (py_of_int p) (py_of_int v) (py_of_int d) (py_of_str a)
         (py_of_str (parsed_observation U R t)))))))))))"

definition start_cell_report_workflow_from_text ::
  "unicode_db \<Rightarrow> re_db \<Rightarrow> py \<Rightarrow> py \<Rightarrow> (workflow_error, workflow) result" where
  "start_cell_report_workflow_from_text U R key text =
     ebind (parse_cell_report_candidate U R text) (\<lambda>c. start_cell_report_workflow U key (Some c))"

definition revise_cell_report_workflow_from_text ::
  "unicode_db \<Rightarrow> re_db \<Rightarrow> workflow \<Rightarrow> py \<Rightarrow> (workflow_error, workflow) result" where
  "revise_cell_report_workflow_from_text U R w text =
     ebind (validate_cell_report_workflow U w) (\<lambda>cur.
       if state cur \<notin> set REVISION_ALLOWED_REPORT_STATES then Inl INVALID_STATE_TRANSITION
       else ebind (parse_cell_report_candidate U R text) (\<lambda>patch.
         if is_empty patch then Inl EMPTY_REVISION
         else ebind (merge_cell_report_candidates U (wf_candidate cur) patch) (\<lambda>merged.
           revise_cell_report_workflow U cur merged)))"

section \<open>What the count patterns match\<close>

text \<open>The words a field is labelled with, and the letters of labels: alphanumeric, but no digits.\<close>

fun field_words :: "count_field \<Rightarrow> pystr list" where
  "field_words Presentes = [u ''presentes'', u ''presente'']"
| "field_words Visitantes = [u ''visitantes'', u ''visitante'']"
| "field_words Decisoes = [decisao_tilde, decisoes_tilde, u ''decisao'', u ''decisoes'']"

definition spaces :: "pystr \<Rightarrow> bool" where
  "spaces ws \<longleftrightarrow> ws \<noteq> [] \<and> list_all py_isspace ws"

text \<open>Between a label and its number: white space, or a colon or equals sign with any white space around it.\<close>

definition separates :: "pystr \<Rightarrow> bool" where
  "separates q \<longleftrightarrow> spaces q
     \<or> (\<exists>a c b. q = a @ c # b \<and> c \<in> {58, 61} \<and> list_all py_isspace a \<and> list_all py_isspace b)"

lemma field_label_words:
  "t \<in> set (run U R (field_label f) s) \<longleftrightarrow> (\<exists>w \<in> set (field_words f). t \<in> set (run U R (rx_fold w) s))"
proof (cases f)
  case Presentes
  then show ?thesis
    by (simp only: field_label.simps rx_opt_def fold_one fold_none in_run_seq_alt in_run_fold_fold field_words.simps)
      (simp add: u_def)
next
  case Visitantes
  then show ?thesis
    by (simp only: field_label.simps rx_opt_def fold_one fold_none in_run_seq_alt in_run_fold_fold field_words.simps)
      (simp add: u_def)
next
  case Decisoes
  then show ?thesis
    by (simp only: field_label.simps rx_alts.simps in_run_seq_alt in_run_fold_fold field_words.simps)
      (simp add: u_def decisao_tilde_def decisoes_tilde_def)
qed

definition closed_after :: "re_db \<Rightarrow> pystr \<Rightarrow> bool" where
  "closed_after R z \<longleftrightarrow> z = [] \<or> \<not> word_char R (hd z)"

definition closed_before :: "re_db \<Rightarrow> pystr \<Rightarrow> bool" where
  "closed_before R b \<longleftrightarrow> b = [] \<or> \<not> word_char R (last b)"

text \<open>Before a number that opens a match also no sign.\<close>

definition unsigned_before :: "re_db \<Rightarrow> pystr \<Rightarrow> bool" where
  "unsigned_before R b \<longleftrightarrow> b = [] \<or> \<not> word_char R (last b) \<and> last b \<noteq> 43 \<and> last b \<notin> set NEGATIVE_SIGNS"

definition label_spelled :: "unicode_db \<Rightarrow> re_db \<Rightarrow> count_field \<Rightarrow> pystr \<Rightarrow> bool" where
  "label_spelled U R f l \<longleftrightarrow> (\<exists>w \<in> set (field_words f). spells U R w l)"

lemma in_run_label [rx_sets]:
  "t \<in> set (run U R (field_label f) s) \<longleftrightarrow> (\<exists>l. label_spelled U R f l \<and> consumes s l t \<and> grp t = grp s)"
  unfolding field_label_words in_run_fold label_spelled_def by blast

lemma hd_rev_last: "hd (rev b) = last b"
  by (simp add: hd_rev)

lemma sign_in_class: "list_ex (\<lambda>k. in_cls U R k c) negative_sign_class \<longleftrightarrow> c \<in> set NEGATIVE_SIGNS"
  by (auto simp: negative_sign_class_def NEGATIVE_SIGNS_def)

lemma in_run_closed_ahead [rx_sets]:
  "t \<in> set (run U R not_word_ahead s) \<longleftrightarrow> t = s \<and> closed_after R (rest s)"
  unfolding not_word_ahead_def rx_word_def in_run_not_ahead by (auto simp: closed_after_def)

lemma in_run_closed_behind [rx_sets]:
  "t \<in> set (run U R not_word_behind s) \<longleftrightarrow> t = s \<and> closed_before R (rev (before s))"
  unfolding not_word_behind_def in_run_not_behind by (auto simp: closed_before_def last_rev)

lemma in_run_unsigned [rx_sets]:
  "t \<in> set (run U R (RxNotBehind (InCls (ClsWord # ClsRange 43 43 # negative_sign_class))) s) \<longleftrightarrow>
     t = s \<and> unsigned_before R (rev (before s))"
  unfolding in_run_not_behind by (auto simp: unsigned_before_def last_rev sign_in_class)

lemma digit_matches [simp]: "one_matches U R (InCls [ClsRange 48 57]) c \<longleftrightarrow> is_digit c"
  by (simp add: is_digit_def)

lemma in_run_digits [rx_sets]:
  "t \<in> set (run U R (rx_plus rx_digit) s) \<longleftrightarrow> (\<exists>m. ascii_digits m \<and> consumes s m t \<and> grp t = grp s)"
  unfolding rx_digit_def in_run_plus_one digit_matches ascii_digits_def by (auto simp: list_all_iff)

lemma in_run_digits_group [rx_sets]:
  "t \<in> set (run U R (RxGroup (rx_plus rx_digit)) s) \<longleftrightarrow> (\<exists>m. ascii_digits m \<and> consumes s m t \<and> grp t = m)"
proof
  assume "t \<in> set (run U R (RxGroup (rx_plus rx_digit)) s)"
  then obtain v where v: "v \<in> set (run U R (rx_plus rx_digit) s)"
    and t: "t = (before v, rest v, captured (rest s) (rest v))" unfolding in_run_group by blast
  obtain m where m: "ascii_digits m" "consumes s m v" using v unfolding in_run_digits by blast
  then have "consumes s m t" "grp t = m" using t captured_consumes [OF m(2)] by (simp_all add: consumes_def)
  with m(1) show "\<exists>m. ascii_digits m \<and> consumes s m t \<and> grp t = m" by blast
next
  assume "\<exists>m. ascii_digits m \<and> consumes s m t \<and> grp t = m"
  then have m: "ascii_digits (grp t)" "consumes s (grp t) t" by auto
  let ?v = "(before t, rest t, grp s)"
  have v: "consumes s (grp t) ?v" using m(2) by (simp add: consumes_def)
  then have "?v \<in> set (run U R (rx_plus rx_digit) s)" using m(1) unfolding in_run_digits by (metis snd_conv)
  then show "t \<in> set (run U R (RxGroup (rx_plus rx_digit)) s)"
    unfolding in_run_group using captured_consumes [OF v] by (metis fst_conv snd_conv prod.collapse)
qed

lemma in_run_spaces [rx_sets]:
  "t \<in> set (run U R (rx_plus rx_space) s) \<longleftrightarrow> (\<exists>m. spaces m \<and> consumes s m t \<and> grp t = grp s)"
  unfolding rx_space_def in_run_plus_one spaces_def by (auto simp: list_all_iff)

lemma in_run_any_spaces [rx_sets]:
  "t \<in> set (run U R (RxStar rx_space) s) \<longleftrightarrow> (\<exists>m. list_all py_isspace m \<and> consumes s m t \<and> grp t = grp s)"
  unfolding rx_space_def in_run_star_one by (auto simp: list_all_iff)

lemma colon_matches [simp]: "one_matches U R (InCls [ClsRange 58 58, ClsRange 61 61]) c \<longleftrightarrow> c \<in> {58, 61}"
  by auto

lemma in_run_separator [rx_sets]:
  "t \<in> set (run U R label_separator s) \<longleftrightarrow> (\<exists>q. separates q \<and> consumes s q t \<and> grp t = grp s)"
proof
  assume "t \<in> set (run U R label_separator s)"
  then consider "t \<in> set (run U R (rx_plus rx_space) s)"
    | "t \<in> set (run U R (RxSeq (RxStar rx_space) (RxSeq rx_colon (RxStar rx_space))) s)"
    unfolding label_separator_def in_run_alt rx_seqs.simps by blast
  then show "\<exists>q. separates q \<and> consumes s q t \<and> grp t = grp s"
  proof cases
    case 1
    then show ?thesis unfolding in_run_spaces separates_def by blast
  next
    case 2
    then obtain v x where vx: "v \<in> set (run U R (RxStar rx_space) s)" "x \<in> set (run U R rx_colon v)"
      "t \<in> set (run U R (RxStar rx_space) x)" by (elim in_run_seqE)
    obtain a where a: "list_all py_isspace a" "consumes s a v" "grp v = grp s"
      using vx(1) unfolding in_run_any_spaces by blast
    obtain c where c: "c \<in> {58, 61}" "consumes v [c] x" "grp x = grp v"
      using vx(2) unfolding rx_colon_def in_run_one colon_matches by blast
    obtain b where b: "list_all py_isspace b" "consumes x b t" "grp t = grp x"
      using vx(3) unfolding in_run_any_spaces by blast
    have "consumes s (a @ c # b) t" using consumes_trans [OF consumes_trans [OF a(2) c(2)] b(2)] by simp
    with a b c show ?thesis unfolding separates_def by metis
  qed
next
  assume "\<exists>q. separates q \<and> consumes s q t \<and> grp t = grp s"
  then obtain q where q: "separates q" "consumes s q t" "grp t = grp s" by blast
  from q(1) consider "spaces q"
    | a c b where "q = a @ c # b" "c \<in> {58, 61}" "list_all py_isspace a" "list_all py_isspace b"
    unfolding separates_def by blast
  then show "t \<in> set (run U R label_separator s)"
  proof cases
    case 1
    then have "t \<in> set (run U R (rx_plus rx_space) s)" using q(2,3) unfolding in_run_spaces by blast
    then show ?thesis unfolding label_separator_def in_run_alt by blast
  next
    case (2 a c b)
    let ?v = "(rev a @ before s, c # b @ rest t, grp s)" and ?x = "(c # rev a @ before s, b @ rest t, grp s)"
    have "consumes s a ?v" "consumes ?v [c] ?x" "consumes ?x b t"
      using q(2) 2(1) by (simp_all add: consumes_def)
    then have "?v \<in> set (run U R (RxStar rx_space) s)" "?x \<in> set (run U R rx_colon ?v)"
      "t \<in> set (run U R (RxStar rx_space) ?x)"
      using 2 q(3) unfolding in_run_any_spaces rx_colon_def in_run_one by auto
    then show ?thesis unfolding label_separator_def in_run_alt rx_seqs.simps by (blast intro: in_run_seqI)
  qed
qed

text \<open>
  A match of a count pattern: a number and a label, apart from each other and from what surrounds them.
\<close>

definition before_label_match :: "unicode_db \<Rightarrow> re_db \<Rightarrow> count_field \<Rightarrow> pystr \<Rightarrow> pystr \<Rightarrow> pystr \<Rightarrow> bool" where
  "before_label_match U R f ds ws l \<longleftrightarrow> ascii_digits ds \<and> spaces ws \<and> label_spelled U R f l"

lemma number_before_label_matches:
  "t \<in> set (run U R (number_before_label (field_label f)) s) \<longleftrightarrow>
     (\<exists>ds ws l. before_label_match U R f ds ws l \<and> consumes s (ds @ ws @ l) t \<and> grp t = ds
        \<and> unsigned_before R (rev (before s)) \<and> closed_after R (rest t))"
proof
  assume "t \<in> set (run U R (number_before_label (field_label f)) s)"
  then obtain v x y where u: "unsigned_before R (rev (before s))"
    and v: "v \<in> set (run U R (RxGroup (rx_plus rx_digit)) s)" and x: "x \<in> set (run U R (rx_plus rx_space) v)"
    and y: "t \<in> set (run U R (field_label f) x)" and c: "closed_after R (rest t)"
    unfolding number_before_label_def rx_seqs.simps
    by (elim in_run_seqE) (auto simp only: in_run_unsigned in_run_closed_ahead)
  obtain ds where ds: "ascii_digits ds" "consumes s ds v" "grp v = ds" using v unfolding in_run_digits_group by blast
  obtain ws where ws: "spaces ws" "consumes v ws x" "grp x = grp v" using x unfolding in_run_spaces by blast
  obtain l where l: "label_spelled U R f l" "consumes x l t" "grp t = grp x" using y unfolding in_run_label by blast
  have "consumes s (ds @ ws @ l) t" using consumes_trans [OF ds(2) consumes_trans [OF ws(2) l(2)]] .
  with ds ws l u c show "\<exists>ds ws l. before_label_match U R f ds ws l \<and> consumes s (ds @ ws @ l) t \<and> grp t = ds
      \<and> unsigned_before R (rev (before s)) \<and> closed_after R (rest t)"
    unfolding before_label_match_def by metis
next
  assume "\<exists>ds ws l. before_label_match U R f ds ws l \<and> consumes s (ds @ ws @ l) t \<and> grp t = ds
      \<and> unsigned_before R (rev (before s)) \<and> closed_after R (rest t)"
  then obtain ds ws l where m: "ascii_digits ds" "spaces ws" "label_spelled U R f l"
    and c: "consumes s (ds @ ws @ l) t" "grp t = ds" "unsigned_before R (rev (before s))" "closed_after R (rest t)"
    unfolding before_label_match_def by blast
  let ?v = "(rev ds @ before s, ws @ l @ rest t, ds)" and ?x = "(rev ws @ rev ds @ before s, l @ rest t, ds)"
  have "consumes s ds ?v" "consumes ?v ws ?x" "consumes ?x l t" using c(1) by (simp_all add: consumes_def)
  with m c have "s \<in> set (run U R (RxNotBehind (InCls (ClsWord # ClsRange 43 43 # negative_sign_class))) s)"
    "?v \<in> set (run U R (RxGroup (rx_plus rx_digit)) s)" "?x \<in> set (run U R (rx_plus rx_space) ?v)"
    "t \<in> set (run U R (field_label f) ?x)" "t \<in> set (run U R not_word_ahead t)"
    unfolding in_run_unsigned in_run_digits_group in_run_spaces in_run_label in_run_closed_ahead by auto
  then show "t \<in> set (run U R (number_before_label (field_label f)) s)"
    unfolding number_before_label_def rx_seqs.simps by (blast intro: in_run_seqI)
qed

definition after_label_match :: "unicode_db \<Rightarrow> re_db \<Rightarrow> count_field \<Rightarrow> pystr \<Rightarrow> pystr \<Rightarrow> pystr \<Rightarrow> bool" where
  "after_label_match U R f l q ds \<longleftrightarrow> label_spelled U R f l \<and> separates q \<and> ascii_digits ds"

lemma number_after_label_matches:
  "t \<in> set (run U R (number_after_label (field_label f)) s) \<longleftrightarrow>
     (\<exists>l q ds. after_label_match U R f l q ds \<and> consumes s (l @ q @ ds) t \<and> grp t = ds
        \<and> closed_before R (rev (before s)) \<and> closed_after R (q @ ds @ rest t) \<and> closed_after R (rest t))"
proof
  assume "t \<in> set (run U R (number_after_label (field_label f)) s)"
  then obtain v x where u: "closed_before R (rev (before s))"
    and v: "v \<in> set (run U R (field_label f) s)" and c1: "closed_after R (rest v)"
    and x: "x \<in> set (run U R label_separator v)"
    and y: "t \<in> set (run U R (RxGroup (rx_plus rx_digit)) x)" and c: "closed_after R (rest t)"
    unfolding number_after_label_def rx_seqs.simps
    by (elim in_run_seqE) (auto simp only: in_run_closed_behind in_run_closed_ahead)
  obtain l where l: "label_spelled U R f l" "consumes s l v" "grp v = grp s" using v unfolding in_run_label by blast
  obtain q where q: "separates q" "consumes v q x" "grp x = grp v" using x unfolding in_run_separator by blast
  obtain ds where ds: "ascii_digits ds" "consumes x ds t" "grp t = ds" using y unfolding in_run_digits_group by blast
  have "consumes s (l @ q @ ds) t" using consumes_trans [OF l(2) consumes_trans [OF q(2) ds(2)]] .
  moreover have "rest v = q @ ds @ rest t" using q(2) ds(2) by (simp add: consumes_def)
  ultimately show "\<exists>l q ds. after_label_match U R f l q ds \<and> consumes s (l @ q @ ds) t \<and> grp t = ds
      \<and> closed_before R (rev (before s)) \<and> closed_after R (q @ ds @ rest t) \<and> closed_after R (rest t)"
    using l q ds u c c1 unfolding after_label_match_def by metis
next
  assume "\<exists>l q ds. after_label_match U R f l q ds \<and> consumes s (l @ q @ ds) t \<and> grp t = ds
      \<and> closed_before R (rev (before s)) \<and> closed_after R (q @ ds @ rest t) \<and> closed_after R (rest t)"
  then obtain l q ds where m: "label_spelled U R f l" "separates q" "ascii_digits ds"
    and c: "consumes s (l @ q @ ds) t" "grp t = ds" "closed_before R (rev (before s))"
      "closed_after R (q @ ds @ rest t)" "closed_after R (rest t)"
    unfolding after_label_match_def by blast
  let ?v = "(rev l @ before s, q @ ds @ rest t, grp s)" and ?x = "(rev q @ rev l @ before s, ds @ rest t, grp s)"
  have "consumes s l ?v" "consumes ?v q ?x" "consumes ?x ds t" using c(1) by (simp_all add: consumes_def)
  with m c have "s \<in> set (run U R not_word_behind s)" "?v \<in> set (run U R (field_label f) s)"
    "?v \<in> set (run U R not_word_ahead ?v)" "?x \<in> set (run U R label_separator ?v)"
    "t \<in> set (run U R (RxGroup (rx_plus rx_digit)) ?x)" "t \<in> set (run U R not_word_ahead t)"
    unfolding in_run_closed_behind in_run_digits_group in_run_separator in_run_label in_run_closed_ahead by auto
  then show "t \<in> set (run U R (number_after_label (field_label f)) s)"
    unfolding number_after_label_def rx_seqs.simps by (blast intro: in_run_seqI)
qed

section \<open>Letters, digits and separators\<close>

text \<open>A character that matches a letter of a label is alphanumeric and no digit.\<close>

definition label_letter :: "nat \<Rightarrow> bool" where
  "label_letter a \<longleftrightarrow> 97 \<le> a \<and> a \<le> 122 \<or> a \<in> {227, 231, 245}"

lemma fold_letter:
  assumes "re_ok R" and "label_letter a" and "one_matches U R (Fold a) c"
  shows "re_alnum R c \<and> \<not> is_digit c"
proof -
  have low: "re_lower R c = a \<or> re_lower R c \<in> {305, 383}"
    using assms(3) by (auto simp: extra_cases_def split: if_splits)
  then have "re_alnum R (re_lower R c)"
    using assms(1,2) by (auto simp: re_ok_def label_letter_def)
  then have "re_alnum R c" using assms(1) by (simp add: re_ok_def)
  moreover have "\<not> is_digit c"
  proof
    assume d: "is_digit c"
    then have "re_lower R c = c" using assms(1) by (simp add: re_ok_def is_digit_def)
    with low d assms(2) show False by (auto simp: is_digit_def label_letter_def)
  qed
  ultimately show ?thesis ..
qed

lemma spells_letters:
  assumes "re_ok R" and "\<forall>a \<in> set w. label_letter a" and "spells U R w l"
  shows "\<forall>c \<in> set l. re_alnum R c \<and> \<not> is_digit c"
  using assms fold_letter unfolding spells_def
  by (metis (no_types, lifting) in_set_conv_nth list_all2_conv_all_nth)

lemma field_words_letters: "w \<in> set (field_words f) \<Longrightarrow> (\<forall>a \<in> set w. label_letter a) \<and> w \<noteq> []"
  by (cases f) (auto simp: u_def label_letter_def decisao_tilde_def decisoes_tilde_def)

lemma label_spelled_letters:
  assumes "re_ok R" and "label_spelled U R f l"
  shows "l \<noteq> [] \<and> (\<forall>c \<in> set l. re_alnum R c \<and> \<not> is_digit c)"
proof -
  obtain w where w: "w \<in> set (field_words f)" "spells U R w l" using assms(2) unfolding label_spelled_def by blast
  then show ?thesis
    using spells_letters [OF assms(1) _ w(2)] field_words_letters [OF w(1)] spells_length [OF w(2)] by auto
qed

lemma space_not_alnum: "re_ok R \<Longrightarrow> py_isspace c \<Longrightarrow> \<not> re_alnum R c \<and> c \<noteq> 95"
  by (auto simp: re_ok_def py_isspace_def)

lemma digit_alnum: "re_ok R \<Longrightarrow> is_digit c \<Longrightarrow> re_alnum R c"
  by (simp add: re_ok_def is_digit_def)

lemma space_not_digit: "py_isspace c \<Longrightarrow> \<not> is_digit c"
  by (auto simp: py_isspace_def is_digit_def)

lemma separates_chars:
  assumes "re_ok R" and "separates q"
  shows "q \<noteq> [] \<and> (\<forall>c \<in> set q. \<not> word_char R c \<and> \<not> is_digit c)"
proof -
  have c: "\<not> word_char R c \<and> \<not> is_digit c" if "c \<in> {58, 61} \<or> py_isspace c" for c
    using that assms(1) space_not_alnum [OF assms(1)] space_not_digit
    by (auto simp: word_char_def re_ok_def is_digit_def)
  show ?thesis using assms(2) c unfolding separates_def spaces_def list_all_iff by auto
qed

section \<open>Numbers beside labels\<close>

text \<open>
  Where two words meet: either the first ends inside the left part, or the second begins in the right part.
\<close>

lemma cut_append:
  assumes "m @ n = x @ y" and "m \<noteq> []" and "n \<noteq> []"
  shows "last m \<in> set x \<and> length m < length x \<or> hd n \<in> set y"
proof (cases "length m < length x")
  case True
  then obtain x' where "x = m @ x'" using assms(1) by (auto simp: append_eq_append_conv2)
  with True assms(2) show ?thesis by simp
next
  case False
  then obtain m' where "m = x @ m'" "y = m' @ n" using assms(1) by (auto simp: append_eq_append_conv2)
  with assms(3) show ?thesis by simp
qed

lemma number_before_label_no_overlap:
  assumes "re_ok R"
  shows "no_overlap U R (number_before_label (field_label f))"
  unfolding no_overlap_def
proof (intro allI impI, elim conjE)
  fix s t m n r
  assume t: "t \<in> set (run U R (number_before_label (field_label f)) s)"
    and c: "consumes s (m @ n) t" and ne: "m \<noteq> []" "n \<noteq> []"
  obtain ds ws l where d: "before_label_match U R f ds ws l" "consumes s (ds @ ws @ l) t"
    using t unfolding number_before_label_matches by blast
  have eq: "m @ n = ds @ ws @ l" using consumes_unique [OF c d(2)] .
  show "run U R (number_before_label (field_label f)) (rev m @ before s, n @ rest t, r) = []"
  proof (rule ccontr)
    assume "run U R (number_before_label (field_label f)) (rev m @ before s, n @ rest t, r) \<noteq> []"
    then obtain t' where "t' \<in> set (run U R (number_before_label (field_label f)) (rev m @ before s, n @ rest t, r))"
      by (meson last_in_set)
    then obtain ds' w' where d': "ascii_digits ds'" "n @ rest t = ds' @ w'" "unsigned_before R (rev (before s) @ m)"
      unfolding number_before_label_matches before_label_match_def by (auto simp: consumes_def)
    have "is_digit (hd n)" using d'(1,2) ne(2) by (cases n; cases ds') (auto simp: ascii_digits_def)
    moreover have "\<not> word_char R (last m)" using d'(3) ne(1) by (simp add: unsigned_before_def)
    moreover have "\<forall>c \<in> set ds. word_char R c" using d(1) digit_alnum [OF assms]
      by (auto simp: before_label_match_def ascii_digits_def list_all_iff word_char_def)
    moreover have "\<forall>c \<in> set (ws @ l). \<not> is_digit c"
      using d(1) label_spelled_letters [OF assms] space_not_digit
      by (auto simp: before_label_match_def spaces_def list_all_iff)
    ultimately show False using cut_append [OF eq ne] by blast
  qed
qed

lemma number_after_label_no_overlap:
  assumes "re_ok R"
  shows "no_overlap U R (number_after_label (field_label f))"
  unfolding no_overlap_def
proof (intro allI impI, elim conjE)
  fix s t m n r
  assume t: "t \<in> set (run U R (number_after_label (field_label f)) s)"
    and c: "consumes s (m @ n) t" and ne: "m \<noteq> []" "n \<noteq> []"
  obtain l q ds where d: "after_label_match U R f l q ds" "consumes s (l @ q @ ds) t"
    using t unfolding number_after_label_matches by blast
  have eq: "m @ n = l @ q @ ds" using consumes_unique [OF c d(2)] .
  show "run U R (number_after_label (field_label f)) (rev m @ before s, n @ rest t, r) = []"
  proof (rule ccontr)
    assume "run U R (number_after_label (field_label f)) (rev m @ before s, n @ rest t, r) \<noteq> []"
    then obtain t' where "t' \<in> set (run U R (number_after_label (field_label f)) (rev m @ before s, n @ rest t, r))"
      by (meson last_in_set)
    then obtain l' w' where d': "label_spelled U R f l'" "n @ rest t = l' @ w'" "closed_before R (rev (before s) @ m)"
      unfolding number_after_label_matches after_label_match_def by (auto simp: consumes_def)
    have "re_alnum R (hd n) \<and> \<not> is_digit (hd n)"
      using label_spelled_letters [OF assms d'(1)] d'(2) ne(2) by (cases n; cases l') auto
    moreover have "\<not> word_char R (last m)" using d'(3) ne(1) by (simp add: closed_before_def)
    moreover have "\<forall>c \<in> set l. word_char R c" using d(1) label_spelled_letters [OF assms]
      by (auto simp: after_label_match_def word_char_def)
    moreover have "\<forall>c \<in> set (q @ ds). \<not> re_alnum R c \<or> is_digit c"
      using d(1) separates_chars [OF assms]
      by (auto simp: after_label_match_def ascii_digits_def list_all_iff word_char_def)
    ultimately show False using cut_append [OF eq ne] by blast
  qed
qed

lemma takeWhile_run: "\<forall>c \<in> set m. P c \<Longrightarrow> z = [] \<or> \<not> P (hd z) \<Longrightarrow> takeWhile P (m @ z) = m"
  by (cases z) (auto simp: takeWhile_append)

lemma number_before_label_at:
  assumes "re_ok R"
  shows "matches_at U R (number_before_label (field_label f)) b r g \<longleftrightarrow>
    (\<exists>ws l z. r = g @ ws @ l @ z \<and> before_label_match U R f g ws l
       \<and> unsigned_before R (rev b) \<and> closed_after R z)"
proof -
  let ?p = "number_before_label (field_label f)"
  have digits: "takeWhile is_digit r = ds"
    if "before_label_match U R f ds ws l" "r = ds @ ws @ l @ z" for ds ws l z
    unfolding that(2) using that(1) space_not_digit
    by (intro takeWhile_run) (auto simp: before_label_match_def ascii_digits_def spaces_def list_all_iff hd_append)
  have mem: "t \<in> set (run U R ?p (b, r, [])) \<longleftrightarrow>
    (\<exists>ws l. before_label_match U R f (grp t) ws l \<and> consumes (b, r, []) (grp t @ ws @ l) t
       \<and> unsigned_before R (rev b) \<and> closed_after R (rest t))" for t
    unfolding number_before_label_matches by auto
  show ?thesis
  proof
    assume "matches_at U R ?p b r g"
    then have "hd (run U R ?p (b, r, [])) \<in> set (run U R ?p (b, r, []))"
      and "grp (hd (run U R ?p (b, r, []))) = g" by (simp_all add: matches_at_def)
    then show "\<exists>ws l z. r = g @ ws @ l @ z \<and> before_label_match U R f g ws l
       \<and> unsigned_before R (rev b) \<and> closed_after R z"
      unfolding mem consumes_def by fastforce
  next
    assume "\<exists>ws l z. r = g @ ws @ l @ z \<and> before_label_match U R f g ws l
       \<and> unsigned_before R (rev b) \<and> closed_after R z"
    then obtain ws l z where h: "r = g @ ws @ l @ z" "before_label_match U R f g ws l"
      "unsigned_before R (rev b)" "closed_after R z" by blast
    let ?t = "(rev (g @ ws @ l) @ b, z, g)"
    have "?t \<in> set (run U R ?p (b, r, []))" unfolding mem using h by (auto simp: consumes_def)
    then have ne: "run U R ?p (b, r, []) \<noteq> []" by auto
    then obtain ws' l' where "before_label_match U R f (grp (hd (run U R ?p (b, r, [])))) ws' l'"
      "r = grp (hd (run U R ?p (b, r, []))) @ ws' @ l' @ rest (hd (run U R ?p (b, r, [])))"
      using mem [of "hd (run U R ?p (b, r, []))"] by (auto simp: consumes_def)
    with digits h(1,2) ne show "matches_at U R ?p b r g" unfolding matches_at_def by metis
  qed
qed

lemma number_after_label_at:
  assumes "re_ok R"
  shows "matches_at U R (number_after_label (field_label f)) b r g \<longleftrightarrow>
    (\<exists>l q z. r = l @ q @ g @ z \<and> after_label_match U R f l q g
       \<and> closed_before R (rev b) \<and> closed_after R z)"
proof -
  let ?p = "number_after_label (field_label f)"
  have digits: "takeWhile is_digit (dropWhile (\<lambda>c. \<not> is_digit c) r) = ds"
    if m: "after_label_match U R f l q ds" and r: "r = l @ q @ ds @ z" and z: "closed_after R z" for l q ds z
  proof -
    have "\<forall>c \<in> set (l @ q). \<not> is_digit c"
      using m label_spelled_letters [OF assms] separates_chars [OF assms] by (auto simp: after_label_match_def)
    moreover have ds: "ds \<noteq> []" "\<forall>c \<in> set ds. is_digit c"
      using m by (auto simp: after_label_match_def ascii_digits_def list_all_iff)
    ultimately have "dropWhile (\<lambda>c. \<not> is_digit c) ((l @ q) @ ds @ z) = ds @ z"
      by (subst dropWhile_append2) (auto simp: dropWhile_append neq_Nil_conv)
    moreover have "z = [] \<or> \<not> is_digit (hd z)"
      using z digit_alnum [OF assms] by (auto simp: closed_after_def word_char_def)
    ultimately show ?thesis using takeWhile_run [of ds is_digit z] ds(2) by (simp add: r)
  qed
  have sep: "closed_after R (q @ x)" if "separates q" for q x
    using separates_chars [OF assms that] by (cases q) (auto simp: closed_after_def)
  have mem: "t \<in> set (run U R ?p (b, r, [])) \<longleftrightarrow>
    (\<exists>l q. after_label_match U R f l q (grp t) \<and> consumes (b, r, []) (l @ q @ grp t) t
       \<and> closed_before R (rev b) \<and> closed_after R (rest t))" for t
    unfolding number_after_label_matches using sep by (auto simp: after_label_match_def)
  show ?thesis
  proof
    assume "matches_at U R ?p b r g"
    then have "hd (run U R ?p (b, r, [])) \<in> set (run U R ?p (b, r, []))"
      and "grp (hd (run U R ?p (b, r, []))) = g" by (simp_all add: matches_at_def)
    then show "\<exists>l q z. r = l @ q @ g @ z \<and> after_label_match U R f l q g
       \<and> closed_before R (rev b) \<and> closed_after R z"
      unfolding mem consumes_def by fastforce
  next
    assume "\<exists>l q z. r = l @ q @ g @ z \<and> after_label_match U R f l q g
       \<and> closed_before R (rev b) \<and> closed_after R z"
    then obtain l q z where h: "r = l @ q @ g @ z" "after_label_match U R f l q g"
      "closed_before R (rev b)" "closed_after R z" by blast
    let ?t = "(rev (l @ q @ g) @ b, z, g)"
    have "?t \<in> set (run U R ?p (b, r, []))" unfolding mem using h by (auto simp: consumes_def)
    then have ne: "run U R ?p (b, r, []) \<noteq> []" by auto
    then obtain l' q' where "after_label_match U R f l' q' (grp (hd (run U R ?p (b, r, []))))"
      "r = l' @ q' @ grp (hd (run U R ?p (b, r, []))) @ rest (hd (run U R ?p (b, r, [])))"
      "closed_after R (rest (hd (run U R ?p (b, r, []))))"
      using mem [of "hd (run U R ?p (b, r, []))"] by (auto simp: consumes_def)
    with digits h(1,2,4) ne show "matches_at U R ?p b r g" unfolding matches_at_def by metis
  qed
qed

text \<open>
  The specification: a text mentions a number for a field when the number stands before or after a label of the
  field, apart from other words.
\<close>

definition mentioned_before :: "unicode_db \<Rightarrow> re_db \<Rightarrow> count_field \<Rightarrow> pystr \<Rightarrow> pystr \<Rightarrow> bool" where
  "mentioned_before U R f t ds \<longleftrightarrow>
     (\<exists>pre ws l post. t = pre @ ds @ ws @ l @ post \<and> before_label_match U R f ds ws l
        \<and> unsigned_before R pre \<and> closed_after R post)"

definition mentioned_after :: "unicode_db \<Rightarrow> re_db \<Rightarrow> count_field \<Rightarrow> pystr \<Rightarrow> pystr \<Rightarrow> bool" where
  "mentioned_after U R f t ds \<longleftrightarrow>
     (\<exists>pre l q post. t = pre @ l @ q @ ds @ post \<and> after_label_match U R f l q ds
        \<and> closed_before R pre \<and> closed_after R post)"

definition mentioned :: "unicode_db \<Rightarrow> re_db \<Rightarrow> count_field \<Rightarrow> pystr \<Rightarrow> pystr \<Rightarrow> bool" where
  "mentioned U R f t ds \<longleftrightarrow> mentioned_before U R f t ds \<or> mentioned_after U R f t ds"

lemma number_before_label_finds:
  assumes "re_ok R"
  shows "ds \<in> set (rx_finditer U R (number_before_label (field_label f)) t) \<longleftrightarrow> mentioned_before U R f t ds"
proof -
  have "0 < min_length (number_before_label (field_label f))"
    by (simp add: number_before_label_def rx_plus_def rx_digit_def)
  from finditer_exact [OF number_before_label_no_overlap [OF assms] this] show ?thesis
    unfolding number_before_label_at [OF assms] mentioned_before_def by fastforce
qed

lemma number_after_label_finds:
  assumes "re_ok R"
  shows "ds \<in> set (rx_finditer U R (number_after_label (field_label f)) t) \<longleftrightarrow> mentioned_after U R f t ds"
proof -
  have "0 < min_length (number_after_label (field_label f))"
    by (simp add: number_after_label_def rx_plus_def rx_digit_def)
  from finditer_exact [OF number_after_label_no_overlap [OF assms] this] show ?thesis
    unfolding number_after_label_at [OF assms] mentioned_after_def by fastforce
qed

lemma count_patterns_find:
  "re_ok R \<Longrightarrow> (\<exists>p \<in> set (COUNT_PATTERNS f). ds \<in> set (rx_finditer U R p t)) \<longleftrightarrow> mentioned U R f t ds"
  by (simp add: COUNT_PATTERNS_def number_before_label_finds number_after_label_finds mentioned_def)

text \<open>A unique match: every match converts, to one value, which is the result.\<close>

lemma unique_match_exact:
  assumes "unique_match U R ps t conv = Inr v"
  shows "\<forall>p \<in> set ps. \<forall>g \<in> set (rx_finditer U R p t). conv g = Inr v"
    and "(\<forall>p \<in> set ps. rx_finditer U R p t = []) \<Longrightarrow> v = None"
proof -
  let ?gs = "concat (map (\<lambda>p. rx_finditer U R p t) ps)"
  obtain vs where vs: "emap conv ?gs = Inr vs" "length (remdups vs) \<le> 1"
    and v: "v = (case vs of [] \<Rightarrow> None | x # _ \<Rightarrow> x)"
    using assms by (auto simp: unique_match_def ebind_eq_Inr split: if_splits)
  have all: "conv g = Inr v" if g: "g \<in> set ?gs" for g
  proof -
    have rel: "list_all2 (\<lambda>x y. conv x = Inr y) ?gs vs" using vs(1) by (simp only: emap_eq_Inr)
    obtain i where "i < length ?gs" "?gs ! i = g" using g unfolding in_set_conv_nth by blast
    with rel have y: "vs ! i \<in> set vs" "conv g = Inr (vs ! i)"
      by (auto simp: list_all2_conv_all_nth)
    then obtain x xs where "vs = x # xs" by (cases vs) auto
    moreover have "card (set vs) \<le> 1" using vs(2) by (simp add: length_remdups_card_conv)
    ultimately have "vs ! i = x" using y(1) card_le_Suc0_iff_eq [of "set vs"] by auto
    with y v \<open>vs = x # xs\<close> show ?thesis by simp
  qed
  show "\<forall>p \<in> set ps. \<forall>g \<in> set (rx_finditer U R p t). conv g = Inr v" using all by auto
  show "v = None" if "\<forall>p \<in> set ps. rx_finditer U R p t = []"
  proof -
    have "?gs = []" using that by (induction ps) auto
    with vs(1) v show ?thesis by simp
  qed
qed

lemma parse_count_token_Inr:
  "parse_count_token ds = Inr v \<longleftrightarrow>
     length ds \<le> 7 \<and> int (nat_of_digits ds) \<le> MAX_REPORT_COUNT \<and> v = Some (int (nat_of_digits ds))"
  by (auto simp: parse_count_token_def normalized_count_def split: if_splits)

text \<open>What a successful extraction of a count has read.\<close>

lemma parsed_count_exact:
  assumes "re_ok R" and "parsed_count U R t f = Inr v"
  shows "v = Some n \<longleftrightarrow> (\<exists>ds. mentioned U R f t ds \<and> n = int (nat_of_digits ds))"
proof -
  note um = unique_match_exact [OF assms(2) [unfolded parsed_count_def]]
  have each: "v = Some (int (nat_of_digits ds))" if "mentioned U R f t ds" for ds
    using um(1) that count_patterns_find [OF assms(1)] parse_count_token_Inr by blast
  moreover have "\<exists>ds. mentioned U R f t ds" if "v \<noteq> None"
  proof (rule ccontr)
    assume "\<nexists>ds. mentioned U R f t ds"
    then have "\<forall>p \<in> set (COUNT_PATTERNS f). rx_finditer U R p t = []"
      using count_patterns_find [OF assms(1), of f _ U t] by (meson last_in_set)
    with um(2) that show False by blast
  qed
  ultimately show ?thesis by (metis option.distinct(1) option.inject)
qed

section \<open>Refused texts\<close>

definition COUNT_WORDS :: "pystr list" where
  "COUNT_WORDS = [u ''presentes'', u ''presente'', u ''visitantes'', u ''visitante'',
     decisoes_tilde, decisao_tilde, u ''decisoes'', u ''decisao'']"

lemma field_words_count: "w \<in> set (field_words f) \<Longrightarrow> w \<in> set COUNT_WORDS"
  by (cases f) (auto simp: COUNT_WORDS_def)

text \<open>No word of the list is a prefix of a later one, so the first that matches is the longest.\<close>

lemma COUNT_WORDS_order: "sorted_wrt (\<lambda>v w. take (length v) w \<noteq> v) COUNT_WORDS"
  by (simp add: COUNT_WORDS_def decisoes_tilde_def decisao_tilde_def u_def)

lemma COUNT_WORDS_letters: "w \<in> set COUNT_WORDS \<Longrightarrow> \<forall>a \<in> set w. label_letter a"
  by (auto simp: COUNT_WORDS_def u_def label_letter_def decisao_tilde_def decisoes_tilde_def)

lemma fold_letter_unique:
  "label_letter a \<Longrightarrow> label_letter b \<Longrightarrow> one_matches U R (Fold a) c \<Longrightarrow> one_matches U R (Fold b) c \<Longrightarrow> a = b"
  by (auto simp: label_letter_def extra_cases_def split: if_splits)

lemma spells_unique:
  assumes "spells U R v l" and "spells U R w l" and "\<forall>a \<in> set v. label_letter a" and "\<forall>a \<in> set w. label_letter a"
  shows "v = w"
proof (rule nth_equalityI)
  show len: "length v = length w" using spells_length [OF assms(1)] spells_length [OF assms(2)] by simp
  fix i assume i: "i < length v"
  then show "v ! i = w ! i" using assms len fold_letter_unique [of "v ! i" "w ! i" U R "l ! i"]
    by (simp add: spells_def list_all2_conv_all_nth del: one_matches.simps)
qed

lemma spells_take: "spells U R w l \<Longrightarrow> spells U R (take n w) (take n l)"
  by (simp add: spells_def list_all2_takeI)

lemma run_fold_alts:
  "ws \<noteq> [] \<Longrightarrow> run U R (rx_alts (map rx_fold ws)) s = concat (map (\<lambda>w. run U R (rx_fold w) s) ws)"
  by (induction ws rule: induct_list012) auto

text \<open>On a closed label the atomic alternation consumes the whole label.\<close>

lemma count_label_at:
  assumes "re_ok R" and "label_spelled U R f l" and "closed_after R z"
  shows "run U R COUNT_LABEL (b, l @ z, g) = [(rev l @ b, z, g)]"
proof -
  obtain w where w: "w \<in> set COUNT_WORDS" "spells U R w l"
    using assms(2) field_words_count unfolding label_spelled_def by blast
  then obtain vs ws where ws: "COUNT_WORDS = vs @ w # ws" by (meson split_list)
  have "run U R (rx_fold v) (b, l @ z, g) = []" if v: "v \<in> set vs" for v
  proof (rule ccontr)
    assume "run U R (rx_fold v) (b, l @ z, g) \<noteq> []"
    then have m: "length v \<le> length (l @ z)" "spells U R v (take (length v) (l @ z))"
      by (auto simp: run_fold split: if_splits)
    have letters: "\<forall>a \<in> set v. label_letter a" "\<forall>a \<in> set w. label_letter a"
      using COUNT_WORDS_letters [of v] COUNT_WORDS_letters [OF w(1)] v by (simp_all add: ws)
    show False
    proof (cases "length v \<le> length l")
      case True
      then have "spells U R v (take (length v) l)" using m(2) by simp
      moreover have "spells U R (take (length v) w) (take (length v) l)" by (rule spells_take [OF w(2)])
      ultimately have "v = take (length v) w"
        using spells_unique letters by (metis in_set_takeD)
      moreover have "take (length v) w \<noteq> v"
        using COUNT_WORDS_order v by (auto simp: ws sorted_wrt_append)
      ultimately show False by simp
    next
      case False
      then obtain c z' where z: "z = c # z'" using m(1) by (cases z) auto
      have "c \<in> set (take (length v) (l @ z))" using False by (simp add: z take_Cons')
      then have "re_alnum R c" using spells_letters [OF assms(1) letters(1) m(2)] by blast
      then show False using assms(3) by (simp add: z closed_after_def word_char_def)
    qed
  qed
  then have vs: "concat (map (\<lambda>w. run U R (rx_fold w) (b, l @ z, g)) vs) = []" by simp
  have label: "COUNT_LABEL = RxAtomic (rx_alts (map rx_fold COUNT_WORDS))"
    by (simp add: COUNT_LABEL_def COUNT_WORDS_def)
  have "run U R (rx_alts (map rx_fold COUNT_WORDS)) (b, l @ z, g) =
      (rev l @ b, z, g) # concat (map (\<lambda>w. run U R (rx_fold w) (b, l @ z, g)) ws)"
    unfolding ws using run_fold_alts [of "vs @ w # ws" U R "(b, l @ z, g)"] vs run_fold_spells [OF w(2), of b z g]
    by simp
  then show ?thesis unfolding label run.simps by (simp only: take_Suc_Cons take_0 One_nat_def)
qed

text \<open>
  A text with a negative number: a minus sign, in any of its forms, before the number beside a label.
\<close>

definition negative_gap :: "pystr \<Rightarrow> bool" where
  "negative_gap q \<longleftrightarrow> list_all py_isspace q \<or> separates q"

definition negative_mention :: "unicode_db \<Rightarrow> re_db \<Rightarrow> count_field \<Rightarrow> pystr \<Rightarrow> bool" where
  "negative_mention U R f t \<longleftrightarrow>
     (\<exists>pre sign a ds c l post. t = pre @ sign # a @ ds @ c @ l @ post \<and> sign \<in> set NEGATIVE_SIGNS
        \<and> list_all py_isspace a \<and> ascii_digits ds \<and> list_all py_isspace c
        \<and> label_spelled U R f l \<and> closed_after R post)
   \<or> (\<exists>pre l q sign a ds post. t = pre @ l @ q @ sign # a @ ds @ post \<and> closed_before R pre
        \<and> label_spelled U R f l \<and> closed_after R (q @ sign # a) \<and> negative_gap q
        \<and> sign \<in> set NEGATIVE_SIGNS \<and> list_all py_isspace a \<and> ascii_digits ds)"

lemma in_run_sign [rx_sets]:
  "t \<in> set (run U R rx_negative s) \<longleftrightarrow> (\<exists>c \<in> set NEGATIVE_SIGNS. consumes s [c] t \<and> grp t = grp s)"
  unfolding rx_negative_def in_run_one by (auto simp: sign_in_class)

lemma negative_found:
  assumes R: "re_ok R" and "negative_mention U R f t"
  shows "rx_search U R NEGATIVE_COUNT_PATTERN t \<noteq> None"
  using assms(2) unfolding negative_mention_def
proof (elim disjE exE conjE)
  fix pre sign a ds c l post
  assume t: "t = pre @ sign # a @ ds @ c @ l @ post" and h: "sign \<in> set NEGATIVE_SIGNS" "list_all py_isspace a"
    "ascii_digits ds" "list_all py_isspace c" "label_spelled U R f l" "closed_after R post"
  let ?s0 = "(rev pre, sign # a @ ds @ c @ l @ post, [])"
  let ?s1 = "(sign # rev pre, a @ ds @ c @ l @ post, [])"
  let ?s2 = "(rev a @ sign # rev pre, ds @ c @ l @ post, [])"
  let ?s3 = "(rev ds @ rev a @ sign # rev pre, c @ l @ post, [])"
  let ?s4 = "(rev c @ rev ds @ rev a @ sign # rev pre, l @ post, [])"
  let ?s5 = "(rev l @ rev c @ rev ds @ rev a @ sign # rev pre, post, [])"
  have "?s1 \<in> set (run U R rx_negative ?s0)" "?s2 \<in> set (run U R (RxStar rx_space) ?s1)"
    "?s3 \<in> set (run U R (rx_plus rx_digit) ?s2)" "?s4 \<in> set (run U R (RxStar rx_space) ?s3)"
    "?s5 \<in> set (run U R COUNT_LABEL ?s4)" "?s5 \<in> set (run U R not_word_ahead ?s5)"
    using h count_label_at [OF R h(5,6)]
    unfolding in_run_sign in_run_any_spaces in_run_digits in_run_closed_ahead by (auto simp: consumes_def)
  then have "?s5 \<in> set (run U R NEGATIVE_COUNT_PATTERN ?s0)"
    unfolding NEGATIVE_COUNT_PATTERN_def rx_seqs.simps in_run_alt by (blast intro: in_run_seqI)
  then show ?thesis unfolding t by (intro rx_search_complete) auto
next
  fix pre l q sign a ds post
  assume t: "t = pre @ l @ q @ sign # a @ ds @ post" and h: "closed_before R pre" "label_spelled U R f l"
    "closed_after R (q @ sign # a)" "sign \<in> set NEGATIVE_SIGNS" "list_all py_isspace a" "ascii_digits ds"
    and q: "negative_gap q"
  let ?r = "sign # a @ ds @ post"
  have c: "closed_after R (q @ ?r)" using h(3) by (cases q) (auto simp: closed_after_def)
  let ?s0 = "(rev pre, l @ q @ ?r, [])" and ?s1 = "(rev l @ rev pre, q @ ?r, [])"
  let ?s2 = "(rev q @ rev l @ rev pre, ?r, [])" and ?s3 = "(sign # rev q @ rev l @ rev pre, a @ ds @ post, [])"
  let ?s4 = "(rev a @ sign # rev q @ rev l @ rev pre, ds @ post, [])"
  let ?s5 = "(rev ds @ rev a @ sign # rev q @ rev l @ rev pre, post, [])"
  have "?s0 \<in> set (run U R not_word_behind ?s0)" "?s1 \<in> set (run U R COUNT_LABEL ?s0)"
    "?s1 \<in> set (run U R not_word_ahead ?s1)" "?s3 \<in> set (run U R rx_negative ?s2)"
    "?s4 \<in> set (run U R (RxStar rx_space) ?s3)" "?s5 \<in> set (run U R (rx_plus rx_digit) ?s4)"
    using h c count_label_at [OF R h(2) c]
    unfolding in_run_closed_behind in_run_closed_ahead in_run_sign in_run_any_spaces in_run_digits
    by (auto simp: consumes_def)
  moreover have "?s2 \<in> set (run U R negative_separator ?s1)"
  proof (cases "list_all py_isspace q")
    case True
    then have "?s2 \<in> set (run U R (RxStar rx_space) ?s1)" unfolding in_run_any_spaces by (auto simp: consumes_def)
    then show ?thesis unfolding negative_separator_def rx_opt_def by (rule in_run_seqI) simp
  next
    case False
    then obtain x k y where k: "q = x @ k # y" "k \<in> {58, 61}" "list_all py_isspace x" "list_all py_isspace y"
      using q unfolding negative_gap_def separates_def spaces_def by blast
    let ?v = "(rev x @ rev l @ rev pre, k # y @ ?r, [])" and ?w = "(k # rev x @ rev l @ rev pre, y @ ?r, [])"
    have "?v \<in> set (run U R (RxStar rx_space) ?s1)" "?w \<in> set (run U R rx_colon ?v)"
      "?s2 \<in> set (run U R (RxStar rx_space) ?w)"
      using k unfolding in_run_any_spaces rx_colon_def in_run_one by (auto simp: consumes_def)
    then show ?thesis unfolding negative_separator_def rx_opt_def in_run_seq in_run_alt by blast
  qed
  ultimately have "?s5 \<in> set (run U R NEGATIVE_COUNT_PATTERN ?s0)"
    unfolding NEGATIVE_COUNT_PATTERN_def COUNT_LABEL_CLOSED_def rx_seqs.simps in_run_alt
    by (blast intro: in_run_seqI)
  then show ?thesis unfolding t by (intro rx_search_complete) auto
qed

section \<open>The parsed candidate\<close>

fun count_of :: "count_field \<Rightarrow> candidate \<Rightarrow> int option" where
  "count_of Presentes c = presentes c"
| "count_of Visitantes c = visitantes c"
| "count_of Decisoes c = decisoes c"

lemma refuse_match_Inr [result_simps]: "refuse_match U R p t e = Inr x \<longleftrightarrow> rx_search U R p t = None"
  by (simp add: refuse_match_def del: split_paired_Ex split_paired_All not_None_eq)

lemma normalized_count_py_of_int: "normalized_count (py_of_int x) = Inr y \<Longrightarrow> y = x"
  by (cases x; cases y) (auto simp: normalized_count_result)

text \<open>What a successful parse has gone through.\<close>

lemma parse_steps:
  assumes "parse_cell_report_candidate U R v = Inr c"
  obtains t a where "normalized_text U R v = Inr t"
    and "rx_search U R NEGATIVE_COUNT_PATTERN t = None"
    and "\<And>f. parsed_count U R t f = Inr (count_of f c)"
    and "build_cell_report_candidate U (py_of_int (presentes c)) (py_of_int (visitantes c)) (py_of_int (decisoes c))
           (py_of_str a) (py_of_str (parsed_observation U R t)) = Inr c"
proof -
  obtain t p q d a where t: "normalized_text U R v = Inr t"
    and n: "rx_search U R NEGATIVE_COUNT_PATTERN t = None"
    and pc: "parsed_count U R t Presentes = Inr p" "parsed_count U R t Visitantes = Inr q"
      "parsed_count U R t Decisoes = Inr d"
    and b: "build_cell_report_candidate U (py_of_int p) (py_of_int q) (py_of_int d)
           (py_of_str a) (py_of_str (parsed_observation U R t)) = Inr c"
    using assms unfolding parse_cell_report_candidate_def result_simps by blast
  have eqs: "presentes c = p" "visitantes c = q" "decisoes c = d"
    using b by (auto simp: build_cell_report_candidate_def result_simps dest!: normalized_count_py_of_int)
  have "parsed_count U R t f = Inr (count_of f c)" for f
    using pc eqs by (cases f) simp_all
  then show thesis using that [OF t n _ b [folded eqs]] by blast
qed

text \<open>
  The normalised text is in normalization form C, and so is the observation cut out of it: the gap between the
  length check of an observation and its normalization is not reachable from a message.
\<close>

lemma normalized_text_nfc:
  assumes "unicode_ok U" and "normalized_text U R v = Inr t"
  shows "ud_nfc U t = t"
proof -
  have "ud_nfc U [] = []" using nfc_ascii [OF assms(1), of "[]"] by simp
  then show ?thesis using assms(2) nfc_idem [OF assms(1)]
    by (auto simp: normalized_text_def Let_def result_simps split: py.splits if_splits)
qed

lemma parsed_observation_nfc:
  assumes U: "unicode_ok U" and t: "ud_nfc U t = t" and o: "parsed_observation U R t = Some s"
  shows "ud_nfc U s = s"
proof -
  have sub: "ud_nfc U m = m" if "t = x @ m @ y" for x m y
  proof -
    have "ud_nfc U (take (length m) (drop (length x) t)) = take (length m) (drop (length x) t)"
      using U t unfolding unicode_ok_def by blast
    then show ?thesis by (simp add: that)
  qed
  obtain e where e: "rx_search U R OBSERVATIONS_PATTERN t = Some e" and s: "grp e = s"
    using o by (auto simp: parsed_observation_def)
  obtain pre r where pr: "t = pre @ r" "e \<in> set (run U R OBSERVATIONS_PATTERN (rev pre, r, []))"
    using rx_search_consumes [OF e] by blast
  then obtain x y where x: "\<exists>m. consumes (rev pre, r, []) m x"
    and y: "y \<in> set (run U R (RxGroup (RxStar (RxOne AnyChar))) x)" and ey: "e \<in> set (run U R RxEnd y)"
    unfolding OBSERVATIONS_PATTERN_def rx_seqs.simps
    by (elim in_run_seqE) (meson run_split consumes_trans)
  have "e = y" using ey by (auto split: prod.splits if_splits)
  obtain v where v: "v \<in> set (run U R (RxStar (RxOne AnyChar)) x)"
    and y2: "y = (before v, rest v, captured (rest x) (rest v))" using y unfolding in_run_group by blast
  obtain m where m: "consumes x m v" using run_split [OF v] by blast
  then have "s = m" using s \<open>e = y\<close> y2 captured_consumes [OF m] by simp
  moreover obtain k where "r = k @ rest x" using x by (auto simp: consumes_def)
  ultimately have "t = (pre @ k) @ s @ rest v" using pr(1) m by (simp add: consumes_def)
  then show ?thesis by (rule sub)
qed

lemma py_strip_length: "length (py_strip s) \<le> length s"
  unfolding py_strip_def by (metis length_dropWhile_le length_rev order_trans)

lemma parsed_ok:
  assumes U: "unicode_ok U" and c: "parse_cell_report_candidate U R v = Inr c"
  shows "candidate_ok U c"
proof -
  obtain t a where t: "normalized_text U R v = Inr t"
    and b: "build_cell_report_candidate U (py_of_int (presentes c)) (py_of_int (visitantes c)) (py_of_int (decisoes c))
           (py_of_str a) (py_of_str (parsed_observation U R t)) = Inr c"
    using parse_steps [OF c] by metis
  show ?thesis
  proof (rule build_ok [OF U b])
    fix s assume s: "observacoes c = Some s"
    have n: "normalize_observations U (py_of_str (parsed_observation U R t)) = Inr (Some s)"
      using build_result [OF U b] s by simp
    then obtain s0 where s0: "parsed_observation U R t = Some s0"
      by (cases "parsed_observation U R t") (simp_all add: normalize_observations_def)
    have "ud_nfc U s0 = s0" by (rule parsed_observation_nfc [OF U normalized_text_nfc [OF U t] s0])
    with n s0 have "s = py_strip s0" "length s0 \<le> MAX_REPORT_OBSERVATIONS_LENGTH"
      by (auto simp: normalize_observations_def Let_def result_simps split: if_splits)
    then show "length s \<le> MAX_REPORT_OBSERVATIONS_LENGTH" using py_strip_length [of s0] by simp
  qed
qed

section \<open>A message\<close>

lemmas rx_eval = rx_search_def search.simps star_run.simps rx_opt_def rx_plus_def rx_fold_def captured_def
  rx_word_def rx_space_def rx_digit_def not_word_behind_def not_word_ahead_def rx_negative_def rx_colon_def
  rx_point_def rx_point_slash_def decisao_tilde_def decisoes_tilde_def negative_sign_class_def NEGATIVE_SIGNS_def
  COUNT_LABEL_def COUNT_LABEL_CLOSED_def OFFERING_LABEL_def OFFERING_LABEL_CLOSED_def WORD_NON_DIGIT_def
  GLUED_NUMBER_TOKEN_def money_char_def GLUED_MONEY_TOKEN_def label_separator_def negative_separator_def
  loose_separator_def latin_re_def ascii_db_def u_def word_char_def extra_cases_def py_isspace_def
  one_or_two_digits_def one_to_three_digits_def thousands_rx_def MONEY_BODY_def money_end_def rx_real_def
  currency_def currency_spaced_def MONEY_TOKEN_def OPTIONAL_REAL_SUFFIX_def

definition sample_text :: pystr where
  "sample_text = u ''5 presente''"

lemma sample_negative_count: "rx_search ascii_db latin_re NEGATIVE_COUNT_PATTERN sample_text = None"
  unfolding NEGATIVE_COUNT_PATTERN_def sample_text_def by (simp add: rx_eval)

lemma sample_negative_offering: "rx_search ascii_db latin_re NEGATIVE_OFFERING_PATTERN sample_text = None"
  unfolding NEGATIVE_OFFERING_PATTERN_def sample_text_def by (rule rx_search_alts) (simp_all add: rx_eval)

lemma sample_malformed_count: "rx_search ascii_db latin_re MALFORMED_COUNT_TOKEN_PATTERN sample_text = None"
  unfolding MALFORMED_COUNT_TOKEN_PATTERN_def sample_text_def by (rule rx_search_alts) (simp_all add: rx_eval)

lemma sample_malformed_offering: "rx_search ascii_db latin_re MALFORMED_OFFERING_TOKEN_PATTERN sample_text = None"
  unfolding MALFORMED_OFFERING_TOKEN_PATTERN_def sample_text_def by (rule rx_search_alts) (simp_all add: rx_eval)

lemma sample_counts:
  "parsed_count ascii_db latin_re sample_text Presentes = Inr (Some 5)"
  "parsed_count ascii_db latin_re sample_text Visitantes = Inr None"
  "parsed_count ascii_db latin_re sample_text Decisoes = Inr None"
  unfolding parsed_count_def unique_match_def COUNT_PATTERNS_def number_before_label_def number_after_label_def
    sample_text_def rx_finditer_def
  by (simp_all add: rx_eval finditer.simps parse_count_token_def nat_of_digits.simps normalized_count_def report_limits)

lemma sample_text_offering:
  "unique_match ascii_db latin_re OFFERING_PATTERNS sample_text (\<lambda>m. canonical_report_offering ascii_db (PyStr m)) = Inr None"
  unfolding unique_match_def OFFERING_PATTERNS_def sample_text_def rx_finditer_def
  by (simp add: rx_eval finditer.simps)

lemma sample_observation: "parsed_observation ascii_db latin_re sample_text = None"
  unfolding parsed_observation_def OBSERVATIONS_PATTERN_def sample_text_def by (simp add: rx_eval)

lemma sample_normalized: "normalized_text ascii_db latin_re (PyStr sample_text) = Inr sample_text"
  by (simp add: normalized_text_def sample_text_def normalize_newlines_id report_limits utf8_bytes_def utf8_char_def
      ascii_db_def latin_re_def u_def)

definition sample_parsed :: candidate where
  "sample_parsed = \<lparr>presentes = Some 5, visitantes = None, decisoes = None, oferta = None, observacoes = None\<rparr>"

lemma sample_parse: "parse_cell_report_candidate ascii_db latin_re (PyStr sample_text) = Inr sample_parsed"
  by (simp add: parse_cell_report_candidate_def sample_normalized refuse_match_def sample_negative_count
      sample_negative_offering sample_malformed_count sample_malformed_offering sample_counts sample_text_offering
      sample_observation build_cell_report_candidate_def sample_parsed_def normalized_count_def report_limits py_of_int_def
      py_of_str_def)

definition over_limit_text :: pystr where
  "over_limit_text = u ''1000001 presente''"

lemma over_limit_accepted:
  "rx_search ascii_db latin_re NEGATIVE_COUNT_PATTERN over_limit_text = None"
  "rx_search ascii_db latin_re NEGATIVE_OFFERING_PATTERN over_limit_text = None"
  "rx_search ascii_db latin_re MALFORMED_COUNT_TOKEN_PATTERN over_limit_text = None"
  "rx_search ascii_db latin_re MALFORMED_OFFERING_TOKEN_PATTERN over_limit_text = None"
  unfolding NEGATIVE_COUNT_PATTERN_def NEGATIVE_OFFERING_PATTERN_def MALFORMED_COUNT_TOKEN_PATTERN_def
    MALFORMED_OFFERING_TOKEN_PATTERN_def over_limit_text_def
  subgoal by (simp add: rx_eval)
  subgoal by (rule rx_search_alts) (simp_all add: rx_eval)
  subgoal by (rule rx_search_alts) (simp_all add: rx_eval)
  subgoal by (rule rx_search_alts) (simp_all add: rx_eval)
  done

lemma over_limit_count: "parsed_count ascii_db latin_re over_limit_text Presentes = Inl INVALID_COUNT"
  unfolding parsed_count_def unique_match_def COUNT_PATTERNS_def number_before_label_def number_after_label_def
    over_limit_text_def rx_finditer_def
  by (simp add: rx_eval finditer.simps parse_count_token_def nat_of_digits.simps normalized_count_def report_limits)

lemma over_limit_normalized: "normalized_text ascii_db latin_re (PyStr over_limit_text) = Inr over_limit_text"
  by (simp add: normalized_text_def over_limit_text_def normalize_newlines_id report_limits utf8_bytes_def utf8_char_def
      ascii_db_def latin_re_def u_def)

section \<open>Properties\<close>

text \<open>
  C34. The counts of a parsed message are exactly the ones its text mentions: a field has the count \<open>n\<close>
  when, and only when, a number of value \<open>n\<close> stands before or after one of the labels of the field, apart from other
  words.  No mention is overlooked or overruled, nothing is invented, and two mentions of a
  field agree.
\<close>

theorem parsed_counts_exact:
  assumes "re_ok R" and "parse_cell_report_candidate U R v = Inr c" and "normalized_text U R v = Inr t"
  shows "count_of f c = Some n \<longleftrightarrow> (\<exists>ds. mentioned U R f t ds \<and> n = int (nat_of_digits ds))"
proof -
  have "parsed_count U R t f = Inr (count_of f c)"
    using parse_steps [OF assms(2)] assms(3) by (metis sum.inject(2))
  then show ?thesis by (rule parsed_count_exact [OF assms(1)])
qed

theorem parsed_counts_exact_witness:
  "(\<exists>ds. mentioned ascii_db latin_re Presentes sample_text ds \<and> 5 = nat_of_digits ds)
     \<and> (\<nexists>ds. mentioned ascii_db latin_re Visitantes sample_text ds)"
proof
  have "\<exists>ds. mentioned ascii_db latin_re Presentes sample_text ds \<and> 5 = int (nat_of_digits ds)"
    using parsed_counts_exact [OF latin_re_ok sample_parse sample_normalized, of Presentes 5]
    by (simp add: sample_parsed_def)
  then show "\<exists>ds. mentioned ascii_db latin_re Presentes sample_text ds \<and> 5 = nat_of_digits ds" by force
  show "\<nexists>ds. mentioned ascii_db latin_re Visitantes sample_text ds"
    using parsed_counts_exact [OF latin_re_ok sample_parse sample_normalized, of Visitantes]
    by (auto simp: sample_parsed_def)
qed

text \<open>
  A negative count is never read as a positive one: a message in which a minus sign, in any of its typographic
  forms, precedes the number beside a label is refused with \<open>INVALID_COUNT\<close>, whatever else it says.
\<close>

theorem negative_count_refused:
  assumes "re_ok R" and "normalized_text U R v = Inr t" and "negative_mention U R f t"
  shows "parse_cell_report_candidate U R v = Inl INVALID_COUNT"
  using negative_found [OF assms(1,3)] assms(2)
  by (auto simp: parse_cell_report_candidate_def refuse_match_def)

theorem negative_count_refused_witness:
  "parse_cell_report_candidate ascii_db latin_re (PyStr (45 # sample_text)) = Inl INVALID_COUNT"
proof -
  have n: "normalized_text ascii_db latin_re (PyStr (45 # sample_text)) = Inr (45 # sample_text)"
    by (simp add: normalized_text_def sample_text_def normalize_newlines_id report_limits utf8_bytes_def utf8_char_def
        ascii_db_def latin_re_def u_def)
  have l: "label_spelled ascii_db latin_re Presentes (u ''presente'')"
    by (simp add: label_spelled_def spells_def latin_re_def u_def)
  have "negative_mention ascii_db latin_re Presentes (45 # sample_text)"
    unfolding negative_mention_def
    by (rule disjI1, rule exI [of _ "[]"], rule exI [of _ 45], rule exI [of _ "[]"], rule exI [of _ "u ''5''"],
        rule exI [of _ "u '' ''"], rule exI [of _ "u ''presente''"], rule exI [of _ "[]"])
      (use l in \<open>simp add: sample_text_def u_def NEGATIVE_SIGNS_def ascii_digits_def is_digit_def py_isspace_def
         closed_after_def\<close>)
  then show ?thesis by (rule negative_count_refused [OF latin_re_ok n])
qed

text \<open>
  A parsed candidate is a valid candidate: the validation every later operation begins with accepts it unchanged, and the
  difference between the length of an observation before and after normalization cannot arise from a message.
\<close>

theorem parsed_candidate_valid:
  assumes "unicode_ok U" and "parse_cell_report_candidate U R v = Inr c"
  shows "validate_candidate U c = Inr c"
  by (rule validate_candidate_ok [OF assms(1) parsed_ok [OF assms]])

theorem parsed_candidate_valid_witness: "validate_candidate ascii_db sample_parsed = Inr sample_parsed"
  by (rule parsed_candidate_valid [OF ascii_db_ok sample_parse])

text \<open>
  A correction by message changes what the message says and nothing else: the revised workflow has, for each count the text
  mentions, the mentioned number, keeps every other count, and succeeds the proposal it corrects by one revision.
\<close>

theorem text_revision_exact:
  assumes U: "unicode_ok U" and R: "re_ok R"
    and r: "revise_cell_report_workflow_from_text U R w v = Inr w'" and t: "normalized_text U R v = Inr t"
  shows "(\<forall>ds. mentioned U R f t ds \<longrightarrow> count_of f (wf_candidate w') = Some (int (nat_of_digits ds)))
    \<and> ((\<nexists>ds. mentioned U R f t ds) \<longrightarrow> count_of f (wf_candidate w') = count_of f (wf_candidate w))
    \<and> revision w' = PyInt (py_int (revision w) + 1) \<and> previous_proposal_digest w' = proposal_digest w"
proof -
  obtain patch merged where w: "validate_cell_report_workflow U w = Inr w"
    and p: "parse_cell_report_candidate U R v = Inr patch"
    and m: "merge_cell_report_candidates U (wf_candidate w) patch = Inr merged"
    and rw: "revise_cell_report_workflow U w merged = Inr w'"
    using r validate_iff [OF U]
    by (auto simp: revise_cell_report_workflow_from_text_def result_simps split: if_splits)
  have ok: "workflow_ok U w" using w validate_iff [OF U] by blast
  obtain s n b q st a where wm: "w = minted s n b q st a" "wf_parts U s n b q st a"
    using ok by (auto simp: workflow_ok_def)
  have b: "candidate_ok U b" using wm(2) by (rule wf_partsD)
  have merged: "merged = overlay_candidate patch b"
    using m merge_ok [OF U b parsed_ok [OF U p]] by (simp add: wm(1))
  have "candidate_ok U merged" unfolding merged by (rule overlay_candidate_ok [OF parsed_ok [OF U p] b])
  from revise_minted [OF U wm(2) this] rw have w': "w' = minted s (n + 1) merged (Some (proposal_of s n b q)) (open_state merged) None"
    by (simp add: wm(1) split: if_splits)
  have pc: "parsed_count U R t f = Inr (count_of f patch)"
    using parse_steps [OF p] t by (metis sum.inject(2))
  have o: "count_of f (wf_candidate w') = overlay (count_of f patch) (count_of f (wf_candidate w))"
    by (cases f) (simp_all add: w' wm(1) merged overlay_candidate_def)
  have "count_of f patch = Some (int (nat_of_digits ds))" if "mentioned U R f t ds" for ds
    using parsed_count_exact [OF R pc] that by blast
  moreover have "count_of f patch = None" if "\<nexists>ds. mentioned U R f t ds"
    using parsed_count_exact [OF R pc] that by (metis not_Some_eq)
  ultimately show ?thesis unfolding o by (auto simp: overlay_def w' wm(1))
qed

theorem text_revision_exact_witness:
  "\<exists>w'. revise_cell_report_workflow_from_text ascii_db latin_re sample_workflow (PyStr sample_text) = Inr w'
     \<and> count_of Presentes (wf_candidate w') = Some 5
     \<and> count_of Visitantes (wf_candidate w') = count_of Visitantes (wf_candidate sample_workflow)
     \<and> revision w' = PyInt 2"
proof -
  have sp: "candidate_ok ascii_db sample_parsed" by (rule parsed_ok [OF ascii_db_ok sample_parse])
  have sc: "candidate_ok ascii_db sample_candidate" using sample_candidates_ok by simp
  obtain w' where "revise_cell_report_workflow ascii_db sample_workflow (overlay_candidate sample_parsed sample_candidate) = Inr w'"
    using revise_minted [OF ascii_db_ok sample_parts overlay_candidate_ok [OF sp sc]]
    by (auto simp: sample_workflow_def report_limits REVISION_ALLOWED_REPORT_STATES_def)
  then have w': "revise_cell_report_workflow_from_text ascii_db latin_re sample_workflow (PyStr sample_text) = Inr w'"
    using merge_ok [OF ascii_db_ok sc sp] sample_validates sample_workflow_ok(2) sample_parse
    by (simp add: revise_cell_report_workflow_from_text_def REVISION_ALLOWED_REPORT_STATES_def sample_workflow_def
        is_empty_def sample_parsed_def)
  note x = text_revision_exact [OF ascii_db_ok latin_re_ok w' sample_normalized]
  have m: "\<exists>ds. mentioned ascii_db latin_re Presentes sample_text ds \<and> 5 = int (nat_of_digits ds)"
    using parsed_count_exact [OF latin_re_ok sample_counts(1), of 5] by simp
  have n: "\<nexists>ds. mentioned ascii_db latin_re Visitantes sample_text ds"
    using parsed_count_exact [OF latin_re_ok sample_counts(2)] by auto
  show ?thesis using w' m n x [of Presentes] x [of Visitantes]
    by (intro exI [of _ w']) (auto simp: sample_workflow_def)
qed

text \<open>
  A count above the limit is reported differently by the two entrances: the builder answers
  \<open>COUNT_LIMIT_EXCEEDED\<close>, but in a message of up to seven digits that error is raised inside a \<open>try\<close> whose \<open>except
  ValueError\<close> catches it, and the answer is \<open>INVALID_COUNT\<close>.
\<close>

theorem count_limit_misreported:
  "\<exists>text n. parse_cell_report_candidate ascii_db latin_re (PyStr text) = Inl INVALID_COUNT
     \<and> mentioned ascii_db latin_re Presentes text n
     \<and> normalized_count (PyInt (int (nat_of_digits n))) = Inl COUNT_LIMIT_EXCEEDED"
proof (intro exI conjI)
  show "parse_cell_report_candidate ascii_db latin_re (PyStr over_limit_text) = Inl INVALID_COUNT"
    by (simp add: parse_cell_report_candidate_def over_limit_normalized refuse_match_def over_limit_accepted over_limit_count)
  have l: "label_spelled ascii_db latin_re Presentes (u ''presente'')"
    by (simp add: label_spelled_def spells_def latin_re_def u_def)
  show "mentioned ascii_db latin_re Presentes over_limit_text (u ''1000001'')"
    unfolding mentioned_def mentioned_before_def before_label_match_def
    by (rule disjI1, rule exI [of _ "[]"], rule exI [of _ "u '' ''"], rule exI [of _ "u ''presente''"], rule exI [of _ "[]"])
      (use l in \<open>simp add: over_limit_text_def u_def ascii_digits_def is_digit_def spaces_def py_isspace_def
         unsigned_before_def closed_after_def\<close>)
  show "normalized_count (PyInt (int (nat_of_digits (u ''1000001'')))) = Inl COUNT_LIMIT_EXCEEDED"
    by (simp add: u_def nat_of_digits.simps normalized_count_def report_limits)
qed

end
