(* ===== verification/ReportSnapshot.thy ===== *)
theory ReportSnapshot
  imports ReportCandidate
begin

text \<open>
  The aggregate snapshot \<open>cell-report/v2\<close> of \<open>domain/cell_report_snapshot.py\<close>: its money and
  observation normalisers (independent of those of the workflow), the typed view with its
  construction checks, the builder, the JSON projection and the validator of an untrusted JSON
  value.  The closing lemmas relate the three and connect them to the workflow's candidates.
\<close>

section \<open>Vocabulary\<close>

datatype snapshot_error =
    INVALID_SNAPSHOT
  | UNSUPPORTED_SCHEMA
  | INVALID_TOTALS
  | INVALID_TOTAL
  | INVALID_OFFER
  | INVALID_OBSERVACOES
  | INVALID_SUBMISSION_EFFECT_ID
  | INVALID_SUBMISSION_PAYLOAD_DIGEST
  | INDIVIDUAL_DATA_FORBIDDEN

definition MAX_MONEY_INPUT_LENGTH :: nat where "MAX_MONEY_INPUT_LENGTH = 64"
definition snapshot_schema :: pystr where "snapshot_schema = u ''cell-report/v2''"
definition effect_id_prefix :: pystr where "effect_id_prefix = u ''agent_effect_v1_''"
definition payload_digest_prefix :: pystr where "payload_digest_prefix = u ''agent_payload_v1_''"

definition TOTAL_KEYS :: "pystr list" where
  "TOTAL_KEYS = map u [''presentes'', ''visitantes'', ''decisoes'']"

definition INDIVIDUAL_ARRAY_KEYS :: "pystr list" where
  "INDIVIDUAL_ARRAY_KEYS = map u [''presencas'', ''visitantes'', ''records'']"

definition SNAPSHOT_KEYS :: "pystr list" where
  "SNAPSHOT_KEYS = map u [''schema'', ''totals'', ''oferta_valor'', ''observacoes'',
     ''submission_effect_id'', ''submission_payload_digest''] @ INDIVIDUAL_ARRAY_KEYS"

section \<open>Field validators\<close>

definition require_total :: "py \<Rightarrow> (snapshot_error, int) result" where
  "require_total v =
     (case v of
        PyInt i \<Rightarrow> if i < 0 \<or> i > MAX_REPORT_COUNT then Inl INVALID_TOTAL else Inr i
      | _ \<Rightarrow> Inl INVALID_TOTAL)"

text \<open>\<open>while exponent < -2 and digits and digits[-1] == 0: digits.pop(); exponent += 1\<close>.\<close>

fun drop_trailing_zeros :: "nat list \<Rightarrow> int \<Rightarrow> nat list \<times> int" where
  "drop_trailing_zeros ds e =
     (if e < - 2 \<and> ds \<noteq> [] \<and> last ds = 0 then drop_trailing_zeros (butlast ds) (e + 1) else (ds, e))"

declare drop_trailing_zeros.simps [simp del]

definition money_decimal :: "unicode_db \<Rightarrow> py \<Rightarrow> (snapshot_error, decimal) result" where
  "money_decimal U v =
     (case v of
        PyDecimal d \<Rightarrow> Inr d
      | PyStr s \<Rightarrow>
          if s = [] \<or> length s > MAX_MONEY_INPUT_LENGTH \<or> s \<noteq> py_strip s then Inl INVALID_OFFER
          else (case decimal_of_str U s of None \<Rightarrow> Inl INVALID_OFFER | Some d \<Rightarrow> Inr d)
      | _ \<Rightarrow> Inl INVALID_OFFER)"

definition money_text :: "decimal \<Rightarrow> (snapshot_error, pystr) result" where
  "money_text d =
     (if \<not> is_finite d \<or> is_signed d \<or> decimal_gt_cents (dcoeff d) (dexp d) MAX_REPORT_OFFERING_CENTS
      then Inl INVALID_OFFER
      else if is_zero d then Inr (u ''0.00'')
      else if length (dcoeff d) > MAX_MONEY_INPUT_LENGTH then Inl INVALID_OFFER
      else let (ds, e) = drop_trailing_zeros (dcoeff d) (dexp d)
           in if e < - 2 then Inl INVALID_OFFER
              else Inr (format_cents (coeff_nat ds * 10 ^ nat (e + 2))))"

definition normalize_money :: "unicode_db \<Rightarrow> py \<Rightarrow> (snapshot_error, pystr option) result" where
  "normalize_money U v =
     (if v = PyNone then Inr None
      else ebind (money_decimal U v) (\<lambda>d. ebind (money_text d) (\<lambda>t. Inr (Some t))))"

definition canonical_money_re :: "pystr \<Rightarrow> bool" where
  "canonical_money_re s \<longleftrightarrow>
     (let i = takeWhile is_digit s; r = dropWhile is_digit s
      in (i = [48] \<or> (i \<noteq> [] \<and> hd i \<noteq> 48 \<and> length i \<le> 6))
         \<and> length r = 3 \<and> hd r = 46 \<and> list_all is_digit (tl r))"

definition require_canonical_money :: "unicode_db \<Rightarrow> py \<Rightarrow> (snapshot_error, decimal option) result" where
  "require_canonical_money U v =
     (case v of
        PyNone \<Rightarrow> Inr None
      | PyStr s \<Rightarrow>
          if \<not> canonical_money_re s then Inl INVALID_OFFER
          else (case decimal_of_str U s of
                  None \<Rightarrow> Inl INVALID_OFFER
                | Some d \<Rightarrow> if decimal_gt_cents (dcoeff d) (dexp d) MAX_REPORT_OFFERING_CENTS
                            then Inl INVALID_OFFER else Inr (Some d))
      | _ \<Rightarrow> Inl INVALID_OFFER)"

definition require_canonical_observacoes :: "unicode_db \<Rightarrow> py \<Rightarrow> (snapshot_error, pystr option) result" where
  "require_canonical_observacoes U v =
     (case v of
        PyNone \<Rightarrow> Inr None
      | PyStr s \<Rightarrow>
          if s = [] \<or> length s > MAX_REPORT_OBSERVATIONS_LENGTH then Inl INVALID_OBSERVACOES
          else if s \<noteq> py_strip s then Inl INVALID_OBSERVACOES
          else if ud_nfc U s \<noteq> s then Inl INVALID_OBSERVACOES
          else if \<not> list_all (observation_char_ok U) s then Inl INVALID_OBSERVACOES
          else (case utf8_encode s of
                  None \<Rightarrow> Inl INVALID_OBSERVACOES
                | Some b \<Rightarrow> if length b > MAX_REPORT_OBSERVATIONS_BYTES then Inl INVALID_OBSERVACOES
                            else Inr (Some s))
      | _ \<Rightarrow> Inl INVALID_OBSERVACOES)"

definition normalize_observacoes :: "unicode_db \<Rightarrow> py \<Rightarrow> (snapshot_error, pystr option) result" where
  "normalize_observacoes U v =
     (case v of
        PyNone \<Rightarrow> Inr None
      | PyStr s \<Rightarrow>
          if length s > MAX_REPORT_OBSERVATIONS_LENGTH then Inl INVALID_OBSERVACOES
          else let n = py_strip (ud_nfc U (normalize_newlines s))
               in if n = [] then Inr None else require_canonical_observacoes U (PyStr n)
      | _ \<Rightarrow> Inl INVALID_OBSERVACOES)"

definition require_submission_effect_id :: "py \<Rightarrow> (snapshot_error, pystr) result" where
  "require_submission_effect_id v =
     (case v of PyStr s \<Rightarrow> if prefixed_hex64 effect_id_prefix s then Inr s else Inl INVALID_SUBMISSION_EFFECT_ID
      | _ \<Rightarrow> Inl INVALID_SUBMISSION_EFFECT_ID)"

definition require_submission_payload_digest :: "py \<Rightarrow> (snapshot_error, pystr) result" where
  "require_submission_payload_digest v =
     (case v of
        PyStr s \<Rightarrow> if prefixed_hex64 payload_digest_prefix s then Inr s else Inl INVALID_SUBMISSION_PAYLOAD_DIGEST
      | _ \<Rightarrow> Inl INVALID_SUBMISSION_PAYLOAD_DIGEST)"

section \<open>The typed view\<close>

record totals =
  t_presentes :: int
  t_visitantes :: int
  t_decisoes :: int

record snapshot =
  sn_totals :: totals
  sn_oferta_valor :: "decimal option"
  sn_observacoes :: "pystr option"
  sn_submission_effect_id :: pystr
  sn_submission_payload_digest :: pystr

definition py_of_decimal :: "decimal option \<Rightarrow> py" where
  "py_of_decimal x = (case x of None \<Rightarrow> PyNone | Some d \<Rightarrow> PyDecimal d)"

definition new_totals :: "int \<Rightarrow> int \<Rightarrow> int \<Rightarrow> (snapshot_error, totals) result" where
  "new_totals p v d =
     ebind (require_total (PyInt p)) (\<lambda>_.
     ebind (require_total (PyInt v)) (\<lambda>_.
     ebind (require_total (PyInt d)) (\<lambda>_.
       Inr \<lparr>t_presentes = p, t_visitantes = v, t_decisoes = d\<rparr>)))"

text \<open>\<open>Decimal(canonical) != value\<close> of two finite unsigned decimals.\<close>

definition same_amount :: "unicode_db \<Rightarrow> pystr \<Rightarrow> decimal \<Rightarrow> bool" where
  "same_amount U s d =
     (case decimal_of_str U s of
        Some (DFinite _ ds e) \<Rightarrow> decimal_same_value ds e (dcoeff d) (dexp d)
      | _ \<Rightarrow> False)"

definition snapshot_post_init :: "unicode_db \<Rightarrow> snapshot \<Rightarrow> (snapshot_error, snapshot) result" where
  "snapshot_post_init U s =
     ebind (normalize_money U (py_of_decimal (sn_oferta_valor s))) (\<lambda>canonical.
       if (case (canonical, sn_oferta_valor s) of (Some t, Some d) \<Rightarrow> \<not> same_amount U t d | _ \<Rightarrow> False)
       then Inl INVALID_OFFER
       else ebind (require_canonical_observacoes U (py_of_str (sn_observacoes s))) (\<lambda>_.
            ebind (require_submission_effect_id (PyStr (sn_submission_effect_id s))) (\<lambda>_.
            ebind (require_submission_payload_digest (PyStr (sn_submission_payload_digest s))) (\<lambda>_.
              Inr s))))"

definition snapshot_json :: "int \<Rightarrow> int \<Rightarrow> int \<Rightarrow> pystr option \<Rightarrow> pystr option \<Rightarrow> pystr \<Rightarrow> pystr \<Rightarrow> (pystr \<times> py) list" where
  "snapshot_json p v d oferta_v obs eff pay =
     [(u ''schema'', PyStr snapshot_schema),
      (u ''totals'', PyDict [(u ''presentes'', PyInt p), (u ''visitantes'', PyInt v), (u ''decisoes'', PyInt d)]),
      (u ''oferta_valor'', py_of_str oferta_v),
      (u ''observacoes'', py_of_str obs),
      (u ''submission_effect_id'', PyStr eff),
      (u ''submission_payload_digest'', PyStr pay),
      (u ''presencas'', PyList []),
      (u ''visitantes'', PyList []),
      (u ''records'', PyList [])]"

definition snapshot_to_jsonb :: "unicode_db \<Rightarrow> snapshot \<Rightarrow> (snapshot_error, py) result" where
  "snapshot_to_jsonb U s =
     ebind (require_total (PyInt (t_presentes (sn_totals s)))) (\<lambda>p.
     ebind (require_total (PyInt (t_visitantes (sn_totals s)))) (\<lambda>v.
     ebind (require_total (PyInt (t_decisoes (sn_totals s)))) (\<lambda>d.
     ebind (normalize_money U (py_of_decimal (sn_oferta_valor s))) (\<lambda>o'.
     ebind (require_canonical_observacoes U (py_of_str (sn_observacoes s))) (\<lambda>b.
     ebind (require_submission_effect_id (PyStr (sn_submission_effect_id s))) (\<lambda>eff.
     ebind (require_submission_payload_digest (PyStr (sn_submission_payload_digest s))) (\<lambda>pay.
       Inr (PyDict (snapshot_json p v d o' b eff pay)))))))))"

definition decimal_of_canonical :: "unicode_db \<Rightarrow> pystr option \<Rightarrow> (snapshot_error, decimal option) result" where
  "decimal_of_canonical U x =
     (case x of None \<Rightarrow> Inr None
      | Some t \<Rightarrow> (case decimal_of_str U t of None \<Rightarrow> Inl INVALID_OFFER | Some d \<Rightarrow> Inr (Some d)))"

definition build_cell_report_snapshot_v2 ::
  "unicode_db \<Rightarrow> py \<Rightarrow> py \<Rightarrow> py \<Rightarrow> py \<Rightarrow> py \<Rightarrow> py \<Rightarrow> py \<Rightarrow> (snapshot_error, py) result" where
  "build_cell_report_snapshot_v2 U p v d oferta_v obs eff pay =
     ebind (require_total p) (\<lambda>p'.
     ebind (require_total v) (\<lambda>v'.
     ebind (require_total d) (\<lambda>d'.
     ebind (new_totals p' v' d') (\<lambda>tot.
     ebind (normalize_money U oferta_v) (\<lambda>money.
     ebind (decimal_of_canonical U money) (\<lambda>dec.
     ebind (normalize_observacoes U obs) (\<lambda>b.
     ebind (require_submission_effect_id eff) (\<lambda>eff'.
     ebind (require_submission_payload_digest pay) (\<lambda>pay'.
     ebind (snapshot_post_init U
              \<lparr>sn_totals = tot, sn_oferta_valor = dec, sn_observacoes = b,
               sn_submission_effect_id = eff', sn_submission_payload_digest = pay'\<rparr>) (\<lambda>s.
       snapshot_to_jsonb U s))))))))))"

definition has_cell_report_snapshot_v2_marker :: "py \<Rightarrow> bool" where
  "has_cell_report_snapshot_v2_marker v =
     (case v of PyDict d \<Rightarrow> py_get d (u ''schema'') = PyStr snapshot_schema | _ \<Rightarrow> False)"

definition has_cell_report_snapshot_schema_marker :: "py \<Rightarrow> bool" where
  "has_cell_report_snapshot_schema_marker v =
     (case v of PyDict d \<Rightarrow> u ''schema'' \<in> set (map fst d) | _ \<Rightarrow> False)"

definition individual_arrays_empty :: "(pystr \<times> py) list \<Rightarrow> bool" where
  "individual_arrays_empty d = list_all (\<lambda>k. py_get d k = PyList []) INDIVIDUAL_ARRAY_KEYS"

definition validate_totals_dict :: "(pystr \<times> py) list \<Rightarrow> (snapshot_error, totals) result" where
  "validate_totals_dict td =
     ebind (require_total (py_get td (u ''presentes''))) (\<lambda>p.
     ebind (require_total (py_get td (u ''visitantes''))) (\<lambda>v.
     ebind (require_total (py_get td (u ''decisoes''))) (\<lambda>d.
       new_totals p v d)))"

definition validate_cell_report_snapshot_v2 :: "unicode_db \<Rightarrow> py \<Rightarrow> (snapshot_error, snapshot) result" where
  "validate_cell_report_snapshot_v2 U v =
     (case v of
        PyDict d \<Rightarrow>
          if u ''schema'' \<notin> set (map fst d) then Inl INVALID_SNAPSHOT
          else if py_get d (u ''schema'') \<noteq> PyStr snapshot_schema then Inl UNSUPPORTED_SCHEMA
          else if \<not> keys_exactly d SNAPSHOT_KEYS then Inl INVALID_SNAPSHOT
          else (case py_get d (u ''totals'') of
                  PyDict td \<Rightarrow>
                    if \<not> keys_exactly td TOTAL_KEYS then Inl INVALID_TOTALS
                    else if \<not> individual_arrays_empty d then Inl INDIVIDUAL_DATA_FORBIDDEN
                    else ebind (validate_totals_dict td) (\<lambda>tot.
                         ebind (require_canonical_money U (py_get d (u ''oferta_valor''))) (\<lambda>money.
                         ebind (require_canonical_observacoes U (py_get d (u ''observacoes''))) (\<lambda>b.
                         ebind (require_submission_effect_id (py_get d (u ''submission_effect_id''))) (\<lambda>eff.
                         ebind (require_submission_payload_digest (py_get d (u ''submission_payload_digest''))) (\<lambda>pay.
                           snapshot_post_init U
                             \<lparr>sn_totals = tot, sn_oferta_valor = money, sn_observacoes = b,
                              sn_submission_effect_id = eff, sn_submission_payload_digest = pay\<rparr>)))))
                | _ \<Rightarrow> Inl INVALID_TOTALS)
      | _ \<Rightarrow> Inl INVALID_SNAPSHOT)"

section \<open>Money\<close>

lemma drop_trailing_zeros_value:
  assumes "drop_trailing_zeros ds e = (ds', e')"
  shows "e \<le> e' \<and> coeff_nat ds = coeff_nat ds' * 10 ^ nat (e' - e) \<and> (e \<ge> - 2 \<longrightarrow> e' = e) \<and> (e < - 2 \<longrightarrow> e' \<le> - 2)"
  using assms
proof (induction ds e arbitrary: ds' e' rule: drop_trailing_zeros.induct)
  case (1 ds e)
  show ?case
  proof (cases "e < - 2 \<and> ds \<noteq> [] \<and> last ds = 0")
    case True
    then have r: "drop_trailing_zeros (butlast ds) (e + 1) = (ds', e')"
      using "1.prems" by (subst (asm) drop_trailing_zeros.simps) simp
    have "coeff_nat ds = 10 * coeff_nat (butlast ds)"
      using True coeff_nat_snoc [of "butlast ds" "last ds"] append_butlast_last_id [of ds] by simp
    moreover have "e + 1 \<le> e'" "coeff_nat (butlast ds) = coeff_nat ds' * 10 ^ nat (e' - (e + 1))" "e' \<le> - 2"
      using "1.IH" [OF True r] True by auto
    moreover from this have "nat (e' - e) = Suc (nat (e' - (e + 1)))" by arith
    ultimately show ?thesis using True by simp
  next
    case False
    then show ?thesis using "1.prems" by (subst (asm) drop_trailing_zeros.simps) auto
  qed
qed

lemma gt_cents_iff: "amount_is_cents ds e n \<Longrightarrow> decimal_gt_cents ds e c \<longleftrightarrow> c < n"
  by (auto simp: amount_is_cents_def decimal_gt_cents_def)

lemma money_text_result:
  assumes "money_text (DFinite False ds e) = Inr s"
  shows "\<exists>n \<le> MAX_REPORT_OFFERING_CENTS. amount_is_cents ds e n \<and> s = format_cents n"
proof (cases "coeff_nat ds = 0")
  case True
  moreover have "u ''0.00'' = format_cents 0" by code_simp
  ultimately show ?thesis using assms
    by (auto simp: money_text_def is_zero_def amount_zero is_finite_def is_signed_def split: if_splits)
next
  case False
  obtain ds' e' where d: "drop_trailing_zeros ds e = (ds', e')" by fastforce
  define n where "n = coeff_nat ds' * 10 ^ nat (e' + 2)"
  have e': "\<not> e' < - 2" "s = format_cents n" "\<not> decimal_gt_cents ds e MAX_REPORT_OFFERING_CENTS"
    using assms False d by (auto simp: money_text_def is_zero_def is_finite_def is_signed_def n_def split: if_splits)
  note v = drop_trailing_zeros_value [OF d]
  have am: "amount_is_cents ds e n"
  proof (cases "e < - 2")
    case True
    then have "e' = - 2" using v e'(1) by simp
    moreover from this have "nat (e' - e) = nat (- (e + 2))" by arith
    ultimately show ?thesis using v True by (simp add: amount_is_cents_def n_def)
  next
    case False
    then show ?thesis using v by (simp add: amount_is_cents_def n_def)
  qed
  moreover have "n \<le> MAX_REPORT_OFFERING_CENTS" using e'(3) gt_cents_iff [OF am] by simp
  ultimately show ?thesis using e'(2) by blast
qed

lemma money_text_two_places:
  assumes "coeff_nat ds = n" "length ds \<le> 64" "n \<le> MAX_REPORT_OFFERING_CENTS"
  shows "money_text (DFinite False ds (- 2)) = Inr (format_cents n)"
proof -
  have "drop_trailing_zeros ds (- 2) = (ds, - 2)" by (subst drop_trailing_zeros.simps) simp
  moreover have "amount_is_cents ds (- 2) n" using assms(1) by (simp add: amount_is_cents_def)
  moreover have "u ''0.00'' = format_cents 0" by code_simp
  ultimately show ?thesis using assms gt_cents_iff [of ds "- 2" n]
    by (auto simp: money_text_def is_finite_def is_signed_def is_zero_def MAX_MONEY_INPUT_LENGTH_def)
qed

lemma canonical_decimal:
  assumes "unicode_ok U" "n \<le> MAX_REPORT_OFFERING_CENTS"
  shows "\<exists>ds. decimal_of_str U (format_cents n) = Some (DFinite False ds (- 2)) \<and> coeff_nat ds = n \<and> length ds \<le> 64"
proof -
  have "n < 10 ^ 20" using assms(2) by (simp add: report_limits)
  then show ?thesis using decimal_of_format_cents [OF assms(1), of n] by fastforce
qed

definition canonical_of :: "unicode_db \<Rightarrow> nat \<Rightarrow> decimal" where
  "canonical_of U n = the (decimal_of_str U (format_cents n))"

lemma canonical_of:
  assumes "unicode_ok U" "n \<le> MAX_REPORT_OFFERING_CENTS"
  shows "decimal_of_str U (format_cents n) = Some (canonical_of U n)"
    "money_text (canonical_of U n) = Inr (format_cents n)" "same_amount U (format_cents n) (canonical_of U n)"
    "\<not> decimal_gt_cents (dcoeff (canonical_of U n)) (dexp (canonical_of U n)) MAX_REPORT_OFFERING_CENTS"
proof -
  obtain ds where ds: "decimal_of_str U (format_cents n) = Some (DFinite False ds (- 2))" "coeff_nat ds = n" "length ds \<le> 64"
    using canonical_decimal [OF assms] by blast
  then have c: "canonical_of U n = DFinite False ds (- 2)" by (simp add: canonical_of_def)
  show "decimal_of_str U (format_cents n) = Some (canonical_of U n)" using ds c by simp
  show "money_text (canonical_of U n) = Inr (format_cents n)" using money_text_two_places ds assms(2) c by simp
  show "same_amount U (format_cents n) (canonical_of U n)"
    using ds by (simp add: same_amount_def c decimal_same_value_def)
  show "\<not> decimal_gt_cents (dcoeff (canonical_of U n)) (dexp (canonical_of U n)) MAX_REPORT_OFFERING_CENTS"
    using ds assms(2) by (simp add: c decimal_gt_cents_def)
qed

lemma unsigned_finite: "is_finite d \<Longrightarrow> \<not> is_signed d \<Longrightarrow> \<exists>ds e. d = DFinite False ds e"
  by (cases d) (auto simp: is_finite_def is_signed_def)

lemma normalize_money_result:
  assumes "normalize_money U v = Inr x"
  shows "offering_ok x"
proof (cases x)
  case (Some s)
  then obtain d where d: "money_text d = Inr s"
    using assms by (auto simp: normalize_money_def ebind_eq_Inr split: if_splits)
  then have "is_finite d" "\<not> is_signed d" by (auto simp: money_text_def split: if_splits)
  then obtain ds e where "d = DFinite False ds e" using unsigned_finite by blast
  then show ?thesis using money_text_result [of ds e s] d Some by (auto simp: offering_ok_def)
qed (simp add: offering_ok_def)

lemma canonical_not_space:
  assumes "n \<le> MAX_REPORT_OFFERING_CENTS"
  shows "py_strip (format_cents n) = format_cents n \<and> format_cents n \<noteq> [] \<and> length (format_cents n) \<le> 64"
proof -
  have "\<forall>c \<in> set (format_cents n). is_digit c \<or> c = 46"
    using digits_of_nat_digits [of "n div 100"] zero_pad_digits [of 2 "n mod 100"] by (auto simp: format_cents_def)
  moreover have "format_cents n \<noteq> []" by (simp add: format_cents_def)
  ultimately have "\<not> py_isspace (hd (format_cents n))" "\<not> py_isspace (last (format_cents n))"
    using digit_not_space by simp_all
  then show ?thesis
    using strip_id_iff [of "format_cents n"] format_cents_parts(1) [OF assms] \<open>format_cents n \<noteq> []\<close> by simp
qed

lemma normalize_money_canonical:
  assumes "unicode_ok U" "offering_ok x"
  shows "normalize_money U (py_of_str x) = Inr x"
proof (cases x)
  case None
  then show ?thesis by (simp add: normalize_money_def)
next
  case (Some s)
  then obtain n where "n \<le> MAX_REPORT_OFFERING_CENTS" "s = format_cents n" using assms(2) by (auto simp: offering_ok_def)
  then show ?thesis using Some canonical_of [OF assms(1), of n] canonical_not_space [of n]
    by (simp add: normalize_money_def money_decimal_def MAX_MONEY_INPUT_LENGTH_def not_less)
qed

lemma canonical_re:
  assumes "n \<le> MAX_REPORT_OFFERING_CENTS"
  shows "canonical_money_re (format_cents n)"
proof -
  let ?a = "digits_of_nat (n div 100)" and ?b = "zero_pad 2 (n mod 100)"
  have lb: "length ?b = 2" by (rule length_zero_pad) simp_all
  have "n div 100 < 10 ^ 6" using assms by (simp add: report_limits)
  then have la: "length ?a \<le> 6" by (rule digits_of_nat_bound) simp
  have nd: "\<not> is_digit 46" by (simp add: is_digit_def)
  have tw: "takeWhile is_digit (?a @ 46 # ?b) = ?a" "dropWhile is_digit (?a @ 46 # ?b) = 46 # ?b"
    using digits_of_nat_digits [of "n div 100"] nd by (simp_all add: takeWhile_append2 dropWhile_append2)
  have "?a = [48] \<or> hd ?a \<noteq> 48"
    using digits_of_nat_hd [of "n div 100"] by (cases "n div 100 = 0") (auto simp: digits_of_nat.simps)
  then show ?thesis
    using tw la lb zero_pad_digits [of 2 "n mod 100"]
    by (auto simp: canonical_money_re_def format_cents_def Let_def list_all_iff)
qed

section \<open>Observations and the typed view\<close>

lemma require_total_result: "require_total v = Inr i \<longleftrightarrow> v = PyInt i \<and> 0 \<le> i \<and> i \<le> MAX_REPORT_COUNT"
  by (cases v) (auto simp: require_total_def)

lemma require_effect_result: "require_submission_effect_id v = Inr s \<longleftrightarrow> v = PyStr s \<and> prefixed_hex64 effect_id_prefix s"
  by (cases v) (auto simp: require_submission_effect_id_def)

lemma require_payload_result:
  "require_submission_payload_digest v = Inr s \<longleftrightarrow> v = PyStr s \<and> prefixed_hex64 payload_digest_prefix s"
  by (cases v) (auto simp: require_submission_payload_digest_def)

lemma canonical_observacoes_result:
  "require_canonical_observacoes U v = Inr x \<longleftrightarrow>
   v = py_of_str x \<and> (case x of None \<Rightarrow> True | Some s \<Rightarrow> observation_ok U s)"
  by (cases v; cases x)
    (auto simp: require_canonical_observacoes_def observation_ok_def split: option.splits)

lemma observation_no_cr: "unicode_ok U \<Longrightarrow> observation_ok U s \<Longrightarrow> 13 \<notin> set s"
  by (auto simp: observation_ok_def list_all_iff observation_char_ok_def unicode_ok_def)

lemma normalize_observacoes_ok:
  assumes "unicode_ok U" "observation_ok U s"
  shows "normalize_observacoes U (PyStr s) = Inr (Some s)"
proof -
  have "normalize_newlines s = s" using observation_no_cr [OF assms] by (rule normalize_newlines_id)
  moreover have "require_canonical_observacoes U (PyStr s) = Inr (Some s)"
    using canonical_observacoes_result [of U "PyStr s" "Some s"] assms(2) by simp
  ultimately show ?thesis using assms(2) by (simp add: normalize_observacoes_def observation_ok_def)
qed

lemma normalize_observacoes_result:
  "normalize_observacoes U v = Inr x \<Longrightarrow> case x of None \<Rightarrow> True | Some s \<Rightarrow> observation_ok U s"
  by (cases v) (auto simp: normalize_observacoes_def Let_def canonical_observacoes_result split: if_splits option.splits)

text \<open>The values of a valid snapshot, its typed view and its JSON object.\<close>

definition snap_ok :: "unicode_db \<Rightarrow> int \<times> int \<times> int \<Rightarrow> pystr option \<Rightarrow> pystr option \<Rightarrow> pystr \<Rightarrow> pystr \<Rightarrow> bool" where
  "snap_ok U tot x b eff pay \<longleftrightarrow>
     (case tot of (p, v, d) \<Rightarrow> (\<forall>i \<in> {p, v, d}. 0 \<le> i \<and> i \<le> MAX_REPORT_COUNT))
     \<and> offering_ok x \<and> (case b of None \<Rightarrow> True | Some s \<Rightarrow> observation_ok U s)
     \<and> prefixed_hex64 effect_id_prefix eff \<and> prefixed_hex64 payload_digest_prefix pay"

definition snap_view :: "unicode_db \<Rightarrow> int \<times> int \<times> int \<Rightarrow> pystr option \<Rightarrow> pystr option \<Rightarrow> pystr \<Rightarrow> pystr \<Rightarrow> snapshot" where
  "snap_view U tot x b eff pay =
     \<lparr>sn_totals = (case tot of (p, v, d) \<Rightarrow> \<lparr>t_presentes = p, t_visitantes = v, t_decisoes = d\<rparr>),
      sn_oferta_valor = map_option (\<lambda>s. the (decimal_of_str U s)) x, sn_observacoes = b,
      sn_submission_effect_id = eff, sn_submission_payload_digest = pay\<rparr>"

lemma offering_decimal:
  assumes "unicode_ok U" "offering_ok x"
  shows "decimal_of_canonical U x = Inr (map_option (\<lambda>s. the (decimal_of_str U s)) x)"
    "normalize_money U (py_of_decimal (map_option (\<lambda>s. the (decimal_of_str U s)) x)) = Inr x"
    "require_canonical_money U (py_of_str x) = Inr (map_option (\<lambda>s. the (decimal_of_str U s)) x)"
    "\<And>t. x = Some t \<Longrightarrow> same_amount U t (the (decimal_of_str U t))"
proof -
  have "x = None \<or> (\<exists>n \<le> MAX_REPORT_OFFERING_CENTS. x = Some (format_cents n))"
    using assms(2) by (cases x) (auto simp: offering_ok_def)
  moreover note c = canonical_of [OF assms(1)] canonical_re
  ultimately show "decimal_of_canonical U x = Inr (map_option (\<lambda>s. the (decimal_of_str U s)) x)"
    "normalize_money U (py_of_decimal (map_option (\<lambda>s. the (decimal_of_str U s)) x)) = Inr x"
    "require_canonical_money U (py_of_str x) = Inr (map_option (\<lambda>s. the (decimal_of_str U s)) x)"
    "\<And>t. x = Some t \<Longrightarrow> same_amount U t (the (decimal_of_str U t))"
    by (auto simp: decimal_of_canonical_def normalize_money_def py_of_decimal_def money_decimal_def
        require_canonical_money_def)
qed

lemma post_init_view:
  assumes "unicode_ok U" "snap_ok U tot x b eff pay"
  shows "snapshot_post_init U (snap_view U tot x b eff pay) = Inr (snap_view U tot x b eff pay)"
proof -
  have o: "offering_ok x" using assms(2) by (simp add: snap_ok_def)
  have b: "require_canonical_observacoes U (py_of_str b) = Inr b"
    using assms(2) by (simp add: canonical_observacoes_result snap_ok_def)
  have e: "require_submission_effect_id (PyStr eff) = Inr eff" "require_submission_payload_digest (PyStr pay) = Inr pay"
    using assms(2) by (simp_all add: require_effect_result require_payload_result snap_ok_def)
  show ?thesis
    using offering_decimal(2,4) [OF assms(1) o] b e
    by (cases x) (simp_all add: snapshot_post_init_def snap_view_def py_of_decimal_def)
qed

lemma to_jsonb_view:
  assumes "unicode_ok U" "snap_ok U (p, v, d) x b eff pay"
  shows "snapshot_to_jsonb U (snap_view U (p, v, d) x b eff pay) = Inr (PyDict (snapshot_json p v d x b eff pay))"
proof -
  have o: "offering_ok x" using assms(2) by (simp add: snap_ok_def)
  have "require_canonical_observacoes U (py_of_str b) = Inr b" "require_submission_effect_id (PyStr eff) = Inr eff"
    "require_submission_payload_digest (PyStr pay) = Inr pay" "require_total (PyInt p) = Inr p"
    "require_total (PyInt v) = Inr v" "require_total (PyInt d) = Inr d"
    using assms(2) by (simp_all add: canonical_observacoes_result require_effect_result require_payload_result
        require_total_result snap_ok_def)
  then show ?thesis
    using offering_decimal(2) [OF assms(1) o] by (simp add: snapshot_to_jsonb_def snap_view_def)
qed

lemma new_totals_ok:
  "new_totals p v d = Inr t \<longleftrightarrow> t = \<lparr>t_presentes = p, t_visitantes = v, t_decisoes = d\<rparr>
     \<and> (\<forall>i \<in> {p, v, d}. 0 \<le> i \<and> i \<le> MAX_REPORT_COUNT)"
  by (auto simp: new_totals_def ebind_eq_Inr require_total_result)

lemma build_snapshot_result:
  assumes U: "unicode_ok U" and b: "build_cell_report_snapshot_v2 U p v d x o' eff pay = Inr r"
  obtains pi vi di m s e y where "p = PyInt pi" "v = PyInt vi" "d = PyInt di" "eff = PyStr e" "pay = PyStr y"
    "normalize_money U x = Inr m" "normalize_observacoes U o' = Inr s" "snap_ok U (pi, vi, di) m s e y"
    "r = PyDict (snapshot_json pi vi di m s e y)"
proof -
  obtain pi vi di m s e y dec where f: "p = PyInt pi" "v = PyInt vi" "d = PyInt di" "eff = PyStr e" "pay = PyStr y"
      "normalize_money U x = Inr m" "normalize_observacoes U o' = Inr s" "decimal_of_canonical U m = Inr dec"
      "\<forall>i \<in> {pi, vi, di}. 0 \<le> i \<and> i \<le> MAX_REPORT_COUNT"
      "prefixed_hex64 effect_id_prefix e" "prefixed_hex64 payload_digest_prefix y"
    using b by (auto simp: build_cell_report_snapshot_v2_def ebind_eq_Inr require_total_result new_totals_ok
        require_effect_result require_payload_result)
  have o: "offering_ok m" using f(6) by (rule normalize_money_result)
  have ok: "snap_ok U (pi, vi, di) m s e y"
    using f o normalize_observacoes_result [OF f(7)] by (simp add: snap_ok_def)
  have tot: "new_totals pi vi di = Inr \<lparr>t_presentes = pi, t_visitantes = vi, t_decisoes = di\<rparr>"
    "require_total p = Inr pi" "require_total v = Inr vi" "require_total d = Inr di"
    using f by (simp_all add: new_totals_ok require_total_result)
  have "snapshot_post_init U \<lparr>sn_totals = \<lparr>t_presentes = pi, t_visitantes = vi, t_decisoes = di\<rparr>,
        sn_oferta_valor = dec, sn_observacoes = s, sn_submission_effect_id = e, sn_submission_payload_digest = y\<rparr>
      = Inr (snap_view U (pi, vi, di) m s e y)"
    using post_init_view [OF U ok] offering_decimal(1) [OF U o] f(8) by (simp add: snap_view_def)
  then have "r = PyDict (snapshot_json pi vi di m s e y)"
    using b f tot to_jsonb_view [OF U ok]
    by (simp add: build_cell_report_snapshot_v2_def require_effect_result [THEN iffD2] require_payload_result [THEN iffD2])
  with f ok show thesis using that by blast
qed

lemma build_snapshot_ok:
  assumes U: "unicode_ok U" and ok: "snap_ok U (p, v, d) m s e y"
    and m: "normalize_money U x = Inr m" and s: "normalize_observacoes U o' = Inr s"
  shows "build_cell_report_snapshot_v2 U (PyInt p) (PyInt v) (PyInt d) x o' (PyStr e) (PyStr y)
    = Inr (PyDict (snapshot_json p v d m s e y))"
proof -
  have o: "offering_ok m" using ok by (simp add: snap_ok_def)
  have tot: "new_totals p v d = Inr \<lparr>t_presentes = p, t_visitantes = v, t_decisoes = d\<rparr>"
    "require_total (PyInt p) = Inr p" "require_total (PyInt v) = Inr v" "require_total (PyInt d) = Inr d"
    "require_submission_effect_id (PyStr e) = Inr e" "require_submission_payload_digest (PyStr y) = Inr y"
    using ok by (simp_all add: new_totals_ok require_total_result require_effect_result require_payload_result snap_ok_def)
  have "snapshot_post_init U \<lparr>sn_totals = \<lparr>t_presentes = p, t_visitantes = v, t_decisoes = d\<rparr>,
        sn_oferta_valor = map_option (\<lambda>s. the (decimal_of_str U s)) m, sn_observacoes = s,
        sn_submission_effect_id = e, sn_submission_payload_digest = y\<rparr>
      = Inr (snap_view U (p, v, d) m s e y)"
    using post_init_view [OF U ok] by (simp add: snap_view_def)
  then show ?thesis
    using tot m s offering_decimal(1) [OF U o] to_jsonb_view [OF U ok]
    by (simp add: build_cell_report_snapshot_v2_def)
qed

section \<open>Validation of an untrusted value\<close>

lemma is_digitE:
  assumes "is_digit c"
  obtains j where "c = 48 + j" "j < 10"
  using assms that [of "c - 48"] by (auto simp: is_digit_def)

lemma digits_canonical:
  "s \<noteq> [] \<Longrightarrow> \<forall>c \<in> set s. is_digit c \<Longrightarrow> hd s \<noteq> 48 \<or> length s = 1 \<Longrightarrow> digits_of_nat (nat_of_digits s) = s"
proof (induction s rule: rev_induct)
  case (snoc c s)
  obtain j where c: "c = 48 + j" "j < 10" using snoc.prems(2) by (auto elim: is_digitE)
  show ?case
  proof (cases "s = []")
    case True
    then show ?thesis using c by (subst digits_of_nat.simps) (simp add: nat_of_digits.simps)
  next
    case False
    have hd: "hd s \<noteq> 48" using snoc.prems(3) False by simp
    have IH: "digits_of_nat (nat_of_digits s) = s" using snoc False hd by auto
    have "nat_of_digits s \<noteq> 0"
    proof
      assume "nat_of_digits s = 0"
      then have "s = [48]" using IH digits_of_nat.simps [of 0] by simp
      with hd show False by simp
    qed
    then show ?thesis using IH c by (subst digits_of_nat.simps) (simp add: nat_of_digits_snoc)
  qed
qed simp

lemma two_digits: "is_digit a \<Longrightarrow> is_digit b \<Longrightarrow> zero_pad 2 (10 * (a - 48) + (b - 48)) = [a, b]"
proof -
  assume "is_digit a" "is_digit b"
  then obtain i j where "a = 48 + i" "b = 48 + j" "i < 10" "j < 10" by (metis is_digitE)
  then show ?thesis
    by (cases "i = 0") (auto simp: zero_pad_def digits_of_nat.simps [of "10 * i + j"] digits_of_nat.simps [of i]
        digits_of_nat.simps [of j])
qed

lemma canonical_money_re_only:
  assumes "canonical_money_re s"
  shows "\<exists>n \<le> MAX_REPORT_OFFERING_CENTS. s = format_cents n"
proof -
  define i r where "i = takeWhile is_digit s" and "r = dropWhile is_digit s"
  have s: "s = i @ r" by (simp add: i_def r_def)
  have c: "i = [48] \<or> (i \<noteq> [] \<and> hd i \<noteq> 48 \<and> length i \<le> 6)" "length r = 3" "hd r = 46" "list_all is_digit (tl r)"
    using assms by (auto simp: canonical_money_re_def i_def r_def Let_def)
  obtain a b where r: "r = [46, a, b]" using c(2,3) by (cases r; cases "tl r"; cases "tl (tl r)") auto
  have ab: "is_digit a" "is_digit b" using c(4) r by auto
  have di: "\<forall>c \<in> set i. is_digit c" unfolding i_def by (auto dest: set_takeWhileD)
  define k m where "k = nat_of_digits i" and "m = 10 * (a - 48) + (b - 48)"
  have k: "digits_of_nat k = i" using c(1) di unfolding k_def by (intro digits_canonical) auto
  have m: "m < 100" "zero_pad 2 m = [a, b]" using ab two_digits by (auto simp: m_def is_digit_def)
  have "length i \<le> 6" using c(1) by auto
  moreover have "k < 10 ^ length i"
    using coeff_nat_less [of "map (\<lambda>c. c - 48) i"] di by (force simp: coeff_nat_digits k_def is_digit_def)
  ultimately have "k < 10 ^ 6" by (meson less_le_trans one_le_numeral power_increasing)
  then have "k * 100 + m \<le> MAX_REPORT_OFFERING_CENTS" using m(1) by (simp add: report_limits)
  moreover have "s = format_cents (k * 100 + m)" using s r k m by (simp add: format_cents_def)
  ultimately show ?thesis by blast
qed

lemma require_canonical_money_result:
  assumes "unicode_ok U" "require_canonical_money U v = Inr x"
  shows "\<exists>t. offering_ok t \<and> v = py_of_str t \<and> x = map_option (\<lambda>s. the (decimal_of_str U s)) t"
proof (cases v)
  case PyNone
  then show ?thesis using assms(2)
    by (intro exI [of _ None]) (simp add: require_canonical_money_def offering_ok_def)
next
  case (PyStr s)
  then have "canonical_money_re s" "x = Some (the (decimal_of_str U s))"
    using assms(2) by (auto simp: require_canonical_money_def split: if_splits option.splits)
  then show ?thesis using PyStr canonical_money_re_only by (intro exI [of _ "Some s"]) (auto simp: offering_ok_def)
qed (use assms in \<open>auto simp: require_canonical_money_def\<close>)

lemma snapshot_json_keys:
  "map fst (snapshot_json p v d x b e y) = SNAPSHOT_KEYS" "distinct SNAPSHOT_KEYS" "distinct TOTAL_KEYS"
  by (simp_all add: snapshot_json_def SNAPSHOT_KEYS_def INDIVIDUAL_ARRAY_KEYS_def TOTAL_KEYS_def)

lemma snapshot_json_get [simp]:
  "py_get (snapshot_json p v d x b e y) (u ''schema'') = PyStr snapshot_schema"
  "py_get (snapshot_json p v d x b e y) (u ''totals'') =
     PyDict [(u ''presentes'', PyInt p), (u ''visitantes'', PyInt v), (u ''decisoes'', PyInt d)]"
  "py_get (snapshot_json p v d x b e y) (u ''oferta_valor'') = py_of_str x"
  "py_get (snapshot_json p v d x b e y) (u ''observacoes'') = py_of_str b"
  "py_get (snapshot_json p v d x b e y) (u ''submission_effect_id'') = PyStr e"
  "py_get (snapshot_json p v d x b e y) (u ''submission_payload_digest'') = PyStr y"
  "k \<in> set INDIVIDUAL_ARRAY_KEYS \<Longrightarrow> py_get (snapshot_json p v d x b e y) k = PyList []"
proof -
  show "py_get (snapshot_json p v d x b e y) k = PyList []"
    if k: "k \<in> set INDIVIDUAL_ARRAY_KEYS"
  proof -
    consider "k = u ''presencas''" | "k = u ''visitantes''" | "k = u ''records''"
      using k by (auto simp: INDIVIDUAL_ARRAY_KEYS_def)
    then show ?thesis by cases (simp_all add: snapshot_json_def py_get_Cons)
  qed
qed (simp_all add: snapshot_json_def py_get_Cons)

lemma validate_same_snapshot:
  assumes U: "unicode_ok U" and ok: "snap_ok U (p, v, d) x b e y"
    and same: "same_json w (PyDict (snapshot_json p v d x b e y))"
  shows "validate_cell_report_snapshot_v2 U w = Inr (snap_view U (p, v, d) x b e y)"
proof -
  let ?j = "snapshot_json p v d x b e y"
  obtain f where f: "w = PyDict f" "length f = length ?j" "set (map fst f) = set (map fst ?j)"
      "\<And>k. same_json (py_get f k) (py_get ?j k)"
    using same_json_dict [OF same] snapshot_json_keys by metis
  have keys: "keys_exactly f SNAPSHOT_KEYS" "u ''schema'' \<in> set (map fst f)"
    using f(2,3) snapshot_json_keys(1) [of p v d x b e y]
    by (auto simp: keys_exactly_def snapshot_json_def SNAPSHOT_KEYS_def INDIVIDUAL_ARRAY_KEYS_def)
  let ?t = "[(u ''presentes'', PyInt p), (u ''visitantes'', PyInt v), (u ''decisoes'', PyInt d)]"
  have "same_json (py_get f (u ''totals'')) (PyDict ?t)" using f(4) [of "u ''totals''"] by simp
  then obtain t where t: "py_get f (u ''totals'') = PyDict t" "length t = length ?t" "set (map fst t) = set (map fst ?t)"
      "\<And>k. same_json (py_get t k) (py_get ?t k)" by (rule same_json_dict) auto
  have tk: "keys_exactly t TOTAL_KEYS" using t(2,3) by (simp add: keys_exactly_def TOTAL_KEYS_def)
  have "py_get t (u ''presentes'') = PyInt p" "py_get t (u ''visitantes'') = PyInt v" "py_get t (u ''decisoes'') = PyInt d"
    using t(4) [of "u ''presentes''"] t(4) [of "u ''visitantes''"] t(4) [of "u ''decisoes''"] by (simp_all add: py_get_Cons)
  then have tot: "validate_totals_dict t = Inr \<lparr>t_presentes = p, t_visitantes = v, t_decisoes = d\<rparr>"
    using ok by (simp add: validate_totals_dict_def ebind_eq_Inr require_total_result new_totals_ok snap_ok_def)
  have arr: "individual_arrays_empty f"
    using f(4) by (auto simp: individual_arrays_empty_def list_all_iff) (metis same_json_nil snapshot_json_get(7))
  have get: "py_get f (u ''schema'') = PyStr snapshot_schema" "py_get f (u ''oferta_valor'') = py_of_str x"
    "py_get f (u ''observacoes'') = py_of_str b" "py_get f (u ''submission_effect_id'') = PyStr e"
    "py_get f (u ''submission_payload_digest'') = PyStr y"
    using f(4) [of "u ''schema''"] f(4) [of "u ''oferta_valor''"] f(4) [of "u ''observacoes''"]
      f(4) [of "u ''submission_effect_id''"] f(4) [of "u ''submission_payload_digest''"] by simp_all
  have o: "offering_ok x" using ok by (simp add: snap_ok_def)
  have "require_canonical_observacoes U (py_of_str b) = Inr b" "require_submission_effect_id (PyStr e) = Inr e"
    "require_submission_payload_digest (PyStr y) = Inr y"
    using ok by (simp_all add: canonical_observacoes_result require_effect_result require_payload_result snap_ok_def)
  then show ?thesis
    using f(1) keys t(1) tk tot arr get offering_decimal(3) [OF U o] post_init_view [OF U ok]
    by (simp add: validate_cell_report_snapshot_v2_def snap_view_def)
qed

lemma validate_snapshot_only:
  assumes U: "unicode_ok U" and v: "validate_cell_report_snapshot_v2 U w = Inr s"
  obtains p q d x b e y where "snap_ok U (p, q, d) x b e y" "s = snap_view U (p, q, d) x b e y"
    "same_json w (PyDict (snapshot_json p q d x b e y))"
proof -
  obtain f where f: "w = PyDict f" using v by (cases w) (auto simp: validate_cell_report_snapshot_v2_def)
  obtain t where t: "py_get f (u ''totals'') = PyDict t"
    using v f by (cases "py_get f (u ''totals'')") (auto simp: validate_cell_report_snapshot_v2_def split: if_splits)
  obtain tot m b e y where k: "keys_exactly f SNAPSHOT_KEYS" "py_get f (u ''schema'') = PyStr snapshot_schema"
      "keys_exactly t TOTAL_KEYS" "individual_arrays_empty f" "validate_totals_dict t = Inr tot"
      "require_canonical_money U (py_get f (u ''oferta_valor'')) = Inr m"
      "require_canonical_observacoes U (py_get f (u ''observacoes'')) = Inr b"
      "py_get f (u ''submission_effect_id'') = PyStr e" "prefixed_hex64 effect_id_prefix e"
      "py_get f (u ''submission_payload_digest'') = PyStr y" "prefixed_hex64 payload_digest_prefix y"
      "snapshot_post_init U \<lparr>sn_totals = tot, sn_oferta_valor = m, sn_observacoes = b,
          sn_submission_effect_id = e, sn_submission_payload_digest = y\<rparr> = Inr s"
    using v f t
    by (auto simp: validate_cell_report_snapshot_v2_def ebind_eq_Inr require_effect_result require_payload_result
        split: if_splits)
  obtain p q d where pqd: "py_get t (u ''presentes'') = PyInt p" "py_get t (u ''visitantes'') = PyInt q"
      "py_get t (u ''decisoes'') = PyInt d" "tot = \<lparr>t_presentes = p, t_visitantes = q, t_decisoes = d\<rparr>"
      "\<forall>i \<in> {p, q, d}. 0 \<le> i \<and> i \<le> MAX_REPORT_COUNT"
    using k(5) by (auto simp: validate_totals_dict_def ebind_eq_Inr require_total_result new_totals_ok)
  obtain x where x: "offering_ok x" "py_get f (u ''oferta_valor'') = py_of_str x"
      "m = map_option (\<lambda>s. the (decimal_of_str U s)) x"
    using require_canonical_money_result [OF U k(6)] by blast
  have b: "py_get f (u ''observacoes'') = py_of_str b" "case b of None \<Rightarrow> True | Some s \<Rightarrow> observation_ok U s"
    using k(7) by (simp_all add: canonical_observacoes_result)
  have ok: "snap_ok U (p, q, d) x b e y" using pqd(5) x(1) b(2) k(9,11) by (simp add: snap_ok_def)
  have "s = snap_view U (p, q, d) x b e y"
    using k(12) post_init_view [OF U ok] pqd(4) x(3) by (simp add: snap_view_def)
  moreover have "same_json w (PyDict (snapshot_json p q d x b e y))"
    unfolding f
  proof (rule same_json_dictI)
    show "distinct (map fst f)" "distinct (map fst (snapshot_json p q d x b e y))"
      "set (map fst f) = set (map fst (snapshot_json p q d x b e y))"
      using keys_exactly_dist [OF k(1) snapshot_json_keys(2)] snapshot_json_keys by auto
    have "same_json (PyDict t) (PyDict [(u ''presentes'', PyInt p), (u ''visitantes'', PyInt q), (u ''decisoes'', PyInt d)])"
      by (rule same_json_dictI)
        (use keys_exactly_dist [OF k(3) snapshot_json_keys(3)] pqd in \<open>auto simp: TOTAL_KEYS_def py_get_Cons\<close>)
    then show "same_json (py_get f j) (py_get (snapshot_json p q d x b e y) j)"
      if "j \<in> set (map fst (snapshot_json p q d x b e y))" for j
      using that k(2,4,8,10) x(2) b(1) t unfolding snapshot_json_keys
      by (auto simp: SNAPSHOT_KEYS_def INDIVIDUAL_ARRAY_KEYS_def individual_arrays_empty_def)
  qed
  ultimately show thesis using ok that by blast
qed

section \<open>Properties\<close>

definition sample_effect :: pystr where "sample_effect = effect_id_prefix @ replicate 64 97"
definition sample_payload :: pystr where "sample_payload = payload_digest_prefix @ replicate 64 98"

lemma sample_ids: "prefixed_hex64 effect_id_prefix sample_effect" "prefixed_hex64 payload_digest_prefix sample_payload"
  unfolding sample_effect_def sample_payload_def by (rule prefixed_hex64_mint; simp add: is_hex_def)+

lemma sample_snapshot:
  "build_cell_report_snapshot_v2 ascii_db (PyInt 12) (PyInt 3) (PyInt 1) (PyStr (u ''150.00'')) PyNone
     (PyStr sample_effect) (PyStr sample_payload)
   = Inr (PyDict (snapshot_json 12 3 1 (Some (u ''150.00'')) None sample_effect sample_payload))"
proof (rule build_snapshot_ok [OF ascii_db_ok])
  have "offering_ok (Some (u ''150.00''))"
    unfolding offering_ok_def using sample_offering by (auto simp: report_limits intro!: exI [of _ 15000])
  then show "snap_ok ascii_db (12, 3, 1) (Some (u ''150.00'')) None sample_effect sample_payload"
    "normalize_money ascii_db (PyStr (u ''150.00'')) = Inr (Some (u ''150.00''))"
    using sample_ids normalize_money_canonical [OF ascii_db_ok, of "Some (u ''150.00'')"]
    by (simp_all add: snap_ok_def report_limits)
  show "normalize_observacoes ascii_db PyNone = Inr None" by (simp add: normalize_observacoes_def)
qed

text \<open>
  C32. What the snapshot builder writes, the validator reads: the JSON object, read back from a
  column that has reordered its keys, validates, and the typed view projects to the very
  object that was built.
\<close>

theorem snapshot_build_roundtrip:
  assumes "unicode_ok U" "build_cell_report_snapshot_v2 U p v d oferta_v obs eff pay = Inr r"
    and "sort_keys r' = sort_keys r"
  shows "\<exists>s. validate_cell_report_snapshot_v2 U r' = Inr s \<and> snapshot_to_jsonb U s = Inr r"
  using assms(1,2)
proof (rule build_snapshot_result)
  fix pi vi di m s e y
  assume a: "snap_ok U (pi, vi, di) m s e y" "r = PyDict (snapshot_json pi vi di m s e y)"
  have "same_json r' r" using assms(3) by (simp add: same_json_def)
  then show ?thesis
    using validate_same_snapshot [OF assms(1) a(1)] to_jsonb_view [OF assms(1) a(1)] a(2) by blast
qed

theorem snapshot_build_roundtrip_witness:
  "\<exists>s. validate_cell_report_snapshot_v2 ascii_db
        (PyDict (snapshot_json 12 3 1 (Some (u ''150.00'')) None sample_effect sample_payload)) = Inr s"
  using snapshot_build_roundtrip [OF ascii_db_ok sample_snapshot refl] by blast

text \<open>
  The snapshot contract is closed and canonical.  A JSON value validates only when it has
  exactly the nine keys, its three individual arrays are empty and its totals are integers in
  range, so no person-level fact can be in it; and then it is, up to the order of the keys,
  the one object its typed view projects to: no two accepted objects denote the same report.
\<close>

theorem snapshot_validate_canonical:
  assumes "unicode_ok U" "validate_cell_report_snapshot_v2 U r = Inr s"
  shows "\<exists>d. r = PyDict d \<and> keys_exactly d SNAPSHOT_KEYS \<and> individual_arrays_empty d
    \<and> (\<exists>r'. snapshot_to_jsonb U s = Inr r' \<and> sort_keys r' = sort_keys r)
    \<and> (let t = sn_totals s in \<forall>i \<in> {t_presentes t, t_visitantes t, t_decisoes t}. 0 \<le> i \<and> i \<le> MAX_REPORT_COUNT)"
proof -
  obtain d where d: "r = PyDict d" "keys_exactly d SNAPSHOT_KEYS" "individual_arrays_empty d"
    using assms(2) by (auto simp: validate_cell_report_snapshot_v2_def split: py.splits if_splits)
  obtain p q n x b e y where s: "snap_ok U (p, q, n) x b e y" "s = snap_view U (p, q, n) x b e y"
      "same_json r (PyDict (snapshot_json p q n x b e y))"
    using validate_snapshot_only [OF assms] .
  have "snapshot_to_jsonb U s = Inr (PyDict (snapshot_json p q n x b e y))"
    using to_jsonb_view [OF assms(1) s(1)] s(2) by simp
  moreover have "sort_keys (PyDict (snapshot_json p q n x b e y)) = sort_keys r" using s(3) by (simp add: same_json_def)
  ultimately show ?thesis using d s by (auto simp: snap_ok_def snap_view_def)
qed

theorem snapshot_validate_canonical_witness:
  "\<exists>d. PyDict (snapshot_json 12 3 1 (Some (u ''150.00'')) None sample_effect sample_payload) = PyDict d
     \<and> keys_exactly d SNAPSHOT_KEYS \<and> individual_arrays_empty d"
proof -
  obtain s where "validate_cell_report_snapshot_v2 ascii_db
      (PyDict (snapshot_json 12 3 1 (Some (u ''150.00'')) None sample_effect sample_payload)) = Inr s"
    using validate_same_snapshot [OF ascii_db_ok _ same_json_refl] build_snapshot_result [OF ascii_db_ok sample_snapshot]
    by metis
  from snapshot_validate_canonical [OF ascii_db_ok this] show ?thesis by blast
qed

text \<open>
  The two halves agree on the data: a complete valid candidate of the workflow is accepted by
  the snapshot builder as it is, with its money string and observation entering the snapshot
  unchanged.
\<close>

theorem candidate_enters_snapshot:
  assumes "unicode_ok U" "validate_candidate U c = Inr c" "is_complete c"
    and "prefixed_hex64 effect_id_prefix eff" "prefixed_hex64 payload_digest_prefix pay"
  shows "build_cell_report_snapshot_v2 U (py_of_int (presentes c)) (py_of_int (visitantes c)) (py_of_int (decisoes c))
      (py_of_str (oferta c)) (py_of_str (observacoes c)) (PyStr eff) (PyStr pay)
    = Inr (PyDict (snapshot_json (the (presentes c)) (the (visitantes c)) (the (decisoes c)) (oferta c) (observacoes c)
        eff pay))"
proof -
  have c: "candidate_ok U c" using assms(1,2) by (simp add: validate_candidate_iff)
  obtain p v d where f: "presentes c = Some p" "visitantes c = Some v" "decisoes c = Some d"
    using assms(3) by (auto simp: is_complete_iff)
  have ok: "snap_ok U (p, v, d) (oferta c) (observacoes c) eff pay"
    using c f assms(4,5) by (simp add: snap_ok_def candidate_ok_def count_ok_def)
  have o: "offering_ok (oferta c)" using c by (simp add: candidate_ok_def)
  have "normalize_observacoes U (py_of_str (observacoes c)) = Inr (observacoes c)"
    using c normalize_observacoes_ok [OF assms(1)]
    by (cases "observacoes c") (auto simp: candidate_ok_def normalize_observacoes_def)
  then show ?thesis using build_snapshot_ok [OF assms(1) ok normalize_money_canonical [OF assms(1) o]] f by simp
qed

theorem candidate_enters_snapshot_witness:
  "build_cell_report_snapshot_v2 ascii_db (PyInt 12) (PyInt 3) (PyInt 1) (PyStr (u ''150.00'')) (PyStr (u ''ok''))
      (PyStr sample_effect) (PyStr sample_payload)
    = Inr (PyDict (snapshot_json 12 3 1 (Some (u ''150.00'')) (Some (u ''ok'')) sample_effect sample_payload))"
  using candidate_enters_snapshot [OF ascii_db_ok validate_candidate_ok [OF ascii_db_ok sample_candidates_ok(1)] _ sample_ids]
  by (simp add: is_complete_iff sample_candidate_def)

end
