(* ===== verification/TurnIdentity.thy ===== *)
theory TurnIdentity
  imports ReportSnapshot
begin

text \<open>
  The identity of one inbound agent turn and of the effects planned in it,
  \<open>agent/turn_identity.py\<close>: the turn identifier derived from tenant, conversation and message,
  the strict canonical JSON an effect payload is digested in (bounded depth, node count, integers,
  strings and size), the effect intents and the validation of a turn's collection of intents.

  A Python object is a tree here, so the branch that detects a cycle, the dictionaries with keys
  that are not strings and the instances with missing attributes have no counterpart.
\<close>

section \<open>Vocabulary\<close>

definition MAX_PROVIDER_MESSAGE_ID_BYTES :: nat where "MAX_PROVIDER_MESSAGE_ID_BYTES = 512"
definition MAX_EFFECT_ORDINAL :: int where "MAX_EFFECT_ORDINAL = 2 ^ 63 - 1"
definition MAX_EFFECT_INTENTS_PER_TURN :: nat where "MAX_EFFECT_INTENTS_PER_TURN = 256"
definition MAX_CANONICAL_JSON_DEPTH :: nat where "MAX_CANONICAL_JSON_DEPTH = 32"
definition MAX_CANONICAL_JSON_NODES :: nat where "MAX_CANONICAL_JSON_NODES = 4096"
definition MAX_CANONICAL_JSON_BYTES :: nat where "MAX_CANONICAL_JSON_BYTES = 65536"
definition MAX_CANONICAL_STRING_BYTES :: nat where "MAX_CANONICAL_STRING_BYTES = 32768"
definition MAX_CANONICAL_INTEGER :: int where "MAX_CANONICAL_INTEGER = 2 ^ 53 - 1"

definition turn_id_prefix :: pystr where "turn_id_prefix = u ''agent_turn_v1_''"

datatype inbound_provider = EVOLUTION

fun provider_value :: "inbound_provider \<Rightarrow> pystr" where
  "provider_value EVOLUTION = u ''evolution''"

datatype effect_kind = INTAKE_UPDATE | APPLY_OPTOUT | APPLY_CONSENT | TOOL_CALL | AUDIT_EVENT | OUTBOUND_REPLY

fun kind_value :: "effect_kind \<Rightarrow> pystr" where
  "kind_value INTAKE_UPDATE = u ''intake_update''"
| "kind_value APPLY_OPTOUT = u ''apply_optout''"
| "kind_value APPLY_CONSENT = u ''apply_consent''"
| "kind_value TOOL_CALL = u ''tool_call''"
| "kind_value AUDIT_EVENT = u ''audit_event''"
| "kind_value OUTBOUND_REPLY = u ''outbound_reply''"

datatype effect_slot =
  Slot_INTAKE_UPDATE | Slot_APPLY_OPTOUT | Slot_APPLY_CONSENT | Slot_TOOL_CALL | Slot_AUDIT_EVENT | Slot_OUTBOUND_REPLY

fun slot_value :: "effect_slot \<Rightarrow> pystr" where
  "slot_value Slot_INTAKE_UPDATE = u ''v1/intake_update''"
| "slot_value Slot_APPLY_OPTOUT = u ''v1/apply_optout''"
| "slot_value Slot_APPLY_CONSENT = u ''v1/apply_consent''"
| "slot_value Slot_TOOL_CALL = u ''v1/tool_call''"
| "slot_value Slot_AUDIT_EVENT = u ''v1/audit_event''"
| "slot_value Slot_OUTBOUND_REPLY = u ''v1/outbound_reply''"

fun semantic_slot :: "effect_kind \<Rightarrow> effect_slot" where
  "semantic_slot INTAKE_UPDATE = Slot_INTAKE_UPDATE"
| "semantic_slot APPLY_OPTOUT = Slot_APPLY_OPTOUT"
| "semantic_slot APPLY_CONSENT = Slot_APPLY_CONSENT"
| "semantic_slot TOOL_CALL = Slot_TOOL_CALL"
| "semantic_slot AUDIT_EVENT = Slot_AUDIT_EVENT"
| "semantic_slot OUTBOUND_REPLY = Slot_OUTBOUND_REPLY"

datatype turn_error =
    INVALID_UUID
  | INVALID_PROVIDER_MESSAGE_ID
  | INVALID_TURN_IDENTITY
  | INVALID_EFFECT_ORDINAL
  | INVALID_EFFECT_INTENT
  | EFFECT_COLLECTION_LIMIT_EXCEEDED
  | UNSUPPORTED_JSON_TYPE
  | JSON_INTEGER_OUT_OF_RANGE
  | JSON_INVALID_UNICODE
  | JSON_DEPTH_EXCEEDED
  | JSON_NODE_LIMIT_EXCEEDED
  | JSON_SIZE_EXCEEDED
  | UNEXPECTED_TURN_IDENTITY
  | DUPLICATE_SEMANTIC_SLOT
  | PAYLOAD_DIGEST_CONFLICT
  | EFFECT_ID_COLLISION

section \<open>The identity of a turn\<close>

definition require_non_nil_uuid :: "uuid \<Rightarrow> (turn_error, uuid) result" where
  "require_non_nil_uuid i = (if i = 0 then Inl INVALID_UUID else Inr i)"

definition require_provider_message_id :: "unicode_db \<Rightarrow> pystr \<Rightarrow> (turn_error, bytes) result" where
  "require_provider_message_id U s =
     (if s = [] \<or> length s > MAX_PROVIDER_MESSAGE_ID_BYTES \<or> py_isspace (hd s) \<or> py_isspace (last s)
      then Inl INVALID_PROVIDER_MESSAGE_ID
      else if \<not> list_all (ud_printable U) s then Inl INVALID_PROVIDER_MESSAGE_ID
      else case utf8_encode s of
             None \<Rightarrow> Inl INVALID_PROVIDER_MESSAGE_ID
           | Some b \<Rightarrow> if length b > MAX_PROVIDER_MESSAGE_ID_BYTES then Inl INVALID_PROVIDER_MESSAGE_ID else Inr b)"

definition turn_material :: "uuid \<Rightarrow> uuid \<Rightarrow> uuid \<Rightarrow> inbound_provider \<Rightarrow> bytes \<Rightarrow> bytes" where
  "turn_material igreja conversation inbound prov message =
     binary_frame [ascii_bytes (u ''pastorai.agent.turn-identity''), ascii_bytes (u ''v1''), uuid_bytes igreja,
       uuid_bytes conversation, uuid_bytes inbound, ascii_bytes (provider_value prov), message]"

definition derive_turn_id :: "uuid \<Rightarrow> uuid \<Rightarrow> uuid \<Rightarrow> inbound_provider \<Rightarrow> bytes \<Rightarrow> pystr" where
  "derive_turn_id igreja conversation inbound prov message =
     turn_id_prefix @ hexdigest (sha256 (turn_material igreja conversation inbound prov message))"

record turn_identity =
  ti_igreja_id :: uuid
  ti_conversation_id :: uuid
  ti_inbound_message_id :: uuid
  ti_provider :: inbound_provider
  ti_provider_message_id :: pystr
  ti_turn_id :: pystr

text \<open>\<open>AgentTurnIdentity.__post_init__\<close>, also what \<open>build_agent_turn_identity\<close> returns.\<close>

definition build_agent_turn_identity ::
  "unicode_db \<Rightarrow> uuid \<Rightarrow> uuid \<Rightarrow> uuid \<Rightarrow> pystr \<Rightarrow> inbound_provider \<Rightarrow> (turn_error, turn_identity) result" where
  "build_agent_turn_identity U igreja conversation inbound message prov =
     ebind (require_non_nil_uuid igreja) (\<lambda>i.
     ebind (require_non_nil_uuid conversation) (\<lambda>c.
     ebind (require_non_nil_uuid inbound) (\<lambda>m.
     ebind (require_provider_message_id U message) (\<lambda>b.
       Inr \<lparr>ti_igreja_id = igreja, ti_conversation_id = conversation, ti_inbound_message_id = inbound,
            ti_provider = prov, ti_provider_message_id = message, ti_turn_id = derive_turn_id i c m prov b\<rparr>))))"

definition require_turn_identity :: "unicode_db \<Rightarrow> turn_identity \<Rightarrow> (turn_error, turn_identity) result" where
  "require_turn_identity U t =
     ebind (require_provider_message_id U (ti_provider_message_id t)) (\<lambda>b.
     ebind (require_non_nil_uuid (ti_igreja_id t)) (\<lambda>i.
     ebind (require_non_nil_uuid (ti_conversation_id t)) (\<lambda>c.
     ebind (require_non_nil_uuid (ti_inbound_message_id t)) (\<lambda>m.
       if \<not> prefixed_hex64 turn_id_prefix (ti_turn_id t) \<or> derive_turn_id i c m (ti_provider t) b \<noteq> ti_turn_id t
       then Inl INVALID_TURN_IDENTITY else Inr t))))"

section \<open>Canonical JSON\<close>

definition validate_json_string :: "pystr \<Rightarrow> (turn_error, unit) result" where
  "validate_json_string s =
     (if length s > MAX_CANONICAL_STRING_BYTES then Inl JSON_SIZE_EXCEEDED
      else case utf8_encode s of
             None \<Rightarrow> Inl JSON_INVALID_UNICODE
           | Some b \<Rightarrow> if length b > MAX_CANONICAL_STRING_BYTES then Inl JSON_SIZE_EXCEEDED else Inr ())"

text \<open>The node count is the counter the code threads through one cell; the result is its new value.\<close>

fun validate_json_value :: "nat \<Rightarrow> nat \<Rightarrow> py \<Rightarrow> (turn_error, nat) result"
  and validate_json_items :: "nat \<Rightarrow> nat \<Rightarrow> py list \<Rightarrow> (turn_error, nat) result"
  and validate_json_entries :: "nat \<Rightarrow> nat \<Rightarrow> (pystr \<times> py) list \<Rightarrow> (turn_error, nat) result" where
  "validate_json_value depth n v =
     (if depth > MAX_CANONICAL_JSON_DEPTH then Inl JSON_DEPTH_EXCEEDED
      else if n + 1 > MAX_CANONICAL_JSON_NODES then Inl JSON_NODE_LIMIT_EXCEEDED
      else case v of
             PyNone \<Rightarrow> Inr (n + 1)
           | PyBool b \<Rightarrow> Inr (n + 1)
           | PyInt i \<Rightarrow> if - MAX_CANONICAL_INTEGER \<le> i \<and> i \<le> MAX_CANONICAL_INTEGER then Inr (n + 1)
                        else Inl JSON_INTEGER_OUT_OF_RANGE
           | PyStr s \<Rightarrow> ebind (validate_json_string s) (\<lambda>_. Inr (n + 1))
           | PyList xs \<Rightarrow> validate_json_items (depth + 1) (n + 1) xs
           | PyDict d \<Rightarrow> validate_json_entries (depth + 1) (n + 1) d
           | PyFloat f \<Rightarrow> Inl UNSUPPORTED_JSON_TYPE
           | PyDecimal x \<Rightarrow> Inl UNSUPPORTED_JSON_TYPE)"
| "validate_json_items depth n [] = Inr n"
| "validate_json_items depth n (x # xs) = ebind (validate_json_value depth n x) (\<lambda>n'. validate_json_items depth n' xs)"
| "validate_json_entries depth n [] = Inr n"
| "validate_json_entries depth n ((k, x) # d) =
     ebind (validate_json_string k) (\<lambda>_.
     ebind (validate_json_value depth n x) (\<lambda>n'. validate_json_entries depth n' d))"

declare validate_json_value.simps [simp del]

text \<open>
  The encoder is read in chunks, the sum of whose lengths may not exceed the limit; a validated
  value is always encodable (\<open>validated_encodable\<close>), so that only the total decides.
\<close>

definition canonical_json_bytes :: "py \<Rightarrow> (turn_error, bytes) result" where
  "canonical_json_bytes v =
     ebind (validate_json_value 0 0 v) (\<lambda>_.
       case json_dumps v of
         None \<Rightarrow> Inl UNSUPPORTED_JSON_TYPE
       | Some j \<Rightarrow> (case utf8_encode j of
                      None \<Rightarrow> Inl UNSUPPORTED_JSON_TYPE
                    | Some b \<Rightarrow> if length b > MAX_CANONICAL_JSON_BYTES then Inl JSON_SIZE_EXCEEDED else Inr b))"

section \<open>Effect intents\<close>

definition require_effect_ordinal :: "int \<Rightarrow> (turn_error, int) result" where
  "require_effect_ordinal n = (if 0 \<le> n \<and> n \<le> MAX_EFFECT_ORDINAL then Inr n else Inl INVALID_EFFECT_ORDINAL)"

definition effect_material :: "pystr \<Rightarrow> effect_slot \<Rightarrow> int \<Rightarrow> bytes" where
  "effect_material turn slot ordinal =
     binary_frame [ascii_bytes (u ''pastorai.agent.effect-intent''), ascii_bytes (u ''v1''), ascii_bytes (u ''v1''),
       ascii_bytes turn, ascii_bytes (slot_value slot), int_to_bytes 8 (nat ordinal)]"

definition derive_effect_id :: "pystr \<Rightarrow> effect_slot \<Rightarrow> int \<Rightarrow> pystr" where
  "derive_effect_id turn slot ordinal = effect_id_prefix @ hexdigest (sha256 (effect_material turn slot ordinal))"

definition payload_material :: "pystr \<Rightarrow> effect_kind \<Rightarrow> bytes \<Rightarrow> bytes" where
  "payload_material effect kd canonical =
     binary_frame [ascii_bytes (u ''pastorai.agent.effect-payload''), ascii_bytes (u ''v1''), ascii_bytes effect,
       ascii_bytes (kind_value kd), canonical]"

definition digest_effect_payload :: "pystr \<Rightarrow> effect_kind \<Rightarrow> py \<Rightarrow> (turn_error, pystr) result" where
  "digest_effect_payload effect kd payload =
     (if \<not> prefixed_hex64 effect_id_prefix effect then Inl INVALID_EFFECT_INTENT
      else ebind (canonical_json_bytes payload) (\<lambda>canonical.
        Inr (payload_digest_prefix @ hexdigest (sha256 (payload_material effect kd canonical)))))"

record effect_intent =
  ei_turn_id :: pystr
  ei_kind :: effect_kind
  ei_semantic_slot :: effect_slot
  ei_ordinal :: int
  ei_effect_id :: pystr
  ei_payload_digest :: pystr

definition derive_agent_outbound_reply_effect_id :: "unicode_db \<Rightarrow> turn_identity \<Rightarrow> (turn_error, pystr) result" where
  "derive_agent_outbound_reply_effect_id U t =
     ebind (require_turn_identity U t) (\<lambda>i. Inr (derive_effect_id (ti_turn_id i) (semantic_slot OUTBOUND_REPLY) 0))"

definition build_agent_effect_intent ::
  "unicode_db \<Rightarrow> turn_identity \<Rightarrow> effect_kind \<Rightarrow> int \<Rightarrow> py \<Rightarrow> (turn_error, effect_intent) result" where
  "build_agent_effect_intent U t kd ordinal payload =
     ebind (require_turn_identity U t) (\<lambda>i.
     ebind (require_effect_ordinal ordinal) (\<lambda>n.
       let slot = semantic_slot kd; effect = derive_effect_id (ti_turn_id i) slot n
       in ebind (digest_effect_payload effect kd payload) (\<lambda>d.
            Inr \<lparr>ei_turn_id = ti_turn_id i, ei_kind = kd, ei_semantic_slot = slot, ei_ordinal = n,
                 ei_effect_id = effect, ei_payload_digest = d\<rparr>)))"

definition validate_effect_intent :: "effect_intent \<Rightarrow> (turn_error, effect_intent) result" where
  "validate_effect_intent v =
     ebind (require_effect_ordinal (ei_ordinal v)) (\<lambda>n.
       if ei_semantic_slot v \<noteq> semantic_slot (ei_kind v) then Inl INVALID_EFFECT_INTENT
       else if \<not> prefixed_hex64 turn_id_prefix (ei_turn_id v) then Inl INVALID_EFFECT_INTENT
       else if \<not> prefixed_hex64 effect_id_prefix (ei_effect_id v) then Inl INVALID_EFFECT_INTENT
       else if derive_effect_id (ei_turn_id v) (semantic_slot (ei_kind v)) n \<noteq> ei_effect_id v then Inl INVALID_EFFECT_INTENT
       else if \<not> prefixed_hex64 payload_digest_prefix (ei_payload_digest v) then Inl INVALID_EFFECT_INTENT
       else Inr v)"

text \<open>The loop over the intents, with the two dictionaries \<open>by_occurrence\<close> and \<open>by_effect_id\<close>.\<close>

fun collect_intents ::
  "pystr \<Rightarrow> (effect_slot \<times> int \<rightharpoonup> effect_intent) \<Rightarrow> (pystr \<rightharpoonup> effect_intent) \<Rightarrow> effect_intent list
   \<Rightarrow> (turn_error, effect_intent list) result" where
  "collect_intents turn occs ids [] = Inr []"
| "collect_intents turn occs ids (raw # rest) =
     ebind (validate_effect_intent raw) (\<lambda>cur.
       if turn \<noteq> ei_turn_id cur then Inl UNEXPECTED_TURN_IDENTITY
       else case occs (ei_semantic_slot cur, ei_ordinal cur) of
              Some p \<Rightarrow> if ei_effect_id p = ei_effect_id cur \<and> ei_payload_digest p \<noteq> ei_payload_digest cur
                        then Inl PAYLOAD_DIGEST_CONFLICT else Inl DUPLICATE_SEMANTIC_SLOT
            | None \<Rightarrow>
                if (case ids (ei_effect_id cur) of
                      None \<Rightarrow> False
                    | Some q \<Rightarrow> ei_semantic_slot q \<noteq> ei_semantic_slot cur \<or> ei_ordinal q \<noteq> ei_ordinal cur
                                \<or> ei_payload_digest q \<noteq> ei_payload_digest cur)
                then Inl EFFECT_ID_COLLISION
                else ebind (collect_intents turn (occs((ei_semantic_slot cur, ei_ordinal cur) \<mapsto> cur))
                              (ids(ei_effect_id cur \<mapsto> cur)) rest)
                       (\<lambda>vs. Inr (cur # vs)))"

definition validate_agent_effect_intents ::
  "unicode_db \<Rightarrow> turn_identity \<Rightarrow> effect_intent list \<Rightarrow> (turn_error, effect_intent list) result" where
  "validate_agent_effect_intents U t vs =
     ebind (require_turn_identity U t) (\<lambda>i.
       if length vs > MAX_EFFECT_INTENTS_PER_TURN then Inl EFFECT_COLLECTION_LIMIT_EXCEEDED
       else collect_intents (ti_turn_id i) Map.empty Map.empty vs)"

section \<open>What the JSON validator accepts\<close>

text \<open>The reference reading of the limits: the number of values, the nesting, and the leaves.\<close>

fun json_nodes :: "py \<Rightarrow> nat" where
  "json_nodes (PyList xs) = Suc (sum_list (map json_nodes xs))"
| "json_nodes (PyDict d) = Suc (sum_list (map (\<lambda>(k, x). json_nodes x) d))"
| "json_nodes v = 1"

fun json_height :: "py \<Rightarrow> nat" where
  "json_height (PyList xs) = foldr (\<lambda>x m. max (Suc (json_height x)) m) xs 0"
| "json_height (PyDict d) = foldr (\<lambda>(k, x) m. max (Suc (json_height x)) m) d 0"
| "json_height v = 0"

definition json_string_ok :: "pystr \<Rightarrow> bool" where
  "json_string_ok s = (case utf8_encode s of None \<Rightarrow> False | Some b \<Rightarrow> length b \<le> MAX_CANONICAL_STRING_BYTES)"

fun json_leaves_ok :: "py \<Rightarrow> bool" where
  "json_leaves_ok PyNone = True"
| "json_leaves_ok (PyBool b) = True"
| "json_leaves_ok (PyInt i) = (\<bar>i\<bar> \<le> MAX_CANONICAL_INTEGER)"
| "json_leaves_ok (PyStr s) = json_string_ok s"
| "json_leaves_ok (PyList xs) = list_all json_leaves_ok xs"
| "json_leaves_ok (PyDict d) = list_all (\<lambda>(k, x). json_string_ok k \<and> json_leaves_ok x) d"
| "json_leaves_ok (PyFloat f) = False"
| "json_leaves_ok (PyDecimal x) = False"

definition json_value_ok :: "py \<Rightarrow> bool" where
  "json_value_ok v \<longleftrightarrow> json_height v \<le> MAX_CANONICAL_JSON_DEPTH \<and> json_nodes v \<le> MAX_CANONICAL_JSON_NODES \<and> json_leaves_ok v"

lemma validate_json_string_result: "validate_json_string s = Inr x \<longleftrightarrow> json_string_ok s"
proof -
  have "length s \<le> length b" if "utf8_encode s = Some b" for b
    using utf8_encode_length [OF that] by simp
  then show ?thesis
    by (cases "utf8_encode s")
      (auto simp: validate_json_string_def json_string_ok_def not_less dest: order_trans)
qed

lemma height_list_le: "d + foldr (\<lambda>x m. max (Suc (f x)) m) xs 0 \<le> k \<longleftrightarrow> d \<le> k \<and> (\<forall>x \<in> set xs. Suc d + f x \<le> (k :: nat))"
  by (induction xs) auto

lemma height_dict_le: "d + foldr (\<lambda>(a, x) m. max (Suc (f x)) m) xs 0 \<le> k
    \<longleftrightarrow> d \<le> k \<and> (\<forall>(a, x) \<in> set xs. Suc d + f x \<le> (k :: nat))"
  by (induction xs) auto

lemma json_nodes_pos: "0 < json_nodes v"
  by (cases v) auto

lemma validate_json_results:
  "validate_json_value d n v = Inr m \<longleftrightarrow>
     m = n + json_nodes v \<and> d + json_height v \<le> MAX_CANONICAL_JSON_DEPTH
     \<and> n + json_nodes v \<le> MAX_CANONICAL_JSON_NODES \<and> json_leaves_ok v"
  "validate_json_items d n xs = Inr m \<longleftrightarrow>
     m = n + sum_list (map json_nodes xs)
     \<and> (\<forall>x \<in> set xs. d + json_height x \<le> MAX_CANONICAL_JSON_DEPTH \<and> json_leaves_ok x)
     \<and> (xs = [] \<or> n + sum_list (map json_nodes xs) \<le> MAX_CANONICAL_JSON_NODES)"
  "validate_json_entries d n es = Inr m \<longleftrightarrow>
     m = n + sum_list (map (\<lambda>(k, x). json_nodes x) es)
     \<and> (\<forall>(k, x) \<in> set es. d + json_height x \<le> MAX_CANONICAL_JSON_DEPTH \<and> json_string_ok k \<and> json_leaves_ok x)
     \<and> (es = [] \<or> n + sum_list (map (\<lambda>(k, x). json_nodes x) es) \<le> MAX_CANONICAL_JSON_NODES)"
proof (induction d n v and d n xs and d n es arbitrary: m and m and m
    rule: validate_json_value_validate_json_items_validate_json_entries.induct)
  case (1 d n v)
  note simps = validate_json_value.simps ebind_eq_Inr validate_json_string_result
  show ?case
  proof (cases v)
    case (PyList xs)
    note ih = 1(1) [OF _ _ PyList, simplified]
    show ?thesis
      by (auto simp: simps PyList ih height_list_le list_all_iff not_less)
  next
    case (PyDict es)
    note ih = 1(2) [OF _ _ PyDict, simplified]
    show ?thesis
      by (auto simp: simps PyDict ih height_dict_le list_all_iff not_less)
  qed (auto simp: simps abs_le_iff)
next
  case (3 d n x xs)
  show ?case using json_nodes_pos [of x] by (auto simp: ebind_eq_Inr 3)
next
  case (5 d n k x es)
  show ?case using json_nodes_pos [of x] by (auto simp: ebind_eq_Inr 5 validate_json_string_result)
qed auto

lemma validate_json_iff: "validate_json_value 0 0 v = Inr m \<longleftrightarrow> m = json_nodes v \<and> json_value_ok v"
  by (auto simp: validate_json_results json_value_ok_def)

text \<open>A validated value is encodable, and without floats and decimals.\<close>

lemma leaves_ok_plain: "json_leaves_ok v \<Longrightarrow> plain v"
  by (induction v) (auto simp: list_all_iff snds.simps)

lemma json_string_ok_encodable: "json_string_ok s \<Longrightarrow> encodable s"
  using utf8_encode_encodable [of s] by (auto simp: json_string_ok_def split: option.splits)

lemma encodable_jitems: "\<forall>x \<in> set xs. encodable x \<Longrightarrow> e < 128 \<Longrightarrow> encodable (jitems e xs)"
  by (induction e xs rule: jitems.induct) (auto simp: utf8_char_def)

lemma leaves_ok_encodable: "json_leaves_ok v \<Longrightarrow> encodable (jtext v)"
proof (induction v)
  case (PyInt i)
  then show ?case by (simp add: encodable_ascii [OF str_of_int_ascii])
next
  case (PyStr s)
  then show ?case by (simp add: json_string_ok_encodable encodable_jquote)
next
  case (PyList xs)
  then have "\<forall>x \<in> set (map jtext xs). encodable x" by (auto simp: list_all_iff)
  then show ?case by (simp add: encodable_jitems utf8_char_def)
next
  case (PyDict es)
  have "encodable (jquote k @ 58 # jtext x)" if "(k, x) \<in> set es" for k x
  proof -
    have "json_string_ok k" "json_leaves_ok x" using PyDict.prems that by (auto simp: list_all_iff)
    moreover have "encodable (jtext x)" using PyDict.IH [of "(k, x)" x] that calculation(2) by simp
    ultimately show ?thesis by (simp add: json_string_ok_encodable encodable_jquote utf8_char_def)
  qed
  then have "\<forall>x \<in> set (map (\<lambda>(k, v). jquote k @ 58 # jtext v) es). encodable x" by auto
  then show ?case by (simp add: encodable_jitems utf8_char_def)
qed (auto simp: u_def utf8_char_def)

lemma leaves_ok_sort_keys: "json_leaves_ok v \<Longrightarrow> json_leaves_ok (sort_keys v)"
  by (induction v) (auto simp: list_all_iff snds.simps)

lemma validated_encodable:
  assumes "json_value_ok v"
  obtains b where "json_dumps v = Some (jtext (sort_keys v))" "utf8_encode (jtext (sort_keys v)) = Some b"
proof -
  have l: "json_leaves_ok v" using assms by (simp add: json_value_ok_def)
  have "utf8_encode (jtext (sort_keys v)) \<noteq> None"
    using leaves_ok_encodable [OF leaves_ok_sort_keys [OF l]] utf8_encode_encodable by blast
  with that show thesis using leaves_ok_plain [OF l] by (auto simp: json_dumps_def plain_json_ok)
qed

lemma canonical_json_iff:
  "canonical_json_bytes v = Inr b \<longleftrightarrow>
   json_value_ok v \<and> utf8_encode (jtext (sort_keys v)) = Some b \<and> length b \<le> MAX_CANONICAL_JSON_BYTES"
proof (cases "json_value_ok v")
  case True
  obtain c where c: "json_dumps v = Some (jtext (sort_keys v))" "utf8_encode (jtext (sort_keys v)) = Some c"
    using validated_encodable [OF True] .
  have "validate_json_value 0 0 v = Inr (json_nodes v)" using True validate_json_iff by blast
  then show ?thesis using True c by (auto simp: canonical_json_bytes_def not_less)
next
  case False
  then show ?thesis by (auto simp: canonical_json_bytes_def ebind_eq_Inr validate_json_iff)
qed

section \<open>What the validators accept\<close>

definition identity_ok :: "unicode_db \<Rightarrow> turn_identity \<Rightarrow> bool" where
  "identity_ok U t \<longleftrightarrow> ti_igreja_id t \<noteq> 0 \<and> ti_conversation_id t \<noteq> 0 \<and> ti_inbound_message_id t \<noteq> 0
     \<and> (\<exists>b. require_provider_message_id U (ti_provider_message_id t) = Inr b
          \<and> ti_turn_id t = derive_turn_id (ti_igreja_id t) (ti_conversation_id t) (ti_inbound_message_id t) (ti_provider t) b)"

lemma derived_shapes [simp]:
  "prefixed_hex64 turn_id_prefix (derive_turn_id i c m p b)"
  "prefixed_hex64 effect_id_prefix (derive_effect_id turn slot n)"
  by (simp_all add: derive_turn_id_def derive_effect_id_def)

lemma require_uuid_result: "require_non_nil_uuid i = Inr j \<longleftrightarrow> i \<noteq> 0 \<and> j = i"
  by (auto simp: require_non_nil_uuid_def)

lemma require_turn_identity_result: "require_turn_identity U t = Inr t' \<longleftrightarrow> t' = t \<and> identity_ok U t"
  by (auto simp: require_turn_identity_def identity_ok_def ebind_eq_Inr require_uuid_result)

lemma built_identity_ok: "build_agent_turn_identity U i c m s p = Inr t \<Longrightarrow> identity_ok U t"
  by (auto simp: build_agent_turn_identity_def identity_ok_def ebind_eq_Inr require_uuid_result)

definition occurrence :: "effect_intent \<Rightarrow> effect_slot \<times> int" where
  "occurrence v = (ei_semantic_slot v, ei_ordinal v)"

definition intent_ok :: "effect_intent \<Rightarrow> bool" where
  "intent_ok v \<longleftrightarrow> 0 \<le> ei_ordinal v \<and> ei_ordinal v \<le> MAX_EFFECT_ORDINAL \<and> ei_semantic_slot v = semantic_slot (ei_kind v)
     \<and> prefixed_hex64 turn_id_prefix (ei_turn_id v)
     \<and> ei_effect_id v = derive_effect_id (ei_turn_id v) (ei_semantic_slot v) (ei_ordinal v)
     \<and> prefixed_hex64 payload_digest_prefix (ei_payload_digest v)"

lemma ordinal_result: "require_effect_ordinal n = Inr m \<longleftrightarrow> m = n \<and> 0 \<le> n \<and> n \<le> MAX_EFFECT_ORDINAL"
  by (auto simp: require_effect_ordinal_def)

lemma validate_intent_result: "validate_effect_intent v = Inr w \<longleftrightarrow> w = v \<and> intent_ok v"
  by (auto simp: validate_effect_intent_def intent_ok_def ebind_eq_Inr ordinal_result)
    (metis derived_shapes(2))

text \<open>
  Under the loop's invariant that every intent of \<open>by_effect_id\<close> is also in \<open>by_occurrence\<close>, a
  known effect identifier at a fresh occurrence is always a collision.
\<close>

lemma collect_intents_result:
  assumes "\<And>e q. ids e = Some q \<Longrightarrow> occurrence q \<in> dom occs"
  shows "collect_intents turn occs ids vs = Inr ws \<longleftrightarrow>
    ws = vs \<and> list_all (\<lambda>v. intent_ok v \<and> ei_turn_id v = turn) vs
    \<and> distinct (map occurrence vs) \<and> set (map occurrence vs) \<inter> dom occs = {}
    \<and> distinct (map ei_effect_id vs) \<and> set (map ei_effect_id vs) \<inter> dom ids = {}"
  using assms
proof (induction vs arbitrary: occs ids ws)
  case (Cons v vs)
  let ?occs = "occs(occurrence v \<mapsto> v)" and ?ids = "ids(ei_effect_id v \<mapsto> v)"
  have ih: "collect_intents turn ?occs ?ids vs = Inr qs \<longleftrightarrow>
    qs = vs \<and> list_all (\<lambda>v. intent_ok v \<and> ei_turn_id v = turn) vs
    \<and> distinct (map occurrence vs) \<and> set (map occurrence vs) \<inter> dom ?occs = {}
    \<and> distinct (map ei_effect_id vs) \<and> set (map ei_effect_id vs) \<inter> dom ?ids = {}" for qs
    using Cons.prems by (intro Cons.IH) (fastforce split: if_splits)
  have known: "ei_semantic_slot q \<noteq> ei_semantic_slot v \<or> ei_ordinal q \<noteq> ei_ordinal v"
    if "ids (ei_effect_id v) = Some q" "occs (occurrence v) = None" for q
    using Cons.prems [OF that(1)] that(2) by (auto simp: occurrence_def)
  have occ: "(ei_semantic_slot v, ei_ordinal v) = occurrence v" by (simp add: occurrence_def)
  have step: "collect_intents turn occs ids (v # vs) = Inr ws \<longleftrightarrow>
      intent_ok v \<and> turn = ei_turn_id v \<and> occs (occurrence v) = None \<and> ids (ei_effect_id v) = None
      \<and> (\<exists>qs. collect_intents turn ?occs ?ids vs = Inr qs \<and> ws = v # qs)"
    using known by (auto simp: ebind_eq_Inr validate_intent_result occ split: option.splits)
  have fresh: "set xs \<inter> dom (m(k \<mapsto> v)) = {} \<longleftrightarrow> k \<notin> set xs \<and> set xs \<inter> dom m = {}" for xs k and m :: "'k \<rightharpoonup> effect_intent"
    by auto
  have none: "m k = None \<and> set xs \<inter> dom m = {} \<longleftrightarrow> set (k # xs) \<inter> dom m = {}" for xs k and m :: "'k \<rightharpoonup> effect_intent"
    by auto
  show ?case
    unfolding step ih fresh list.map distinct.simps list.pred_inject none [symmetric] by blast
qed auto

lemma validate_intents_result:
  "validate_agent_effect_intents U t vs = Inr ws \<longleftrightarrow>
   ws = vs \<and> identity_ok U t \<and> length vs \<le> MAX_EFFECT_INTENTS_PER_TURN
   \<and> list_all (\<lambda>v. intent_ok v \<and> ei_turn_id v = ti_turn_id t) vs
   \<and> distinct (map occurrence vs) \<and> distinct (map ei_effect_id vs)"
proof -
  have "collect_intents (ti_turn_id t) Map.empty Map.empty vs = Inr ws \<longleftrightarrow>
    ws = vs \<and> list_all (\<lambda>v. intent_ok v \<and> ei_turn_id v = ti_turn_id t) vs
    \<and> distinct (map occurrence vs) \<and> distinct (map ei_effect_id vs)"
    using collect_intents_result [of Map.empty Map.empty] by simp
  then show ?thesis
    by (auto simp: validate_agent_effect_intents_def ebind_eq_Inr require_turn_identity_result not_less)
qed

lemma digest_payload_result:
  "digest_effect_payload e k p = Inr d \<longleftrightarrow>
   prefixed_hex64 effect_id_prefix e
   \<and> (\<exists>b. canonical_json_bytes p = Inr b \<and> d = payload_digest_prefix @ hexdigest (sha256 (payload_material e k b)))"
  by (auto simp: digest_effect_payload_def ebind_eq_Inr)

lemma build_intent_result:
  "build_agent_effect_intent U t k n p = Inr v \<longleftrightarrow>
   identity_ok U t \<and> 0 \<le> n \<and> n \<le> MAX_EFFECT_ORDINAL
   \<and> (\<exists>d. digest_effect_payload (derive_effect_id (ti_turn_id t) (semantic_slot k) n) k p = Inr d
        \<and> v = \<lparr>ei_turn_id = ti_turn_id t, ei_kind = k, ei_semantic_slot = semantic_slot k, ei_ordinal = n,
              ei_effect_id = derive_effect_id (ti_turn_id t) (semantic_slot k) n, ei_payload_digest = d\<rparr>)"
  by (auto simp: build_agent_effect_intent_def ebind_eq_Inr require_turn_identity_result ordinal_result Let_def)

lemma identity_turn_id: "identity_ok U t \<Longrightarrow> prefixed_hex64 turn_id_prefix (ti_turn_id t)"
  by (auto simp: identity_ok_def)

lemma built_intent_ok: "build_agent_effect_intent U t k n p = Inr v \<Longrightarrow> intent_ok v \<and> ei_turn_id v = ti_turn_id t"
  by (auto simp: build_intent_result intent_ok_def identity_turn_id digest_payload_result)

section \<open>What the materials bind\<close>

lemma kind_value_inj: "kind_value k = kind_value k' \<longleftrightarrow> k = k'"
  by (cases k; cases k') simp_all

lemma slot_value_inj: "slot_value s = slot_value s' \<longleftrightarrow> s = s'"
  by (cases s; cases s') simp_all

lemma semantic_slot_inj: "semantic_slot k = semantic_slot k' \<longleftrightarrow> k = k'"
  by (cases k; cases k') simp_all

lemma value_ascii: "\<forall>c \<in> set (kind_value k). c < 128" "\<forall>c \<in> set (slot_value s). c < 128"
  by (cases k; simp add: u_def) (cases s; simp add: u_def)

lemma value_short: "length (kind_value k) < 32" "length (slot_value s) < 32"
  by (cases k; simp) (cases s; simp)

lemma prefix_ascii: "\<forall>c \<in> set effect_id_prefix. c < 128" "\<forall>c \<in> set turn_id_prefix. c < 128"
  by (simp_all add: effect_id_prefix_def turn_id_prefix_def u_def)

lemma payload_material_inj:
  assumes e: "prefixed_hex64 effect_id_prefix e" "prefixed_hex64 effect_id_prefix e'"
    and b: "length b \<le> MAX_CANONICAL_JSON_BYTES" "length b' \<le> MAX_CANONICAL_JSON_BYTES"
    and m: "payload_material e k b = payload_material e' k' b'"
  shows "e = e' \<and> k = k' \<and> b = b'"
proof -
  have len: "length (kind_value k) < 256 ^ 4" for k using value_short(1) [of k] by simp
  have fr: "frameable [ascii_bytes (u ''pastorai.agent.effect-payload''), ascii_bytes (u ''v1''), ascii_bytes e,
       ascii_bytes (kind_value k), b]"
    if "prefixed_hex64 effect_id_prefix e" "length b \<le> MAX_CANONICAL_JSON_BYTES" for e k b
    using that len [of k] prefixed_hex64_length [OF that(1)]
    by (simp add: frameable_def effect_id_prefix_def MAX_CANONICAL_JSON_BYTES_def)
  have "ascii_bytes e = ascii_bytes e'" "ascii_bytes (kind_value k) = ascii_bytes (kind_value k')" "b = b'"
    using binary_frame_inj [OF fr [OF e(1) b(1), of k] fr [OF e(2) b(2), of k']] m by (auto simp: payload_material_def)
  then show ?thesis
    using ascii_bytes_inj prefixed_hex64_ascii [OF prefix_ascii(1)] e value_ascii(1) kind_value_inj by metis
qed

lemma effect_material_inj:
  assumes t: "prefixed_hex64 turn_id_prefix t" "prefixed_hex64 turn_id_prefix t'"
    and n: "0 \<le> n" "n \<le> MAX_EFFECT_ORDINAL" "0 \<le> n'" "n' \<le> MAX_EFFECT_ORDINAL"
    and m: "effect_material t s n = effect_material t' s' n'"
  shows "t = t' \<and> s = s' \<and> n = n'"
proof -
  have len: "length (slot_value s) < 256 ^ 4" for s using value_short(2) [of s] by simp
  have fr: "frameable [ascii_bytes (u ''pastorai.agent.effect-intent''), ascii_bytes (u ''v1''), ascii_bytes (u ''v1''),
       ascii_bytes t, ascii_bytes (slot_value s), int_to_bytes 8 n]"
    if "prefixed_hex64 turn_id_prefix t" for t s n
    using len [of s] prefixed_hex64_length [OF that] by (simp add: frameable_def turn_id_prefix_def)
  have e: "ascii_bytes t = ascii_bytes t'" "ascii_bytes (slot_value s) = ascii_bytes (slot_value s')"
      "int_to_bytes 8 (nat n) = int_to_bytes 8 (nat n')"
    using binary_frame_inj [OF fr [OF t(1), of s "nat n"] fr [OF t(2), of s' "nat n'"]] m by (auto simp: effect_material_def)
  have "nat n < 256 ^ 8" "nat n' < 256 ^ 8" using n by (auto simp: MAX_EFFECT_ORDINAL_def nat_less_iff)
  then have "n = n'" using int_to_bytes_inj e(3) n by (metis eq_nat_nat_iff)
  then show ?thesis
    using ascii_bytes_inj prefixed_hex64_ascii [OF prefix_ascii(2)] t e(1,2) value_ascii(2) slot_value_inj by metis
qed

lemma canonical_json_same:
  "canonical_json_bytes p = Inr b \<Longrightarrow> canonical_json_bytes q = Inr b \<Longrightarrow> same_json p q"
proof -
  assume a: "canonical_json_bytes p = Inr b" "canonical_json_bytes q = Inr b"
  then have v: "json_value_ok p" "json_value_ok q" and "jtext (sort_keys p) = jtext (sort_keys q)"
    using utf8_encode_inj by (auto simp: canonical_json_iff)
  moreover have "plain p" "plain q" using v by (simp_all add: json_value_ok_def leaves_ok_plain)
  ultimately show "same_json p q"
    using json_dumps_inj [of p q] by (simp add: json_dumps_def plain_json_ok same_json_def)
qed

section \<open>Properties\<close>

text \<open>
  C35. What a turn's collection of intents is after validation.  The validator accepts exactly the
  collections, of at most 256 intents, of a well-formed turn identity in which every intent is
  structurally valid, belongs to that turn and carries the effect identifier derived from its
  slot and ordinal, no two intents occupy the same slot and ordinal, and no two share an effect
  identifier; it returns them unchanged and in order.
\<close>

theorem validated_turn_intents:
  "validate_agent_effect_intents U t vs = Inr ws \<longleftrightarrow>
   ws = vs \<and> identity_ok U t \<and> length vs \<le> 256
   \<and> list_all (\<lambda>v. intent_ok v \<and> ei_turn_id v = ti_turn_id t) vs
   \<and> distinct (map occurrence vs) \<and> distinct (map ei_effect_id vs)"
  by (simp add: validate_intents_result MAX_EFFECT_INTENTS_PER_TURN_def)

text \<open>
  The bounds of the canonical form.  A payload has canonical bytes exactly when it nests at most
  32 levels deep, holds at most 4096 values, all of its integers are within 53 bits and all of its
  strings, keys included, encode to at most 32768 bytes of UTF-8, it holds no float and no
  decimal, and its sorted JSON text encodes to at most 65536 bytes; the canonical bytes are that
  encoding.
\<close>

theorem canonical_json_limits:
  "canonical_json_bytes v = Inr b \<longleftrightarrow>
   json_height v \<le> 32 \<and> json_nodes v \<le> 4096 \<and> json_leaves_ok v
   \<and> utf8_encode (jtext (sort_keys v)) = Some b \<and> length b \<le> 65536"
  by (auto simp: canonical_json_iff json_value_ok_def MAX_CANONICAL_JSON_DEPTH_def
      MAX_CANONICAL_JSON_NODES_def MAX_CANONICAL_JSON_BYTES_def)

text \<open>
  A payload digest binds the effect, its kind and the payload.  Two digests that are equal were
  taken for the same effect identifier, the same kind and the same JSON value, up to the order of
  keys, unless the two digested materials are a collision of SHA-256.
\<close>

theorem payload_digest_binds:
  assumes "digest_effect_payload e k p = Inr d" "digest_effect_payload e' k' p' = Inr d"
  shows "\<exists>b b'. canonical_json_bytes p = Inr b \<and> canonical_json_bytes p' = Inr b'
    \<and> (e = e' \<and> k = k' \<and> same_json p p'
       \<or> payload_material e k b \<noteq> payload_material e' k' b'
         \<and> sha256 (payload_material e k b) = sha256 (payload_material e' k' b'))"
proof -
  obtain b b' where b: "canonical_json_bytes p = Inr b" "canonical_json_bytes p' = Inr b'"
    and d: "d = payload_digest_prefix @ hexdigest (sha256 (payload_material e k b))"
      "d = payload_digest_prefix @ hexdigest (sha256 (payload_material e' k' b'))"
    and e: "prefixed_hex64 effect_id_prefix e" "prefixed_hex64 effect_id_prefix e'"
    using assms by (auto simp: digest_payload_result)
  have "length b \<le> MAX_CANONICAL_JSON_BYTES" "length b' \<le> MAX_CANONICAL_JSON_BYTES"
    using b by (simp_all add: canonical_json_iff)
  note inj = payload_material_inj [OF e this]
  have "sha256 (payload_material e k b) = sha256 (payload_material e' k' b')"
    using d by (auto intro: hexdigest_inj)
  then show ?thesis using b inj canonical_json_same by blast
qed

definition sample_identity :: turn_identity where
  "sample_identity = \<lparr>ti_igreja_id = 1, ti_conversation_id = 2, ti_inbound_message_id = 3, ti_provider = EVOLUTION,
     ti_provider_message_id = u ''msg'', ti_turn_id = derive_turn_id 1 2 3 EVOLUTION (ascii_bytes (u ''msg''))\<rparr>"

lemma sample_identity_ok: "identity_ok ascii_db sample_identity"
  by (simp add: identity_ok_def sample_identity_def require_provider_message_id_def u_def ascii_bytes_def ascii_db_def
      utf8_char_def py_isspace_def MAX_PROVIDER_MESSAGE_ID_BYTES_def)

lemma sample_payload_bytes: "\<exists>b. canonical_json_bytes (PyDict [(u ''schema'', PyStr (u ''x''))]) = Inr b"
  by (simp add: canonical_json_iff json_value_ok_def MAX_CANONICAL_JSON_DEPTH_def
      MAX_CANONICAL_JSON_NODES_def MAX_CANONICAL_JSON_BYTES_def json_string_ok_def u_def utf8_char_def jquote_def jchar_def
      MAX_CANONICAL_STRING_BYTES_def)

theorem payload_digest_binds_witness:
  "\<exists>d. digest_effect_payload sample_effect TOOL_CALL (PyDict [(u ''schema'', PyStr (u ''x''))]) = Inr d"
proof -
  obtain d where d: "digest_effect_payload sample_effect TOOL_CALL (PyDict [(u ''schema'', PyStr (u ''x''))]) = Inr d"
    using sample_payload_bytes sample_ids(1) by (auto simp: digest_payload_result)
  from payload_digest_binds [OF d d] d show ?thesis by blast
qed

end
