(* ===== verification/PyTime.thy ===== *)
theory PyTime
  imports PyText
begin

text \<open>
  The parts of \<open>datetime\<close> the code uses: values with a time zone, \<open>utcoffset\<close>,
  \<open>astimezone(timezone.utc)\<close>, comparison and subtraction of aware values, \<open>replace\<close>,
  adding a number of days, and the canonical rendering and parsing of UTC instants.  Calendar
  arithmetic is the proleptic Gregorian calendar of the standard library, years 1 to 9999; an
  operation that leaves this range raises \<open>OverflowError\<close> or \<open>ValueError\<close> (\<open>None\<close> here).
\<close>

section \<open>Values\<close>

text \<open>
  \<open>TimezoneUtc\<close> is the object \<open>dt.timezone.utc\<close>; any other \<open>tzinfo\<close> answers \<open>utcoffset\<close> with
  an offset in microseconds, strictly between minus and plus one day, or with \<open>None\<close>.
\<close>

datatype tz = Naive | TimezoneUtc | OtherTz "int option"

record datetime =
  year :: nat
  month :: nat
  day :: nat
  hour :: nat
  minute :: nat
  second :: nat
  microsecond :: nat
  tzinfo :: tz

definition is_leap :: "nat \<Rightarrow> bool" where
  "is_leap y \<longleftrightarrow> y mod 4 = 0 \<and> (y mod 100 \<noteq> 0 \<or> y mod 400 = 0)"

definition days_in_month :: "nat \<Rightarrow> nat \<Rightarrow> nat" where
  "days_in_month y m =
     (if m = 2 then (if is_leap y then 29 else 28)
      else if m \<in> {4, 6, 9, 11} then 30 else 31)"

definition valid_date :: "nat \<Rightarrow> nat \<Rightarrow> nat \<Rightarrow> bool" where
  "valid_date y m d \<longleftrightarrow> 1 \<le> y \<and> y \<le> 9999 \<and> 1 \<le> m \<and> m \<le> 12 \<and> 1 \<le> d \<and> d \<le> days_in_month y m"

text \<open>What the \<open>datetime\<close> constructor guarantees of every value.\<close>

definition valid_datetime :: "datetime \<Rightarrow> bool" where
  "valid_datetime t \<longleftrightarrow>
     valid_date (year t) (month t) (day t) \<and> hour t < 24 \<and> minute t < 60 \<and> second t < 60
     \<and> microsecond t < 1000000
     \<and> (case tzinfo t of OtherTz (Some off) \<Rightarrow> - 86400000000 < off \<and> off < 86400000000 | _ \<Rightarrow> True)"

definition utcoffset :: "datetime \<Rightarrow> int option" where
  "utcoffset t = (case tzinfo t of Naive \<Rightarrow> None | TimezoneUtc \<Rightarrow> Some 0 | OtherTz off \<Rightarrow> off)"

section \<open>Instants\<close>

definition days_before_year :: "nat \<Rightarrow> nat" where
  "days_before_year y = (y - 1) * 365 + (y - 1) div 4 - (y - 1) div 100 + (y - 1) div 400"

fun days_before_month :: "nat \<Rightarrow> nat \<Rightarrow> nat" where
  "days_before_month y 0 = 0"
| "days_before_month y (Suc m) = (if m = 0 then 0 else days_before_month y m + days_in_month y m)"

definition toordinal :: "datetime \<Rightarrow> nat" where
  "toordinal t = days_before_year (year t) + days_before_month (year t) (month t) + day t"

definition day_micros :: "datetime \<Rightarrow> nat" where
  "day_micros t = ((hour t * 60 + minute t) * 60 + second t) * 1000000 + microsecond t"

text \<open>Microseconds on the UTC axis: what comparison and subtraction of aware values are about.\<close>

definition instant :: "datetime \<Rightarrow> int" where
  "instant t = int (toordinal t) * 86400000000 + int (day_micros t)
     - (case utcoffset t of None \<Rightarrow> 0 | Some off \<Rightarrow> off)"

section \<open>Day arithmetic\<close>

definition next_day :: "datetime \<Rightarrow> datetime option" where
  "next_day t =
     (if day t < days_in_month (year t) (month t) then Some (t\<lparr>day := day t + 1\<rparr>)
      else if month t < 12 then Some (t\<lparr>month := month t + 1, day := 1\<rparr>)
      else if year t < 9999 then Some (t\<lparr>year := year t + 1, month := 1, day := 1\<rparr>)
      else None)"

definition prev_day :: "datetime \<Rightarrow> datetime option" where
  "prev_day t =
     (if 1 < day t then Some (t\<lparr>day := day t - 1\<rparr>)
      else if 1 < month t then Some (t\<lparr>month := month t - 1, day := days_in_month (year t) (month t - 1)\<rparr>)
      else if 1 < year t then Some (t\<lparr>year := year t - 1, month := 12, day := 31\<rparr>)
      else None)"

fun add_days :: "nat \<Rightarrow> datetime \<Rightarrow> datetime option" where
  "add_days 0 t = Some t"
| "add_days (Suc n) t = (case next_day t of None \<Rightarrow> None | Some t' \<Rightarrow> add_days n t')"

definition with_day_micros :: "datetime \<Rightarrow> nat \<Rightarrow> datetime" where
  "with_day_micros t us =
     t\<lparr>hour := us div 3600000000, minute := us div 60000000 mod 60, second := us div 1000000 mod 60,
       microsecond := us mod 1000000\<rparr>"

text \<open>\<open>t.astimezone(dt.timezone.utc)\<close> of an aware value.\<close>

definition astimezone_utc :: "datetime \<Rightarrow> datetime option" where
  "astimezone_utc t =
     (case utcoffset t of
        None \<Rightarrow> None
      | Some off \<Rightarrow>
          (let us = int (day_micros t) - off;
               base = t\<lparr>tzinfo := TimezoneUtc\<rparr>
           in if us < 0 then map_option (\<lambda>b. with_day_micros b (nat (us + 86400000000))) (prev_day base)
              else if us \<ge> 86400000000
              then map_option (\<lambda>b. with_day_micros b (nat (us - 86400000000))) (next_day base)
              else Some (with_day_micros base (nat us))))"

lemma days_in_month_bounds: "28 \<le> days_in_month y m" "days_in_month y m \<le> 31"
  by (simp_all add: days_in_month_def)

lemma days_before_month_13: "days_before_month y 13 = (if is_leap y then 366 else 365)"
  by (simp add: eval_nat_numeral days_in_month_def)

lemma days_before_month_Suc: "0 < m \<Longrightarrow> days_before_month y (Suc m) = days_before_month y m + days_in_month y m"
  by simp

lemma div_Suc_cases: "Suc n div d = (if Suc n mod d = 0 then Suc (n div d) else n div d)"
  by (rule div_Suc)

lemma centuries_bound: "n div 100 \<le> n div 4" for n :: nat
  by (simp add: div_le_mono2)

lemma days_before_year_Suc:
  assumes "1 \<le> y"
  shows "days_before_year (Suc y) = days_before_year y + (if is_leap y then 366 else 365)"
proof -
  obtain n where y: "y = Suc n" using assms by (cases y) auto
  define a c d where "a = n div 4" and "c = n div 100" and "d = n div 400"
  have q: "Suc n div 4 = a + (if Suc n mod 4 = 0 then 1 else 0)"
    "Suc n div 100 = c + (if Suc n mod 100 = 0 then 1 else 0)"
    "Suc n div 400 = d + (if Suc n mod 400 = 0 then 1 else 0)"
    by (simp_all add: div_Suc a_def c_def d_def)
  have m: "Suc n mod 400 = 0 \<Longrightarrow> Suc n mod 100 = 0" "Suc n mod 100 = 0 \<Longrightarrow> Suc n mod 4 = 0"
    using dvd_trans [of 100 400 "Suc n"] dvd_trans [of 4 100 "Suc n"] by (auto simp: dvd_eq_mod_eq_0)
  have "c \<le> a" using centuries_bound by (simp add: a_def c_def)
  then have "(n * 365 + 365 + (a + (if Suc n mod 4 = 0 then 1 else 0)))
      - (c + (if Suc n mod 100 = 0 then 1 else 0)) + (d + (if Suc n mod 400 = 0 then 1 else 0))
    = n * 365 + a - c + d + (if is_leap (Suc n) then 366 else 365)"
    using m unfolding is_leap_def by (cases "Suc n mod 4 = 0"; cases "Suc n mod 100 = 0"; cases "Suc n mod 400 = 0") simp_all
  then show ?thesis unfolding y days_before_year_def diff_Suc_1 q
    by (simp only: a_def [symmetric] c_def [symmetric] d_def [symmetric] mult_Suc add.commute)
qed

lemma next_day_ordinal:
  assumes "valid_date (year t) (month t) (day t)" "next_day t = Some t'"
  shows "toordinal t' = toordinal t + 1 \<and> valid_date (year t') (month t') (day t')
    \<and> hour t' = hour t \<and> minute t' = minute t \<and> second t' = second t \<and> microsecond t' = microsecond t
    \<and> tzinfo t' = tzinfo t"
proof -
  consider "day t < days_in_month (year t) (month t)"
    | "day t = days_in_month (year t) (month t)" "month t < 12"
    | "day t = days_in_month (year t) (month t)" "month t = 12" "year t < 9999"
    using assms by (auto simp: valid_date_def next_day_def split: if_splits)
  then show ?thesis
  proof cases
    case 1
    then show ?thesis using assms by (auto simp: next_day_def valid_date_def toordinal_def)
  next
    case 2
    moreover have "days_before_month (year t) (Suc (month t)) = days_before_month (year t) (month t) + day t"
      using 2 assms(1) by (subst days_before_month_Suc) (auto simp: valid_date_def)
    ultimately show ?thesis
      using assms days_in_month_bounds(1) [of "year t" "Suc (month t)"]
      by (auto simp: next_day_def valid_date_def toordinal_def simp del: days_before_month.simps(2))
  next
    case 3
    then have "days_before_month (year t) 12 + day t = (if is_leap (year t) then 366 else 365)"
      using days_before_month_13 [of "year t"] days_before_month_Suc [of 12 "year t"] by simp
    moreover have "days_before_year (Suc (year t)) = days_before_year (year t) + (if is_leap (year t) then 366 else 365)"
      using assms(1) by (intro days_before_year_Suc) (simp add: valid_date_def)
    moreover have "days_before_month (Suc (year t)) 1 = 0" by simp
    ultimately show ?thesis
      using 3 assms days_in_month_bounds(1) [of "Suc (year t)" 1]
      by (auto simp: next_day_def valid_date_def toordinal_def days_in_month_def simp del: days_before_month.simps(2))
  qed
qed

lemma next_day_instant:
  assumes "valid_datetime t" "next_day t = Some t'"
  shows "valid_datetime t' \<and> instant t' = instant t + 86400000000 \<and> tzinfo t' = tzinfo t"
  using next_day_ordinal [of t t'] assms
  by (simp add: valid_datetime_def instant_def day_micros_def utcoffset_def)

lemma add_days_instant:
  "valid_datetime t \<Longrightarrow> add_days n t = Some t' \<Longrightarrow>
   valid_datetime t' \<and> instant t' = instant t + int n * 86400000000 \<and> tzinfo t' = tzinfo t"
proof (induction n arbitrary: t)
  case (Suc n)
  then obtain s where s: "next_day t = Some s" "add_days n s = Some t'"
    by (auto split: option.splits)
  then have "valid_datetime s \<and> instant s = instant t + 86400000000 \<and> tzinfo s = tzinfo t"
    using next_day_instant Suc.prems(1) by blast
  with Suc.IH [of s] s(2) show ?case by (simp add: algebra_simps)
qed simp

text \<open>Adding days can only fail by leaving the last year of the calendar.\<close>

lemma next_day_year: "next_day t = Some t' \<Longrightarrow> year t' \<le> year t + 1 \<and> (year t' \<noteq> year t \<longrightarrow> month t' = 1 \<and> day t' = 1)"
  by (auto simp: next_day_def split: if_splits)

lemma next_day_defined: "year t < 9999 \<Longrightarrow> \<exists>t'. next_day t = Some t'"
  by (simp add: next_day_def)

lemma prev_day_ordinal:
  assumes "valid_date (year t) (month t) (day t)" "prev_day t = Some t'"
  shows "toordinal t = toordinal t' + 1 \<and> valid_date (year t') (month t') (day t')
    \<and> hour t' = hour t \<and> minute t' = minute t \<and> second t' = second t \<and> microsecond t' = microsecond t
    \<and> tzinfo t' = tzinfo t"
proof -
  consider "1 < day t" | "day t = 1" "1 < month t" | "day t = 1" "month t = 1" "1 < year t"
    using assms by (auto simp: valid_date_def prev_day_def split: if_splits)
  then show ?thesis
  proof cases
    case 1
    then show ?thesis using assms by (auto simp: prev_day_def valid_date_def toordinal_def)
  next
    case 2
    then obtain m where m: "month t = Suc m" "0 < m" by (cases "month t") auto
    have "days_before_month (year t) (Suc m) = days_before_month (year t) m + days_in_month (year t) m"
      using m by (intro days_before_month_Suc)
    then show ?thesis
      using 2 m assms days_in_month_bounds [of "year t" m]
      by (auto simp: prev_day_def valid_date_def toordinal_def simp del: days_before_month.simps(2))
  next
    case 3
    then obtain y where y: "year t = Suc y" "1 \<le> y" by (cases "year t") auto
    have "days_before_month y 12 + 31 = (if is_leap y then 366 else 365)"
      using days_before_month_13 [of y] days_before_month_Suc [of 12 y] by (simp add: days_in_month_def)
    moreover have "days_before_year (Suc y) = days_before_year y + (if is_leap y then 366 else 365)"
      using y by (intro days_before_year_Suc)
    moreover have "days_before_month (Suc y) 1 = 0" by simp
    ultimately show ?thesis
      using 3 y assms
      by (auto simp: prev_day_def valid_date_def toordinal_def days_in_month_def simp del: days_before_month.simps(2))
  qed
qed

lemma with_day_micros_simps:
  assumes "us < 86400000000"
  shows "day_micros (with_day_micros t us) = us" "hour (with_day_micros t us) < 24"
    "minute (with_day_micros t us) < 60" "second (with_day_micros t us) < 60"
    "microsecond (with_day_micros t us) < 1000000"
    "toordinal (with_day_micros t us) = toordinal t" "tzinfo (with_day_micros t us) = tzinfo t"
    "year (with_day_micros t us) = year t" "month (with_day_micros t us) = month t" "day (with_day_micros t us) = day t"
proof -
  have q: "us div 60000000 = us div 1000000 div 60" "us div 3600000000 = us div 60000000 div 60"
    by (simp_all add: div_mult2_eq [symmetric])
  show "day_micros (with_day_micros t us) = us"
    using div_mult_mod_eq [of us 1000000] div_mult_mod_eq [of "us div 1000000" 60]
      div_mult_mod_eq [of "us div 60000000" 60] q
    by (simp add: day_micros_def with_day_micros_def)
qed (use assms in \<open>simp_all add: with_day_micros_def toordinal_def div_less_iff_less_mult\<close>)

lemma with_day_micros_fields:
  "hour (with_day_micros t us) = us div 3600000000" "minute (with_day_micros t us) = us div 60000000 mod 60"
  "second (with_day_micros t us) = us div 1000000 mod 60" "microsecond (with_day_micros t us) = us mod 1000000"
  by (simp_all add: with_day_micros_def)

lemma day_micros_bound: "valid_datetime t \<Longrightarrow> day_micros t < 86400000000"
  by (simp add: valid_datetime_def day_micros_def)

text \<open>Converting to UTC keeps the instant.\<close>

lemma astimezone_utc_instant:
  assumes v: "valid_datetime t" and a: "astimezone_utc t = Some s"
  shows "valid_datetime s \<and> instant s = instant t \<and> tzinfo s = TimezoneUtc"
proof -
  obtain off where off: "utcoffset t = Some off" using a by (auto simp: astimezone_utc_def split: option.splits)
  have ob: "- 86400000000 < off" "off < 86400000000"
    using v off by (auto simp: valid_datetime_def utcoffset_def split: tz.splits option.splits)
  define us where "us = int (day_micros t) - off"
  define b where "b = t\<lparr>tzinfo := TimezoneUtc\<rparr>"
  have us: "- 86400000000 < us" "us < 2 * 86400000000" using ob day_micros_bound [OF v] by (auto simp: us_def)
  have vb: "valid_date (year b) (month b) (day b)" "toordinal b = toordinal t" "tzinfo b = TimezoneUtc"
    using v by (simp_all add: b_def valid_datetime_def toordinal_def)
  have fin: "valid_datetime (with_day_micros c n) \<and> instant (with_day_micros c n) = int (toordinal c) * 86400000000 + int n
      \<and> tzinfo (with_day_micros c n) = TimezoneUtc"
    if "n < 86400000000" "valid_date (year c) (month c) (day c)" "tzinfo c = TimezoneUtc" for c n
    using that with_day_micros_simps [OF that(1), of c]
    by (simp add: valid_datetime_def instant_def utcoffset_def)
  have it: "instant t = int (toordinal t) * 86400000000 + us" using off by (simp add: instant_def us_def)
  consider "us < 0" | "0 \<le> us" "us < 86400000000" | "86400000000 \<le> us" by linarith
  then show ?thesis
  proof cases
    case 1
    then obtain c where "prev_day b = Some c" "s = with_day_micros c (nat (us + 86400000000))"
      using a off by (auto simp: astimezone_utc_def Let_def us_def b_def)
    then show ?thesis
      using fin [of "nat (us + 86400000000)" c] prev_day_ordinal [OF vb(1), of c] vb it us 1 by auto
  next
    case 2
    then have "s = with_day_micros b (nat us)" using a off by (auto simp: astimezone_utc_def Let_def us_def b_def)
    then show ?thesis using fin [of "nat us" b] vb it 2 by auto
  next
    case 3
    then obtain c where "next_day b = Some c" "s = with_day_micros c (nat (us - 86400000000))"
      using a off by (auto simp: astimezone_utc_def Let_def us_def b_def)
    then show ?thesis
      using fin [of "nat (us - 86400000000)" c] next_day_ordinal [OF vb(1), of c] vb it us 3 by auto
  qed
qed

lemma with_day_micros_self:
  assumes "valid_datetime t"
  shows "with_day_micros t (day_micros t) = t"
proof -
  have e: "day_micros t = ((hour t * 60 + minute t) * 60 + second t) * 1000000 + microsecond t"
    by (simp add: day_micros_def)
  have b: "minute t < 60" "second t < 60" "microsecond t < 1000000" using assms by (simp_all add: valid_datetime_def)
  have d1: "day_micros t div 1000000 = (hour t * 60 + minute t) * 60 + second t" "day_micros t mod 1000000 = microsecond t"
    unfolding e using b by (simp_all only: mod_mult_self3 mod_less div_mult_self3)
  have d2: "((hour t * 60 + minute t) * 60 + second t) div 60 = hour t * 60 + minute t"
    "((hour t * 60 + minute t) * 60 + second t) mod 60 = second t"
    using b by (simp_all only: mod_mult_self3 mod_less div_mult_self3)
  have d3: "(hour t * 60 + minute t) div 60 = hour t" "(hour t * 60 + minute t) mod 60 = minute t"
    using b by (simp_all only: mod_mult_self3 mod_less div_mult_self3)
  have q: "day_micros t div 60000000 = day_micros t div 1000000 div 60"
    "day_micros t div 3600000000 = day_micros t div 1000000 div 60 div 60"
    by (simp_all add: div_mult2_eq [symmetric])
  show ?thesis unfolding with_day_micros_def q d1 d2 d3 by simp
qed

lemma astimezone_utc_utc:
  assumes "valid_datetime t" "tzinfo t = TimezoneUtc"
  shows "astimezone_utc t = Some t"
proof -
  have "t\<lparr>tzinfo := TimezoneUtc\<rparr> = t" using assms(2) by simp
  then have "with_day_micros (t\<lparr>tzinfo := TimezoneUtc\<rparr>) (day_micros t) = t"
    using with_day_micros_self [OF assms(1)] by (simp only:)
  then show ?thesis
    using assms day_micros_bound [OF assms(1)] by (simp add: astimezone_utc_def utcoffset_def Let_def)
qed

section \<open>An instant has one UTC representation\<close>

lemma days_before_year_mono:
  assumes "1 \<le> y"
  shows "y < z \<Longrightarrow> days_before_year y + (if is_leap y then 366 else 365) \<le> days_before_year z"
proof (induction z)
  case (Suc z)
  show ?case
  proof (cases "y < z")
    case True
    then show ?thesis using Suc.IH days_before_year_Suc [of z] assms by simp
  next
    case False
    then have "z = y" using Suc.prems by simp
    then show ?thesis using days_before_year_Suc [OF assms] by simp
  qed
qed simp

lemma days_before_month_mono:
  "1 \<le> m \<Longrightarrow> m < n \<Longrightarrow> days_before_month y m + days_in_month y m \<le> days_before_month y n"
proof (induction n)
  case (Suc n)
  show ?case
  proof (cases "m < n")
    case True
    then show ?thesis using Suc.IH Suc.prems days_before_month_Suc [of n y] by simp
  next
    case False
    then have "n = m" using Suc.prems by simp
    then show ?thesis using Suc.prems days_before_month_Suc [of m y] by simp
  qed
qed simp

lemma day_of_year_bound:
  assumes "valid_date y m d"
  shows "1 \<le> days_before_month y m + d" "days_before_month y m + d \<le> (if is_leap y then 366 else 365)"
  using assms days_before_month_mono [of m 13 y] days_before_month_13 [of y] by (auto simp: valid_date_def)

lemma toordinal_less:
  assumes s: "valid_date (year s) (month s) (day s)" and t: "valid_date (year t) (month t) (day t)"
    and lt: "year s < year t \<or> year s = year t \<and> (month s < month t \<or> month s = month t \<and> day s < day t)"
  shows "toordinal s < toordinal t"
proof -
  consider "year s < year t" | "year s = year t" "month s < month t"
    | "year s = year t" "month s = month t" "day s < day t"
    using lt by blast
  then show ?thesis
  proof cases
    case 1
    then show ?thesis
      using days_before_year_mono [of "year s" "year t"] day_of_year_bound [OF s] day_of_year_bound [OF t] s
      unfolding toordinal_def valid_date_def by linarith
  next
    case 2
    then show ?thesis
      using days_before_month_mono [of "month s" "month t" "year s"] s t
      unfolding toordinal_def valid_date_def by simp
  next
    case 3
    then show ?thesis by (simp add: toordinal_def)
  qed
qed

lemma toordinal_inj:
  assumes "valid_date (year s) (month s) (day s)" "valid_date (year t) (month t) (day t)" "toordinal s = toordinal t"
  shows "year s = year t \<and> month s = month t \<and> day s = day t"
  using toordinal_less [OF assms(1,2)] toordinal_less [OF assms(2,1)] assms(3) by (metis linorder_neqE_nat less_irrefl)

lemma instant_inj:
  assumes "valid_datetime s" "valid_datetime t" "utcoffset s = Some 0" "utcoffset t = Some 0" "instant s = instant t"
  shows "s\<lparr>tzinfo := z\<rparr> = t\<lparr>tzinfo := z\<rparr>"
proof -
  define a b where "a = int (toordinal s)" and "b = int (toordinal t)"
  define m n where "m = int (day_micros s)" and "n = int (day_micros t)"
  have "0 \<le> m" "m < 86400000000" "0 \<le> n" "n < 86400000000"
    using day_micros_bound [OF assms(1)] day_micros_bound [OF assms(2)] by (simp_all add: m_def n_def)
  moreover have "a * 86400000000 + m = b * 86400000000 + n"
    using assms(3-5) by (simp add: instant_def a_def b_def m_def n_def)
  ultimately have ab: "a = b" and "m = n"
    by (cases a b rule: linorder_cases; linarith)+
  then have o: "toordinal s = toordinal t" and d: "day_micros s = day_micros t"
    by (simp_all add: a_def b_def m_def n_def)
  have "year s = year t \<and> month s = month t \<and> day s = day t"
    using assms(1,2) o by (intro toordinal_inj) (simp_all add: valid_datetime_def)
  moreover have "hour s = hour t \<and> minute s = minute t \<and> second s = second t \<and> microsecond s = microsecond t"
    using with_day_micros_fields [of s "day_micros s"] with_day_micros_fields [of t "day_micros t"]
    unfolding with_day_micros_self [OF assms(1)] with_day_micros_self [OF assms(2)] by (simp add: d)
  ultimately show ?thesis by simp
qed

section \<open>Canonical text of a UTC instant\<close>

text \<open>
  \<open>value.isoformat(timespec="microseconds").replace("+00:00", "Z")\<close> of a value with offset
  zero, and the inverse: \<open>fullmatch\<close> of the fixed pattern, then
  \<open>strptime(value, "%Y-%m-%dT%H:%M:%S.%fZ")\<close>.
\<close>

definition render_instant :: "datetime \<Rightarrow> pystr" where
  "render_instant t =
     zero_pad 4 (year t) @ [45] @ zero_pad 2 (month t) @ [45] @ zero_pad 2 (day t) @ [84]
     @ zero_pad 2 (hour t) @ [58] @ zero_pad 2 (minute t) @ [58] @ zero_pad 2 (second t) @ [46]
     @ zero_pad 6 (microsecond t) @ [90]"

definition text_field :: "nat \<Rightarrow> nat \<Rightarrow> pystr \<Rightarrow> pystr" where
  "text_field i n s = take n (drop i s)"

definition canonical_instant_text :: "pystr \<Rightarrow> bool" where
  "canonical_instant_text s \<longleftrightarrow>
     length s = 27
     \<and> list_all is_digit (text_field 0 4 s @ text_field 5 2 s @ text_field 8 2 s @ text_field 11 2 s
          @ text_field 14 2 s @ text_field 17 2 s @ text_field 20 6 s)
     \<and> s ! 4 = 45 \<and> s ! 7 = 45 \<and> s ! 10 = 84 \<and> s ! 13 = 58 \<and> s ! 16 = 58 \<and> s ! 19 = 46 \<and> s ! 26 = 90"

definition parse_instant :: "pystr \<Rightarrow> datetime option" where
  "parse_instant s =
     (if \<not> canonical_instant_text s then None
      else let n = (\<lambda>i k. nat_of_digits (text_field i k s));
               t = \<lparr>year = n 0 4, month = n 5 2, day = n 8 2, hour = n 11 2, minute = n 14 2, second = n 17 2,
                    microsecond = n 20 6, tzinfo = TimezoneUtc\<rparr>
           in if valid_datetime t then Some t else None)"

lemma valid_datetime_bounds:
  assumes "valid_datetime t"
  shows "year t < 10 ^ 4" "month t < 10 ^ 2" "day t < 10 ^ 2" "hour t < 10 ^ 2" "minute t < 10 ^ 2" "second t < 10 ^ 2"
    "microsecond t < 10 ^ 6"
  using assms days_in_month_bounds(2) [of "year t" "month t"] by (auto simp: valid_datetime_def valid_date_def)

lemma render_fields:
  assumes "valid_datetime t"
  defines "s \<equiv> render_instant t"
  shows "length s = 27"
    "text_field 0 4 s = zero_pad 4 (year t)" "text_field 5 2 s = zero_pad 2 (month t)"
    "text_field 8 2 s = zero_pad 2 (day t)" "text_field 11 2 s = zero_pad 2 (hour t)"
    "text_field 14 2 s = zero_pad 2 (minute t)" "text_field 17 2 s = zero_pad 2 (second t)"
    "text_field 20 6 s = zero_pad 6 (microsecond t)"
    "s ! 4 = 45" "s ! 7 = 45" "s ! 10 = 84" "s ! 13 = 58" "s ! 16 = 58" "s ! 19 = 46" "s ! 26 = 90"
  using valid_datetime_bounds [OF assms(1), THEN length_zero_pad]
  by (simp_all add: s_def render_instant_def text_field_def nth_append)

lemma parse_render_instant:
  assumes "valid_datetime t" "tzinfo t = TimezoneUtc"
  shows "parse_instant (render_instant t) = Some t"
proof -
  have "list_all is_digit (zero_pad k n)" for k n using zero_pad_digits by (simp add: list_all_iff)
  then have c: "canonical_instant_text (render_instant t)"
    using render_fields [OF assms(1)] by (simp add: canonical_instant_text_def)
  have "\<lparr>year = year t, month = month t, day = day t, hour = hour t, minute = minute t, second = second t,
      microsecond = microsecond t, tzinfo = TimezoneUtc\<rparr> = t" using assms(2) by simp
  then show ?thesis using c render_fields [OF assms(1)] assms(1) by (simp add: parse_instant_def Let_def)
qed

lemma parse_instant_valid: "parse_instant s = Some t \<Longrightarrow> valid_datetime t \<and> tzinfo t = TimezoneUtc"
  by (auto simp: parse_instant_def Let_def split: if_splits)

lemma render_instant_ascii: "\<forall>c \<in> set (render_instant t). c < 128"
  using zero_pad_digits is_digit_ascii by (auto simp: render_instant_def)

lemma render_instant_tz: "render_instant (t\<lparr>tzinfo := z\<rparr>) = render_instant t"
  by (simp add: render_instant_def)

text \<open>The text and the instant of a UTC value determine each other.\<close>

lemma render_instant_iff:
  assumes "valid_datetime s" "valid_datetime t" "utcoffset s = Some 0" "utcoffset t = Some 0"
  shows "render_instant s = render_instant t \<longleftrightarrow> instant s = instant t"
proof
  have v: "valid_datetime (r\<lparr>tzinfo := TimezoneUtc\<rparr>)" "instant (r\<lparr>tzinfo := TimezoneUtc\<rparr>) = instant r"
    if "valid_datetime r" "utcoffset r = Some 0" for r
    using that by (simp_all add: valid_datetime_def instant_def toordinal_def day_micros_def utcoffset_def)
  assume "render_instant s = render_instant t"
  then have "s\<lparr>tzinfo := TimezoneUtc\<rparr> = t\<lparr>tzinfo := TimezoneUtc\<rparr>"
    using parse_render_instant [OF v(1) [OF assms(1,3)]] parse_render_instant [OF v(1) [OF assms(2,4)]]
    by (simp add: render_instant_tz)
  then show "instant s = instant t" using v(2) assms by metis
next
  assume "instant s = instant t"
  then show "render_instant s = render_instant t"
    using instant_inj [OF assms, of TimezoneUtc] render_instant_tz by metis
qed

end
