(* ===== verification/PendingProposal.thy ===== *)
theory PendingProposal
  imports ReportWorkflow ReportSnapshot PyTime
begin

text \<open>
  The durable envelope of a proposal, \<open>domain/cell_report_pending_proposal.py\<close>: opaque
  bindings to tenant, meeting, conversation and actor, the digest of the base state, bounded
  operation receipts, the UTC expiry, and the envelope itself with its construction checks,
  its JSON projection, the builder that appends one receipt and the rehydration of an
  untrusted JSON value.
\<close>

section \<open>Vocabulary\<close>

text \<open>\<open>WorkflowRaised\<close> is an exception of the workflow module that would pass through unchanged.\<close>

datatype proposal_error =
    INVALID_PROPOSAL
  | UNSUPPORTED_PROPOSAL_SCHEMA
  | INVALID_BINDING
  | INVALID_EXPIRY
  | INVALID_EFFECT_ID
  | INVALID_OPERATION_RECEIPTS
  | INVALID_BASE_STATE
  | INVALID_PROPOSAL_WORKFLOW
  | INVALID_PENDING_STATE
  | WorkflowRaised workflow_error

definition MAX_OPERATION_RECEIPTS :: nat where "MAX_OPERATION_RECEIPTS = 32"
definition proposal_schema :: pystr where "proposal_schema = u ''cell-report-pending-proposal/v1''"
definition base_digest_prefix :: pystr where "base_digest_prefix = u ''cell_report_base_v1_''"

definition OPEN_PENDING_STATES :: "workflow_state list" where
  "OPEN_PENDING_STATES = [EMPTY, COLLECTING, AWAITING_CONFIRMATION]"

definition ENVELOPE_KEYS :: "pystr list" where
  "ENVELOPE_KEYS = map u [''schema'', ''bindings'', ''expires_at'', ''operation_receipts'', ''base_state_digest'', ''workflow'']"

definition BINDING_KEYS :: "pystr list" where
  "BINDING_KEYS = map u [''tenant'', ''meeting'', ''conversation'', ''actor'']"

definition OPERATION_RECEIPT_KEYS :: "pystr list" where
  "OPERATION_RECEIPT_KEYS = map u [''effect_id'', ''payload_digest'']"

datatype binding_kind = Tenant | Meeting | Conversation | Actor

fun binding_prefix :: "binding_kind \<Rightarrow> pystr" where
  "binding_prefix Tenant = u ''cell_report_tenant_v1_''"
| "binding_prefix Meeting = u ''cell_report_meeting_v1_''"
| "binding_prefix Conversation = u ''cell_report_conversation_v1_''"
| "binding_prefix Actor = u ''cell_report_actor_v1_''"

fun binding_domain :: "binding_kind \<Rightarrow> pystr" where
  "binding_domain Tenant = u ''pastorai.cell-report.pending.binding.tenant''"
| "binding_domain Meeting = u ''pastorai.cell-report.pending.binding.meeting''"
| "binding_domain Conversation = u ''pastorai.cell-report.pending.binding.conversation''"
| "binding_domain Actor = u ''pastorai.cell-report.pending.binding.actor''"

section \<open>Field validators\<close>

definition binding_material :: "binding_kind \<Rightarrow> uuid \<Rightarrow> bytes" where
  "binding_material kind i = binary_frame [ascii_bytes (binding_domain kind), ascii_bytes (u ''v1''), uuid_bytes i]"

definition derive_binding :: "binding_kind \<Rightarrow> uuid \<Rightarrow> (proposal_error, pystr) result" where
  "derive_binding kind i =
     (if i = 0 then Inl INVALID_BINDING
      else Inr (binding_prefix kind @ hexdigest (sha256 (binding_material kind i))))"

definition require_binding :: "binding_kind \<Rightarrow> py \<Rightarrow> (proposal_error, pystr) result" where
  "require_binding kind v =
     (case v of PyStr s \<Rightarrow> if prefixed_hex64 (binding_prefix kind) s then Inr s else Inl INVALID_BINDING
      | _ \<Rightarrow> Inl INVALID_BINDING)"

definition require_effect_id :: "py \<Rightarrow> (proposal_error, pystr) result" where
  "require_effect_id v =
     (case v of PyStr s \<Rightarrow> if prefixed_hex64 effect_id_prefix s then Inr s else Inl INVALID_EFFECT_ID
      | _ \<Rightarrow> Inl INVALID_EFFECT_ID)"

definition require_payload_digest :: "py \<Rightarrow> (proposal_error, pystr) result" where
  "require_payload_digest v =
     (case v of PyStr s \<Rightarrow> if prefixed_hex64 payload_digest_prefix s then Inr s else Inl INVALID_OPERATION_RECEIPTS
      | _ \<Rightarrow> Inl INVALID_OPERATION_RECEIPTS)"

definition require_base_state_digest :: "py \<Rightarrow> (proposal_error, pystr) result" where
  "require_base_state_digest v =
     (case v of PyStr s \<Rightarrow> if prefixed_hex64 base_digest_prefix s then Inr s else Inl INVALID_BASE_STATE
      | _ \<Rightarrow> Inl INVALID_BASE_STATE)"

definition canonical_utc_datetime :: "datetime \<Rightarrow> (proposal_error, datetime) result" where
  "canonical_utc_datetime t =
     (if tzinfo t = Naive \<or> utcoffset t = None then Inl INVALID_EXPIRY
      else case astimezone_utc t of None \<Rightarrow> Inl INVALID_EXPIRY | Some c \<Rightarrow> Inr c)"

definition render_utc_datetime :: "datetime \<Rightarrow> (proposal_error, pystr) result" where
  "render_utc_datetime t = ebind (canonical_utc_datetime t) (\<lambda>c. Inr (render_instant c))"

definition parse_utc_datetime :: "py \<Rightarrow> (proposal_error, datetime) result" where
  "parse_utc_datetime v =
     (case v of PyStr s \<Rightarrow> (case parse_instant s of None \<Rightarrow> Inl INVALID_EXPIRY | Some t \<Rightarrow> Inr t)
      | _ \<Rightarrow> Inl INVALID_EXPIRY)"

section \<open>Bindings\<close>

record bindings =
  b_tenant :: pystr
  b_meeting :: pystr
  b_conversation :: pystr
  b_actor :: pystr

definition new_bindings :: "pystr \<Rightarrow> pystr \<Rightarrow> pystr \<Rightarrow> pystr \<Rightarrow> (proposal_error, bindings) result" where
  "new_bindings t m c a =
     ebind (require_binding Tenant (PyStr t)) (\<lambda>_.
     ebind (require_binding Meeting (PyStr m)) (\<lambda>_.
     ebind (require_binding Conversation (PyStr c)) (\<lambda>_.
     ebind (require_binding Actor (PyStr a)) (\<lambda>_.
       Inr \<lparr>b_tenant = t, b_meeting = m, b_conversation = c, b_actor = a\<rparr>))))"

definition bindings_json :: "bindings \<Rightarrow> (pystr \<times> py) list" where
  "bindings_json b =
     [(u ''tenant'', PyStr (b_tenant b)), (u ''meeting'', PyStr (b_meeting b)),
      (u ''conversation'', PyStr (b_conversation b)), (u ''actor'', PyStr (b_actor b))]"

definition bindings_to_jsonb :: "bindings \<Rightarrow> (proposal_error, py) result" where
  "bindings_to_jsonb b =
     ebind (new_bindings (b_tenant b) (b_meeting b) (b_conversation b) (b_actor b)) (\<lambda>b'. Inr (PyDict (bindings_json b')))"

definition derive_cell_report_proposal_bindings ::
  "uuid \<Rightarrow> uuid \<Rightarrow> uuid \<Rightarrow> uuid \<Rightarrow> (proposal_error, bindings) result" where
  "derive_cell_report_proposal_bindings igreja reuniao conversa ator =
     ebind (derive_binding Tenant igreja) (\<lambda>t.
     ebind (derive_binding Meeting reuniao) (\<lambda>m.
     ebind (derive_binding Conversation conversa) (\<lambda>c.
     ebind (derive_binding Actor ator) (\<lambda>a.
       new_bindings t m c a))))"

definition cell_report_proposal_bindings_match :: "bindings \<Rightarrow> bindings \<Rightarrow> (proposal_error, bool) result" where
  "cell_report_proposal_bindings_match persisted expected =
     ebind (bindings_to_jsonb persisted) (\<lambda>_.
     ebind (bindings_to_jsonb expected) (\<lambda>_.
       Inr (list_all (\<lambda>(l, r). l = r)
         [(b_tenant persisted, b_tenant expected), (b_meeting persisted, b_meeting expected),
          (b_conversation persisted, b_conversation expected), (b_actor persisted, b_actor expected)])))"

section \<open>Base state\<close>

definition base_state_json :: "pystr option \<Rightarrow> pystr option \<Rightarrow> py" where
  "base_state_json money obs =
     PyDict [(u ''relatorio_status'', PyStr (u ''pendente'')), (u ''oferta_valor'', py_of_str money),
             (u ''observacoes'', py_of_str obs)]"

definition base_material :: "bytes \<Rightarrow> bytes" where
  "base_material canonical =
     binary_frame [ascii_bytes (u ''pastorai.cell-report.pending.base-state''), ascii_bytes (u ''v1''), canonical]"

definition normalized_base_fields ::
  "unicode_db \<Rightarrow> py \<Rightarrow> py \<Rightarrow> (proposal_error, py \<times> py) result" where
  "normalized_base_fields U oferta_v obs =
     ebind (ecatch
       (build_cell_report_snapshot_v2 U (PyInt 0) (PyInt 0) (PyInt 0) oferta_v obs
          (PyStr (effect_id_prefix @ replicate 64 48)) (PyStr (payload_digest_prefix @ replicate 64 48)))
       (\<lambda>_. Inl INVALID_BASE_STATE))
     (\<lambda>n. case n of
            PyDict d \<Rightarrow> Inr (py_get d (u ''oferta_valor''), py_get d (u ''observacoes''))
          | _ \<Rightarrow> Inl INVALID_BASE_STATE)"

definition derive_cell_report_proposal_base_state_digest ::
  "unicode_db \<Rightarrow> pystr \<Rightarrow> py \<Rightarrow> py \<Rightarrow> (proposal_error, pystr) result" where
  "derive_cell_report_proposal_base_state_digest U status oferta_v obs =
     (if status \<noteq> u ''pendente'' then Inl INVALID_BASE_STATE
      else ebind (normalized_base_fields U oferta_v obs) (\<lambda>(money, text).
        case json_dumps (PyDict [(u ''relatorio_status'', PyStr status), (u ''oferta_valor'', money),
                                 (u ''observacoes'', text)]) of
          None \<Rightarrow> Inl INVALID_BASE_STATE
        | Some j \<Rightarrow> (case utf8_encode j of
                       None \<Rightarrow> Inl INVALID_BASE_STATE
                     | Some canonical \<Rightarrow> Inr (base_digest_prefix @ hexdigest (sha256 (base_material canonical))))))"

section \<open>Receipts and the envelope\<close>

record receipt =
  r_effect_id :: pystr
  r_payload_digest :: pystr

definition new_receipt :: "pystr \<Rightarrow> pystr \<Rightarrow> (proposal_error, receipt) result" where
  "new_receipt e d =
     ebind (require_effect_id (PyStr e)) (\<lambda>_.
     ebind (require_payload_digest (PyStr d)) (\<lambda>_.
       Inr \<lparr>r_effect_id = e, r_payload_digest = d\<rparr>))"

definition receipt_json :: "receipt \<Rightarrow> py" where
  "receipt_json r = PyDict [(u ''effect_id'', PyStr (r_effect_id r)), (u ''payload_digest'', PyStr (r_payload_digest r))]"

definition receipt_to_jsonb :: "receipt \<Rightarrow> (proposal_error, py) result" where
  "receipt_to_jsonb r = ebind (new_receipt (r_effect_id r) (r_payload_digest r)) (\<lambda>r'. Inr (receipt_json r'))"

fun receipts_unique :: "receipt list \<Rightarrow> pystr set \<Rightarrow> (proposal_error, unit) result" where
  "receipts_unique [] seen = Inr ()"
| "receipts_unique (r # rs) seen =
     ebind (receipt_to_jsonb r) (\<lambda>_.
       if r_effect_id r \<in> seen then Inl INVALID_OPERATION_RECEIPTS
       else receipts_unique rs (insert (r_effect_id r) seen))"

definition validate_operation_receipts :: "receipt list \<Rightarrow> (proposal_error, receipt list) result" where
  "validate_operation_receipts rs =
     (if rs = [] \<or> length rs > MAX_OPERATION_RECEIPTS then Inl INVALID_OPERATION_RECEIPTS
      else ebind (receipts_unique rs {}) (\<lambda>_. Inr rs))"

record pending_proposal =
  pp_workflow :: workflow
  pp_bindings :: bindings
  pp_expires_at :: datetime
  pp_operation_receipts :: "receipt list"
  pp_base_state_digest :: pystr

definition proposal_post_init :: "unicode_db \<Rightarrow> pending_proposal \<Rightarrow> (proposal_error, pending_proposal) result" where
  "proposal_post_init U p =
     ebind (ecatch (validate_cell_report_workflow U (pp_workflow p)) (\<lambda>_. Inl INVALID_PROPOSAL_WORKFLOW)) (\<lambda>w.
       if state w \<notin> set OPEN_PENDING_STATES then Inl INVALID_PENDING_STATE
       else ebind (bindings_to_jsonb (pp_bindings p)) (\<lambda>_.
            ebind (canonical_utc_datetime (pp_expires_at p)) (\<lambda>expiry.
              if tzinfo (pp_expires_at p) \<noteq> TimezoneUtc \<or> instant expiry \<noteq> instant (pp_expires_at p)
              then Inl INVALID_EXPIRY
              else ebind (validate_operation_receipts (pp_operation_receipts p)) (\<lambda>receipts.
                if int (length receipts) \<noteq> py_int (revision w) then Inl INVALID_OPERATION_RECEIPTS
                else ebind (require_base_state_digest (PyStr (pp_base_state_digest p))) (\<lambda>_. Inr p)))))"

definition last_operation_effect_id :: "pending_proposal \<Rightarrow> pystr" where
  "last_operation_effect_id p = r_effect_id (last (pp_operation_receipts p))"

definition last_operation_payload_digest :: "pending_proposal \<Rightarrow> pystr" where
  "last_operation_payload_digest p = r_payload_digest (last (pp_operation_receipts p))"

definition proposal_json :: "py \<Rightarrow> pystr \<Rightarrow> py list \<Rightarrow> pystr \<Rightarrow> py \<Rightarrow> (pystr \<times> py) list" where
  "proposal_json b t rs base w =
     [(u ''schema'', PyStr proposal_schema), (u ''bindings'', b), (u ''expires_at'', PyStr t),
      (u ''operation_receipts'', PyList rs), (u ''base_state_digest'', PyStr base), (u ''workflow'', w)]"

definition proposal_to_jsonb :: "unicode_db \<Rightarrow> pending_proposal \<Rightarrow> (proposal_error, py) result" where
  "proposal_to_jsonb U p =
     ebind (proposal_post_init U p) (\<lambda>_.
     ebind (bindings_to_jsonb (pp_bindings p)) (\<lambda>b.
     ebind (render_utc_datetime (pp_expires_at p)) (\<lambda>t.
     ebind (validate_operation_receipts (pp_operation_receipts p)) (\<lambda>receipts.
     ebind (emap receipt_to_jsonb receipts) (\<lambda>rs.
     ebind (require_base_state_digest (PyStr (pp_base_state_digest p))) (\<lambda>base.
     ebind (ecatch (cell_report_workflow_payload U (pp_workflow p)) (\<lambda>e. Inl (WorkflowRaised e))) (\<lambda>w.
       Inr (PyDict (proposal_json b t rs base w)))))))))"

definition build_cell_report_pending_proposal ::
  "unicode_db \<Rightarrow> workflow \<Rightarrow> bindings \<Rightarrow> datetime \<Rightarrow> py \<Rightarrow> py \<Rightarrow> py \<Rightarrow> receipt list
   \<Rightarrow> (proposal_error, pending_proposal) result" where
  "build_cell_report_pending_proposal U w b expires effect payload base prior =
     ebind (if prior \<noteq> [] then validate_operation_receipts prior else Inr prior) (\<lambda>_.
     ebind (require_effect_id effect) (\<lambda>e.
     ebind (require_payload_digest payload) (\<lambda>d.
     ebind (new_receipt e d) (\<lambda>r.
     ebind (canonical_utc_datetime expires) (\<lambda>t.
     ebind (require_base_state_digest base) (\<lambda>base'.
       proposal_post_init U
         \<lparr>pp_workflow = w, pp_bindings = b, pp_expires_at = t, pp_operation_receipts = prior @ [r],
          pp_base_state_digest = base'\<rparr>))))))"

definition bindings_of_payload :: "py \<Rightarrow> (proposal_error, bindings) result" where
  "bindings_of_payload v =
     (case v of
        PyDict d \<Rightarrow>
          if \<not> keys_exactly d BINDING_KEYS then Inl INVALID_BINDING
          else ebind (require_binding Tenant (py_get d (u ''tenant''))) (\<lambda>t.
               ebind (require_binding Meeting (py_get d (u ''meeting''))) (\<lambda>m.
               ebind (require_binding Conversation (py_get d (u ''conversation''))) (\<lambda>c.
               ebind (require_binding Actor (py_get d (u ''actor''))) (\<lambda>a.
                 new_bindings t m c a))))
      | _ \<Rightarrow> Inl INVALID_BINDING)"

definition receipt_of_payload :: "py \<Rightarrow> (proposal_error, receipt) result" where
  "receipt_of_payload v =
     (case v of
        PyDict d \<Rightarrow>
          if \<not> keys_exactly d OPERATION_RECEIPT_KEYS then Inl INVALID_OPERATION_RECEIPTS
          else ebind (require_effect_id (py_get d (u ''effect_id''))) (\<lambda>e.
               ebind (require_payload_digest (py_get d (u ''payload_digest''))) (\<lambda>p.
                 new_receipt e p))
      | _ \<Rightarrow> Inl INVALID_OPERATION_RECEIPTS)"

definition receipts_of_payload :: "py \<Rightarrow> (proposal_error, receipt list) result" where
  "receipts_of_payload v =
     (case v of
        PyList xs \<Rightarrow>
          if xs = [] \<or> length xs > MAX_OPERATION_RECEIPTS then Inl INVALID_OPERATION_RECEIPTS
          else emap receipt_of_payload xs
      | _ \<Rightarrow> Inl INVALID_OPERATION_RECEIPTS)"

definition rehydrate_cell_report_pending_proposal ::
  "unicode_db \<Rightarrow> py \<Rightarrow> (proposal_error, pending_proposal) result" where
  "rehydrate_cell_report_pending_proposal U v =
     (case v of
        PyDict d \<Rightarrow>
          if py_get d (u ''schema'') \<noteq> PyStr proposal_schema then Inl UNSUPPORTED_PROPOSAL_SCHEMA
          else if \<not> keys_exactly d ENVELOPE_KEYS then Inl INVALID_PROPOSAL
          else ebind (bindings_of_payload (py_get d (u ''bindings''))) (\<lambda>b.
               ebind (ecatch (rehydrate_cell_report_workflow U (py_get d (u ''workflow'')))
                        (\<lambda>_. Inl INVALID_PROPOSAL_WORKFLOW)) (\<lambda>w.
               ebind (receipts_of_payload (py_get d (u ''operation_receipts''))) (\<lambda>rs.
               ebind (parse_utc_datetime (py_get d (u ''expires_at''))) (\<lambda>t.
               ebind (require_base_state_digest (py_get d (u ''base_state_digest''))) (\<lambda>base.
                 proposal_post_init U
                   \<lparr>pp_workflow = w, pp_bindings = b, pp_expires_at = t, pp_operation_receipts = rs,
                    pp_base_state_digest = base\<rparr>)))))
      | _ \<Rightarrow> Inl INVALID_PROPOSAL)"

section \<open>Valid envelopes\<close>

lemma require_binding_result: "require_binding k v = Inr s \<longleftrightarrow> v = PyStr s \<and> prefixed_hex64 (binding_prefix k) s"
  by (cases v) (auto simp: require_binding_def)

lemma require_effect_id_result: "require_effect_id v = Inr s \<longleftrightarrow> v = PyStr s \<and> prefixed_hex64 effect_id_prefix s"
  by (cases v) (auto simp: require_effect_id_def)

lemma require_payload_digest_result:
  "require_payload_digest v = Inr s \<longleftrightarrow> v = PyStr s \<and> prefixed_hex64 payload_digest_prefix s"
  by (cases v) (auto simp: require_payload_digest_def)

lemma require_base_result:
  "require_base_state_digest v = Inr s \<longleftrightarrow> v = PyStr s \<and> prefixed_hex64 base_digest_prefix s"
  by (cases v) (auto simp: require_base_state_digest_def)

lemmas require_results = require_binding_result require_effect_id_result require_payload_digest_result require_base_result

definition bindings_ok :: "bindings \<Rightarrow> bool" where
  "bindings_ok b \<longleftrightarrow>
     prefixed_hex64 (binding_prefix Tenant) (b_tenant b) \<and> prefixed_hex64 (binding_prefix Meeting) (b_meeting b)
     \<and> prefixed_hex64 (binding_prefix Conversation) (b_conversation b) \<and> prefixed_hex64 (binding_prefix Actor) (b_actor b)"

lemma new_bindings_result:
  "new_bindings t m c a = Inr b \<longleftrightarrow> b = \<lparr>b_tenant = t, b_meeting = m, b_conversation = c, b_actor = a\<rparr> \<and> bindings_ok b"
  by (auto simp: new_bindings_def ebind_eq_Inr require_results bindings_ok_def)

lemma bindings_to_jsonb_result: "bindings_to_jsonb b = Inr v \<longleftrightarrow> v = PyDict (bindings_json b) \<and> bindings_ok b"
  by (cases b) (auto simp: bindings_to_jsonb_def ebind_eq_Inr new_bindings_result)

definition receipt_ok :: "receipt \<Rightarrow> bool" where
  "receipt_ok r \<longleftrightarrow> prefixed_hex64 effect_id_prefix (r_effect_id r) \<and> prefixed_hex64 payload_digest_prefix (r_payload_digest r)"

lemma new_receipt_result:
  "new_receipt e d = Inr r \<longleftrightarrow> r = \<lparr>r_effect_id = e, r_payload_digest = d\<rparr> \<and> receipt_ok r"
  by (auto simp: new_receipt_def ebind_eq_Inr require_results receipt_ok_def)

lemma receipt_to_jsonb_result: "receipt_to_jsonb r = Inr v \<longleftrightarrow> v = receipt_json r \<and> receipt_ok r"
  by (cases r) (auto simp: receipt_to_jsonb_def ebind_eq_Inr new_receipt_result)

lemma receipts_unique_result:
  "receipts_unique rs seen = Inr () \<longleftrightarrow>
   (\<forall>r \<in> set rs. receipt_ok r) \<and> distinct (map r_effect_id rs) \<and> set (map r_effect_id rs) \<inter> seen = {}"
  by (induction rs arbitrary: seen) (auto simp: ebind_eq_Inr receipt_to_jsonb_result)

definition receipts_ok :: "receipt list \<Rightarrow> bool" where
  "receipts_ok rs \<longleftrightarrow> rs \<noteq> [] \<and> length rs \<le> MAX_OPERATION_RECEIPTS \<and> (\<forall>r \<in> set rs. receipt_ok r)
     \<and> distinct (map r_effect_id rs)"

lemma validate_receipts_result: "validate_operation_receipts rs = Inr qs \<longleftrightarrow> qs = rs \<and> receipts_ok rs"
proof -
  have "validate_operation_receipts rs = Inr qs \<longleftrightarrow>
      qs = rs \<and> rs \<noteq> [] \<and> length rs \<le> MAX_OPERATION_RECEIPTS \<and> receipts_unique rs {} = Inr ()"
    by (auto simp: validate_operation_receipts_def ebind_eq_Inr not_less)
  then show ?thesis by (auto simp: receipts_unique_result receipts_ok_def)
qed

lemma canonical_utc_utc:
  "valid_datetime t \<Longrightarrow> tzinfo t = TimezoneUtc \<Longrightarrow> canonical_utc_datetime t = Inr t"
  by (simp add: canonical_utc_datetime_def astimezone_utc_utc utcoffset_def)

lemma canonical_utc_result:
  "valid_datetime t \<Longrightarrow> canonical_utc_datetime t = Inr c \<Longrightarrow>
   valid_datetime c \<and> tzinfo c = TimezoneUtc \<and> instant c = instant t"
  using astimezone_utc_instant [of t c] by (auto simp: canonical_utc_datetime_def split: if_splits option.splits)

definition proposal_ok :: "unicode_db \<Rightarrow> pending_proposal \<Rightarrow> bool" where
  "proposal_ok U p \<longleftrightarrow>
     workflow_ok U (pp_workflow p) \<and> state (pp_workflow p) \<in> {EMPTY, COLLECTING, AWAITING_CONFIRMATION}
     \<and> bindings_ok (pp_bindings p) \<and> tzinfo (pp_expires_at p) = TimezoneUtc
     \<and> receipts_ok (pp_operation_receipts p) \<and> revision (pp_workflow p) = PyInt (int (length (pp_operation_receipts p)))
     \<and> prefixed_hex64 base_digest_prefix (pp_base_state_digest p)"

lemma workflow_ok_revision: "workflow_ok U w \<Longrightarrow> \<exists>n. revision w = PyInt n"
  by (auto simp: workflow_ok_def)

lemma post_init_result:
  assumes U: "unicode_ok U" and v: "valid_datetime (pp_expires_at p)"
  shows "proposal_post_init U p = Inr q \<longleftrightarrow> q = p \<and> proposal_ok U p"
proof -
  have rev: "int k = py_int (revision w) \<longleftrightarrow> revision w = PyInt (int k)" if "workflow_ok U w" for w k
    using workflow_ok_revision [OF that] by auto
  have "proposal_post_init U p = Inr q \<longleftrightarrow>
      q = p \<and> workflow_ok U (pp_workflow p) \<and> state (pp_workflow p) \<in> set OPEN_PENDING_STATES
      \<and> bindings_ok (pp_bindings p)
      \<and> (\<exists>c. canonical_utc_datetime (pp_expires_at p) = Inr c \<and> tzinfo (pp_expires_at p) = TimezoneUtc
           \<and> instant c = instant (pp_expires_at p))
      \<and> receipts_ok (pp_operation_receipts p)
      \<and> int (length (pp_operation_receipts p)) = py_int (revision (pp_workflow p))
      \<and> prefixed_hex64 base_digest_prefix (pp_base_state_digest p)"
    by (auto simp: proposal_post_init_def ebind_eq_Inr ecatch_raise_Inr validate_iff [OF U] bindings_to_jsonb_result
        validate_receipts_result require_results)
  moreover have "(\<exists>c. canonical_utc_datetime (pp_expires_at p) = Inr c \<and> tzinfo (pp_expires_at p) = TimezoneUtc
           \<and> instant c = instant (pp_expires_at p)) \<longleftrightarrow> tzinfo (pp_expires_at p) = TimezoneUtc"
    using canonical_utc_utc [OF v] by auto
  ultimately show ?thesis using rev by (auto simp: proposal_ok_def OPEN_PENDING_STATES_def)
qed

section \<open>Round trip of the envelope\<close>

definition proposal_value :: "pending_proposal \<Rightarrow> py \<Rightarrow> (pystr \<times> py) list" where
  "proposal_value p w =
     proposal_json (PyDict (bindings_json (pp_bindings p))) (render_instant (pp_expires_at p))
       (map receipt_json (pp_operation_receipts p)) (pp_base_state_digest p) w"

lemma to_jsonb_ok:
  assumes U: "unicode_ok U" and v: "valid_datetime (pp_expires_at p)" and p: "proposal_ok U p"
    and w: "cell_report_workflow_payload U (pp_workflow p) = Inr w"
  shows "proposal_to_jsonb U p = Inr (PyDict (proposal_value p w))"
proof -
  have "proposal_post_init U p = Inr p" using post_init_result [OF U v] p by blast
  moreover have "bindings_to_jsonb (pp_bindings p) = Inr (PyDict (bindings_json (pp_bindings p)))"
    using p by (simp add: bindings_to_jsonb_result proposal_ok_def)
  moreover have "render_utc_datetime (pp_expires_at p) = Inr (render_instant (pp_expires_at p))"
    using p v by (simp add: render_utc_datetime_def canonical_utc_utc proposal_ok_def)
  moreover have rs: "receipts_ok (pp_operation_receipts p)" using p by (simp add: proposal_ok_def)
  moreover from this have "validate_operation_receipts (pp_operation_receipts p) = Inr (pp_operation_receipts p)"
    by (simp add: validate_receipts_result)
  moreover have "emap receipt_to_jsonb (pp_operation_receipts p) = Inr (map receipt_json (pp_operation_receipts p))"
    using emap_map_Inr [of "pp_operation_receipts p" receipt_to_jsonb "\<lambda>x. x" receipt_json] rs
    by (simp add: receipt_to_jsonb_result receipts_ok_def)
  moreover have "require_base_state_digest (PyStr (pp_base_state_digest p)) = Inr (pp_base_state_digest p)"
    using p by (simp add: require_results proposal_ok_def)
  ultimately show ?thesis using w by (simp add: proposal_to_jsonb_def proposal_value_def)
qed

lemma same_json_list:
  assumes "same_json v (PyList (map f xs))"
  obtains ys where "v = PyList ys" "list_all2 (\<lambda>y x. same_json y (f x)) ys xs"
proof -
  obtain ys where ys: "v = PyList ys" using assms by (cases v) (auto simp: same_json_def)
  then have "map sort_keys ys = map (sort_keys \<circ> f) xs" using assms by (simp add: same_json_def)
  then have "list_all2 (\<lambda>y x. same_json y (f x)) ys xs"
    by (auto simp: list_all2_conv_all_nth same_json_def dest: map_eq_imp_length_eq) (metis comp_apply length_map nth_map)
  with ys that show thesis by blast
qed

lemma receipt_of_same:
  assumes "receipt_ok r" "same_json v (receipt_json r)"
  shows "receipt_of_payload v = Inr r"
proof -
  let ?d = "[(u ''effect_id'', PyStr (r_effect_id r)), (u ''payload_digest'', PyStr (r_payload_digest r))]"
  have "same_json v (PyDict ?d)" "map fst ?d = OPERATION_RECEIPT_KEYS" "distinct OPERATION_RECEIPT_KEYS"
    using assms(2) by (simp_all add: receipt_json_def OPERATION_RECEIPT_KEYS_def)
  then obtain e where e: "v = PyDict e" "keys_exactly e OPERATION_RECEIPT_KEYS" "\<And>k. same_json (py_get e k) (py_get ?d k)"
    using same_keys_exactly by blast
  have "py_get e (u ''effect_id'') = PyStr (r_effect_id r)" "py_get e (u ''payload_digest'') = PyStr (r_payload_digest r)"
    using e(3) [of "u ''effect_id''"] e(3) [of "u ''payload_digest''"] by (simp_all add: py_get_Cons)
  then show ?thesis using e(1,2) assms(1)
    by (simp add: receipt_of_payload_def ebind_eq_Inr require_results new_receipt_result receipt_ok_def)
qed

lemma bindings_of_same:
  assumes "bindings_ok b" "same_json v (PyDict (bindings_json b))"
  shows "bindings_of_payload v = Inr b"
proof -
  have "map fst (bindings_json b) = BINDING_KEYS" "distinct BINDING_KEYS"
    by (simp_all add: bindings_json_def BINDING_KEYS_def)
  then obtain e where e: "v = PyDict e" "keys_exactly e BINDING_KEYS"
      "\<And>k. same_json (py_get e k) (py_get (bindings_json b) k)"
    using same_keys_exactly [OF assms(2)] by blast
  have "py_get e (u ''tenant'') = PyStr (b_tenant b)" "py_get e (u ''meeting'') = PyStr (b_meeting b)"
    "py_get e (u ''conversation'') = PyStr (b_conversation b)" "py_get e (u ''actor'') = PyStr (b_actor b)"
    using e(3) [of "u ''tenant''"] e(3) [of "u ''meeting''"] e(3) [of "u ''conversation''"] e(3) [of "u ''actor''"]
    by (simp_all add: py_get_Cons bindings_json_def)
  then show ?thesis using e(1,2) assms(1)
    by (cases b) (simp add: bindings_of_payload_def ebind_eq_Inr require_results new_bindings_result bindings_ok_def)
qed

lemma receipts_of_same:
  assumes "receipts_ok rs" "same_json v (PyList (map receipt_json rs))"
  shows "receipts_of_payload v = Inr rs"
proof -
  obtain ys where ys: "v = PyList ys" "list_all2 (\<lambda>y r. same_json y (receipt_json r)) ys rs"
    using same_json_list [OF assms(2)] .
  then have "length ys = length rs" by (simp add: list_all2_lengthD)
  moreover have "list_all2 (\<lambda>y r. receipt_of_payload y = Inr r) ys rs"
    using ys(2) assms(1) receipt_of_same
    by (auto simp: list_all2_conv_all_nth receipts_ok_def)
  ultimately show ?thesis using ys(1) assms(1)
    by (auto simp: receipts_of_payload_def receipts_ok_def emap_eq_Inr)
qed

lemma proposal_value_get:
  "map fst (proposal_value p w) = ENVELOPE_KEYS" "distinct ENVELOPE_KEYS"
  "py_get (proposal_value p w) (u ''schema'') = PyStr proposal_schema"
  "py_get (proposal_value p w) (u ''bindings'') = PyDict (bindings_json (pp_bindings p))"
  "py_get (proposal_value p w) (u ''expires_at'') = PyStr (render_instant (pp_expires_at p))"
  "py_get (proposal_value p w) (u ''operation_receipts'') = PyList (map receipt_json (pp_operation_receipts p))"
  "py_get (proposal_value p w) (u ''base_state_digest'') = PyStr (pp_base_state_digest p)"
  "py_get (proposal_value p w) (u ''workflow'') = w"
  by (simp_all add: proposal_value_def proposal_json_def py_get_Cons ENVELOPE_KEYS_def)

lemma rehydrate_same_proposal:
  assumes U: "unicode_ok U" and v: "valid_datetime (pp_expires_at p)" and p: "proposal_ok U p"
    and w: "cell_report_workflow_payload U (pp_workflow p) = Inr w"
    and same: "same_json x (PyDict (proposal_value p w))"
  shows "rehydrate_cell_report_pending_proposal U x = Inr p"
proof -
  obtain e where e: "x = PyDict e" "keys_exactly e ENVELOPE_KEYS"
      "\<And>k. same_json (py_get e k) (py_get (proposal_value p w) k)"
    using same_keys_exactly [OF same proposal_value_get(1,2)] by blast
  have wf: "rehydrate_cell_report_workflow U (py_get e (u ''workflow'')) = Inr (pp_workflow p)"
    using rehydrate_same_payload [OF U _ w] e(3) [of "u ''workflow''"] p by (simp add: proposal_value_get proposal_ok_def)
  have b: "bindings_of_payload (py_get e (u ''bindings'')) = Inr (pp_bindings p)"
    using bindings_of_same e(3) [of "u ''bindings''"] p by (simp add: proposal_value_get proposal_ok_def)
  have r: "receipts_of_payload (py_get e (u ''operation_receipts'')) = Inr (pp_operation_receipts p)"
    using receipts_of_same e(3) [of "u ''operation_receipts''"] p by (simp add: proposal_value_get proposal_ok_def)
  have t: "parse_utc_datetime (py_get e (u ''expires_at'')) = Inr (pp_expires_at p)"
    using parse_render_instant [OF v] e(3) [of "u ''expires_at''"] p
    by (simp add: proposal_value_get proposal_ok_def parse_utc_datetime_def)
  have base: "require_base_state_digest (py_get e (u ''base_state_digest'')) = Inr (pp_base_state_digest p)"
    using e(3) [of "u ''base_state_digest''"] p by (simp add: proposal_value_get proposal_ok_def require_results)
  have s: "py_get e (u ''schema'') = PyStr proposal_schema" using e(3) [of "u ''schema''"] by (simp add: proposal_value_get)
  have "proposal_post_init U p = Inr p" using post_init_result [OF U v] p by blast
  then show ?thesis using e(1,2) s b wf r t base
    by (cases p) (simp add: rehydrate_cell_report_pending_proposal_def)
qed

lemma rehydrated_proposal_ok:
  assumes U: "unicode_ok U" and r: "rehydrate_cell_report_pending_proposal U x = Inr p"
  shows "proposal_ok U p \<and> valid_datetime (pp_expires_at p)"
proof -
  obtain d where d: "x = PyDict d" using r by (cases x) (auto simp: rehydrate_cell_report_pending_proposal_def)
  then obtain q where q: "proposal_post_init U q = Inr p"
      "parse_utc_datetime (py_get d (u ''expires_at'')) = Inr (pp_expires_at q)"
    using r by (auto simp: rehydrate_cell_report_pending_proposal_def ebind_eq_Inr split: if_splits)
  then have v: "valid_datetime (pp_expires_at q)"
    by (auto simp: parse_utc_datetime_def dest: parse_instant_valid split: py.splits option.splits)
  then show ?thesis using q(1) post_init_result [OF U v] by auto
qed

lemma build_proposal_iff:
  assumes U: "unicode_ok U" and v: "valid_datetime expires"
  shows "build_cell_report_pending_proposal U w b expires effect payload base prior = Inr p \<longleftrightarrow>
    (\<exists>e d t s. effect = PyStr e \<and> payload = PyStr d \<and> base = PyStr s \<and> canonical_utc_datetime expires = Inr t
      \<and> p = \<lparr>pp_workflow = w, pp_bindings = b, pp_expires_at = t,
             pp_operation_receipts = prior @ [\<lparr>r_effect_id = e, r_payload_digest = d\<rparr>], pp_base_state_digest = s\<rparr>
      \<and> (prior = [] \<or> receipts_ok prior) \<and> proposal_ok U p)" (is "?l \<longleftrightarrow> ?r")
proof
  assume ?l
  then obtain e d t s where f: "effect = PyStr e" "payload = PyStr d" "base = PyStr s"
      "canonical_utc_datetime expires = Inr t" "prior = [] \<or> receipts_ok prior"
      "proposal_post_init U \<lparr>pp_workflow = w, pp_bindings = b, pp_expires_at = t,
         pp_operation_receipts = prior @ [\<lparr>r_effect_id = e, r_payload_digest = d\<rparr>], pp_base_state_digest = s\<rparr> = Inr p"
    by (auto simp: build_cell_report_pending_proposal_def ebind_eq_Inr require_results new_receipt_result
        validate_receipts_result split: if_splits)
  then show ?r using canonical_utc_result [OF v f(4)] post_init_result [OF U, of "\<lparr>pp_workflow = w, pp_bindings = b, pp_expires_at = t,
         pp_operation_receipts = prior @ [\<lparr>r_effect_id = e, r_payload_digest = d\<rparr>], pp_base_state_digest = s\<rparr>"]
    by auto
next
  assume ?r
  then obtain e d t s where f: "effect = PyStr e" "payload = PyStr d" "base = PyStr s"
      "canonical_utc_datetime expires = Inr t" "prior = [] \<or> receipts_ok prior" "proposal_ok U p"
      "p = \<lparr>pp_workflow = w, pp_bindings = b, pp_expires_at = t,
         pp_operation_receipts = prior @ [\<lparr>r_effect_id = e, r_payload_digest = d\<rparr>], pp_base_state_digest = s\<rparr>" by blast
  have "receipt_ok \<lparr>r_effect_id = e, r_payload_digest = d\<rparr>" "prefixed_hex64 base_digest_prefix s"
    using f(6,7) by (auto simp: proposal_ok_def receipts_ok_def)
  moreover have "proposal_post_init U p = Inr p"
    using post_init_result [OF U, of p] f(6,7) canonical_utc_result [OF v f(4)] by simp
  ultimately show ?l using f
    by (auto simp: build_cell_report_pending_proposal_def ebind_eq_Inr require_results new_receipt_result
        validate_receipts_result receipt_ok_def)
qed

section \<open>What the digests bind\<close>

lemma binding_material_inj: "binding_material k i = binding_material k j \<Longrightarrow> i = j"
  by (rule uuid_bytes_inj)
    (simp add: binding_material_def binary_frame_def frame_part_def append_eq_same_length)

lemma derive_binding_result:
  "derive_binding k i = Inr s \<longleftrightarrow> i \<noteq> 0 \<and> s = binding_prefix k @ hexdigest (sha256 (binding_material k i))"
  by (auto simp: derive_binding_def)

lemma derived_bindings:
  "derive_cell_report_proposal_bindings i r c a = Inr b \<longleftrightarrow>
   i \<noteq> 0 \<and> r \<noteq> 0 \<and> c \<noteq> 0 \<and> a \<noteq> 0
   \<and> b = \<lparr>b_tenant = binding_prefix Tenant @ hexdigest (sha256 (binding_material Tenant i)),
          b_meeting = binding_prefix Meeting @ hexdigest (sha256 (binding_material Meeting r)),
          b_conversation = binding_prefix Conversation @ hexdigest (sha256 (binding_material Conversation c)),
          b_actor = binding_prefix Actor @ hexdigest (sha256 (binding_material Actor a))\<rparr>"
  by (auto simp: derive_cell_report_proposal_bindings_def ebind_eq_Inr derive_binding_result new_bindings_result bindings_ok_def
      simp del: binding_prefix.simps)

lemma derived_bindings_ok: "derive_cell_report_proposal_bindings i r c a = Inr b \<Longrightarrow> bindings_ok b"
  by (auto simp: derived_bindings bindings_ok_def simp del: binding_prefix.simps)

lemma bindings_match_ok:
  "bindings_ok b \<Longrightarrow> bindings_ok b' \<Longrightarrow> cell_report_proposal_bindings_match b b' = Inr (b = b')"
  by (cases b; cases b') (simp add: cell_report_proposal_bindings_match_def bindings_to_jsonb_result [THEN iffD2])

definition base_bytes :: "pystr option \<Rightarrow> pystr option \<Rightarrow> bytes" where
  "base_bytes m s = the (utf8_encode (jtext (sort_keys (base_state_json m s))))"

lemma base_json_sorted:
  "sort_keys (base_state_json m s) = PyDict [(u ''observacoes'', py_of_str s), (u ''oferta_valor'', py_of_str m),
     (u ''relatorio_status'', PyStr (u ''pendente''))]"
  by (simp add: base_state_json_def u_def)

lemma base_json_encodable:
  assumes "offering_ok m" "case s of None \<Rightarrow> True | Some t \<Rightarrow> observation_ok U t"
  shows "\<exists>b. utf8_encode (jtext (sort_keys (base_state_json m s))) = Some b"
proof -
  have m: "encodable t" if "m = Some t" for t using assms(1) that offering_ok_ascii by simp
  have s: "encodable t" if "s = Some t" for t
    using assms(2) that utf8_encode_encodable [of t] by (auto simp: observation_ok_def split: option.splits)
  have keys: "encodable (jquote k)" if "k \<in> {u ''observacoes'', u ''oferta_valor'', u ''relatorio_status'', u ''pendente''}" for k
    by (rule encodable_jquote, rule encodable_ascii) (use that in \<open>auto simp: u_def\<close>)
  have "encodable (jtext (sort_keys (base_state_json m s)))"
    using encodable_py_of(2) [OF m] encodable_py_of(2) [OF s] keys
    unfolding base_json_sorted by (simp add: utf8_char_def)
  then show ?thesis using utf8_encode_encodable by fastforce
qed

lemma base_digest_result:
  assumes U: "unicode_ok U"
  shows "derive_cell_report_proposal_base_state_digest U status x o' = Inr g \<longleftrightarrow>
    status = u ''pendente'' \<and> (\<exists>m s. normalize_money U x = Inr m \<and> normalize_observacoes U o' = Inr s
      \<and> g = base_digest_prefix @ hexdigest (sha256 (base_material (base_bytes m s))))" (is "?l \<longleftrightarrow> ?r")
proof -
  have ids: "prefixed_hex64 effect_id_prefix (effect_id_prefix @ replicate 64 48)"
    "prefixed_hex64 payload_digest_prefix (payload_digest_prefix @ replicate 64 48)"
    by (rule prefixed_hex64_mint; simp add: is_hex_def)+
  have fields: "normalized_base_fields U x o' = Inr (py_of_str m, py_of_str s)"
    if "normalize_money U x = Inr m" "normalize_observacoes U o' = Inr s" for m s
  proof -
    have "snap_ok U (0, 0, 0) m s (effect_id_prefix @ replicate 64 48) (payload_digest_prefix @ replicate 64 48)"
      using ids normalize_money_result [OF that(1)] normalize_observacoes_result [OF that(2)]
      by (simp add: snap_ok_def report_limits)
    from build_snapshot_ok [OF U this that] show ?thesis by (simp add: normalized_base_fields_def)
  qed
  have only: "\<exists>m s. normalize_money U x = Inr m \<and> normalize_observacoes U o' = Inr s"
    if h: "normalized_base_fields U x o' = Inr q" for q
  proof -
    obtain r where "build_cell_report_snapshot_v2 U (PyInt 0) (PyInt 0) (PyInt 0) x o'
        (PyStr (effect_id_prefix @ replicate 64 48)) (PyStr (payload_digest_prefix @ replicate 64 48)) = Inr r"
      using h by (auto simp: normalized_base_fields_def ebind_eq_Inr ecatch_raise_Inr)
    then show ?thesis by (rule build_snapshot_result [OF U]) blast
  qed
  have digest: "derive_cell_report_proposal_base_state_digest U (u ''pendente'') x o' =
      Inr (base_digest_prefix @ hexdigest (sha256 (base_material (base_bytes m s))))"
    if h: "normalize_money U x = Inr m" "normalize_observacoes U o' = Inr s" for m s
  proof -
    obtain b where b: "utf8_encode (jtext (sort_keys (base_state_json m s))) = Some b"
      using base_json_encodable [OF normalize_money_result [OF h(1)] normalize_observacoes_result [OF h(2)]] by blast
    have "plain (base_state_json m s)" by (simp add: base_state_json_def)
    then have "json_dumps (base_state_json m s) = Some (jtext (sort_keys (base_state_json m s)))"
      by (simp only: json_dumps_def plain_json_ok if_True)
    then show ?thesis
      using fields [OF h] b
      by (simp add: derive_cell_report_proposal_base_state_digest_def base_state_json_def [symmetric] base_bytes_def
          del: jtext.simps sort_keys.simps)
  qed
  show ?thesis
  proof
    assume l: ?l
    then obtain q where "status = u ''pendente''" "normalized_base_fields U x o' = Inr q"
      by (auto simp: derive_cell_report_proposal_base_state_digest_def ebind_eq_Inr split: if_splits)
    moreover from only [OF this(2)] obtain m s where "normalize_money U x = Inr m" "normalize_observacoes U o' = Inr s" by blast
    ultimately show ?r using l digest by auto
  qed (use digest in auto)
qed

lemma base_bytes_inj:
  assumes "offering_ok m" "case s of None \<Rightarrow> True | Some t \<Rightarrow> observation_ok U t"
    and "offering_ok m'" "case s' of None \<Rightarrow> True | Some t \<Rightarrow> observation_ok U t" "base_bytes m s = base_bytes m' s'"
  shows "m = m' \<and> s = s'"
proof -
  obtain b b' where "utf8_encode (jtext (sort_keys (base_state_json m s))) = Some b"
      "utf8_encode (jtext (sort_keys (base_state_json m' s'))) = Some b'"
    using base_json_encodable [OF assms(1,2)] base_json_encodable [OF assms(3,4)] by blast
  then have "jtext (sort_keys (base_state_json m s)) = jtext (sort_keys (base_state_json m' s'))"
    using assms(5) utf8_encode_inj by (auto simp: base_bytes_def simp del: jtext.simps sort_keys.simps)
  moreover have "plain (base_state_json m s)" "plain (base_state_json m' s')" by (simp_all add: base_state_json_def)
  ultimately have "sort_keys (base_state_json m s) = sort_keys (base_state_json m' s')"
    by (intro json_dumps_inj) (simp_all only: json_dumps_def plain_json_ok if_True)
  then show ?thesis unfolding base_json_sorted by simp
qed

lemma base_material_inj: "base_material a = base_material b \<Longrightarrow> a = b"
  by (simp add: base_material_def binary_frame_def frame_part_def append_eq_same_length)

section \<open>Properties\<close>

definition sample_expiry :: datetime where
  "sample_expiry = \<lparr>year = 2026, month = 3, day = 1, hour = 12, minute = 0, second = 0, microsecond = 0, tzinfo = TimezoneUtc\<rparr>"

definition sample_bindings :: bindings where
  "sample_bindings =
     \<lparr>b_tenant = binding_prefix Tenant @ hexdigest (sha256 (binding_material Tenant 1)),
      b_meeting = binding_prefix Meeting @ hexdigest (sha256 (binding_material Meeting 2)),
      b_conversation = binding_prefix Conversation @ hexdigest (sha256 (binding_material Conversation 3)),
      b_actor = binding_prefix Actor @ hexdigest (sha256 (binding_material Actor 4))\<rparr>"

definition sample_base :: pystr where "sample_base = base_digest_prefix @ replicate 64 99"

definition sample_proposal :: pending_proposal where
  "sample_proposal =
     \<lparr>pp_workflow = sample_workflow, pp_bindings = sample_bindings, pp_expires_at = sample_expiry,
      pp_operation_receipts = [\<lparr>r_effect_id = sample_effect, r_payload_digest = sample_payload\<rparr>],
      pp_base_state_digest = sample_base\<rparr>"

lemma sample_expiry_valid: "valid_datetime sample_expiry"
  by (simp add: sample_expiry_def valid_datetime_def valid_date_def days_in_month_def is_leap_def)

lemma sample_bindings_derived: "derive_cell_report_proposal_bindings 1 2 3 4 = Inr sample_bindings"
  by (simp add: derived_bindings sample_bindings_def)

lemma sample_proposal_ok: "proposal_ok ascii_db sample_proposal"
proof -
  have "prefixed_hex64 base_digest_prefix sample_base"
    unfolding sample_base_def by (rule prefixed_hex64_mint) (simp_all add: is_hex_def)
  moreover have "revision sample_workflow = PyInt 1" by (simp add: sample_workflow_def)
  ultimately show ?thesis
    using sample_workflow_ok derived_bindings_ok [OF sample_bindings_derived] sample_ids
    by (simp add: proposal_ok_def sample_proposal_def receipts_ok_def receipt_ok_def MAX_OPERATION_RECEIPTS_def sample_expiry_def)
qed

lemma sample_post_init: "proposal_post_init ascii_db sample_proposal = Inr sample_proposal"
  using post_init_result [OF ascii_db_ok, of sample_proposal] sample_proposal_ok sample_expiry_valid
  by (simp add: sample_proposal_def)

text \<open>
  C31. The envelope survives the JSON column: a constructed proposal projects to a JSON value, and
  rehydrating that value, whatever order its keys come back in at every level, gives the same
  proposal, microseconds of the expiry included.
\<close>

theorem proposal_roundtrip:
  assumes "unicode_ok U" "valid_datetime (pp_expires_at p)" "proposal_post_init U p = Inr p"
  shows "\<exists>v. proposal_to_jsonb U p = Inr v
    \<and> (\<forall>v'. sort_keys v' = sort_keys v \<longrightarrow> rehydrate_cell_report_pending_proposal U v' = Inr p)"
proof -
  have p: "proposal_ok U p" using post_init_result [OF assms(1,2)] assms(3) by blast
  then obtain s n c q st a where m: "pp_workflow p = minted s n c q st a" "wf_parts U s n c q st a"
    by (auto simp: proposal_ok_def workflow_ok_def)
  obtain w where w: "cell_report_workflow_payload U (pp_workflow p) = Inr w"
    using payload_minted [OF assms(1) m(2)] m(1) by auto
  show ?thesis
    using to_jsonb_ok [OF assms(1,2) p w] rehydrate_same_proposal [OF assms(1,2) p w] by (auto simp: same_json_def)
qed

theorem proposal_roundtrip_witness:
  "\<exists>v. proposal_to_jsonb ascii_db sample_proposal = Inr v
     \<and> rehydrate_cell_report_pending_proposal ascii_db v = Inr sample_proposal"
proof -
  have "valid_datetime (pp_expires_at sample_proposal)" using sample_expiry_valid by (simp add: sample_proposal_def)
  from proposal_roundtrip [OF ascii_db_ok this sample_post_init] show ?thesis by blast
qed

text \<open>
  C30. Whatever the column holds, a rehydrated proposal is one the code could have written: its
  workflow validates and is open, there is exactly one operation receipt per revision, at most
  32, with no effect id twice, and the expiry is a UTC instant.
\<close>

theorem rehydrated_proposal_invariant:
  assumes "unicode_ok U" "rehydrate_cell_report_pending_proposal U v = Inr p"
  shows "validate_cell_report_workflow U (pp_workflow p) = Inr (pp_workflow p)
    \<and> state (pp_workflow p) \<notin> set TERMINAL_REPORT_STATES \<and> state (pp_workflow p) \<noteq> CONFIRMATION_ACCEPTED
    \<and> revision (pp_workflow p) = PyInt (int (length (pp_operation_receipts p)))
    \<and> 1 \<le> length (pp_operation_receipts p) \<and> length (pp_operation_receipts p) \<le> 32
    \<and> distinct (map r_effect_id (pp_operation_receipts p))
    \<and> tzinfo (pp_expires_at p) = TimezoneUtc"
  using rehydrated_proposal_ok [OF assms] assms(1)
  by (auto simp: proposal_ok_def receipts_ok_def validate_iff TERMINAL_REPORT_STATES_def MAX_OPERATION_RECEIPTS_def Suc_le_eq)

theorem rehydrated_proposal_invariant_witness:
  "\<exists>v. rehydrate_cell_report_pending_proposal ascii_db v = Inr sample_proposal
     \<and> validate_cell_report_workflow ascii_db (pp_workflow sample_proposal) = Inr (pp_workflow sample_proposal)"
proof -
  have v: "valid_datetime (pp_expires_at sample_proposal)" using sample_expiry_valid by (simp add: sample_proposal_def)
  obtain w where w: "cell_report_workflow_payload ascii_db (pp_workflow sample_proposal) = Inr w"
    using payload_minted [OF ascii_db_ok sample_parts] by (simp add: sample_proposal_def sample_workflow_def)
  have r: "rehydrate_cell_report_pending_proposal ascii_db (PyDict (proposal_value sample_proposal w)) = Inr sample_proposal"
    by (rule rehydrate_same_proposal [OF ascii_db_ok v sample_proposal_ok w]) simp
  from rehydrated_proposal_invariant [OF ascii_db_ok r] r show ?thesis by blast
qed

text \<open>
  Each write appends exactly one receipt to the history and replays are refused: the proposal
  the builder returns keeps every earlier receipt in order, ends with the receipt of this
  operation, whose effect id occurs in no earlier one, has one receipt per revision, never
  grows past 32, and expires at the same instant, expressed in UTC.
\<close>

theorem proposal_build_appends:
  assumes "unicode_ok U" "valid_datetime expires"
    and "build_cell_report_pending_proposal U w b expires effect payload base prior = Inr p"
  shows "proposal_post_init U p = Inr p
    \<and> (\<exists>e d. effect = PyStr e \<and> payload = PyStr d
        \<and> pp_operation_receipts p = prior @ [\<lparr>r_effect_id = e, r_payload_digest = d\<rparr>]
        \<and> e \<notin> set (map r_effect_id prior) \<and> last_operation_effect_id p = e)
    \<and> length prior < 32 \<and> revision w = PyInt (int (length prior) + 1)
    \<and> instant (pp_expires_at p) = instant expires \<and> tzinfo (pp_expires_at p) = TimezoneUtc"
proof -
  obtain e d t s where f: "effect = PyStr e" "payload = PyStr d" "canonical_utc_datetime expires = Inr t" "proposal_ok U p"
      "p = \<lparr>pp_workflow = w, pp_bindings = b, pp_expires_at = t,
         pp_operation_receipts = prior @ [\<lparr>r_effect_id = e, r_payload_digest = d\<rparr>], pp_base_state_digest = s\<rparr>"
    using build_proposal_iff [OF assms(1,2)] assms(3) by blast
  have t: "valid_datetime t" "tzinfo t = TimezoneUtc" "instant t = instant expires"
    using canonical_utc_result [OF assms(2) f(3)] by auto
  then have "proposal_post_init U p = Inr p" using post_init_result [OF assms(1), of p] f(4,5) by simp
  moreover have "distinct (map r_effect_id (prior @ [\<lparr>r_effect_id = e, r_payload_digest = d\<rparr>]))"
      "length (prior @ [\<lparr>r_effect_id = e, r_payload_digest = d\<rparr>]) \<le> 32"
      "revision w = PyInt (int (length (prior @ [\<lparr>r_effect_id = e, r_payload_digest = d\<rparr>])))"
    using f(4,5) by (auto simp: proposal_ok_def receipts_ok_def MAX_OPERATION_RECEIPTS_def)
  ultimately show ?thesis using f t by (auto simp: last_operation_effect_id_def)
qed

theorem proposal_build_appends_witness:
  "\<exists>p. build_cell_report_pending_proposal ascii_db sample_workflow sample_bindings sample_expiry
        (PyStr sample_effect) (PyStr sample_payload) (PyStr sample_base) [] = Inr p
     \<and> last_operation_effect_id p = sample_effect"
proof -
  have c: "canonical_utc_datetime sample_expiry = Inr sample_expiry"
    using canonical_utc_utc [OF sample_expiry_valid] by (simp add: sample_expiry_def)
  have b: "build_cell_report_pending_proposal ascii_db sample_workflow sample_bindings sample_expiry
      (PyStr sample_effect) (PyStr sample_payload) (PyStr sample_base) [] = Inr sample_proposal"
    unfolding build_proposal_iff [OF ascii_db_ok sample_expiry_valid]
    using sample_proposal_ok c by (auto simp: sample_proposal_def)
  from proposal_build_appends [OF ascii_db_ok sample_expiry_valid b] b show ?thesis by auto
qed

text \<open>
  The opaque bindings stand for the identifiers: bindings derived from the same four
  identifiers match, and bindings that match were derived from the same four, unless two
  different identifiers of one kind collide under SHA-256.
\<close>

theorem bindings_match_identifiers:
  assumes "derive_cell_report_proposal_bindings i r c a = Inr b"
    and "derive_cell_report_proposal_bindings i' r' c' a' = Inr b'"
  shows "\<exists>m. cell_report_proposal_bindings_match b b' = Inr m
    \<and> ((i, r, c, a) = (i', r', c', a') \<longrightarrow> m)
    \<and> (m \<longrightarrow> (i, r, c, a) = (i', r', c', a')
        \<or> (\<exists>(k, x, y) \<in> {(Tenant, i, i'), (Meeting, r, r'), (Conversation, c, c'), (Actor, a, a')}.
             binding_material k x \<noteq> binding_material k y \<and> sha256 (binding_material k x) = sha256 (binding_material k y)))"
proof -
  have h: "x = y \<or> binding_material k x \<noteq> binding_material k y" for k x y
    using binding_material_inj by blast
  have s: "sha256 (binding_material k x) = sha256 (binding_material k y)"
    if "hexdigest (sha256 (binding_material k x)) = hexdigest (sha256 (binding_material k y))" for k x y
    using that by (intro hexdigest_inj) simp_all
  have m: "cell_report_proposal_bindings_match b b' = Inr (b = b')"
    using bindings_match_ok derived_bindings_ok assms by blast
  show ?thesis
    using assms h s unfolding m derived_bindings by (intro exI [of _ "b = b'"]) auto
qed

theorem bindings_match_identifiers_witness:
  "cell_report_proposal_bindings_match sample_bindings sample_bindings = Inr True"
  using bindings_match_identifiers [OF sample_bindings_derived sample_bindings_derived] by auto

text \<open>
  The base-state digest of a proposal exists only for a pending report, and it binds the
  canonical offering and observation of the draft: two drafts with the same digest have the
  same canonical offering and the same canonical observation, unless their two materials
  collide under SHA-256.
\<close>

theorem base_digest_binds:
  assumes "unicode_ok U" "derive_cell_report_proposal_base_state_digest U status x o1 = Inr g"
    and "derive_cell_report_proposal_base_state_digest U status' y o2 = Inr g"
  shows "status = u ''pendente'' \<and> status' = u ''pendente''
    \<and> (\<exists>m m' s s'. normalize_money U x = Inr m \<and> normalize_money U y = Inr m'
        \<and> normalize_observacoes U o1 = Inr s \<and> normalize_observacoes U o2 = Inr s'
        \<and> (m = m' \<and> s = s'
           \<or> base_material (base_bytes m s) \<noteq> base_material (base_bytes m' s')
             \<and> sha256 (base_material (base_bytes m s)) = sha256 (base_material (base_bytes m' s'))))"
proof -
  obtain m s where 1: "status = u ''pendente''" "normalize_money U x = Inr m" "normalize_observacoes U o1 = Inr s"
      "g = base_digest_prefix @ hexdigest (sha256 (base_material (base_bytes m s)))"
    using assms(2) by (auto simp: base_digest_result [OF assms(1)])
  obtain m' s' where 2: "status' = u ''pendente''" "normalize_money U y = Inr m'" "normalize_observacoes U o2 = Inr s'"
      "g = base_digest_prefix @ hexdigest (sha256 (base_material (base_bytes m' s')))"
    using assms(3) by (auto simp: base_digest_result [OF assms(1)])
  have "sha256 (base_material (base_bytes m s)) = sha256 (base_material (base_bytes m' s'))"
    using 1(4) 2(4) by (auto intro: hexdigest_inj)
  moreover have "base_bytes m s = base_bytes m' s' \<Longrightarrow> m = m' \<and> s = s'"
    using base_bytes_inj normalize_money_result normalize_observacoes_result 1(2,3) 2(2,3) by blast
  ultimately show ?thesis using 1 2 base_material_inj by blast
qed

theorem base_digest_binds_witness:
  "\<exists>g. derive_cell_report_proposal_base_state_digest ascii_db (u ''pendente'') PyNone PyNone = Inr g
     \<and> (\<exists>m. normalize_money ascii_db PyNone = Inr m)"
proof -
  have "\<exists>g. derive_cell_report_proposal_base_state_digest ascii_db (u ''pendente'') PyNone PyNone = Inr g"
    by (simp add: base_digest_result [OF ascii_db_ok] normalize_money_def normalize_observacoes_def)
  then obtain g where g: "derive_cell_report_proposal_base_state_digest ascii_db (u ''pendente'') PyNone PyNone = Inr g" ..
  from base_digest_binds [OF ascii_db_ok g g] g show ?thesis by blast
qed

end
