(* ===== verification/MeetingSchedule.thy ===== *)
theory MeetingSchedule
  imports PyTime
begin

text \<open>
  The calendar of cell meetings, \<open>domain/cell_meetings_schedule.py\<close>: the closed grammar of weekday
  names and of \<open>HH:MM\<close>, whether a meeting has passed or its report is overdue on the wall clock of
  Sao Paulo, and the date of the next meeting.

  The time zone database is outside the repository: \<open>sp_convert\<close> is \<open>now.astimezone(SAO_PAULO_TZ)\<close>
  of an aware value (\<open>None\<close> when it overflows) and \<open>sp_offset\<close> the offset of a local time.  Two values
  of that zone are compared, and shifted by a \<open>timedelta\<close>, on their wall clock.  The Unicode tables
  behind \<open>normalize("NFKD", ...)\<close>, \<open>combining\<close> and \<open>lower\<close> are the record \<open>accent_db\<close>.
\<close>

section \<open>Dates and the local clock\<close>

record date =
  d_year :: nat
  d_month :: nat
  d_day :: nat

definition date_of :: "datetime \<Rightarrow> date" where
  "date_of t = \<lparr>d_year = year t, d_month = month t, d_day = day t\<rparr>"

definition date_start :: "date \<Rightarrow> datetime" where
  "date_start d = \<lparr>year = d_year d, month = d_month d, day = d_day d, hour = 0, minute = 0, second = 0,
     microsecond = 0, tzinfo = Naive\<rparr>"

definition date_less :: "date \<Rightarrow> date \<Rightarrow> bool" where
  "date_less a b \<longleftrightarrow> d_year a < d_year b \<or> d_year a = d_year b
     \<and> (d_month a < d_month b \<or> d_month a = d_month b \<and> d_day a < d_day b)"

definition ordinal :: "date \<Rightarrow> nat" where
  "ordinal d = toordinal (date_start d)"

text \<open>\<open>date.weekday()\<close>, Monday is 0, and \<open>date + timedelta(days=n)\<close>.\<close>

definition weekday :: "date \<Rightarrow> nat" where
  "weekday d = (ordinal d + 6) mod 7"

definition date_plus :: "date \<Rightarrow> nat \<Rightarrow> date option" where
  "date_plus d n = map_option date_of (add_days n (date_start d))"

text \<open>Comparison of two values of one zone, and \<open>t - timedelta(hours=h)\<close> for at most a day.\<close>

definition wall :: "datetime \<Rightarrow> int" where
  "wall t = int (toordinal t) * 86400000000 + int (day_micros t)"

definition minus_hours :: "nat \<Rightarrow> datetime \<Rightarrow> datetime option" where
  "minus_hours h t =
     (let us = int (day_micros t) - int h * 3600000000
      in if us < 0 then map_option (\<lambda>b. with_day_micros b (nat (us + 86400000000))) (prev_day t)
         else Some (with_day_micros t (nat us)))"

record tz_db =
  sp_convert :: "datetime \<Rightarrow> datetime option"
  sp_offset :: "datetime \<Rightarrow> int"

datatype schedule_error = InvalidDiaReuniao | TimeOverflow

text \<open>\<open>clock\<close> is what \<open>dt.datetime.now(SAO_PAULO_TZ)\<close> answers.\<close>

definition now_in_sao_paulo :: "tz_db \<Rightarrow> datetime \<Rightarrow> datetime option \<Rightarrow> (schedule_error, datetime) result" where
  "now_in_sao_paulo Z clock now =
     (case now of
        None \<Rightarrow> Inr clock
      | Some t \<Rightarrow>
          if tzinfo t = Naive then Inr (t\<lparr>tzinfo := OtherTz (Some (sp_offset Z t))\<rparr>)
          else (case sp_convert Z t of None \<Rightarrow> Inl TimeOverflow | Some l \<Rightarrow> Inr l))"

section \<open>Weekdays\<close>

record accent_db =
  ac_nfkd :: "pystr \<Rightarrow> pystr"
  ac_combining :: "nat \<Rightarrow> bool"
  ac_lower :: "pystr \<Rightarrow> pystr"

definition FEIRA_SUFFIXES :: "pystr list" where
  "FEIRA_SUFFIXES = map u [''-feira'', '' feira'']"

definition WEEKDAY_BY_TOKEN :: "(pystr \<times> nat) list" where
  "WEEKDAY_BY_TOKEN =
     map (\<lambda>(s, n). (u s, n))
       [(''segunda'', 0), (''terca'', 1), (''quarta'', 2), (''quinta'', 3), (''sexta'', 4), (''sabado'', 5), (''domingo'', 6),
        (''seg'', 0), (''ter'', 1), (''qua'', 2), (''qui'', 3), (''sex'', 4), (''sab'', 5), (''dom'', 6)]"

definition WEEKDAY_LABELS :: "pystr list" where
  "WEEKDAY_LABELS =
     [u ''Segunda-feira'', u ''Ter'' @ [231] @ u ''a-feira'', u ''Quarta-feira'', u ''Quinta-feira'', u ''Sexta-feira'',
      u ''S'' @ [225] @ u ''bado'', u ''Domingo'']"

definition strip_accents :: "accent_db \<Rightarrow> pystr \<Rightarrow> pystr" where
  "strip_accents A s = filter (\<lambda>c. \<not> ac_combining A c) (ac_nfkd A s)"

definition endswith :: "pystr \<Rightarrow> pystr \<Rightarrow> bool" where
  "endswith s suffix = startswith (rev s) (rev suffix)"

text \<open>The loop over the suffixes, which stops after the first one removed.\<close>

fun drop_suffix :: "pystr list \<Rightarrow> pystr \<Rightarrow> pystr" where
  "drop_suffix [] s = s"
| "drop_suffix (x # xs) s = (if endswith s x then take (length s - length x) s else drop_suffix xs s)"

definition normalize_dia_reuniao :: "accent_db \<Rightarrow> pystr option \<Rightarrow> pystr" where
  "normalize_dia_reuniao A v =
     (case v of None \<Rightarrow> []
      | Some s \<Rightarrow> py_strip (drop_suffix FEIRA_SUFFIXES (ac_lower A (py_strip (strip_accents A s)))))"

definition parse_weekday :: "accent_db \<Rightarrow> pystr option \<Rightarrow> (schedule_error, nat) result" where
  "parse_weekday A v =
     (let token = normalize_dia_reuniao A v
      in if token = [] then Inl InvalidDiaReuniao
         else case map_of WEEKDAY_BY_TOKEN token of None \<Rightarrow> Inl InvalidDiaReuniao | Some w \<Rightarrow> Inr w)"

definition canonical_weekday_label :: "accent_db \<Rightarrow> pystr option \<Rightarrow> (schedule_error, pystr) result" where
  "canonical_weekday_label A v = ebind (parse_weekday A v) (\<lambda>w. Inr (WEEKDAY_LABELS ! w))"

definition dia_reuniao_for_storage :: "accent_db \<Rightarrow> pystr option \<Rightarrow> pystr option" where
  "dia_reuniao_for_storage A v =
     (case v of None \<Rightarrow> None
      | Some s \<Rightarrow> (case canonical_weekday_label A v of Inr l \<Rightarrow> Some l | Inl _ \<Rightarrow> Some s))"

section \<open>Meetings\<close>

text \<open>\<open>^([01][0-9]|2[0-3]):([0-5][0-9])$\<close> on the stripped text.\<close>

definition parse_hora :: "pystr option \<Rightarrow> (nat \<times> nat) option" where
  "parse_hora hora =
     (case hora of None \<Rightarrow> None
      | Some s \<Rightarrow>
          (case py_strip s of
             [a, b, c, d, e] \<Rightarrow>
               if ((a = 48 \<or> a = 49) \<and> is_digit b \<or> a = 50 \<and> 48 \<le> b \<and> b \<le> 51) \<and> c = 58 \<and> 48 \<le> d \<and> d \<le> 53 \<and> is_digit e
               then Some (nat_of_digits [a, b], nat_of_digits [d, e]) else None
           | _ \<Rightarrow> None))"

definition meeting_start :: "datetime \<Rightarrow> nat \<Rightarrow> nat \<Rightarrow> datetime" where
  "meeting_start now_local h m = now_local\<lparr>hour := h, minute := m, second := 0, microsecond := 0\<rparr>"

text \<open>The body of \<open>meeting_has_passed\<close> after the clock is normalised.\<close>

definition passed_locally :: "date \<Rightarrow> pystr option \<Rightarrow> datetime \<Rightarrow> bool" where
  "passed_locally data hora now_local =
     (if date_less data (date_of now_local) then True
      else if date_less (date_of now_local) data then False
      else case parse_hora hora of
             None \<Rightarrow> False
           | Some (h, m) \<Rightarrow> wall (meeting_start now_local h m) < wall now_local)"

definition meeting_has_passed ::
  "tz_db \<Rightarrow> datetime \<Rightarrow> date \<Rightarrow> pystr option \<Rightarrow> datetime option \<Rightarrow> (schedule_error, bool) result" where
  "meeting_has_passed Z clock data hora now =
     ebind (now_in_sao_paulo Z clock now) (\<lambda>l. Inr (passed_locally data hora l))"

definition REPORT_SLA_HOURS :: nat where "REPORT_SLA_HOURS = 2"

text \<open>The shifted value is in the zone already, so that converting it again answers it unchanged.\<close>

definition report_is_overdue ::
  "tz_db \<Rightarrow> datetime \<Rightarrow> date \<Rightarrow> pystr option \<Rightarrow> datetime option \<Rightarrow> (schedule_error, bool) result" where
  "report_is_overdue Z clock data hora now =
     ebind (now_in_sao_paulo Z clock now) (\<lambda>l.
       case minus_hours REPORT_SLA_HOURS l of
         None \<Rightarrow> Inl TimeOverflow
       | Some l' \<Rightarrow> Inr (passed_locally data hora l'))"

definition next_meeting_date ::
  "accent_db \<Rightarrow> tz_db \<Rightarrow> datetime \<Rightarrow> pystr option \<Rightarrow> pystr option \<Rightarrow> datetime option \<Rightarrow> (schedule_error, date) result" where
  "next_meeting_date A Z clock dia hora now =
     ebind (parse_weekday A dia) (\<lambda>w.
     ebind (now_in_sao_paulo Z clock now) (\<lambda>l.
       let today = date_of l;
           ahead = (w + 7 - weekday today) mod 7;
           days = (if ahead = 0
                   then (case parse_hora hora of
                           None \<Rightarrow> ahead
                         | Some (h, m) \<Rightarrow> if wall (meeting_start l h m) < wall l then 7 else ahead)
                   else ahead)
       in case date_plus today days of None \<Rightarrow> Inl TimeOverflow | Some d \<Rightarrow> Inr d))"

section \<open>Lemmas\<close>

definition date_ok :: "date \<Rightarrow> bool" where
  "date_ok d \<longleftrightarrow> valid_date (d_year d) (d_month d) (d_day d)"

lemma date_simps [simp]:
  "year (date_start d) = d_year d" "month (date_start d) = d_month d" "day (date_start d) = d_day d"
  "d_year (date_of t) = year t" "d_month (date_of t) = month t" "d_day (date_of t) = day t"
  by (simp_all add: date_start_def date_of_def)

lemma ordinal_date_of [simp]: "ordinal (date_of t) = toordinal t"
  by (simp add: ordinal_def toordinal_def)

lemma ordinal_less_iff: "date_ok a \<Longrightarrow> date_ok b \<Longrightarrow> date_less a b \<longleftrightarrow> ordinal a < ordinal b"
  using toordinal_less [of "date_start a" "date_start b"] toordinal_less [of "date_start b" "date_start a"]
  by (auto simp: date_less_def ordinal_def date_ok_def toordinal_def) (metis linorder_neqE_nat less_asym less_irrefl)+

lemma ordinal_inj: "date_ok a \<Longrightarrow> date_ok b \<Longrightarrow> ordinal a = ordinal b \<longleftrightarrow> a = b"
  using toordinal_inj [of "date_start a" "date_start b"] by (auto simp: ordinal_def date_ok_def)

lemma valid_date_of: "valid_datetime t \<Longrightarrow> date_ok (date_of t)"
  by (simp add: date_ok_def valid_datetime_def)

lemma parse_hora_bounds: "parse_hora v = Some (h, m) \<Longrightarrow> h < 24 \<and> m < 60"
  by (auto simp: parse_hora_def is_digit_def nat_of_digits.simps split: option.splits list.splits if_splits)

definition time_micros :: "nat \<Rightarrow> nat \<Rightarrow> nat" where
  "time_micros h m = (h * 60 + m) * 60000000"

lemma wall_meeting_start: "wall (meeting_start l h m) = int (toordinal l) * 86400000000 + int (time_micros h m)"
  by (simp add: wall_def meeting_start_def toordinal_def day_micros_def time_micros_def)

lemma time_micros_bound: "h < 24 \<Longrightarrow> m < 60 \<Longrightarrow> time_micros h m < 86400000000"
  by (simp add: time_micros_def)

text \<open>The first reading of the wall clock at which the meeting counts as passed.\<close>

definition occurred_at :: "date \<Rightarrow> pystr option \<Rightarrow> int" where
  "occurred_at data hora =
     (case parse_hora hora of
        None \<Rightarrow> (int (ordinal data) + 1) * 86400000000
      | Some (h, m) \<Rightarrow> int (ordinal data) * 86400000000 + int (time_micros h m) + 1)"

lemma passed_iff:
  assumes l: "valid_datetime l" and d: "date_ok data"
  shows "passed_locally data hora l \<longleftrightarrow> occurred_at data hora \<le> wall l"
proof -
  let ?D = "86400000000 :: int"
  have b: "0 \<le> int (day_micros l)" "int (day_micros l) < ?D" using day_micros_bound [OF l] by simp_all
  have w: "wall l = int (toordinal l) * ?D + int (day_micros l)" by (simp add: wall_def)
  have "passed_locally data hora l \<longleftrightarrow> ordinal data < toordinal l
      \<or> ordinal data = toordinal l \<and> (case parse_hora hora of None \<Rightarrow> False
          | Some (h, m) \<Rightarrow> int (time_micros h m) < int (day_micros l))"
    using ordinal_less_iff [OF d valid_date_of [OF l]] ordinal_less_iff [OF valid_date_of [OF l] d]
    by (auto simp: passed_locally_def wall_meeting_start w split: option.splits)
  also have "\<dots> \<longleftrightarrow> occurred_at data hora \<le> wall l"
  proof (cases "parse_hora hora")
    case None
    then show ?thesis using b by (auto simp: occurred_at_def w)
  next
    case (Some hm)
    obtain h m where hm: "hm = (h, m)" by (cases hm)
    then have "int (time_micros h m) < ?D" using time_micros_bound parse_hora_bounds Some by (metis of_nat_less_iff of_nat_numeral)
    then show ?thesis using b Some hm by (auto simp: occurred_at_def w)
  qed
  finally show ?thesis .
qed

lemma minus_hours_wall:
  assumes l: "valid_datetime l" and h: "h \<le> 24" and m: "minus_hours h l = Some l'"
  shows "valid_datetime l' \<and> wall l' = wall l - int h * 3600000000"
proof -
  let ?us = "int (day_micros l) - int h * 3600000000"
  have fields: "toordinal (with_day_micros b us) = toordinal b" "tzinfo (with_day_micros b us) = tzinfo b"
      "year (with_day_micros b us) = year b" "month (with_day_micros b us) = month b" "day (with_day_micros b us) = day b" for b us
    by (simp_all add: with_day_micros_def toordinal_def)
  have bound: "day_micros l < 86400000000" by (rule day_micros_bound [OF l])
  show ?thesis
  proof (cases "?us < 0")
    case True
    then obtain p where p: "prev_day l = Some p" and l': "l' = with_day_micros p (nat (?us + 86400000000))"
      using m by (auto simp: minus_hours_def Let_def)
    have "valid_date (year l) (month l) (day l)" using l by (simp add: valid_datetime_def)
    then have "toordinal l = toordinal p + 1" "valid_date (year p) (month p) (day p)" "tzinfo p = tzinfo l"
      using prev_day_ordinal [OF _ p] p by (auto simp: prev_day_def split: if_splits)
    moreover have "nat (?us + 86400000000) < 86400000000" "int (nat (?us + 86400000000)) = ?us + 86400000000"
      using True h by auto
    ultimately show ?thesis
      using l with_day_micros_simps [of "nat (?us + 86400000000)" p]
      by (auto simp: l' wall_def fields valid_datetime_def)
  next
    case False
    then have "l' = with_day_micros l (nat ?us)" using m by (simp add: minus_hours_def Let_def)
    moreover have "nat ?us < 86400000000" "int (nat ?us) = ?us" using False bound by auto
    ultimately show ?thesis
      using l with_day_micros_simps [of "nat ?us" l] by (auto simp: wall_def fields valid_datetime_def)
  qed
qed

lemma whole_days:
  assumes "int a * 86400000000 + int b = int c * 86400000000" "b < 86400000000"
  shows "a = c"
proof -
  have "int (a * 86400000000 + b) = int (c * 86400000000)" using assms(1) by simp
  then have "a * 86400000000 + b = c * 86400000000" by (simp only: of_nat_eq_iff)
  then have "(a * 86400000000 + b) div 86400000000 = c" by simp
  then show ?thesis using assms(2) by simp
qed

lemma date_plus_result:
  assumes "date_ok d" "date_plus d n = Some e"
  shows "date_ok e \<and> ordinal e = ordinal d + n"
proof -
  obtain t where t: "add_days n (date_start d) = Some t" "e = date_of t" using assms(2) by (auto simp: date_plus_def)
  have v: "valid_datetime (date_start d)" using assms(1) by (simp add: date_ok_def valid_datetime_def date_start_def)
  have tz: "tzinfo (date_start d) = Naive" "day_micros (date_start d) = 0"
    by (simp_all add: date_start_def day_micros_def)
  have w: "valid_datetime t" "instant t = instant (date_start d) + int n * 86400000000" "tzinfo t = Naive"
    using add_days_instant [OF v t(1)] tz(1) by simp_all
  then have "int (toordinal t) * 86400000000 + int (day_micros t) = int (toordinal (date_start d) + n) * 86400000000"
    using tz by (simp add: instant_def utcoffset_def algebra_simps)
  moreover have "day_micros t < 86400000000" by (rule day_micros_bound [OF w(1)])
  ultimately have "toordinal t = toordinal (date_start d) + n" by (rule whole_days)
  with t w(1) show ?thesis using valid_date_of by (simp add: ordinal_def [of d])
qed

text \<open>The days until the next date of a weekday.\<close>

lemma days_ahead:
  assumes "w < 7" "v < 7"
  shows "(v + (w + 7 - v) mod 7) mod 7 = (w :: nat)" "(w + 7 - v) mod 7 < 7"
  using assms by (auto simp: mod_simps)

lemma days_ahead_least:
  assumes "w < 7" "v < 7" "(v + k) mod 7 = (w :: nat)"
  shows "(w + 7 - v) mod 7 \<le> k"
proof -
  have "v + k = 7 * ((v + k) div 7) + w" using assms(3) mult_div_mod_eq by metis
  then obtain q where q: "v + k = 7 * q + w" by blast
  show ?thesis
  proof (cases q)
    case 0
    then have "w + 7 - v = k + 7" using q by simp
    then show ?thesis by simp
  next
    case (Suc p)
    then have "k = 7 * p + (w + 7 - v)" using q assms(2) by simp
    then have "(w + 7 - v) mod 7 = k mod 7" by simp
    then show ?thesis by simp
  qed
qed

lemma week_cancel: "v < 7 \<Longrightarrow> (v + k) mod 7 = v \<Longrightarrow> k mod 7 = (0 :: nat)"
proof -
  assume v: "v < 7" "(v + k) mod 7 = v"
  then have "v + k = 7 * ((v + k) div 7) + v" by (metis mult_div_mod_eq)
  then have "k = 7 * ((v + k) div 7)" by simp
  then show ?thesis by (metis mod_mult_self1_is_0)
qed

lemma weekday_plus: "ordinal e = ordinal d + k \<Longrightarrow> weekday e = (weekday d + k) mod 7"
  by (simp add: weekday_def mod_simps) presburger

lemma weekday_bound: "weekday d < 7"
  by (simp add: weekday_def)

lemma parse_weekday_bound: "parse_weekday A v = Inr w \<Longrightarrow> w < 7"
  by (auto simp: parse_weekday_def Let_def WEEKDAY_BY_TOKEN_def split: option.splits if_splits)

section \<open>Properties\<close>

text \<open>
  When a meeting has passed, and when its report is overdue.  A meeting counts as passed exactly
  from \<open>occurred_at\<close> on: the first microsecond after its start when it has a well-formed time, the
  following midnight otherwise, read on the wall clock of Sao Paulo.  Its report is overdue exactly
  two hours later; the shift backwards by which the code decides this has no other effect.
\<close>

theorem report_clock:
  assumes "date_ok data" "now_in_sao_paulo Z clock now = Inr l" "valid_datetime l"
    and "report_is_overdue Z clock data hora now = Inr late"
  shows "meeting_has_passed Z clock data hora now = Inr (occurred_at data hora \<le> wall l)
    \<and> late = (occurred_at data hora + 2 * 3600000000 \<le> wall l)"
proof -
  obtain l' where l': "minus_hours 2 l = Some l'" "late = passed_locally data hora l'"
    using assms(2,4) by (auto simp: report_is_overdue_def REPORT_SLA_HOURS_def split: option.splits)
  have v: "valid_datetime l'" "wall l' = wall l - 2 * 3600000000"
    using minus_hours_wall [OF assms(3) _ l'(1)] by simp_all
  show ?thesis
    using passed_iff [OF assms(3,1)] passed_iff [OF v(1) assms(1)] l'(2) v(2) assms(2)
    by (auto simp: meeting_has_passed_def)
qed

definition sample_now :: datetime where
  "sample_now = \<lparr>year = 2026, month = 9, day = 9, hour = 21, minute = 30, second = 0, microsecond = 0, tzinfo = Naive\<rparr>"

definition sample_tz :: tz_db where
  "sample_tz = \<lparr>sp_convert = Some, sp_offset = (\<lambda>_. - 10800000000)\<rparr>"

lemmas sample_clock_eval = sample_now_def sample_tz_def now_in_sao_paulo_def report_is_overdue_def minus_hours_def
  day_micros_def with_day_micros_def passed_locally_def date_less_def date_of_def meeting_start_def wall_def toordinal_def
  REPORT_SLA_HOURS_def valid_datetime_def valid_date_def days_in_month_def date_ok_def

lemma sample_hora: "parse_hora (Some (u ''19:00'')) = Some (19, 0)"
  by (simp add: parse_hora_def u_def py_strip_def py_isspace_def is_digit_def nat_of_digits.simps)

theorem report_clock_witness:
  "report_is_overdue sample_tz sample_now \<lparr>d_year = 2026, d_month = 9, d_day = 9\<rparr> (Some (u ''19:00'')) (Some sample_now) = Inr True
   \<and> meeting_has_passed sample_tz sample_now \<lparr>d_year = 2026, d_month = 9, d_day = 9\<rparr> (Some (u ''19:00'')) (Some sample_now)
     = Inr True"
proof -
  let ?d = "\<lparr>d_year = 2026, d_month = 9, d_day = 9\<rparr>" and ?l = "sample_now\<lparr>tzinfo := OtherTz (Some (- 10800000000))\<rparr>"
  note h = sample_hora
  have l: "now_in_sao_paulo sample_tz sample_now (Some sample_now) = Inr ?l" "valid_datetime ?l" "date_ok ?d"
    by (simp_all add: sample_clock_eval)
  have late: "report_is_overdue sample_tz sample_now ?d (Some (u ''19:00'')) (Some sample_now) = Inr True"
    by (simp add: sample_clock_eval h)
  from report_clock [OF l(3,1,2) late] late show ?thesis by (auto simp: occurred_at_def h)
qed

text \<open>
  C39. The next meeting date is the first one that has not passed: when the weekday is recognised
  and the calendar does not end, the date answered falls on that weekday, the meeting of that
  date has not passed on the wall clock, and every date of that weekday whose meeting has not
  passed is the same or later.
\<close>

theorem next_meeting_is_first:
  assumes "now_in_sao_paulo Z clock now = Inr l" "valid_datetime l"
    and "next_meeting_date A Z clock dia hora now = Inr d"
  shows "parse_weekday A dia = Inr (weekday d) \<and> date_ok d \<and> \<not> passed_locally d hora l
    \<and> (\<forall>e. date_ok e \<and> weekday e = weekday d \<and> \<not> passed_locally e hora l \<longrightarrow> ordinal d \<le> ordinal e)"
proof -
  let ?t = "date_of l"
  define late where "late = (case parse_hora hora of None \<Rightarrow> False | Some (h, m) \<Rightarrow> wall (meeting_start l h m) < wall l)"
  obtain w where w: "parse_weekday A dia = Inr w" using assms(3) by (auto simp: next_meeting_date_def ebind_eq_Inr)
  define ahead where "ahead = (w + 7 - weekday ?t) mod 7"
  define days where "days = (if ahead = 0 \<and> late then 7 else ahead)"
  have plus: "date_plus ?t days = Some d"
    using assms(1,3) w
    by (auto simp: next_meeting_date_def Let_def days_def ahead_def late_def split: option.splits if_splits prod.splits)
  have t: "date_ok ?t" by (rule valid_date_of [OF assms(2)])
  note d = date_plus_result [OF t plus]
  have w7: "w < 7" by (rule parse_weekday_bound [OF w])
  note ahead = days_ahead [OF w7 weekday_bound [of ?t], folded ahead_def]
  have wd: "weekday d = w"
    using weekday_plus [of d ?t days] d ahead by (auto simp: days_def split: if_splits)
  have today: "passed_locally e hora l \<longleftrightarrow> ordinal e < ordinal ?t \<or> e = ?t \<and> late" if "date_ok e" for e
    using ordinal_less_iff [OF that t] ordinal_less_iff [OF t that] ordinal_inj [OF that t]
    by (auto simp: passed_locally_def late_def)
  have "\<not> passed_locally d hora l"
    using today [of d] d by (auto simp: days_def split: if_splits)
  moreover have "ordinal d \<le> ordinal e" if e: "date_ok e" "weekday e = w" "\<not> passed_locally e hora l" for e
  proof -
    have ge: "ordinal ?t \<le> ordinal e" and nl: "e = ?t \<Longrightarrow> \<not> late" using today [OF e(1)] e(3) by auto
    define k where "k = ordinal e - ordinal ?t"
    have k: "ordinal e = ordinal ?t + k" using ge by (simp add: k_def)
    have "ahead \<le> k"
      using days_ahead_least [OF w7 weekday_bound [of ?t]] weekday_plus [OF k] e(2) by (simp add: ahead_def)
    moreover have "7 \<le> k" if "ahead = 0" "late"
    proof -
      have "k \<noteq> 0" using nl ordinal_inj [OF e(1) t] k that(2) by auto
      moreover have "k mod 7 = 0"
        using week_cancel [OF weekday_bound [of ?t]] weekday_plus [OF k] e(2) ahead(1) that(1) weekday_bound [of ?t] by simp
      ultimately show ?thesis by presburger
    qed
    ultimately show ?thesis using d k by (auto simp: days_def)
  qed
  ultimately show ?thesis using w wd d by blast
qed

definition sample_accents :: accent_db where
  "sample_accents = \<lparr>ac_nfkd = (\<lambda>s. s), ac_combining = (\<lambda>_. False), ac_lower = (\<lambda>s. s)\<rparr>"

lemma sample_weekday: "parse_weekday sample_accents (Some (u ''quarta-feira'')) = Inr 2"
  by (simp add: parse_weekday_def normalize_dia_reuniao_def strip_accents_def sample_accents_def FEIRA_SUFFIXES_def endswith_def
      WEEKDAY_BY_TOKEN_def u_def py_strip_def py_isspace_def)

lemma add_days_numeral:
  "add_days (numeral k) t = (case next_day t of None \<Rightarrow> None | Some t' \<Rightarrow> add_days (pred_numeral k) t')"
  by (simp add: numeral_eq_Suc)

lemma september: "days_before_month y 9 = (if is_leap y then 244 else 243)"
  by (simp add: eval_nat_numeral days_in_month_def)

lemma sample_ordinal: "toordinal (sample_now\<lparr>tzinfo := z\<rparr>) = 739868"
  by (simp add: toordinal_def sample_now_def september is_leap_def days_before_year_def)

lemma sample_plus: "date_plus (date_of (sample_now\<lparr>tzinfo := z\<rparr>)) 7 = Some \<lparr>d_year = 2026, d_month = 9, d_day = 16\<rparr>"
  by (simp add: date_plus_def add_days_numeral next_day_def days_in_month_def date_start_def date_of_def sample_now_def)

lemma sample_late: "wall (meeting_start (sample_now\<lparr>tzinfo := z\<rparr>) 19 0) < wall (sample_now\<lparr>tzinfo := z\<rparr>)"
  by (simp add: wall_def meeting_start_def toordinal_def day_micros_def sample_now_def)

theorem next_meeting_is_first_witness:
  "\<exists>d. next_meeting_date sample_accents sample_tz sample_now (Some (u ''quarta-feira'')) (Some (u ''19:00'')) (Some sample_now) = Inr d
     \<and> weekday d = 2 \<and> \<not> passed_locally d (Some (u ''19:00'')) (sample_now\<lparr>tzinfo := OtherTz (Some (- 10800000000))\<rparr>)"
proof -
  let ?l = "sample_now\<lparr>tzinfo := OtherTz (Some (- 10800000000))\<rparr>"
  have l: "now_in_sao_paulo sample_tz sample_now (Some sample_now) = Inr ?l" "valid_datetime ?l"
    by (simp_all add: sample_clock_eval)
  have "next_meeting_date sample_accents sample_tz sample_now (Some (u ''quarta-feira'')) (Some (u ''19:00'')) (Some sample_now)
      = Inr \<lparr>d_year = 2026, d_month = 9, d_day = 16\<rparr>"
    using l(1) sample_ordinal sample_plus by (simp add: next_meeting_date_def sample_weekday weekday_def sample_hora sample_late)
  from next_meeting_is_first [OF l this] this sample_weekday show ?thesis by (auto simp: Let_def)
qed

end
