(* ===== verification/LegacySnapshot.thy ===== *)
theory LegacySnapshot
  imports PendingProposal MeetingSchedule
begin

text \<open>
  The report a person filed in the panel, \<open>domain/cell_report_legacy_snapshot.py\<close>: the recognizer of
  the exact schema-less object the panel stores.  The closing property is that the three shapes of
  the snapshot column, a panel report, a report of the workflow and a pending proposal, exclude
  each other.
\<close>

section \<open>Vocabulary\<close>

definition legacy_status :: pystr where "legacy_status = u ''enviado''"
definition MAX_TEMA_LENGTH :: nat where "MAX_TEMA_LENGTH = 120"
definition MAX_VISITOR_NAME_LENGTH :: nat where "MAX_VISITOR_NAME_LENGTH = 120"
definition MAX_RECORD_CONTENT_LENGTH :: nat where "MAX_RECORD_CONTENT_LENGTH = 2000"

definition REPORT_KEYS :: "pystr list" where
  "REPORT_KEYS = map u [''meeting_id'', ''data'', ''tema'', ''relatorio_status'', ''oferta_valor'', ''observacoes'',
     ''presencas'', ''visitantes'', ''records'']"

definition PRESENCE_KEYS :: "pystr list" where
  "PRESENCE_KEYS = map u [''pessoa_id'', ''estado'', ''origem'']"

definition VISITOR_KEYS :: "pystr list" where
  "VISITOR_KEYS = map u [''id'', ''nome_visitante'', ''expectativa_id'', ''observacao'']"

definition RECORD_KEYS :: "pystr list" where
  "RECORD_KEYS = map u [''id'', ''tipo'', ''conteudo'', ''pessoa_id'']"

definition PRESENCE_STATES :: "pystr list" where
  "PRESENCE_STATES = map u [''confirmada'', ''compareceu'', ''ausente'']"

definition PRESENCE_ORIGINS :: "pystr list" where
  "PRESENCE_ORIGINS = map u [''auto'', ''lider'']"

definition RECORD_TYPES :: "pystr list" where
  "RECORD_TYPES = map u [''decisao'', ''oracao'', ''observacao'']"

section \<open>Fields\<close>

definition has_exact_keys :: "py \<Rightarrow> pystr list \<Rightarrow> bool" where
  "has_exact_keys v K = (case v of PyDict d \<Rightarrow> keys_exactly d K | _ \<Rightarrow> False)"

text \<open>
  \<open>uuid.UUID(s)\<close> accepts more spellings than the one \<open>str(parsed) == s\<close> demands; on that one it
  reads the hexadecimal digits between the hyphens.
\<close>

definition hex_value :: "nat \<Rightarrow> nat" where
  "hex_value c = (if c \<le> 57 then c - 48 else c - 87)"

definition uuid_of_hex :: "pystr \<Rightarrow> uuid" where
  "uuid_of_hex s = word_of_nat (foldl (\<lambda>a c. 16 * a + hex_value c) 0 (filter (\<lambda>c. c \<noteq> 45) s))"

definition is_canonical_uuid :: "py \<Rightarrow> uuid option \<Rightarrow> bool" where
  "is_canonical_uuid v expected =
     (case v of
        PyStr s \<Rightarrow>
          length s = 36 \<and> uuid_of_hex s \<noteq> 0 \<and> str_of_uuid (uuid_of_hex s) = s
          \<and> (case expected of None \<Rightarrow> True | Some i \<Rightarrow> uuid_of_hex s = i)
      | _ \<Rightarrow> False)"

definition is_optional_canonical_uuid :: "py \<Rightarrow> bool" where
  "is_optional_canonical_uuid v \<longleftrightarrow> v = PyNone \<or> is_canonical_uuid v None"

definition is_bounded_text :: "py \<Rightarrow> nat \<Rightarrow> bool \<Rightarrow> nat option \<Rightarrow> bool" where
  "is_bounded_text v maximum optional maximum_bytes =
     (case v of
        PyNone \<Rightarrow> optional
      | PyStr s \<Rightarrow>
          s \<noteq> [] \<and> s = py_strip s \<and> length s \<le> maximum
          \<and> (case maximum_bytes of None \<Rightarrow> True
             | Some m \<Rightarrow> (case utf8_encode s of None \<Rightarrow> False | Some b \<Rightarrow> length b \<le> m))
      | _ \<Rightarrow> False)"

text \<open>\<open>Decimal(str(value))\<close>; a negative zero is not below zero.\<close>

definition decimal_of_py :: "unicode_db \<Rightarrow> py \<Rightarrow> decimal option" where
  "decimal_of_py U v =
     (case v of
        PyInt i \<Rightarrow> decimal_of_str U (str_of_int i)
      | PyFloat r \<Rightarrow> decimal_of_str U r
      | PyDecimal d \<Rightarrow> Some d
      | _ \<Rightarrow> None)"

definition money_in_range :: "decimal \<Rightarrow> bool" where
  "money_in_range d \<longleftrightarrow> is_finite d \<and> (is_zero d \<or> \<not> is_signed d)
     \<and> (is_signed d \<or> \<not> decimal_gt_cents (dcoeff d) (dexp d) MAX_REPORT_OFFERING_CENTS)"

definition canonical_money :: "unicode_db \<Rightarrow> py \<Rightarrow> decimal option" where
  "canonical_money U v =
     (case v of
        PyDecimal d \<Rightarrow> None
      | _ \<Rightarrow> (case decimal_of_py U v of
                None \<Rightarrow> None
              | Some d \<Rightarrow> if \<not> money_in_range d \<or> dexp d < - 2 \<or> (is_zero d \<and> is_signed d) then None else Some d))"

definition expected_money :: "unicode_db \<Rightarrow> py \<Rightarrow> decimal option" where
  "expected_money U v =
     (case decimal_of_py U v of None \<Rightarrow> None | Some d \<Rightarrow> if money_in_range d then Some d else None)"

text \<open>Equality of two finite decimals of the range, in which a signed one is zero.\<close>

definition decimal_eq :: "decimal \<Rightarrow> decimal \<Rightarrow> bool" where
  "decimal_eq a b = decimal_same_value (dcoeff a) (dexp a) (dcoeff b) (dexp b)"

section \<open>Items\<close>

definition dict_get :: "py \<Rightarrow> pystr \<Rightarrow> py" where
  "dict_get v k = (case v of PyDict d \<Rightarrow> py_get d k | _ \<Rightarrow> PyNone)"

definition str_in :: "py \<Rightarrow> pystr list \<Rightarrow> bool" where
  "str_in v ss = (case v of PyStr s \<Rightarrow> s \<in> set ss | _ \<Rightarrow> False)"

definition valid_presence :: "py \<Rightarrow> bool" where
  "valid_presence item \<longleftrightarrow>
     has_exact_keys item PRESENCE_KEYS
     \<and> is_canonical_uuid (dict_get item (u ''pessoa_id'')) None
     \<and> str_in (dict_get item (u ''estado'')) PRESENCE_STATES
     \<and> (dict_get item (u ''origem'') = PyNone \<or> str_in (dict_get item (u ''origem'')) PRESENCE_ORIGINS)"

definition valid_visitor :: "py \<Rightarrow> bool" where
  "valid_visitor item \<longleftrightarrow>
     has_exact_keys item VISITOR_KEYS
     \<and> is_canonical_uuid (dict_get item (u ''id'')) None
     \<and> is_bounded_text (dict_get item (u ''nome_visitante'')) MAX_VISITOR_NAME_LENGTH False None
     \<and> is_optional_canonical_uuid (dict_get item (u ''expectativa_id''))
     \<and> (dict_get item (u ''observacao'') = PyNone
        \<or> is_bounded_text (dict_get item (u ''observacao'')) MAX_REPORT_OBSERVATIONS_LENGTH False
            (Some MAX_REPORT_OBSERVATIONS_BYTES))"

definition valid_record :: "py \<Rightarrow> bool" where
  "valid_record item \<longleftrightarrow>
     has_exact_keys item RECORD_KEYS
     \<and> is_canonical_uuid (dict_get item (u ''id'')) None
     \<and> str_in (dict_get item (u ''tipo'')) RECORD_TYPES
     \<and> is_bounded_text (dict_get item (u ''conteudo'')) MAX_RECORD_CONTENT_LENGTH False None
     \<and> is_optional_canonical_uuid (dict_get item (u ''pessoa_id''))"

text \<open>The loop over the items, with the identities seen so far.\<close>

fun closed_items :: "(py \<Rightarrow> bool) \<Rightarrow> pystr \<Rightarrow> pystr set \<Rightarrow> py list \<Rightarrow> bool" where
  "closed_items valid key seen [] = True"
| "closed_items valid key seen (item # rest) =
     (case item of
        PyDict d \<Rightarrow>
          valid item
          \<and> (case py_get d key of
               PyStr s \<Rightarrow> s \<notin> seen \<and> closed_items valid key (insert s seen) rest
             | _ \<Rightarrow> False)
      | _ \<Rightarrow> False)"

definition valid_closed_list :: "py \<Rightarrow> (py \<Rightarrow> bool) \<Rightarrow> pystr \<Rightarrow> bool" where
  "valid_closed_list v valid key =
     (case v of PyList xs \<Rightarrow> int (length xs) \<le> MAX_REPORT_COUNT \<and> closed_items valid key {} xs | _ \<Rightarrow> False)"

section \<open>The recognizer\<close>

definition date_isoformat :: "date \<Rightarrow> pystr" where
  "date_isoformat d = zero_pad 4 (d_year d) @ [45] @ zero_pad 2 (d_month d) @ [45] @ zero_pad 2 (d_day d)"

text \<open>
  The columns of the meeting the recognizer is given.  Of the texts \<open>date.fromisoformat\<close> parses, the
  check \<open>parsed.isoformat() == data and parsed == meeting_date\<close> leaves \<open>meeting_date.isoformat()\<close>.
\<close>

definition is_canonical_legacy_human_report_snapshot ::
  "unicode_db \<Rightarrow> py \<Rightarrow> uuid \<Rightarrow> date \<Rightarrow> pystr option \<Rightarrow> pystr \<Rightarrow> py \<Rightarrow> pystr option \<Rightarrow> datetime option
   \<Rightarrow> uuid option \<Rightarrow> uuid \<Rightarrow> bool" where
  "is_canonical_legacy_human_report_snapshot U v meeting_id meeting_date meeting_tema meeting_status meeting_oferta
     meeting_obs meeting_sent_at meeting_sent_by actor =
     ((case meeting_sent_at of None \<Rightarrow> False | Some t \<Rightarrow> tzinfo t \<noteq> Naive \<and> utcoffset t \<noteq> None)
      \<and> meeting_sent_by = Some actor
      \<and> meeting_status = legacy_status
      \<and> has_exact_keys v REPORT_KEYS
      \<and> dict_get v (u ''data'') = PyStr (date_isoformat meeting_date)
      \<and> (dict_get v (u ''tema'') = PyNone \<or> is_bounded_text (dict_get v (u ''tema'')) MAX_TEMA_LENGTH False None)
      \<and> dict_get v (u ''tema'') = py_of_str meeting_tema
      \<and> (dict_get v (u ''observacoes'') = PyNone
         \<or> is_bounded_text (dict_get v (u ''observacoes'')) MAX_REPORT_OBSERVATIONS_LENGTH False
             (Some MAX_REPORT_OBSERVATIONS_BYTES))
      \<and> dict_get v (u ''observacoes'') = py_of_str meeting_obs
      \<and> (dict_get v (u ''oferta_valor'') = PyNone \<longleftrightarrow> meeting_oferta = PyNone)
      \<and> (dict_get v (u ''oferta_valor'') = PyNone
         \<or> (case (canonical_money U (dict_get v (u ''oferta_valor'')), expected_money U meeting_oferta) of
              (Some a, Some b) \<Rightarrow> decimal_eq a b
            | _ \<Rightarrow> False))
      \<and> is_canonical_uuid (dict_get v (u ''meeting_id'')) (Some meeting_id)
      \<and> dict_get v (u ''relatorio_status'') = PyStr legacy_status
      \<and> valid_closed_list (dict_get v (u ''presencas'')) valid_presence (u ''pessoa_id'')
      \<and> valid_closed_list (dict_get v (u ''visitantes'')) valid_visitor (u ''id'')
      \<and> valid_closed_list (dict_get v (u ''records'')) valid_record (u ''id''))"

section \<open>Lemmas\<close>

text \<open>The reading of the hexadecimal digits undoes \<open>str(uuid)\<close>, so that the test is for canonical texts.\<close>

lemma foldl_pair: "foldl (\<lambda>a c. 16 * a + hex_value c) n (hex_of_byte b @ cs)
    = foldl (\<lambda>a c. 16 * a + hex_value c) (256 * n + unat b) cs"
proof -
  have v: "hex_value (hex_char k) = k" if "k < 16" for k
    using that by (simp add: hex_value_def hex_char_def)
  have lt: "unat b div 16 < 16" using byte_bound [of b] by simp
  have e: "16 * (unat b div 16) + unat b mod 16 = unat b" by simp
  have "hex_value (hex_char (unat b div 16)) = unat b div 16" "hex_value (hex_char (unat b mod 16)) = unat b mod 16"
    using v lt by simp_all
  then show ?thesis using e by (simp add: hex_of_byte_def algebra_simps)
qed

lemma foldl_hexdigest: "foldl (\<lambda>a c. 16 * a + hex_value c) n (hexdigest bs) = foldl (\<lambda>a b. 256 * a + unat b) n bs"
proof (induction bs arbitrary: n)
  case (Cons b bs)
  then show ?case using foldl_pair [of n b "hexdigest bs"] by (simp add: hexdigest_def)
qed (simp add: hexdigest_def)

lemma bytes_of_int: "n < 256 ^ k \<Longrightarrow> bytes_to_nat (int_to_bytes k n) = n"
proof (induction k arbitrary: n)
  case (Suc k)
  then have "bytes_to_nat (int_to_bytes k (n div 256)) = n div 256" by simp
  then show ?case by simp
qed simp

lemma hexdigest_no_dash: "filter (\<lambda>c. c \<noteq> 45) (hexdigest bs) = hexdigest bs"
  using hexdigest_hex [of bs] by (auto simp: filter_id_conv is_hex_def)

lemma filter_str_of_uuid: "filter (\<lambda>c. c \<noteq> 45) (str_of_uuid i) = hexdigest (uuid_bytes i)"
proof -
  let ?h = "hexdigest (uuid_bytes i)"
  have nd: "\<forall>c \<in> set ?h. c \<noteq> 45" using hexdigest_hex [of "uuid_bytes i"] by (auto simp: is_hex_def)
  have "filter (\<lambda>c. c \<noteq> 45) s = s" if "set s \<subseteq> set ?h" for s
    using nd that by (auto simp: filter_id_conv)
  note f = this [OF set_take_subset] this [OF order_trans [OF set_take_subset set_drop_subset]] this [OF set_drop_subset]
  have "filter (\<lambda>c. c \<noteq> 45) (str_of_uuid i)
      = take 8 ?h @ take 4 (drop 8 ?h) @ take 4 (drop 12 ?h) @ take 4 (drop 16 ?h) @ drop 20 ?h"
    by (simp add: str_of_uuid_def Let_def f)
  also have "\<dots> = ?h"
    using append_take_drop_id [of 8 ?h] append_take_drop_id [of 4 "drop 8 ?h"]
      append_take_drop_id [of 4 "drop 12 ?h"] append_take_drop_id [of 4 "drop 16 ?h"]
    by (simp del: append_take_drop_id)
  finally show ?thesis .
qed

lemma uuid_of_str: "uuid_of_hex (str_of_uuid i) = i"
proof -
  have "unat i < 256 ^ 16" using unsigned_less [of i] by (simp add: power_mult [symmetric])
  then have "foldl (\<lambda>a c. 16 * a + hex_value c) 0 (filter (\<lambda>c. c \<noteq> 45) (str_of_uuid i)) = unat i"
    using bytes_of_int [of "unat i" 16] by (simp add: filter_str_of_uuid foldl_hexdigest uuid_bytes_def)
  then show ?thesis by (simp add: uuid_of_hex_def)
qed

lemma length_str_of_uuid: "length (str_of_uuid i) = 36"
  using length_uuid_hex [of i] by (simp add: str_of_uuid_def Let_def)

lemma is_canonical_uuid_iff:
  "is_canonical_uuid v e \<longleftrightarrow> (\<exists>i. i \<noteq> 0 \<and> v = PyStr (str_of_uuid i) \<and> (e = None \<or> e = Some i))"
  by (cases v; cases e) (auto simp: is_canonical_uuid_def uuid_of_str length_str_of_uuid intro: sym)

lemma legacy_has_no_schema:
  "has_exact_keys v REPORT_KEYS \<Longrightarrow> \<exists>d. v = PyDict d \<and> u ''schema'' \<notin> set (map fst d)"
  by (cases v) (auto simp: has_exact_keys_def keys_exactly_def REPORT_KEYS_def simp del: set_map)

lemma closed_items_distinct:
  "closed_items valid key seen xs \<Longrightarrow>
   \<exists>ids. map (\<lambda>x. dict_get x key) xs = map PyStr ids \<and> distinct ids \<and> set ids \<inter> seen = {} \<and> list_all valid xs"
proof (induction xs arbitrary: seen)
  case (Cons x xs)
  from Cons.prems obtain d where d: "x = PyDict d" "valid x" by (cases x) auto
  with Cons.prems obtain s where s: "py_get d key = PyStr s" "s \<notin> seen" "closed_items valid key (insert s seen) xs"
    by (cases "py_get d key") auto
  from Cons.IH [OF s(3)] obtain ids where "map (\<lambda>x. dict_get x key) xs = map PyStr ids" "distinct ids"
      "set ids \<inter> insert s seen = {}" "list_all valid xs" by blast
  then show ?case using d s by (intro exI [of _ "s # ids"]) (auto simp: dict_get_def)
qed simp

section \<open>Properties\<close>

text \<open>
  C33. The three shapes of the snapshot column exclude each other.  No JSON value is at the same
  time a report filed in the panel, a report the workflow submitted and a pending proposal; so
  a meeting's column is never read as one of them when another wrote it.
\<close>

theorem snapshot_shapes_exclusive:
  "\<not> (is_canonical_legacy_human_report_snapshot U v mi md mt ms mo mb msa msb actor
       \<and> (\<exists>s. validate_cell_report_snapshot_v2 U v = Inr s))
   \<and> \<not> (is_canonical_legacy_human_report_snapshot U v mi md mt ms mo mb msa msb actor
       \<and> (\<exists>p. rehydrate_cell_report_pending_proposal U v = Inr p))
   \<and> \<not> ((\<exists>s. validate_cell_report_snapshot_v2 U v = Inr s) \<and> (\<exists>p. rehydrate_cell_report_pending_proposal U v = Inr p))"
proof -
  let ?legacy = "is_canonical_legacy_human_report_snapshot U v mi md mt ms mo mb msa msb actor"
  have l: "\<exists>d. v = PyDict d \<and> u ''schema'' \<notin> set (map fst d)" if ?legacy
    using that legacy_has_no_schema by (simp add: is_canonical_legacy_human_report_snapshot_def)
  have s: "\<exists>d. v = PyDict d \<and> u ''schema'' \<in> set (map fst d) \<and> py_get d (u ''schema'') = PyStr snapshot_schema"
    if "validate_cell_report_snapshot_v2 U v = Inr s" for s
    using that by (cases v) (auto simp: validate_cell_report_snapshot_v2_def split: if_splits)
  have p: "\<exists>d. v = PyDict d \<and> py_get d (u ''schema'') = PyStr proposal_schema"
    if "rehydrate_cell_report_pending_proposal U v = Inr p" for p
    using that by (cases v) (auto simp: rehydrate_cell_report_pending_proposal_def split: if_splits)
  have n: "py_get d k = PyNone" if "k \<notin> set (map fst d)" for d k
  proof -
    have "map_of d k = None" using that by (simp add: map_of_eq_None_iff)
    then show ?thesis by (simp add: py_get_def)
  qed
  have "snapshot_schema \<noteq> proposal_schema" by (simp add: snapshot_schema_def proposal_schema_def)
  then show ?thesis using l s p n by (metis py.distinct(7) py.inject(4) py.inject(7))
qed

end
