(* ===== verification/ConsentEvidence.thy ===== *)
theory ConsentEvidence
  imports PyTime PyJson
begin

unbundle bit_operations_syntax

text \<open>
  The consent evidence domain, \<open>domain/consent_evidence_store.py\<close>: challenges, evidence rows,
  receipts, requests and the observation of the server-owned authority, with their construction
  checks; the canonical JSON and the digest of an evidence row; the binding of an authority to a
  request and the comparison of an idempotent replay.  A dataclass is a record and its \<open>__post_init__\<close> a validator; \<open>type(x) is not C\<close> checks are the typing of
  the model.  Instants are compared as Python compares aware values, by \<open>instant\<close>.
\<close>

section \<open>Enumerations\<close>

datatype purpose = ATENDIMENTO_SOLICITADO | CUIDADO_PASTORAL | TAREFAS_OPERACIONAIS | COMUNICADOS

datatype channel = WHATSAPP | PANEL

datatype language = PT_BR

datatype session_state = ACTIVE | EXPIRED | UNKNOWN

datatype authentication_state = VALID | INVALID | UNKNOWN

datatype age_status = ADULT | UNKNOWN | MINOR

datatype interaction_integrity = ORIGINAL_DIRECT | EDITED | FORWARDED | UNKNOWN

datatype subject_kind = ADULT_SELF

datatype choice_mode = PRESENTATION_ONLY | EXPLICIT_CONTROL | INFERRED

datatype challenge_state = OPEN | CONSUMED | EXPIRED | CANCELLED

datatype evidence_type = PRESENTATION | MANIFESTATION

datatype consent_action = ACCEPT | REFUSE_INITIAL | WITHDRAW

datatype ledger_state = ABSENT | GRANTED | WITHDRAWN

datatype receipt_schema = RECEIPT_LAB_V1

fun purpose_value :: "purpose \<Rightarrow> pystr" where
  "purpose_value ATENDIMENTO_SOLICITADO = u ''atendimento_solicitado''"
| "purpose_value CUIDADO_PASTORAL = u ''cuidado_pastoral''"
| "purpose_value TAREFAS_OPERACIONAIS = u ''tarefas_operacionais''"
| "purpose_value COMUNICADOS = u ''comunicados''"

fun channel_value :: "channel \<Rightarrow> pystr" where
  "channel_value WHATSAPP = u ''WHATSAPP''"
| "channel_value PANEL = u ''PANEL''"

fun language_value :: "language \<Rightarrow> pystr" where
  "language_value PT_BR = u ''pt-BR''"

fun evidence_type_value :: "evidence_type \<Rightarrow> pystr" where
  "evidence_type_value PRESENTATION = u ''PRESENTATION''"
| "evidence_type_value MANIFESTATION = u ''MANIFESTATION''"

fun action_value :: "consent_action \<Rightarrow> pystr" where
  "action_value ACCEPT = u ''ACCEPT''"
| "action_value REFUSE_INITIAL = u ''REFUSE_INITIAL''"
| "action_value WITHDRAW = u ''WITHDRAW''"

definition MAX_PACKAGE_VERSION_LENGTH :: nat where "MAX_PACKAGE_VERSION_LENGTH = 128"

text \<open>Thirty minutes, in microseconds.\<close>

definition MAX_CHALLENGE_LIFETIME :: int where "MAX_CHALLENGE_LIFETIME = 1800000000"
definition IDEMPOTENCY_KEY_PREFIX :: pystr where "IDEMPOTENCY_KEY_PREFIX = u ''ce:v1:''"

text \<open>\<open>Rejected\<close> is \<open>ConsentEvidenceValidationError\<close>; the other two come from the standard library.\<close>

datatype evidence_error = Rejected | ValueError | OverflowError

section \<open>Field validators\<close>

definition require_uuid :: "uuid \<Rightarrow> (evidence_error, uuid) result" where
  "require_uuid i = (if i = 0 then Inl Rejected else Inr i)"

definition require_optional_uuid :: "uuid option \<Rightarrow> (evidence_error, uuid option) result" where
  "require_optional_uuid v =
     (case v of None \<Rightarrow> Inr None | Some i \<Rightarrow> ebind (require_uuid i) (\<lambda>i. Inr (Some i)))"

definition require_utc :: "datetime \<Rightarrow> (evidence_error, datetime) result" where
  "require_utc t = (if tzinfo t = Naive \<or> utcoffset t \<noteq> Some 0 then Inl Rejected else Inr t)"

definition require_optional_utc :: "datetime option \<Rightarrow> (evidence_error, datetime option) result" where
  "require_optional_utc v =
     (case v of None \<Rightarrow> Inr None | Some t \<Rightarrow> ebind (require_utc t) (\<lambda>t. Inr (Some t)))"

definition require_sha256 :: "pystr \<Rightarrow> (evidence_error, pystr) result" where
  "require_sha256 s = (if prefixed_hex64 [] s then Inr s else Inl Rejected)"

definition is_alnum_ascii :: "nat \<Rightarrow> bool" where
  "is_alnum_ascii c \<longleftrightarrow> (48 \<le> c \<and> c \<le> 57) \<or> (65 \<le> c \<and> c \<le> 90) \<or> (97 \<le> c \<and> c \<le> 122)"

definition is_version_char :: "nat \<Rightarrow> bool" where
  "is_version_char c \<longleftrightarrow> is_alnum_ascii c \<or> c = 46 \<or> c = 95 \<or> c = 45"

fun package_version_matches :: "pystr \<Rightarrow> bool" where
  "package_version_matches [] = False"
| "package_version_matches (c # cs) \<longleftrightarrow> is_alnum_ascii c \<and> length cs \<le> 127 \<and> list_all is_version_char cs"

definition isascii :: "pystr \<Rightarrow> bool" where
  "isascii s = list_all (\<lambda>c. c < 128) s"

definition require_package_version :: "pystr \<Rightarrow> (evidence_error, pystr) result" where
  "require_package_version s =
     (if \<not> isascii s \<or> length s > MAX_PACKAGE_VERSION_LENGTH \<or> \<not> package_version_matches s
      then Inl Rejected else Inr s)"

section \<open>Canonical JSON\<close>

definition format_instant :: "datetime \<Rightarrow> (evidence_error, pystr) result" where
  "format_instant t = ebind (require_utc t) (\<lambda>t. Inr (render_instant t))"

text \<open>The values \<open>_canonical_value\<close> accepts, by the branch of the code that takes them.\<close>

datatype canon =
    CEnum pystr
  | CUuid uuid
  | CInstant datetime
  | CKey pystr
  | CNone
  | CBool bool
  | CStr pystr
  | CMap "(pystr \<times> canon) list"
  | CList "canon list"

lemma emap_cong [fundef_cong]:
  "xs = ys \<Longrightarrow> (\<And>x. x \<in> set ys \<Longrightarrow> f x = g x) \<Longrightarrow> emap f xs = emap g ys"
proof (induction ys arbitrary: xs)
  case (Cons y ys)
  then have "emap f ys = emap g ys" "f y = g y" by auto
  with Cons.prems(1) show ?case by simp
qed simp

lemma size_item_le: "(k, v) \<in> set d \<Longrightarrow> size (v :: canon) \<le> size_list (size_prod (\<lambda>_. 0) size) d"
  by (induction d) auto

function canonical_value :: "canon \<Rightarrow> (evidence_error, py) result" where
  "canonical_value (CEnum v) = (if isascii v then Inr (PyStr v) else Inl Rejected)"
| "canonical_value (CUuid i) = Inr (PyStr (str_of_uuid i))"
| "canonical_value (CInstant t) = ebind (format_instant t) (\<lambda>s. Inr (PyStr s))"
| "canonical_value (CKey k) = Inr (PyStr k)"
| "canonical_value CNone = Inr PyNone"
| "canonical_value (CBool b) = Inr (PyBool b)"
| "canonical_value (CStr s) = (if isascii s then Inr (PyStr s) else Inl Rejected)"
| "canonical_value (CMap d) =
     (if \<not> list_all (\<lambda>(k, _). isascii k) d then Inl Rejected
      else ebind (emap (\<lambda>(k, v). ebind (canonical_value v) (\<lambda>w. Inr (k, w))) (sort_key fst d))
             (\<lambda>items. Inr (PyDict items)))"
| "canonical_value (CList xs) = ebind (emap canonical_value xs) (\<lambda>ys. Inr (PyList ys))"
  by pat_completeness auto

termination
  by (relation "measure size")
    (auto simp: less_Suc_eq_le intro: size_item_le size_list_estimation' [of _ _ _ size])

definition canonical_json :: "(pystr \<times> canon) list \<Rightarrow> (evidence_error, pystr) result" where
  "canonical_json d =
     ebind (canonical_value (CMap d)) (\<lambda>v.
       case v of
         PyDict _ \<Rightarrow> (case json_dumps v of None \<Rightarrow> Inl ValueError | Some s \<Rightarrow> Inr s)
       | _ \<Rightarrow> Inl Rejected)"

section \<open>Idempotency keys\<close>

text \<open>
  \<open>hmac.digest(key, msg, "sha256")\<close> (RFC 2104); the process secret
  \<open>_IDEMPOTENCY_KEY_MINT_SECRET\<close> and the entropy of \<open>secrets.token_hex(32)\<close> are arguments.
\<close>

definition hmac_sha256 :: "bytes \<Rightarrow> bytes \<Rightarrow> bytes" where
  "hmac_sha256 key msg =
     (let k = (if length key > 64 then sha256 key else key);
          block = k @ replicate (64 - length k) 0
      in sha256 (map (\<lambda>b. b XOR 92) block @ sha256 (map (\<lambda>b. b XOR 54) block @ msg)))"

record opaque_key =
  key_value :: pystr
  mint_proof :: bytes

definition opaque_key_generate :: "bytes \<Rightarrow> bytes \<Rightarrow> (evidence_error, opaque_key) result" where
  "opaque_key_generate secret entropy =
     (let v = IDEMPOTENCY_KEY_PREFIX @ hexdigest entropy
      in if \<not> prefixed_hex64 IDEMPOTENCY_KEY_PREFIX v then Inl Rejected
         else Inr \<lparr>key_value = v, mint_proof = hmac_sha256 secret (ascii_bytes v)\<rparr>)"

definition was_server_minted_in_this_process :: "bytes \<Rightarrow> opaque_key \<Rightarrow> bool" where
  "was_server_minted_in_this_process secret k \<longleftrightarrow>
     prefixed_hex64 IDEMPOTENCY_KEY_PREFIX (key_value k)
     \<and> mint_proof k = hmac_sha256 secret (ascii_bytes (key_value k))"

definition require_persisted_idempotency_key :: "pystr \<Rightarrow> (evidence_error, pystr) result" where
  "require_persisted_idempotency_key s = (if prefixed_hex64 IDEMPOTENCY_KEY_PREFIX s then Inr s else Inl Rejected)"

section \<open>Challenges\<close>

record challenge =
  ch_id :: uuid
  ch_igreja_id :: uuid
  ch_pessoa_id :: uuid
  ch_finalidade :: purpose
  ch_package_id :: uuid
  ch_package_version :: pystr
  ch_content_digest :: pystr
  ch_catalog_entry_digest :: pystr
  ch_notice_text_digest :: pystr
  ch_binding_id :: uuid
  ch_interaction_id :: uuid
  ch_canal :: channel
  ch_idioma :: language
  ch_criado_em :: datetime
  ch_expira_em :: datetime
  ch_estado :: challenge_state
  ch_encerrado_em :: "datetime option"

definition challenge_end_ok :: "challenge \<Rightarrow> datetime option \<Rightarrow> bool" where
  "challenge_end_ok c ended \<longleftrightarrow>
     (if ch_estado c = OPEN then ended = None
      else case ended of
             None \<Rightarrow> False
           | Some e \<Rightarrow> \<not> instant e < instant (ch_criado_em c)
               \<and> \<not> (ch_estado c = EXPIRED \<and> instant e < instant (ch_expira_em c)))"

definition challenge_post_init :: "challenge \<Rightarrow> (evidence_error, challenge) result" where
  "challenge_post_init c =
     ebind (emap require_uuid [ch_id c, ch_igreja_id c, ch_pessoa_id c, ch_package_id c, ch_binding_id c,
                               ch_interaction_id c]) (\<lambda>_.
     ebind (require_package_version (ch_package_version c)) (\<lambda>_.
     ebind (require_sha256 (ch_content_digest c)) (\<lambda>_.
     ebind (require_sha256 (ch_catalog_entry_digest c)) (\<lambda>_.
     ebind (require_sha256 (ch_notice_text_digest c)) (\<lambda>_.
     ebind (require_utc (ch_criado_em c)) (\<lambda>created.
     ebind (require_utc (ch_expira_em c)) (\<lambda>expires.
       if instant expires \<le> instant created \<or> instant expires - instant created > MAX_CHALLENGE_LIFETIME
       then Inl Rejected
       else ebind (require_optional_utc (ch_encerrado_em c)) (\<lambda>ended.
         if challenge_end_ok c ended then Inr c else Inl Rejected))))))))"

definition with_state :: "challenge \<Rightarrow> challenge_state \<Rightarrow> datetime \<Rightarrow> (evidence_error, challenge) result" where
  "with_state c st ended_at =
     (if ch_estado c \<noteq> OPEN then Inl Rejected
      else if st = OPEN then Inl Rejected
      else ebind (require_utc ended_at) (\<lambda>ended.
        if st = EXPIRED \<and> instant ended < instant (ch_expira_em c) then Inl Rejected
        else challenge_post_init (c\<lparr>ch_estado := st, ch_encerrado_em := Some ended\<rparr>)))"

section \<open>Evidence rows, receipts and requests\<close>

record evidence =
  ev_id :: uuid
  ev_igreja_id :: uuid
  ev_desafio_id :: uuid
  ev_tipo :: evidence_type
  ev_chave_idempotencia :: pystr
  ev_registrado_em :: datetime
  ev_evidence_digest :: pystr
  ev_apresentacao_id :: "uuid option"
  ev_acao :: "consent_action option"

definition evidence_post_init :: "evidence \<Rightarrow> (evidence_error, evidence) result" where
  "evidence_post_init e =
     ebind (emap require_uuid [ev_id e, ev_igreja_id e, ev_desafio_id e]) (\<lambda>_.
     ebind (require_persisted_idempotency_key (ev_chave_idempotencia e)) (\<lambda>_.
     ebind (require_utc (ev_registrado_em e)) (\<lambda>_.
     ebind (require_sha256 (ev_evidence_digest e)) (\<lambda>_.
     ebind (require_optional_uuid (ev_apresentacao_id e)) (\<lambda>presentation_id.
       if ev_tipo e = PRESENTATION then
         (if presentation_id \<noteq> None \<or> ev_acao e \<noteq> None then Inl Rejected else Inr e)
       else if presentation_id = None then Inl Rejected
       else if ev_acao e \<noteq> Some REFUSE_INITIAL then Inl Rejected
       else Inr e)))))"

record consent_receipt =
  rc_id :: uuid
  rc_igreja_id :: uuid
  rc_evidencia_id :: uuid
  rc_chave_idempotencia :: pystr
  rc_registrado_em :: datetime
  rc_acao :: consent_action
  rc_schema_version :: receipt_schema

definition receipt_post_init :: "consent_receipt \<Rightarrow> (evidence_error, consent_receipt) result" where
  "receipt_post_init r =
     ebind (emap require_uuid [rc_id r, rc_igreja_id r, rc_evidencia_id r]) (\<lambda>_.
     ebind (require_persisted_idempotency_key (rc_chave_idempotencia r)) (\<lambda>_.
     ebind (require_utc (rc_registrado_em r)) (\<lambda>_.
       if rc_acao r \<noteq> REFUSE_INITIAL then Inl Rejected else Inr r)))"

record consent_request =
  rq_desafio :: challenge
  rq_chave_idempotencia :: opaque_key
  rq_apresentada_em :: datetime
  rq_manifestada_em :: "datetime option"
  rq_acao :: "consent_action option"

definition request_action_ok :: "consent_action option \<Rightarrow> datetime option \<Rightarrow> bool" where
  "request_action_ok action manifested \<longleftrightarrow>
     (case action of None \<Rightarrow> manifested = None | Some _ \<Rightarrow> manifested \<noteq> None)"

definition request_post_init :: "bytes \<Rightarrow> consent_request \<Rightarrow> (evidence_error, consent_request) result" where
  "request_post_init secret r =
     (if \<not> was_server_minted_in_this_process secret (rq_chave_idempotencia r) then Inl Rejected
      else ebind (require_utc (rq_apresentada_em r)) (\<lambda>presented.
           ebind (require_optional_utc (rq_manifestada_em r)) (\<lambda>manifested.
             if \<not> request_action_ok (rq_acao r) manifested then Inl Rejected
             else if instant presented < instant (ch_criado_em (rq_desafio r))
               \<or> instant presented \<ge> instant (ch_expira_em (rq_desafio r)) then Inl Rejected
             else case manifested of
                    None \<Rightarrow> Inr r
                  | Some m \<Rightarrow> if instant m < instant presented \<or> instant m \<ge> instant (ch_expira_em (rq_desafio r))
                      then Inl Rejected else Inr r)))"

section \<open>The authority of the server-owned source\<close>

record subject =
  sj_kind :: subject_kind
  sj_age_status :: age_status
  sj_authentication_state :: authentication_state
  sj_session_state :: session_state
  sj_interaction_integrity :: interaction_integrity
  sj_choice_mode :: choice_mode

record authority =
  au_igreja_id :: uuid
  au_pessoa_id :: uuid
  au_actor_id :: uuid
  au_finalidade :: purpose
  au_package_id :: uuid
  au_package_version :: pystr
  au_content_digest :: pystr
  au_catalog_entry_digest :: pystr
  au_notice_text_digest :: pystr
  au_binding_id :: uuid
  au_interaction_id :: uuid
  au_canal :: channel
  au_idioma :: language
  au_subject :: subject
  au_prior_ledger_state :: ledger_state
  au_prior_event_id :: "uuid option"
  au_action :: "consent_action option"
  au_presented_at :: "datetime option"
  au_manifested_at :: "datetime option"

definition authority_post_init :: "authority \<Rightarrow> (evidence_error, authority) result" where
  "authority_post_init a =
     ebind (emap require_uuid [au_igreja_id a, au_pessoa_id a, au_actor_id a, au_package_id a, au_binding_id a,
                               au_interaction_id a]) (\<lambda>_.
       if au_actor_id a \<noteq> au_pessoa_id a then Inl Rejected
       else ebind (require_package_version (au_package_version a)) (\<lambda>_.
            ebind (require_sha256 (au_content_digest a)) (\<lambda>_.
            ebind (require_sha256 (au_catalog_entry_digest a)) (\<lambda>_.
            ebind (require_sha256 (au_notice_text_digest a)) (\<lambda>_.
            ebind (require_optional_uuid (au_prior_event_id a)) (\<lambda>_.
              if (if au_prior_ledger_state a = ABSENT then au_prior_event_id a \<noteq> None
                  else au_prior_event_id a = None) then Inl Rejected
              else ebind (require_optional_utc (au_presented_at a)) (\<lambda>_.
                   ebind (require_optional_utc (au_manifested_at a)) (\<lambda>_. Inr a))))))))"

text \<open>What a source answers: \<open>ConsentEvidenceSourceError\<close>, another exception, or an observation.\<close>

datatype source_answer = SourceError | SourceRaised | SourceValue authority

definition deny_by_default_resolve :: "consent_request \<Rightarrow> datetime \<Rightarrow> source_answer" where
  "deny_by_default_resolve request now = SourceError"

definition deny_by_default_revalidate :: "consent_request \<Rightarrow> authority \<Rightarrow> datetime \<Rightarrow> source_answer" where
  "deny_by_default_revalidate request previous now = SourceError"

section \<open>The digest of an evidence row\<close>

definition canon_option :: "('a \<Rightarrow> canon) \<Rightarrow> 'a option \<Rightarrow> canon" where
  "canon_option f v = (case v of None \<Rightarrow> CNone | Some x \<Rightarrow> f x)"

definition evidence_digest_payload :: "evidence \<Rightarrow> (pystr \<times> canon) list" where
  "evidence_digest_payload e =
     [(u ''id'', CUuid (ev_id e)), (u ''igreja_id'', CUuid (ev_igreja_id e)),
      (u ''desafio_id'', CUuid (ev_desafio_id e)), (u ''tipo'', CEnum (evidence_type_value (ev_tipo e))),
      (u ''chave_idempotencia'', CStr (ev_chave_idempotencia e)),
      (u ''registrado_em'', CInstant (ev_registrado_em e)),
      (u ''apresentacao_id'', canon_option CUuid (ev_apresentacao_id e)),
      (u ''acao'', canon_option (\<lambda>a. CEnum (action_value a)) (ev_acao e))]"

definition challenge_digest_payload :: "challenge \<Rightarrow> (pystr \<times> canon) list" where
  "challenge_digest_payload c =
     [(u ''id'', CUuid (ch_id c)), (u ''igreja_id'', CUuid (ch_igreja_id c)),
      (u ''pessoa_id'', CUuid (ch_pessoa_id c)), (u ''finalidade'', CEnum (purpose_value (ch_finalidade c))),
      (u ''package_id'', CUuid (ch_package_id c)), (u ''package_version'', CStr (ch_package_version c)),
      (u ''content_digest'', CStr (ch_content_digest c)),
      (u ''catalog_entry_digest'', CStr (ch_catalog_entry_digest c)),
      (u ''notice_text_digest'', CStr (ch_notice_text_digest c)),
      (u ''binding_id'', CUuid (ch_binding_id c)), (u ''interaction_id'', CUuid (ch_interaction_id c)),
      (u ''canal'', CEnum (channel_value (ch_canal c))), (u ''idioma'', CEnum (language_value (ch_idioma c))),
      (u ''criado_em'', CInstant (ch_criado_em c)), (u ''expira_em'', CInstant (ch_expira_em c))]"

definition evidence_envelope :: "evidence \<Rightarrow> challenge \<Rightarrow> (pystr \<times> canon) list" where
  "evidence_envelope e c = evidence_digest_payload e @ [(u ''challenge'', CMap (challenge_digest_payload c))]"

definition compute_evidence_digest :: "evidence \<Rightarrow> challenge \<Rightarrow> (evidence_error, pystr) result" where
  "compute_evidence_digest e c =
     (if ch_id c \<noteq> ev_desafio_id e \<or> ch_igreja_id c \<noteq> ev_igreja_id e then Inl Rejected
      else ebind (canonical_json (evidence_envelope e c)) (\<lambda>j.
             case utf8_encode j of None \<Rightarrow> Inl ValueError | Some b \<Rightarrow> Inr (hexdigest (sha256 b))))"

definition evidence_matches_digest :: "evidence \<Rightarrow> challenge \<Rightarrow> (evidence_error, bool) result" where
  "evidence_matches_digest e c =
     ebind (compute_evidence_digest e c) (\<lambda>d. Inr (ev_evidence_digest e = d))"

definition build_evidence ::
  "bytes \<Rightarrow> uuid \<Rightarrow> uuid \<Rightarrow> uuid \<Rightarrow> evidence_type \<Rightarrow> opaque_key \<Rightarrow> challenge \<Rightarrow> datetime \<Rightarrow> uuid option
   \<Rightarrow> consent_action option \<Rightarrow> (evidence_error, evidence) result" where
  "build_evidence secret evidence_id igreja_id desafio_id tipo chave c registrado_em apresentacao_id acao =
     (if \<not> was_server_minted_in_this_process secret chave then Inl Rejected
      else if ch_id c \<noteq> desafio_id \<or> ch_igreja_id c \<noteq> igreja_id then Inl Rejected
      else ebind (evidence_post_init
             \<lparr>ev_id = evidence_id, ev_igreja_id = igreja_id, ev_desafio_id = desafio_id, ev_tipo = tipo,
              ev_chave_idempotencia = key_value chave, ev_registrado_em = registrado_em,
              ev_evidence_digest = replicate 64 48, ev_apresentacao_id = apresentacao_id, ev_acao = acao\<rparr>)
             (\<lambda>provisional.
                ebind (compute_evidence_digest provisional c) (\<lambda>d.
                  evidence_post_init (provisional\<lparr>ev_evidence_digest := d\<rparr>))))"

section \<open>Binding of an authority to a request\<close>

definition same_instant :: "datetime option \<Rightarrow> datetime option \<Rightarrow> bool" where
  "same_instant a b \<longleftrightarrow> map_option instant a = map_option instant b"

definition authority_mirrors :: "authority \<Rightarrow> challenge \<Rightarrow> bool" where
  "authority_mirrors a c \<longleftrightarrow>
     au_igreja_id a = ch_igreja_id c \<and> au_pessoa_id a = ch_pessoa_id c \<and> au_finalidade a = ch_finalidade c
     \<and> au_package_id a = ch_package_id c \<and> au_package_version a = ch_package_version c
     \<and> au_content_digest a = ch_content_digest c \<and> au_catalog_entry_digest a = ch_catalog_entry_digest c
     \<and> au_notice_text_digest a = ch_notice_text_digest c \<and> au_binding_id a = ch_binding_id c
     \<and> au_interaction_id a = ch_interaction_id c \<and> au_canal a = ch_canal c \<and> au_idioma a = ch_idioma c"

definition adult_self_proven :: "subject \<Rightarrow> bool" where
  "adult_self_proven s \<longleftrightarrow>
     sj_kind s = ADULT_SELF \<and> sj_age_status s = ADULT \<and> sj_authentication_state s = VALID
     \<and> sj_session_state s = ACTIVE \<and> sj_interaction_integrity s = ORIGINAL_DIRECT"

definition validate_choice :: "consent_request \<Rightarrow> authority \<Rightarrow> (evidence_error, unit) result" where
  "validate_choice r a =
     (case rq_acao r of
        None \<Rightarrow>
          if au_action a \<noteq> None \<or> sj_choice_mode (au_subject a) \<noteq> PRESENTATION_ONLY then Inl Rejected else Inr ()
      | Some action \<Rightarrow>
          if sj_choice_mode (au_subject a) \<noteq> EXPLICIT_CONTROL then Inl Rejected
          else if au_action a \<noteq> Some action then Inl Rejected
          else if action = REFUSE_INITIAL \<and> au_prior_ledger_state a \<noteq> ABSENT then Inl Rejected
          else Inr ())"

definition validate_chronology :: "consent_request \<Rightarrow> authority \<Rightarrow> (evidence_error, unit) result" where
  "validate_chronology r a =
     (let c = rq_desafio r in
      if \<not> same_instant (au_presented_at a) (Some (rq_apresentada_em r)) then Inl Rejected
      else if \<not> same_instant (au_manifested_at a) (rq_manifestada_em r) then Inl Rejected
      else if (case au_presented_at a of None \<Rightarrow> False
               | Some p \<Rightarrow> instant p < instant (ch_criado_em c) \<or> instant p \<ge> instant (ch_expira_em c))
      then Inl Rejected
      else case au_manifested_at a of
             None \<Rightarrow> Inr ()
           | Some m \<Rightarrow>
               if (case au_presented_at a of None \<Rightarrow> True | Some p \<Rightarrow> instant m < instant p) then Inl Rejected
               else if instant m \<ge> instant (ch_expira_em c) then Inl Rejected
               else Inr ())"

definition validate_source_binding :: "consent_request \<Rightarrow> authority \<Rightarrow> (evidence_error, unit) result" where
  "validate_source_binding r a =
     (let c = rq_desafio r in
      if \<not> authority_mirrors a c then Inl Rejected
      else if au_actor_id a \<noteq> ch_pessoa_id c then Inl Rejected
      else if \<not> adult_self_proven (au_subject a) then Inl Rejected
      else ebind (validate_choice r a) (\<lambda>_. validate_chronology r a))"

section \<open>Comparison of replays\<close>

definition compare_challenges :: "challenge \<Rightarrow> challenge \<Rightarrow> bool" where
  "compare_challenges l r \<longleftrightarrow>
     ch_id l = ch_id r \<and> ch_igreja_id l = ch_igreja_id r \<and> ch_pessoa_id l = ch_pessoa_id r
     \<and> ch_finalidade l = ch_finalidade r \<and> ch_package_id l = ch_package_id r
     \<and> ch_package_version l = ch_package_version r \<and> ch_content_digest l = ch_content_digest r
     \<and> ch_catalog_entry_digest l = ch_catalog_entry_digest r \<and> ch_notice_text_digest l = ch_notice_text_digest r
     \<and> ch_binding_id l = ch_binding_id r \<and> ch_interaction_id l = ch_interaction_id r
     \<and> ch_canal l = ch_canal r \<and> ch_idioma l = ch_idioma r
     \<and> instant (ch_criado_em l) = instant (ch_criado_em r) \<and> instant (ch_expira_em l) = instant (ch_expira_em r)"

definition compare_evidence_intent ::
  "evidence \<Rightarrow> consent_request \<Rightarrow> uuid option \<Rightarrow> (evidence_error, bool) result" where
  "compare_evidence_intent e r presentation_id =
     ebind (evidence_matches_digest e (rq_desafio r)) (\<lambda>m.
       if \<not> m then Inr False
       else case rq_acao r of
         None \<Rightarrow> Inr (ev_tipo e = PRESENTATION \<and> ev_desafio_id e = ch_id (rq_desafio r)
                   \<and> ev_chave_idempotencia e = key_value (rq_chave_idempotencia r)
                   \<and> instant (ev_registrado_em e) = instant (rq_apresentada_em r)
                   \<and> ev_apresentacao_id e = None \<and> ev_acao e = None)
       | Some action \<Rightarrow> Inr (ev_tipo e = MANIFESTATION \<and> ev_desafio_id e = ch_id (rq_desafio r)
                   \<and> ev_chave_idempotencia e = key_value (rq_chave_idempotencia r)
                   \<and> same_instant (Some (ev_registrado_em e)) (rq_manifestada_em r)
                   \<and> ev_apresentacao_id e = presentation_id \<and> ev_acao e = Some action))"

section \<open>The canonical text\<close>

text \<open>
  What is digested: the value itself with every leaf rendered, keys sorted by \<open>sort_keys\<close>.
  \<open>canon_ok\<close> holds of the values the code builds from valid rows; on them canonicalisation
  succeeds and the text is the one of \<open>canon_py\<close>.
\<close>

fun canon_py :: "canon \<Rightarrow> py" where
  "canon_py (CEnum v) = PyStr v"
| "canon_py (CUuid i) = PyStr (str_of_uuid i)"
| "canon_py (CInstant t) = PyStr (render_instant t)"
| "canon_py (CKey k) = PyStr k"
| "canon_py CNone = PyNone"
| "canon_py (CBool b) = PyBool b"
| "canon_py (CStr s) = PyStr s"
| "canon_py (CMap d) = PyDict (map (\<lambda>(k, v). (k, canon_py v)) d)"
| "canon_py (CList xs) = PyList (map canon_py xs)"

fun canon_ok :: "canon \<Rightarrow> bool" where
  "canon_ok (CEnum v) = isascii v"
| "canon_ok (CInstant t) = (utcoffset t = Some 0)"
| "canon_ok (CKey k) = isascii k"
| "canon_ok (CStr s) = isascii s"
| "canon_ok (CMap d) = list_all (\<lambda>(k, v). isascii k \<and> canon_ok v) d"
| "canon_ok (CList xs) = list_all canon_ok xs"
| "canon_ok _ = True"

lemma sort_key_map_fst: "sort_key fst (map (\<lambda>(k, v). (k, f v)) d) = map (\<lambda>(k, v). (k, f v)) (sort_key fst d)"
proof -
  have insort: "insort_key fst (k, f v) (map (\<lambda>(k, v). (k, f v)) e) = map (\<lambda>(k, v). (k, f v)) (insort_key fst (k, v) e)" for k v e
    by (induction e) auto
  show ?thesis
  proof (induction d)
    case (Cons x d)
    then show ?case by (cases x) (simp add: insort)
  qed simp
qed

lemma sort_key_idem: "sort_key fst (sort_key fst d) = sort_key fst d"
  by (rule sort_key_id_if_sorted) simp

lemma emap_values:
  assumes "\<And>k v. (k, v) \<in> set d \<Longrightarrow> f v = Inr (g v)"
  shows "emap (\<lambda>(k, v). ebind (f v) (\<lambda>w. Inr (k, w))) d = Inr (map (\<lambda>(k, v). (k, g v)) d)"
  using assms
proof (induction d)
  case (Cons x d)
  obtain k v where x: "x = (k, v)" by (cases x)
  have "f v = Inr (g v)" using Cons.prems [of k v] x by simp
  moreover have "emap (\<lambda>(k, v). ebind (f v) (\<lambda>w. Inr (k, w))) d = Inr (map (\<lambda>(k, v). (k, g v)) d)"
    by (rule Cons.IH) (use Cons.prems in auto)
  ultimately show ?case by (simp add: x)
qed simp

lemma require_utc_iff: "require_utc t = Inr t' \<longleftrightarrow> t' = t \<and> utcoffset t = Some 0"
  by (auto simp: require_utc_def utcoffset_def split: tz.splits)

lemma format_instant_utc: "utcoffset t = Some 0 \<Longrightarrow> format_instant t = Inr (render_instant t)"
  using require_utc_iff [of t t] by (simp add: format_instant_def)

lemma canonical_value_ok: "canon_ok v \<Longrightarrow> \<exists>w. canonical_value v = Inr w \<and> sort_keys w = sort_keys (canon_py v)"
proof (induction v rule: canonical_value.induct)
  case (8 d)
  let ?g = "\<lambda>v. projr (canonical_value v)"
  have d: "list_all (\<lambda>(k, _). isascii k) d" using "8.prems" by (auto simp: list_all_iff)
  have v: "canonical_value v = Inr (?g v) \<and> sort_keys (?g v) = sort_keys (canon_py v)" if "(k, v) \<in> set d" for k v
  proof -
    have "canon_ok v" using "8.prems" that by (auto simp: list_all_iff)
    then have "\<exists>w. canonical_value v = Inr w \<and> sort_keys w = sort_keys (canon_py v)"
      using "8.IH" [of "(k, v)" k v] d that by simp
    then show ?thesis by auto
  qed
  have comp: "map (\<lambda>(k, v). (k, f v)) (map (\<lambda>(k, v). (k, h v)) e) = map (\<lambda>(k, v). (k, f (h v))) e" for f h e
    by (induction e) auto
  let ?w = "PyDict (map (\<lambda>(k, v). (k, ?g v)) (sort_key fst d))"
  have "canonical_value (CMap d) = Inr ?w"
    using d emap_values [of "sort_key fst d" canonical_value ?g] v by (simp add: case_prod_unfold)
  moreover have "map (\<lambda>(k, v). (k, sort_keys (?g v))) (sort_key fst d)
      = map (\<lambda>(k, v). (k, sort_keys (canon_py v))) (sort_key fst d)"
    using v by auto
  then have "sort_keys ?w = PyDict (sort_key fst (map (\<lambda>(k, v). (k, sort_keys (canon_py v))) (sort_key fst d)))"
    by (simp only: sort_keys.simps comp)
  then have "sort_keys ?w = sort_keys (canon_py (CMap d))"
    by (simp only: sort_keys.simps canon_py.simps comp sort_key_map_fst sort_key_idem)
  ultimately show ?case by blast
next
  case (9 xs)
  have "emap canonical_value ys = Inr (map (\<lambda>v. projr (canonical_value v)) ys) \<and>
      map (sort_keys \<circ> (\<lambda>v. projr (canonical_value v))) ys = map (sort_keys \<circ> canon_py) ys"
    if "set ys \<subseteq> set xs" for ys
    using that
  proof (induction ys)
    case (Cons y ys)
    then have "\<exists>w. canonical_value y = Inr w \<and> sort_keys w = sort_keys (canon_py y)"
      using "9.IH" [of y] "9.prems" by (auto simp: list_all_iff)
    with Cons show ?case by auto
  qed simp
  from this [of xs] show ?case by auto
qed (auto simp: format_instant_utc)

lemma canon_plain: "plain (canon_py v)"
  by (induction v) (auto simp: list_all_iff snds.simps)

lemma json_ok_sort: "json_ok (sort_keys v) = json_ok v"
  by (induction v) (auto simp: list_all_iff snds.simps)

definition canonical_text :: "(pystr \<times> canon) list \<Rightarrow> pystr" where
  "canonical_text d = jtext (sort_keys (canon_py (CMap d)))"

lemma canonical_json_text: "canon_ok (CMap d) \<Longrightarrow> canonical_json d = Inr (canonical_text d)"
proof -
  assume "canon_ok (CMap d)"
  then obtain w where w: "canonical_value (CMap d) = Inr w" "sort_keys w = sort_keys (canon_py (CMap d))"
    using canonical_value_ok by blast
  then obtain e where e: "w = PyDict e" by (cases w) auto
  have "json_ok w"
    using w(2) canon_plain [of "CMap d"] by (metis json_ok_sort plain_json_ok)
  then show ?thesis using w e by (simp add: canonical_json_def json_dumps_def canonical_text_def del: canonical_value.simps sort_keys.simps)
qed

text \<open>The text is ASCII, so its UTF-8 bytes determine it.\<close>

fun ascii_py :: "py \<Rightarrow> bool" where
  "ascii_py (PyStr s) = isascii s"
| "ascii_py (PyFloat r) = isascii r"
| "ascii_py (PyList xs) = list_all ascii_py xs"
| "ascii_py (PyDict d) = list_all (\<lambda>(k, v). isascii k \<and> ascii_py v) d"
| "ascii_py _ = True"

lemma isascii_append [simp]: "isascii (a @ b) \<longleftrightarrow> isascii a \<and> isascii b"
  by (simp add: isascii_def)

lemma isascii_Cons [simp]: "isascii (c # s) \<longleftrightarrow> c < 128 \<and> isascii s" "isascii []"
  by (simp_all add: isascii_def)

lemma jquote_ascii: "isascii s \<Longrightarrow> isascii (jquote s)"
proof -
  have h: "n < 16 \<Longrightarrow> hex_char n < 128" for n by (simp add: hex_char_def)
  have "isascii (jhex2 c)" if "c < 32" for c using h [of "c div 16"] h [of "c mod 16"] that by (simp add: jhex2_def)
  then have j: "c < 128 \<Longrightarrow> isascii (jchar c)" for c by (auto simp: jchar_def)
  assume "isascii s"
  then have "isascii (concat (map jchar s))" by (induction s) (auto simp: j)
  then show "isascii (jquote s)" by (simp add: jquote_def)
qed

lemma jitems_ascii: "e < 128 \<Longrightarrow> list_all isascii xs \<Longrightarrow> isascii (jitems e xs)"
  by (induction e xs rule: jitems.induct) auto

lemma jtext_ascii: "ascii_py v \<Longrightarrow> isascii (jtext v)"
proof (induction v)
  case (PyInt i)
  then show ?case using str_of_int_ascii by (simp add: isascii_def list_all_iff)
next
  case (PyList xs)
  then show ?case by (auto intro!: jitems_ascii simp: list_all_iff)
next
  case (PyDict d)
  have "isascii (jtext v)" if "(k, v) \<in> set d" for k v
    using PyDict.IH [of "(k, v)" v] PyDict.prems that by (auto simp: list_all_iff snds.simps)
  moreover have "isascii k" if "(k, v) \<in> set d" for k v using PyDict.prems that by (auto simp: list_all_iff)
  ultimately have "list_all isascii (map (\<lambda>(k, v). jquote k @ 58 # jtext v) d)"
    by (fastforce simp: list_all_iff jquote_ascii)
  then show ?case by (simp add: jitems_ascii)
qed (simp_all add: jquote_ascii, simp_all add: isascii_def u_def)

lemma ascii_sort_keys: "ascii_py v \<Longrightarrow> ascii_py (sort_keys v)"
  by (induction v) (auto simp: list_all_iff snds.simps)

lemma canon_ascii: "canon_ok v \<Longrightarrow> ascii_py (canon_py v)"
  using str_of_uuid_ascii render_instant_ascii
  by (induction v) (auto simp: list_all_iff snds.simps isascii_def)

lemma canonical_text_ascii: "canon_ok (CMap d) \<Longrightarrow> isascii (canonical_text d)"
  unfolding canonical_text_def by (intro jtext_ascii ascii_sort_keys canon_ascii)

section \<open>Valid rows\<close>

definition valid_challenge :: "challenge \<Rightarrow> bool" where
  "valid_challenge c \<longleftrightarrow>
     ch_id c \<noteq> 0 \<and> ch_igreja_id c \<noteq> 0 \<and> ch_pessoa_id c \<noteq> 0 \<and> ch_package_id c \<noteq> 0 \<and> ch_binding_id c \<noteq> 0
     \<and> ch_interaction_id c \<noteq> 0 \<and> require_package_version (ch_package_version c) = Inr (ch_package_version c)
     \<and> prefixed_hex64 [] (ch_content_digest c) \<and> prefixed_hex64 [] (ch_catalog_entry_digest c)
     \<and> prefixed_hex64 [] (ch_notice_text_digest c)
     \<and> utcoffset (ch_criado_em c) = Some 0 \<and> utcoffset (ch_expira_em c) = Some 0
     \<and> instant (ch_criado_em c) < instant (ch_expira_em c)
     \<and> instant (ch_expira_em c) - instant (ch_criado_em c) \<le> MAX_CHALLENGE_LIFETIME
     \<and> (case ch_encerrado_em c of None \<Rightarrow> True | Some e \<Rightarrow> utcoffset e = Some 0)
     \<and> challenge_end_ok c (ch_encerrado_em c)"

definition valid_evidence :: "evidence \<Rightarrow> bool" where
  "valid_evidence e \<longleftrightarrow>
     ev_id e \<noteq> 0 \<and> ev_igreja_id e \<noteq> 0 \<and> ev_desafio_id e \<noteq> 0
     \<and> prefixed_hex64 IDEMPOTENCY_KEY_PREFIX (ev_chave_idempotencia e) \<and> utcoffset (ev_registrado_em e) = Some 0
     \<and> prefixed_hex64 [] (ev_evidence_digest e)
     \<and> (case ev_tipo e of
          PRESENTATION \<Rightarrow> ev_apresentacao_id e = None \<and> ev_acao e = None
        | MANIFESTATION \<Rightarrow> (\<exists>p. ev_apresentacao_id e = Some p \<and> p \<noteq> 0) \<and> ev_acao e = Some REFUSE_INITIAL)"

definition valid_receipt :: "consent_receipt \<Rightarrow> bool" where
  "valid_receipt r \<longleftrightarrow>
     rc_id r \<noteq> 0 \<and> rc_igreja_id r \<noteq> 0 \<and> rc_evidencia_id r \<noteq> 0
     \<and> prefixed_hex64 IDEMPOTENCY_KEY_PREFIX (rc_chave_idempotencia r) \<and> utcoffset (rc_registrado_em r) = Some 0
     \<and> rc_acao r = REFUSE_INITIAL"

lemma require_uuid_iff: "require_uuid i = Inr j \<longleftrightarrow> j = i \<and> i \<noteq> 0"
  by (auto simp: require_uuid_def)

lemma require_optional_utc_iff:
  "require_optional_utc v = Inr w \<longleftrightarrow> w = v \<and> (case v of None \<Rightarrow> True | Some t \<Rightarrow> utcoffset t = Some 0)"
  by (auto simp: require_optional_utc_def require_utc_iff ebind_eq_Inr split: option.splits)

lemma require_optional_uuid_iff:
  "require_optional_uuid v = Inr w \<longleftrightarrow> w = v \<and> v \<noteq> Some 0"
  by (auto simp: require_optional_uuid_def require_uuid_iff ebind_eq_Inr split: option.splits)

lemma require_sha256_iff: "require_sha256 s = Inr t \<longleftrightarrow> t = s \<and> prefixed_hex64 [] s"
  by (auto simp: require_sha256_def)

lemma require_key_iff: "require_persisted_idempotency_key s = Inr t \<longleftrightarrow> t = s \<and> prefixed_hex64 IDEMPOTENCY_KEY_PREFIX s"
  by (auto simp: require_persisted_idempotency_key_def)

lemma require_version_iff: "(\<exists>t. require_package_version s = Inr t) \<longleftrightarrow> require_package_version s = Inr s"
  by (auto simp: require_package_version_def)

lemmas require_iffs = require_uuid_iff require_utc_iff require_optional_utc_iff require_optional_uuid_iff
  require_sha256_iff require_key_iff

lemma challenge_post_init_iff: "challenge_post_init c = Inr d \<longleftrightarrow> d = c \<and> valid_challenge c"
  using require_version_iff [of "ch_package_version c"]
  by (auto simp: challenge_post_init_def valid_challenge_def result_simps require_iffs)

lemma evidence_post_init_iff: "evidence_post_init e = Inr d \<longleftrightarrow> d = e \<and> valid_evidence e"
  by (cases "ev_tipo e"; cases "ev_apresentacao_id e")
    (auto simp: evidence_post_init_def valid_evidence_def result_simps require_iffs)

lemma receipt_post_init_iff: "receipt_post_init r = Inr d \<longleftrightarrow> d = r \<and> valid_receipt r"
  by (auto simp: receipt_post_init_def valid_receipt_def result_simps require_iffs)

text \<open>The digest of valid rows.\<close>

definition evidence_text :: "evidence \<Rightarrow> challenge \<Rightarrow> pystr" where
  "evidence_text e c = canonical_text (evidence_envelope e c)"

definition evidence_digest :: "evidence \<Rightarrow> challenge \<Rightarrow> pystr" where
  "evidence_digest e c = hexdigest (sha256 (ascii_bytes (evidence_text e c)))"

lemma u_ascii: "list_all (\<lambda>c. of_char c < (128::nat)) s \<Longrightarrow> isascii (u s)"
  by (simp add: isascii_def u_def list_all_iff)

lemma prefixed_hex64_isascii: "isascii p \<Longrightarrow> prefixed_hex64 p s \<Longrightarrow> isascii s"
  using prefixed_hex64_ascii [of p s] by (simp add: isascii_def list_all_iff)

lemma enum_values_ascii: "isascii (purpose_value p)" "isascii (channel_value n)" "isascii (language_value l)"
  "isascii (evidence_type_value t)" "isascii (action_value a)" "isascii IDEMPOTENCY_KEY_PREFIX"
proof -
  show "isascii (purpose_value p)" by (cases p) (simp_all add: u_ascii)
  show "isascii (channel_value n)" by (cases n) (simp_all add: u_ascii)
  show "isascii (language_value l)" by (cases l) (simp_all add: u_ascii)
  show "isascii (evidence_type_value t)" by (cases t) (simp_all add: u_ascii)
  show "isascii (action_value a)" by (cases a) (simp_all add: u_ascii)
  show "isascii IDEMPOTENCY_KEY_PREFIX" by (simp add: IDEMPOTENCY_KEY_PREFIX_def u_ascii)
qed

lemma package_version_ascii: "require_package_version s = Inr s \<Longrightarrow> isascii s"
  by (auto simp: require_package_version_def split: if_splits)

lemma canon_option_ok: "canon_ok (canon_option f v) \<longleftrightarrow> (case v of None \<Rightarrow> True | Some x \<Rightarrow> canon_ok (f x))"
  by (simp add: canon_option_def split: option.splits)

lemma evidence_envelope_ok:
  assumes "valid_evidence e" "valid_challenge c"
  shows "canon_ok (CMap (evidence_envelope e c))"
  using assms enum_values_ascii prefixed_hex64_isascii [of "[]"] prefixed_hex64_isascii [OF enum_values_ascii(6)]
  by (auto simp: evidence_envelope_def evidence_digest_payload_def challenge_digest_payload_def u_ascii
      valid_evidence_def valid_challenge_def canon_option_ok package_version_ascii split: option.splits)

lemma compute_evidence_digest_ok:
  assumes "valid_evidence e" "valid_challenge c" "ch_id c = ev_desafio_id e" "ch_igreja_id c = ev_igreja_id e"
  shows "compute_evidence_digest e c = Inr (evidence_digest e c)"
proof -
  note ok = evidence_envelope_ok [OF assms(1,2)]
  have "isascii (evidence_text e c)" unfolding evidence_text_def by (rule canonical_text_ascii [OF ok])
  then have "utf8_encode (evidence_text e c) = Some (ascii_bytes (evidence_text e c))"
    unfolding isascii_def ascii_bytes_def by (intro utf8_encode_ascii) (simp add: list_all_iff)
  then show ?thesis
    using assms(3,4) canonical_json_text [OF ok]
    by (simp add: compute_evidence_digest_def evidence_digest_def evidence_text_def)
qed

lemma compute_evidence_digest_mismatch:
  "ch_id c \<noteq> ev_desafio_id e \<or> ch_igreja_id c \<noteq> ev_igreja_id e \<Longrightarrow> compute_evidence_digest e c = Inl Rejected"
  by (simp add: compute_evidence_digest_def)

lemma evidence_digest_hex [simp]: "prefixed_hex64 [] (evidence_digest e c)"
  unfolding evidence_digest_def using prefixed_hex64_digest [of "[]"] by simp

lemma evidence_matches_iff:
  assumes "valid_evidence e" "valid_challenge c" "ch_id c = ev_desafio_id e" "ch_igreja_id c = ev_igreja_id e"
  shows "evidence_matches_digest e c = Inr (ev_evidence_digest e = evidence_digest e c)"
  by (simp add: evidence_matches_digest_def compute_evidence_digest_ok [OF assms])

text \<open>The stored digest and the challenge state are not part of the digested text.\<close>

lemma evidence_digest_frame [simp]:
  "evidence_digest (e\<lparr>ev_evidence_digest := d\<rparr>) c = evidence_digest e c"
  "evidence_digest e (c\<lparr>ch_estado := s, ch_encerrado_em := t\<rparr>) = evidence_digest e c"
  by (simp_all add: evidence_digest_def evidence_text_def evidence_envelope_def evidence_digest_payload_def
      challenge_digest_payload_def)

section \<open>What a digest binds\<close>

lemma canonical_text_fields:
  assumes "canon_ok (CMap d)" "canon_ok (CMap e)" "canonical_text d = canonical_text e" "distinct (map fst e)"
  shows "same_json (py_get (map (\<lambda>(k, v). (k, canon_py v)) d) k) (py_get (map (\<lambda>(k, v). (k, canon_py v)) e) k)"
proof -
  have "jtext (sort_keys (canon_py (CMap d))) @ [] = jtext (sort_keys (canon_py (CMap e))) @ []"
    using assms(3) by (simp add: canonical_text_def)
  then have "sort_keys (canon_py (CMap d)) = sort_keys (canon_py (CMap e))"
    using jtext_inj [of "sort_keys (canon_py (CMap d))" "sort_keys (canon_py (CMap e))" "[]" "[]"]
    by (simp add: canon_plain plain_sort_keys delim_def del: canon_py.simps sort_keys.simps)
  then have "same_json (PyDict (map (\<lambda>(k, v). (k, canon_py v)) d)) (PyDict (map (\<lambda>(k, v). (k, canon_py v)) e))"
    by (simp add: same_json_def)
  moreover have "distinct (map fst (map (\<lambda>(k, v). (k, canon_py v)) e))"
    using assms(4) by (simp add: comp_def case_prod_unfold)
  ultimately show ?thesis by (elim same_json_dict) auto
qed

text \<open>The digested fields of a row and of its challenge.\<close>

definition evidence_fields where
  "evidence_fields e = (ev_id e, ev_igreja_id e, ev_desafio_id e, ev_tipo e, ev_chave_idempotencia e,
     render_instant (ev_registrado_em e), ev_apresentacao_id e, ev_acao e)"

definition challenge_fields where
  "challenge_fields c = (ch_id c, ch_igreja_id c, ch_pessoa_id c, ch_finalidade c, ch_package_id c, ch_package_version c,
     ch_content_digest c, ch_catalog_entry_digest c, ch_notice_text_digest c, ch_binding_id c, ch_interaction_id c,
     ch_canal c, ch_idioma c, render_instant (ch_criado_em c), render_instant (ch_expira_em c))"

lemma enum_value_inj [simp]: "purpose_value p = purpose_value q \<longleftrightarrow> p = q" "channel_value m = channel_value n \<longleftrightarrow> m = n"
  "evidence_type_value s = evidence_type_value t \<longleftrightarrow> s = t" "action_value a = action_value b \<longleftrightarrow> a = b"
proof -
  show "purpose_value p = purpose_value q \<longleftrightarrow> p = q" by (cases p; cases q) simp_all
  show "channel_value m = channel_value n \<longleftrightarrow> m = n" by (cases m; cases n) simp_all
  show "evidence_type_value s = evidence_type_value t \<longleftrightarrow> s = t" by (cases s; cases t) simp_all
  show "action_value a = action_value b \<longleftrightarrow> a = b" by (cases a; cases b) simp_all
qed

lemma canon_py_option: "canon_py (canon_option f v) = (case v of None \<Rightarrow> PyNone | Some x \<Rightarrow> canon_py (f x))"
  by (simp add: canon_option_def split: option.splits)

lemma challenge_text_inj:
  assumes "same_json (canon_py (CMap (challenge_digest_payload c))) (canon_py (CMap (challenge_digest_payload d)))"
  shows "challenge_fields c = challenge_fields d"
proof -
  let ?p = "\<lambda>c. map (\<lambda>(k, v). (k, canon_py v)) (challenge_digest_payload c)"
  have "distinct (map fst (?p d))" by (simp add: challenge_digest_payload_def)
  then have "same_json (py_get (?p c) k) (py_get (?p d) k)" for k
    using assms by (auto elim: same_json_dict)
  from this [of "u ''id''"] this [of "u ''igreja_id''"] this [of "u ''pessoa_id''"] this [of "u ''finalidade''"]
    this [of "u ''package_id''"] this [of "u ''package_version''"] this [of "u ''content_digest''"]
    this [of "u ''catalog_entry_digest''"] this [of "u ''notice_text_digest''"] this [of "u ''binding_id''"]
    this [of "u ''interaction_id''"] this [of "u ''canal''"] this [of "u ''idioma''"] this [of "u ''criado_em''"]
    this [of "u ''expira_em''"]
  show ?thesis
    by (cases "ch_idioma c"; cases "ch_idioma d") (simp add: challenge_fields_def py_get_Cons challenge_digest_payload_def str_of_uuid_inj)
qed

lemma evidence_text_inj:
  assumes "valid_evidence e" "valid_challenge c" "valid_evidence f" "valid_challenge d" "evidence_text e c = evidence_text f d"
  shows "evidence_fields e = evidence_fields f \<and> challenge_fields c = challenge_fields d"
proof -
  let ?p = "\<lambda>e c. map (\<lambda>(k, v). (k, canon_py v)) (evidence_envelope e c)"
  have "distinct (map fst (evidence_envelope f d))" by (simp add: evidence_envelope_def evidence_digest_payload_def)
  then have k: "same_json (py_get (?p e c) k) (py_get (?p f d) k)" for k
    using assms by (intro canonical_text_fields evidence_envelope_ok) (auto simp: evidence_text_def)
  have "same_json (canon_py (CMap (challenge_digest_payload c))) (canon_py (CMap (challenge_digest_payload d)))"
    using k [of "u ''challenge''"]
    by (simp add: evidence_envelope_def evidence_digest_payload_def py_get_Cons py_get_Nil del: canon_py.simps(8))
  moreover have "evidence_fields e = evidence_fields f"
    using k [of "u ''id''"] k [of "u ''igreja_id''"] k [of "u ''desafio_id''"] k [of "u ''tipo''"]
      k [of "u ''chave_idempotencia''"] k [of "u ''registrado_em''"] k [of "u ''apresentacao_id''"] k [of "u ''acao''"]
    by (simp add: evidence_fields_def evidence_envelope_def evidence_digest_payload_def py_get_Cons str_of_uuid_inj
        canon_py_option split: option.splits)
  ultimately show ?thesis using challenge_text_inj by blast
qed

definition well_timed :: "challenge \<Rightarrow> bool" where
  "well_timed c \<longleftrightarrow> valid_datetime (ch_criado_em c) \<and> valid_datetime (ch_expira_em c)"

lemma evidence_text_cong:
  assumes "challenge_fields c = challenge_fields d"
  shows "evidence_text e c = evidence_text e d"
proof -
  have "canon_py (CMap (challenge_digest_payload c)) = canon_py (CMap (challenge_digest_payload d))"
    using assms by (simp add: challenge_digest_payload_def challenge_fields_def)
  then have "canon_py (CMap (evidence_envelope e c)) = canon_py (CMap (evidence_envelope e d))"
    by (simp add: evidence_envelope_def evidence_digest_payload_def)
  then show ?thesis by (simp only: evidence_text_def canonical_text_def)
qed

lemma compare_challenges_fields:
  assumes "valid_challenge c" "valid_challenge d" "well_timed c" "well_timed d"
  shows "compare_challenges c d \<longleftrightarrow> challenge_fields c = challenge_fields d"
  using assms render_instant_iff [of "ch_criado_em c" "ch_criado_em d"] render_instant_iff [of "ch_expira_em c" "ch_expira_em d"]
  by (simp add: compare_challenges_def challenge_fields_def valid_challenge_def well_timed_def)

lemma compare_challenges_digest:
  assumes "valid_challenge c" "valid_challenge d" "well_timed c" "well_timed d" "compare_challenges c d"
  shows "evidence_digest e c = evidence_digest e d"
  using evidence_text_cong [of c d e] compare_challenges_fields [OF assms(1-4)] assms(5) by (simp only: evidence_digest_def)

lemma compare_challenges_equiv:
  "compare_challenges c c" "compare_challenges c d \<Longrightarrow> compare_challenges d c"
  "compare_challenges c d \<Longrightarrow> compare_challenges d e \<Longrightarrow> compare_challenges c e"
  by (simp_all add: compare_challenges_def)

lemma compare_challenges_state [simp]:
  "compare_challenges (c\<lparr>ch_estado := s, ch_encerrado_em := t\<rparr>) d = compare_challenges c d"
  "compare_challenges d (c\<lparr>ch_estado := s, ch_encerrado_em := t\<rparr>) = compare_challenges d c"
  by (simp_all add: compare_challenges_def)

definition provisional_evidence ::
  "uuid \<Rightarrow> uuid \<Rightarrow> uuid \<Rightarrow> evidence_type \<Rightarrow> pystr \<Rightarrow> datetime \<Rightarrow> uuid option \<Rightarrow> consent_action option \<Rightarrow> evidence" where
  "provisional_evidence i g d tipo k t p a =
     \<lparr>ev_id = i, ev_igreja_id = g, ev_desafio_id = d, ev_tipo = tipo, ev_chave_idempotencia = k, ev_registrado_em = t,
      ev_evidence_digest = replicate 64 48, ev_apresentacao_id = p, ev_acao = a\<rparr>"

definition sealed_evidence :: "evidence \<Rightarrow> challenge \<Rightarrow> evidence" where
  "sealed_evidence q c = q\<lparr>ev_evidence_digest := evidence_digest q c\<rparr>"

lemma sealed_simps [simp]:
  "ev_id (sealed_evidence q c) = ev_id q" "ev_igreja_id (sealed_evidence q c) = ev_igreja_id q"
  "ev_desafio_id (sealed_evidence q c) = ev_desafio_id q" "ev_tipo (sealed_evidence q c) = ev_tipo q"
  "ev_chave_idempotencia (sealed_evidence q c) = ev_chave_idempotencia q"
  "ev_registrado_em (sealed_evidence q c) = ev_registrado_em q"
  "ev_apresentacao_id (sealed_evidence q c) = ev_apresentacao_id q" "ev_acao (sealed_evidence q c) = ev_acao q"
  "ev_evidence_digest (sealed_evidence q c) = evidence_digest q c"
  "evidence_digest (sealed_evidence q c) d = evidence_digest q d"
  by (simp_all add: sealed_evidence_def)

lemma provisional_simps [simp]:
  "ev_id (provisional_evidence i g d tipo k t p a) = i" "ev_igreja_id (provisional_evidence i g d tipo k t p a) = g"
  "ev_desafio_id (provisional_evidence i g d tipo k t p a) = d" "ev_tipo (provisional_evidence i g d tipo k t p a) = tipo"
  "ev_chave_idempotencia (provisional_evidence i g d tipo k t p a) = k"
  "ev_registrado_em (provisional_evidence i g d tipo k t p a) = t"
  "ev_apresentacao_id (provisional_evidence i g d tipo k t p a) = p" "ev_acao (provisional_evidence i g d tipo k t p a) = a"
  by (simp_all add: provisional_evidence_def)

lemma valid_sealed: "valid_evidence (sealed_evidence (provisional_evidence i g d tipo k t p a) c) \<longleftrightarrow>
    valid_evidence (provisional_evidence i g d tipo k t p a)"
proof -
  have "prefixed_hex64 [] (replicate 64 48)" by (simp add: prefixed_hex64_def is_hex_def)
  then show ?thesis by (cases tipo) (simp_all add: valid_evidence_def provisional_evidence_def)
qed

lemma build_evidence_iff:
  assumes "valid_challenge c"
  shows "build_evidence secret i g d tipo k c t p a = Inr e \<longleftrightarrow>
    was_server_minted_in_this_process secret k \<and> ch_id c = d \<and> ch_igreja_id c = g \<and> valid_evidence e
    \<and> e = sealed_evidence (provisional_evidence i g d tipo (key_value k) t p a) c"
proof -
  define q where "q = provisional_evidence i g d tipo (key_value k) t p a"
  have v: "valid_evidence (sealed_evidence q c) \<longleftrightarrow> valid_evidence q" unfolding q_def by (rule valid_sealed)
  have b: "build_evidence secret i g d tipo k c t p a =
      (if \<not> was_server_minted_in_this_process secret k then Inl Rejected
       else if ch_id c \<noteq> d \<or> ch_igreja_id c \<noteq> g then Inl Rejected
       else ebind (evidence_post_init q) (\<lambda>q. ebind (compute_evidence_digest q c) (\<lambda>h.
         evidence_post_init (q\<lparr>ev_evidence_digest := h\<rparr>))))"
    by (simp add: build_evidence_def q_def provisional_evidence_def)
  show ?thesis
  proof (cases "ch_id c = d \<and> ch_igreja_id c = g \<and> valid_evidence q")
    case True
    then have "compute_evidence_digest q c = Inr (evidence_digest q c)"
      using assms by (intro compute_evidence_digest_ok) (simp_all add: q_def)
    then show ?thesis
      using True v by (auto simp: b q_def [symmetric] sealed_evidence_def result_simps evidence_post_init_iff)
  next
    case False
    then show ?thesis using v by (auto simp: b q_def [symmetric] result_simps evidence_post_init_iff)
  qed
qed

section \<open>Sample rows\<close>

definition sample_time :: "nat \<Rightarrow> datetime" where
  "sample_time m = \<lparr>year = 2026, month = 1, day = 15, hour = 10, minute = m, second = 0, microsecond = 0, tzinfo = TimezoneUtc\<rparr>"

definition sample_challenge :: challenge where
  "sample_challenge = \<lparr>ch_id = 1, ch_igreja_id = 2, ch_pessoa_id = 3, ch_finalidade = CUIDADO_PASTORAL, ch_package_id = 4,
     ch_package_version = u ''v1'', ch_content_digest = replicate 64 48, ch_catalog_entry_digest = replicate 64 48,
     ch_notice_text_digest = replicate 64 48, ch_binding_id = 5, ch_interaction_id = 6, ch_canal = WHATSAPP,
     ch_idioma = PT_BR, ch_criado_em = sample_time 0, ch_expira_em = sample_time 20, ch_estado = OPEN,
     ch_encerrado_em = None\<rparr>"

definition sample_secret :: bytes where "sample_secret = replicate 32 7"

definition sample_opaque_key :: opaque_key where
  "sample_opaque_key =
     \<lparr>key_value = IDEMPOTENCY_KEY_PREFIX @ replicate 64 49,
      mint_proof = hmac_sha256 sample_secret (ascii_bytes (IDEMPOTENCY_KEY_PREFIX @ replicate 64 49))\<rparr>"

definition sample_refusal :: consent_request where
  "sample_refusal = \<lparr>rq_desafio = sample_challenge, rq_chave_idempotencia = sample_opaque_key, rq_apresentada_em = sample_time 5,
     rq_manifestada_em = Some (sample_time 7), rq_acao = Some REFUSE_INITIAL\<rparr>"

definition sample_authority :: authority where
  "sample_authority = \<lparr>au_igreja_id = 2, au_pessoa_id = 3, au_actor_id = 3, au_finalidade = CUIDADO_PASTORAL, au_package_id = 4,
     au_package_version = u ''v1'', au_content_digest = replicate 64 48, au_catalog_entry_digest = replicate 64 48,
     au_notice_text_digest = replicate 64 48, au_binding_id = 5, au_interaction_id = 6, au_canal = WHATSAPP, au_idioma = PT_BR,
     au_subject = \<lparr>sj_kind = ADULT_SELF, sj_age_status = ADULT, sj_authentication_state = VALID, sj_session_state = ACTIVE,
       sj_interaction_integrity = ORIGINAL_DIRECT, sj_choice_mode = EXPLICIT_CONTROL\<rparr>,
     au_prior_ledger_state = ABSENT, au_prior_event_id = None, au_action = Some REFUSE_INITIAL,
     au_presented_at = Some (sample_time 5), au_manifested_at = Some (sample_time 7)\<rparr>"

lemma sample_time_simps [simp]: "utcoffset (sample_time m) = Some 0" "tzinfo (sample_time m) = TimezoneUtc" "year (sample_time m) = 2026"
  "m < 60 \<Longrightarrow> valid_datetime (sample_time m)" "instant (sample_time m) = 63904154400000000 + int m * 60000000"
proof -
  have "days_before_month 2026 1 = 0" by simp
  then show "instant (sample_time m) = 63904154400000000 + int m * 60000000"
    by (simp add: sample_time_def utcoffset_def instant_def toordinal_def day_micros_def days_before_year_def)
qed (simp_all add: sample_time_def utcoffset_def valid_datetime_def valid_date_def days_in_month_def)

lemma sample_hex [simp]: "prefixed_hex64 [] (replicate 64 48)" "prefixed_hex64 [] (replicate 64 49)"
  "prefixed_hex64 p (p @ replicate 64 49)"
  by (simp_all add: prefixed_hex64_def is_hex_def)

lemma sample_version [simp]: "require_package_version (u ''v1'') = Inr (u ''v1'')"
  by (simp add: require_package_version_def isascii_def u_def MAX_PACKAGE_VERSION_LENGTH_def is_alnum_ascii_def is_version_char_def)

lemma sample_challenge_valid: "valid_challenge sample_challenge" "well_timed sample_challenge"
  by (simp_all add: valid_challenge_def well_timed_def sample_challenge_def MAX_CHALLENGE_LIFETIME_def challenge_end_ok_def)

lemma sample_key_minted: "was_server_minted_in_this_process sample_secret sample_opaque_key"
  by (simp add: was_server_minted_in_this_process_def sample_opaque_key_def)

lemma sample_refusal_valid: "request_post_init sample_secret sample_refusal = Inr sample_refusal"
  using sample_key_minted
  by (simp add: request_post_init_def sample_refusal_def sample_challenge_def require_utc_iff require_optional_utc_def
      request_action_ok_def require_utc_def)

section \<open>Properties\<close>

text \<open>
  The evidence digest binds every field of the row and every immutable field of its
  challenge: two rows with the same digest have the same identifiers, type, key, action and
  instants, under challenges with the same immutable content, unless the two canonical texts
  collide under SHA-256.
\<close>

theorem evidence_digest_binds:
  assumes "valid_evidence e" "valid_challenge c" "valid_evidence f" "valid_challenge d"
    and "compute_evidence_digest e c = Inr h" "compute_evidence_digest f d = Inr h"
  shows "evidence_fields e = evidence_fields f \<and> challenge_fields c = challenge_fields d
    \<or> (evidence_text e c \<noteq> evidence_text f d
       \<and> sha256 (ascii_bytes (evidence_text e c)) = sha256 (ascii_bytes (evidence_text f d)))"
proof -
  have "ch_id c = ev_desafio_id e \<and> ch_igreja_id c = ev_igreja_id e" "ch_id d = ev_desafio_id f \<and> ch_igreja_id d = ev_igreja_id f"
    using assms(5,6) compute_evidence_digest_mismatch by fastforce+
  then have "evidence_digest e c = h" "evidence_digest f d = h"
    using assms compute_evidence_digest_ok [of e c] compute_evidence_digest_ok [of f d] by auto
  then have "sha256 (ascii_bytes (evidence_text e c)) = sha256 (ascii_bytes (evidence_text f d))"
    unfolding evidence_digest_def by (intro hexdigest_inj) auto
  then show ?thesis using evidence_text_inj [OF assms(1-4)] by blast
qed

definition sample_evidence :: evidence where
  "sample_evidence = \<lparr>ev_id = 7, ev_igreja_id = 2, ev_desafio_id = 1, ev_tipo = PRESENTATION,
     ev_chave_idempotencia = IDEMPOTENCY_KEY_PREFIX @ replicate 64 49, ev_registrado_em = sample_time 5,
     ev_evidence_digest = replicate 64 48, ev_apresentacao_id = None, ev_acao = None\<rparr>"

lemma sample_evidence_valid: "valid_evidence sample_evidence"
  by (simp add: sample_evidence_def valid_evidence_def)

lemma sample_evidence_digest: "compute_evidence_digest sample_evidence sample_challenge = Inr (evidence_digest sample_evidence sample_challenge)"
  by (rule compute_evidence_digest_ok [OF sample_evidence_valid sample_challenge_valid(1)])
    (simp_all add: sample_evidence_def sample_challenge_def)

theorem evidence_digest_binds_witness:
  "\<exists>h. compute_evidence_digest sample_evidence sample_challenge = Inr h
     \<and> compute_evidence_digest (sample_evidence\<lparr>ev_evidence_digest := replicate 64 49\<rparr>) sample_challenge = Inr h
     \<and> evidence_fields sample_evidence = evidence_fields (sample_evidence\<lparr>ev_evidence_digest := replicate 64 49\<rparr>)"
proof -
  let ?e = "sample_evidence\<lparr>ev_evidence_digest := replicate 64 49\<rparr>"
  have v: "valid_evidence ?e" by (simp add: sample_evidence_def valid_evidence_def)
  have d: "compute_evidence_digest ?e sample_challenge = Inr (evidence_digest sample_evidence sample_challenge)"
  proof -
    have "ch_id sample_challenge = ev_desafio_id ?e" "ch_igreja_id sample_challenge = ev_igreja_id ?e"
      by (simp_all add: sample_evidence_def sample_challenge_def)
    from compute_evidence_digest_ok [OF v sample_challenge_valid(1) this] show ?thesis by simp
  qed
  have "evidence_text sample_evidence sample_challenge = evidence_text ?e sample_challenge"
    by (simp add: evidence_text_def evidence_envelope_def evidence_digest_payload_def)
  with evidence_digest_binds [OF sample_evidence_valid sample_challenge_valid(1) v sample_challenge_valid(1) sample_evidence_digest d]
  show ?thesis using d sample_evidence_digest by blast
qed

text \<open>
  What \<open>build_evidence\<close> returns verifies: only a key minted by this process gets a row, the
  row passes its own construction checks and carries the fields asked for, and its digest
  matches not only the challenge it was built under but every later state of that challenge
  whose immutable content compares equal.
\<close>

theorem built_evidence_verifies:
  assumes "valid_challenge c" "well_timed c" "build_evidence secret i g d tipo k c t p a = Inr e"
  shows "was_server_minted_in_this_process secret k \<and> valid_evidence e
    \<and> evidence_matches_digest e c = Inr True
    \<and> (\<forall>c'. valid_challenge c' \<and> well_timed c' \<and> compare_challenges c' c \<longrightarrow> evidence_matches_digest e c' = Inr True)
    \<and> ev_id e = i \<and> ev_tipo e = tipo \<and> ev_chave_idempotencia e = key_value k \<and> ev_registrado_em e = t
    \<and> ev_apresentacao_id e = p \<and> ev_acao e = a"
proof -
  have b: "was_server_minted_in_this_process secret k" "ch_id c = d" "ch_igreja_id c = g" "valid_evidence e"
    "e = sealed_evidence (provisional_evidence i g d tipo (key_value k) t p a) c"
    using assms(3) unfolding build_evidence_iff [OF assms(1)] by blast+
  then have f: "ev_id e = i" "ev_igreja_id e = g" "ev_desafio_id e = d" "ev_tipo e = tipo" "ev_chave_idempotencia e = key_value k"
    "ev_registrado_em e = t" "ev_apresentacao_id e = p" "ev_acao e = a" "ev_evidence_digest e = evidence_digest e c"
    by simp_all
  have "evidence_matches_digest e c' = Inr True"
    if c': "valid_challenge c'" "well_timed c'" "compare_challenges c' c" for c'
    using c' b f compare_challenges_digest [OF c'(1) assms(1) c'(2) assms(2) c'(3), of e]
    by (subst evidence_matches_iff [OF b(4) c'(1)]) (auto simp: compare_challenges_def)
  then show ?thesis using b(1,4) f assms(1,2) compare_challenges_equiv(1) by blast
qed

theorem built_evidence_verifies_witness:
  "\<exists>e. build_evidence sample_secret 7 2 1 PRESENTATION sample_opaque_key sample_challenge (sample_time 5) None None = Inr e
     \<and> evidence_matches_digest e sample_challenge = Inr True"
proof -
  define e where "e = sealed_evidence (provisional_evidence 7 2 1 PRESENTATION (key_value sample_opaque_key) (sample_time 5) None None) sample_challenge"
  have "valid_evidence e" unfolding e_def valid_sealed
    by (simp add: provisional_evidence_def valid_evidence_def sample_opaque_key_def)
  moreover have "ch_id sample_challenge = 1 \<and> ch_igreja_id sample_challenge = 2" by (simp add: sample_challenge_def)
  ultimately have "build_evidence sample_secret 7 2 1 PRESENTATION sample_opaque_key sample_challenge (sample_time 5) None None = Inr e"
    unfolding build_evidence_iff [OF sample_challenge_valid(1)] using sample_key_minted by (simp add: e_def)
  with built_evidence_verifies [OF sample_challenge_valid this] show ?thesis by blast
qed

text \<open>
  A challenge leaves \<open>OPEN\<close> once: a transition that succeeds started from \<open>OPEN\<close>, ends in a
  terminal state with a recorded end that is not before the creation (nor, when expired, before
  the expiry), keeps the immutable content and the construction checks, and admits no further
  transition.
\<close>

theorem challenge_transition_final:
  assumes "with_state c st t = Inr d"
  shows "ch_estado c = OPEN \<and> ch_estado d = st \<and> st \<noteq> OPEN \<and> ch_encerrado_em d = Some t \<and> valid_challenge d
    \<and> compare_challenges d c \<and> instant (ch_criado_em c) \<le> instant t
    \<and> (st = challenge_state.EXPIRED \<longrightarrow> instant (ch_expira_em c) \<le> instant t)
    \<and> (\<forall>st' t'. with_state d st' t' = Inl Rejected)"
proof -
  have d: "ch_estado c = OPEN" "st \<noteq> OPEN" "d = c\<lparr>ch_estado := st, ch_encerrado_em := Some t\<rparr>" "valid_challenge d"
    "st = challenge_state.EXPIRED \<longrightarrow> instant (ch_expira_em c) \<le> instant t"
    using assms by (auto simp: with_state_def result_simps require_utc_iff challenge_post_init_iff)
  then have "instant (ch_criado_em c) \<le> instant t" by (auto simp: valid_challenge_def challenge_end_ok_def)
  with d show ?thesis by (auto simp: with_state_def compare_challenges_equiv)
qed

theorem challenge_transition_final_witness:
  "\<exists>d. with_state sample_challenge CONSUMED (sample_time 7) = Inr d \<and> ch_estado d = CONSUMED
     \<and> with_state d CANCELLED (sample_time 9) = Inl Rejected"
proof -
  have "valid_challenge (sample_challenge\<lparr>ch_estado := CONSUMED, ch_encerrado_em := Some (sample_time 7)\<rparr>)"
    by (simp add: valid_challenge_def sample_challenge_def MAX_CHALLENGE_LIFETIME_def challenge_end_ok_def)
  then have "with_state sample_challenge CONSUMED (sample_time 7) =
      Inr (sample_challenge\<lparr>ch_estado := CONSUMED, ch_encerrado_em := Some (sample_time 7)\<rparr>)"
    by (simp add: with_state_def challenge_post_init_iff require_utc_def) (simp add: sample_challenge_def)
  from challenge_transition_final [OF this] this show ?thesis by auto
qed

text \<open>What an accepted observation proves of the request, declaratively.\<close>

definition authority_covers :: "consent_request \<Rightarrow> authority \<Rightarrow> bool" where
  "authority_covers r a \<longleftrightarrow>
     authority_mirrors a (rq_desafio r) \<and> au_actor_id a = au_pessoa_id a \<and> adult_self_proven (au_subject a)
     \<and> au_action a = rq_acao r
     \<and> sj_choice_mode (au_subject a) = (if rq_acao r = None then PRESENTATION_ONLY else EXPLICIT_CONTROL)
     \<and> (rq_acao r = Some REFUSE_INITIAL \<longrightarrow> au_prior_ledger_state a = ABSENT)
     \<and> same_instant (au_presented_at a) (Some (rq_apresentada_em r))
     \<and> same_instant (au_manifested_at a) (rq_manifestada_em r)"

text \<open>
  C37. For a request that passed its construction checks, the service accepts an observation of
  the server-owned source exactly when it mirrors the challenge, shows the person acting for
  themself as an authenticated adult, observes the requested action with the matching kind of
  control (and, for a refusal, an absent ledger) and the same instants; the validity window is
  then implied, since the remaining range checks can no longer fail.
\<close>

theorem source_binding_exact:
  assumes "request_post_init secret r = Inr r"
  shows "(validate_source_binding r a = Inr () \<longleftrightarrow> authority_covers r a)
    \<and> (authority_covers r a \<longrightarrow>
        (\<exists>p. au_presented_at a = Some p \<and> instant (ch_criado_em (rq_desafio r)) \<le> instant p
           \<and> instant p < instant (ch_expira_em (rq_desafio r))
           \<and> (\<forall>m. au_manifested_at a = Some m \<longrightarrow> instant p \<le> instant m \<and> instant m < instant (ch_expira_em (rq_desafio r)))))"
proof -
  let ?c = "rq_desafio r"
  have w: "instant (ch_criado_em ?c) \<le> instant (rq_apresentada_em r)" "instant (rq_apresentada_em r) < instant (ch_expira_em ?c)"
    "rq_manifestada_em r = Some m \<Longrightarrow> instant (rq_apresentada_em r) \<le> instant m \<and> instant m < instant (ch_expira_em ?c)" for m
    using assms by (auto simp: request_post_init_def result_simps require_iffs split: option.splits if_splits)
  have win: "\<exists>p. au_presented_at a = Some p \<and> instant (ch_criado_em ?c) \<le> instant p \<and> instant p < instant (ch_expira_em ?c)
         \<and> (\<forall>m. au_manifested_at a = Some m \<longrightarrow> instant p \<le> instant m \<and> instant m < instant (ch_expira_em ?c))"
    if "authority_covers r a"
  proof -
    obtain p where p: "au_presented_at a = Some p" "instant p = instant (rq_apresentada_em r)"
      using \<open>authority_covers r a\<close> by (auto simp: authority_covers_def same_instant_def)
    moreover have "instant p \<le> instant m \<and> instant m < instant (ch_expira_em ?c)" if m: "au_manifested_at a = Some m" for m
    proof -
      obtain n where "rq_manifestada_em r = Some n" "instant m = instant n"
        using \<open>authority_covers r a\<close> m by (cases "rq_manifestada_em r") (auto simp: authority_covers_def same_instant_def)
      then show ?thesis using w(3) p by simp
    qed
    ultimately show ?thesis using w by auto
  qed
  have chron: "validate_chronology r a = Inr () \<longleftrightarrow>
      same_instant (au_presented_at a) (Some (rq_apresentada_em r)) \<and> same_instant (au_manifested_at a) (rq_manifestada_em r)"
    using w by (cases "rq_manifestada_em r") (auto simp: validate_chronology_def same_instant_def Let_def split: option.splits)
  have choice: "validate_choice r a = Inr () \<longleftrightarrow>
      au_action a = rq_acao r
      \<and> sj_choice_mode (au_subject a) = (if rq_acao r = None then PRESENTATION_ONLY else EXPLICIT_CONTROL)
      \<and> (rq_acao r = Some REFUSE_INITIAL \<longrightarrow> au_prior_ledger_state a = ABSENT)"
    by (auto simp: validate_choice_def split: option.splits)
  have "validate_source_binding r a = Inr () \<longleftrightarrow> authority_covers r a"
    unfolding authority_covers_def
    by (auto simp: validate_source_binding_def Let_def result_simps chron choice authority_mirrors_def)
  with win show ?thesis by blast
qed

theorem source_binding_exact_witness:
  "validate_source_binding sample_refusal sample_authority = Inr ()
   \<and> validate_source_binding sample_refusal (sample_authority\<lparr>au_prior_ledger_state := GRANTED\<rparr>) \<noteq> Inr ()"
  using source_binding_exact [OF sample_refusal_valid, of sample_authority]
    source_binding_exact [OF sample_refusal_valid, of "sample_authority\<lparr>au_prior_ledger_state := GRANTED\<rparr>"]
  by (simp add: authority_covers_def sample_refusal_def sample_authority_def sample_challenge_def authority_mirrors_def
      adult_self_proven_def same_instant_def)

end
