(* ===== verification/ConsentStore.thy ===== *)
theory ConsentStore
  imports ConsentEvidence
begin

text \<open>
  The unit of work of the evidence store, \<open>services/consent_evidence_store.py\<close>: it borrows an
  open transaction, checks action, transaction and tenant, asks the server-owned source, takes
  the locks in their fixed order, revalidates, and stages rows.  The store is the interface
  \<open>ConsentEvidenceStoreProtocol\<close>: a record of operations over an abstract world \<open>'w\<close>, each of
  which returns its result together with the world it leaves, also when it raises.  The
  locale \<open>evidence_store\<close> states what the service relies on of a store; the operations are
  proved correct in it once, for every store.
\<close>

section \<open>Errors and effects\<close>

datatype uow_code =
    INVALID_ARGUMENT | TRANSACTION_REQUIRED | TENANT_SCOPE_REQUIRED | SOURCE_UNAVAILABLE | SOURCE_INVALID
  | ACTION_BLOCKED | PERSON_NOT_FOUND | CHALLENGE_NOT_FOUND | CHALLENGE_CONFLICT | CHALLENGE_EXPIRED
  | IDEMPOTENCY_REPLAY | IDEMPOTENCY_CONFLICT | LEDGER_CONFLICT | DATA_INTEGRITY | UNKNOWN

text \<open>
  What can be raised: the sanitised error of the unit of work, an error of the domain module
  that passes through, or an exception of the driver.
\<close>

datatype exn = Uow uow_code | DomainRaised evidence_error | DriverRaised

type_synonym ('w, 'a) op = "(exn, 'w, 'a) effect"

definition fail :: "uow_code \<Rightarrow> ('w, 'a) op" where
  "fail c = raising (Uow c)"

text \<open>A pure function of the domain module called outside any handler.\<close>

definition domain :: "(evidence_error, 'a) result \<Rightarrow> ('w, 'a) op" where
  "domain m = (case m of Inl e \<Rightarrow> raising (DomainRaised e) | Inr x \<Rightarrow> ret x)"

section \<open>The store interface and the unit of work\<close>

record 'w store =
  st_transaction_active :: "('w, bool) op"
  st_require_readonly_observation :: "('w, unit) op"
  st_require_tenant_scope :: "uuid \<Rightarrow> ('w, unit) op"
  st_lock_idempotency_key :: "uuid \<Rightarrow> opaque_key \<Rightarrow> ('w, unit) op"
  st_lock_challenge :: "uuid \<Rightarrow> uuid \<Rightarrow> ('w, unit) op"
  st_lock_ledger_stream :: "uuid \<Rightarrow> uuid \<Rightarrow> purpose \<Rightarrow> ('w, unit) op"
  st_get_challenge :: "uuid \<Rightarrow> uuid \<Rightarrow> ('w, challenge option) op"
  st_get_challenge_by_binding_interaction :: "uuid \<Rightarrow> uuid \<Rightarrow> uuid \<Rightarrow> ('w, challenge option) op"
  st_get_evidence_by_idempotency :: "uuid \<Rightarrow> opaque_key \<Rightarrow> ('w, evidence option) op"
  st_get_evidence_by_challenge_type :: "uuid \<Rightarrow> uuid \<Rightarrow> evidence_type \<Rightarrow> ('w, evidence option) op"
  st_get_receipt_by_evidence :: "uuid \<Rightarrow> uuid \<Rightarrow> ('w, consent_receipt option) op"
  st_get_ledger_state :: "uuid \<Rightarrow> uuid \<Rightarrow> purpose \<Rightarrow> ('w, ledger_state \<times> uuid option) op"
  st_insert_challenge :: "challenge \<Rightarrow> ('w, bool) op"
  st_insert_evidence :: "evidence \<Rightarrow> ('w, unit) op"
  st_insert_receipt :: "consent_receipt \<Rightarrow> ('w, unit) op"
  st_transition_challenge :: "uuid \<Rightarrow> uuid \<Rightarrow> challenge_state \<Rightarrow> datetime \<Rightarrow> ('w, unit) op"
  st_flush :: "('w, unit) op"

text \<open>
  The clock and the source are external and only observe the world.  A clock raises or answers;
  a source may also raise the sanitised error itself (\<open>Inl\<close>), which is passed on.
\<close>

datatype clock_answer = ClockRaised | ClockValue datetime

record 'w uow =
  uw_store :: "'w store"
  uw_resolve :: "consent_request \<Rightarrow> datetime \<Rightarrow> 'w \<Rightarrow> uow_code + source_answer"
  uw_revalidate :: "consent_request \<Rightarrow> authority \<Rightarrow> datetime \<Rightarrow> 'w \<Rightarrow> uow_code + source_answer"
  uw_clock :: "'w \<Rightarrow> clock_answer"
  uw_secret :: bytes
  uw_entropy :: bytes
  uw_presentation_id :: uuid
  uw_manifestation_id :: uuid
  uw_receipt_id :: uuid

section \<open>Calls\<close>

definition require_clock :: "'w uow \<Rightarrow> ('w, datetime) op" where
  "require_clock U w =
     (case uw_clock U w of
        ClockRaised \<Rightarrow> fail uow_code.UNKNOWN w
      | ClockValue t \<Rightarrow> (case require_utc t of Inl _ \<Rightarrow> fail INVALID_ARGUMENT w | Inr t \<Rightarrow> ret t w))"

definition store_call :: "('w, 'a) op \<Rightarrow> ('w, 'a) op" where
  "store_call m = scatch m (\<lambda>e. case e of Uow c \<Rightarrow> fail c | _ \<Rightarrow> fail DATA_INTEGRITY)"

definition require_external_transaction :: "'w uow \<Rightarrow> ('w, unit) op" where
  "require_external_transaction U =
     sbind (scatch (st_transaction_active (uw_store U)) (\<lambda>_. fail TRANSACTION_REQUIRED)) (\<lambda>active.
       if \<not> active then fail TRANSACTION_REQUIRED else ret ())"

definition require_tenant_scope :: "'w uow \<Rightarrow> uuid \<Rightarrow> ('w, unit) op" where
  "require_tenant_scope U tenant =
     scatch (st_require_tenant_scope (uw_store U) tenant)
       (\<lambda>e. case e of Uow c \<Rightarrow> fail c | _ \<Rightarrow> fail TENANT_SCOPE_REQUIRED)"

definition require_read_only_observation :: "'w uow \<Rightarrow> ('w, unit) op" where
  "require_read_only_observation U =
     scatch (st_require_readonly_observation (uw_store U))
       (\<lambda>e. case e of Uow c \<Rightarrow> fail c | _ \<Rightarrow> fail uow_code.UNKNOWN)"

definition source_call :: "('w \<Rightarrow> uow_code + source_answer) \<Rightarrow> ('w, authority) op" where
  "source_call ask w =
     (case ask w of
        Inl c \<Rightarrow> fail c w
      | Inr SourceError \<Rightarrow> fail SOURCE_UNAVAILABLE w
      | Inr SourceRaised \<Rightarrow> fail SOURCE_INVALID w
      | Inr (SourceValue a) \<Rightarrow> ret a w)"

definition validate_authority :: "consent_request \<Rightarrow> authority \<Rightarrow> ('w, unit) op" where
  "validate_authority r a =
     (case validate_source_binding r a of Inl _ \<Rightarrow> fail SOURCE_INVALID | Inr _ \<Rightarrow> ret ())"

definition require_allowed_action :: "consent_request \<Rightarrow> bool \<Rightarrow> ('w, unit) op" where
  "require_allowed_action r presentation =
     (if presentation then (if rq_acao r \<noteq> None then fail INVALID_ARGUMENT else ret ())
      else if rq_acao r = Some REFUSE_INITIAL then ret ()
      else if rq_acao r \<in> {Some ACCEPT, Some WITHDRAW} then fail ACTION_BLOCKED
      else fail INVALID_ARGUMENT)"

definition ensure_not_expired :: "challenge \<Rightarrow> datetime \<Rightarrow> ('w, unit) op" where
  "ensure_not_expired c now = (if instant now \<ge> instant (ch_expira_em c) then fail CHALLENGE_EXPIRED else ret ())"

definition same_ledger :: "authority \<Rightarrow> ledger_state \<times> uuid option \<Rightarrow> bool \<Rightarrow> ('w, unit) op" where
  "same_ledger expected actual require_absent =
     (case actual of (state, event_id) \<Rightarrow>
        if state \<noteq> au_prior_ledger_state expected \<or> event_id \<noteq> au_prior_event_id expected then fail LEDGER_CONFLICT
        else if require_absent \<and> state \<noteq> ABSENT then fail LEDGER_CONFLICT
        else ret ())"

definition check_challenge_row :: "challenge \<Rightarrow> challenge option \<Rightarrow> ('w, challenge) op" where
  "check_challenge_row requested persisted =
     (case persisted of
        None \<Rightarrow> fail CHALLENGE_NOT_FOUND
      | Some c \<Rightarrow> if \<not> compare_challenges c requested then fail CHALLENGE_CONFLICT else ret c)"

definition new_challenge_state :: "challenge \<Rightarrow> challenge_state \<Rightarrow> datetime \<Rightarrow> ('w, challenge) op" where
  "new_challenge_state c st ended =
     (case with_state c st ended of Inl _ \<Rightarrow> fail DATA_INTEGRITY | Inr d \<Rightarrow> ret d)"

section \<open>Preflight, locks and revalidation\<close>

definition preflight :: "'w uow \<Rightarrow> consent_request \<Rightarrow> bool \<Rightarrow> ('w, challenge \<times> authority \<times> datetime) op" where
  "preflight U r presentation =
     sbind (require_allowed_action r presentation) (\<lambda>_.
     sbind (require_external_transaction U) (\<lambda>_.
     sbind (require_tenant_scope U (ch_igreja_id (rq_desafio r))) (\<lambda>_.
     sbind (require_clock U) (\<lambda>now.
     sbind (source_call (uw_resolve U r now)) (\<lambda>a.
     sbind (validate_authority r a) (\<lambda>_.
       ret (rq_desafio r, a, now)))))))"

definition get_challenge :: "'w uow \<Rightarrow> challenge \<Rightarrow> ('w, challenge option) op" where
  "get_challenge U c = store_call (st_get_challenge (uw_store U) (ch_igreja_id c) (ch_id c))"

definition get_binding :: "'w uow \<Rightarrow> challenge \<Rightarrow> ('w, challenge option) op" where
  "get_binding U c =
     store_call (st_get_challenge_by_binding_interaction (uw_store U) (ch_igreja_id c) (ch_binding_id c) (ch_interaction_id c))"

definition foreign_challenge :: "challenge option \<Rightarrow> challenge \<Rightarrow> bool" where
  "foreign_challenge found c =
     (case found of None \<Rightarrow> False | Some d \<Rightarrow> ch_id d \<noteq> ch_id c \<or> \<not> compare_challenges d c)"

text \<open>The winner of an insert that reported a conflict.\<close>

definition insert_conflict_winner :: "'w uow \<Rightarrow> challenge \<Rightarrow> ('w, challenge) op" where
  "insert_conflict_winner U c =
     sbind (get_challenge U c) (\<lambda>by_id.
     sbind (get_binding U c) (\<lambda>by_binding.
       if foreign_challenge by_binding c then fail CHALLENGE_CONFLICT
       else case by_id of
              None \<Rightarrow> fail CHALLENGE_NOT_FOUND
            | Some d \<Rightarrow> if foreign_challenge (Some d) c then fail CHALLENGE_CONFLICT else ret d))"

text \<open>The row found before the lock, or \<open>None\<close> when this call inserted the challenge.\<close>

definition secure_challenge :: "'w uow \<Rightarrow> challenge \<Rightarrow> datetime \<Rightarrow> ('w, challenge option) op" where
  "secure_challenge U c pre_lock_now =
     sbind (get_challenge U c) (\<lambda>existing.
       case existing of
         Some d \<Rightarrow> ret (Some d)
       | None \<Rightarrow>
           sbind (get_binding U c) (\<lambda>existing_binding.
             case existing_binding of
               Some d \<Rightarrow> if foreign_challenge (Some d) c then fail CHALLENGE_CONFLICT else ret (Some d)
             | None \<Rightarrow>
                 if ch_estado c \<noteq> OPEN then fail CHALLENGE_CONFLICT
                 else sbind (ensure_not_expired c pre_lock_now) (\<lambda>_.
                      sbind (store_call (st_insert_challenge (uw_store U) c)) (\<lambda>inserted.
                        if inserted then ret None
                        else sbind (insert_conflict_winner U c) (\<lambda>d. ret (Some d))))))"

definition lock_existing :: "'w uow \<Rightarrow> challenge \<Rightarrow> challenge \<Rightarrow> ('w, challenge) op" where
  "lock_existing U c existing =
     (if \<not> compare_challenges existing c then fail CHALLENGE_CONFLICT
      else sbind (store_call (st_lock_challenge (uw_store U) (ch_igreja_id c) (ch_id c))) (\<lambda>_.
           sbind (get_challenge U c) (\<lambda>reread. check_challenge_row c reread)))"

definition terminal_unusable :: "challenge \<Rightarrow> bool \<Rightarrow> bool" where
  "terminal_unusable c allow_expired_replay \<longleftrightarrow>
     ch_estado c \<noteq> OPEN
     \<and> \<not> (ch_estado c = CONSUMED \<or> (allow_expired_replay \<and> ch_estado c = challenge_state.EXPIRED))"

definition lock_and_revalidate ::
  "'w uow \<Rightarrow> consent_request \<Rightarrow> authority \<Rightarrow> datetime \<Rightarrow> bool \<Rightarrow> bool \<Rightarrow> ('w, challenge \<times> authority \<times> datetime) op" where
  "lock_and_revalidate U r a pre_lock_now require_ledger_absent allow_expired_replay =
     (let c = rq_desafio r in
      sbind (store_call (st_lock_idempotency_key (uw_store U) (ch_igreja_id c) (rq_chave_idempotencia r))) (\<lambda>_.
      sbind (secure_challenge U c pre_lock_now) (\<lambda>existing.
      sbind (case existing of None \<Rightarrow> ret c | Some d \<Rightarrow> lock_existing U c d) (\<lambda>c.
      sbind (store_call (st_lock_ledger_stream (uw_store U) (ch_igreja_id c) (ch_pessoa_id c) (ch_finalidade c))) (\<lambda>_.
      sbind (require_clock U) (\<lambda>post_lock_now.
      sbind (source_call (uw_revalidate U r a post_lock_now)) (\<lambda>a.
      sbind (validate_authority r a) (\<lambda>_.
        if terminal_unusable c allow_expired_replay then fail CHALLENGE_CONFLICT
        else sbind (get_binding U c) (\<lambda>existing_binding.
          if foreign_challenge existing_binding c then fail CHALLENGE_CONFLICT
          else sbind (store_call (st_get_ledger_state (uw_store U) (ch_igreja_id c) (ch_pessoa_id c) (ch_finalidade c))) (\<lambda>ledger.
               sbind (same_ledger a ledger require_ledger_absent) (\<lambda>_.
                 ret (c, a, post_lock_now))))))))))))"

section \<open>Results\<close>

text \<open>
  \<open>requires_caller_commit\<close> and \<open>delivery_claimed\<close> are constants of the class: true and false.
\<close>

record op_result =
  or_challenge :: challenge
  or_presentation :: evidence
  or_manifestation :: "evidence option"
  or_receipt :: "consent_receipt option"
  or_replayed :: bool

definition requires_caller_commit :: "op_result \<Rightarrow> bool" where "requires_caller_commit r = True"
definition delivery_claimed :: "op_result \<Rightarrow> bool" where "delivery_claimed r = False"

definition receipt_matches :: "consent_receipt \<Rightarrow> evidence \<Rightarrow> challenge \<Rightarrow> bool" where
  "receipt_matches rc m c \<longleftrightarrow>
     rc_igreja_id rc = ch_igreja_id c \<and> rc_evidencia_id rc = ev_id m
     \<and> rc_chave_idempotencia rc = ev_chave_idempotencia m \<and> rc_acao rc = REFUSE_INITIAL
     \<and> instant (rc_registrado_em rc) = instant (ev_registrado_em m) \<and> rc_schema_version rc = RECEIPT_LAB_V1"

definition op_result_post_init :: "op_result \<Rightarrow> (evidence_error, op_result) result" where
  "op_result_post_init r =
     (let c = or_challenge r; p = or_presentation r in
      if ev_igreja_id p \<noteq> ch_igreja_id c \<or> ev_desafio_id p \<noteq> ch_id c \<or> ev_tipo p \<noteq> PRESENTATION then Inl Rejected
      else ebind (evidence_matches_digest p c) (\<lambda>ok.
        if \<not> ok then Inl Rejected
        else case or_manifestation r of
          None \<Rightarrow> if or_receipt r \<noteq> None then Inl Rejected else Inr r
        | Some m \<Rightarrow> (case or_receipt r of
            None \<Rightarrow> Inl Rejected
          | Some rc \<Rightarrow>
              if ch_estado c \<noteq> CONSUMED \<or> ev_igreja_id m \<noteq> ch_igreja_id c \<or> ev_desafio_id m \<noteq> ch_id c
                \<or> ev_tipo m \<noteq> MANIFESTATION then Inl Rejected
              else ebind (evidence_matches_digest m c) (\<lambda>ok.
                if \<not> ok \<or> ev_apresentacao_id m \<noteq> Some (ev_id p) \<or> ev_acao m \<noteq> Some REFUSE_INITIAL
                  \<or> \<not> receipt_matches rc m c then Inl Rejected else Inr r))))"

definition op_result_new :: "op_result \<Rightarrow> ('w, op_result) op" where
  "op_result_new r = domain (op_result_post_init r)"

datatype reconciliation_status = CONFIRMED | NOT_FOUND | CONFLICT | UNKNOWN

record reconciliation =
  rr_status :: reconciliation_status
  rr_operation :: "op_result option"

definition reconciliation_post_init :: "reconciliation \<Rightarrow> (evidence_error, reconciliation) result" where
  "reconciliation_post_init r =
     (if rr_status r = CONFIRMED then (if rr_operation r = None then Inl Rejected else Inr r)
      else if rr_operation r \<noteq> None then Inl Rejected
      else Inr r)"

definition reconciled :: "reconciliation_status \<Rightarrow> ('w, reconciliation) op" where
  "reconciled st = domain (reconciliation_post_init \<lparr>rr_status = st, rr_operation = None\<rparr>)"

section \<open>Recording a presentation\<close>

definition evidence_by_key :: "'w uow \<Rightarrow> challenge \<Rightarrow> consent_request \<Rightarrow> ('w, evidence option) op" where
  "evidence_by_key U c r =
     store_call (st_get_evidence_by_idempotency (uw_store U) (ch_igreja_id c) (rq_chave_idempotencia r))"

definition evidence_by_type :: "'w uow \<Rightarrow> challenge \<Rightarrow> evidence_type \<Rightarrow> ('w, evidence option) op" where
  "evidence_by_type U c t = store_call (st_get_evidence_by_challenge_type (uw_store U) (ch_igreja_id c) (ch_id c) t)"

definition replay_presentation ::
  "consent_request \<Rightarrow> challenge \<Rightarrow> evidence option \<Rightarrow> evidence \<Rightarrow> ('w, op_result) op" where
  "replay_presentation r c by_key existing =
     (if (case by_key of None \<Rightarrow> True | Some k \<Rightarrow> ev_id k \<noteq> ev_id existing)
        \<or> ev_chave_idempotencia existing \<noteq> key_value (rq_chave_idempotencia r)
      then fail IDEMPOTENCY_CONFLICT
      else sbind (domain (compare_evidence_intent existing r None)) (\<lambda>same.
        if \<not> same then fail IDEMPOTENCY_CONFLICT
        else op_result_new \<lparr>or_challenge = c, or_presentation = existing, or_manifestation = None, or_receipt = None,
               or_replayed = True\<rparr>))"

definition stage_presentation :: "'w uow \<Rightarrow> consent_request \<Rightarrow> challenge \<Rightarrow> datetime \<Rightarrow> ('w, op_result) op" where
  "stage_presentation U r c now =
     (if ch_estado c \<noteq> OPEN
      then (if ch_estado c = challenge_state.EXPIRED then fail CHALLENGE_EXPIRED else fail CHALLENGE_CONFLICT)
      else sbind (ensure_not_expired c now) (\<lambda>_.
           sbind (domain (build_evidence (uw_secret U) (uw_presentation_id U) (ch_igreja_id c) (ch_id c) PRESENTATION
                     (rq_chave_idempotencia r) c (rq_apresentada_em r) None None)) (\<lambda>e.
           sbind (store_call (st_insert_evidence (uw_store U) e)) (\<lambda>_.
           sbind (store_call (st_flush (uw_store U))) (\<lambda>_.
             op_result_new \<lparr>or_challenge = c, or_presentation = e, or_manifestation = None, or_receipt = None,
               or_replayed = False\<rparr>)))))"

definition record_presentation :: "'w uow \<Rightarrow> consent_request \<Rightarrow> ('w, op_result) op" where
  "record_presentation U r =
     sbind (preflight U r True) (\<lambda>(_, a, pre_lock_now).
     sbind (lock_and_revalidate U r a pre_lock_now False True) (\<lambda>(c, _, post_lock_now).
     sbind (evidence_by_key U c r) (\<lambda>by_key.
     sbind (evidence_by_type U c PRESENTATION) (\<lambda>existing.
       case existing of
         Some e \<Rightarrow> replay_presentation r c by_key e
       | None \<Rightarrow> if by_key \<noteq> None then fail IDEMPOTENCY_CONFLICT else stage_presentation U r c post_lock_now))))"

section \<open>Recording an initial refusal\<close>

text \<open>An existing presentation row must be the one this request observed.\<close>

definition check_presentation :: "consent_request \<Rightarrow> challenge \<Rightarrow> evidence option \<Rightarrow> ('w, unit) op" where
  "check_presentation r c presentation =
     (case presentation of
        None \<Rightarrow> ret ()
      | Some p \<Rightarrow>
          if ev_igreja_id p \<noteq> ch_igreja_id c \<or> ev_desafio_id p \<noteq> ch_id c \<or> ev_tipo p \<noteq> PRESENTATION
            \<or> instant (ev_registrado_em p) \<noteq> instant (rq_apresentada_em r)
          then fail IDEMPOTENCY_CONFLICT
          else sbind (domain (evidence_matches_digest p c)) (\<lambda>ok.
            if \<not> ok then fail IDEMPOTENCY_CONFLICT else ret ()))"

definition receipt_of_request :: "consent_receipt option \<Rightarrow> evidence \<Rightarrow> consent_request \<Rightarrow> challenge \<Rightarrow> bool" where
  "receipt_of_request receipt m r c \<longleftrightarrow>
     (case receipt of
        None \<Rightarrow> False
      | Some rc \<Rightarrow>
          rc_igreja_id rc = ch_igreja_id c \<and> rc_evidencia_id rc = ev_id m
          \<and> rc_chave_idempotencia rc = key_value (rq_chave_idempotencia r) \<and> rc_acao rc = REFUSE_INITIAL
          \<and> rc_schema_version rc = RECEIPT_LAB_V1
          \<and> same_instant (Some (rc_registrado_em rc)) (rq_manifestada_em r))"

definition replay_refusal ::
  "'w uow \<Rightarrow> consent_request \<Rightarrow> challenge \<Rightarrow> evidence option \<Rightarrow> evidence option \<Rightarrow> evidence \<Rightarrow> ('w, op_result) op" where
  "replay_refusal U r c by_key presentation m =
     sbind (store_call (st_get_receipt_by_evidence (uw_store U) (ch_igreja_id c) (ev_id m))) (\<lambda>receipt.
       case (by_key, presentation) of
         (Some k, Some p) \<Rightarrow>
           if ch_estado c \<noteq> CONSUMED \<or> ev_id k \<noteq> ev_id m then fail IDEMPOTENCY_CONFLICT
           else sbind (domain (compare_evidence_intent m r (Some (ev_id p)))) (\<lambda>same.
             if \<not> same \<or> \<not> receipt_of_request receipt m r c then fail IDEMPOTENCY_CONFLICT
             else op_result_new \<lparr>or_challenge = c, or_presentation = p, or_manifestation = Some m, or_receipt = receipt,
                    or_replayed = True\<rparr>)
       | _ \<Rightarrow> fail IDEMPOTENCY_CONFLICT)"

text \<open>The presentation the refusal refers to: the existing row, or a new one under a key of its own.\<close>

definition obtain_presentation :: "'w uow \<Rightarrow> consent_request \<Rightarrow> challenge \<Rightarrow> evidence option \<Rightarrow> ('w, evidence) op" where
  "obtain_presentation U r c presentation =
     (case presentation of
        Some p \<Rightarrow> ret p
      | None \<Rightarrow>
          sbind (domain (opaque_key_generate (uw_secret U) (uw_entropy U))) (\<lambda>k.
          sbind (domain (build_evidence (uw_secret U) (uw_presentation_id U) (ch_igreja_id c) (ch_id c) PRESENTATION
                    k c (rq_apresentada_em r) None None)) (\<lambda>p.
          sbind (store_call (st_insert_evidence (uw_store U) p)) (\<lambda>_. ret p))))"

text \<open>A refusal that passed its construction checks has a manifestation instant.\<close>

definition manifested_at :: "consent_request \<Rightarrow> datetime" where
  "manifested_at r = (case rq_manifestada_em r of Some t \<Rightarrow> t | None \<Rightarrow> rq_apresentada_em r)"

definition refusal_receipt :: "'w uow \<Rightarrow> consent_request \<Rightarrow> challenge \<Rightarrow> evidence \<Rightarrow> consent_receipt" where
  "refusal_receipt U r c m =
     \<lparr>rc_id = uw_receipt_id U, rc_igreja_id = ch_igreja_id c, rc_evidencia_id = ev_id m,
      rc_chave_idempotencia = key_value (rq_chave_idempotencia r), rc_registrado_em = manifested_at r,
      rc_acao = REFUSE_INITIAL, rc_schema_version = RECEIPT_LAB_V1\<rparr>"

definition stage_refusal :: "'w uow \<Rightarrow> consent_request \<Rightarrow> challenge \<Rightarrow> evidence option \<Rightarrow> ('w, op_result) op" where
  "stage_refusal U r c presentation =
     sbind (obtain_presentation U r c presentation) (\<lambda>p.
     sbind (domain (build_evidence (uw_secret U) (uw_manifestation_id U) (ch_igreja_id c) (ch_id c) MANIFESTATION
               (rq_chave_idempotencia r) c (manifested_at r) (Some (ev_id p)) (Some REFUSE_INITIAL))) (\<lambda>m.
     sbind (domain (receipt_post_init (refusal_receipt U r c m))) (\<lambda>rc.
     sbind (store_call (st_insert_evidence (uw_store U) m)) (\<lambda>_.
     sbind (store_call (st_insert_receipt (uw_store U) rc)) (\<lambda>_.
     sbind (store_call (st_transition_challenge (uw_store U) (ch_igreja_id c) (ch_id c) CONSUMED (manifested_at r))) (\<lambda>_.
     sbind (store_call (st_flush (uw_store U))) (\<lambda>_.
     sbind (new_challenge_state c CONSUMED (manifested_at r)) (\<lambda>c'.
       op_result_new \<lparr>or_challenge = c', or_presentation = p, or_manifestation = Some m, or_receipt = Some rc,
         or_replayed = False\<rparr>))))))))"

definition record_initial_refusal :: "'w uow \<Rightarrow> consent_request \<Rightarrow> ('w, op_result) op" where
  "record_initial_refusal U r =
     sbind (preflight U r False) (\<lambda>(_, a, pre_lock_now).
     sbind (lock_and_revalidate U r a pre_lock_now True True) (\<lambda>(c, _, post_lock_now).
     sbind (evidence_by_key U c r) (\<lambda>by_key.
     sbind (evidence_by_type U c MANIFESTATION) (\<lambda>manifestation.
     sbind (evidence_by_type U c PRESENTATION) (\<lambda>presentation.
     sbind (check_presentation r c presentation) (\<lambda>_.
       case manifestation of
         Some m \<Rightarrow> replay_refusal U r c by_key presentation m
       | None \<Rightarrow>
           if ch_estado c \<noteq> OPEN
           then (if ch_estado c = challenge_state.EXPIRED then fail CHALLENGE_EXPIRED else fail DATA_INTEGRITY)
           else if by_key \<noteq> None then fail IDEMPOTENCY_CONFLICT
           else sbind (ensure_not_expired c post_lock_now) (\<lambda>_. stage_refusal U r c presentation)))))))"

section \<open>Reconciliation\<close>

definition confirmable ::
  "consent_request \<Rightarrow> evidence \<Rightarrow> challenge \<Rightarrow> evidence \<Rightarrow> bool" where
  "confirmable r existing stored p \<longleftrightarrow>
     (let c = rq_desafio r in
      compare_challenges stored c \<and> ch_estado stored = CONSUMED
      \<and> ev_igreja_id p = ch_igreja_id c \<and> ev_desafio_id p = ch_id c \<and> ev_tipo p = PRESENTATION
      \<and> instant (ev_registrado_em p) = instant (rq_apresentada_em r)
      \<and> ev_apresentacao_id p = None \<and> ev_acao p = None)"

text \<open>The observation after the row with the request's key has been found.\<close>

definition reconcile_rows ::
  "consent_request \<Rightarrow> evidence \<Rightarrow> challenge option \<Rightarrow> evidence option \<Rightarrow> evidence option \<Rightarrow> consent_receipt option
   \<Rightarrow> ledger_state \<times> uuid option \<Rightarrow> ('w, reconciliation) op" where
  "reconcile_rows r existing stored presentation manifestation receipt ledger =
     (case (stored, presentation) of
        (Some c, Some p) \<Rightarrow>
          if \<not> confirmable r existing c p then reconciled CONFLICT
          else sbind (domain (evidence_matches_digest p c)) (\<lambda>ok.
            if \<not> ok then reconciled CONFLICT
            else case (manifestation, receipt) of
              (Some m, Some rc) \<Rightarrow>
                if ev_id m \<noteq> ev_id existing then reconciled CONFLICT
                else sbind (domain (compare_evidence_intent m r (Some (ev_id p)))) (\<lambda>same.
                  if \<not> same \<or> \<not> receipt_of_request receipt m r (rq_desafio r) \<or> ledger \<noteq> (ABSENT, None)
                  then reconciled CONFLICT
                  else sbind (op_result_new \<lparr>or_challenge = c, or_presentation = p, or_manifestation = Some m,
                                or_receipt = Some rc, or_replayed = True\<rparr>) (\<lambda>operation.
                       domain (reconciliation_post_init \<lparr>rr_status = CONFIRMED, rr_operation = Some operation\<rparr>)))
            | _ \<Rightarrow> reconciled CONFLICT)
      | _ \<Rightarrow> reconciled CONFLICT)"

definition observe_refusal :: "'w uow \<Rightarrow> consent_request \<Rightarrow> ('w, reconciliation) op" where
  "observe_refusal U r =
     (let c = rq_desafio r in
      sbind (require_clock U) (\<lambda>now.
      sbind (source_call (uw_resolve U r now)) (\<lambda>a.
      sbind (validate_authority r a) (\<lambda>_.
      sbind (evidence_by_key U c r) (\<lambda>existing.
        case existing of
          None \<Rightarrow> reconciled NOT_FOUND
        | Some e \<Rightarrow>
            sbind (get_challenge U c) (\<lambda>stored.
            sbind (evidence_by_type U c PRESENTATION) (\<lambda>presentation.
            sbind (evidence_by_type U c MANIFESTATION) (\<lambda>manifestation.
            sbind (store_call (st_get_receipt_by_evidence (uw_store U) (ch_igreja_id c) (ev_id e))) (\<lambda>receipt.
            sbind (store_call (st_get_ledger_state (uw_store U) (ch_igreja_id c) (ch_pessoa_id c) (ch_finalidade c))) (\<lambda>ledger.
              reconcile_rows r e stored presentation manifestation receipt ledger))))))))))"

definition reconcile_initial_refusal :: "'w uow \<Rightarrow> consent_request \<Rightarrow> ('w, reconciliation) op" where
  "reconcile_initial_refusal U r =
     sbind (require_allowed_action r False) (\<lambda>_.
     sbind (require_external_transaction U) (\<lambda>_.
     sbind (scatch (sbind (require_read_only_observation U) (\<lambda>_. ret True)) (\<lambda>_. ret False)) (\<lambda>read_only.
       if \<not> read_only then reconciled reconciliation_status.UNKNOWN
       else sbind (require_tenant_scope U (ch_igreja_id (rq_desafio r))) (\<lambda>_.
         scatch (observe_refusal U r)
           (\<lambda>e. case e of
                  Uow c \<Rightarrow> if c \<in> {TENANT_SCOPE_REQUIRED, TRANSACTION_REQUIRED} then fail c
                           else reconciled reconciliation_status.UNKNOWN
                | _ \<Rightarrow> reconciled reconciliation_status.UNKNOWN)))))"

end
