(* ===== verification/ConsentLaws.thy ===== *)
theory ConsentLaws
  imports ConsentStore
begin

text \<open>
  The contract between the unit of work and its store.  The abstract content of a store is
  \<open>evidence_db\<close>, the rows of the three evidence tables and of the consent ledger; the locale
  \<open>evidence_store\<close> says what each operation does to it, whatever the store is, and its extension
  \<open>evidence_reads\<close> what the reads return.  The lemmas proved here hold of every store that keeps
  the contract: what a run can change, and what a successful run has changed.
\<close>

section \<open>The abstract content of a store\<close>

datatype ledger_estado = CONCEDIDO | RETIRADO

record ledger_event =
  le_id :: uuid
  le_igreja_id :: uuid
  le_pessoa_id :: uuid
  le_finalidade :: purpose
  le_sequencia :: nat
  le_estado :: ledger_estado

record evidence_db =
  db_challenges :: "challenge list"
  db_evidence :: "evidence list"
  db_receipts :: "consent_receipt list"
  db_ledger :: "ledger_event list"

definition add_challenge :: "challenge \<Rightarrow> evidence_db \<Rightarrow> evidence_db" where
  "add_challenge c d = d\<lparr>db_challenges := db_challenges d @ [c]\<rparr>"

definition add_evidence :: "evidence \<Rightarrow> evidence_db \<Rightarrow> evidence_db" where
  "add_evidence e d = d\<lparr>db_evidence := db_evidence d @ [e]\<rparr>"

definition add_receipt :: "consent_receipt \<Rightarrow> evidence_db \<Rightarrow> evidence_db" where
  "add_receipt r d = d\<lparr>db_receipts := db_receipts d @ [r]\<rparr>"

definition is_open_row :: "uuid \<Rightarrow> uuid \<Rightarrow> challenge \<Rightarrow> bool" where
  "is_open_row g i c \<longleftrightarrow> ch_igreja_id c = g \<and> ch_id c = i \<and> ch_estado c = OPEN"

definition close_challenge :: "uuid \<Rightarrow> uuid \<Rightarrow> challenge_state \<Rightarrow> datetime \<Rightarrow> evidence_db \<Rightarrow> evidence_db" where
  "close_challenge g i st t d =
     d\<lparr>db_challenges := map (\<lambda>c. if is_open_row g i c then c\<lparr>ch_estado := st, ch_encerrado_em := Some t\<rparr> else c)
        (db_challenges d)\<rparr>"

lemma db_simps [simp]:
  "db_challenges (add_challenge c d) = db_challenges d @ [c]" "db_evidence (add_challenge c d) = db_evidence d"
  "db_receipts (add_challenge c d) = db_receipts d" "db_ledger (add_challenge c d) = db_ledger d"
  "db_challenges (add_evidence e d) = db_challenges d" "db_evidence (add_evidence e d) = db_evidence d @ [e]"
  "db_receipts (add_evidence e d) = db_receipts d" "db_ledger (add_evidence e d) = db_ledger d"
  "db_challenges (add_receipt r d) = db_challenges d" "db_evidence (add_receipt r d) = db_evidence d"
  "db_receipts (add_receipt r d) = db_receipts d @ [r]" "db_ledger (add_receipt r d) = db_ledger d"
  "db_evidence (close_challenge g i st t d) = db_evidence d" "db_receipts (close_challenge g i st t d) = db_receipts d"
  "db_ledger (close_challenge g i st t d) = db_ledger d"
  by (simp_all add: add_challenge_def add_evidence_def add_receipt_def close_challenge_def)

text \<open>
  One content extends another: the ledger is the same, evidence and receipts are only appended,
  and each old challenge is still in its place with its content, in the same state or closed
  from \<open>OPEN\<close>.
\<close>

definition challenge_extends :: "challenge \<Rightarrow> challenge \<Rightarrow> bool" where
  "challenge_extends c c' \<longleftrightarrow>
     c' = c \<or> (ch_estado c = OPEN \<and> (\<exists>st t. st \<noteq> OPEN \<and> c' = c\<lparr>ch_estado := st, ch_encerrado_em := Some t\<rparr>))"

definition db_extends :: "evidence_db \<Rightarrow> evidence_db \<Rightarrow> bool" where
  "db_extends d d' \<longleftrightarrow>
     (\<exists>es rs cs new. db_ledger d' = db_ledger d \<and> db_evidence d' = db_evidence d @ es \<and> db_receipts d' = db_receipts d @ rs
        \<and> db_challenges d' = cs @ new \<and> list_all2 challenge_extends (db_challenges d) cs)"

lemma challenge_extends_refl [simp]: "challenge_extends c c"
  by (simp add: challenge_extends_def)

lemma challenge_extends_trans: "challenge_extends a b \<Longrightarrow> challenge_extends b c \<Longrightarrow> challenge_extends a c"
  by (auto simp: challenge_extends_def)

lemma challenge_extends_refl_list [simp]: "list_all2 challenge_extends cs cs"
  by (simp add: list_all2_refl)

lemma db_extendsI:
  assumes "db_ledger d' = db_ledger d" "db_evidence d' = db_evidence d @ es" "db_receipts d' = db_receipts d @ rs"
    and "db_challenges d' = cs @ new" "list_all2 challenge_extends (db_challenges d) cs"
  shows "db_extends d d'"
  using assms unfolding db_extends_def by blast

lemma db_extends_refl [simp]: "db_extends d d"
  by (rule db_extendsI [of _ _ "[]" "[]" "db_challenges d" "[]"]) simp_all

lemma db_extends_trans:
  assumes "db_extends a b" "db_extends b c"
  shows "db_extends a c"
proof -
  obtain es rs cs new where 1: "db_ledger b = db_ledger a" "db_evidence b = db_evidence a @ es" "db_receipts b = db_receipts a @ rs"
      "db_challenges b = cs @ new" "list_all2 challenge_extends (db_challenges a) cs"
    using assms(1) by (auto simp: db_extends_def)
  obtain es' rs' cs' new' where 2: "db_ledger c = db_ledger b" "db_evidence c = db_evidence b @ es'" "db_receipts c = db_receipts b @ rs'"
      "db_challenges c = cs' @ new'" "list_all2 challenge_extends (cs @ new) cs'"
    using assms(2) 1(4) by (auto simp: db_extends_def)
  obtain us vs where 3: "cs' = us @ vs" "list_all2 challenge_extends cs us"
    using 2(5) by (auto simp: list_all2_append1)
  have "list_all2 challenge_extends (db_challenges a) us"
    using list_all2_trans [of challenge_extends challenge_extends challenge_extends] challenge_extends_trans 1(5) 3(2) by blast
  then show ?thesis
    by (intro db_extendsI [of _ _ "es @ es'" "rs @ rs'" us "vs @ new'"]) (simp_all add: 1 2 3)
qed

lemma db_extends_add [simp]: "db_extends d (add_challenge c d)" "db_extends d (add_evidence e d)" "db_extends d (add_receipt r d)"
  using db_extendsI [of "add_challenge c d" d "[]" "[]" "db_challenges d" "[c]"]
    db_extendsI [of "add_evidence e d" d "[e]" "[]" "db_challenges d" "[]"]
    db_extendsI [of "add_receipt r d" d "[]" "[r]" "db_challenges d" "[]"]
  by simp_all

lemma db_extends_close:
  assumes "st \<noteq> OPEN"
  shows "db_extends d (close_challenge g i st t d)"
proof (rule db_extendsI [of _ _ "[]" "[]" _ "[]"])
  show "db_challenges (close_challenge g i st t d) = db_challenges (close_challenge g i st t d) @ []" by simp
  show "list_all2 challenge_extends (db_challenges d) (db_challenges (close_challenge g i st t d))"
    using assms by (auto simp: close_challenge_def list_all2_conv_all_nth challenge_extends_def is_open_row_def)
qed simp_all

section \<open>Reasoning about effects\<close>

lemma op_simps [simp]: "fail c w = (Inl (Uow c), w)"
  "domain (Inr x) w = (Inr x, w)" "domain (Inl err) w = (Inl (DomainRaised err), w)"
  by (simp_all add: fail_def domain_def)

lemma store_call_Inr: "store_call m w = (Inr x, w') \<longleftrightarrow> m w = (Inr x, w')"
  by (auto simp: store_call_def scatch_def split: prod.splits sum.splits exn.splits)

lemma store_call_state: "store_call m w = (r, w') \<Longrightarrow> \<exists>r'. m w = (r', w') \<and> (\<forall>x. r = Inr x \<longleftrightarrow> r' = Inr x)"
  by (auto simp: store_call_def scatch_def split: prod.splits sum.splits exn.splits)

lemma fail_Inr [simp]: "fail c w \<noteq> (Inr x, w')" "(if b then fail c else m) w = (Inr x, w') \<longleftrightarrow> \<not> b \<and> m w = (Inr x, w')"
  "(if b then m else fail c) w = (Inr x, w') \<longleftrightarrow> b \<and> m w = (Inr x, w')"
  by simp_all

lemma domain_Inr [simp]: "domain m w = (Inr x, w') \<longleftrightarrow> m = Inr x \<and> w' = w"
  by (cases m) auto

text \<open>The frame rules of the prelude, with the failures of this component.\<close>

context preorder_effects begin

lemma obeys_fail [intro]: "obeys R (fail c)"
  and obeys_domain [intro]: "obeys R (domain m)"
  by (auto simp: obeys_def refl domain_def split: sum.splits)

lemma obeys_exn: "(\<And>c. obeys R (f c)) \<Longrightarrow> (\<And>x. obeys R (g x)) \<Longrightarrow> obeys R h \<Longrightarrow>
    obeys R (case e of Uow c \<Rightarrow> f c | DomainRaised x \<Rightarrow> g x | DriverRaised \<Rightarrow> h)"
  by (cases e) simp_all

lemma obeys_store_call: "obeys R m \<Longrightarrow> obeys R (store_call m)"
  unfolding store_call_def by (intro obeys_scatch obeys_exn) auto

lemmas effect_rules = frame_rules obeys_exn obeys_store_call obeys_fail obeys_domain

end

section \<open>The contract\<close>

locale evidence_store =
  fixes U :: "'w uow" and db :: "'w \<Rightarrow> evidence_db"
  assumes active: "st_transaction_active (uw_store U) w = (a, w') \<Longrightarrow> db w' = db w"
    and readonly: "st_require_readonly_observation (uw_store U) w = (x, w') \<Longrightarrow> db w' = db w"
    and scope: "st_require_tenant_scope (uw_store U) g w = (x, w') \<Longrightarrow> db w' = db w"
    and lock_key: "st_lock_idempotency_key (uw_store U) g k w = (x, w') \<Longrightarrow> db w' = db w"
    and lock_challenge: "st_lock_challenge (uw_store U) g i w = (x, w') \<Longrightarrow> db w' = db w"
    and lock_stream: "st_lock_ledger_stream (uw_store U) g i fi w = (x, w') \<Longrightarrow> db w' = db w"
    and get_challenge_frame: "st_get_challenge (uw_store U) g i w = (co, w') \<Longrightarrow> db w' = db w"
    and get_binding_frame: "st_get_challenge_by_binding_interaction (uw_store U) g b j w = (co, w') \<Longrightarrow> db w' = db w"
    and by_key_frame: "st_get_evidence_by_idempotency (uw_store U) g k w = (eo, w') \<Longrightarrow> db w' = db w"
    and by_type_frame: "st_get_evidence_by_challenge_type (uw_store U) g i ty w = (eo, w') \<Longrightarrow> db w' = db w"
    and receipt_frame: "st_get_receipt_by_evidence (uw_store U) g i w = (ro, w') \<Longrightarrow> db w' = db w"
    and ledger_frame: "st_get_ledger_state (uw_store U) g i fi w = (l, w') \<Longrightarrow> db w' = db w"
    and insert_challenge: "st_insert_challenge (uw_store U) c w = (ins, w') \<Longrightarrow>
      db w' = (if ins = Inr True then add_challenge c (db w) else db w)"
    and insert_evidence: "st_insert_evidence (uw_store U) e w = (x, w') \<Longrightarrow>
      db w' = (if x = Inr () then add_evidence e (db w) else db w)"
    and insert_receipt: "st_insert_receipt (uw_store U) rc w = (x, w') \<Longrightarrow>
      db w' = (if x = Inr () then add_receipt rc (db w) else db w)"
    and transition: "st_transition_challenge (uw_store U) g i st t w = (x, w') \<Longrightarrow>
      db w' = (if x = Inr () then close_challenge g i st t (db w) else db w)"
    and flush: "st_flush (uw_store U) w = (x, w') \<Longrightarrow> db w' = db w"

text \<open>What the reads answer: rows of the content that match the query and pass their construction checks.\<close>

locale evidence_reads = evidence_store +
  assumes get_challenge_row: "st_get_challenge (uw_store U) g i w = (Inr (Some c), w') \<Longrightarrow>
      c \<in> set (db_challenges (db w)) \<and> ch_igreja_id c = g \<and> ch_id c = i \<and> valid_challenge c"
    and by_key_row: "st_get_evidence_by_idempotency (uw_store U) g k w = (Inr (Some e), w') \<Longrightarrow>
      e \<in> set (db_evidence (db w)) \<and> ev_igreja_id e = g \<and> ev_chave_idempotencia e = key_value k \<and> valid_evidence e"
    and by_type_row: "st_get_evidence_by_challenge_type (uw_store U) g i ty w = (Inr (Some e), w') \<Longrightarrow>
      e \<in> set (db_evidence (db w)) \<and> ev_igreja_id e = g \<and> ev_desafio_id e = i \<and> ev_tipo e = ty \<and> valid_evidence e"
    and receipt_row: "st_get_receipt_by_evidence (uw_store U) g i w = (Inr (Some rc), w') \<Longrightarrow>
      rc \<in> set (db_receipts (db w)) \<and> rc_igreja_id rc = g \<and> rc_evidencia_id rc = i"

text \<open>The two relations the runs are measured by: the content is extended, the content is kept.\<close>

sublocale evidence_store \<subseteq> appends: preorder_effects "\<lambda>w w'. db_extends (db w) (db w')"
  by unfold_locales (auto intro: db_extends_trans)

sublocale evidence_store \<subseteq> keeps: preorder_effects "\<lambda>w w'. db w' = db w"
  by unfold_locales auto

context evidence_store
begin

abbreviation appends where "appends \<equiv> \<lambda>w w'. db_extends (db w) (db w')"
abbreviation keeps where "keeps \<equiv> \<lambda>w w'. db w' = db w"

lemma keeps_appends: "obeys keeps m \<Longrightarrow> obeys appends m"
  by (fastforce simp: obeys_def)

lemma store_keeps:
  "obeys keeps (st_transaction_active (uw_store U))" "obeys keeps (st_require_readonly_observation (uw_store U))"
  "obeys keeps (st_require_tenant_scope (uw_store U) g)" "obeys keeps (st_lock_idempotency_key (uw_store U) g k)"
  "obeys keeps (st_lock_challenge (uw_store U) g i)" "obeys keeps (st_lock_ledger_stream (uw_store U) g i f)"
  "obeys keeps (st_get_challenge (uw_store U) g i)"
  "obeys keeps (st_get_challenge_by_binding_interaction (uw_store U) g b j)"
  "obeys keeps (st_get_evidence_by_idempotency (uw_store U) g k)"
  "obeys keeps (st_get_evidence_by_challenge_type (uw_store U) g i t)"
  "obeys keeps (st_get_receipt_by_evidence (uw_store U) g i)" "obeys keeps (st_get_ledger_state (uw_store U) g i f)"
  "obeys keeps (st_flush (uw_store U))"
  by (auto simp: obeys_def dest: active readonly scope lock_key lock_challenge lock_stream get_challenge_frame get_binding_frame
      by_key_frame by_type_frame receipt_frame ledger_frame flush)

lemma store_appends:
  "obeys appends (st_insert_challenge (uw_store U) c)" "obeys appends (st_insert_evidence (uw_store U) e)"
  "obeys appends (st_insert_receipt (uw_store U) rc)"
  "st \<noteq> OPEN \<Longrightarrow> obeys appends (st_transition_challenge (uw_store U) g i st t)"
  by (auto simp: obeys_def db_extends_close dest: insert_challenge insert_evidence insert_receipt transition)

lemma clock_keeps: "obeys keeps (require_clock U)"
  by (rule keeps.obeys_pure) (simp add: require_clock_def split: clock_answer.split sum.split)

lemma source_keeps: "obeys keeps (source_call ask)"
  by (rule keeps.obeys_pure) (simp add: source_call_def split: source_answer.split sum.split)

lemma checks_keep: "obeys keeps (validate_authority r a)" "obeys keeps (require_allowed_action r p)"
  "obeys keeps (ensure_not_expired c now)" "obeys keeps (same_ledger a l b)" "obeys keeps (check_challenge_row c d)"
  "obeys keeps (new_challenge_state c st t)" "obeys keeps (op_result_new res)" "obeys keeps (reconciled status)"
  by (rule keeps.obeys_pure, simp add: validate_authority_def require_allowed_action_def ensure_not_expired_def same_ledger_def
      check_challenge_row_def new_challenge_state_def op_result_new_def reconciled_def domain_def
      split: sum.split option.split prod.split)+

lemma reads_keep: "obeys keeps (get_challenge U c)" "obeys keeps (get_binding U c)" "obeys keeps (evidence_by_key U c r)"
  "obeys keeps (evidence_by_type U c t)"
  unfolding get_challenge_def get_binding_def evidence_by_key_def evidence_by_type_def
  by (intro keeps.obeys_store_call store_keeps)+

lemma preflight_keeps: "obeys keeps (preflight U r p)"
  unfolding preflight_def require_external_transaction_def require_tenant_scope_def
  by (intro keeps.effect_rules store_keeps clock_keeps source_keeps checks_keep)

end

section \<open>What a run can change\<close>

context evidence_store
begin

lemmas keep_rules = store_keeps clock_keeps source_keeps checks_keep reads_keep preflight_keeps
lemmas append_rules = keep_rules [THEN keeps_appends] store_appends

lemma secure_appends: "obeys appends (secure_challenge U c now)"
  unfolding secure_challenge_def insert_conflict_winner_def by (intro appends.effect_rules append_rules)

lemma lock_existing_keeps: "obeys keeps (lock_existing U c d)"
  unfolding lock_existing_def by (intro keeps.effect_rules keep_rules)

lemma lock_and_revalidate_appends: "obeys appends (lock_and_revalidate U r a now b x)"
  unfolding lock_and_revalidate_def Let_def
  by (intro appends.effect_rules append_rules secure_appends lock_existing_keeps [THEN keeps_appends])

lemma stage_presentation_appends: "obeys appends (stage_presentation U r c now)"
  unfolding stage_presentation_def by (intro appends.effect_rules append_rules)

lemma replay_presentation_keeps: "obeys keeps (replay_presentation r c k e)"
  unfolding replay_presentation_def by (intro keeps.effect_rules keep_rules)

lemma record_presentation_appends: "obeys appends (record_presentation U r)"
  unfolding record_presentation_def
  by (intro appends.effect_rules append_rules lock_and_revalidate_appends stage_presentation_appends
      replay_presentation_keeps [THEN keeps_appends])

lemma replay_refusal_keeps: "obeys keeps (replay_refusal U r c k p m)"
  unfolding replay_refusal_def
  by (cases k; cases p) (simp_all only: prod.case option.case; intro keeps.effect_rules keep_rules)+

lemma check_presentation_keeps: "obeys keeps (check_presentation r c p)"
  unfolding check_presentation_def by (intro keeps.effect_rules keep_rules)

lemma stage_refusal_appends: "obeys appends (stage_refusal U r c p)"
  unfolding stage_refusal_def obtain_presentation_def
  by (intro appends.effect_rules append_rules) simp

lemma record_initial_refusal_appends: "obeys appends (record_initial_refusal U r)"
  unfolding record_initial_refusal_def
  by (intro appends.effect_rules append_rules lock_and_revalidate_appends stage_refusal_appends
      replay_refusal_keeps [THEN keeps_appends] check_presentation_keeps [THEN keeps_appends])

lemma reconcile_rows_keeps: "obeys keeps (reconcile_rows r e c p m rc l)"
  unfolding reconcile_rows_def
  by (cases c; cases p; cases m; cases rc) (simp_all only: prod.case option.case; intro keeps.effect_rules keep_rules)+

lemma reconcile_keeps: "obeys keeps (reconcile_initial_refusal U r)"
  unfolding reconcile_initial_refusal_def require_external_transaction_def require_tenant_scope_def
    require_read_only_observation_def observe_refusal_def Let_def
  by (intro keeps.effect_rules keep_rules reconcile_rows_keeps)

end

end
