(* ===== verification/ConsentRuns.thy ===== *)
theory ConsentRuns
  imports ConsentLaws
begin

text \<open>
  Successful runs of the unit of work, executed symbolically: which checks must have passed and
  which rows were staged, for every store that keeps the contract and also refuses duplicate
  rows (\<open>evidence_unique\<close>).
\<close>

section \<open>Facts of the checks\<close>

lemma op_result_facts:
  assumes "op_result_post_init r = Inr r'"
  shows "r' = r \<and> ev_igreja_id (or_presentation r) = ch_igreja_id (or_challenge r)
    \<and> ev_desafio_id (or_presentation r) = ch_id (or_challenge r) \<and> ev_tipo (or_presentation r) = PRESENTATION
    \<and> evidence_matches_digest (or_presentation r) (or_challenge r) = Inr True
    \<and> (case or_manifestation r of
         None \<Rightarrow> or_receipt r = None
       | Some m \<Rightarrow> ch_estado (or_challenge r) = CONSUMED \<and> ev_igreja_id m = ch_igreja_id (or_challenge r)
           \<and> ev_desafio_id m = ch_id (or_challenge r) \<and> ev_tipo m = MANIFESTATION
           \<and> evidence_matches_digest m (or_challenge r) = Inr True
           \<and> ev_apresentacao_id m = Some (ev_id (or_presentation r)) \<and> ev_acao m = Some REFUSE_INITIAL
           \<and> (\<exists>rc. or_receipt r = Some rc \<and> receipt_matches rc m (or_challenge r)))"
  using assms
  by (cases "or_manifestation r"; cases "or_receipt r")
    (auto simp: op_result_post_init_def Let_def ebind_eq_Inr split: if_splits)

lemma op_result_new_Inr: "op_result_new r w = (Inr r', w') \<longleftrightarrow> r' = r \<and> w' = w \<and> op_result_post_init r = Inr r"
  using op_result_facts [of r] by (auto simp: op_result_new_def)

lemma same_ledger_Inr: "same_ledger a l b w = (Inr x, w') \<Longrightarrow>
    w' = w \<and> l = (au_prior_ledger_state a, au_prior_event_id a) \<and> (b \<longrightarrow> au_prior_ledger_state a = ABSENT)"
  by (cases l) (auto simp: same_ledger_def split: if_splits)

lemma validate_authority_Inr: "validate_authority r a w = (Inr x, w') \<longleftrightarrow> w' = w \<and> validate_source_binding r a = Inr ()"
  by (auto simp: validate_authority_def split: sum.splits)

lemma require_clock_Inr: "require_clock U w = (Inr t, w') \<Longrightarrow> w' = w \<and> uw_clock U w = ClockValue t \<and> utcoffset t = Some 0"
  by (auto simp: require_clock_def require_utc_iff split: clock_answer.splits sum.splits)

lemma source_call_Inr: "source_call ask w = (Inr a, w') \<Longrightarrow> w' = w \<and> ask w = Inr (SourceValue a)"
  by (auto simp: source_call_def split: sum.splits source_answer.splits)

lemma ensure_not_expired_Inr: "ensure_not_expired c t w = (Inr x, w') \<longleftrightarrow> w' = w \<and> instant t < instant (ch_expira_em c)"
  by (auto simp: ensure_not_expired_def)

lemma preflight_Inr:
  assumes "preflight U r p w = (Inr (c, a, t), w')"
  shows "c = rq_desafio r \<and> validate_source_binding r a = Inr ()
    \<and> (if p then rq_acao r = None else rq_acao r = Some REFUSE_INITIAL)"
  using assms
  by (auto simp: preflight_def sbind_Inr validate_authority_Inr require_allowed_action_def split: if_splits)

text \<open>The digest check of a row inside the unit of work.\<close>

lemma matches_facts:
  assumes "valid_evidence e" "valid_challenge c" "evidence_matches_digest e c = Inr True"
  shows "ev_desafio_id e = ch_id c \<and> ev_igreja_id e = ch_igreja_id c \<and> ev_evidence_digest e = evidence_digest e c"
proof -
  have "ch_id c = ev_desafio_id e \<and> ch_igreja_id c = ev_igreja_id e"
    using assms(3) compute_evidence_digest_mismatch [of c e] by (fastforce simp: evidence_matches_digest_def)
  then show ?thesis using evidence_matches_iff [OF assms(1,2)] assms(3) by auto
qed

section \<open>Stores that refuse duplicates\<close>

text \<open>Rows that no unique constraint of the tables refuses.\<close>

definition fresh_challenge :: "challenge \<Rightarrow> evidence_db \<Rightarrow> bool" where
  "fresh_challenge c d \<longleftrightarrow>
     (\<forall>x \<in> set (db_challenges d). ch_id x \<noteq> ch_id c
        \<and> (ch_igreja_id x, ch_binding_id x, ch_interaction_id x) \<noteq> (ch_igreja_id c, ch_binding_id c, ch_interaction_id c))"

definition fresh_evidence :: "evidence \<Rightarrow> evidence_db \<Rightarrow> bool" where
  "fresh_evidence e d \<longleftrightarrow>
     (\<forall>f \<in> set (db_evidence d). ev_id f \<noteq> ev_id e
        \<and> (ev_igreja_id f = ev_igreja_id e \<longrightarrow>
             ev_chave_idempotencia f \<noteq> ev_chave_idempotencia e \<and> (ev_desafio_id f, ev_tipo f) \<noteq> (ev_desafio_id e, ev_tipo e)))"

definition fresh_receipt :: "consent_receipt \<Rightarrow> evidence_db \<Rightarrow> bool" where
  "fresh_receipt r d \<longleftrightarrow>
     (\<forall>q \<in> set (db_receipts d). rc_id q \<noteq> rc_id r
        \<and> (rc_igreja_id q = rc_igreja_id r \<longrightarrow>
             rc_evidencia_id q \<noteq> rc_evidencia_id r \<and> rc_chave_idempotencia q \<noteq> rc_chave_idempotencia r))"

locale evidence_unique = evidence_reads +
  assumes insert_challenge_fresh: "st_insert_challenge (uw_store U) c w = (Inr True, w') \<Longrightarrow>
      valid_challenge c \<and> ch_estado c = OPEN \<and> fresh_challenge c (db w)"
    and insert_evidence_fresh: "st_insert_evidence (uw_store U) e w = (Inr (), w') \<Longrightarrow> fresh_evidence e (db w)"
    and insert_receipt_fresh: "st_insert_receipt (uw_store U) rc w = (Inr (), w') \<Longrightarrow> fresh_receipt rc (db w)"

context evidence_unique
begin

lemma get_challenge_Inr: "get_challenge U c w = (Inr (Some d), w') \<Longrightarrow>
    db w' = db w \<and> d \<in> set (db_challenges (db w)) \<and> ch_igreja_id d = ch_igreja_id c \<and> ch_id d = ch_id c \<and> valid_challenge d"
  by (auto simp: get_challenge_def store_call_Inr dest: get_challenge_row get_challenge_frame)

lemma lock_existing_Inr:
  assumes "lock_existing U c d w = (Inr c', w')"
  shows "db w' = db w \<and> c' \<in> set (db_challenges (db w)) \<and> compare_challenges c' c \<and> valid_challenge c'"
proof -
  obtain w1 re w2 where 1: "st_lock_challenge (uw_store U) (ch_igreja_id c) (ch_id c) w = (Inr (), w1)"
      "get_challenge U c w1 = (Inr re, w2)" "check_challenge_row c re w2 = (Inr c', w')"
    using assms by (auto simp: lock_existing_def sbind_Inr store_call_Inr split: if_splits)
  then have "re = Some c' \<and> compare_challenges c' c \<and> w' = w2"
    by (cases re) (auto simp: check_challenge_row_def split: if_splits)
  then show ?thesis using 1 lock_challenge [OF 1(1)] get_challenge_Inr [of c w1 c' w2] by simp
qed

lemma secure_challenge_Inr:
  assumes "secure_challenge U c now w = (Inr x, w')"
  shows "case x of
      Some d \<Rightarrow> db w' = db w
    | None \<Rightarrow> valid_challenge c \<and> ch_estado c = OPEN \<and> db w' = add_challenge c (db w)
        \<and> fresh_challenge c (db w) \<and> instant now < instant (ch_expira_em c)"
proof -
  note frames = obeysD [OF reads_keep(1)] obeysD [OF reads_keep(2)]
  obtain e w1 where 1: "get_challenge U c w = (Inr e, w1)" "db w1 = db w"
    using assms frames by (auto simp: secure_challenge_def sbind_Inr)
  show ?thesis
  proof (cases e)
    case (Some d)
    with assms 1 show ?thesis by (auto simp: secure_challenge_def sbind_run)
  next
    case None
    obtain b w2 where 2: "get_binding U c w1 = (Inr b, w2)" "db w2 = db w"
      using assms 1 None frames by (auto simp: secure_challenge_def sbind_Inr sbind_run)
    show ?thesis
    proof (cases b)
      case (Some d)
      with assms 1 2 None show ?thesis by (auto simp: secure_challenge_def sbind_run split: if_splits)
    next
      case n: None
      have o: "ch_estado c = OPEN" using assms 1 2 None n by (auto simp: secure_challenge_def sbind_run split: if_splits)
      obtain ins w3 where 3: "instant now < instant (ch_expira_em c)" "st_insert_challenge (uw_store U) c w2 = (Inr ins, w3)"
          "(if ins then ret None else sbind (insert_conflict_winner U c) (\<lambda>d. ret (Some d))) w3 = (Inr x, w')"
        using assms 1 2 None n o
        by (auto simp: secure_challenge_def sbind_run sbind_Inr ensure_not_expired_Inr store_call_Inr)
      show ?thesis
      proof (cases ins)
        case True
        then show ?thesis using 2 3 insert_challenge insert_challenge_fresh [of c w2 w3] by auto
      next
        case False
        then have "db w3 = db w" using 2 3 insert_challenge by auto
        moreover have "obeys keeps (insert_conflict_winner U c)"
          unfolding insert_conflict_winner_def by (intro keeps.effect_rules keep_rules)
        ultimately show ?thesis using 3(3) False by (auto simp: sbind_Inr dest: obeysD)
      qed
    qed
  qed
qed

lemma lock_and_revalidate_Inr:
  assumes "lock_and_revalidate U r a now b x w = (Inr (c, a', post), w')"
  shows "compare_challenges c (rq_desafio r) \<and> valid_challenge c \<and> validate_source_binding r a' = Inr ()
    \<and> utcoffset post = Some 0 \<and> \<not> terminal_unusable c x \<and> (b \<longrightarrow> au_prior_ledger_state a' = ABSENT)
    \<and> (db w' = db w \<and> c \<in> set (db_challenges (db w))
       \<or> db w' = add_challenge c (db w) \<and> c = rq_desafio r \<and> ch_estado c = OPEN
         \<and> fresh_challenge c (db w))"
proof -
  let ?c = "rq_desafio r"
  obtain w1 ex w2 where 1: "st_lock_idempotency_key (uw_store U) (ch_igreja_id ?c) (rq_chave_idempotencia r) w = (Inr (), w1)"
      "secure_challenge U ?c now w1 = (Inr ex, w2)"
    using assms by (auto simp: lock_and_revalidate_def Let_def sbind_Inr store_call_Inr)
  obtain w3 where 3: "(case ex of None \<Rightarrow> ret ?c | Some d \<Rightarrow> lock_existing U ?c d) w2 = (Inr c, w3)"
      "db w' = db w3" "validate_source_binding r a' = Inr ()" "utcoffset post = Some 0" "\<not> terminal_unusable c x"
      "b \<longrightarrow> au_prior_ledger_state a' = ABSENT"
    using assms 1
    by (auto simp: lock_and_revalidate_def Let_def sbind_Inr sbind_run store_call_Inr validate_authority_Inr split: if_splits
        dest!: lock_stream require_clock_Inr source_call_Inr ledger_frame same_ledger_Inr dest: obeysD [OF reads_keep(2)])
  have "db w1 = db w" using lock_key 1(1) by blast
  then show ?thesis
    using 3 secure_challenge_Inr [OF 1(2)] lock_existing_Inr [of ?c _ w2 c w3] compare_challenges_equiv(1) [of ?c]
    by (cases ex) auto
qed

end

section \<open>Presentations\<close>

text \<open>The challenge a run works under: already stored, or stored by this run.\<close>

definition secured :: "evidence_db \<Rightarrow> challenge \<Rightarrow> evidence_db \<Rightarrow> bool" where
  "secured d c d0 \<longleftrightarrow>
     valid_challenge c
     \<and> (d0 = d \<and> c \<in> set (db_challenges d)
        \<or> d0 = add_challenge c d \<and> ch_estado c = OPEN \<and> fresh_challenge c d)"

text \<open>What a fresh refusal under challenge \<open>c\<close> has staged.\<close>

definition refusal_staged ::
  "consent_request \<Rightarrow> challenge \<Rightarrow> evidence_db \<Rightarrow> op_result \<Rightarrow> evidence_db \<Rightarrow> bool" where
  "refusal_staged r c d0 res d' \<longleftrightarrow>
     ch_estado c = OPEN
     \<and> (\<exists>p m rc d1. or_presentation res = p \<and> or_manifestation res = Some m \<and> or_receipt res = Some rc
         \<and> or_challenge res = c\<lparr>ch_estado := CONSUMED, ch_encerrado_em := Some (manifested_at r)\<rparr>
         \<and> valid_challenge (or_challenge res)
         \<and> (d1 = d0 \<and> p \<in> set (db_evidence d0) \<or> d1 = add_evidence p d0 \<and> fresh_evidence p d0)
         \<and> fresh_evidence m d1 \<and> fresh_receipt rc (add_evidence m d1) \<and> valid_evidence p \<and> valid_evidence m \<and> valid_receipt rc
         \<and> ev_tipo m = MANIFESTATION \<and> ev_chave_idempotencia m = key_value (rq_chave_idempotencia r)
         \<and> ev_registrado_em m = manifested_at r \<and> rc_registrado_em rc = manifested_at r
         \<and> instant (ev_registrado_em p) = instant (rq_apresentada_em r)
         \<and> d' = close_challenge (ch_igreja_id c) (ch_id c) CONSUMED (manifested_at r) (add_receipt rc (add_evidence m d1)))"

context evidence_unique
begin

lemma by_key_Inr: "evidence_by_key U c r w = (Inr e, w') \<Longrightarrow>
    db w' = db w \<and> (case e of None \<Rightarrow> True | Some e \<Rightarrow> e \<in> set (db_evidence (db w)) \<and> ev_igreja_id e = ch_igreja_id c
      \<and> ev_chave_idempotencia e = key_value (rq_chave_idempotencia r) \<and> valid_evidence e)"
  by (cases e) (auto simp: evidence_by_key_def store_call_Inr dest: by_key_row by_key_frame)

lemma by_type_Inr: "evidence_by_type U c t w = (Inr e, w') \<Longrightarrow>
    db w' = db w \<and> (case e of None \<Rightarrow> True | Some e \<Rightarrow> e \<in> set (db_evidence (db w)) \<and> ev_igreja_id e = ch_igreja_id c
      \<and> ev_desafio_id e = ch_id c \<and> ev_tipo e = t \<and> valid_evidence e)"
  by (cases e) (auto simp: evidence_by_type_def store_call_Inr dest: by_type_row by_type_frame)

lemma insert_evidence_Inr: "store_call (st_insert_evidence (uw_store U) e) w = (Inr x, w') \<Longrightarrow>
    db w' = add_evidence e (db w) \<and> fresh_evidence e (db w)"
  using insert_evidence [of e w "Inr ()" w'] insert_evidence_fresh [of e w w']
  by (simp add: store_call_Inr)

lemma secured_of_lock:
  assumes "lock_and_revalidate U r a now b x w = (Inr (c, a', post), w')"
  shows "secured (db w) c (db w')"
  using lock_and_revalidate_Inr [OF assms] by (auto simp: secured_def)

lemma stage_presentation_Inr:
  assumes "stage_presentation U r c now w = (Inr res, w')" "valid_challenge c"
  shows "ch_estado c = OPEN \<and> instant now < instant (ch_expira_em c) \<and> \<not> or_replayed res \<and> or_challenge res = c
    \<and> or_manifestation res = None \<and> valid_evidence (or_presentation res)
    \<and> ev_chave_idempotencia (or_presentation res) = key_value (rq_chave_idempotencia r)
    \<and> db w' = add_evidence (or_presentation res) (db w) \<and> fresh_evidence (or_presentation res) (db w)
    \<and> op_result_post_init res = Inr res"
proof -
  obtain e w1 w2 where 1: "ch_estado c = OPEN" "instant now < instant (ch_expira_em c)"
      "build_evidence (uw_secret U) (uw_presentation_id U) (ch_igreja_id c) (ch_id c) PRESENTATION (rq_chave_idempotencia r) c
         (rq_apresentada_em r) None None = Inr e"
      "store_call (st_insert_evidence (uw_store U) e) w = (Inr (), w1)" "st_flush (uw_store U) w1 = (Inr (), w2)"
      "op_result_new \<lparr>or_challenge = c, or_presentation = e, or_manifestation = None, or_receipt = None, or_replayed = False\<rparr> w2
         = (Inr res, w')"
    using assms(1)
    by (auto simp: stage_presentation_def sbind_Inr ensure_not_expired_Inr store_call_Inr [of "st_flush (uw_store U)"] split: if_splits)
  have "valid_evidence e \<and> ev_chave_idempotencia e = key_value (rq_chave_idempotencia r)"
    using 1(3) unfolding build_evidence_iff [OF assms(2)] by auto
  moreover have "db w2 = db w1" by (rule flush [OF 1(5)])
  ultimately show ?thesis
    using 1 insert_evidence_Inr [OF 1(4)] by (auto simp: op_result_new_Inr)
qed

lemma record_presentation_Inr:
  assumes "record_presentation U r w = (Inr res, w')"
  shows "\<exists>d0. secured (db w) (or_challenge res) d0 \<and> compare_challenges (or_challenge res) (rq_desafio r)
    \<and> or_manifestation res = None \<and> valid_evidence (or_presentation res)
    \<and> ev_chave_idempotencia (or_presentation res) = key_value (rq_chave_idempotencia r)
    \<and> op_result_post_init res = Inr res
    \<and> (if or_replayed res then db w' = d0 \<and> or_presentation res \<in> set (db_evidence (db w))
       else ch_estado (or_challenge res) = OPEN \<and> db w' = add_evidence (or_presentation res) d0
         \<and> fresh_evidence (or_presentation res) d0)"
proof -
  obtain c a now w1 c' a' post w2 k w3 ex w4 where 1: "preflight U r True w = (Inr (c, a, now), w1)"
      "lock_and_revalidate U r a now False True w1 = (Inr (c', a', post), w2)"
      "evidence_by_key U c' r w2 = (Inr k, w3)" "evidence_by_type U c' PRESENTATION w3 = (Inr ex, w4)"
      "(case ex of Some e \<Rightarrow> replay_presentation r c' k e
        | None \<Rightarrow> if k \<noteq> None then fail IDEMPOTENCY_CONFLICT else stage_presentation U r c' post) w4 = (Inr res, w')"
    using assms by (auto simp: record_presentation_def sbind_Inr simp del: not_None_eq split: prod.splits)
  note L = lock_and_revalidate_Inr [OF 1(2)] secured_of_lock [OF 1(2)]
  have w1: "db w1 = db w" using obeysD [OF preflight_keeps 1(1)] .
  have w4: "db w4 = db w2" using by_key_Inr [OF 1(3)] by_type_Inr [OF 1(4)] by simp
  have ev2: "db_evidence (db w2) = db_evidence (db w)" using L(2) w1 by (auto simp: secured_def)
  show ?thesis
  proof (cases ex)
    case None
    then have s: "stage_presentation U r c' post w4 = (Inr res, w')" using 1(5) by (auto split: if_splits)
    show ?thesis using stage_presentation_Inr [OF s] L w1 w4 by (intro exI [of _ "db w2"]) auto
  next
    case (Some e)
    have e: "e \<in> set (db_evidence (db w))" "valid_evidence e" using by_type_Inr [OF 1(4)] by_key_Inr [OF 1(3)] Some ev2 by auto
    have res: "res = \<lparr>or_challenge = c', or_presentation = e, or_manifestation = None, or_receipt = None, or_replayed = True\<rparr>"
      "op_result_post_init res = Inr res" "w' = w4" "ev_chave_idempotencia e = key_value (rq_chave_idempotencia r)"
      using 1(5) Some
      by (auto simp: replay_presentation_def sbind_Inr op_result_new_Inr split: if_splits option.splits)
    show ?thesis using res e L w1 w4 by (intro exI [of _ "db w2"]) simp
  qed
qed

end

section \<open>Initial refusals\<close>

lemma check_presentation_Inr: "check_presentation r c p w = (Inr x, w') \<Longrightarrow>
    w' = w \<and> (case p of None \<Rightarrow> True
      | Some p \<Rightarrow> ev_igreja_id p = ch_igreja_id c \<and> ev_desafio_id p = ch_id c \<and> ev_tipo p = PRESENTATION
          \<and> instant (ev_registrado_em p) = instant (rq_apresentada_em r) \<and> evidence_matches_digest p c = Inr True)"
  by (cases p) (auto simp: check_presentation_def sbind_Inr split: if_splits)

lemma new_challenge_state_Inr:
  assumes "new_challenge_state c CONSUMED t w = (Inr c', w')"
  shows "w' = w \<and> ch_estado c = OPEN \<and> c' = c\<lparr>ch_estado := CONSUMED, ch_encerrado_em := Some t\<rparr> \<and> valid_challenge c'"
proof -
  have w: "with_state c CONSUMED t = Inr c'" "w' = w"
    using assms by (auto simp: new_challenge_state_def split: sum.splits)
  then have "ch_estado c = OPEN" "c' = c\<lparr>ch_estado := CONSUMED, ch_encerrado_em := Some t\<rparr>" "valid_challenge c'"
    by (auto simp: with_state_def result_simps require_utc_iff challenge_post_init_iff split: if_splits)
  with w(2) show ?thesis by simp
qed

context evidence_unique
begin

lemma obtain_presentation_Inr:
  assumes "obtain_presentation U r c p w = (Inr q, w')" "valid_challenge c"
  shows "case p of Some p \<Rightarrow> q = p \<and> db w' = db w
    | None \<Rightarrow> db w' = add_evidence q (db w) \<and> fresh_evidence q (db w) \<and> valid_evidence q
        \<and> ev_registrado_em q = rq_apresentada_em r"
proof (cases p)
  case None
  then obtain k w1 where 1:
      "build_evidence (uw_secret U) (uw_presentation_id U) (ch_igreja_id c) (ch_id c) PRESENTATION k c (rq_apresentada_em r) None None = Inr q"
      "store_call (st_insert_evidence (uw_store U) q) w = (Inr (), w')"
    using assms(1) by (auto simp: obtain_presentation_def sbind_Inr)
  have "valid_evidence q \<and> ev_registrado_em q = rq_apresentada_em r"
    using 1(1) unfolding build_evidence_iff [OF assms(2)] by auto
  then show ?thesis using None insert_evidence_Inr [OF 1(2)] by simp
qed (use assms in \<open>simp add: obtain_presentation_def\<close>)

lemma stage_refusal_Inr:
  assumes "stage_refusal U r c p w = (Inr res, w')" "valid_challenge c"
    and p: "case p of None \<Rightarrow> True | Some p \<Rightarrow> p \<in> set (db_evidence (db w)) \<and> valid_evidence p
      \<and> instant (ev_registrado_em p) = instant (rq_apresentada_em r)"
  shows "\<not> or_replayed res \<and> op_result_post_init res = Inr res \<and> refusal_staged r c (db w) res (db w')"
proof -
  obtain q m rc w1 w2 w3 w4 w5 c' w6 where 1: "obtain_presentation U r c p w = (Inr q, w1)"
      "build_evidence (uw_secret U) (uw_manifestation_id U) (ch_igreja_id c) (ch_id c) MANIFESTATION (rq_chave_idempotencia r) c
         (manifested_at r) (Some (ev_id q)) (Some REFUSE_INITIAL) = Inr m"
      "receipt_post_init (refusal_receipt U r c m) = Inr rc"
      "store_call (st_insert_evidence (uw_store U) m) w1 = (Inr (), w2)"
      "st_insert_receipt (uw_store U) rc w2 = (Inr (), w3)"
      "st_transition_challenge (uw_store U) (ch_igreja_id c) (ch_id c) CONSUMED (manifested_at r) w3 = (Inr (), w4)"
      "st_flush (uw_store U) w4 = (Inr (), w5)"
      "new_challenge_state c CONSUMED (manifested_at r) w5 = (Inr c', w6)"
      "res = \<lparr>or_challenge = c', or_presentation = q, or_manifestation = Some m, or_receipt = Some rc, or_replayed = False\<rparr>"
      "w' = w6" "op_result_post_init res = Inr res"
    using assms(1)
    by (auto simp: stage_refusal_def sbind_Inr op_result_new_Inr store_call_Inr [of "st_flush (uw_store U)"]
        store_call_Inr [of "st_insert_receipt (uw_store U) _"] store_call_Inr [of "st_transition_challenge (uw_store U) _ _ _ _"])
  have db: "db w6 = close_challenge (ch_igreja_id c) (ch_id c) CONSUMED (manifested_at r) (add_receipt rc (add_evidence m (db w1)))"
    using insert_evidence_Inr [OF 1(4)] insert_receipt [OF 1(5)] transition [OF 1(6)] flush [OF 1(7)] new_challenge_state_Inr [OF 1(8)]
    by simp
  have m: "valid_evidence m" "ev_tipo m = MANIFESTATION" "ev_chave_idempotencia m = key_value (rq_chave_idempotencia r)"
      "ev_registrado_em m = manifested_at r"
    using 1(2) unfolding build_evidence_iff [OF assms(2)] by auto
  have rc: "valid_receipt rc" "rc_registrado_em rc = manifested_at r"
    using 1(3) by (auto simp: receipt_post_init_iff refusal_receipt_def)
  have q: "valid_evidence q \<and> instant (ev_registrado_em q) = instant (rq_apresentada_em r)
      \<and> (db w1 = db w \<and> q \<in> set (db_evidence (db w)) \<or> db w1 = add_evidence q (db w) \<and> fresh_evidence q (db w))"
    using obtain_presentation_Inr [OF 1(1) assms(2)] p by (cases p) auto
  have "refusal_staged r c (db w) res (db w')"
    unfolding refusal_staged_def 1(9,10) op_result.simps
    using new_challenge_state_Inr [OF 1(8)] db m rc q insert_evidence_Inr [OF 1(4)] insert_receipt_fresh [OF 1(5)] by simp blast
  then show ?thesis using 1(9,11) by simp
qed

lemma record_initial_refusal_Inr:
  assumes "record_initial_refusal U r w = (Inr res, w')"
  shows "\<exists>c d0. secured (db w) c d0 \<and> compare_challenges c (rq_desafio r) \<and> op_result_post_init res = Inr res
    \<and> (if or_replayed res then db w' = d0 \<and> or_challenge res = c \<and> or_presentation res \<in> set (db_evidence (db w))
         \<and> (\<exists>m rc. or_manifestation res = Some m \<and> m \<in> set (db_evidence (db w))
              \<and> or_receipt res = Some rc \<and> rc \<in> set (db_receipts (db w))
              \<and> ev_chave_idempotencia m = key_value (rq_chave_idempotencia r)
              \<and> compare_evidence_intent m r (Some (ev_id (or_presentation res))) = Inr True
              \<and> receipt_of_request (Some rc) m r (or_challenge res)
              \<and> instant (ev_registrado_em (or_presentation res)) = instant (rq_apresentada_em r))
       else refusal_staged r c d0 res (db w'))"
proof -
  obtain c0 a now w1 c a' post w2 k w3 m w4 p w5 w5' where 1: "preflight U r False w = (Inr (c0, a, now), w1)"
      "lock_and_revalidate U r a now True True w1 = (Inr (c, a', post), w2)"
      "evidence_by_key U c r w2 = (Inr k, w3)" "evidence_by_type U c MANIFESTATION w3 = (Inr m, w4)"
      "evidence_by_type U c PRESENTATION w4 = (Inr p, w5)" "check_presentation r c p w5 = (Inr (), w5')"
      "(case m of Some m \<Rightarrow> replay_refusal U r c k p m
        | None \<Rightarrow> if ch_estado c \<noteq> OPEN
            then (if ch_estado c = challenge_state.EXPIRED then fail CHALLENGE_EXPIRED else fail DATA_INTEGRITY)
            else if k \<noteq> None then fail IDEMPOTENCY_CONFLICT
            else sbind (ensure_not_expired c post) (\<lambda>_. stage_refusal U r c p)) w5' = (Inr res, w')"
    using assms by (auto simp: record_initial_refusal_def sbind_Inr simp del: not_None_eq split: prod.splits)
  note L = lock_and_revalidate_Inr [OF 1(2)] secured_of_lock [OF 1(2)]
  have w5': "w5' = w5" using check_presentation_Inr [OF 1(6)] by simp
  have w1: "db w1 = db w" using obeysD [OF preflight_keeps 1(1)] .
  have w5: "db w5 = db w2" "db w4 = db w2" using by_key_Inr [OF 1(3)] by_type_Inr [OF 1(4)] by_type_Inr [OF 1(5)] by simp_all
  have ev2: "db_evidence (db w2) = db_evidence (db w)" "db_receipts (db w2) = db_receipts (db w)"
    using L(2) w1 by (auto simp: secured_def)
  show ?thesis
  proof (cases m)
    case None
    then have s: "stage_refusal U r c p w5 = (Inr res, w')" "ch_estado c = OPEN"
      using 1(7) w5' by (auto simp: sbind_Inr ensure_not_expired_Inr split: if_splits)
    have "case p of None \<Rightarrow> True | Some p \<Rightarrow> p \<in> set (db_evidence (db w5)) \<and> valid_evidence p
        \<and> instant (ev_registrado_em p) = instant (rq_apresentada_em r)"
      using by_type_Inr [OF 1(5)] check_presentation_Inr [OF 1(6)] w5 by (cases p) auto
    from stage_refusal_Inr [OF s(1) _ this] L w1 w5 show ?thesis
      by (intro exI [of _ c] exI [of _ "db w2"]) auto
  next
    case (Some m')
    obtain k' p' rc w6 where R: "k = Some k'" "p = Some p'" "ch_estado c = CONSUMED" "ev_id k' = ev_id m'"
        "st_get_receipt_by_evidence (uw_store U) (ch_igreja_id c) (ev_id m') w5 = (Inr rc, w6)"
        "receipt_of_request rc m' r c" "compare_evidence_intent m' r (Some (ev_id p')) = Inr True"
        "res = \<lparr>or_challenge = c, or_presentation = p', or_manifestation = Some m', or_receipt = rc, or_replayed = True\<rparr>"
        "w' = w6" "op_result_post_init res = Inr res"
      using 1(7) Some w5'
      by (cases k; cases p) (auto simp: replay_refusal_def sbind_Inr store_call_Inr op_result_new_Inr split: if_splits)
    obtain rc' where rc: "rc = Some rc'" using R(6) by (auto simp: receipt_of_request_def split: option.splits)
    have "rc' \<in> set (db_receipts (db w))" using receipt_row R(5) rc w5 ev2 by metis
    moreover have "m' \<in> set (db_evidence (db w))" using by_type_Inr [OF 1(4)] by_key_Inr [OF 1(3)] Some ev2 by auto
    moreover have "p' \<in> set (db_evidence (db w))" using by_type_Inr [OF 1(5)] R(2) w5 ev2 by auto
    moreover have "ev_chave_idempotencia m' = key_value (rq_chave_idempotencia r)"
      using R(7) by (auto simp: compare_evidence_intent_def result_simps split: option.splits if_splits)
    moreover have "db w' = db w2" using receipt_frame R(5,9) w5 by metis
    moreover have "instant (ev_registrado_em p') = instant (rq_apresentada_em r)" using check_presentation_Inr [OF 1(6)] R(2) by simp
    ultimately show ?thesis using L w1 R rc by (intro exI [of _ c] exI [of _ "db w2"]) auto
  qed
qed

end

end
