(* ===== verification/ConsentComplete.thy ===== *)
theory ConsentComplete
  imports ConsentRuns
begin

text \<open>
  What a committed store holds: every evidence row belongs to a stored challenge and carries its
  digest; a manifestation has its presentation, its receipt and a challenge consumed at its
  instant; a consumed challenge has a manifestation, and a receipt has its own.
\<close>

definition owner :: "evidence_db \<Rightarrow> evidence \<Rightarrow> challenge \<Rightarrow> bool" where
  "owner d e c \<longleftrightarrow>
     c \<in> set (db_challenges d) \<and> ch_id c = ev_desafio_id e \<and> ch_igreja_id c = ev_igreja_id e
     \<and> ev_evidence_digest e = evidence_digest e c"

definition refusal_chain :: "evidence_db \<Rightarrow> evidence \<Rightarrow> bool" where
  "refusal_chain d m \<longleftrightarrow>
     (\<exists>c p rc. owner d m c \<and> ch_estado c = CONSUMED \<and> ch_encerrado_em c = Some (ev_registrado_em m)
        \<and> p \<in> set (db_evidence d) \<and> ev_tipo p = PRESENTATION \<and> owner d p c \<and> ev_apresentacao_id m = Some (ev_id p)
        \<and> rc \<in> set (db_receipts d) \<and> receipt_matches rc m c)"

definition unique_evidence :: "evidence list \<Rightarrow> bool" where
  "unique_evidence es \<longleftrightarrow>
     distinct (map ev_id es) \<and> distinct (map (\<lambda>e. (ev_igreja_id e, ev_chave_idempotencia e)) es)
     \<and> distinct (map (\<lambda>e. (ev_igreja_id e, ev_desafio_id e, ev_tipo e)) es)"

definition unique_challenges :: "challenge list \<Rightarrow> bool" where
  "unique_challenges cs \<longleftrightarrow>
     distinct (map ch_id cs) \<and> distinct (map (\<lambda>c. (ch_igreja_id c, ch_binding_id c, ch_interaction_id c)) cs)"

definition unique_receipts :: "consent_receipt list \<Rightarrow> bool" where
  "unique_receipts rs \<longleftrightarrow>
     distinct (map rc_id rs) \<and> distinct (map (\<lambda>r. (rc_igreja_id r, rc_evidencia_id r)) rs)"

definition rows_unique :: "evidence_db \<Rightarrow> bool" where
  "rows_unique d \<longleftrightarrow>
     unique_challenges (db_challenges d) \<and> unique_evidence (db_evidence d) \<and> unique_receipts (db_receipts d)"

definition complete_db :: "evidence_db \<Rightarrow> bool" where
  "complete_db d \<longleftrightarrow>
     rows_unique d
     \<and> (\<forall>c \<in> set (db_challenges d). valid_challenge c
          \<and> (ch_estado c = CONSUMED \<longrightarrow> (\<exists>m \<in> set (db_evidence d). ev_tipo m = MANIFESTATION \<and> owner d m c)))
     \<and> (\<forall>e \<in> set (db_evidence d). valid_evidence e \<and> (\<exists>c. owner d e c)
          \<and> (ev_tipo e = MANIFESTATION \<longrightarrow> refusal_chain d e))
     \<and> (\<forall>rc \<in> set (db_receipts d). valid_receipt rc
          \<and> (\<exists>m \<in> set (db_evidence d). ev_tipo m = MANIFESTATION \<and> rc_evidencia_id rc = ev_id m \<and> rc_igreja_id rc = ev_igreja_id m))"

lemma rows_unique_add:
  "rows_unique d \<Longrightarrow> fresh_challenge c d \<Longrightarrow> rows_unique (add_challenge c d)"
  "rows_unique d \<Longrightarrow> fresh_evidence e d \<Longrightarrow> rows_unique (add_evidence e d)"
  "rows_unique d \<Longrightarrow> fresh_receipt r d \<Longrightarrow> rows_unique (add_receipt r d)"
  by (auto simp: rows_unique_def unique_challenges_def unique_evidence_def unique_receipts_def fresh_challenge_def
      fresh_evidence_def fresh_receipt_def)

lemma map_close:
  "(\<And>c. f (c\<lparr>ch_estado := st, ch_encerrado_em := Some t\<rparr>) = f c) \<Longrightarrow>
    map f (db_challenges (close_challenge g i st t d)) = map f (db_challenges d)"
  by (simp add: close_challenge_def)

lemma rows_unique_close [simp]: "rows_unique (close_challenge g i st t d) = rows_unique d"
  by (simp add: rows_unique_def unique_challenges_def map_close)

lemma distinct_map_filter_of: "distinct (map f xs) \<Longrightarrow> distinct (map f (filter P xs))"
  by (auto simp: distinct_map intro: inj_on_subset)

lemma rows_unique_challenge: "rows_unique d \<Longrightarrow> distinct (map ch_id (db_challenges d))"
  by (simp add: rows_unique_def unique_challenges_def)

lemma owner_add [simp]: "owner (add_evidence f d) e c \<longleftrightarrow> owner d e c" "owner (add_receipt rc d) e c \<longleftrightarrow> owner d e c"
  by (simp_all add: owner_def)

lemma owner_add_eq [simp]: "owner (add_evidence f d) e = owner d e" "owner (add_receipt rc d) e = owner d e"
  by (simp_all add: fun_eq_iff)

lemma owner_add_challenge: "owner d e c \<Longrightarrow> owner (add_challenge c' d) e c"
  by (simp add: owner_def)

lemma complete_add_challenge:
  assumes "complete_db d" "valid_challenge c" "ch_estado c = OPEN" "fresh_challenge c d"
  shows "complete_db (add_challenge c d)"
proof -
  have "refusal_chain (add_challenge c d) m" if "refusal_chain d m" for m
    using that owner_add_challenge unfolding refusal_chain_def by auto blast
  then show ?thesis
    using assms owner_add_challenge rows_unique_add(1) unfolding complete_db_def by auto blast+
qed

lemma complete_add_presentation:
  assumes "complete_db d" "fresh_evidence e d" "valid_evidence e" "ev_tipo e = PRESENTATION" "owner d e c"
  shows "complete_db (add_evidence e d)"
proof -
  have "refusal_chain (add_evidence e d) m" if "refusal_chain d m" for m
    using that unfolding refusal_chain_def by auto
  then show ?thesis
    using assms rows_unique_add(2) [of d e] unfolding complete_db_def by auto
qed

text \<open>Closing a challenge keeps identities, contents and digests.\<close>

lemma close_member:
  assumes "distinct (map ch_id (db_challenges d))" "c \<in> set (db_challenges d)" "ch_estado c = OPEN"
  shows "set (db_challenges (close_challenge (ch_igreja_id c) (ch_id c) st t d))
    = insert (c\<lparr>ch_estado := st, ch_encerrado_em := Some t\<rparr>) (set (db_challenges d) - {c})"
proof -
  have "is_open_row (ch_igreja_id c) (ch_id c) x \<longleftrightarrow> x = c" if "x \<in> set (db_challenges d)" for x
    using assms that by (auto simp: is_open_row_def distinct_map inj_on_def)
  then show ?thesis using assms(2) by (auto simp: close_challenge_def image_iff)
qed

lemma owner_close:
  assumes "distinct (map ch_id (db_challenges d))" "c \<in> set (db_challenges d)" "ch_estado c = OPEN" "owner d e x"
  shows "owner (close_challenge (ch_igreja_id c) (ch_id c) st t d) e
    (if x = c then c\<lparr>ch_estado := st, ch_encerrado_em := Some t\<rparr> else x)"
  using assms(4) by (auto simp: owner_def close_member [OF assms(1-3)])

lemma complete_refusal:
  assumes d: "complete_db d" "c \<in> set (db_challenges d)" and s: "refusal_staged r c d res d'"
    and res: "op_result_post_init res = Inr res"
  shows "complete_db d'"
proof -
  define t where "t = manifested_at r"
  define c' where "c' = c\<lparr>ch_estado := CONSUMED, ch_encerrado_em := Some t\<rparr>"
  obtain p m rc d1 where o: "ch_estado c = OPEN" "or_presentation res = p" "or_manifestation res = Some m" "or_receipt res = Some rc"
      "or_challenge res = c'" "valid_challenge c'"
      "d1 = d \<and> p \<in> set (db_evidence d) \<or> d1 = add_evidence p d \<and> fresh_evidence p d"
      "fresh_evidence m d1" "fresh_receipt rc (add_evidence m d1)" "valid_evidence p" "valid_evidence m" "valid_receipt rc" "ev_tipo m = MANIFESTATION"
      "ev_registrado_em m = t" "d' = close_challenge (ch_igreja_id c) (ch_id c) CONSUMED t (add_receipt rc (add_evidence m d1))"
    using s unfolding refusal_staged_def c'_def [symmetric] t_def [symmetric] by blast
  note f = op_result_facts [OF res, unfolded o, simplified]
  have pm: "ev_desafio_id p = ch_id c" "ev_igreja_id p = ch_igreja_id c" "ev_evidence_digest p = evidence_digest p c"
    "ev_desafio_id m = ch_id c" "ev_igreja_id m = ch_igreja_id c" "ev_evidence_digest m = evidence_digest m c"
    using matches_facts [OF o(10,6)] matches_facts [OF o(11,6)] f by (simp_all add: c'_def)
  have "complete_db d1"
    using o(7) complete_add_presentation [OF d(1), of p c] o(10) f pm d by (auto simp: owner_def)
  moreover have c1: "c \<in> set (db_challenges d1)" and p1: "p \<in> set (db_evidence d1)" using o(7) d(2) by auto
  ultimately have u: "rows_unique d1"
    and ch: "\<And>x. x \<in> set (db_challenges d1) \<Longrightarrow> valid_challenge x
          \<and> (ch_estado x = CONSUMED \<longrightarrow> (\<exists>m \<in> set (db_evidence d1). ev_tipo m = MANIFESTATION \<and> owner d1 m x))"
    and ev: "\<And>e. e \<in> set (db_evidence d1) \<Longrightarrow> valid_evidence e \<and> (\<exists>c. owner d1 e c) \<and> (ev_tipo e = MANIFESTATION \<longrightarrow> refusal_chain d1 e)"
    and rs: "\<And>q. q \<in> set (db_receipts d1) \<Longrightarrow> valid_receipt q
          \<and> (\<exists>m \<in> set (db_evidence d1). ev_tipo m = MANIFESTATION \<and> rc_evidencia_id q = ev_id m \<and> rc_igreja_id q = ev_igreja_id m)"
    unfolding complete_db_def by blast+
  note dist = rows_unique_challenge [OF u]
  have e': "db_evidence d' = db_evidence d1 @ [m]" "db_receipts d' = db_receipts d1 @ [rc]" by (simp_all add: o(15))
  have C: "set (db_challenges d') = insert c' (set (db_challenges d1) - {c})"
    using close_member [of "add_receipt rc (add_evidence m d1)" c CONSUMED t] dist c1 o(1) by (simp add: o(15) c'_def)
  have own: "owner d' e (if x = c then c' else x)" if "owner d1 e x" for e x
    using owner_close [of "add_receipt rc (add_evidence m d1)" c e x CONSUMED t] dist c1 o(1) that
    unfolding o(15) c'_def by simp
  have mc: "owner d' m c'" "owner d' p c'" using own [of m c] own [of p c] pm c1 by (simp_all add: owner_def)
  have keep: "refusal_chain d' e" if "refusal_chain d1 e" for e
  proof -
    obtain x q k where x: "owner d1 e x" "ch_estado x = CONSUMED" "ch_encerrado_em x = Some (ev_registrado_em e)" "q \<in> set (db_evidence d1)"
        "ev_tipo q = PRESENTATION" "owner d1 q x" "ev_apresentacao_id e = Some (ev_id q)" "k \<in> set (db_receipts d1)" "receipt_matches k e x"
      using \<open>refusal_chain d1 e\<close> by (auto simp: refusal_chain_def)
    then have "x \<noteq> c" using o(1) by auto
    then show ?thesis unfolding refusal_chain_def using x own [of e x] own [of q x] e' by auto
  qed
  have new: "refusal_chain d' m"
    unfolding refusal_chain_def using mc f o(13,14) p1 e'
    by (intro exI [of _ c'] exI [of _ p] exI [of _ rc]) (auto simp: c'_def receipt_matches_def)
  have "rows_unique d'" using rows_unique_add(2,3) u o(8,9) by (simp add: o(15))
  moreover have "valid_challenge x \<and> (ch_estado x = CONSUMED \<longrightarrow> (\<exists>m \<in> set (db_evidence d'). ev_tipo m = MANIFESTATION \<and> owner d' m x))"
    if x: "x \<in> set (db_challenges d')" for x
  proof (cases "x = c'")
    case True
    then show ?thesis using o(6) mc(1) o(13) e' by auto
  next
    case False
    then have "x \<in> set (db_challenges d1)" "x \<noteq> c" using x C by auto
    then show ?thesis using ch [of x] own e' by fastforce
  qed
  moreover have "valid_evidence e \<and> (\<exists>c. owner d' e c) \<and> (ev_tipo e = MANIFESTATION \<longrightarrow> refusal_chain d' e)"
    if e: "e \<in> set (db_evidence d')" for e
    using e ev [of e] own keep new mc(1) o(11) e' by auto
  moreover have "valid_receipt q
      \<and> (\<exists>m \<in> set (db_evidence d'). ev_tipo m = MANIFESTATION \<and> rc_evidencia_id q = ev_id m \<and> rc_igreja_id q = ev_igreja_id m)"
    if q: "q \<in> set (db_receipts d')" for q
    using q rs [of q] f o(12,13) e' by (auto simp: receipt_matches_def)
  ultimately show ?thesis unfolding complete_db_def by blast
qed

context evidence_unique
begin

lemma secured_complete: "complete_db d \<Longrightarrow> secured d c d0 \<Longrightarrow> complete_db d0 \<and> c \<in> set (db_challenges d0)"
  by (auto simp: secured_def intro: complete_add_challenge)

lemma record_presentation_complete:
  assumes "complete_db (db w)" "record_presentation U r w = (Inr res, w')"
  shows "complete_db (db w')"
proof -
  obtain d0 where d0: "secured (db w) (or_challenge res) d0" "valid_evidence (or_presentation res)" "op_result_post_init res = Inr res"
      "if or_replayed res then db w' = d0 \<and> or_presentation res \<in> set (db_evidence (db w))
       else ch_estado (or_challenge res) = OPEN \<and> db w' = add_evidence (or_presentation res) d0
         \<and> fresh_evidence (or_presentation res) d0"
    using record_presentation_Inr [OF assms(2)] by blast
  note c = secured_complete [OF assms(1) d0(1)]
  have v: "valid_challenge (or_challenge res)" using d0(1) by (simp add: secured_def)
  have "owner d0 (or_presentation res) (or_challenge res)"
    using op_result_facts [OF d0(3)] matches_facts [OF d0(2) v] c by (auto simp: owner_def)
  then show ?thesis
    using complete_add_presentation [of d0 "or_presentation res" "or_challenge res"] c d0 op_result_facts [OF d0(3)]
    by (cases "or_replayed res") auto
qed

lemma record_initial_refusal_complete:
  assumes "complete_db (db w)" "record_initial_refusal U r w = (Inr res, w')"
  shows "complete_db (db w')"
proof -
  obtain c d0 where s: "secured (db w) c d0" "op_result_post_init res = Inr res"
      "if or_replayed res then db w' = d0 else refusal_staged r c d0 res (db w')"
    using record_initial_refusal_Inr [OF assms(2)] by (auto split: if_splits)
  with secured_complete [OF assms(1) s(1)] complete_refusal [of d0 c r res "db w'"] show ?thesis
    by (cases "or_replayed res") auto
qed

end

text \<open>
  Erasing a person: the foreign keys of the three tables cascade, and nothing else deletes.  The
  ledger is another component's and is left as it is here.
\<close>

definition of_person :: "uuid \<Rightarrow> uuid \<Rightarrow> challenge \<Rightarrow> bool" where
  "of_person g p c \<longleftrightarrow> ch_igreja_id c = g \<and> ch_pessoa_id c = p"

definition erased_evidence :: "uuid \<Rightarrow> uuid \<Rightarrow> evidence_db \<Rightarrow> evidence \<Rightarrow> bool" where
  "erased_evidence g p d e \<longleftrightarrow>
     (\<exists>c \<in> set (db_challenges d). of_person g p c \<and> ch_igreja_id c = ev_igreja_id e \<and> ch_id c = ev_desafio_id e)"

definition erase_person :: "uuid \<Rightarrow> uuid \<Rightarrow> evidence_db \<Rightarrow> evidence_db" where
  "erase_person g p d =
     d\<lparr>db_challenges := filter (\<lambda>c. \<not> of_person g p c) (db_challenges d),
       db_evidence := filter (\<lambda>e. \<not> erased_evidence g p d e) (db_evidence d),
       db_receipts := filter (\<lambda>r. \<not> (\<exists>e \<in> set (db_evidence d). erased_evidence g p d e \<and> ev_igreja_id e = rc_igreja_id r
                                       \<and> ev_id e = rc_evidencia_id r)) (db_receipts d)\<rparr>"

lemma rows_unique_erase: "rows_unique d \<Longrightarrow> rows_unique (erase_person g p d)"
  by (simp add: rows_unique_def unique_challenges_def unique_evidence_def unique_receipts_def erase_person_def distinct_map_filter_of)

lemma complete_erase:
  assumes d: "complete_db d"
  shows "complete_db (erase_person g p d)"
proof -
  let ?d = "erase_person g p d"
  have u: "rows_unique d"
    and ch: "\<And>x. x \<in> set (db_challenges d) \<Longrightarrow> valid_challenge x
          \<and> (ch_estado x = CONSUMED \<longrightarrow> (\<exists>m \<in> set (db_evidence d). ev_tipo m = MANIFESTATION \<and> owner d m x))"
    and ev: "\<And>e. e \<in> set (db_evidence d) \<Longrightarrow> valid_evidence e \<and> (\<exists>c. owner d e c) \<and> (ev_tipo e = MANIFESTATION \<longrightarrow> refusal_chain d e)"
    and rs: "\<And>q. q \<in> set (db_receipts d) \<Longrightarrow> valid_receipt q
          \<and> (\<exists>m \<in> set (db_evidence d). ev_tipo m = MANIFESTATION \<and> rc_evidencia_id q = ev_id m \<and> rc_igreja_id q = ev_igreja_id m)"
    using d unfolding complete_db_def by blast+
  note dist = rows_unique_challenge [OF u]
  have erased: "erased_evidence g p d e \<longleftrightarrow> of_person g p c" if "owner d e c" for e c
    using that dist by (auto simp: owner_def erased_evidence_def distinct_map inj_on_def)
  have own: "owner ?d e c \<longleftrightarrow> owner d e c \<and> \<not> of_person g p c" for e c
    by (auto simp: owner_def erase_person_def)
  have evs: "e \<in> set (db_evidence ?d) \<longleftrightarrow> e \<in> set (db_evidence d) \<and> \<not> erased_evidence g p d e" for e
    by (simp add: erase_person_def)
  have same: "e = f" if "e \<in> set (db_evidence d)" "f \<in> set (db_evidence d)" "ev_id e = ev_id f" for e f
    using u that by (auto simp: rows_unique_def unique_evidence_def distinct_map inj_on_def)
  have rcs: "q \<in> set (db_receipts ?d)" if "q \<in> set (db_receipts d)" "e \<in> set (db_evidence d)" "\<not> erased_evidence g p d e" "rc_evidencia_id q = ev_id e" for q e
    using that same [of _ e] by (auto simp: erase_person_def)
  have chain: "refusal_chain ?d m" if m: "refusal_chain d m" "m \<in> set (db_evidence d)" "\<not> erased_evidence g p d m" for m
  proof -
    obtain c q k where c: "owner d m c" "ch_estado c = CONSUMED" "ch_encerrado_em c = Some (ev_registrado_em m)" "q \<in> set (db_evidence d)"
        "ev_tipo q = PRESENTATION" "owner d q c" "ev_apresentacao_id m = Some (ev_id q)" "k \<in> set (db_receipts d)" "receipt_matches k m c"
      using m(1) by (auto simp: refusal_chain_def)
    moreover have "k \<in> set (db_receipts ?d)" using rcs [OF c(8) m(2,3)] c(9) by (simp add: receipt_matches_def)
    moreover have "\<not> of_person g p c" using m(3) erased [OF c(1)] by simp
    ultimately show ?thesis unfolding refusal_chain_def using own evs erased [OF c(6)] by blast
  qed
  have "rows_unique ?d" using u by (rule rows_unique_erase)
  moreover have "valid_challenge x \<and> (ch_estado x = CONSUMED \<longrightarrow> (\<exists>m \<in> set (db_evidence ?d). ev_tipo m = MANIFESTATION \<and> owner ?d m x))"
    if "x \<in> set (db_challenges ?d)" for x
    using that ch [of x] own evs erased [of _ x] by (auto simp: erase_person_def)
  moreover have "valid_evidence e \<and> (\<exists>c. owner ?d e c) \<and> (ev_tipo e = MANIFESTATION \<longrightarrow> refusal_chain ?d e)"
    if "e \<in> set (db_evidence ?d)" for e
    using that ev [of e] own evs [of e] erased chain by blast
  moreover have "valid_receipt q
      \<and> (\<exists>m \<in> set (db_evidence ?d). ev_tipo m = MANIFESTATION \<and> rc_evidencia_id q = ev_id m \<and> rc_igreja_id q = ev_igreja_id m)"
    if q: "q \<in> set (db_receipts ?d)" for q
  proof -
    have q: "q \<in> set (db_receipts d)"
      "\<not> (\<exists>e \<in> set (db_evidence d). erased_evidence g p d e \<and> ev_igreja_id e = rc_igreja_id q \<and> ev_id e = rc_evidencia_id q)"
      using \<open>q \<in> set (db_receipts ?d)\<close> by (simp_all add: erase_person_def)
    from rs [OF q(1)] obtain m where "valid_receipt q" "m \<in> set (db_evidence d)" "ev_tipo m = MANIFESTATION" "rc_evidencia_id q = ev_id m"
        "rc_igreja_id q = ev_igreja_id m"
      by blast
    with q(2) show ?thesis by (intro conjI bexI [of _ m]) (auto simp: evs)
  qed
  ultimately show ?thesis unfolding complete_db_def by blast
qed

lemma complete_ledger [simp]: "complete_db (d\<lparr>db_ledger := l\<rparr>) = complete_db d"
  by (simp add: complete_db_def refusal_chain_def owner_def rows_unique_def)

end
