(* ===== verification/ConsentPostgres.thy ===== *)
theory ConsentPostgres
  imports ConsentComplete
begin

text \<open>
  The PostgreSQL adapter of the evidence store, \<open>services/consent_evidence_store_postgres.py\<close>, over
  a session whose tables carry the constraints, triggers and row policies of
  \<open>migrations/20260909_004005_consent_evidence_store_lab.sql\<close>, and the tenant barrier of
  \<open>db/rls_observability.py\<close>.  The adapter provides the contract of \<open>ConsentLaws\<close>: the
  interpretation at the end is what carries every lemma of the unit of work over to it.

  The model is one session: what other sessions commit while it waits for a lock is not in it.
  Times are stored as instants and read back in UTC; advisory locks are named by the text that is
  hashed, so collisions of the hash are left out.
\<close>

section \<open>The session\<close>

datatype pg_lock = Advisory pystr | RowLock uuid uuid

text \<open>
  \<open>pg_lock_scope\<close> is the entry of \<open>session.info\<close>: the transaction it was made in, the key and the
  stream.  \<open>pg_failed\<close> is the state in which PostgreSQL refuses every statement until rollback.
\<close>

record pg =
  pg_transaction :: "nat option"
  pg_lock_scope :: "(nat \<times> pystr \<times> pystr option) option"
  pg_read_only :: bool
  pg_xid_assigned :: bool
  pg_isolation :: pystr
  pg_role :: "pystr option"
  pg_igreja :: "uuid option"
  pg_tenant_guc :: "pystr option"
  pg_failed :: bool
  pg_held :: "pg_lock list"
  pg_people :: "(uuid \<times> uuid) list"
  pg_db :: evidence_db

definition sql :: "(pg, 'a) op \<Rightarrow> (pg, 'a) op" where
  "sql stmt s =
     (if pg_failed s then (Inl DriverRaised, s)
      else case stmt s of (Inl e, _) \<Rightarrow> (Inl e, s\<lparr>pg_failed := True\<rparr>) | (Inr x, s') \<Rightarrow> (Inr x, s'))"

definition select_value :: "(pg \<Rightarrow> 'a) \<Rightarrow> (pg, 'a) op" where
  "select_value f = sql (\<lambda>s. (Inr (f s), s))"

definition acquire :: "pg_lock \<Rightarrow> pg \<Rightarrow> pg" where
  "acquire l s = (if l \<in> set (pg_held s) then s else s\<lparr>pg_held := pg_held s @ [l]\<rparr>)"

definition one_or_none :: "'a list \<Rightarrow> (pg, 'a option) op" where
  "one_or_none rows = (case rows of [] \<Rightarrow> ret None | [x] \<Rightarrow> ret (Some x) | _ \<Rightarrow> raising DriverRaised)"

section \<open>The tenant barrier\<close>

definition TENANT_ROLE :: pystr where "TENANT_ROLE = u ''authenticated''"

record tenant_scope_signal =
  ts_role :: "pystr option"
  ts_igreja_id :: "pystr option"
  ts_tenant_guc :: "pystr option"
  ts_is_scoped :: bool

text \<open>An empty setting reads as none.\<close>

definition nullif_empty :: "pystr option \<Rightarrow> pystr option" where
  "nullif_empty v = (if v = Some [] then None else v)"

definition probe_tenant_scope :: "(pg, tenant_scope_signal) op" where
  "probe_tenant_scope =
     sbind (select_value (\<lambda>s. (pg_role s, pg_igreja s, nullif_empty (pg_tenant_guc s)))) (\<lambda>(role, igreja, guc).
       let igreja_id = map_option str_of_uuid igreja in
       ret \<lparr>ts_role = role, ts_igreja_id = igreja_id, ts_tenant_guc = guc,
            ts_is_scoped = (role = Some TENANT_ROLE \<and> igreja_id \<noteq> None)\<rparr>)"

text \<open>The expected tenant is the text of an identifier, which \<open>strip\<close> leaves alone.\<close>

definition verify_tenant_scope :: "uuid \<Rightarrow> (pg, tenant_scope_signal) op" where
  "verify_tenant_scope expected =
     sbind probe_tenant_scope (\<lambda>signal.
       let matches_expected = (ts_igreja_id signal = Some (str_of_uuid expected));
           guc_matches_expected = (ts_tenant_guc signal = Some (str_of_uuid expected)) in
       if \<not> ts_is_scoped signal \<or> \<not> matches_expected \<or> \<not> guc_matches_expected then raising DriverRaised
       else ret signal)"

text \<open>The session the barrier lets pass.\<close>

definition tenant_session :: "pg \<Rightarrow> uuid \<Rightarrow> bool" where
  "tenant_session s g \<longleftrightarrow>
     pg_role s = Some TENANT_ROLE \<and> pg_igreja s = Some g \<and> pg_tenant_guc s = Some (str_of_uuid g)"

lemma str_of_uuid_nonempty [simp]: "str_of_uuid g \<noteq> []"
  by (simp add: str_of_uuid_def Let_def)

lemma verify_tenant_scope_cases:
  "verify_tenant_scope g s =
    (if pg_failed s \<or> \<not> tenant_session s g then (Inl DriverRaised, s)
     else (Inr \<lparr>ts_role = pg_role s, ts_igreja_id = map_option str_of_uuid (pg_igreja s), ts_tenant_guc = pg_tenant_guc s,
              ts_is_scoped = True\<rparr>, s))"
  by (auto simp: verify_tenant_scope_def probe_tenant_scope_def select_value_def sql_def sbind_def tenant_session_def
      nullif_empty_def str_of_uuid_inj Let_def)

text \<open>
  The restrictive row policy: a row of a tenant is seen and written under the setting of that
  tenant, or under the connection role, which bypasses row security.
\<close>

definition visible :: "pg \<Rightarrow> uuid \<Rightarrow> bool" where
  "visible s g \<longleftrightarrow> pg_role s \<noteq> Some TENANT_ROLE \<or> pg_tenant_guc s = Some (str_of_uuid g)"

section \<open>Transaction and locks\<close>

definition transaction_active :: "(pg, bool) op" where
  "transaction_active s = (Inr (pg_transaction s \<noteq> None), s)"

definition pg_require_tenant_scope :: "uuid \<Rightarrow> (pg, unit) op" where
  "pg_require_tenant_scope g = sbind (verify_tenant_scope g) (\<lambda>_. ret ())"

definition require_readonly_observation :: "(pg, unit) op" where
  "require_readonly_observation =
     sbind transaction_active (\<lambda>active.
       if \<not> active then raising DriverRaised
       else sbind (select_value pg_read_only) (\<lambda>on.
         if \<not> on then raising DriverRaised
         else sbind (select_value pg_xid_assigned) (\<lambda>assigned.
           if assigned then raising DriverRaised else ret ())))"

definition advisory_lock :: "pystr \<Rightarrow> (pg, unit) op" where
  "advisory_lock t = sql (\<lambda>s. (Inr (), acquire (Advisory t) s))"

definition key_lock_text :: "uuid \<Rightarrow> opaque_key \<Rightarrow> pystr" where
  "key_lock_text g k = u ''purpose-consent-idempotency:'' @ str_of_uuid g @ u '':'' @ key_value k"

definition stream_lock_text :: "uuid \<Rightarrow> uuid \<Rightarrow> purpose \<Rightarrow> pystr" where
  "stream_lock_text g p f = str_of_uuid g @ u '':'' @ str_of_uuid p @ u '':'' @ purpose_value f"

definition enter_key_scope :: "nat \<Rightarrow> pystr \<Rightarrow> (pg, unit) op" where
  "enter_key_scope t key s =
     (case pg_lock_scope s of
        Some (prior, prior_key, _) \<Rightarrow>
          if prior = t then (if prior_key \<noteq> key then raising DriverRaised s else ret () s)
          else ret () (s\<lparr>pg_lock_scope := Some (t, key, None)\<rparr>)
      | None \<Rightarrow> ret () (s\<lparr>pg_lock_scope := Some (t, key, None)\<rparr>))"

definition pg_lock_idempotency_key :: "bytes \<Rightarrow> uuid \<Rightarrow> opaque_key \<Rightarrow> (pg, unit) op" where
  "pg_lock_idempotency_key secret g k s =
     (if \<not> was_server_minted_in_this_process secret k then raising DriverRaised s
      else case pg_transaction s of
        None \<Rightarrow> raising DriverRaised s
      | Some t \<Rightarrow>
          sbind (select_value pg_isolation) (\<lambda>isolation.
            if isolation \<noteq> u ''read committed'' then raising DriverRaised
            else sbind (enter_key_scope t (key_lock_text g k)) (\<lambda>_. advisory_lock (key_lock_text g k))) s)"

definition enter_stream_scope :: "pystr \<Rightarrow> (pg, unit) op" where
  "enter_stream_scope stream s =
     (case pg_lock_scope s of
        None \<Rightarrow> raising DriverRaised s
      | Some (t, key, prior) \<Rightarrow>
          if pg_transaction s \<noteq> Some t then raising DriverRaised s
          else if prior \<noteq> None \<and> prior \<noteq> Some stream then raising DriverRaised s
          else ret () (s\<lparr>pg_lock_scope := Some (t, key, Some stream)\<rparr>))"

definition pg_lock_ledger_stream :: "uuid \<Rightarrow> uuid \<Rightarrow> purpose \<Rightarrow> (pg, unit) op" where
  "pg_lock_ledger_stream g p f =
     sbind (enter_stream_scope (stream_lock_text g p f)) (\<lambda>_. advisory_lock (stream_lock_text g p f))"

text \<open>
  \<open>select ... for update\<close> obeys the update policy, so the tenant role locks open rows only; a
  read-only transaction refuses it.
\<close>

definition pg_lock_challenge :: "uuid \<Rightarrow> uuid \<Rightarrow> (pg, unit) op" where
  "pg_lock_challenge g i =
     sql (\<lambda>s. if pg_read_only s then (Inl DriverRaised, s)
        else if (\<exists>c \<in> set (db_challenges (pg_db s)). ch_igreja_id c = g \<and> ch_id c = i \<and> visible s g
                   \<and> (pg_role s = Some TENANT_ROLE \<longrightarrow> ch_estado c = OPEN))
        then (Inr (), (acquire (RowLock g i) s)\<lparr>pg_xid_assigned := True\<rparr>)
        else (Inr (), s))"

section \<open>Reads\<close>

definition challenge_of_row :: "challenge option \<Rightarrow> (pg, challenge option) op" where
  "challenge_of_row row =
     (case row of None \<Rightarrow> ret None | Some c \<Rightarrow> sbind (domain (challenge_post_init c)) (\<lambda>c. ret (Some c)))"

definition evidence_of_row :: "evidence option \<Rightarrow> (pg, evidence option) op" where
  "evidence_of_row row =
     (case row of None \<Rightarrow> ret None | Some e \<Rightarrow> sbind (domain (evidence_post_init e)) (\<lambda>e. ret (Some e)))"

definition receipt_of_row :: "consent_receipt option \<Rightarrow> (pg, consent_receipt option) op" where
  "receipt_of_row row =
     (case row of None \<Rightarrow> ret None | Some r \<Rightarrow> sbind (domain (receipt_post_init r)) (\<lambda>r. ret (Some r)))"

definition select_one :: "(pg \<Rightarrow> 'a list) \<Rightarrow> (pg, 'a option) op" where
  "select_one f = sbind (select_value f) one_or_none"

definition pg_get_challenge :: "uuid \<Rightarrow> uuid \<Rightarrow> (pg, challenge option) op" where
  "pg_get_challenge g i =
     sbind (select_one (\<lambda>s. filter (\<lambda>c. visible s g \<and> ch_igreja_id c = g \<and> ch_id c = i) (db_challenges (pg_db s))))
       challenge_of_row"

definition pg_get_challenge_by_binding_interaction :: "uuid \<Rightarrow> uuid \<Rightarrow> uuid \<Rightarrow> (pg, challenge option) op" where
  "pg_get_challenge_by_binding_interaction g b i =
     sbind (select_one (\<lambda>s. filter (\<lambda>c. visible s g \<and> ch_igreja_id c = g \<and> ch_binding_id c = b \<and> ch_interaction_id c = i)
                               (db_challenges (pg_db s))))
       challenge_of_row"

definition pg_get_evidence_by_idempotency :: "uuid \<Rightarrow> opaque_key \<Rightarrow> (pg, evidence option) op" where
  "pg_get_evidence_by_idempotency g k =
     sbind (domain (require_persisted_idempotency_key (key_value k))) (\<lambda>key.
     sbind (select_one (\<lambda>s. filter (\<lambda>e. visible s g \<and> ev_igreja_id e = g \<and> ev_chave_idempotencia e = key)
                               (db_evidence (pg_db s))))
       evidence_of_row)"

definition pg_get_evidence_by_challenge_type :: "uuid \<Rightarrow> uuid \<Rightarrow> evidence_type \<Rightarrow> (pg, evidence option) op" where
  "pg_get_evidence_by_challenge_type g i t =
     sbind (select_one (\<lambda>s. filter (\<lambda>e. visible s g \<and> ev_igreja_id e = g \<and> ev_desafio_id e = i \<and> ev_tipo e = t)
                               (db_evidence (pg_db s))))
       evidence_of_row"

definition pg_get_receipt_by_evidence :: "uuid \<Rightarrow> uuid \<Rightarrow> (pg, consent_receipt option) op" where
  "pg_get_receipt_by_evidence g i =
     sbind (select_one (\<lambda>s. filter (\<lambda>r. visible s g \<and> rc_igreja_id r = g \<and> rc_evidencia_id r = i) (db_receipts (pg_db s))))
       receipt_of_row"

text \<open>\<open>order by sequencia desc limit 1\<close>.\<close>

definition latest_event :: "ledger_event list \<Rightarrow> ledger_event option" where
  "latest_event evs =
     fold (\<lambda>e best. case best of None \<Rightarrow> Some e | Some b \<Rightarrow> if le_sequencia b < le_sequencia e then Some e else best) evs None"

fun state_of_estado :: "ledger_estado \<Rightarrow> ledger_state" where
  "state_of_estado CONCEDIDO = GRANTED"
| "state_of_estado RETIRADO = WITHDRAWN"

definition pg_get_ledger_state :: "uuid \<Rightarrow> uuid \<Rightarrow> purpose \<Rightarrow> (pg, ledger_state \<times> uuid option) op" where
  "pg_get_ledger_state g p f =
     sbind (select_value (\<lambda>s. latest_event (filter (\<lambda>e. visible s g \<and> le_igreja_id e = g \<and> le_pessoa_id e = p
                                                \<and> le_finalidade e = f) (db_ledger (pg_db s)))))
       (\<lambda>row. case row of None \<Rightarrow> ret (ABSENT, None) | Some e \<Rightarrow> ret (state_of_estado (le_estado e), Some (le_id e)))"

section \<open>Writes\<close>

text \<open>The unique constraints of a challenge: its identifier, and its interaction within the tenant.\<close>

definition challenge_conflict :: "challenge \<Rightarrow> challenge list \<Rightarrow> bool" where
  "challenge_conflict c rows \<longleftrightarrow>
     (\<exists>d \<in> set rows. ch_id d = ch_id c
        \<or> (ch_igreja_id d = ch_igreja_id c \<and> ch_binding_id d = ch_binding_id c \<and> ch_interaction_id d = ch_interaction_id c))"

text \<open>
  The validating construction, the insert trigger, the row policy, \<open>on conflict do nothing\<close> and the
  reference to the person.  The check constraints repeat the construction checks.
\<close>

definition pg_insert_challenge :: "challenge \<Rightarrow> (pg, bool) op" where
  "pg_insert_challenge c =
     sbind (domain (challenge_post_init c)) (\<lambda>c.
       sql (\<lambda>s. if pg_read_only s \<or> ch_estado c \<noteq> OPEN \<or> ch_encerrado_em c \<noteq> None \<or> \<not> visible s (ch_igreja_id c)
            then (Inl DriverRaised, s)
            else if challenge_conflict c (db_challenges (pg_db s)) then (Inr False, s)
            else if (ch_igreja_id c, ch_pessoa_id c) \<notin> set (pg_people s) then (Inl DriverRaised, s)
            else (Inr True, (acquire (RowLock (ch_igreja_id c) (ch_id c)) s)
                              \<lparr>pg_db := add_challenge c (pg_db s), pg_xid_assigned := True\<rparr>)))"

text \<open>
  The insert trigger of evidence: an open challenge of the tenant at whose instants the row fits,
  and for a manifestation its presentation under the same challenge, not after it.
\<close>

definition evidence_insert_valid :: "pg \<Rightarrow> evidence \<Rightarrow> bool" where
  "evidence_insert_valid s e \<longleftrightarrow>
     (\<exists>c \<in> set (db_challenges (pg_db s)). ch_igreja_id c = ev_igreja_id e \<and> ch_id c = ev_desafio_id e \<and> ch_estado c = OPEN
        \<and> visible s (ev_igreja_id e)
        \<and> instant (ch_criado_em c) \<le> instant (ev_registrado_em e) \<and> instant (ev_registrado_em e) < instant (ch_expira_em c))
     \<and> (case ev_tipo e of
          PRESENTATION \<Rightarrow> ev_apresentacao_id e = None \<and> ev_acao e = None
        | MANIFESTATION \<Rightarrow> ev_acao e = Some REFUSE_INITIAL
            \<and> (\<exists>p \<in> set (db_evidence (pg_db s)). ev_igreja_id p = ev_igreja_id e \<and> ev_desafio_id p = ev_desafio_id e
                 \<and> ev_apresentacao_id e = Some (ev_id p) \<and> ev_tipo p = PRESENTATION
                 \<and> instant (ev_registrado_em p) \<le> instant (ev_registrado_em e)))"

definition evidence_conflict :: "evidence \<Rightarrow> evidence list \<Rightarrow> bool" where
  "evidence_conflict e rows \<longleftrightarrow>
     (\<exists>f \<in> set rows. ev_id f = ev_id e
        \<or> (ev_igreja_id f = ev_igreja_id e
           \<and> (ev_chave_idempotencia f = ev_chave_idempotencia e \<or> (ev_desafio_id f = ev_desafio_id e \<and> ev_tipo f = ev_tipo e))))"

definition pg_insert_evidence :: "evidence \<Rightarrow> (pg, unit) op" where
  "pg_insert_evidence e =
     sbind (domain (evidence_post_init e)) (\<lambda>e.
       sql (\<lambda>s. if pg_read_only s \<or> \<not> evidence_insert_valid s e \<or> evidence_conflict e (db_evidence (pg_db s))
            then (Inl DriverRaised, s)
            else (Inr (), (acquire (RowLock (ev_igreja_id e) (ev_desafio_id e)) s)
                            \<lparr>pg_db := add_evidence e (pg_db s), pg_xid_assigned := True\<rparr>)))"

definition receipt_insert_valid :: "pg \<Rightarrow> consent_receipt \<Rightarrow> bool" where
  "receipt_insert_valid s r \<longleftrightarrow>
     visible s (rc_igreja_id r)
     \<and> (\<exists>m \<in> set (db_evidence (pg_db s)). ev_igreja_id m = rc_igreja_id r \<and> ev_id m = rc_evidencia_id r
          \<and> ev_tipo m = MANIFESTATION \<and> ev_acao m = Some (rc_acao r)
          \<and> ev_chave_idempotencia m = rc_chave_idempotencia r
          \<and> instant (ev_registrado_em m) = instant (rc_registrado_em r))"

definition receipt_conflict :: "consent_receipt \<Rightarrow> consent_receipt list \<Rightarrow> bool" where
  "receipt_conflict r rows \<longleftrightarrow>
     (\<exists>q \<in> set rows. rc_id q = rc_id r
        \<or> (rc_igreja_id q = rc_igreja_id r
           \<and> (rc_evidencia_id q = rc_evidencia_id r \<or> rc_chave_idempotencia q = rc_chave_idempotencia r)))"

definition pg_insert_receipt :: "consent_receipt \<Rightarrow> (pg, unit) op" where
  "pg_insert_receipt r =
     sbind (domain (receipt_post_init r)) (\<lambda>r.
       sql (\<lambda>s. if pg_read_only s \<or> \<not> receipt_insert_valid s r \<or> receipt_conflict r (db_receipts (pg_db s))
            then (Inl DriverRaised, s)
            else (Inr (), s\<lparr>pg_db := add_receipt r (pg_db s), pg_xid_assigned := True\<rparr>)))"

text \<open>The update trigger; the identifier is a key, so the update counts no row or one.\<close>

definition transition_valid :: "challenge \<Rightarrow> challenge_state \<Rightarrow> datetime \<Rightarrow> bool" where
  "transition_valid c st t \<longleftrightarrow>
     st \<noteq> OPEN \<and> instant (ch_criado_em c) \<le> instant t
     \<and> (st = CONSUMED \<longrightarrow> instant t \<le> instant (ch_expira_em c))
     \<and> (st = challenge_state.EXPIRED \<longrightarrow> instant (ch_expira_em c) \<le> instant t)"

definition pg_transition_challenge :: "uuid \<Rightarrow> uuid \<Rightarrow> challenge_state \<Rightarrow> datetime \<Rightarrow> (pg, unit) op" where
  "pg_transition_challenge g i st t =
     sbind (sql (\<lambda>s. if pg_read_only s then (Inl DriverRaised, s)
              else case find (\<lambda>c. is_open_row g i c \<and> visible s g) (db_challenges (pg_db s)) of
                     None \<Rightarrow> (Inr (0 :: nat), s)
                   | Some c \<Rightarrow> if \<not> transition_valid c st t then (Inl DriverRaised, s)
                       else (Inr 1, (acquire (RowLock g i) s)\<lparr>pg_db := close_challenge g i st t (pg_db s), pg_xid_assigned := True\<rparr>)))
       (\<lambda>rowcount. if rowcount \<noteq> 1 then raising DriverRaised else ret ())"

text \<open>The adapter stages its rows by statements, so a flush has nothing pending of its own.\<close>

definition pg_flush :: "(pg, unit) op" where
  "pg_flush = ret ()"

definition postgres_store :: "bytes \<Rightarrow> pg store" where
  "postgres_store secret =
     \<lparr>st_transaction_active = transaction_active,
      st_require_readonly_observation = require_readonly_observation,
      st_require_tenant_scope = pg_require_tenant_scope,
      st_lock_idempotency_key = pg_lock_idempotency_key secret,
      st_lock_challenge = pg_lock_challenge,
      st_lock_ledger_stream = pg_lock_ledger_stream,
      st_get_challenge = pg_get_challenge,
      st_get_challenge_by_binding_interaction = pg_get_challenge_by_binding_interaction,
      st_get_evidence_by_idempotency = pg_get_evidence_by_idempotency,
      st_get_evidence_by_challenge_type = pg_get_evidence_by_challenge_type,
      st_get_receipt_by_evidence = pg_get_receipt_by_evidence,
      st_get_ledger_state = pg_get_ledger_state,
      st_insert_challenge = pg_insert_challenge,
      st_insert_evidence = pg_insert_evidence,
      st_insert_receipt = pg_insert_receipt,
      st_transition_challenge = pg_transition_challenge,
      st_flush = pg_flush\<rparr>"

text \<open>The unit of work constructed with the adapter; the key secret is the one of the process.\<close>

definition postgres_uow :: "pg uow \<Rightarrow> pg uow" where
  "postgres_uow U = U\<lparr>uw_store := postgres_store (uw_secret U)\<rparr>"

section \<open>The adapter keeps the contract\<close>

lemma acquire_simps [simp]: "pg_db (acquire l s) = pg_db s" "visible (acquire l s) = visible s"
  by (simp_all add: acquire_def visible_def fun_eq_iff)

named_theorems pg_defs \<open>the operations of the adapter\<close>

lemmas pg_basic [pg_defs] = select_value_def one_or_none_def select_one_def transaction_active_def
  pg_require_tenant_scope_def verify_tenant_scope_def probe_tenant_scope_def require_readonly_observation_def advisory_lock_def
  enter_key_scope_def pg_lock_idempotency_key_def enter_stream_scope_def pg_lock_ledger_stream_def pg_lock_challenge_def
  challenge_of_row_def evidence_of_row_def receipt_of_row_def pg_get_challenge_def pg_get_challenge_by_binding_interaction_def
  pg_get_evidence_by_idempotency_def pg_get_evidence_by_challenge_type_def pg_get_receipt_by_evidence_def pg_get_ledger_state_def
  pg_flush_def

lemma postgres_store_simps [simp]: "uw_store (postgres_uow U) = postgres_store (uw_secret U)"
  "uw_secret (postgres_uow U) = uw_secret U" "uw_clock (postgres_uow U) = uw_clock U" "uw_resolve (postgres_uow U) = uw_resolve U"
  "uw_revalidate (postgres_uow U) = uw_revalidate U" "uw_entropy (postgres_uow U) = uw_entropy U"
  "uw_presentation_id (postgres_uow U) = uw_presentation_id U" "uw_manifestation_id (postgres_uow U) = uw_manifestation_id U"
  "uw_receipt_id (postgres_uow U) = uw_receipt_id U"
  by (simp_all add: postgres_uow_def)

lemma sql_Inr: "sql m s = (Inr x, s') \<longleftrightarrow> \<not> pg_failed s \<and> m s = (Inr x, s')"
  by (auto simp: sql_def split: prod.splits sum.splits)

text \<open>What an operation leaves of a part \<open>f\<close> of the session that failing does not touch.\<close>

lemma obeys_sql:
  assumes "\<And>s. R s (s\<lparr>pg_failed := True\<rparr>)" "\<And>s x s'. m s = (Inr x, s') \<Longrightarrow> R s s'" "\<And>s. R s s"
  shows "obeys R (sql m)"
  using assms by (auto simp: obeys_def sql_def split: prod.splits sum.splits)

interpretation pg_keeps: preorder_effects "\<lambda>s s'. pg_db s' = pg_db s"
  by unfold_locales auto

lemma pg_scope_keeps [intro]: "obeys (\<lambda>s s'. pg_db s' = pg_db s) (enter_key_scope t k)"
  "obeys (\<lambda>s s'. pg_db s' = pg_db s) (enter_stream_scope k)" "obeys (\<lambda>s s'. pg_db s' = pg_db s) transaction_active"
  "obeys (\<lambda>s s'. pg_db s' = pg_db s) (advisory_lock k)" "obeys (\<lambda>s s'. pg_db s' = pg_db s) (select_value f)"
  "obeys (\<lambda>s s'. pg_db s' = pg_db s) (one_or_none xs)" "obeys (\<lambda>s s'. pg_db s' = pg_db s) (pg_lock_challenge g i)"
  unfolding pg_basic
  by (auto intro!: obeys_sql split: if_splits) (auto simp: obeys_def split: option.splits if_splits list.splits)

lemma pg_reads_keep:
  "obeys (\<lambda>s s'. pg_db s' = pg_db s) (pg_get_challenge g i)"
  "obeys (\<lambda>s s'. pg_db s' = pg_db s) (pg_get_challenge_by_binding_interaction g b i)"
  "obeys (\<lambda>s s'. pg_db s' = pg_db s) (pg_get_evidence_by_idempotency g k)"
  "obeys (\<lambda>s s'. pg_db s' = pg_db s) (pg_get_evidence_by_challenge_type g i t)"
  "obeys (\<lambda>s s'. pg_db s' = pg_db s) (pg_get_receipt_by_evidence g i)"
  "obeys (\<lambda>s s'. pg_db s' = pg_db s) (pg_get_ledger_state g i p)"
  "obeys (\<lambda>s s'. pg_db s' = pg_db s) require_readonly_observation"
  "obeys (\<lambda>s s'. pg_db s' = pg_db s) (pg_require_tenant_scope g)"
  "obeys (\<lambda>s s'. pg_db s' = pg_db s) (pg_lock_ledger_stream g i p)"
  unfolding pg_get_challenge_def pg_get_challenge_by_binding_interaction_def pg_get_evidence_by_idempotency_def
    pg_get_evidence_by_challenge_type_def pg_get_receipt_by_evidence_def pg_get_ledger_state_def select_one_def
    challenge_of_row_def evidence_of_row_def receipt_of_row_def require_readonly_observation_def pg_require_tenant_scope_def
    verify_tenant_scope_def probe_tenant_scope_def pg_lock_ledger_stream_def Let_def
  by (intro pg_keeps.effect_rules pg_scope_keeps)+

lemma pg_lock_key_keeps: "obeys (\<lambda>s s'. pg_db s' = pg_db s) (pg_lock_idempotency_key secret g k)"
proof -
  have "obeys (\<lambda>s s'. pg_db s' = pg_db s) (sbind (select_value pg_isolation) (\<lambda>isolation.
            if isolation \<noteq> u ''read committed'' then raising DriverRaised
            else sbind (enter_key_scope t (key_lock_text g k)) (\<lambda>_. advisory_lock (key_lock_text g k))))" for t
    by (intro pg_keeps.effect_rules pg_scope_keeps)
  then show ?thesis by (auto simp: obeys_def pg_lock_idempotency_key_def split: if_splits option.splits)
qed

lemma select_value_Inr: "select_value f s = (Inr x, s') \<longleftrightarrow> \<not> pg_failed s \<and> x = f s \<and> s' = s"
  by (auto simp: select_value_def sql_Inr)

lemma one_or_none_Inr: "one_or_none xs s = (Inr x, s') \<longleftrightarrow> s' = s \<and> (case x of None \<Rightarrow> xs = [] | Some y \<Rightarrow> xs = [y])"
  by (auto simp: one_or_none_def split: list.splits option.splits)

lemma select_one_Inr: "select_one f s = (Inr x, s') \<longleftrightarrow> \<not> pg_failed s \<and> s' = s \<and> (case x of None \<Rightarrow> f s = [] | Some y \<Rightarrow> f s = [y])"
  by (auto simp: select_one_def sbind_Inr select_value_Inr one_or_none_Inr)

lemma row_Inr:
  "challenge_of_row ro s = (Inr x, s') \<longleftrightarrow> s' = s \<and> x = ro \<and> (case ro of None \<Rightarrow> True | Some c \<Rightarrow> valid_challenge c)"
  "evidence_of_row eo s = (Inr y, s') \<longleftrightarrow> s' = s \<and> y = eo \<and> (case eo of None \<Rightarrow> True | Some e \<Rightarrow> valid_evidence e)"
  "receipt_of_row qo s = (Inr z, s') \<longleftrightarrow> s' = s \<and> z = qo \<and> (case qo of None \<Rightarrow> True | Some q \<Rightarrow> valid_receipt q)"
  by (auto simp: challenge_of_row_def evidence_of_row_def receipt_of_row_def sbind_Inr challenge_post_init_iff evidence_post_init_iff
      receipt_post_init_iff split: option.splits)

lemma filter_single: "filter P xs = [y] \<Longrightarrow> y \<in> set xs \<and> P y"
  using set_filter [of P xs] by (simp add: set_eq_iff) blast

lemma pg_insert_challenge_Inr: "pg_insert_challenge c s = (Inr b, s') \<longleftrightarrow>
    valid_challenge c \<and> \<not> pg_failed s \<and> \<not> pg_read_only s \<and> ch_estado c = OPEN \<and> ch_encerrado_em c = None
    \<and> visible s (ch_igreja_id c)
    \<and> (if challenge_conflict c (db_challenges (pg_db s)) then b = False \<and> s' = s
       else b = True \<and> (ch_igreja_id c, ch_pessoa_id c) \<in> set (pg_people s)
         \<and> s' = (acquire (RowLock (ch_igreja_id c) (ch_id c)) s)\<lparr>pg_db := add_challenge c (pg_db s), pg_xid_assigned := True\<rparr>)"
  by (auto simp: pg_insert_challenge_def sbind_Inr sql_Inr challenge_post_init_iff)

lemma pg_insert_evidence_Inr: "pg_insert_evidence e s = (Inr b, s') \<longleftrightarrow>
    valid_evidence e \<and> \<not> pg_failed s \<and> \<not> pg_read_only s \<and> evidence_insert_valid s e
    \<and> \<not> evidence_conflict e (db_evidence (pg_db s))
    \<and> s' = (acquire (RowLock (ev_igreja_id e) (ev_desafio_id e)) s)\<lparr>pg_db := add_evidence e (pg_db s), pg_xid_assigned := True\<rparr>"
  by (auto simp: pg_insert_evidence_def sbind_Inr sql_Inr evidence_post_init_iff)

lemma pg_insert_receipt_Inr: "pg_insert_receipt r s = (Inr b, s') \<longleftrightarrow>
    valid_receipt r \<and> \<not> pg_failed s \<and> \<not> pg_read_only s \<and> receipt_insert_valid s r
    \<and> \<not> receipt_conflict r (db_receipts (pg_db s)) \<and> s' = s\<lparr>pg_db := add_receipt r (pg_db s), pg_xid_assigned := True\<rparr>"
  by (auto simp: pg_insert_receipt_def sbind_Inr sql_Inr receipt_post_init_iff)

lemma pg_transition_Inr: "pg_transition_challenge g i st t s = (Inr b, s') \<longleftrightarrow>
    \<not> pg_failed s \<and> \<not> pg_read_only s
    \<and> (\<exists>c. find (\<lambda>c. is_open_row g i c \<and> visible s g) (db_challenges (pg_db s)) = Some c \<and> transition_valid c st t)
    \<and> s' = (acquire (RowLock g i) s)\<lparr>pg_db := close_challenge g i st t (pg_db s), pg_xid_assigned := True\<rparr>"
  by (auto simp: pg_transition_challenge_def sbind_Inr sql_Inr split: option.splits if_splits) metis?

lemma pg_write_fails: "pg_insert_challenge c s = (Inl e, s') \<Longrightarrow> pg_db s' = pg_db s"
  "pg_insert_evidence ev s = (Inl e, s') \<Longrightarrow> pg_db s' = pg_db s"
  "pg_insert_receipt rc s = (Inl e, s') \<Longrightarrow> pg_db s' = pg_db s"
  by (auto simp: pg_insert_challenge_def pg_insert_evidence_def pg_insert_receipt_def sbind_Inl domain_def sql_def
      split: sum.splits if_splits prod.splits)

lemma pg_transition_fails: "pg_transition_challenge g i st t s = (Inl e, s') \<Longrightarrow> pg_db s' = pg_db s"
  by (auto simp: pg_transition_challenge_def sbind_Inl sql_def split: sum.splits if_splits prod.splits option.splits)

lemma pg_write_effects:
  "pg_insert_challenge c s = (b, s') \<Longrightarrow> pg_db s' = (if b = Inr True then add_challenge c (pg_db s) else pg_db s)"
  "pg_insert_evidence e s = (x, s') \<Longrightarrow> pg_db s' = (if x = Inr () then add_evidence e (pg_db s) else pg_db s)"
  "pg_insert_receipt r s = (x, s') \<Longrightarrow> pg_db s' = (if x = Inr () then add_receipt r (pg_db s) else pg_db s)"
  "pg_transition_challenge g i st t s = (x, s') \<Longrightarrow> pg_db s' = (if x = Inr () then close_challenge g i st t (pg_db s) else pg_db s)"
  subgoal using pg_write_fails(1) by (cases b) (auto simp: pg_insert_challenge_Inr split: if_splits)
  subgoal using pg_write_fails(2) by (cases x) (auto simp: pg_insert_evidence_Inr)
  subgoal using pg_write_fails(3) by (cases x) (auto simp: pg_insert_receipt_Inr)
  subgoal using pg_transition_fails by (cases x) (auto simp: pg_transition_Inr)
  done

lemma pg_rows:
  "pg_get_challenge g i s = (Inr (Some c), s') \<Longrightarrow>
    c \<in> set (db_challenges (pg_db s)) \<and> ch_igreja_id c = g \<and> ch_id c = i \<and> valid_challenge c"
  "pg_get_evidence_by_idempotency g k s = (Inr (Some e), s') \<Longrightarrow>
    e \<in> set (db_evidence (pg_db s)) \<and> ev_igreja_id e = g \<and> ev_chave_idempotencia e = key_value k \<and> valid_evidence e"
  "pg_get_evidence_by_challenge_type g i ty s = (Inr (Some e), s') \<Longrightarrow>
    e \<in> set (db_evidence (pg_db s)) \<and> ev_igreja_id e = g \<and> ev_desafio_id e = i \<and> ev_tipo e = ty \<and> valid_evidence e"
  "pg_get_receipt_by_evidence g i s = (Inr (Some r), s') \<Longrightarrow>
    r \<in> set (db_receipts (pg_db s)) \<and> rc_igreja_id r = g \<and> rc_evidencia_id r = i"
  by (auto simp: pg_get_challenge_def pg_get_evidence_by_idempotency_def pg_get_evidence_by_challenge_type_def
      pg_get_receipt_by_evidence_def sbind_Inr select_one_Inr row_Inr require_key_iff dest: filter_single)

lemmas pg_frames = pg_reads_keep [THEN obeysD] pg_lock_key_keeps [THEN obeysD] pg_scope_keeps [THEN obeysD]

interpretation pg: evidence_unique "postgres_uow U" pg_db
proof (unfold_locales, unfold postgres_store_simps postgres_store_def store.simps, goal_cases)
  case (17 w x w')
  then show ?case by (simp add: pg_flush_def)
next
  case (22 c w w')
  then show ?case by (auto simp: pg_insert_challenge_Inr challenge_conflict_def fresh_challenge_def split: if_splits)
next
  case (23 e w w')
  then show ?case by (auto simp: pg_insert_evidence_Inr evidence_conflict_def fresh_evidence_def)
next
  case (24 rc w w')
  then show ?case by (auto simp: pg_insert_receipt_Inr receipt_conflict_def fresh_receipt_def)
qed (erule pg_frames pg_write_effects pg_rows)+

end
