(* ===== verification/ReportApplication.thy ===== *)
theory ReportApplication
  imports ReportText TurnIdentity LegacySnapshot ConsentPostgres
begin

text \<open>
  The application service of the cell reports, \<open>services/cell_report_application.py\<close>: under row locks
  it revalidates the conversation, the meeting, the leader and the ministerial access, persists a
  pending proposal in the meeting's snapshot column, and materialises the report when the stored
  proposal's literal confirmation command arrives.

  The state is one database session with the tables the service reads.  What the service does not
  decide is the record \<open>app_env\<close>: which statements the driver lets fail, how a JSON column orders
  its keys, the clock, the process secret, the time zone and Unicode tables.
\<close>

section \<open>Vocabulary\<close>

definition RELATORIO_PENDENTE :: pystr where "RELATORIO_PENDENTE = u ''pendente''"
definition RELATORIO_ENVIADO :: pystr where "RELATORIO_ENVIADO = u ''enviado''"
definition STATUS_CANCELADA :: pystr where "STATUS_CANCELADA = u ''cancelada''"

definition VALID_REPORT_STATUSES :: "pystr list" where
  "VALID_REPORT_STATUSES = [RELATORIO_PENDENTE, RELATORIO_ENVIADO]"

definition VALID_MEETING_STATUSES :: "pystr list" where
  "VALID_MEETING_STATUSES = [u ''planejada'', u ''confirmada'', u ''realizada'', STATUS_CANCELADA]"

definition VALID_ESTADOS :: "pystr list" where
  "VALID_ESTADOS = map u [''ia'', ''humano'', ''aguardando'']"

definition MINISTERIAL_ROLES :: "pystr list" where
  "MINISTERIAL_ROLES = map u [''admin'', ''pastor'', ''lider_g12'', ''lider_consol'', ''lider_celula'', ''lider_mult'']"

text \<open>The limit of 24 hours in microseconds.\<close>

definition MAX_CELL_REPORT_PROPOSAL_TTL :: int where "MAX_CELL_REPORT_PROPOSAL_TTL = 86400000000"

definition managed_cycle_domain :: pystr where
  "managed_cycle_domain = u ''pastorai.cell-report.managed-proposal-cycle/v1''"

definition proposal_effect_schema :: pystr where "proposal_effect_schema = u ''cell-report-proposal-effect/v1''"
definition confirmation_effect_schema :: pystr where "confirmation_effect_schema = u ''cell-report-confirmation-effect/v1''"

text \<open>
  The codes of \<open>CellReportApplicationError\<close>, and the exceptions of the called modules that no
  handler of the service translates.
\<close>

datatype app_error =
    INVALID_ARGUMENT
  | TRANSACTION_REQUIRED
  | MEETING_NOT_FOUND
  | DATA_INTEGRITY
  | ACTOR_NOT_AUTHORIZED
  | REPORT_CONFLICT
  | PROPOSAL_CORRUPT
  | PROPOSAL_BINDING_MISMATCH
  | PROPOSAL_CYCLE_INVALID
  | PROPOSAL_CYCLE_STALE
  | PROPOSAL_SCOPE_MISMATCH
  | PROPOSAL_EXPIRED
  | EXPIRY_MISMATCH
  | EXPIRY_LIMIT_EXCEEDED
  | OPERATION_LIMIT_EXCEEDED
  | IDEMPOTENCY_CONFLICT
  | REPLAY_EXPECTATION_MISMATCH
  | CONFIRMATION_REJECTED
  | RaisedProposal proposal_error
  | RaisedWorkflow workflow_error
  | RaisedSnapshot snapshot_error
  | RaisedScope
  | RaisedUnicode
  | RaisedDecimal

section \<open>The session\<close>

record meeting =
  m_id :: uuid
  m_igreja_id :: uuid
  m_celula_id :: uuid
  m_data :: date
  m_hora :: "pystr option"
  m_tema :: "pystr option"
  m_status :: pystr
  m_relatorio_status :: pystr
  m_relatorio_enviado_em :: "datetime option"
  m_relatorio_enviado_por :: "uuid option"
  m_oferta_valor :: "decimal option"
  m_observacoes :: "pystr option"
  m_relatorio_snapshot :: py
  m_updated_at :: "datetime option"

record conversation =
  cv_id :: uuid
  cv_igreja_id :: uuid
  cv_pessoa_id :: "uuid option"
  cv_estado :: pystr
  cv_assumido_por :: "uuid option"
  cv_numero_oficial :: bool

record celula =
  ce_id :: uuid
  ce_igreja_id :: uuid
  ce_lider_id :: "uuid option"
  ce_ativo :: bool

record pessoa =
  pe_id :: uuid
  pe_igreja_id :: uuid
  pe_arquivada_em :: "datetime option"
  pe_sem_interesse :: bool
  pe_optout :: bool

record app_user =
  au_id :: uuid
  au_igreja_id :: "uuid option"
  au_pessoa_id :: "uuid option"
  au_clerk_user_id :: "pystr option"
  au_status :: "pystr option"

record user_role =
  ur_id :: uuid
  ur_igreja_id :: uuid
  ur_user_id :: uuid
  ur_papel :: pystr

text \<open>
  The statements of the service, by the row locks they take, and those of the turn's unit of work, which
  calls it in the same session; the session logs the ones executed.
\<close>

datatype statement =
    LockConversation uuid
  | LockMeeting uuid
  | LockLeader uuid uuid
  | LockAccess uuid
  | LockRole uuid
  | FlushMeeting uuid
  | LockReply uuid
  | LockAudit pystr
  | FlushTurn uuid

record app_db =
  db_pg :: pg
  db_nested :: "nat option"
  db_log :: "statement list"
  db_reads :: nat
  db_conversations :: "conversation list"
  db_meetings :: "meeting list"
  db_celulas :: "celula list"
  db_pessoas :: "pessoa list"
  db_users :: "app_user list"
  db_roles :: "user_role list"

record app_env =
  ev_fault :: "app_db \<Rightarrow> statement \<Rightarrow> bool"
  ev_jsonb :: "py \<Rightarrow> py"
  ev_clock :: "nat \<Rightarrow> datetime"
  ev_secret :: bytes
  ev_tz :: tz_db
  ev_text :: unicode_db
  ev_re :: re_db

type_synonym 'a app = "(app_error, app_db, 'a) effect"

definition from_result :: "(app_error, 'a) result \<Rightarrow> 'a app" where
  "from_result r db = (r, db)"

text \<open>
  A statement on a session whose transaction has failed, or that the driver lets fail, raises a
  \<open>SQLAlchemyError\<close>, sanitised to \<open>DATA_INTEGRITY\<close>; PostgreSQL then refuses every later statement.
\<close>

definition execute :: "app_env \<Rightarrow> statement \<Rightarrow> (app_db \<Rightarrow> 'a) \<Rightarrow> 'a app" where
  "execute E st f db =
     (if pg_failed (db_pg db) \<or> ev_fault E db st
      then (Inl DATA_INTEGRITY, db\<lparr>db_pg := (db_pg db)\<lparr>pg_failed := True\<rparr>\<rparr>)
      else (Inr (f db), db\<lparr>db_log := db_log db @ [st]\<rparr>))"

text \<open>\<open>_utc_now\<close>: every reading of the clock is its own value.\<close>

definition utc_now :: "app_env \<Rightarrow> datetime app" where
  "utc_now E db = (Inr (ev_clock E (db_reads db)), db\<lparr>db_reads := db_reads db + 1\<rparr>)"

section \<open>Arguments\<close>

definition app_require_uuid :: "uuid \<Rightarrow> (app_error, uuid) result" where
  "app_require_uuid i = (if i = 0 then Inl INVALID_ARGUMENT else Inr i)"

definition canonical_utc :: "datetime \<Rightarrow> (app_error, datetime) result" where
  "canonical_utc t =
     (if tzinfo t = Naive then Inl INVALID_ARGUMENT
      else case utcoffset t of
             None \<Rightarrow> Inl INVALID_ARGUMENT
           | Some off \<Rightarrow> (case astimezone_utc t of None \<Rightarrow> Inl INVALID_ARGUMENT | Some c \<Rightarrow> Inr c))"

definition require_managed_cycle_identity ::
  "unicode_db \<Rightarrow> turn_identity \<Rightarrow> uuid \<Rightarrow> uuid \<Rightarrow> (app_error, turn_identity) result" where
  "require_managed_cycle_identity U t igreja conversa =
     ebind (ecatch (validate_agent_effect_intents U t []) (\<lambda>_. Inl PROPOSAL_CYCLE_INVALID)) (\<lambda>_.
       if ti_igreja_id t \<noteq> igreja \<or> ti_conversation_id t \<noteq> conversa then Inl PROPOSAL_CYCLE_INVALID else Inr t)"

definition app_external_transaction :: "(nat \<times> nat option) app" where
  "app_external_transaction db =
     (case pg_transaction (db_pg db) of
        None \<Rightarrow> (Inl TRANSACTION_REQUIRED, db)
      | Some t \<Rightarrow> (Inr (t, db_nested db), db))"

text \<open>Exceptions of the workflow and proposal modules inside a handler that translates both.\<close>

definition translated :: "app_error \<Rightarrow> ('e, 'a) result \<Rightarrow> (app_error, 'a) result" where
  "translated code r = ecatch r (\<lambda>_. Inl code)"

text \<open>A handler for \<open>CellReportPendingProposalError\<close> only.\<close>

definition proposal_translated :: "app_error \<Rightarrow> (proposal_error, 'a) result \<Rightarrow> (app_error, 'a) result" where
  "proposal_translated code r =
     ecatch r (\<lambda>e. case e of WorkflowRaised w \<Rightarrow> Inl (RaisedWorkflow w) | _ \<Rightarrow> Inl code)"

definition uncaught_proposal :: "(proposal_error, 'a) result \<Rightarrow> (app_error, 'a) result" where
  "uncaught_proposal r = ecatch r (\<lambda>e. Inl (RaisedProposal e))"

section \<open>The material of an effect\<close>

definition proposal_effect_payload :: "py \<Rightarrow> py \<Rightarrow> py \<Rightarrow> datetime \<Rightarrow> py" where
  "proposal_effect_payload b scope patch expires =
     PyDict [(u ''schema'', PyStr proposal_effect_schema), (u ''bindings'', b), (u ''scope_digest'', scope),
             (u ''candidate_patch'', patch), (u ''expires_at'', PyStr (render_instant expires))]"

definition proposal_material_of ::
  "app_env \<Rightarrow> uuid \<Rightarrow> uuid \<Rightarrow> uuid \<Rightarrow> uuid \<Rightarrow> pystr \<Rightarrow> py \<Rightarrow> datetime
   \<Rightarrow> (app_error, bindings \<times> candidate \<times> workflow \<times> py) result" where
  "proposal_material_of E igreja reuniao conversa ator key text expires =
     (let U = ev_text E in
      ebind (translated INVALID_ARGUMENT (parse_cell_report_candidate U (ev_re E) text)) (\<lambda>patch.
      if is_empty patch then Inl INVALID_ARGUMENT
      else ebind (translated INVALID_ARGUMENT (start_cell_report_workflow U (PyStr key) (Some patch))) (\<lambda>w.
      ebind (translated INVALID_ARGUMENT (derive_cell_report_proposal_bindings igreja reuniao conversa ator)) (\<lambda>b.
      ebind (uncaught_proposal (bindings_to_jsonb b)) (\<lambda>bj.
      ebind (ecatch (cell_report_candidate_payload U patch) (\<lambda>e. Inl (RaisedWorkflow e))) (\<lambda>cj.
        Inr (b, patch, w, proposal_effect_payload bj (scope_digest w) cj expires)))))))"

definition confirmation_effect_payload :: "py \<Rightarrow> py \<Rightarrow> py" where
  "confirmation_effect_payload b command =
     PyDict [(u ''schema'', PyStr confirmation_effect_schema), (u ''bindings'', b), (u ''command'', command)]"

definition confirmation_material ::
  "uuid \<Rightarrow> uuid \<Rightarrow> uuid \<Rightarrow> uuid \<Rightarrow> py \<Rightarrow> (app_error, bindings \<times> py) result" where
  "confirmation_material igreja reuniao conversa ator command =
     ebind (translated INVALID_ARGUMENT (parse_cell_report_confirmation_command command)) (\<lambda>_.
     ebind (translated INVALID_ARGUMENT (derive_cell_report_proposal_bindings igreja reuniao conversa ator)) (\<lambda>b.
     ebind (uncaught_proposal (bindings_to_jsonb b)) (\<lambda>bj.
       Inr (b, confirmation_effect_payload bj command))))"

definition build_cell_report_confirmation_effect_payload ::
  "uuid \<Rightarrow> uuid \<Rightarrow> uuid \<Rightarrow> uuid \<Rightarrow> py \<Rightarrow> (app_error, py) result" where
  "build_cell_report_confirmation_effect_payload igreja reuniao conversa ator command =
     ebind (app_require_uuid igreja) (\<lambda>g.
     ebind (app_require_uuid reuniao) (\<lambda>r.
     ebind (app_require_uuid conversa) (\<lambda>c.
     ebind (app_require_uuid ator) (\<lambda>a.
     ebind (confirmation_material g r c a command) (\<lambda>(_, payload). Inr payload)))))"

definition build_proposal_effect_payload_legacy ::
  "app_env \<Rightarrow> uuid \<Rightarrow> uuid \<Rightarrow> uuid \<Rightarrow> uuid \<Rightarrow> pystr \<Rightarrow> py \<Rightarrow> datetime \<Rightarrow> (app_error, py) result" where
  "build_proposal_effect_payload_legacy E igreja reuniao conversa ator key text expires =
     ebind (app_require_uuid igreja) (\<lambda>g.
     ebind (app_require_uuid reuniao) (\<lambda>r.
     ebind (app_require_uuid conversa) (\<lambda>c.
     ebind (app_require_uuid ator) (\<lambda>a.
     ebind (canonical_utc expires) (\<lambda>expiry.
     ebind (proposal_material_of E g r c a key text expiry) (\<lambda>(_, _, _, payload). Inr payload))))))"

definition validate_trusted_effect ::
  "unicode_db \<Rightarrow> turn_identity \<Rightarrow> effect_intent \<Rightarrow> uuid \<Rightarrow> uuid \<Rightarrow> py \<Rightarrow> (app_error, effect_intent) result" where
  "validate_trusted_effect U t intent igreja conversa expected_payload =
     ebind (translated INVALID_ARGUMENT (validate_agent_effect_intents U t [intent])) (\<lambda>validated.
       let current = validated ! 0 in
       if ti_igreja_id t \<noteq> igreja \<or> ti_conversation_id t \<noteq> conversa then Inl PROPOSAL_BINDING_MISMATCH
       else if ei_kind current \<noteq> TOOL_CALL then Inl INVALID_ARGUMENT
       else ebind (translated INVALID_ARGUMENT (digest_effect_payload (ei_effect_id current) TOOL_CALL expected_payload)) (\<lambda>d.
         if d \<noteq> ei_payload_digest current then Inl IDEMPOTENCY_CONFLICT else Inr current))"

section \<open>Authorisation under locks\<close>

text \<open>The rows of the five statements, before their limit.\<close>

definition meeting_rows :: "app_db \<Rightarrow> uuid \<Rightarrow> uuid \<Rightarrow> meeting list" where
  "meeting_rows db igreja reuniao = filter (\<lambda>m. m_igreja_id m = igreja \<and> m_id m = reuniao) (db_meetings db)"

definition conversation_rows :: "app_db \<Rightarrow> uuid \<Rightarrow> uuid \<Rightarrow> uuid \<Rightarrow> conversation list" where
  "conversation_rows db igreja conversa ator =
     filter (\<lambda>c. cv_id c = conversa \<and> cv_igreja_id c = igreja \<and> cv_pessoa_id c = Some ator) (db_conversations db)"

definition leader_rows :: "app_db \<Rightarrow> uuid \<Rightarrow> uuid \<Rightarrow> uuid \<Rightarrow> (celula \<times> pessoa) list" where
  "leader_rows db igreja celula_id ator =
     [(c, p). c \<leftarrow> db_celulas db, p \<leftarrow> db_pessoas db,
       pe_id p = ator \<and> pe_igreja_id p = igreja \<and> ce_id c = celula_id \<and> ce_igreja_id c = igreja
       \<and> ce_ativo c \<and> ce_lider_id c = Some ator \<and> pe_arquivada_em p = None \<and> \<not> pe_sem_interesse p \<and> \<not> pe_optout p]"

definition access_rows :: "app_db \<Rightarrow> uuid \<Rightarrow> uuid \<Rightarrow> app_user list" where
  "access_rows db igreja ator =
     sort_key au_id (filter (\<lambda>x. au_igreja_id x = Some igreja \<and> au_pessoa_id x = Some ator \<and> au_clerk_user_id x \<noteq> None
       \<and> (au_status x = None \<or> au_status x = Some (u ''ativo''))) (db_users db))"

definition role_rows :: "app_db \<Rightarrow> uuid \<Rightarrow> uuid \<Rightarrow> user_role list" where
  "role_rows db igreja user_id =
     sort_key ur_id (filter (\<lambda>r. ur_igreja_id r = igreja \<and> ur_user_id r = user_id \<and> ur_papel r \<in> set MINISTERIAL_ROLES)
       (db_roles db))"

definition load_locked_meeting :: "app_env \<Rightarrow> uuid \<Rightarrow> uuid \<Rightarrow> meeting app" where
  "load_locked_meeting E igreja reuniao =
     sbind (execute E (LockMeeting reuniao)
       (\<lambda>db. take 2 (meeting_rows db igreja reuniao))) (\<lambda>rows.
       case rows of
         [] \<Rightarrow> raising MEETING_NOT_FOUND
       | [m] \<Rightarrow> if m_id m \<noteq> reuniao \<or> m_igreja_id m \<noteq> igreja \<or> m_celula_id m = 0 then raising DATA_INTEGRITY else ret m
       | _ \<Rightarrow> raising DATA_INTEGRITY)"

definition revalidate_locked_conversation_actor :: "app_env \<Rightarrow> uuid \<Rightarrow> uuid \<Rightarrow> uuid \<Rightarrow> unit app" where
  "revalidate_locked_conversation_actor E igreja conversa ator =
     sbind (execute E (LockConversation conversa)
       (\<lambda>db. take 2 (conversation_rows db igreja conversa ator))) (\<lambda>rows.
       case rows of
         [] \<Rightarrow> raising ACTOR_NOT_AUTHORIZED
       | [c] \<Rightarrow>
           if cv_id c \<noteq> conversa \<or> cv_igreja_id c \<noteq> igreja \<or> cv_pessoa_id c \<noteq> Some ator
              \<or> cv_estado c \<notin> set VALID_ESTADOS \<or> \<not> cv_numero_oficial c then raising DATA_INTEGRITY
           else if cv_estado c = u ''humano'' \<or> cv_assumido_por c \<noteq> None then raising ACTOR_NOT_AUTHORIZED
           else ret ()
       | _ \<Rightarrow> raising DATA_INTEGRITY)"

definition revalidate_ministerial_access :: "app_env \<Rightarrow> uuid \<Rightarrow> uuid \<Rightarrow> unit app" where
  "revalidate_ministerial_access E igreja ator =
     sbind (execute E (LockAccess ator)
       (\<lambda>db. take 2 (access_rows db igreja ator))) (\<lambda>accesses.
       case accesses of
         [a] \<Rightarrow>
           if au_id a = 0 \<or> au_igreja_id a \<noteq> Some igreja \<or> au_pessoa_id a \<noteq> Some ator then raising DATA_INTEGRITY
           else sbind (execute E (LockRole (au_id a))
                  (\<lambda>db. take 1 (role_rows db igreja (au_id a)))) (\<lambda>roles.
                  case roles of
                    [r] \<Rightarrow> if ur_id r = 0 \<or> ur_igreja_id r \<noteq> igreja \<or> ur_user_id r \<noteq> au_id a
                              \<or> ur_papel r \<notin> set MINISTERIAL_ROLES then raising DATA_INTEGRITY else ret ()
                  | _ \<Rightarrow> raising ACTOR_NOT_AUTHORIZED)
       | _ \<Rightarrow> raising ACTOR_NOT_AUTHORIZED)"

definition revalidate_locked_leader :: "app_env \<Rightarrow> uuid \<Rightarrow> meeting \<Rightarrow> uuid \<Rightarrow> unit app" where
  "revalidate_locked_leader E igreja m ator =
     sbind (execute E (LockLeader (m_celula_id m) ator)
       (\<lambda>db. take 2 (leader_rows db igreja (m_celula_id m) ator))) (\<lambda>rows.
       case rows of
         [] \<Rightarrow> raising ACTOR_NOT_AUTHORIZED
       | [row] \<Rightarrow>
           (case row of (c, p) \<Rightarrow>
           if ce_id c \<noteq> m_celula_id m \<or> ce_igreja_id c \<noteq> igreja \<or> ce_lider_id c \<noteq> Some ator \<or> \<not> ce_ativo c
              \<or> pe_id p \<noteq> ator \<or> pe_igreja_id p \<noteq> igreja \<or> pe_arquivada_em p \<noteq> None \<or> pe_sem_interesse p \<or> pe_optout p
           then raising DATA_INTEGRITY
           else revalidate_ministerial_access E igreja ator)
       | _ \<Rightarrow> raising DATA_INTEGRITY)"

definition revalidate_cell_report_leader :: "app_env \<Rightarrow> uuid \<Rightarrow> meeting \<Rightarrow> uuid \<Rightarrow> unit app" where
  "revalidate_cell_report_leader E igreja m ator = revalidate_locked_leader E igreja m ator"

definition validate_meeting_eligibility :: "tz_db \<Rightarrow> meeting \<Rightarrow> datetime \<Rightarrow> (app_error, unit) result" where
  "validate_meeting_eligibility Z m now =
     (if m_status m \<notin> set VALID_MEETING_STATUSES \<or> m_relatorio_status m \<notin> set VALID_REPORT_STATUSES
      then Inl DATA_INTEGRITY
      else if m_status m = STATUS_CANCELADA then Inl REPORT_CONFLICT
      else ebind (translated DATA_INTEGRITY (meeting_has_passed Z now (m_data m) (m_hora m) (Some now))) (\<lambda>passed.
        if \<not> passed then Inl REPORT_CONFLICT
        else if m_relatorio_status m = RELATORIO_PENDENTE
                \<and> (m_relatorio_enviado_em m \<noteq> None \<or> m_relatorio_enviado_por m \<noteq> None)
        then Inl DATA_INTEGRITY else Inr ()))"

definition app_require_tenant_scope :: "uuid \<Rightarrow> unit app" where
  "app_require_tenant_scope igreja db =
     (if pg_failed (db_pg db) then (Inl DATA_INTEGRITY, db)
      else case verify_tenant_scope igreja (db_pg db) of
             (Inl _, s) \<Rightarrow> (Inl RaisedScope, db\<lparr>db_pg := s\<rparr>)
           | (Inr _, s) \<Rightarrow> (Inr (), db\<lparr>db_pg := s\<rparr>))"

definition load_and_authorize :: "app_env \<Rightarrow> uuid \<Rightarrow> uuid \<Rightarrow> uuid \<Rightarrow> uuid \<Rightarrow> datetime \<Rightarrow> meeting app" where
  "load_and_authorize E igreja reuniao conversa ator now =
     sbind (app_require_tenant_scope igreja) (\<lambda>_.
     sbind (revalidate_locked_conversation_actor E igreja conversa ator) (\<lambda>_.
     sbind (load_locked_meeting E igreja reuniao) (\<lambda>m.
     sbind (from_result (validate_meeting_eligibility (ev_tz E) m now)) (\<lambda>_.
     sbind (revalidate_locked_leader E igreja m ator) (\<lambda>_.
       ret m)))))"

section \<open>The stored proposal\<close>

definition hydrate_pending :: "unicode_db \<Rightarrow> py \<Rightarrow> (app_error, pending_proposal) result" where
  "hydrate_pending U v =
     (case v of
        PyDict d \<Rightarrow>
          if py_get d (u ''schema'') \<noteq> PyStr proposal_schema then Inl REPORT_CONFLICT
          else proposal_translated PROPOSAL_CORRUPT (rehydrate_cell_report_pending_proposal U v)
      | _ \<Rightarrow> Inl REPORT_CONFLICT)"

definition confirmation_for :: "unicode_db \<Rightarrow> workflow \<Rightarrow> (app_error, pystr option) result" where
  "confirmation_for U w =
     (if state w \<noteq> AWAITING_CONFIRMATION then Inr None
      else ebind (translated PROPOSAL_CORRUPT (cell_report_confirmation_command U w)) (\<lambda>c. Inr (Some c)))"

text \<open>The first receipt of the effect, with its index counted from \<open>n\<close>.\<close>

fun find_receipt :: "nat \<Rightarrow> receipt list \<Rightarrow> effect_intent \<Rightarrow> (app_error, nat option) result" where
  "find_receipt n [] intent = Inr None"
| "find_receipt n (r # rs) intent =
     (if r_effect_id r = ei_effect_id intent
      then if r_payload_digest r \<noteq> ei_payload_digest intent then Inl IDEMPOTENCY_CONFLICT else Inr (Some n)
      else find_receipt (n + 1) rs intent)"

definition proposal_expired :: "pending_proposal \<Rightarrow> datetime \<Rightarrow> (app_error, bool) result" where
  "proposal_expired p now =
     (let remaining = instant (pp_expires_at p) - instant now
      in if remaining > MAX_CELL_REPORT_PROPOSAL_TTL then Inl PROPOSAL_CORRUPT else Inr (remaining \<le> 0))"

definition base_state_of :: "unicode_db \<Rightarrow> meeting \<Rightarrow> (app_error, pystr) result" where
  "base_state_of U m =
     proposal_translated DATA_INTEGRITY
       (derive_cell_report_proposal_base_state_digest U (m_relatorio_status m) (py_of_decimal (m_oferta_valor m))
          (py_of_str (m_observacoes m)))"

text \<open>
  The flush of one changed meeting.  It leaves the rows as they were when it fails; the column then
  holds the JSON value with the key order of the database.
\<close>

definition flush_meeting :: "app_env \<Rightarrow> meeting \<Rightarrow> unit app" where
  "flush_meeting E m =
     sbind (execute E (FlushMeeting (m_id m)) (\<lambda>_. ())) (\<lambda>_ db.
       (Inr (), db\<lparr>db_meetings := map (\<lambda>x. if m_id x = m_id m
          then m\<lparr>m_relatorio_snapshot := ev_jsonb E (m_relatorio_snapshot m)\<rparr> else x) (db_meetings db)\<rparr>))"

section \<open>Managed cycles\<close>

record proposal_cycle =
  pc_igreja_id :: uuid
  pc_reuniao_id :: uuid
  pc_conversa_id :: uuid
  pc_ator_pessoa_id :: uuid
  pc_correlation_key :: pystr
  pc_expires_at :: datetime
  pc_opens_new_attempt :: bool
  pc_transaction :: nat
  pc_nested_transaction :: "nat option"
  pc_turn_id :: pystr
  pc_inbound_message_id :: uuid
  pc_provider_message_id :: pystr
  pc_material :: bytes

definition managed_proposal_correlation_key ::
  "uuid \<Rightarrow> uuid \<Rightarrow> uuid \<Rightarrow> uuid \<Rightarrow> datetime \<Rightarrow> (app_error, pystr) result" where
  "managed_proposal_correlation_key igreja reuniao conversa ator expires =
     ebind (canonical_utc expires) (\<lambda>expiry.
       Inr (scope_prefix @ hexdigest (sha256 (binary_frame
         [ascii_bytes managed_cycle_domain, uuid_bytes igreja, uuid_bytes reuniao, uuid_bytes conversa, uuid_bytes ator,
          ascii_bytes (render_instant expiry)]))))"

definition proposal_cycle_material ::
  "uuid \<Rightarrow> uuid \<Rightarrow> uuid \<Rightarrow> uuid \<Rightarrow> pystr \<Rightarrow> datetime \<Rightarrow> bool \<Rightarrow> nat \<Rightarrow> nat option \<Rightarrow> turn_identity
   \<Rightarrow> (app_error, bytes) result" where
  "proposal_cycle_material igreja reuniao conversa ator key expires opens transaction nested t =
     (case utf8_encode (ti_provider_message_id t) of
        None \<Rightarrow> Inl RaisedUnicode
      | Some message \<Rightarrow> Inr (binary_frame
          [ascii_bytes managed_cycle_domain, uuid_bytes igreja, uuid_bytes reuniao, uuid_bytes conversa, uuid_bytes ator,
           ascii_bytes key, ascii_bytes (render_instant expires), ascii_bytes (if opens then u ''new'' else u ''active''),
           ascii_bytes (digits_of_nat transaction),
           (case nested of None \<Rightarrow> ascii_bytes (u ''none'') | Some n \<Rightarrow> ascii_bytes (digits_of_nat n)),
           ascii_bytes (ti_turn_id t), uuid_bytes (ti_inbound_message_id t), message]))"

definition mint_proposal_cycle ::
  "app_env \<Rightarrow> uuid \<Rightarrow> uuid \<Rightarrow> uuid \<Rightarrow> uuid \<Rightarrow> datetime \<Rightarrow> bool \<Rightarrow> nat \<Rightarrow> nat option \<Rightarrow> turn_identity
   \<Rightarrow> (app_error, proposal_cycle) result" where
  "mint_proposal_cycle E igreja reuniao conversa ator expires opens transaction nested t =
     ebind (canonical_utc expires) (\<lambda>expiry.
     ebind (managed_proposal_correlation_key igreja reuniao conversa ator expiry) (\<lambda>key.
     ebind (proposal_cycle_material igreja reuniao conversa ator key expiry opens transaction nested t) (\<lambda>material.
       Inr \<lparr>pc_igreja_id = igreja, pc_reuniao_id = reuniao, pc_conversa_id = conversa, pc_ator_pessoa_id = ator,
            pc_correlation_key = key, pc_expires_at = expiry, pc_opens_new_attempt = opens, pc_transaction = transaction,
            pc_nested_transaction = nested, pc_turn_id = ti_turn_id t, pc_inbound_message_id = ti_inbound_message_id t,
            pc_provider_message_id = ti_provider_message_id t, pc_material = hmac_sha256 (ev_secret E) material\<rparr>)))"

definition require_proposal_cycle :: "app_env \<Rightarrow> proposal_cycle \<Rightarrow> (app_error, proposal_cycle) result" where
  "require_proposal_cycle E c =
     ebind (translated PROPOSAL_CYCLE_INVALID
       (ebind (app_require_uuid (pc_igreja_id c)) (\<lambda>_.
        ebind (app_require_uuid (pc_reuniao_id c)) (\<lambda>_.
        ebind (app_require_uuid (pc_conversa_id c)) (\<lambda>_.
        ebind (app_require_uuid (pc_ator_pessoa_id c)) (\<lambda>_.
        ebind (canonical_utc (pc_expires_at c)) (\<lambda>expiry.
        ebind (app_require_uuid (pc_inbound_message_id c)) (\<lambda>_. Inr expiry))))))))
     (\<lambda>expiry.
     ebind (managed_proposal_correlation_key (pc_igreja_id c) (pc_reuniao_id c) (pc_conversa_id c) (pc_ator_pessoa_id c)
              expiry) (\<lambda>expected_key.
     ebind (translated PROPOSAL_CYCLE_INVALID
              (build_agent_turn_identity (ev_text E) (pc_igreja_id c) (pc_conversa_id c) (pc_inbound_message_id c)
                 (pc_provider_message_id c) EVOLUTION)) (\<lambda>built.
     ebind (require_managed_cycle_identity (ev_text E) built (pc_igreja_id c) (pc_conversa_id c)) (\<lambda>identity.
       if pc_turn_id c \<noteq> ti_turn_id identity then Inl PROPOSAL_CYCLE_INVALID
       else ebind (proposal_cycle_material (pc_igreja_id c) (pc_reuniao_id c) (pc_conversa_id c) (pc_ator_pessoa_id c)
              expected_key expiry (pc_opens_new_attempt c) (pc_transaction c) (pc_nested_transaction c) identity)
         (\<lambda>expected_material.
            if pc_correlation_key c \<noteq> expected_key \<or> pc_material c \<noteq> hmac_sha256 (ev_secret E) expected_material
            then Inl PROPOSAL_CYCLE_INVALID else Inr c)))))"

definition same_proposal_cycle :: "proposal_cycle \<Rightarrow> proposal_cycle \<Rightarrow> bool" where
  "same_proposal_cycle l r \<longleftrightarrow>
     pc_igreja_id l = pc_igreja_id r \<and> pc_reuniao_id l = pc_reuniao_id r \<and> pc_conversa_id l = pc_conversa_id r
     \<and> pc_ator_pessoa_id l = pc_ator_pessoa_id r \<and> instant (pc_expires_at l) = instant (pc_expires_at r)
     \<and> pc_opens_new_attempt l = pc_opens_new_attempt r \<and> pc_transaction l = pc_transaction r
     \<and> pc_nested_transaction l = pc_nested_transaction r \<and> pc_turn_id l = pc_turn_id r
     \<and> pc_inbound_message_id l = pc_inbound_message_id r \<and> pc_provider_message_id l = pc_provider_message_id r
     \<and> pc_correlation_key l = pc_correlation_key r \<and> pc_material l = pc_material r"

definition new_proposal_cycle_expiry :: "datetime \<Rightarrow> (app_error, datetime) result" where
  "new_proposal_cycle_expiry now = (case add_days 1 now of None \<Rightarrow> Inl INVALID_ARGUMENT | Some t \<Rightarrow> Inr t)"

definition new_cycle_is_still_live :: "proposal_cycle \<Rightarrow> datetime \<Rightarrow> bool" where
  "new_cycle_is_still_live c now \<longleftrightarrow>
     pc_opens_new_attempt c \<and> instant now < instant (pc_expires_at c)
     \<and> instant (pc_expires_at c) - instant now \<le> MAX_CELL_REPORT_PROPOSAL_TTL"

definition prepare_cell_report_proposal_cycle ::
  "app_env \<Rightarrow> uuid \<Rightarrow> uuid \<Rightarrow> uuid \<Rightarrow> uuid \<Rightarrow> turn_identity \<Rightarrow> proposal_cycle app" where
  "prepare_cell_report_proposal_cycle E igreja reuniao conversa ator t =
     sbind (from_result
       (ebind (app_require_uuid igreja) (\<lambda>_. ebind (app_require_uuid reuniao) (\<lambda>_. ebind (app_require_uuid conversa) (\<lambda>_.
        ebind (app_require_uuid ator) (\<lambda>_. require_managed_cycle_identity (ev_text E) t igreja conversa)))))) (\<lambda>identity.
     sbind app_external_transaction (\<lambda>(transaction, nested).
     sbind (utc_now E) (\<lambda>read.
     sbind (from_result (canonical_utc read)) (\<lambda>now.
     sbind (load_and_authorize E igreja reuniao conversa ator now) (\<lambda>m.
       let open_new = ebind (new_proposal_cycle_expiry now) (\<lambda>e.
             mint_proposal_cycle E igreja reuniao conversa ator e True transaction nested identity) in
       if m_relatorio_status m \<noteq> RELATORIO_PENDENTE then raising REPORT_CONFLICT
       else if m_relatorio_snapshot m = PyNone then from_result open_new
       else from_result
         (ebind (hydrate_pending (ev_text E) (m_relatorio_snapshot m)) (\<lambda>current.
          ebind (proposal_expired current now) (\<lambda>expired.
          if expired then open_new
          else ebind (proposal_translated DATA_INTEGRITY
                        (derive_cell_report_proposal_bindings igreja reuniao conversa ator)) (\<lambda>expected_bindings.
               ebind (base_state_of (ev_text E) m) (\<lambda>expected_base.
               ebind (uncaught_proposal (cell_report_proposal_bindings_match (pp_bindings current) expected_bindings)) (\<lambda>same.
               if \<not> same then Inl PROPOSAL_BINDING_MISMATCH
               else if pp_base_state_digest current \<noteq> expected_base then Inl REPORT_CONFLICT
               else ebind (mint_proposal_cycle E igreja reuniao conversa ator (pp_expires_at current) False transaction nested
                             identity) (\<lambda>cycle.
                    ebind (translated DATA_INTEGRITY
                             (start_cell_report_workflow (ev_text E) (PyStr (pc_correlation_key cycle)) None)) (\<lambda>started.
                    if scope_digest (pp_workflow current) \<noteq> scope_digest started then Inl PROPOSAL_SCOPE_MISMATCH
                    else Inr cycle)))))))))))))"

definition build_cell_report_proposal_effect_payload_for_cycle ::
  "app_env \<Rightarrow> proposal_cycle \<Rightarrow> py \<Rightarrow> (app_error, py) result" where
  "build_cell_report_proposal_effect_payload_for_cycle E c text =
     ebind (require_proposal_cycle E c) (\<lambda>c.
       build_proposal_effect_payload_legacy E (pc_igreja_id c) (pc_reuniao_id c) (pc_conversa_id c) (pc_ator_pessoa_id c)
         (pc_correlation_key c) text (pc_expires_at c))"

section \<open>Proposing\<close>

record proposal_result =
  pr_proposal :: pending_proposal
  pr_confirmation_command :: "pystr option"
  pr_replayed :: bool

text \<open>
  What the stored proposal lets an operation do: replay it, or write a proposal with the workflow
  and the earlier receipts given.
\<close>

datatype proposal_decision = ReplayOf pending_proposal | WriteNext workflow "receipt list"

definition decide_proposal ::
  "unicode_db \<Rightarrow> meeting \<Rightarrow> effect_intent \<Rightarrow> bindings \<Rightarrow> candidate \<Rightarrow> workflow \<Rightarrow> pystr \<Rightarrow> datetime \<Rightarrow> datetime
   \<Rightarrow> (app_error, proposal_decision) result" where
  "decide_proposal U m intent b patch initial base now expiry =
     (if m_relatorio_snapshot m = PyNone then Inr (WriteNext initial [])
      else ebind (hydrate_pending U (m_relatorio_snapshot m)) (\<lambda>current.
           ebind (find_receipt 0 (pp_operation_receipts current) intent) (\<lambda>matched.
           ebind (proposal_expired current now) (\<lambda>expired.
           if expired then
             (if matched \<noteq> None then Inl PROPOSAL_EXPIRED
              else if scope_digest (pp_workflow current) = scope_digest initial then Inl PROPOSAL_EXPIRED
              else Inr (WriteNext initial []))
           else if pp_base_state_digest current \<noteq> base then Inl REPORT_CONFLICT
           else ebind (uncaught_proposal (cell_report_proposal_bindings_match (pp_bindings current) b)) (\<lambda>same.
                if \<not> same then Inl PROPOSAL_BINDING_MISMATCH
                else if scope_digest (pp_workflow current) \<noteq> scope_digest initial then Inl PROPOSAL_BINDING_MISMATCH
                else if instant (pp_expires_at current) \<noteq> instant expiry then Inl EXPIRY_MISMATCH
                else case matched of
                       Some i \<Rightarrow> if i \<noteq> length (pp_operation_receipts current) - 1 then Inl REPORT_CONFLICT
                                 else Inr (ReplayOf current)
                     | None \<Rightarrow>
                         if length (pp_operation_receipts current) \<ge> MAX_OPERATION_RECEIPTS then Inl OPERATION_LIMIT_EXCEEDED
                         else ebind (translated REPORT_CONFLICT
                                (ebind (merge_cell_report_candidates U (wf_candidate (pp_workflow current)) patch)
                                   (revise_cell_report_workflow U (pp_workflow current)))) (\<lambda>next.
                              Inr (WriteNext next (pp_operation_receipts current))))))))"

text \<open>The part of a proposal before the session is touched.\<close>

definition proposal_arguments ::
  "app_env \<Rightarrow> uuid \<Rightarrow> uuid \<Rightarrow> uuid \<Rightarrow> uuid \<Rightarrow> pystr \<Rightarrow> turn_identity \<Rightarrow> effect_intent \<Rightarrow> py \<Rightarrow> datetime \<Rightarrow> datetime
   \<Rightarrow> (app_error, datetime \<times> datetime \<times> bindings \<times> candidate \<times> workflow \<times> effect_intent) result" where
  "proposal_arguments E igreja reuniao conversa ator key t operation_intent text now expires_at =
     ebind (app_require_uuid igreja) (\<lambda>_.
     ebind (app_require_uuid reuniao) (\<lambda>_.
     ebind (app_require_uuid conversa) (\<lambda>_.
     ebind (app_require_uuid ator) (\<lambda>_.
     ebind (canonical_utc now) (\<lambda>current_time.
     ebind (canonical_utc expires_at) (\<lambda>expiry.
     if instant expiry \<le> instant current_time then Inl PROPOSAL_EXPIRED
     else if instant expiry - instant current_time > MAX_CELL_REPORT_PROPOSAL_TTL then Inl EXPIRY_LIMIT_EXCEEDED
     else ebind (proposal_material_of E igreja reuniao conversa ator key text expiry) (\<lambda>(b, patch, initial, payload).
          ebind (validate_trusted_effect (ev_text E) t operation_intent igreja conversa payload) (\<lambda>intent.
            Inr (current_time, expiry, b, patch, initial, intent)))))))))"

text \<open>The proposal an operation writes, with its JSON value; the write itself.\<close>

definition next_proposal ::
  "unicode_db \<Rightarrow> effect_intent \<Rightarrow> bindings \<Rightarrow> pystr \<Rightarrow> datetime \<Rightarrow> workflow \<Rightarrow> receipt list
   \<Rightarrow> (app_error, pending_proposal \<times> py) result" where
  "next_proposal U intent b base expiry next prior =
     proposal_translated PROPOSAL_CORRUPT
       (ebind (build_cell_report_pending_proposal U next b expiry (PyStr (ei_effect_id intent))
                 (PyStr (ei_payload_digest intent)) (PyStr base) prior) (\<lambda>p.
        ebind (proposal_to_jsonb U p) (\<lambda>j. Inr (p, j))))"

definition apply_decision ::
  "app_env \<Rightarrow> meeting \<Rightarrow> effect_intent \<Rightarrow> bindings \<Rightarrow> pystr \<Rightarrow> datetime \<Rightarrow> datetime \<Rightarrow> proposal_decision
   \<Rightarrow> (pending_proposal \<times> bool) app" where
  "apply_decision E m intent b base current_time expiry decision =
     (case decision of
        ReplayOf current \<Rightarrow> ret (current, True)
      | WriteNext next prior \<Rightarrow>
          sbind (from_result (next_proposal (ev_text E) intent b base expiry next prior)) (\<lambda>(p, j).
          sbind (flush_meeting E (m\<lparr>m_relatorio_snapshot := j, m_updated_at := Some current_time\<rparr>)) (\<lambda>_.
            ret (p, False))))"

definition propose_cell_report_legacy ::
  "app_env \<Rightarrow> uuid \<Rightarrow> uuid \<Rightarrow> uuid \<Rightarrow> uuid \<Rightarrow> pystr \<Rightarrow> turn_identity \<Rightarrow> effect_intent \<Rightarrow> py \<Rightarrow> datetime \<Rightarrow> datetime
   \<Rightarrow> proposal_result app" where
  "propose_cell_report_legacy E igreja reuniao conversa ator key t operation_intent text now expires_at =
     sbind (from_result (proposal_arguments E igreja reuniao conversa ator key t operation_intent text now expires_at))
      (\<lambda>(current_time, expiry, b, patch, initial, intent).
      sbind app_external_transaction (\<lambda>_.
      sbind (load_and_authorize E igreja reuniao conversa ator current_time) (\<lambda>m.
      if m_relatorio_status m \<noteq> RELATORIO_PENDENTE then raising REPORT_CONFLICT
      else sbind (from_result (base_state_of (ev_text E) m)) (\<lambda>base.
           sbind (from_result (decide_proposal (ev_text E) m intent b patch initial base current_time expiry)) (\<lambda>decision.
           sbind (apply_decision E m intent b base current_time expiry decision) (\<lambda>(p, replayed).
           sbind (from_result (confirmation_for (ev_text E) (pp_workflow p))) (\<lambda>command.
             ret \<lparr>pr_proposal = p, pr_confirmation_command = command, pr_replayed = replayed\<rparr>)))))))"

definition propose_cell_report_from_cycle ::
  "app_env \<Rightarrow> proposal_cycle \<Rightarrow> turn_identity \<Rightarrow> effect_intent \<Rightarrow> py \<Rightarrow> proposal_result app" where
  "propose_cell_report_from_cycle E cycle t operation_intent text =
     sbind (from_result
       (ebind (require_proposal_cycle E cycle) (\<lambda>c.
        ebind (require_managed_cycle_identity (ev_text E) t (pc_igreja_id c) (pc_conversa_id c)) (\<lambda>identity.
        if ti_inbound_message_id identity \<noteq> pc_inbound_message_id c \<or> ti_turn_id identity \<noteq> pc_turn_id c
           \<or> ti_provider_message_id identity \<noteq> pc_provider_message_id c
        then Inl PROPOSAL_CYCLE_STALE else Inr (c, identity))))) (\<lambda>(c, identity).
     sbind app_external_transaction (\<lambda>(transaction, nested).
     if transaction \<noteq> pc_transaction c \<or> nested \<noteq> pc_nested_transaction c then raising PROPOSAL_CYCLE_STALE
     else sbind (utc_now E) (\<lambda>read.
     sbind (from_result (canonical_utc read)) (\<lambda>current_time.
     sbind (prepare_cell_report_proposal_cycle E (pc_igreja_id c) (pc_reuniao_id c) (pc_conversa_id c) (pc_ator_pessoa_id c)
              identity) (\<lambda>current_cycle.
     if \<not> same_proposal_cycle c current_cycle
        \<and> \<not> (pc_opens_new_attempt c \<and> pc_opens_new_attempt current_cycle \<and> new_cycle_is_still_live c current_time)
     then raising PROPOSAL_CYCLE_STALE
     else propose_cell_report_legacy E (pc_igreja_id c) (pc_reuniao_id c) (pc_conversa_id c) (pc_ator_pessoa_id c)
            (pc_correlation_key c) t operation_intent text current_time (pc_expires_at c))))))"

section \<open>Confirming\<close>

record confirmation_result =
  cr_snapshot :: py
  cr_accepted_workflow :: "workflow option"
  cr_replayed :: bool
  cr_requires_caller_commit :: bool

text \<open>Equality of the stored amount with the one of a valid snapshot, both of two places.\<close>

definition same_decimal :: "decimal \<Rightarrow> decimal \<Rightarrow> bool" where
  "same_decimal a b =
     (case (a, b) of
        (DFinite s ds e, DFinite s' ds' e') \<Rightarrow>
          (coeff_nat ds = 0 \<and> coeff_nat ds' = 0) \<or> (s = s' \<and> decimal_same_value ds e ds' e')
      | (DInfinite s, DInfinite s') \<Rightarrow> s = s'
      | _ \<Rightarrow> False)"

definition validate_final_replay ::
  "unicode_db \<Rightarrow> meeting \<Rightarrow> uuid \<Rightarrow> pystr \<Rightarrow> pystr \<Rightarrow> (app_error, py) result" where
  "validate_final_replay U m ator effect payload =
     (if is_canonical_legacy_human_report_snapshot U (m_relatorio_snapshot m) (m_id m) (m_data m) (m_tema m)
           (m_relatorio_status m) (py_of_decimal (m_oferta_valor m)) (m_observacoes m) (m_relatorio_enviado_em m)
           (m_relatorio_enviado_por m) ator
      then Inl REPORT_CONFLICT
      else ebind (translated DATA_INTEGRITY (validate_cell_report_snapshot_v2 U (m_relatorio_snapshot m))) (\<lambda>s.
        if sn_submission_effect_id s \<noteq> effect \<or> sn_submission_payload_digest s \<noteq> payload then Inl REPORT_CONFLICT
        else if m_relatorio_enviado_por m \<noteq> Some ator
                \<or> (case m_relatorio_enviado_em m of None \<Rightarrow> True | Some t \<Rightarrow> tzinfo t = Naive)
                \<or> m_observacoes m \<noteq> sn_observacoes s then Inl DATA_INTEGRITY
        else if (case sn_oferta_valor s of
                   None \<Rightarrow> m_oferta_valor m \<noteq> None
                 | Some d \<Rightarrow> (case m_oferta_valor m of None \<Rightarrow> True | Some x \<Rightarrow> \<not> same_decimal x d))
        then Inl DATA_INTEGRITY
        else ecatch (snapshot_to_jsonb U s) (\<lambda>e. Inl (RaisedSnapshot e))))"

text \<open>The checks of a first confirmation against the stored proposal; the accepted workflow and the snapshot.\<close>

definition accept_confirmation ::
  "unicode_db \<Rightarrow> meeting \<Rightarrow> effect_intent \<Rightarrow> bindings \<Rightarrow> py \<Rightarrow> datetime \<Rightarrow> (app_error, workflow \<times> py) result" where
  "accept_confirmation U m intent b command now =
     ebind (hydrate_pending U (m_relatorio_snapshot m)) (\<lambda>p.
     ebind (uncaught_proposal (cell_report_proposal_bindings_match (pp_bindings p) b)) (\<lambda>same.
     if \<not> same then Inl PROPOSAL_BINDING_MISMATCH
     else ebind (proposal_expired p now) (\<lambda>expired.
     if expired then Inl PROPOSAL_EXPIRED
     else if list_ex (\<lambda>r. r_effect_id r = ei_effect_id intent) (pp_operation_receipts p) then Inl IDEMPOTENCY_CONFLICT
     else ebind (base_state_of U m) (\<lambda>base.
     if pp_base_state_digest p \<noteq> base then Inl REPORT_CONFLICT
     else ebind (translated CONFIRMATION_REJECTED (correlate_cell_report_confirmation U (pp_workflow p) command)) (\<lambda>accepted.
     let c = wf_candidate accepted in
     if presentes c = None \<or> visitantes c = None \<or> decisoes c = None \<or> oferta c = None then Inl PROPOSAL_CORRUPT
     else ebind (translated PROPOSAL_CORRUPT
            (build_cell_report_snapshot_v2 U (py_of_int (presentes c)) (py_of_int (visitantes c)) (py_of_int (decisoes c))
               (py_of_str (oferta c)) (py_of_str (observacoes c)) (PyStr (ei_effect_id intent))
               (PyStr (ei_payload_digest intent)))) (\<lambda>s.
          Inr (accepted, s)))))))"

definition sent_meeting :: "meeting \<Rightarrow> candidate \<Rightarrow> decimal \<Rightarrow> py \<Rightarrow> uuid \<Rightarrow> datetime \<Rightarrow> meeting" where
  "sent_meeting m c amount snapshot ator now =
     m\<lparr>m_relatorio_status := RELATORIO_ENVIADO, m_oferta_valor := Some amount, m_observacoes := observacoes c,
       m_relatorio_enviado_por := Some ator, m_relatorio_enviado_em := Some now, m_updated_at := Some now,
       m_relatorio_snapshot := snapshot\<rparr>"

definition confirmation_arguments ::
  "app_env \<Rightarrow> uuid \<Rightarrow> uuid \<Rightarrow> uuid \<Rightarrow> uuid \<Rightarrow> py \<Rightarrow> turn_identity \<Rightarrow> effect_intent \<Rightarrow> datetime
   \<Rightarrow> (app_error, datetime \<times> bindings \<times> effect_intent) result" where
  "confirmation_arguments E igreja reuniao conversa ator command t submission_intent now =
     ebind (app_require_uuid igreja) (\<lambda>_.
     ebind (app_require_uuid reuniao) (\<lambda>_.
     ebind (app_require_uuid conversa) (\<lambda>_.
     ebind (app_require_uuid ator) (\<lambda>_.
     ebind (canonical_utc now) (\<lambda>current_time.
     ebind (confirmation_material igreja reuniao conversa ator command) (\<lambda>(b, payload).
     ebind (validate_trusted_effect (ev_text E) t submission_intent igreja conversa payload) (\<lambda>intent.
       Inr (current_time, b, intent))))))))"

definition confirmed_amount :: "unicode_db \<Rightarrow> workflow \<Rightarrow> (app_error, decimal) result" where
  "confirmed_amount U accepted =
     (case oferta (wf_candidate accepted) of
        None \<Rightarrow> Inl PROPOSAL_CORRUPT
      | Some x \<Rightarrow> (case decimal_of_str U x of None \<Rightarrow> Inl RaisedDecimal | Some d \<Rightarrow> Inr d))"

definition final_snapshot :: "unicode_db \<Rightarrow> py \<Rightarrow> (app_error, py) result" where
  "final_snapshot U s =
     ecatch (ebind (validate_cell_report_snapshot_v2 U s) (snapshot_to_jsonb U)) (\<lambda>e. Inl (RaisedSnapshot e))"

definition confirm_cell_report ::
  "app_env \<Rightarrow> uuid \<Rightarrow> uuid \<Rightarrow> uuid \<Rightarrow> uuid \<Rightarrow> py \<Rightarrow> turn_identity \<Rightarrow> effect_intent \<Rightarrow> datetime \<Rightarrow> bool
   \<Rightarrow> confirmation_result app" where
  "confirm_cell_report E igreja reuniao conversa ator command t submission_intent now expected_replayed =
     sbind (from_result (confirmation_arguments E igreja reuniao conversa ator command t submission_intent now))
      (\<lambda>(current_time, b, intent).
      sbind app_external_transaction (\<lambda>_.
      sbind (load_and_authorize E igreja reuniao conversa ator current_time) (\<lambda>m.
      let replayed = (m_relatorio_status m = RELATORIO_ENVIADO) in
      if expected_replayed \<noteq> replayed then raising REPLAY_EXPECTATION_MISMATCH
      else if replayed then
        sbind (from_result (validate_final_replay (ev_text E) m ator (ei_effect_id intent) (ei_payload_digest intent))) (\<lambda>s.
          ret \<lparr>cr_snapshot = s, cr_accepted_workflow = None, cr_replayed = True, cr_requires_caller_commit = False\<rparr>)
      else if m_relatorio_status m \<noteq> RELATORIO_PENDENTE then raising REPORT_CONFLICT
      else sbind (from_result (accept_confirmation (ev_text E) m intent b command current_time)) (\<lambda>(accepted, s).
           sbind (from_result (confirmed_amount (ev_text E) accepted)) (\<lambda>amount.
           sbind (flush_meeting E (sent_meeting m (wf_candidate accepted) amount s ator current_time)) (\<lambda>_.
           sbind (from_result (final_snapshot (ev_text E) s)) (\<lambda>final.
             ret \<lparr>cr_snapshot = final, cr_accepted_workflow = Some accepted, cr_replayed = False,
                  cr_requires_caller_commit = True\<rparr>)))))))"

end
