(* ===== verification/ReportRules.thy ===== *)
theory ReportRules
  imports ReportApplication
begin

text \<open>
  How the operations of the application service run: what they leave of the session, when the
  authorisation under locks passes, and the rules that take a run of a proposal or of a
  confirmation apart into its arguments, its authorised meeting, its decision and its write.
\<close>

section \<open>Frames\<close>

definition tables :: "app_db \<Rightarrow> conversation list \<times> meeting list \<times> celula list \<times> pessoa list \<times> app_user list \<times> user_role list" where
  "tables db = (db_conversations db, db_meetings db, db_celulas db, db_pessoas db, db_users db, db_roles db)"

text \<open>The connection apart from whether its transaction has failed.\<close>

definition connection :: "app_db \<Rightarrow> pg \<times> nat option" where
  "connection db = ((db_pg db)\<lparr>pg_failed := False\<rparr>, db_nested db)"

definition reads_only :: "app_db \<Rightarrow> app_db \<Rightarrow> bool" where
  "reads_only db db' \<longleftrightarrow> tables db' = tables db \<and> connection db' = connection db"

text \<open>At most the row of one meeting is replaced.\<close>

definition writes_meeting :: "uuid \<Rightarrow> app_db \<Rightarrow> app_db \<Rightarrow> bool" where
  "writes_meeting r db db' \<longleftrightarrow>
     connection db' = connection db
     \<and> db_conversations db' = db_conversations db \<and> db_celulas db' = db_celulas db \<and> db_pessoas db' = db_pessoas db
     \<and> db_users db' = db_users db \<and> db_roles db' = db_roles db
     \<and> list_all2 (\<lambda>x y. m_id y = m_id x \<and> (m_id x \<noteq> r \<longrightarrow> y = x)) (db_meetings db) (db_meetings db')"

interpretation reads: preorder_effects reads_only
  by unfold_locales (auto simp: reads_only_def)

lemma meeting_rows_trans:
  fixes r :: uuid
  defines "P \<equiv> \<lambda>x y. m_id y = m_id x \<and> (m_id x \<noteq> r \<longrightarrow> y = x)"
  assumes "list_all2 P xs ys" "list_all2 P ys zs"
  shows "list_all2 P xs zs"
  by (rule list_all2_trans [OF _ assms(2,3)]) (auto simp: P_def)

interpretation writes: preorder_effects "writes_meeting r"
proof
  show "writes_meeting r w w" for w by (auto simp: writes_meeting_def intro: list.rel_refl)
  show "writes_meeting r a c" if "writes_meeting r a b" "writes_meeting r b c" for a b c
    using that meeting_rows_trans by (simp add: writes_meeting_def) blast
qed

lemma reads_writes: "reads_only db db' \<Longrightarrow> writes_meeting r db db'"
  by (auto simp: reads_only_def writes_meeting_def tables_def intro: list.rel_refl)

lemma obeys_reads_writes: "obeys reads_only m \<Longrightarrow> obeys (writes_meeting r) m"
  using reads_writes by (auto simp: obeys_def)

lemma reads_basic:
  "obeys reads_only (execute E st f)" "obeys reads_only (from_result x)" "obeys reads_only (utc_now E)"
  "obeys reads_only app_external_transaction" "obeys reads_only (app_require_tenant_scope g)"
  by (auto simp: obeys_def execute_def from_result_def utc_now_def app_external_transaction_def app_require_tenant_scope_def
      verify_tenant_scope_cases reads_only_def tables_def connection_def split: option.splits if_splits)

lemmas app_frame = reads.frame_rules reads.obeys_rows reads_basic

lemma reads_conversation: "obeys reads_only (revalidate_locked_conversation_actor E g c a)"
  unfolding revalidate_locked_conversation_actor_def by (intro app_frame)

lemma reads_meeting: "obeys reads_only (load_locked_meeting E g r)"
  unfolding load_locked_meeting_def by (intro app_frame)

lemma reads_access: "obeys reads_only (revalidate_ministerial_access E g a)"
  unfolding revalidate_ministerial_access_def by (intro app_frame)

lemma reads_leader: "obeys reads_only (revalidate_locked_leader E g m a)"
  unfolding revalidate_locked_leader_def by (intro app_frame reads_access)

lemma reads_authorize: "obeys reads_only (load_and_authorize E g r c a now)"
  unfolding load_and_authorize_def by (intro app_frame reads_conversation reads_meeting reads_leader)

lemma reads_prepare: "obeys reads_only (prepare_cell_report_proposal_cycle E g r c a t)"
  unfolding prepare_cell_report_proposal_cycle_def Let_def by (intro app_frame reads_authorize)

lemma flush_writes: "obeys (writes_meeting (m_id m)) (flush_meeting E m)"
proof -
  have "obeys (writes_meeting (m_id m)) (\<lambda>db. (Inr (), db\<lparr>db_meetings := map (\<lambda>x. if m_id x = m_id m
          then m\<lparr>m_relatorio_snapshot := ev_jsonb E (m_relatorio_snapshot m)\<rparr> else x) (db_meetings db)\<rparr>))"
    by (auto simp: obeys_def writes_meeting_def connection_def list_all2_map2 intro: list.rel_refl_strong)
  then show ?thesis
    unfolding flush_meeting_def by (intro writes.obeys_sbind obeys_reads_writes [OF reads_basic(1)])
qed

section \<open>Runs\<close>

named_theorems app_run \<open>when the basic operations answer a value\<close>

lemma from_result_Inr [app_run]: "from_result r db = (Inr x, db') \<longleftrightarrow> r = Inr x \<and> db' = db"
  by (auto simp: from_result_def)

lemma execute_Inr [app_run]:
  "execute E st f db = (Inr x, db') \<longleftrightarrow>
   \<not> pg_failed (db_pg db) \<and> \<not> ev_fault E db st \<and> x = f db \<and> db' = db\<lparr>db_log := db_log db @ [st]\<rparr>"
  by (auto simp: execute_def)

lemma external_transaction_Inr [app_run]:
  "app_external_transaction db = (Inr (t, n), db') \<longleftrightarrow> pg_transaction (db_pg db) = Some t \<and> n = db_nested db \<and> db' = db"
  by (auto simp: app_external_transaction_def split: option.splits)

lemma tenant_scope_Inr [app_run]:
  "app_require_tenant_scope g db = (Inr x, db') \<longleftrightarrow> \<not> pg_failed (db_pg db) \<and> tenant_session (db_pg db) g \<and> db' = db"
  by (auto simp: app_require_tenant_scope_def verify_tenant_scope_cases)

lemma utc_now_Inr [app_run]:
  "utc_now E db = (Inr t, db') \<longleftrightarrow> t = ev_clock E (db_reads db) \<and> db' = db\<lparr>db_reads := db_reads db + 1\<rparr>"
  by (auto simp: utc_now_def)

lemma raising_Inr [app_run]: "raising e db \<noteq> (Inr x, db')"
  by simp

lemma ret_Inr [app_run]: "ret x db = (Inr y, db') \<longleftrightarrow> y = x \<and> db' = db"
  by auto

lemma take_two: "take 2 xs = [x] \<longleftrightarrow> xs = [x]"
  by (cases xs; cases "tl xs") auto

section \<open>Authorisation\<close>

text \<open>The reference reading of the checks under locks, one predicate per entity.\<close>

definition conversation_ok :: "app_db \<Rightarrow> uuid \<Rightarrow> uuid \<Rightarrow> uuid \<Rightarrow> bool" where
  "conversation_ok db g c a \<longleftrightarrow>
     (\<exists>v. conversation_rows db g c a = [v] \<and> cv_estado v \<in> {u ''ia'', u ''aguardando''} \<and> cv_numero_oficial v
        \<and> cv_assumido_por v = None)"

definition meeting_row :: "app_db \<Rightarrow> uuid \<Rightarrow> uuid \<Rightarrow> meeting \<Rightarrow> bool" where
  "meeting_row db g r m \<longleftrightarrow> meeting_rows db g r = [m] \<and> m_celula_id m \<noteq> 0"

definition leader_ok :: "app_db \<Rightarrow> uuid \<Rightarrow> uuid \<Rightarrow> uuid \<Rightarrow> bool" where
  "leader_ok db g cell a \<longleftrightarrow> length (leader_rows db g cell a) = 1"

definition access_ok :: "app_db \<Rightarrow> uuid \<Rightarrow> uuid \<Rightarrow> bool" where
  "access_ok db g a \<longleftrightarrow>
     (\<exists>x. access_rows db g a = [x] \<and> au_id x \<noteq> 0
        \<and> role_rows db g (au_id x) \<noteq> [] \<and> ur_id (hd (role_rows db g (au_id x))) \<noteq> 0)"

definition authorized :: "app_env \<Rightarrow> app_db \<Rightarrow> uuid \<Rightarrow> uuid \<Rightarrow> uuid \<Rightarrow> uuid \<Rightarrow> datetime \<Rightarrow> meeting \<Rightarrow> bool" where
  "authorized E db g r c a now m \<longleftrightarrow>
     tenant_session (db_pg db) g \<and> conversation_ok db g c a \<and> meeting_row db g r m
     \<and> validate_meeting_eligibility (ev_tz E) m now = Inr () \<and> leader_ok db g (m_celula_id m) a \<and> access_ok db g a"

text \<open>The locks a successful authorisation takes, in their order.\<close>

definition authorization_locks :: "app_db \<Rightarrow> uuid \<Rightarrow> uuid \<Rightarrow> uuid \<Rightarrow> meeting \<Rightarrow> statement list" where
  "authorization_locks db g c a m =
     [LockConversation c, LockMeeting (m_id m), LockLeader (m_celula_id m) a, LockAccess a,
      LockRole (au_id (hd (access_rows db g a)))]"

definition faultless :: "app_env \<Rightarrow> app_db \<Rightarrow> bool" where
  "faultless E db \<longleftrightarrow> \<not> pg_failed (db_pg db) \<and> (\<forall>d st. \<not> ev_fault E d st)"

text \<open>What each row of a query satisfies, and that the queries read the tables only.\<close>

lemma rows_sound:
  "v \<in> set (conversation_rows db g c a) \<Longrightarrow> cv_id v = c \<and> cv_igreja_id v = g \<and> cv_pessoa_id v = Some a"
  "m \<in> set (meeting_rows db g r) \<Longrightarrow> m_igreja_id m = g \<and> m_id m = r \<and> m \<in> set (db_meetings db)"
  "q \<in> set (leader_rows db g cell a) \<Longrightarrow> (case q of (e, p) \<Rightarrow> pe_id p = a \<and> pe_igreja_id p = g \<and> ce_id e = cell \<and> ce_igreja_id e = g
     \<and> ce_ativo e \<and> ce_lider_id e = Some a \<and> pe_arquivada_em p = None \<and> \<not> pe_sem_interesse p \<and> \<not> pe_optout p)"
  "x \<in> set (access_rows db g a) \<Longrightarrow> au_igreja_id x = Some g \<and> au_pessoa_id x = Some a"
  "y \<in> set (role_rows db g i) \<Longrightarrow> ur_igreja_id y = g \<and> ur_user_id y = i \<and> ur_papel y \<in> set MINISTERIAL_ROLES"
  by (auto simp: conversation_rows_def meeting_rows_def leader_rows_def access_rows_def role_rows_def)

lemma rows_tables: "tables db' = tables db \<Longrightarrow>
   conversation_rows db' g c a = conversation_rows db g c a \<and> meeting_rows db' g r = meeting_rows db g r
   \<and> leader_rows db' g cell a = leader_rows db g cell a \<and> access_rows db' g a = access_rows db g a
   \<and> role_rows db' g i = role_rows db g i"
  by (auto simp: tables_def conversation_rows_def meeting_rows_def leader_rows_def access_rows_def role_rows_def)

text \<open>A query that must answer exactly one row.\<close>

lemma single_row:
  obtains x where "rows = [x]" "take 2 rows = [x]"
  | "take 2 rows = []" "\<And>x. rows \<noteq> [x]"
  | x y where "take 2 rows = [x, y]" "\<And>x. rows \<noteq> [x]"
  by (cases rows; cases "tl rows") auto

lemma conversation_run:
  "revalidate_locked_conversation_actor E g c a db = (Inr x, db') \<longleftrightarrow>
   \<not> pg_failed (db_pg db) \<and> \<not> ev_fault E db (LockConversation c) \<and> conversation_ok db g c a
   \<and> db' = db\<lparr>db_log := db_log db @ [LockConversation c]\<rparr>"
  using rows_sound(1) [of _ db g c a]
  by (cases rule: single_row [of "conversation_rows db g c a"])
    (auto simp: revalidate_locked_conversation_actor_def sbind_Inr app_run conversation_ok_def VALID_ESTADOS_def)

lemma meeting_run:
  "load_locked_meeting E g r db = (Inr m, db') \<longleftrightarrow>
   \<not> pg_failed (db_pg db) \<and> \<not> ev_fault E db (LockMeeting r) \<and> meeting_row db g r m
   \<and> db' = db\<lparr>db_log := db_log db @ [LockMeeting r]\<rparr>"
  using rows_sound(2) [of _ db g r]
  by (cases rule: single_row [of "meeting_rows db g r"])
    (auto simp: load_locked_meeting_def sbind_Inr app_run meeting_row_def)

lemma access_run:
  "revalidate_ministerial_access E g a db = (Inr x, db') \<longleftrightarrow>
   \<not> pg_failed (db_pg db) \<and> \<not> ev_fault E db (LockAccess a) \<and> access_ok db g a
   \<and> (let i = au_id (hd (access_rows db g a)); d = db\<lparr>db_log := db_log db @ [LockAccess a]\<rparr>
      in \<not> ev_fault E d (LockRole i) \<and> db' = d\<lparr>db_log := db_log d @ [LockRole i]\<rparr>)"
proof (cases rule: single_row [of "access_rows db g a"])
  case (1 y)
  have y: "au_igreja_id y = Some g" "au_pessoa_id y = Some a" using rows_sound(4) [of y db g a] 1 by auto
  let ?d = "db\<lparr>db_log := db_log db @ [LockAccess a]\<rparr>"
  have r: "role_rows ?d g i = role_rows db g i" for i using rows_tables [of ?d db] by (simp add: tables_def)
  show ?thesis
    using 1 y rows_sound(5) [of _ db g "au_id y"]
    by (cases "role_rows db g (au_id y)")
      (auto simp: revalidate_ministerial_access_def sbind_Inr app_run access_ok_def Let_def r)
qed (auto simp: revalidate_ministerial_access_def sbind_Inr app_run access_ok_def Let_def)

lemma leader_run:
  "revalidate_locked_leader E g m a db = (Inr x, db') \<longleftrightarrow>
   \<not> pg_failed (db_pg db) \<and> \<not> ev_fault E db (LockLeader (m_celula_id m) a) \<and> leader_ok db g (m_celula_id m) a
   \<and> revalidate_ministerial_access E g a (db\<lparr>db_log := db_log db @ [LockLeader (m_celula_id m) a]\<rparr>) = (Inr x, db')"
  using rows_sound(3) [of _ db g "m_celula_id m" a]
  by (cases rule: single_row [of "leader_rows db g (m_celula_id m) a"])
    (auto simp: revalidate_locked_leader_def sbind_Inr app_run leader_ok_def length_Suc_conv split: prod.splits)

lemma log_simps [simp]:
  "conversation_ok (db\<lparr>db_log := l\<rparr>) = conversation_ok db" "meeting_row (db\<lparr>db_log := l\<rparr>) = meeting_row db"
  "leader_ok (db\<lparr>db_log := l\<rparr>) = leader_ok db" "access_ok (db\<lparr>db_log := l\<rparr>) = access_ok db"
  "access_rows (db\<lparr>db_log := l\<rparr>) = access_rows db"
  by (simp_all add: fun_eq_iff conversation_ok_def conversation_rows_def meeting_row_def meeting_rows_def leader_ok_def
      leader_rows_def access_ok_def access_rows_def role_rows_def)

lemma meeting_row_id: "meeting_row db g r m \<Longrightarrow> m_id m = r \<and> m_igreja_id m = g \<and> m \<in> set (db_meetings db)"
  using rows_sound(2) [of m db g r] by (simp add: meeting_row_def)

lemma authorize_sound:
  assumes "load_and_authorize E g r c a now db = (Inr m, db')"
  shows "authorized E db g r c a now m \<and> \<not> pg_failed (db_pg db)
    \<and> db' = db\<lparr>db_log := db_log db @ authorization_locks db g c a m\<rparr>"
  using assms meeting_row_id [of db g r m]
  by (auto simp: load_and_authorize_def sbind_Inr app_run conversation_run meeting_run leader_run access_run Let_def
      authorized_def authorization_locks_def)

lemma authorize_complete:
  assumes "authorized E db g r c a now m" "faultless E db"
  shows "load_and_authorize E g r c a now db = (Inr m, db\<lparr>db_log := db_log db @ authorization_locks db g c a m\<rparr>)"
  using assms meeting_row_id [of db g r m]
  by (auto simp: load_and_authorize_def sbind_Inr app_run conversation_run meeting_run leader_run access_run Let_def
      authorized_def authorization_locks_def faultless_def)

section \<open>A proposal, taken apart\<close>

lemma propose_run:
  "propose_cell_report_legacy E g r c a key t intent text now expires db = (Inr res, db') \<longleftrightarrow>
   (\<exists>n e b patch w i m d base dec p rep cmd.
      proposal_arguments E g r c a key t intent text now expires = Inr (n, e, b, patch, w, i)
      \<and> pg_transaction (db_pg db) \<noteq> None
      \<and> load_and_authorize E g r c a n db = (Inr m, d)
      \<and> m_relatorio_status m = RELATORIO_PENDENTE
      \<and> base_state_of (ev_text E) m = Inr base
      \<and> decide_proposal (ev_text E) m i b patch w base n e = Inr dec
      \<and> apply_decision E m i b base n e dec d = (Inr (p, rep), db')
      \<and> confirmation_for (ev_text E) (pp_workflow p) = Inr cmd
      \<and> res = \<lparr>pr_proposal = p, pr_confirmation_command = cmd, pr_replayed = rep\<rparr>)"
  unfolding propose_cell_report_legacy_def
  by (auto simp: sbind_Inr app_run app_external_transaction_def split: prod.splits option.splits if_splits) blast+

lemma confirm_run:
  "confirm_cell_report E g r c a command t intent now replay db = (Inr res, db') \<longleftrightarrow>
   (\<exists>n b i m d. confirmation_arguments E g r c a command t intent now = Inr (n, b, i)
      \<and> pg_transaction (db_pg db) \<noteq> None
      \<and> load_and_authorize E g r c a n db = (Inr m, d)
      \<and> (replay \<longleftrightarrow> m_relatorio_status m = RELATORIO_ENVIADO)
      \<and> (if replay then
           \<exists>s. validate_final_replay (ev_text E) m a (ei_effect_id i) (ei_payload_digest i) = Inr s \<and> db' = d
             \<and> res = \<lparr>cr_snapshot = s, cr_accepted_workflow = None, cr_replayed = True, cr_requires_caller_commit = False\<rparr>
         else m_relatorio_status m = RELATORIO_PENDENTE
           \<and> (\<exists>acc s x final. accept_confirmation (ev_text E) m i b command n = Inr (acc, s)
                \<and> confirmed_amount (ev_text E) acc = Inr x
                \<and> flush_meeting E (sent_meeting m (wf_candidate acc) x s a n) d = (Inr (), db')
                \<and> final_snapshot (ev_text E) s = Inr final
                \<and> res = \<lparr>cr_snapshot = final, cr_accepted_workflow = Some acc, cr_replayed = False,
                        cr_requires_caller_commit = True\<rparr>)))"
  unfolding confirm_cell_report_def Let_def
  by (cases replay)
    (auto simp: sbind_Inr app_run app_external_transaction_def split: prod.splits option.splits if_splits, blast+)

end
