(* ===== verification/ReportConfirm.thy ===== *)
theory ReportConfirm
  imports ReportRules
begin

text \<open>
  The confirmation of a cell report: what its arguments and its checks against the stored proposal
  amount to, the row it writes, and the properties of a run.
\<close>

section \<open>Arguments\<close>

lemma canonical_utc_Inr:
  "valid_datetime t \<Longrightarrow> canonical_utc t = Inr n \<Longrightarrow> valid_datetime n \<and> tzinfo n = TimezoneUtc \<and> instant n = instant t"
  using astimezone_utc_instant [of t n] by (auto simp: canonical_utc_def split: if_splits option.splits)

lemma canonical_utc_same: "valid_datetime t \<Longrightarrow> tzinfo t = TimezoneUtc \<Longrightarrow> canonical_utc t = Inr t"
  by (simp add: canonical_utc_def utcoffset_def astimezone_utc_utc)

lemma app_uuid_Inr: "app_require_uuid i = Inr j \<longleftrightarrow> i \<noteq> 0 \<and> j = i"
  by (auto simp: app_require_uuid_def)

lemma translated_Inr: "translated code r = Inr x \<longleftrightarrow> r = Inr x"
  by (auto simp: translated_def ecatch_raise_Inr)

lemma uncaught_Inr: "uncaught_proposal r = Inr x \<longleftrightarrow> r = Inr x"
  by (cases r) (auto simp: uncaught_proposal_def)

lemma proposal_translated_Inr: "proposal_translated code r = Inr x \<longleftrightarrow> r = Inr x"
  by (cases r) (auto simp: proposal_translated_def split: proposal_error.splits)

lemmas app_Inr = ebind_eq_Inr translated_Inr uncaught_Inr proposal_translated_Inr app_uuid_Inr

text \<open>The one intent a turn hands to the service: of the turn, a tool call, for this very payload.\<close>

definition effect_for :: "unicode_db \<Rightarrow> turn_identity \<Rightarrow> uuid \<Rightarrow> uuid \<Rightarrow> py \<Rightarrow> effect_intent \<Rightarrow> bool" where
  "effect_for U t g c payload v \<longleftrightarrow>
     identity_ok U t \<and> ti_igreja_id t = g \<and> ti_conversation_id t = c
     \<and> intent_ok v \<and> ei_turn_id v = ti_turn_id t \<and> ei_kind v = TOOL_CALL
     \<and> digest_effect_payload (ei_effect_id v) TOOL_CALL payload = Inr (ei_payload_digest v)"

lemma trusted_effect_Inr:
  "validate_trusted_effect U t v g c payload = Inr w \<longleftrightarrow> w = v \<and> effect_for U t g c payload v"
  by (auto simp: validate_trusted_effect_def app_Inr validate_intents_result effect_for_def
      MAX_EFFECT_INTENTS_PER_TURN_def)

lemma effect_shapes: "effect_for U t g c payload v \<Longrightarrow>
   prefixed_hex64 effect_id_prefix (ei_effect_id v) \<and> prefixed_hex64 payload_digest_prefix (ei_payload_digest v)"
  by (auto simp: effect_for_def intent_ok_def)

lemma confirmation_arguments_Inr:
  "confirmation_arguments E g r c a command t v now = Inr (n, b, w) \<longleftrightarrow>
   canonical_utc now = Inr n \<and> derive_cell_report_proposal_bindings g r c a = Inr b
   \<and> (\<exists>code. parse_cell_report_confirmation_command command = Inr code)
   \<and> w = v \<and> effect_for (ev_text E) t g c (confirmation_effect_payload (PyDict (bindings_json b)) command) v"
  using derived_bindings_ok [of g r c a b]
  by (auto simp: confirmation_arguments_def confirmation_material_def app_Inr trusted_effect_Inr bindings_to_jsonb_result
      derived_bindings)

section \<open>The accepted report\<close>

text \<open>A stored proposal at a moment: readable, of the given bindings, with the meeting's base state, not expired.\<close>

definition live :: "pending_proposal \<Rightarrow> datetime \<Rightarrow> bool" where
  "live p now \<longleftrightarrow> instant now < instant (pp_expires_at p)
     \<and> instant (pp_expires_at p) \<le> instant now + MAX_CELL_REPORT_PROPOSAL_TTL"

definition pending_row :: "unicode_db \<Rightarrow> meeting \<Rightarrow> bindings \<Rightarrow> pending_proposal \<Rightarrow> bool" where
  "pending_row U m b p \<longleftrightarrow>
     hydrate_pending U (m_relatorio_snapshot m) = Inr p \<and> pp_bindings p = b
     \<and> base_state_of U m = Inr (pp_base_state_digest p)"

definition accept_workflow :: "workflow \<Rightarrow> workflow" where
  "accept_workflow w = w\<lparr>state := CONFIRMATION_ACCEPTED, accepted_proposal_digest := proposal_digest w\<rparr>"

text \<open>The snapshot a candidate is stored as.\<close>

definition report_value :: "candidate \<Rightarrow> pystr \<Rightarrow> pystr \<Rightarrow> py" where
  "report_value c eff pay =
     PyDict (snapshot_json (the (presentes c)) (the (visitantes c)) (the (decisoes c)) (oferta c) (observacoes c) eff pay)"

lemma hydrate_Inr:
  "hydrate_pending U v = Inr p \<longleftrightarrow> rehydrate_cell_report_pending_proposal U v = Inr p"
  by (cases v) (auto simp: hydrate_pending_def proposal_translated_Inr rehydrate_cell_report_pending_proposal_def)

lemma hydrated_ok:
  "unicode_ok U \<Longrightarrow> hydrate_pending U v = Inr p \<Longrightarrow> proposal_ok U p \<and> valid_datetime (pp_expires_at p)"
  using rehydrated_proposal_ok by (simp add: hydrate_Inr)

lemma not_expired_iff: "proposal_expired p now = Inr False \<longleftrightarrow> live p now"
  by (auto simp: proposal_expired_def Let_def live_def)

lemma command_complete:
  assumes "unicode_ok U" "cell_report_confirmation_command U w = Inr cmd"
  shows "workflow_ok U w \<and> candidate_ok U (wf_candidate w) \<and> is_complete (wf_candidate w)"
proof -
  have w: "workflow_ok U w" "confirmation_code w \<noteq> PyNone"
    using assms by (auto simp: cell_report_confirmation_command_def ebind_eq_Inr validate_iff split: if_splits)
  then obtain s n c q st a where "w = minted s n c q st a" "wf_parts U s n c q st a" by (auto simp: workflow_ok_def)
  then show ?thesis using w by (auto simp: wf_parts_def split: if_splits)
qed

lemma candidate_built:
  assumes "unicode_ok U" "candidate_ok U c" "is_complete c"
    and "prefixed_hex64 effect_id_prefix eff" "prefixed_hex64 payload_digest_prefix pay"
  shows "build_cell_report_snapshot_v2 U (py_of_int (presentes c)) (py_of_int (visitantes c)) (py_of_int (decisoes c))
      (py_of_str (oferta c)) (py_of_str (observacoes c)) (PyStr eff) (PyStr pay) = Inr (report_value c eff pay)"
  using candidate_enters_snapshot [OF assms(1) validate_candidate_ok [OF assms(1,2)] assms(3-5)]
  by (simp add: report_value_def)

lemma accept_confirmation_Inr:
  assumes U: "unicode_ok U" and b: "bindings_ok b"
    and ids: "prefixed_hex64 effect_id_prefix (ei_effect_id v)" "prefixed_hex64 payload_digest_prefix (ei_payload_digest v)"
  shows "accept_confirmation U m v b command now = Inr (acc, s) \<longleftrightarrow>
    (\<exists>p cmd. pending_row U m b p \<and> live p now \<and> ei_effect_id v \<notin> r_effect_id ` set (pp_operation_receipts p)
       \<and> cell_report_confirmation_command U (pp_workflow p) = Inr cmd \<and> command = PyStr cmd
       \<and> acc = accept_workflow (pp_workflow p)
       \<and> s = report_value (wf_candidate (pp_workflow p)) (ei_effect_id v) (ei_payload_digest v))"
    (is "?l \<longleftrightarrow> (\<exists>p cmd. ?r p cmd)")
proof -
  have corr: "correlate_cell_report_confirmation U (pp_workflow p) command = Inr x \<longleftrightarrow>
      (\<exists>cmd. cell_report_confirmation_command U (pp_workflow p) = Inr cmd \<and> command = PyStr cmd
        \<and> x = accept_workflow (pp_workflow p))" if "proposal_ok U p" for p x
    using correlate_literal [OF U, of "pp_workflow p" command x] that by (simp add: proposal_ok_def accept_workflow_def)
  have fields: "presentes c \<noteq> None" "visitantes c \<noteq> None" "decisoes c \<noteq> None" "oferta c \<noteq> None" if "is_complete c" for c
    using that by (auto simp: is_complete_iff)
  have same: "cell_report_proposal_bindings_match (pp_bindings p) b = Inr (pp_bindings p = b)" if "proposal_ok U p" for p
    using that b by (simp add: bindings_match_ok proposal_ok_def)
  show ?thesis
  proof
    assume ?l
    then obtain p where p: "hydrate_pending U (m_relatorio_snapshot m) = Inr p"
      and rest: "ebind (uncaught_proposal (cell_report_proposal_bindings_match (pp_bindings p) b)) (\<lambda>same.
          if \<not> same then Inl PROPOSAL_BINDING_MISMATCH else Inr ()) = Inr ()"
      and l2: "accept_confirmation U m v b command now = Inr (acc, s)"
      by (auto simp: accept_confirmation_def ebind_eq_Inr split: if_splits)
    have ok: "proposal_ok U p" using hydrated_ok [OF U p] by blast
    have eq: "pp_bindings p = b" using rest same [OF ok] by (auto simp: uncaught_proposal_def split: if_splits)
    obtain cmd where c: "cell_report_confirmation_command U (pp_workflow p) = Inr cmd" "command = PyStr cmd"
      using l2 p corr [OF ok] by (auto simp: accept_confirmation_def app_Inr split: if_splits)
    note comp = command_complete [OF U c(1)]
    have "?r p cmd"
      using l2 p ok eq c corr [OF ok] same [OF ok] candidate_built [OF U _ _ ids] comp fields
      by (auto simp: accept_confirmation_def app_Inr not_expired_iff pending_row_def accept_workflow_def list_ex_iff
          Let_def split: if_splits)
    then show "\<exists>p cmd. ?r p cmd" by blast
  next
    assume "\<exists>p cmd. ?r p cmd"
    then obtain p cmd where r: "?r p cmd" by blast
    then have p: "hydrate_pending U (m_relatorio_snapshot m) = Inr p" by (simp add: pending_row_def)
    have ok: "proposal_ok U p" using hydrated_ok [OF U p] by blast
    have comp: "candidate_ok U (wf_candidate (pp_workflow p))" "is_complete (wf_candidate (pp_workflow p))"
      using command_complete [OF U] r by blast+
    have k: "correlate_cell_report_confirmation U (pp_workflow p) command = Inr acc" using corr [OF ok] r by blast
    have e: "proposal_expired p now = Inr False" using r not_expired_iff by blast
    have t: "translated CONFIRMATION_REJECTED (correlate_cell_report_confirmation U (pp_workflow p) command) = Inr acc"
        "uncaught_proposal (cell_report_proposal_bindings_match (pp_bindings p) b) = Inr True"
      using k same [OF ok] r by (simp_all add: app_Inr pending_row_def)
    have bs: "translated PROPOSAL_CORRUPT (build_cell_report_snapshot_v2 U (py_of_int (presentes (wf_candidate acc)))
        (py_of_int (visitantes (wf_candidate acc))) (py_of_int (decisoes (wf_candidate acc))) (py_of_str (oferta (wf_candidate acc)))
        (py_of_str (observacoes (wf_candidate acc))) (PyStr (ei_effect_id v)) (PyStr (ei_payload_digest v))) = Inr s"
      using candidate_built [OF U comp ids] r by (simp add: app_Inr accept_workflow_def)
    have fs: "\<not> (presentes (wf_candidate acc) = None \<or> visitantes (wf_candidate acc) = None
        \<or> decisoes (wf_candidate acc) = None \<or> oferta (wf_candidate acc) = None)"
      using fields [OF comp(2)] r by (auto simp: accept_workflow_def)
    have nr: "\<not> list_ex (\<lambda>r. r_effect_id r = ei_effect_id v) (pp_operation_receipts p)"
      using r by (metis (mono_tags, lifting) image_eqI list_ex_iff)
    have base: "base_state_of U m = Inr (pp_base_state_digest p)" using r by (simp add: pending_row_def)
    show ?l
      unfolding accept_confirmation_def by (simp add: p t e nr base fs bs Let_def)
  qed
qed

section \<open>The row and the answer of a first confirmation\<close>

definition report_view :: "unicode_db \<Rightarrow> candidate \<Rightarrow> pystr \<Rightarrow> pystr \<Rightarrow> snapshot" where
  "report_view U c eff pay =
     snap_view U (the (presentes c), the (visitantes c), the (decisoes c)) (oferta c) (observacoes c) eff pay"

definition report_amount :: "unicode_db \<Rightarrow> candidate \<Rightarrow> decimal" where
  "report_amount U c = the (decimal_of_str U (the (oferta c)))"

lemma report_snap_ok:
  assumes "candidate_ok U c" "is_complete c"
    and "prefixed_hex64 effect_id_prefix eff" "prefixed_hex64 payload_digest_prefix pay"
  shows "snap_ok U (the (presentes c), the (visitantes c), the (decisoes c)) (oferta c) (observacoes c) eff pay"
  using assms by (auto simp: snap_ok_def candidate_ok_def count_ok_def is_complete_iff)

lemma report_value_views:
  assumes "unicode_ok U" "candidate_ok U c" "is_complete c"
    and "prefixed_hex64 effect_id_prefix eff" "prefixed_hex64 payload_digest_prefix pay"
  shows "snapshot_to_jsonb U (report_view U c eff pay) = Inr (report_value c eff pay)"
    and "same_json x (report_value c eff pay) \<Longrightarrow> validate_cell_report_snapshot_v2 U x = Inr (report_view U c eff pay)"
  using to_jsonb_view [OF assms(1) report_snap_ok [OF assms(2-5)]]
    validate_same_snapshot [OF assms(1) report_snap_ok [OF assms(2-5)]]
  by (simp_all add: report_view_def report_value_def)

lemma final_report:
  assumes "unicode_ok U" "candidate_ok U c" "is_complete c"
    and "prefixed_hex64 effect_id_prefix eff" "prefixed_hex64 payload_digest_prefix pay"
  shows "final_snapshot U (report_value c eff pay) = Inr (report_value c eff pay)"
  using report_value_views [OF assms] same_json_refl by (simp add: final_snapshot_def)

lemma report_amount_finite:
  assumes "unicode_ok U" "candidate_ok U c" "is_complete c"
  obtains n ds where "n \<le> MAX_REPORT_OFFERING_CENTS" "oferta c = Some (format_cents n)"
    "decimal_of_str U (format_cents n) = Some (report_amount U c)" "report_amount U c = DFinite False ds (- 2)"
proof -
  obtain n where n: "n \<le> MAX_REPORT_OFFERING_CENTS" "oferta c = Some (format_cents n)"
    using assms(2,3) by (auto simp: candidate_ok_def is_complete_iff offering_ok_def)
  then show thesis using canonical_decimal [OF assms(1) n(1)] that by (auto simp: report_amount_def)
qed

lemma amount_confirmed:
  assumes "unicode_ok U" "candidate_ok U (wf_candidate w)" "is_complete (wf_candidate w)"
  shows "confirmed_amount U w = Inr (report_amount U (wf_candidate w))"
  using report_amount_finite [OF assms] by (metis confirmed_amount_def option.simps(5))

definition report_row :: "unicode_db \<Rightarrow> meeting \<Rightarrow> candidate \<Rightarrow> effect_intent \<Rightarrow> uuid \<Rightarrow> datetime \<Rightarrow> meeting" where
  "report_row U m c v ator now =
     sent_meeting m c (report_amount U c) (report_value c (ei_effect_id v) (ei_payload_digest v)) ator now"

lemma command_parses:
  assumes "unicode_ok U" "cell_report_confirmation_command U w = Inr cmd"
  shows "\<exists>code. parse_cell_report_confirmation_command (PyStr cmd) = Inr code"
proof -
  have w: "workflow_ok U w" "cmd = confirmation_command_prefix @ py_str (confirmation_code w)" "confirmation_code w \<noteq> PyNone"
    using assms by (auto simp: cell_report_confirmation_command_def ebind_eq_Inr validate_iff split: if_splits)
  then obtain d where "confirmation_code w = PyStr (derive_confirmation_code d)"
    by (auto simp: workflow_ok_def split: if_splits)
  then show ?thesis using w(2) code_length by (auto simp: parse_command_iff)
qed

lemma confirm_first_run:
  assumes U: "unicode_ok (ev_text E)"
  shows "confirm_cell_report E g r c a command t v now False db = (Inr res, db') \<longleftrightarrow>
   (\<exists>n b m d p cmd. canonical_utc now = Inr n \<and> derive_cell_report_proposal_bindings g r c a = Inr b
      \<and> effect_for (ev_text E) t g c (confirmation_effect_payload (PyDict (bindings_json b)) command) v
      \<and> pg_transaction (db_pg db) \<noteq> None \<and> load_and_authorize E g r c a n db = (Inr m, d)
      \<and> m_relatorio_status m = RELATORIO_PENDENTE
      \<and> pending_row (ev_text E) m b p \<and> live p n \<and> ei_effect_id v \<notin> r_effect_id ` set (pp_operation_receipts p)
      \<and> cell_report_confirmation_command (ev_text E) (pp_workflow p) = Inr cmd \<and> command = PyStr cmd
      \<and> flush_meeting E (report_row (ev_text E) m (wf_candidate (pp_workflow p)) v a n) d = (Inr (), db')
      \<and> res = \<lparr>cr_snapshot = report_value (wf_candidate (pp_workflow p)) (ei_effect_id v) (ei_payload_digest v),
               cr_accepted_workflow = Some (accept_workflow (pp_workflow p)), cr_replayed = False,
               cr_requires_caller_commit = True\<rparr>)" (is "?l \<longleftrightarrow> (\<exists>n b m d p cmd. ?r n b m d p cmd)")
proof -
  let ?U = "ev_text E"
  have pend: "RELATORIO_PENDENTE \<noteq> RELATORIO_ENVIADO" by (simp add: RELATORIO_PENDENTE_def RELATORIO_ENVIADO_def u_def)
  show ?thesis
  proof
    assume ?l
    then obtain n b m d acc s x final where h: "confirmation_arguments E g r c a command t v now = Inr (n, b, v)"
        "pg_transaction (db_pg db) \<noteq> None" "load_and_authorize E g r c a n db = (Inr m, d)"
        "m_relatorio_status m = RELATORIO_PENDENTE" "accept_confirmation ?U m v b command n = Inr (acc, s)"
        "confirmed_amount ?U acc = Inr x" "flush_meeting E (sent_meeting m (wf_candidate acc) x s a n) d = (Inr (), db')"
        "final_snapshot ?U s = Inr final"
        "res = \<lparr>cr_snapshot = final, cr_accepted_workflow = Some acc, cr_replayed = False, cr_requires_caller_commit = True\<rparr>"
      unfolding confirm_run by (auto simp: confirmation_arguments_Inr)
    note args = h(1) [unfolded confirmation_arguments_Inr]
    have ids: "prefixed_hex64 effect_id_prefix (ei_effect_id v)" "prefixed_hex64 payload_digest_prefix (ei_payload_digest v)"
      and b: "bindings_ok b" using args effect_shapes derived_bindings_ok by blast+
    obtain p cmd where p: "pending_row ?U m b p" "live p n" "ei_effect_id v \<notin> r_effect_id ` set (pp_operation_receipts p)"
        "cell_report_confirmation_command ?U (pp_workflow p) = Inr cmd" "command = PyStr cmd"
        "acc = accept_workflow (pp_workflow p)"
        "s = report_value (wf_candidate (pp_workflow p)) (ei_effect_id v) (ei_payload_digest v)"
      using accept_confirmation_Inr [OF U b ids] h(5) by blast
    note comp = command_complete [OF U p(4)]
    have "x = report_amount ?U (wf_candidate (pp_workflow p))" "final = s"
      using amount_confirmed [OF U, of acc] final_report [OF U _ _ ids] comp h(6,8) p(6,7)
      by (simp_all add: accept_workflow_def)
    then have "?r n b m d p cmd" using h args p by (simp add: report_row_def accept_workflow_def)
    then show "\<exists>n b m d p cmd. ?r n b m d p cmd" by blast
  next
    assume "\<exists>n b m d p cmd. ?r n b m d p cmd"
    then obtain n b m d p cmd where q: "?r n b m d p cmd" by blast
    then have ids: "prefixed_hex64 effect_id_prefix (ei_effect_id v)" "prefixed_hex64 payload_digest_prefix (ei_payload_digest v)"
      and b: "bindings_ok b" using effect_shapes derived_bindings_ok by blast+
    have cmd: "cell_report_confirmation_command ?U (pp_workflow p) = Inr cmd" using q by blast
    note comp = command_complete [OF U cmd]
    let ?acc = "accept_workflow (pp_workflow p)"
    let ?s = "report_value (wf_candidate (pp_workflow p)) (ei_effect_id v) (ei_payload_digest v)"
    have "confirmation_arguments E g r c a command t v now = Inr (n, b, v)"
      using q command_parses [OF U cmd] by (auto simp: confirmation_arguments_Inr)
    moreover have "accept_confirmation ?U m v b command n = Inr (?acc, ?s)"
      using accept_confirmation_Inr [OF U b ids] q by blast
    moreover have "confirmed_amount ?U ?acc = Inr (report_amount ?U (wf_candidate (pp_workflow p)))"
      using amount_confirmed [OF U, of ?acc] comp by (simp add: accept_workflow_def)
    moreover have "final_snapshot ?U ?s = Inr ?s" using final_report [OF U _ _ ids] comp by blast
    moreover have "wf_candidate ?acc = wf_candidate (pp_workflow p)" by (simp add: accept_workflow_def)
    ultimately show ?l
      unfolding confirm_run using q pend
      by (intro exI [of _ n] exI [of _ b] exI [of _ v] exI [of _ m] exI [of _ d]) (simp add: report_row_def)
  qed
qed

section \<open>Writing one meeting\<close>

definition stored_row :: "app_env \<Rightarrow> meeting \<Rightarrow> meeting" where
  "stored_row E m = m\<lparr>m_relatorio_snapshot := ev_jsonb E (m_relatorio_snapshot m)\<rparr>"

definition replaced :: "meeting \<Rightarrow> meeting list \<Rightarrow> meeting list" where
  "replaced row = map (\<lambda>x. if m_id x = m_id row then row else x)"

lemma flush_run:
  "flush_meeting E m d = (Inr y, d') \<longleftrightarrow>
   \<not> pg_failed (db_pg d) \<and> \<not> ev_fault E d (FlushMeeting (m_id m))
   \<and> d' = d\<lparr>db_log := db_log d @ [FlushMeeting (m_id m)], db_meetings := replaced (stored_row E m) (db_meetings d)\<rparr>"
  by (auto simp: flush_meeting_def sbind_Inr app_run replaced_def stored_row_def)

lemma stored_row_sel [simp]: "m_id (stored_row E m) = m_id m"
  by (simp add: stored_row_def)

lemma report_row_sel [simp]:
  "m_id (report_row U m c v a n) = m_id m" "m_igreja_id (report_row U m c v a n) = m_igreja_id m"
  "m_relatorio_status (report_row U m c v a n) = RELATORIO_ENVIADO"
  "m_relatorio_snapshot (report_row U m c v a n) = report_value c (ei_effect_id v) (ei_payload_digest v)"
  "m_observacoes (report_row U m c v a n) = observacoes c" "m_oferta_valor (report_row U m c v a n) = Some (report_amount U c)"
  "m_relatorio_enviado_por (report_row U m c v a n) = Some a" "m_relatorio_enviado_em (report_row U m c v a n) = Some n"
  by (simp_all add: report_row_def sent_meeting_def)

text \<open>The authorised row of a session that sees the meeting as a run left it.\<close>

lemma left_row:
  assumes "meeting_rows db2 g r = meeting_rows db' g r" "authorized E db2 g r c a n m"
  shows "m \<in> set (db_meetings db') \<and> m_id m = r \<and> m_igreja_id m = g"
proof -
  have "m \<in> set (meeting_rows db' g r)" using assms by (simp add: authorized_def meeting_row_def)
  then show ?thesis using rows_sound(2) by blast
qed

lemma replaced_rows:
  "m \<in> set (replaced row ms) \<Longrightarrow> m = row \<or> m \<in> set ms \<and> m_id m \<noteq> m_id row"
  by (auto simp: replaced_def)

lemma authorized_row: "authorized E db g r c a now m \<Longrightarrow> m_id m = r \<and> m_igreja_id m = g \<and> m \<in> set (db_meetings db)"
  using meeting_row_id [of db g r m] by (simp add: authorized_def)

section \<open>Payloads within the limits\<close>

text \<open>The payload of a confirmation is always within the limits of canonical JSON, so that its digest exists.\<close>

lemma length_jquote: "length (jquote s) \<le> 6 * length s + 2"
proof -
  have "length (jchar c) \<le> 6" for c by (simp add: jchar_def jhex2_def)
  then have "length (concat (map jchar s)) \<le> 6 * length s" by (induction s) (auto intro: add_mono)
  then show ?thesis by (simp add: jquote_def)
qed

lemma ascii_json_string: "\<forall>c \<in> set s. c < 128 \<Longrightarrow> length s \<le> MAX_CANONICAL_STRING_BYTES \<Longrightarrow> json_string_ok s"
  by (simp add: json_string_ok_def utf8_encode_ascii)

lemma binding_short: "prefixed_hex64 (binding_prefix k) s \<Longrightarrow> (\<forall>c \<in> set s. c < 128) \<and> length s \<le> 200"
proof -
  assume s: "prefixed_hex64 (binding_prefix k) s"
  have "\<forall>c \<in> set (binding_prefix k). c < 128" "length (binding_prefix k) \<le> 100" by (cases k; simp add: u_def)+
  then show ?thesis using prefixed_hex64_ascii [OF _ s] prefixed_hex64_length [OF s] by simp
qed

lemma confirmation_payload_digests:
  assumes b: "bindings_ok b" and c: "parse_cell_report_confirmation_command command = Inr code"
    and e: "prefixed_hex64 effect_id_prefix e"
  shows "\<exists>d. digest_effect_payload e TOOL_CALL (confirmation_effect_payload (PyDict (bindings_json b)) command) = Inr d"
proof -
  let ?p = "confirmation_effect_payload (PyDict (bindings_json b)) command"
  obtain x where x: "command = PyStr x" "x = confirmation_command_prefix @ code" "length code = 12" "list_all is_b32 code"
    using c by (auto simp: parse_command_iff)
  have s: "(\<forall>c \<in> set (b_tenant b). c < 128) \<and> length (b_tenant b) \<le> 200"
    "(\<forall>c \<in> set (b_meeting b). c < 128) \<and> length (b_meeting b) \<le> 200"
    "(\<forall>c \<in> set (b_conversation b). c < 128) \<and> length (b_conversation b) \<le> 200"
    "(\<forall>c \<in> set (b_actor b). c < 128) \<and> length (b_actor b) \<le> 200"
    using b binding_short unfolding bindings_ok_def by blast+
  have xs: "(\<forall>c \<in> set x. c < 128) \<and> length x \<le> 200"
    using x by (auto simp: confirmation_command_prefix_def u_def list_all_iff is_b32_def)
  have ok: "json_value_ok ?p"
    using s xs x(1) ascii_json_string
    by (simp add: json_value_ok_def confirmation_effect_payload_def confirmation_effect_schema_def bindings_json_def
        MAX_CANONICAL_JSON_DEPTH_def MAX_CANONICAL_JSON_NODES_def MAX_CANONICAL_STRING_BYTES_def u_def ascii_json_string)
  obtain bs where bs: "utf8_encode (jtext (sort_keys ?p)) = Some bs" using validated_encodable [OF ok] by blast
  have "length (jtext (sort_keys ?p)) \<le> 16000"
    using length_jquote [of "b_tenant b"] length_jquote [of "b_meeting b"] length_jquote [of "b_conversation b"]
      length_jquote [of "b_actor b"] length_jquote [of x] s xs x(1)
    by (simp add: confirmation_effect_payload_def confirmation_effect_schema_def bindings_json_def u_def)
      (simp add: jquote_def jchar_def)
  then have "length bs \<le> MAX_CANONICAL_JSON_BYTES" using utf8_encode_length [OF bs] by (simp add: MAX_CANONICAL_JSON_BYTES_def)
  then show ?thesis using ok bs e by (simp add: digest_payload_result canonical_json_iff)
qed

section \<open>A sample session\<close>

definition app_now :: datetime where
  "app_now = sample_expiry\<lparr>hour := 6\<rparr>"

definition sample_pg :: pg where
  "sample_pg = \<lparr>pg_transaction = Some 1, pg_lock_scope = None, pg_read_only = False, pg_xid_assigned = False,
     pg_isolation = u ''read committed'', pg_role = Some TENANT_ROLE, pg_igreja = Some 1, pg_tenant_guc = Some (str_of_uuid 1),
     pg_failed = False, pg_held = [], pg_people = [],
     pg_db = \<lparr>db_challenges = [], db_evidence = [], db_receipts = [], db_ledger = []\<rparr>\<rparr>"

definition sample_env :: app_env where
  "sample_env = \<lparr>ev_fault = (\<lambda>_ _. False), ev_jsonb = (\<lambda>v. v), ev_clock = (\<lambda>_. app_now), ev_secret = [],
     ev_tz = sample_tz, ev_text = ascii_db,
     ev_re = latin_re\<rparr>"

text \<open>The church 1, the meeting 5 of the cell 6, the conversation 2 with the leader 4.\<close>

definition sample_meeting :: "py \<Rightarrow> meeting" where
  "sample_meeting snapshot = \<lparr>m_id = 5, m_igreja_id = 1, m_celula_id = 6, m_data = \<lparr>d_year = 2026, d_month = 2, d_day = 28\<rparr>,
     m_hora = None, m_tema = None, m_status = u ''realizada'', m_relatorio_status = RELATORIO_PENDENTE,
     m_relatorio_enviado_em = None, m_relatorio_enviado_por = None, m_oferta_valor = None, m_observacoes = None,
     m_relatorio_snapshot = snapshot, m_updated_at = None\<rparr>"

definition sample_db :: "meeting \<Rightarrow> app_db" where
  "sample_db m = \<lparr>db_pg = sample_pg, db_nested = None, db_log = [], db_reads = 0,
     db_conversations = [\<lparr>cv_id = 2, cv_igreja_id = 1, cv_pessoa_id = Some 4, cv_estado = u ''ia'', cv_assumido_por = None,
                          cv_numero_oficial = True\<rparr>],
     db_meetings = [m],
     db_celulas = [\<lparr>ce_id = 6, ce_igreja_id = 1, ce_lider_id = Some 4, ce_ativo = True\<rparr>],
     db_pessoas = [\<lparr>pe_id = 4, pe_igreja_id = 1, pe_arquivada_em = None, pe_sem_interesse = False, pe_optout = False\<rparr>],
     db_users = [\<lparr>au_id = 7, au_igreja_id = Some 1, au_pessoa_id = Some 4, au_clerk_user_id = Some (u ''clerk''),
                  au_status = None\<rparr>],
     db_roles = [\<lparr>ur_id = 8, ur_igreja_id = 1, ur_user_id = 7, ur_papel = u ''lider_celula''\<rparr>]\<rparr>"

lemma sample_env_sel [simp]:
  "ev_text sample_env = ascii_db" "ev_re sample_env = latin_re" "ev_tz sample_env = sample_tz" "ev_jsonb sample_env v = v" "ev_fault sample_env d st = False"
  by (simp_all add: sample_env_def)

lemma sample_faultless: "faultless sample_env (sample_db m)"
  by (simp add: faultless_def sample_db_def sample_pg_def)

lemma app_now_utc: "canonical_utc app_now = Inr app_now" "valid_datetime app_now"
proof -
  show "valid_datetime app_now"
    by (simp add: app_now_def sample_expiry_def valid_datetime_def valid_date_def days_in_month_def is_leap_def)
  then show "canonical_utc app_now = Inr app_now"
    by (rule canonical_utc_same) (simp add: app_now_def sample_expiry_def)
qed

lemma sample_passed: "meeting_has_passed sample_tz app_now (m_data (sample_meeting j)) h (Some app_now) = Inr True"
  by (simp add: meeting_has_passed_def now_in_sao_paulo_def app_now_def sample_expiry_def sample_tz_def passed_locally_def
      sample_meeting_def date_less_def date_of_def)

text \<open>The rows the sample meeting can become.\<close>

definition sample_row :: "meeting \<Rightarrow> bool" where
  "sample_row m \<longleftrightarrow> m_id m = 5 \<and> m_igreja_id m = 1 \<and> m_celula_id m = 6 \<and> m_status m = u ''realizada''
     \<and> m_data m = m_data (sample_meeting PyNone)
     \<and> (m_relatorio_status m = RELATORIO_ENVIADO
        \<or> m_relatorio_status m = RELATORIO_PENDENTE \<and> m_relatorio_enviado_em m = None \<and> m_relatorio_enviado_por m = None)"

lemma sample_row_meeting [simp]: "sample_row (sample_meeting j)"
  by (simp add: sample_row_def sample_meeting_def)

lemma sample_authorized:
  assumes "sample_row m"
  shows "authorized sample_env (sample_db m) 1 5 2 4 app_now m"
proof -
  note r = assms [unfolded sample_row_def]
  have "conversation_ok (sample_db m) 1 2 4" "meeting_row (sample_db m) 1 5 m" "leader_ok (sample_db m) 1 6 4"
      "access_ok (sample_db m) 1 4" "tenant_session (db_pg (sample_db m)) 1"
    using r by (simp_all add: sample_db_def sample_pg_def tenant_session_def conversation_ok_def conversation_rows_def
        meeting_row_def meeting_rows_def leader_ok_def leader_rows_def access_ok_def access_rows_def role_rows_def
        MINISTERIAL_ROLES_def u_def)
  moreover have "validate_meeting_eligibility sample_tz m app_now = Inr ()"
    using r sample_passed [of PyNone "m_hora m"]
    by (auto simp: validate_meeting_eligibility_def translated_def VALID_MEETING_STATUSES_def
        VALID_REPORT_STATUSES_def STATUS_CANCELADA_def RELATORIO_PENDENTE_def RELATORIO_ENVIADO_def u_def)
  ultimately show ?thesis using r by (simp add: authorized_def)
qed

text \<open>
  A stored proposal for the sample meeting, under an effect that is not the one of the
  confirmation, and the confirmation's intent.
\<close>

definition stored_proposal :: "workflow \<Rightarrow> bindings \<Rightarrow> pystr \<Rightarrow> pystr \<Rightarrow> pending_proposal" where
  "stored_proposal w b base eff =
     \<lparr>pp_workflow = w, pp_bindings = b, pp_expires_at = sample_expiry,
      pp_operation_receipts = [\<lparr>r_effect_id = eff, r_payload_digest = sample_payload\<rparr>], pp_base_state_digest = base\<rparr>"

lemma stored_proposal_ok:
  assumes "bindings_ok b" "prefixed_hex64 base_digest_prefix base" "prefixed_hex64 effect_id_prefix eff"
    and "wf_parts ascii_db s 1 sample_candidate None AWAITING_CONFIRMATION None"
  shows "proposal_ok ascii_db (stored_proposal (minted s 1 sample_candidate None AWAITING_CONFIRMATION None) b base eff)"
  using assms(1-3) minted_okI [OF assms(4) refl] sample_ids(2)
  by (simp add: proposal_ok_def stored_proposal_def receipts_ok_def receipt_ok_def sample_expiry_def MAX_OPERATION_RECEIPTS_def)

lemma sample_app_now_live: "live (stored_proposal w b base eff) app_now"
  by (simp add: live_def stored_proposal_def app_now_def sample_expiry_def instant_def day_micros_def utcoffset_def
      toordinal_def MAX_CELL_REPORT_PROPOSAL_TTL_def)

text \<open>Its envelope is readable in the column of the sample meeting.\<close>

lemma stored_row_pending:
  assumes "bindings_ok b" "\<And>j. base_state_of ascii_db (sample_meeting j) = Inr base" "prefixed_hex64 base_digest_prefix base"
    and "prefixed_hex64 effect_id_prefix eff" "wf_parts ascii_db s 1 sample_candidate None AWAITING_CONFIRMATION None"
  obtains j where "pending_row ascii_db (sample_meeting j) b
    (stored_proposal (minted s 1 sample_candidate None AWAITING_CONFIRMATION None) b base eff)"
proof -
  let ?q = "stored_proposal (minted s 1 sample_candidate None AWAITING_CONFIRMATION None) b base eff"
  have q: "proposal_ok ascii_db ?q" using stored_proposal_ok assms by blast
  have e: "valid_datetime (pp_expires_at ?q)" using sample_expiry_valid by (simp add: stored_proposal_def)
  obtain w where w: "cell_report_workflow_payload ascii_db (pp_workflow ?q) = Inr w"
    using payload_minted [OF ascii_db_ok assms(5)] by (auto simp: stored_proposal_def)
  have "pending_row ascii_db (sample_meeting (PyDict (proposal_value ?q w))) b ?q"
    using rehydrate_same_proposal [OF ascii_db_ok e q w same_json_refl] assms(2)
    by (simp add: pending_row_def hydrate_Inr sample_meeting_def stored_proposal_def)
  then show thesis by (rule that)
qed

lemma sample_base_state:
  obtains base where "\<And>j. base_state_of ascii_db (sample_meeting j) = Inr base" "prefixed_hex64 base_digest_prefix base"
proof -
  let ?base = "base_digest_prefix @ hexdigest (sha256 (base_material (base_bytes None None)))"
  have "base_state_of ascii_db (sample_meeting j) = Inr ?base" for j
    by (simp add: base_state_of_def proposal_translated_Inr base_digest_result [OF ascii_db_ok] sample_meeting_def
        RELATORIO_PENDENTE_def py_of_decimal_def normalize_money_def normalize_observacoes_def)
  then show thesis using that by simp
qed

lemma sample_effect_at:
  assumes "digest_effect_payload (derive_effect_id (ti_turn_id sample_identity) (semantic_slot TOOL_CALL) k) TOOL_CALL payload = Inr d"
    and "0 \<le> k" "k \<le> MAX_EFFECT_ORDINAL"
  obtains v where "effect_for ascii_db sample_identity 1 2 payload v" "ei_ordinal v = k"
proof -
  obtain v where "build_agent_effect_intent ascii_db sample_identity TOOL_CALL k payload = Inr v"
      "ei_kind v = TOOL_CALL" "ei_ordinal v = k"
      "digest_effect_payload (ei_effect_id v) TOOL_CALL payload = Inr (ei_payload_digest v)"
    using assms sample_identity_ok by (auto simp: build_intent_result)
  with built_intent_ok [OF this(1)] sample_identity_ok have "effect_for ascii_db sample_identity 1 2 payload v"
    by (simp add: effect_for_def) (simp add: sample_identity_def)
  then show thesis using \<open>ei_ordinal v = k\<close> by (rule that)
qed

lemma sample_effect_for:
  assumes "digest_effect_payload (derive_effect_id (ti_turn_id sample_identity) (semantic_slot TOOL_CALL) 0) TOOL_CALL payload = Inr d"
  obtains v where "effect_for ascii_db sample_identity 1 2 payload v" "ei_ordinal v = 0"
  using sample_effect_at [OF assms] that by (auto simp: MAX_EFFECT_ORDINAL_def)

lemma fresh_effect_id:
  obtains e where "prefixed_hex64 effect_id_prefix e" "e \<noteq> x"
proof -
  have "prefixed_hex64 effect_id_prefix (effect_id_prefix @ replicate 64 98)"
    by (rule prefixed_hex64_mint) (simp_all add: is_hex_def)
  moreover have "effect_id_prefix @ replicate 64 98 \<noteq> sample_effect" by (simp add: sample_effect_def replicate_eq_replicate)
  ultimately show thesis using that sample_ids(1) by metis
qed

lemma sample_pending:
  obtains v b q j where "derive_cell_report_proposal_bindings 1 5 2 4 = Inr b"
    "effect_for ascii_db sample_identity 1 2 (confirmation_effect_payload (PyDict (bindings_json b)) (PyStr sample_command)) v"
    "pending_row ascii_db (sample_meeting j) b q" "live q app_now" "ei_effect_id v \<notin> r_effect_id ` set (pp_operation_receipts q)"
    "cell_report_confirmation_command ascii_db (pp_workflow q) = Inr sample_command" "ei_ordinal v = 0"
proof -
  obtain b where b: "derive_cell_report_proposal_bindings 1 5 2 4 = Inr b" by (simp add: derived_bindings)
  obtain code where code: "parse_cell_report_confirmation_command (PyStr sample_command) = Inr code"
    using command_parses [OF ascii_db_ok sample_confirms] by blast
  obtain v where v: "effect_for ascii_db sample_identity 1 2
      (confirmation_effect_payload (PyDict (bindings_json b)) (PyStr sample_command)) v" "ei_ordinal v = 0"
    using confirmation_payload_digests [OF derived_bindings_ok [OF b] code derived_shapes(2)] sample_effect_for by blast
  obtain eff where eff: "prefixed_hex64 effect_id_prefix eff" "eff \<noteq> ei_effect_id v" using fresh_effect_id .
  obtain base where base: "\<And>j. base_state_of ascii_db (sample_meeting j) = Inr base" "prefixed_hex64 base_digest_prefix base"
    by (rule sample_base_state) blast
  let ?q = "stored_proposal sample_workflow b base eff"
  obtain j where "pending_row ascii_db (sample_meeting j) b ?q"
    using stored_row_pending [OF derived_bindings_ok [OF b] base eff(1) sample_parts] sample_workflow_def by metis
  moreover have "ei_effect_id v \<notin> r_effect_id ` set (pp_operation_receipts ?q)" using eff by (simp add: stored_proposal_def)
  moreover have "cell_report_confirmation_command ascii_db (pp_workflow ?q) = Inr sample_command"
    using sample_confirms by (simp add: stored_proposal_def)
  ultimately show thesis using that b v sample_app_now_live by blast
qed

text \<open>A run that confirms the sample report, after any statements, and the row it leaves.\<close>

lemma sample_confirmation_after:
  obtains v j row payload where
    "\<forall>l. \<exists>res db'. confirm_cell_report sample_env 1 5 2 4 (PyStr sample_command) sample_identity v app_now False
         ((sample_db (sample_meeting j))\<lparr>db_log := l\<rparr>) = (Inr res, db') \<and> tables db' = tables (sample_db row) \<and> db_pg db' = sample_pg"
    "authorized sample_env (sample_db row) 1 5 2 4 app_now row" "effect_for ascii_db sample_identity 1 2 payload v" "ei_ordinal v = 0"
proof -
  obtain v b q j where h: "derive_cell_report_proposal_bindings 1 5 2 4 = Inr b"
    "effect_for ascii_db sample_identity 1 2 (confirmation_effect_payload (PyDict (bindings_json b)) (PyStr sample_command)) v"
    "pending_row ascii_db (sample_meeting j) b q" "live q app_now" "ei_effect_id v \<notin> r_effect_id ` set (pp_operation_receipts q)"
    "cell_report_confirmation_command ascii_db (pp_workflow q) = Inr sample_command" and o: "ei_ordinal v = 0" by (rule sample_pending)
  let ?m = "sample_meeting j"
  let ?r = "report_row ascii_db ?m (wf_candidate (pp_workflow q)) v 4 app_now"
  let ?row = "stored_row sample_env ?r"
  have "\<exists>res db'. confirm_cell_report sample_env 1 5 2 4 (PyStr sample_command) sample_identity v app_now False
         ((sample_db ?m)\<lparr>db_log := l\<rparr>) = (Inr res, db') \<and> tables db' = tables (sample_db ?row) \<and> db_pg db' = sample_pg" for l
  proof -
    let ?db = "(sample_db ?m)\<lparr>db_log := l\<rparr>"
    let ?d = "?db\<lparr>db_log := l @ authorization_locks ?db 1 2 4 ?m\<rparr>"
    have au: "authorized sample_env ?db 1 5 2 4 app_now ?m"
      using sample_authorized [of ?m] by (simp add: authorized_def)
    have fl: "faultless sample_env ?db" using sample_faultless by (simp add: faultless_def)
    have a: "load_and_authorize sample_env 1 5 2 4 app_now ?db = (Inr ?m, ?d)"
      using authorize_complete [OF au fl] by (simp add: sample_db_def)
    obtain db' where f: "flush_meeting sample_env ?r ?d = (Inr (), db')" by (simp add: flush_run sample_db_def sample_pg_def)
    have "\<exists>res. confirm_cell_report sample_env 1 5 2 4 (PyStr sample_command) sample_identity v app_now False ?db = (Inr res, db')"
      using confirm_first_run [of sample_env 1 5 2 4 "PyStr sample_command" sample_identity v app_now ?db _ db']
        app_now_utc(1) ascii_db_ok h a f by (auto simp: sample_db_def sample_pg_def sample_meeting_def)
    moreover have "tables db' = tables (sample_db ?row)" "db_pg db' = sample_pg"
      using f by (simp_all add: flush_run tables_def sample_db_def replaced_def)
    ultimately show ?thesis by blast
  qed
  moreover have "authorized sample_env (sample_db ?row) 1 5 2 4 app_now ?row"
    by (rule sample_authorized) (simp add: sample_row_def stored_row_def report_row_def sent_meeting_def sample_meeting_def)
  ultimately show thesis using that h(2) o by blast
qed

lemma sample_confirmation:
  obtains v j res db' row where
    "confirm_cell_report sample_env 1 5 2 4 (PyStr sample_command) sample_identity v app_now False (sample_db (sample_meeting j))
       = (Inr res, db')"
    "tables db' = tables (sample_db row)" "authorized sample_env (sample_db row) 1 5 2 4 app_now row"
proof -
  obtain v j row payload where h: "\<forall>l. \<exists>res db'. confirm_cell_report sample_env 1 5 2 4 (PyStr sample_command) sample_identity v app_now False
         ((sample_db (sample_meeting j))\<lparr>db_log := l\<rparr>) = (Inr res, db') \<and> tables db' = tables (sample_db row) \<and> db_pg db' = sample_pg"
    "authorized sample_env (sample_db row) 1 5 2 4 app_now row" "effect_for ascii_db sample_identity 1 2 payload v" "ei_ordinal v = 0"
    by (rule sample_confirmation_after)
  have "(sample_db (sample_meeting j))\<lparr>db_log := []\<rparr> = sample_db (sample_meeting j)" by (simp add: sample_db_def)
  with h(1) obtain res db' where
    "confirm_cell_report sample_env 1 5 2 4 (PyStr sample_command) sample_identity v app_now False (sample_db (sample_meeting j))
       = (Inr res, db')" "tables db' = tables (sample_db row)" by metis
  then show thesis using h(2) by (rule that)
qed

section \<open>Properties\<close>

text \<open>
  C1. A report is sent only on the literal confirmation of the proposal that is stored.  A first
  confirmation that succeeds was authorised under the locks; the meeting was pending; its column
  held a proposal derived from these four identifiers, for the meeting's present offering and
  observation, that had not expired and expires within a day; the message was, to the character,
  the confirmation command of that proposal's workflow; and exactly the meeting's row became the
  report of that workflow's candidate.
\<close>

theorem sent_only_on_literal_confirmation:
  assumes "unicode_ok (ev_text E)"
    and "confirm_cell_report E g r c a command t v now False db = (Inr res, db')"
  shows "\<exists>n m p cmd. canonical_utc now = Inr n \<and> authorized E db g r c a n m
    \<and> m_relatorio_status m = RELATORIO_PENDENTE
    \<and> hydrate_pending (ev_text E) (m_relatorio_snapshot m) = Inr p
    \<and> derive_cell_report_proposal_bindings g r c a = Inr (pp_bindings p)
    \<and> base_state_of (ev_text E) m = Inr (pp_base_state_digest p) \<and> live p n
    \<and> cell_report_confirmation_command (ev_text E) (pp_workflow p) = Inr cmd \<and> command = PyStr cmd
    \<and> db_meetings db' = replaced (stored_row E (report_row (ev_text E) m (wf_candidate (pp_workflow p)) v a n)) (db_meetings db)
    \<and> db_log db' = db_log db @ authorization_locks db g c a m @ [FlushMeeting r]"
proof -
  obtain n b m d p cmd where h: "canonical_utc now = Inr n" "derive_cell_report_proposal_bindings g r c a = Inr b"
      "load_and_authorize E g r c a n db = (Inr m, d)" "m_relatorio_status m = RELATORIO_PENDENTE"
      "pending_row (ev_text E) m b p" "live p n" "cell_report_confirmation_command (ev_text E) (pp_workflow p) = Inr cmd"
      "command = PyStr cmd" "flush_meeting E (report_row (ev_text E) m (wf_candidate (pp_workflow p)) v a n) d = (Inr (), db')"
    using confirm_first_run [OF assms(1), of g r c a command t v now db res db'] assms(2) by blast
  note au = authorize_sound [OF h(3)]
  have "m_id m = r" using au authorized_row by blast
  with h(9) au have "db_meetings db' = replaced (stored_row E (report_row (ev_text E) m (wf_candidate (pp_workflow p)) v a n)) (db_meetings db)"
    "db_log db' = db_log db @ authorization_locks db g c a m @ [FlushMeeting r]" by (simp_all add: flush_run)
  with h au show ?thesis unfolding pending_row_def by blast
qed

theorem sent_only_on_literal_confirmation_witness:
  "\<exists>v j res db' n m p. confirm_cell_report sample_env 1 5 2 4 (PyStr sample_command) sample_identity v app_now False
       (sample_db (sample_meeting j)) = (Inr res, db')
     \<and> authorized sample_env (sample_db (sample_meeting j)) 1 5 2 4 n m \<and> live p n
     \<and> cell_report_confirmation_command ascii_db (pp_workflow p) = Inr sample_command"
proof -
  obtain v j res db' where h: "confirm_cell_report sample_env 1 5 2 4 (PyStr sample_command) sample_identity v app_now False
      (sample_db (sample_meeting j)) = (Inr res, db')" by (rule sample_confirmation)
  from sent_only_on_literal_confirmation [OF _ h] ascii_db_ok h show ?thesis by (simp add: py.inject) blast
qed

text \<open>What a repetition of the confirmation checks on the row the first one wrote.\<close>

lemma validated_not_legacy:
  assumes "validate_cell_report_snapshot_v2 U x = Inr s"
  shows "\<not> is_canonical_legacy_human_report_snapshot U x mi md mt ms mo mb msa msb actor"
proof
  assume "is_canonical_legacy_human_report_snapshot U x mi md mt ms mo mb msa msb actor"
  then obtain d where "x = PyDict d" "u ''schema'' \<notin> set (map fst d)"
    using legacy_has_no_schema by (auto simp: is_canonical_legacy_human_report_snapshot_def)
  then show False using assms by (auto simp: validate_cell_report_snapshot_v2_def split: if_splits)
qed

lemma sent_row_replays:
  assumes U: "unicode_ok U" and c: "candidate_ok U k" "is_complete k"
    and ids: "prefixed_hex64 effect_id_prefix (ei_effect_id v)" "prefixed_hex64 payload_digest_prefix (ei_payload_digest v)"
    and n: "tzinfo n = TimezoneUtc" and j: "same_json (ev_jsonb E (report_value k (ei_effect_id v) (ei_payload_digest v)))
      (report_value k (ei_effect_id v) (ei_payload_digest v))"
  shows "validate_final_replay U (stored_row E (report_row U m k v a n)) a (ei_effect_id v) (ei_payload_digest v)
    = Inr (report_value k (ei_effect_id v) (ei_payload_digest v))"
proof -
  let ?s = "report_view U k (ei_effect_id v) (ei_payload_digest v)"
  note views = report_value_views [OF U c ids]
  note val = views(2) [OF j]
  obtain z ds where amt: "oferta k = Some z" "report_amount U k = DFinite False ds (- 2)"
    by (rule report_amount_finite [OF U c]) (use that in blast)
  have "same_decimal (report_amount U k) (report_amount U k)"
    using amt(2) by (simp add: same_decimal_def decimal_same_value_def)
  moreover have "sn_oferta_valor ?s = Some (report_amount U k)" "sn_observacoes ?s = observacoes k"
      "sn_submission_effect_id ?s = ei_effect_id v" "sn_submission_payload_digest ?s = ei_payload_digest v"
    using amt(1) by (simp_all add: report_view_def snap_view_def report_amount_def)
  ultimately show ?thesis
    using val views(1) n validated_not_legacy [OF val]
    by (simp add: validate_final_replay_def stored_row_def translated_def)
qed

lemma confirmation_replay_run:
  assumes U: "unicode_ok (ev_text E)" and now: "valid_datetime now" and j: "\<And>x. same_json (ev_jsonb E x) x"
    and first: "confirm_cell_report E g r c a command t v now False db = (Inr res, db')"
    and later: "meeting_rows db2 g r = meeting_rows db' g r" "faultless E db2" "pg_transaction (db_pg db2) \<noteq> None"
      "canonical_utc now2 = Inr n2" "authorized E db2 g r c a n2 m2"
  shows "confirm_cell_report E g r c a command t v now2 True db2
       = (Inr \<lparr>cr_snapshot = cr_snapshot res, cr_accepted_workflow = None, cr_replayed = True, cr_requires_caller_commit = False\<rparr>,
          db2\<lparr>db_log := db_log db2 @ authorization_locks db2 g c a m2\<rparr>)"
proof -
  obtain n b m d p cmd where h: "canonical_utc now = Inr n" "derive_cell_report_proposal_bindings g r c a = Inr b"
      "effect_for (ev_text E) t g c (confirmation_effect_payload (PyDict (bindings_json b)) command) v"
      "load_and_authorize E g r c a n db = (Inr m, d)" "pending_row (ev_text E) m b p"
      "cell_report_confirmation_command (ev_text E) (pp_workflow p) = Inr cmd"
      "command = PyStr cmd" "flush_meeting E (report_row (ev_text E) m (wf_candidate (pp_workflow p)) v a n) d = (Inr (), db')"
      "res = \<lparr>cr_snapshot = report_value (wf_candidate (pp_workflow p)) (ei_effect_id v) (ei_payload_digest v),
               cr_accepted_workflow = Some (accept_workflow (pp_workflow p)), cr_replayed = False,
               cr_requires_caller_commit = True\<rparr>"
    using confirm_first_run [OF U, of g r c a command t v now db res db'] first by blast
  let ?k = "wf_candidate (pp_workflow p)" and ?row = "stored_row E (report_row (ev_text E) m (wf_candidate (pp_workflow p)) v a n)"
  note k = command_complete [OF U h(6)]
  have mr: "m_id m = r" using authorize_sound [OF h(4)] authorized_row by blast
  have "m2 \<in> set (replaced ?row (db_meetings db))"
    using left_row [OF later(1,5)] h(8) authorize_sound [OF h(4)] by (simp add: flush_run)
  then have m2: "m2 = ?row" using authorized_row [OF later(5)] replaced_rows [of m2 ?row "db_meetings db"] mr by auto
  have "tzinfo n = TimezoneUtc" using canonical_utc_Inr [OF now h(1)] by blast
  then have v: "validate_final_replay (ev_text E) m2 a (ei_effect_id v) (ei_payload_digest v) = Inr (cr_snapshot res)"
    using sent_row_replays [OF U] k effect_shapes [OF h(3)] j m2 h(9) by simp
  have s: "m_relatorio_status m2 = RELATORIO_ENVIADO" by (simp add: m2 stored_row_def)
  note l = authorize_complete [OF later(5,2)]
  have "confirmation_arguments E g r c a command t v now2 = Inr (n2, b, v)"
    using h later(4) command_parses [OF U h(6)] by (auto simp: confirmation_arguments_Inr)
  then show ?thesis
    using l v s later(3) by (auto simp: confirm_run)
qed

text \<open>
  C21. A confirmation that was recorded can be repeated.  In a later session that finds the meeting's row
  as the first run left it, whatever else changed, that is in a transaction of the church in which no
  statement fails, and whose actor still passes the checks under locks, the same message of the
  same turn expected as a repetition is answered with the same snapshot, marked as replayed and
  with nothing to commit, and the session only takes the locks of the checks.
\<close>

theorem confirmed_report_replays:
  assumes U: "unicode_ok (ev_text E)" and now: "valid_datetime now" and j: "\<And>x. same_json (ev_jsonb E x) x"
    and first: "confirm_cell_report E g r c a command t v now False db = (Inr res, db')"
    and later: "meeting_rows db2 g r = meeting_rows db' g r" "faultless E db2" "pg_transaction (db_pg db2) \<noteq> None"
      "canonical_utc now2 = Inr n2" "authorized E db2 g r c a n2 m2"
  shows "confirm_cell_report E g r c a command t v now2 True db2
       = (Inr \<lparr>cr_snapshot = cr_snapshot res, cr_accepted_workflow = None, cr_replayed = True, cr_requires_caller_commit = False\<rparr>,
          db2\<lparr>db_log := db_log db2 @ authorization_locks db2 g c a m2\<rparr>)"
  by (rule confirmation_replay_run [OF assms])

lemma tables_rows: "tables db2 = tables db' \<Longrightarrow> meeting_rows db2 g r = meeting_rows db' g r"
  using rows_tables by blast

theorem confirmed_report_replays_witness:
  "\<exists>v j res db' row d. confirm_cell_report sample_env 1 5 2 4 (PyStr sample_command) sample_identity v app_now False
       (sample_db (sample_meeting j)) = (Inr res, db')
     \<and> confirm_cell_report sample_env 1 5 2 4 (PyStr sample_command) sample_identity v app_now True (sample_db row)
       = (Inr \<lparr>cr_snapshot = cr_snapshot res, cr_accepted_workflow = None, cr_replayed = True, cr_requires_caller_commit = False\<rparr>, d)"
proof -
  obtain v j res db' row where h: "confirm_cell_report sample_env 1 5 2 4 (PyStr sample_command) sample_identity v app_now False
      (sample_db (sample_meeting j)) = (Inr res, db')" "tables db' = tables (sample_db row)"
      "authorized sample_env (sample_db row) 1 5 2 4 app_now row" by (rule sample_confirmation)
  have "pg_transaction (db_pg (sample_db row)) \<noteq> None" by (simp add: sample_db_def sample_pg_def)
  from confirmed_report_replays [OF _ app_now_utc(2) _ h(1) tables_rows [OF h(2) [symmetric]] sample_faultless this app_now_utc(1) h(3)] h(1)
  show ?thesis using ascii_db_ok same_json_refl by (simp only: sample_env_sel simp_thms) blast
qed

end
