(* ===== verification/Sha256Bits.thy ===== *)
theory Sha256Bits
  imports PyHash
begin

text \<open>
  SHA-256 evaluated on lists of bits, least significant first: every operation of a round is a truth table
  applied along three lists, and an addition is a ripple of full adders.  The digest of a message computed
  so is the one of PyHash, and simplification with the tables computes it.
\<close>

section \<open>Words as bits\<close>

definition bits :: "word32 \<Rightarrow> bool list" where "bits w = map (bit w) [0..<32]"

definition xor3 :: "bool \<Rightarrow> bool \<Rightarrow> bool \<Rightarrow> bool" where "xor3 a b c = (a \<noteq> (b \<noteq> c))"
definition maj3 :: "bool \<Rightarrow> bool \<Rightarrow> bool \<Rightarrow> bool" where "maj3 a b c = (if a then b \<or> c else b \<and> c)"
definition choose3 :: "bool \<Rightarrow> bool \<Rightarrow> bool \<Rightarrow> bool" where "choose3 a b c = (if a then b else c)"

lemma gates:
  "xor3 True True True = True" "xor3 True True False = False" "xor3 True False True = False" "xor3 True False False = True"
  "xor3 False True True = False" "xor3 False True False = True" "xor3 False False True = True" "xor3 False False False = False"
  "maj3 True True c = True" "maj3 True False c = c" "maj3 False True c = c" "maj3 False False c = False"
  "choose3 True b c = b" "choose3 False b c = c"
  by (simp_all add: xor3_def maj3_def choose3_def)

fun gate :: "(bool \<Rightarrow> bool \<Rightarrow> bool \<Rightarrow> bool) \<Rightarrow> bool list \<Rightarrow> bool list \<Rightarrow> bool list \<Rightarrow> bool list" where
  "gate g (a # as) (b # bs) (c # cs) = g a b c # gate g as bs cs"
| "gate g as bs cs = []"

fun adder :: "bool \<Rightarrow> bool list \<Rightarrow> bool list \<Rightarrow> bool list" where
  "adder c (a # as) (b # bs) = xor3 a b c # adder (maj3 a b c) as bs"
| "adder c as bs = []"

definition rotb :: "nat \<Rightarrow> bool list \<Rightarrow> bool list" where "rotb n xs = drop n xs @ take n xs"
definition shrb :: "nat \<Rightarrow> bool list \<Rightarrow> bool list" where "shrb n xs = drop n xs @ replicate n False"

lemma shifts:
  "rotb 2 (a0#a1 # xs) = xs @ [a0, a1]"
  "rotb 6 (a0#a1#a2#a3#a4#a5 # xs) = xs @ [a0, a1, a2, a3, a4, a5]"
  "rotb 7 (a0#a1#a2#a3#a4#a5#a6 # xs) = xs @ [a0, a1, a2, a3, a4, a5, a6]"
  "rotb 11 (a0#a1#a2#a3#a4#a5#a6#a7#a8#a9#a10 # xs) = xs @ [a0, a1, a2, a3, a4, a5, a6, a7, a8, a9, a10]"
  "rotb 13 (a0#a1#a2#a3#a4#a5#a6#a7#a8#a9#a10#a11#a12 # xs) = xs @ [a0, a1, a2, a3, a4, a5, a6, a7, a8, a9, a10, a11, a12]"
  "rotb 17 (a0#a1#a2#a3#a4#a5#a6#a7#a8#a9#a10#a11#a12#a13#a14#a15#a16 # xs) = xs @ [a0, a1, a2, a3, a4, a5, a6, a7, a8, a9, a10, a11, a12, a13, a14, a15, a16]"
  "rotb 18 (a0#a1#a2#a3#a4#a5#a6#a7#a8#a9#a10#a11#a12#a13#a14#a15#a16#a17 # xs) = xs @ [a0, a1, a2, a3, a4, a5, a6, a7, a8, a9, a10, a11, a12, a13, a14, a15, a16, a17]"
  "rotb 19 (a0#a1#a2#a3#a4#a5#a6#a7#a8#a9#a10#a11#a12#a13#a14#a15#a16#a17#a18 # xs) = xs @ [a0, a1, a2, a3, a4, a5, a6, a7, a8, a9, a10, a11, a12, a13, a14, a15, a16, a17, a18]"
  "rotb 22 (a0#a1#a2#a3#a4#a5#a6#a7#a8#a9#a10#a11#a12#a13#a14#a15#a16#a17#a18#a19#a20#a21 # xs) = xs @ [a0, a1, a2, a3, a4, a5, a6, a7, a8, a9, a10, a11, a12, a13, a14, a15, a16, a17, a18, a19, a20, a21]"
  "rotb 25 (a0#a1#a2#a3#a4#a5#a6#a7#a8#a9#a10#a11#a12#a13#a14#a15#a16#a17#a18#a19#a20#a21#a22#a23#a24 # xs) = xs @ [a0, a1, a2, a3, a4, a5, a6, a7, a8, a9, a10, a11, a12, a13, a14, a15, a16, a17, a18, a19, a20, a21, a22, a23, a24]"
  "shrb 3 (a0#a1#a2 # xs) = xs @ [False, False, False]"
  "shrb 10 (a0#a1#a2#a3#a4#a5#a6#a7#a8#a9 # xs) = xs @ [False, False, False, False, False, False, False, False, False, False]"
  by (simp_all add: rotb_def shrb_def eval_nat_numeral)

lemma bits_nth [simp]: "i < 32 \<Longrightarrow> bits w ! i = bit w i" "length (bits w) = 32"
  by (simp_all add: bits_def)

lemma bits_inj: "bits v = bits w \<longleftrightarrow> v = w"
  by (auto simp: bits_def bit_eq_iff [of v w])

lemma gate_map: "gate g (map f xs) (map f' xs) (map f'' xs) = map (\<lambda>i. g (f i) (f' i) (f'' i)) xs"
  by (induction xs) auto

lemma gate_bits: "gate g (bits a) (bits b) (bits c) = map (\<lambda>i. g (bit a i) (bit b i) (bit c i)) [0..<32]"
  by (simp add: bits_def gate_map)

lemma rotb_bits:
  assumes "n < 32"
  shows "rotb n (bits w) = bits (word_rotr n w)"
proof -
  have "rotb n (bits w) = rotate n (bits w)" using assms by (simp add: rotb_def rotate_drop_take)
  moreover have "rotate n (bits w) = bits (word_rotr n w)"
    by (rule nth_equalityI) (simp_all add: nth_rotate bit_word_rotr_iff add.commute)
  ultimately show ?thesis by simp
qed

lemma shrb_bits: "n < 32 \<Longrightarrow> shrb n (bits w) = bits (drop_bit n w)"
  by (rule nth_equalityI) (auto simp: shrb_def nth_append bit_drop_bit_eq dest: bit_imp_le_length)


text \<open>The adder adds: on values below \<open>2 ^ n\<close>, modulo \<open>2 ^ n\<close>.\<close>

abbreviation value_of :: "bool list \<Rightarrow> nat" where "value_of \<equiv> horner_sum of_bool 2"

lemma value_of_bits: "value_of (bits w) = unat w"
proof -
  have "bits w = map (bit (unat w)) [0..<32]" by (auto simp: bits_def bit_unsigned_iff)
  then have "value_of (bits w) = take_bit 32 (unat w)" by (simp only: horner_sum_bit_eq_take_bit)
  then show ?thesis by (simp add: take_bit_nat_eq_self_iff unsigned_less [of w, simplified])
qed

lemma value_of_inj: "length as = length bs \<Longrightarrow> value_of as = value_of bs \<Longrightarrow> as = bs"
proof (rule nth_equalityI)
  fix i assume h: "length as = length bs" "value_of as = value_of bs" "i < length as"
  have "bit (value_of xs) i \<longleftrightarrow> i < length xs \<and> xs ! i" for xs by (simp add: bit_horner_sum_bit_iff)
  from this [of as] this [of bs] h show "as ! i = bs ! i" by simp
qed simp

lemma adder_length: "length as = length bs \<Longrightarrow> length (adder c as bs) = length as"
  by (induction c as bs rule: adder.induct) auto

lemma adder_value: "length as = length bs \<Longrightarrow> value_of (adder c as bs) = (of_bool c + value_of as + value_of bs) mod 2 ^ length as"
proof (induction c as bs rule: adder.induct)
  case (1 c a as b bs)
  define y where "y = of_bool (maj3 a b c) + value_of as + value_of bs"
  have s: "of_bool c + value_of (a # as) + value_of (b # bs) = of_bool (xor3 a b c) + 2 * y"
    by (cases a; cases b; cases c) (simp_all add: y_def xor3_def maj3_def)
  have "(of_bool x + 2 * y) mod (2 * k) = of_bool x + 2 * (y mod k)" for x and k :: nat
    by (cases x) (simp_all add: mod_mult2_eq)
  then show ?case using 1 by (simp add: s del: horner_sum_simps(2)) (simp add: y_def)
qed simp_all

lemma adder_bits: "adder False (bits v) (bits w) = bits (v + w)"
proof (rule value_of_inj)
  show "value_of (adder False (bits v) (bits w)) = value_of (bits (v + w))"
    by (simp add: adder_value value_of_bits unat_word_ariths)
qed (simp add: adder_length)

section \<open>The compression on bits\<close>

definition sigma_b :: "nat \<Rightarrow> nat \<Rightarrow> nat \<Rightarrow> bool list \<Rightarrow> bool list" where
  "sigma_b i j k x = gate xor3 (rotb i x) (rotb j x) (rotb k x)"

definition small_b :: "nat \<Rightarrow> nat \<Rightarrow> nat \<Rightarrow> bool list \<Rightarrow> bool list" where
  "small_b i j k x = gate xor3 (rotb i x) (rotb j x) (shrb k x)"

abbreviation plus_b :: "bool list \<Rightarrow> bool list \<Rightarrow> bool list" where "plus_b \<equiv> adder False"

lemma sigma_bits:
  "sigma_b 2 13 22 (bits x) = bits (big_sigma0 x)" "sigma_b 6 11 25 (bits x) = bits (big_sigma1 x)"
  "small_b 7 18 3 (bits x) = bits (small_sigma0 x)" "small_b 17 19 10 (bits x) = bits (small_sigma1 x)"
  by (simp_all add: sigma_b_def small_b_def rotb_bits shrb_bits gate_bits)
    (simp_all add: bits_def xor3_def big_sigma0_def big_sigma1_def small_sigma0_def small_sigma1_def bit_xor_iff)

lemma choice_bits:
  "gate choose3 (bits x) (bits y) (bits z) = bits (ch32 x y z)" "gate maj3 (bits x) (bits y) (bits z) = bits (maj32 x y z)"
  unfolding gate_bits by (auto simp: bits_def choose3_def maj3_def ch32_def maj32_def bit_xor_iff bit_and_iff bit_not_iff)

definition next_b :: "bool list list \<Rightarrow> bool list" where
  "next_b ws = plus_b (plus_b (plus_b (small_b 17 19 10 (ws ! 1)) (ws ! 6)) (small_b 7 18 3 (ws ! 14))) (ws ! 15)"

lemma next_window:
  "next_b (w0 # w1 # w2 # w3 # w4 # w5 # w6 # w7 # w8 # w9 # w10 # w11 # w12 # w13 # w14 # w15 # ws) =
   plus_b (plus_b (plus_b (small_b 17 19 10 w1) w6) (small_b 7 18 3 w14)) w15"
  by (simp add: next_b_def)

fun schedule_b :: "nat \<Rightarrow> bool list list \<Rightarrow> bool list list" where
  "schedule_b 0 ws = ws"
| "schedule_b (Suc n) ws = schedule_b n (next_b ws # ws)"

fun mix_b :: "bool list \<Rightarrow> bool list \<Rightarrow> bool list list \<Rightarrow> bool list list" where
  "mix_b t1 t2 [a, b, c, d, e, f, g, h] = [plus_b t1 t2, a, b, c, plus_b d t1, e, f, g]"
| "mix_b t1 t2 s = s"

fun round_b :: "bool list \<Rightarrow> bool list \<Rightarrow> bool list list \<Rightarrow> bool list list" where
  "round_b k w [a, b, c, d, e, f, g, h] =
     mix_b (plus_b (plus_b (plus_b (plus_b h (sigma_b 6 11 25 e)) (gate choose3 e f g)) k) w)
       (plus_b (sigma_b 2 13 22 a) (gate maj3 a b c)) [a, b, c, d, e, f, g, h]"
| "round_b k w s = s"

fun rounds_b :: "bool list list \<Rightarrow> bool list list \<Rightarrow> bool list list \<Rightarrow> bool list list" where
  "rounds_b (k # ks) (w # ws) s = rounds_b ks ws (round_b k w s)"
| "rounds_b ks ws s = s"

fun add_b :: "bool list list \<Rightarrow> bool list list \<Rightarrow> bool list list" where
  "add_b (a # as) (b # bs) = plus_b a b # add_b as bs"
| "add_b as bs = []"

definition block_b :: "bool list list \<Rightarrow> bool list list \<Rightarrow> bool list list" where
  "block_b h ws = add_b h (rounds_b (map bits sha256_k) (rev (schedule_b 48 (rev ws))) h)"

lemma schedule_bits: "16 \<le> length ws \<Longrightarrow> schedule_b n (map bits ws) = map bits (sha256_schedule n ws)"
proof (induction n arbitrary: ws)
  case (Suc n)
  have "next_b (map bits ws) = bits (small_sigma1 (ws ! 1) + ws ! 6 + small_sigma0 (ws ! 14) + ws ! 15)"
    using Suc.prems by (simp add: next_b_def sigma_bits adder_bits)
  then show ?case using Suc.IH [of "(small_sigma1 (ws ! 1) + ws ! 6 + small_sigma0 (ws ! 14) + ws ! 15) # ws"] Suc.prems by simp
qed simp

lemma round_bits: "length s = 8 \<Longrightarrow> round_b (bits k) (bits w) (map bits s) = map bits (sha256_rounds [(k, w)] s)"
proof -
  assume "length s = 8"
  then obtain a b c d e f g h where "s = [a, b, c, d, e, f, g, h]"
    by (auto simp: numeral_eq_Suc length_Suc_conv)
  then show ?thesis by (simp add: sigma_bits choice_bits adder_bits Let_def)
qed

lemma rounds_bits: "length s = 8 \<Longrightarrow> length ks = length ws \<Longrightarrow>
  rounds_b (map bits ks) (map bits ws) (map bits s) = map bits (sha256_rounds (zip ks ws) s)"
proof (induction ks ws arbitrary: s rule: list_induct2')
  case (4 k ks w ws)
  obtain a b c d e f g h where s: "s = [a, b, c, d, e, f, g, h]"
    using 4 by (auto simp: numeral_eq_Suc length_Suc_conv)
  have "sha256_rounds (zip (k # ks) (w # ws)) s = sha256_rounds (zip ks ws) (sha256_rounds [(k, w)] s)"
    by (simp add: s Let_def)
  then show ?case using 4 round_bits [of s k w] sha256_rounds_length [of s "[(k, w)]"] by simp
qed simp_all

lemma add_bits: "add_b (map bits as) (map bits bs) = map bits (map2 (+) as bs)"
  by (induction as bs rule: list_induct2') (simp_all add: adder_bits)

lemma schedule_length: "length (sha256_schedule n ws) = n + length ws"
  by (induction n ws rule: sha256_schedule.induct) auto

lemma length_k: "length sha256_k = 64"
  by (simp add: sha256_k_def)

lemma block_bits:
  assumes "length h = 8" "length ws = 16"
  shows "block_b (map bits h) (map bits ws) = map bits (sha256_block h ws)"
proof -
  have s: "rev (schedule_b 48 (rev (map bits ws))) = map bits (rev (sha256_schedule 48 (rev ws)))"
    using assms(2) by (simp add: rev_map schedule_bits)
  have r: "rounds_b (map bits sha256_k) (map bits (rev (sha256_schedule 48 (rev ws)))) (map bits h)
      = map bits (sha256_rounds (zip sha256_k (rev (sha256_schedule 48 (rev ws)))) h)"
    using assms length_k by (intro rounds_bits) (simp_all add: schedule_length)
  show ?thesis unfolding block_b_def s r add_bits sha256_block_def ..
qed

fun blocks_b :: "bool list list \<Rightarrow> bool list list list \<Rightarrow> bool list list" where
  "blocks_b h [] = h"
| "blocks_b h (b # bs) = blocks_b (block_b h b) bs"

lemma block_length: "length h = 8 \<Longrightarrow> length (sha256_block h ws) = 8"
  by (simp add: sha256_block_def sha256_rounds_length)

lemma blocks_bits:
  "length h = 8 \<Longrightarrow> list_all (\<lambda>b. length b = 16) bs \<Longrightarrow>
   map bits (sha256_blocks (length bs) h (concat bs)) = blocks_b (map bits h) (map (map bits) bs)"
  by (induction bs arbitrary: h) (simp_all add: block_bits block_length)

section \<open>Evaluation\<close>

text \<open>The bits of a numeral.\<close>

fun num_bits :: "num \<Rightarrow> bool list" where
  "num_bits num.One = [True]"
| "num_bits (num.Bit0 x) = False # num_bits x"
| "num_bits (num.Bit1 x) = True # num_bits x"

fun pad_bits :: "nat \<Rightarrow> bool list \<Rightarrow> bool list" where
  "pad_bits 0 xs = []"
| "pad_bits (Suc n) [] = False # pad_bits n []"
| "pad_bits (Suc n) (x # xs) = x # pad_bits n xs"

lemma num_bits_nth: "bit (numeral x :: int) n \<longleftrightarrow> n < length (num_bits x) \<and> num_bits x ! n"
  by (induction x arbitrary: n) (auto simp: bit_numeral_rec nth_Cons bit_1_iff split: nat.splits)

lemma pad_bits_nth: "i < n \<Longrightarrow> pad_bits n xs ! i = (i < length xs \<and> xs ! i)" "length (pad_bits n xs) = n"
  by (induction n xs arbitrary: i rule: pad_bits.induct) (auto simp: nth_Cons split: nat.splits)

lemma bits_numeral: "bits (numeral x) = pad_bits 32 (num_bits x)" "bits 0 = pad_bits 32 []" "bits 1 = pad_bits 32 [True]"
proof -
  show "bits (numeral x) = pad_bits 32 (num_bits x)"
    by (rule nth_equalityI) (simp_all add: pad_bits_nth num_bits_nth bit_numeral_word_iff)
  show "bits 0 = pad_bits 32 []" "bits 1 = pad_bits 32 [True]"
    by (rule nth_equalityI; auto simp: pad_bits_nth bit_1_iff)+
qed

lemma pad_numeral:
  "pad_bits (numeral k) [] = False # pad_bits (pred_numeral k) []"
  "pad_bits (numeral k) (x # xs) = x # pad_bits (pred_numeral k) xs"
  "schedule_b (numeral k) ws = schedule_b (pred_numeral k) (next_b ws # ws)"
  by (simp_all add: numeral_eq_Suc)

lemmas bit_eval = gates gate.simps adder.simps shifts sigma_b_def small_b_def next_window schedule_b.simps mix_b.simps
  round_b.simps rounds_b.simps add_b.simps block_b_def blocks_b.simps bits_numeral num_bits.simps pad_bits.simps pad_numeral
  pred_numeral_simps BitM.simps list.map rev.simps append.simps sha256_k_def sha256_init_def

section \<open>Messages\<close>

fun pack :: "nat list \<Rightarrow> nat list" where
  "pack (a # b # c # d # r) = (256 * (256 * (256 * a + b) + c) + d) # pack r"
| "pack r = []"

lemma words_of_pack: "list_all (\<lambda>n. n < 256) ns \<Longrightarrow> words_of_bytes (map byte ns) = map word_of_nat (pack ns)"
  by (induction ns rule: pack.induct) simp_all

definition padding :: "nat \<Rightarrow> nat list" where
  "padding n = 128 # replicate ((119 - n mod 64) mod 64) 0 @ [0, 0, 0, 0, 0, 0, 8 * n div 256, 8 * n mod 256]"

lemma int_to_bytes_numeral:
  "int_to_bytes (numeral k) n = int_to_bytes (pred_numeral k) (n div 256) @ [byte (n mod 256)]"
  by (subst numeral_eq_Suc [of k]) (rule int_to_bytes.simps(2))

lemma replicate_pred: "replicate (numeral k) x = x # replicate (pred_numeral k) x"
  by (simp add: numeral_eq_Suc)

lemma pad_bytes: "8 * length ns < 65536 \<Longrightarrow> sha256_pad (map byte ns) = map byte (ns @ padding (length ns))"
  by (simp add: sha256_pad_def padding_def map_replicate int_to_bytes_numeral)

text \<open>What evaluates the bytes of a message, its words and the text of its digest.\<close>

lemma two: "Suc (Suc 0) = 2"
  by simp

lemmas byte_eval = u_def ascii_bytes_def uuid_bytes_def binary_frame_def frame_part_def int_to_bytes_numeral two
lemmas pad_eval = padding_def replicate_pred
lemmas pack_eval = pack.simps arith_simps mult_zero_right mult_1_right add_0_left add_0_right arith_special numeral_plus_one
  one_plus_numeral concat.simps append.simps
lemma words_of_nat: "word_of_nat 0 = (0 :: word32)" "word_of_nat 1 = (1 :: word32)" "word_of_nat (numeral k) = (numeral k :: word32)"
  by simp_all

lemmas word_eval = bit_eval words_of_nat
lemmas hex_eval = u_def hexdigest_def hex_of_byte_def hex_char_def int_to_bytes_numeral

lemma known_digest:
  assumes "m = map byte ns" "padding (length ns) = ps" "pack (ns @ ps) = concat bs"
    and "list_all (\<lambda>n. n < 256) ns" "8 * length ns < 65536" "list_all (\<lambda>b. length b = 16) bs"
    and "blocks_b (map bits sha256_init) (map (map (\<lambda>n. bits (word_of_nat n))) bs) = map bits ws"
    and "hexdigest (concat (map (\<lambda>w. int_to_bytes 4 (unat w)) ws)) = x"
  shows "hexdigest (sha256 m) = x"
proof -
  let ?bs = "map (map word_of_nat) bs :: word32 list list"
  have "list_all (\<lambda>n. n < 256) (padding (length ns))" using assms(5) by (auto simp: padding_def list_all_iff)
  then have "words_of_bytes (map byte (ns @ ps)) = map word_of_nat (concat bs)"
    using assms(2-4) words_of_pack [of "ns @ ps"] by simp
  then have w: "words_of_bytes (sha256_pad m) = concat ?bs"
    unfolding assms(1) pad_bytes [OF assms(5)] assms(2) by (simp add: map_concat)
  have b: "list_all (\<lambda>b. length b = 16) ?bs" using assms(6) by (simp add: list_all_iff)
  have "length (concat ?bs) = 16 * length ?bs" using b by (induction "?bs" arbitrary: bs) (auto simp: Cons_eq_map_conv)
  moreover have "map bits (sha256_blocks (length ?bs) sha256_init (concat ?bs)) = map bits ws"
    using blocks_bits [OF _ b, of sha256_init] assms(7) by (simp add: sha256_init_def comp_def)
  then have "sha256_blocks (length ?bs) sha256_init (concat ?bs) = ws"
    using bits_inj by (simp add: inj_map_eq_map inj_def)
  ultimately have "sha256 m = concat (map (\<lambda>w. int_to_bytes 4 (unat w)) ws)" by (simp add: sha256_def w Let_def)
  then show ?thesis using assms(8) by simp
qed

lemma sha256_conforms: "hexdigest (sha256 (ascii_bytes (u ''abc''))) = u ''ba7816bf8f01cfea414140de5dae2223b00361a396177a9cb410ff61f20015ad''"
proof -
  define ns :: "nat list" where "ns = [97, 98, 99]"
  define bs :: "nat list list" where
    "bs = [[1633837952, 0, 0, 0, 0, 0, 0, 0, 0, 0, 0, 0, 0, 0, 0, 24]]"
  define ws :: "word32 list" where "ws = [3128432319, 2399260650, 1094795486, 1571693091, 2953011619, 2518121116, 3021012833, 4060091821]"
  show ?thesis
  proof (rule known_digest)
    show "ascii_bytes (u ''abc'') = map byte ns" by (simp add: ns_def byte_eval)
    show "pack (ns @ [128, 0, 0, 0, 0, 0, 0, 0, 0, 0, 0, 0, 0, 0, 0, 0, 0, 0, 0, 0, 0, 0, 0, 0, 0, 0, 0, 0, 0, 0, 0, 0, 0, 0, 0,
      0, 0, 0, 0, 0, 0, 0, 0, 0, 0, 0, 0, 0, 0, 0, 0, 0, 0, 0, 0, 0, 0, 0, 0, 0, 24]) = concat bs"
      by (simp only: ns_def bs_def pack_eval)
    show "padding (length ns) = [128, 0, 0, 0, 0, 0, 0, 0, 0, 0, 0, 0, 0, 0, 0, 0, 0, 0, 0, 0, 0, 0, 0, 0, 0, 0, 0, 0, 0, 0, 0, 0, 0, 0, 0,
      0, 0, 0, 0, 0, 0, 0, 0, 0, 0, 0, 0, 0, 0, 0, 0, 0, 0, 0, 0, 0, 0, 0, 0, 0, 24]"
      by (simp add: ns_def pad_eval)
    show "blocks_b (map bits sha256_init) (map (map (\<lambda>n. bits (word_of_nat n))) bs) = map bits ws"
      by (simp only: bs_def ws_def word_eval)
  qed (simp_all add: ns_def bs_def ws_def hex_eval)
qed

end
