(* ===== verification/TurnExecution.thy ===== *)
theory TurnExecution
  imports TurnIdentity "HOL-Library.Product_Lexorder"
begin

text \<open>
  Plans, receipts and outbox entries of the effects of one turn, \<open>agent/turn_execution.py\<close>: the plan is
  the collection of a turn's intents in one canonical order with a digest; a receipt says how one planned effect
  ended; an outbox entry carries the planned reply through its transport; a compatibility key names the reply
  for a provider.  Every structure is rebuilt and compared before it is used.

  Values that come from outside are records here, so the branches on the types of objects and on missing
  attributes have no counterpart.  The code compares with \<open>hmac.compare_digest\<close> where both sides are known
  to be ASCII; the value of that comparison is equality.
\<close>

section \<open>Vocabulary\<close>

definition MAX_EFFECT_RECEIPTS_PER_RESOLUTION :: nat where "MAX_EFFECT_RECEIPTS_PER_RESOLUTION = 16"
definition MAX_COMPATIBILITY_KEYS_PER_RESOLUTION :: nat where "MAX_COMPATIBILITY_KEYS_PER_RESOLUTION = 3"

definition plan_prefix :: pystr where "plan_prefix = u ''agent_plan_v1_''"
definition serial_scope_prefix :: pystr where "serial_scope_prefix = u ''agent_serial_scope_v1_''"
definition receipt_id_prefix :: pystr where "receipt_id_prefix = u ''agent_receipt_v1_''"
definition receipt_digest_prefix :: pystr where "receipt_digest_prefix = u ''agent_receipt_material_v1_''"
definition outbox_entry_prefix :: pystr where "outbox_entry_prefix = u ''agent_reply_outbox_v1_''"
definition live_legacy_reply_prefix :: pystr where "live_legacy_reply_prefix = u ''agent-reply:''"

definition plan_domain :: pystr where "plan_domain = u ''pastorai.agent.turn-execution-plan''"
definition serial_scope_domain :: pystr where "serial_scope_domain = u ''pastorai.agent.conversation-serial-scope''"
definition receipt_id_domain :: pystr where "receipt_id_domain = u ''pastorai.agent.effect-receipt-id''"
definition receipt_digest_domain :: pystr where "receipt_digest_domain = u ''pastorai.agent.effect-receipt-material''"
definition outbox_entry_domain :: pystr where "outbox_entry_domain = u ''pastorai.agent.reply-outbox-entry''"
definition compatibility_key_domain :: pystr where "compatibility_key_domain = u ''pastorai.agent.effect-compatibility-key''"

definition SINGLETON_EFFECT_KINDS :: "effect_kind list" where
  "SINGLETON_EFFECT_KINDS = [INTAKE_UPDATE, APPLY_OPTOUT, APPLY_CONSENT, OUTBOUND_REPLY]"

fun EFFECT_EXECUTION_ORDER :: "effect_kind \<Rightarrow> nat" where
  "EFFECT_EXECUTION_ORDER INTAKE_UPDATE = 10"
| "EFFECT_EXECUTION_ORDER APPLY_OPTOUT = 20"
| "EFFECT_EXECUTION_ORDER APPLY_CONSENT = 30"
| "EFFECT_EXECUTION_ORDER TOOL_CALL = 40"
| "EFFECT_EXECUTION_ORDER AUDIT_EVENT = 50"
| "EFFECT_EXECUTION_ORDER OUTBOUND_REPLY = 60"

datatype receipt_outcome = COMMITTED | NOOP | REJECTED

fun outcome_value :: "receipt_outcome \<Rightarrow> pystr" where
  "outcome_value COMMITTED = u ''committed''"
| "outcome_value NOOP = u ''noop''"
| "outcome_value REJECTED = u ''rejected''"

datatype outbox_state = PENDING | IN_TRANSPORT | ACCEPTED | AMBIGUOUS

fun outbox_state_value :: "outbox_state \<Rightarrow> pystr" where
  "outbox_state_value PENDING = u ''pending''"
| "outbox_state_value IN_TRANSPORT = u ''in_transport''"
| "outbox_state_value ACCEPTED = u ''accepted''"
| "outbox_state_value AMBIGUOUS = u ''ambiguous''"

datatype outbox_event = TRANSPORT_STARTED | TRANSPORT_ACCEPTED | TRANSPORT_OUTCOME_AMBIGUOUS | PRE_SEND_FAILURE_PROVEN

datatype key_version = V2 | V1 | V0

fun version_value :: "key_version \<Rightarrow> pystr" where
  "version_value V2 = u ''v2''"
| "version_value V1 = u ''v1''"
| "version_value V0 = u ''v0''"

datatype key_source = CURRENT_DERIVED | LEGACY_EXTERNAL_EVIDENCE

datatype execution_error =
    INVALID_EXPECTED_IDENTITY
  | INVALID_PLAN_COLLECTION
  | INVALID_EXECUTION_PLAN
  | EXECUTION_PLAN_CONFLICT
  | UNEXPECTED_PLAN_IDENTITY
  | SINGLETON_EFFECT_VIOLATION
  | OUTBOUND_REPLY_VIOLATION
  | INVALID_SERIAL_SCOPE
  | INVALID_EFFECT_INTENT
  | EFFECT_NOT_IN_PLAN
  | INVALID_RECEIPT_OUTCOME
  | INVALID_EFFECT_RECEIPT
  | INVALID_RECEIPT_COLLECTION
  | RECEIPT_COLLECTION_LIMIT_EXCEEDED
  | UNEXPECTED_EFFECT_RECEIPT
  | EFFECT_RECEIPT_CONFLICT
  | REPLY_EFFECT_REQUIRED
  | INVALID_REPLY_OUTBOX_ENTRY
  | INVALID_REPLY_OUTBOX_STATE
  | INVALID_REPLY_OUTBOX_EVENT
  | INVALID_REPLY_OUTBOX_TRANSITION
  | AMBIGUOUS_REPLY_IS_TERMINAL
  | ACCEPTED_REPLY_IS_TERMINAL
  | INVALID_COMPATIBILITY_KEY_VERSION
  | INVALID_COMPATIBILITY_KEY
  | INVALID_COMPATIBILITY_KEY_COLLECTION
  | COMPATIBILITY_KEY_LIMIT_EXCEEDED
  | COMPATIBILITY_KEY_INCONCLUSIVE
  | COMPATIBILITY_KEY_CONFLICT

definition sha256_id :: "pystr \<Rightarrow> pystr \<Rightarrow> pystr \<Rightarrow> bytes list \<Rightarrow> pystr" where
  "sha256_id pre label version parts =
     pre @ hexdigest (sha256 (binary_frame (ascii_bytes label # ascii_bytes version # parts)))"

text \<open>Equality of a value with an ASCII one.\<close>

definition safe_equal :: "pystr \<Rightarrow> pystr \<Rightarrow> bool" where
  "safe_equal v e \<longleftrightarrow> length v = length e \<and> list_all (\<lambda>c. c < 128) v \<and> v = e"

definition is_legacy_reply_key :: "pystr \<Rightarrow> key_version \<Rightarrow> bool" where
  "is_legacy_reply_key v version =
     (let expected_length = length live_legacy_reply_prefix + 64 + (if version = V0 then 65 else 0) in
      if length v \<noteq> expected_length \<or> take (length live_legacy_reply_prefix) v \<noteq> live_legacy_reply_prefix then False
      else let parts = split_on 58 (drop (length live_legacy_reply_prefix) v) in
           if length parts \<noteq> (if version = V1 then 1 else 2) then False
           else list_all (\<lambda>p. length p = 64 \<and> list_all is_hex p) parts)"

definition compatibility_key_prefix :: "key_version \<Rightarrow> pystr" where
  "compatibility_key_prefix version = u ''agent_effect_key_'' @ version_value version @ u ''_''"

section \<open>Plans\<close>

definition require_expected_identity :: "unicode_db \<Rightarrow> turn_identity \<Rightarrow> (execution_error, turn_identity) result" where
  "require_expected_identity U t =
     ebind (ecatch (validate_agent_effect_intents U t []) (\<lambda>_. Inl INVALID_EXPECTED_IDENTITY)) (\<lambda>_. Inr t)"

definition require_effect_intent_for_identity ::
  "unicode_db \<Rightarrow> turn_identity \<Rightarrow> effect_intent \<Rightarrow> (execution_error, effect_intent) result" where
  "require_effect_intent_for_identity U t v =
     ebind (ecatch (validate_agent_effect_intents U t [v]) (\<lambda>_. Inl INVALID_EFFECT_INTENT)) (\<lambda>vs. Inr (hd vs))"

definition derive_serial_scope_id :: "turn_identity \<Rightarrow> pystr" where
  "derive_serial_scope_id t =
     sha256_id serial_scope_prefix serial_scope_domain (u ''v1'') [uuid_bytes (ti_igreja_id t), uuid_bytes (ti_conversation_id t)]"

record serial_scope =
  scope_id :: pystr

definition build_agent_conversation_serial_scope ::
  "unicode_db \<Rightarrow> turn_identity \<Rightarrow> (execution_error, serial_scope) result" where
  "build_agent_conversation_serial_scope U t =
     ebind (require_expected_identity U t) (\<lambda>i. Inr \<lparr>scope_id = derive_serial_scope_id i\<rparr>)"

definition require_serial_scope :: "turn_identity \<Rightarrow> serial_scope \<Rightarrow> (execution_error, serial_scope) result" where
  "require_serial_scope t s =
     (if \<not> prefixed_hex64 serial_scope_prefix (scope_id s) \<or> \<not> safe_equal (scope_id s) (derive_serial_scope_id t)
      then Inl INVALID_SERIAL_SCOPE else Inr s)"

definition canonical_effect_order :: "effect_intent \<Rightarrow> nat \<times> int \<times> pystr" where
  "canonical_effect_order v = (EFFECT_EXECUTION_ORDER (ei_kind v), ei_ordinal v, ei_effect_id v)"

definition effect_plan_frame :: "effect_intent \<Rightarrow> bytes" where
  "effect_plan_frame v =
     binary_frame [ascii_bytes (ei_turn_id v), ascii_bytes (kind_value (ei_kind v)), ascii_bytes (slot_value (ei_semantic_slot v)),
       int_to_bytes 8 (nat (ei_ordinal v)), ascii_bytes (ei_effect_id v), ascii_bytes (ei_payload_digest v)]"

definition plan_parts :: "pystr \<Rightarrow> pystr \<Rightarrow> effect_intent list \<Rightarrow> bytes list" where
  "plan_parts turn scope vs =
     [ascii_bytes (u ''v1''), ascii_bytes turn, ascii_bytes scope, int_to_bytes 4 (length vs)] @ map effect_plan_frame vs"

definition derive_plan_digest :: "pystr \<Rightarrow> pystr \<Rightarrow> effect_intent list \<Rightarrow> pystr" where
  "derive_plan_digest turn scope vs = sha256_id plan_prefix plan_domain (u ''v1'') (plan_parts turn scope vs)"

text \<open>The loop over a plan, with the counters of the kinds that may occur once and of replies.\<close>

fun count_singletons :: "(effect_kind \<Rightarrow> nat) \<Rightarrow> nat \<Rightarrow> effect_intent list \<Rightarrow> (execution_error, nat) result" where
  "count_singletons counts outbound [] = Inr outbound"
| "count_singletons counts outbound (v # vs) =
     (let k = ei_kind v; counts' = (if k \<in> set SINGLETON_EFFECT_KINDS then counts(k := counts k + 1) else counts) in
      if k \<in> set SINGLETON_EFFECT_KINDS \<and> (ei_ordinal v \<noteq> 0 \<or> counts' k > 1)
      then Inl (if k = OUTBOUND_REPLY then OUTBOUND_REPLY_VIOLATION else SINGLETON_EFFECT_VIOLATION)
      else count_singletons counts' (if k = OUTBOUND_REPLY then outbound + 1 else outbound) vs)"

definition validate_plan_semantics :: "effect_intent list \<Rightarrow> (execution_error, unit) result" where
  "validate_plan_semantics vs =
     ebind (count_singletons (\<lambda>_. 0) 0 vs) (\<lambda>outbound. if outbound > 1 then Inl OUTBOUND_REPLY_VIOLATION else Inr ())"

record execution_plan =
  pl_turn_id :: pystr
  pl_serial_scope :: serial_scope
  pl_effect_intents :: "effect_intent list"
  pl_plan_digest :: pystr

definition build_agent_turn_execution_plan ::
  "unicode_db \<Rightarrow> turn_identity \<Rightarrow> effect_intent list \<Rightarrow> (execution_error, execution_plan) result" where
  "build_agent_turn_execution_plan U t vs =
     ebind (require_expected_identity U t) (\<lambda>i.
     if length vs > MAX_EFFECT_INTENTS_PER_TURN then Inl INVALID_PLAN_COLLECTION
     else ebind (ecatch (validate_agent_effect_intents U i vs) (\<lambda>_. Inl INVALID_PLAN_COLLECTION)) (\<lambda>validated.
     let canonical = sort_key canonical_effect_order validated in
     ebind (validate_plan_semantics canonical) (\<lambda>_.
     ebind (build_agent_conversation_serial_scope U i) (\<lambda>scope.
       Inr \<lparr>pl_turn_id = ti_turn_id i, pl_serial_scope = scope, pl_effect_intents = canonical,
            pl_plan_digest = derive_plan_digest (ti_turn_id i) (scope_id scope) canonical\<rparr>))))"

definition validate_agent_turn_execution_plan ::
  "unicode_db \<Rightarrow> turn_identity \<Rightarrow> execution_plan \<Rightarrow> (execution_error, execution_plan) result" where
  "validate_agent_turn_execution_plan U t p =
     ebind (require_expected_identity U t) (\<lambda>i.
     if \<not> safe_equal (pl_turn_id p) (ti_turn_id i) then Inl UNEXPECTED_PLAN_IDENTITY
     else ebind (require_serial_scope i (pl_serial_scope p)) (\<lambda>_.
     ebind (build_agent_turn_execution_plan U i (pl_effect_intents p)) (\<lambda>rebuilt.
       if \<not> prefixed_hex64 plan_prefix (pl_plan_digest p) \<or> \<not> safe_equal (pl_plan_digest p) (pl_plan_digest rebuilt)
          \<or> pl_effect_intents rebuilt \<noteq> pl_effect_intents p
       then Inl INVALID_EXECUTION_PLAN else Inr p)))"

definition resolve_agent_turn_execution_plans ::
  "unicode_db \<Rightarrow> turn_identity \<Rightarrow> execution_plan list \<Rightarrow> (execution_error, execution_plan option) result" where
  "resolve_agent_turn_execution_plans U t ps =
     ebind (require_expected_identity U t) (\<lambda>i.
     if ps = [] then Inr None
     else if length ps \<noteq> 1 then Inl EXECUTION_PLAN_CONFLICT
     else ebind (validate_agent_turn_execution_plan U i (hd ps)) (\<lambda>p. Inr (Some p)))"

definition reconcile_agent_turn_execution_plan ::
  "unicode_db \<Rightarrow> turn_identity \<Rightarrow> execution_plan \<Rightarrow> execution_plan \<Rightarrow> (execution_error, execution_plan) result" where
  "reconcile_agent_turn_execution_plan U t existing replay =
     ebind (require_expected_identity U t) (\<lambda>i.
     ebind (validate_agent_turn_execution_plan U i existing) (\<lambda>first.
     ebind (validate_agent_turn_execution_plan U i replay) (\<lambda>second.
       if \<not> safe_equal (pl_turn_id second) (pl_turn_id first) \<or> \<not> safe_equal (pl_plan_digest second) (pl_plan_digest first)
          \<or> \<not> safe_equal (scope_id (pl_serial_scope second)) (scope_id (pl_serial_scope first))
          \<or> pl_effect_intents second \<noteq> pl_effect_intents first
       then Inl EXECUTION_PLAN_CONFLICT else Inr first)))"

definition require_plan_effect ::
  "unicode_db \<Rightarrow> turn_identity \<Rightarrow> execution_plan \<Rightarrow> effect_intent \<Rightarrow> (execution_error, effect_intent) result" where
  "require_plan_effect U t p v =
     ebind (require_effect_intent_for_identity U t v) (\<lambda>intent.
       case find (\<lambda>planned. ei_effect_id planned = ei_effect_id intent) (pl_effect_intents p) of
         None \<Rightarrow> Inl EFFECT_NOT_IN_PLAN
       | Some planned \<Rightarrow> if planned = intent then Inr intent else Inl EFFECT_NOT_IN_PLAN)"

section \<open>Receipts\<close>

definition derive_receipt_id :: "pystr \<Rightarrow> pystr" where
  "derive_receipt_id effect = sha256_id receipt_id_prefix receipt_id_domain (u ''v1'') [ascii_bytes effect]"

definition derive_receipt_digest :: "pystr \<Rightarrow> pystr \<Rightarrow> effect_intent \<Rightarrow> receipt_outcome \<Rightarrow> pystr" where
  "derive_receipt_digest receipt plan intent outcome =
     sha256_id receipt_digest_prefix receipt_digest_domain (u ''v1'')
       [ascii_bytes receipt, ascii_bytes plan, ascii_bytes (ei_turn_id intent), ascii_bytes (ei_effect_id intent),
        ascii_bytes (kind_value (ei_kind intent)), ascii_bytes (ei_payload_digest intent), ascii_bytes (outcome_value outcome)]"

record effect_receipt =
  er_plan_digest :: pystr
  er_turn_id :: pystr
  er_effect_id :: pystr
  er_kind :: effect_kind
  er_payload_digest :: pystr
  er_outcome :: receipt_outcome
  er_receipt_id :: pystr
  er_receipt_digest :: pystr

definition mint_effect_receipt :: "pystr \<Rightarrow> effect_intent \<Rightarrow> receipt_outcome \<Rightarrow> pystr \<Rightarrow> pystr \<Rightarrow> effect_receipt" where
  "mint_effect_receipt plan intent outcome receipt digest =
     \<lparr>er_plan_digest = plan, er_turn_id = ei_turn_id intent, er_effect_id = ei_effect_id intent, er_kind = ei_kind intent,
      er_payload_digest = ei_payload_digest intent, er_outcome = outcome, er_receipt_id = receipt, er_receipt_digest = digest\<rparr>"

text \<open>The identity, the plan and the planned effect every operation below starts from.\<close>

definition planned_effect ::
  "unicode_db \<Rightarrow> turn_identity \<Rightarrow> execution_plan \<Rightarrow> effect_intent
   \<Rightarrow> (execution_error, turn_identity \<times> execution_plan \<times> effect_intent) result" where
  "planned_effect U t p v =
     ebind (require_expected_identity U t) (\<lambda>i.
     ebind (validate_agent_turn_execution_plan U i p) (\<lambda>q.
     ebind (require_plan_effect U i q v) (\<lambda>w. Inr (i, q, w))))"

definition build_agent_effect_receipt ::
  "unicode_db \<Rightarrow> turn_identity \<Rightarrow> execution_plan \<Rightarrow> effect_intent \<Rightarrow> receipt_outcome \<Rightarrow> (execution_error, effect_receipt) result" where
  "build_agent_effect_receipt U t p v outcome =
     ebind (planned_effect U t p v) (\<lambda>(i, q, w).
       let receipt = derive_receipt_id (ei_effect_id w)
       in Inr (mint_effect_receipt (pl_plan_digest q) w outcome receipt
                 (derive_receipt_digest receipt (pl_plan_digest q) w outcome)))"

definition validate_effect_receipt ::
  "turn_identity \<Rightarrow> execution_plan \<Rightarrow> effect_intent \<Rightarrow> effect_receipt \<Rightarrow> (execution_error, effect_receipt) result" where
  "validate_effect_receipt t p v r =
     (let expected_id = derive_receipt_id (ei_effect_id v) in
      if \<not> prefixed_hex64 receipt_id_prefix (er_receipt_id r) then Inl INVALID_EFFECT_RECEIPT
      else if \<not> safe_equal (er_receipt_id r) expected_id then Inl UNEXPECTED_EFFECT_RECEIPT
      else if \<not> safe_equal (er_plan_digest r) (pl_plan_digest p) \<or> \<not> safe_equal (er_turn_id r) (ti_turn_id t)
              \<or> \<not> safe_equal (er_effect_id r) (ei_effect_id v) \<or> er_kind r \<noteq> ei_kind v
              \<or> \<not> safe_equal (er_payload_digest r) (ei_payload_digest v)
           then Inl EFFECT_RECEIPT_CONFLICT
      else if \<not> prefixed_hex64 receipt_digest_prefix (er_receipt_digest r)
              \<or> \<not> safe_equal (er_receipt_digest r) (derive_receipt_digest expected_id (pl_plan_digest p) v (er_outcome r))
           then Inl INVALID_EFFECT_RECEIPT
      else Inr r)"

definition resolve_agent_effect_receipts ::
  "unicode_db \<Rightarrow> turn_identity \<Rightarrow> execution_plan \<Rightarrow> effect_intent \<Rightarrow> effect_receipt list
   \<Rightarrow> (execution_error, effect_receipt option) result" where
  "resolve_agent_effect_receipts U t p v rs =
     ebind (planned_effect U t p v) (\<lambda>(i, q, w).
       if length rs > MAX_EFFECT_RECEIPTS_PER_RESOLUTION then Inl RECEIPT_COLLECTION_LIMIT_EXCEEDED
       else if length rs > 1 then Inl EFFECT_RECEIPT_CONFLICT
       else case rs of [] \<Rightarrow> Inr None | r # _ \<Rightarrow> ebind (validate_effect_receipt i q w r) (\<lambda>x. Inr (Some x)))"

definition reconcile_agent_effect_receipt_replay ::
  "unicode_db \<Rightarrow> turn_identity \<Rightarrow> execution_plan \<Rightarrow> effect_intent \<Rightarrow> effect_receipt \<Rightarrow> effect_receipt
   \<Rightarrow> (execution_error, effect_receipt) result" where
  "reconcile_agent_effect_receipt_replay U t p v existing replay =
     ebind (planned_effect U t p v) (\<lambda>(i, q, w).
     ebind (validate_effect_receipt i q w existing) (\<lambda>first.
     ebind (validate_effect_receipt i q w replay) (\<lambda>second.
       if er_outcome first \<noteq> er_outcome second \<or> \<not> safe_equal (er_receipt_id second) (er_receipt_id first)
          \<or> \<not> safe_equal (er_receipt_digest second) (er_receipt_digest first)
       then Inl EFFECT_RECEIPT_CONFLICT else Inr first)))"

section \<open>The outbox of replies\<close>

definition reply_intent_from_plan :: "execution_plan \<Rightarrow> (execution_error, effect_intent) result" where
  "reply_intent_from_plan p =
     (let replies = filter (\<lambda>v. ei_kind v = OUTBOUND_REPLY) (pl_effect_intents p) in
      if length replies \<noteq> 1 \<or> ei_ordinal (hd replies) \<noteq> 0 then Inl REPLY_EFFECT_REQUIRED else Inr (hd replies))"

definition derive_reply_outbox_entry_digest :: "pystr \<Rightarrow> effect_intent \<Rightarrow> outbox_state \<Rightarrow> pystr" where
  "derive_reply_outbox_entry_digest plan intent s =
     sha256_id outbox_entry_prefix outbox_entry_domain (u ''v1'')
       [ascii_bytes plan, ascii_bytes (ei_turn_id intent), ascii_bytes (ei_effect_id intent),
        ascii_bytes (kind_value (ei_kind intent)), ascii_bytes (ei_payload_digest intent), ascii_bytes (outbox_state_value s)]"

record reply_outbox_entry =
  oe_plan_digest :: pystr
  oe_turn_id :: pystr
  oe_effect_id :: pystr
  oe_kind :: effect_kind
  oe_payload_digest :: pystr
  oe_state :: outbox_state
  oe_entry_digest :: pystr

definition mint_reply_outbox_entry :: "pystr \<Rightarrow> effect_intent \<Rightarrow> outbox_state \<Rightarrow> reply_outbox_entry" where
  "mint_reply_outbox_entry plan intent s =
     \<lparr>oe_plan_digest = plan, oe_turn_id = ei_turn_id intent, oe_effect_id = ei_effect_id intent, oe_kind = ei_kind intent,
      oe_payload_digest = ei_payload_digest intent, oe_state = s,
      oe_entry_digest = derive_reply_outbox_entry_digest plan intent s\<rparr>"

definition build_agent_reply_outbox_entry ::
  "unicode_db \<Rightarrow> turn_identity \<Rightarrow> execution_plan \<Rightarrow> (execution_error, reply_outbox_entry) result" where
  "build_agent_reply_outbox_entry U t p =
     ebind (require_expected_identity U t) (\<lambda>i.
     ebind (validate_agent_turn_execution_plan U i p) (\<lambda>q.
     ebind (reply_intent_from_plan q) (\<lambda>reply.
       Inr (mint_reply_outbox_entry (pl_plan_digest q) reply PENDING))))"

definition validate_reply_outbox_entry ::
  "turn_identity \<Rightarrow> execution_plan \<Rightarrow> reply_outbox_entry \<Rightarrow> (execution_error, reply_outbox_entry) result" where
  "validate_reply_outbox_entry t p e =
     ebind (reply_intent_from_plan p) (\<lambda>reply.
       if \<not> safe_equal (oe_plan_digest e) (pl_plan_digest p) \<or> \<not> safe_equal (oe_turn_id e) (ti_turn_id t)
          \<or> \<not> safe_equal (oe_effect_id e) (ei_effect_id reply) \<or> oe_kind e \<noteq> OUTBOUND_REPLY
          \<or> \<not> safe_equal (oe_payload_digest e) (ei_payload_digest reply)
          \<or> \<not> prefixed_hex64 outbox_entry_prefix (oe_entry_digest e)
          \<or> \<not> safe_equal (oe_entry_digest e) (derive_reply_outbox_entry_digest (pl_plan_digest p) reply (oe_state e))
       then Inl INVALID_REPLY_OUTBOX_ENTRY else Inr e)"

fun outbox_transitions :: "outbox_state \<times> outbox_event \<Rightarrow> outbox_state option" where
  "outbox_transitions (PENDING, TRANSPORT_STARTED) = Some IN_TRANSPORT"
| "outbox_transitions (IN_TRANSPORT, TRANSPORT_ACCEPTED) = Some ACCEPTED"
| "outbox_transitions (IN_TRANSPORT, TRANSPORT_OUTCOME_AMBIGUOUS) = Some AMBIGUOUS"
| "outbox_transitions (IN_TRANSPORT, PRE_SEND_FAILURE_PROVEN) = Some PENDING"
| "outbox_transitions _ = None"

definition transition_agent_reply_outbox ::
  "unicode_db \<Rightarrow> turn_identity \<Rightarrow> execution_plan \<Rightarrow> reply_outbox_entry \<Rightarrow> outbox_event
   \<Rightarrow> (execution_error, reply_outbox_entry) result" where
  "transition_agent_reply_outbox U t p e event =
     ebind (require_expected_identity U t) (\<lambda>i.
     ebind (validate_agent_turn_execution_plan U i p) (\<lambda>q.
     ebind (validate_reply_outbox_entry i q e) (\<lambda>current.
       if oe_state current = AMBIGUOUS then Inl AMBIGUOUS_REPLY_IS_TERMINAL
       else if oe_state current = ACCEPTED then Inl ACCEPTED_REPLY_IS_TERMINAL
       else case outbox_transitions (oe_state current, event) of
              None \<Rightarrow> Inl INVALID_REPLY_OUTBOX_TRANSITION
            | Some s \<Rightarrow> ebind (reply_intent_from_plan q) (\<lambda>reply.
                Inr (mint_reply_outbox_entry (pl_plan_digest q) reply s)))))"

section \<open>Compatibility keys\<close>

definition derive_v2_compatibility_key_from_effect_id :: "pystr \<Rightarrow> pystr" where
  "derive_v2_compatibility_key_from_effect_id effect =
     sha256_id (compatibility_key_prefix V2) compatibility_key_domain (version_value V2) [ascii_bytes effect]"

definition derive_v2_compatibility_key :: "effect_intent \<Rightarrow> pystr" where
  "derive_v2_compatibility_key v = derive_v2_compatibility_key_from_effect_id (ei_effect_id v)"

record reply_reservation =
  rr_version :: key_version
  rr_source :: key_source
  rr_key :: pystr
  rr_turn_id :: pystr
  rr_effect_id :: pystr
  rr_kind :: effect_kind

text \<open>The error of the identifier's derivation is not translated; after the identity check it does not occur.\<close>

definition build_agent_outbound_reply_reservation_v2 ::
  "unicode_db \<Rightarrow> turn_identity \<Rightarrow> (execution_error + turn_error, reply_reservation) result" where
  "build_agent_outbound_reply_reservation_v2 U t =
     ebind (ecatch (require_expected_identity U t) (\<lambda>e. Inl (Inl e))) (\<lambda>i.
     ebind (ecatch (derive_agent_outbound_reply_effect_id U i) (\<lambda>e. Inl (Inr e))) (\<lambda>effect.
       Inr \<lparr>rr_version = V2, rr_source = CURRENT_DERIVED, rr_key = derive_v2_compatibility_key_from_effect_id effect,
            rr_turn_id = ti_turn_id i, rr_effect_id = effect, rr_kind = OUTBOUND_REPLY\<rparr>))"

record compatibility_key =
  ck_version :: key_version
  ck_source :: key_source
  ck_key :: pystr
  ck_plan_digest :: pystr
  ck_turn_id :: pystr
  ck_effect_id :: pystr
  ck_kind :: effect_kind
  ck_payload_digest :: pystr

definition mint_compatibility_key ::
  "key_version \<Rightarrow> key_source \<Rightarrow> pystr \<Rightarrow> execution_plan \<Rightarrow> effect_intent \<Rightarrow> compatibility_key" where
  "mint_compatibility_key version source key p v =
     \<lparr>ck_version = version, ck_source = source, ck_key = key, ck_plan_digest = pl_plan_digest p, ck_turn_id = ei_turn_id v,
      ck_effect_id = ei_effect_id v, ck_kind = ei_kind v, ck_payload_digest = ei_payload_digest v\<rparr>"

definition build_agent_effect_compatibility_key ::
  "unicode_db \<Rightarrow> turn_identity \<Rightarrow> execution_plan \<Rightarrow> effect_intent \<Rightarrow> key_version \<Rightarrow> (execution_error, compatibility_key) result" where
  "build_agent_effect_compatibility_key U t p v version =
     ebind (planned_effect U t p v) (\<lambda>(i, q, w).
       if ei_kind w \<noteq> OUTBOUND_REPLY then Inl INVALID_COMPATIBILITY_KEY
       else if version \<noteq> V2 then Inl INVALID_COMPATIBILITY_KEY_VERSION
       else Inr (mint_compatibility_key version CURRENT_DERIVED (derive_v2_compatibility_key w) q w))"

definition bind_agent_legacy_reply_key_evidence ::
  "unicode_db \<Rightarrow> turn_identity \<Rightarrow> execution_plan \<Rightarrow> effect_intent \<Rightarrow> key_version \<Rightarrow> pystr
   \<Rightarrow> (execution_error, compatibility_key) result" where
  "bind_agent_legacy_reply_key_evidence U t p v version observed =
     ebind (planned_effect U t p v) (\<lambda>(i, q, w).
       if ei_kind w \<noteq> OUTBOUND_REPLY then Inl INVALID_COMPATIBILITY_KEY
       else if version \<noteq> V1 \<and> version \<noteq> V0 then Inl INVALID_COMPATIBILITY_KEY_VERSION
       else if \<not> is_legacy_reply_key observed version then Inl INVALID_COMPATIBILITY_KEY
       else Inr (mint_compatibility_key version LEGACY_EXTERNAL_EVIDENCE observed q w))"

definition validate_compatibility_key ::
  "execution_plan \<Rightarrow> effect_intent \<Rightarrow> compatibility_key \<Rightarrow> (execution_error, compatibility_key) result" where
  "validate_compatibility_key p v c =
     (if ei_kind v \<noteq> OUTBOUND_REPLY \<or> \<not> safe_equal (ck_plan_digest c) (pl_plan_digest p)
         \<or> \<not> safe_equal (ck_turn_id c) (ei_turn_id v) \<or> \<not> safe_equal (ck_effect_id c) (ei_effect_id v)
         \<or> ck_kind c \<noteq> ei_kind v \<or> \<not> safe_equal (ck_payload_digest c) (ei_payload_digest v)
      then Inl COMPATIBILITY_KEY_CONFLICT
      else if ck_version c = V2 then
        (if ck_source c \<noteq> CURRENT_DERIVED then Inl INVALID_COMPATIBILITY_KEY
         else if \<not> prefixed_hex64 (compatibility_key_prefix (ck_version c)) (ck_key c)
                 \<or> \<not> safe_equal (ck_key c) (derive_v2_compatibility_key v) then Inl INVALID_COMPATIBILITY_KEY
         else Inr c)
      else if ck_source c \<noteq> LEGACY_EXTERNAL_EVIDENCE \<or> \<not> is_legacy_reply_key (ck_key c) (ck_version c)
           then Inl INVALID_COMPATIBILITY_KEY
      else Inr c)"

record key_resolution =
  kr_selected_version :: key_version
  kr_selected_key :: pystr
  kr_source :: key_source

definition resolve_agent_effect_compatibility_keys ::
  "unicode_db \<Rightarrow> turn_identity \<Rightarrow> execution_plan \<Rightarrow> effect_intent \<Rightarrow> compatibility_key list
   \<Rightarrow> (execution_error, key_resolution) result" where
  "resolve_agent_effect_compatibility_keys U t p v cs =
     ebind (planned_effect U t p v) (\<lambda>(i, q, w).
       if length cs > MAX_COMPATIBILITY_KEYS_PER_RESOLUTION then Inl COMPATIBILITY_KEY_LIMIT_EXCEEDED
       else if cs = [] then Inl COMPATIBILITY_KEY_INCONCLUSIVE
       else if length cs \<noteq> 1 then Inl COMPATIBILITY_KEY_INCONCLUSIVE
       else ebind (validate_compatibility_key q w (hd cs)) (\<lambda>selected.
         if ck_version selected \<noteq> V2 then Inl COMPATIBILITY_KEY_INCONCLUSIVE
         else Inr \<lparr>kr_selected_version = ck_version selected, kr_selected_key = ck_key selected, kr_source = ck_source selected\<rparr>))"

end
