(* ===== verification/TurnPlans.thy ===== *)
theory TurnPlans
  imports TurnExecution
begin

text \<open>
  What the plans, receipts, outbox entries and keys of \<open>TurnExecution\<close> guarantee.  Everything rests on two
  characterisations: a plan is built exactly for a valid collection that respects the singleton kinds, and
  a plan is accepted exactly when it is the one the module builds from the plan's own intents.
\<close>

section \<open>Identities and intents\<close>

lemma expected_identity_result [result_simps]: "require_expected_identity U t = Inr i \<longleftrightarrow> i = t \<and> identity_ok U t"
  by (auto simp: require_expected_identity_def result_simps validate_intents_result)

lemma expected_intent_result [result_simps]:
  "require_effect_intent_for_identity U t v = Inr w \<longleftrightarrow>
   w = v \<and> identity_ok U t \<and> intent_ok v \<and> ei_turn_id v = ti_turn_id t"
  by (auto simp: require_effect_intent_for_identity_def result_simps validate_intents_result MAX_EFFECT_INTENTS_PER_TURN_def)

lemma safe_equal_ascii: "\<forall>c \<in> set e. c < 128 \<Longrightarrow> safe_equal v e \<longleftrightarrow> v = e"
  by (auto simp: safe_equal_def list_all_iff)

lemma plan_prefixes_ascii:
  "\<forall>c \<in> set payload_digest_prefix. c < 128" "\<forall>c \<in> set plan_prefix. c < 128" "\<forall>c \<in> set serial_scope_prefix. c < 128"
  "\<forall>c \<in> set receipt_id_prefix. c < 128" "\<forall>c \<in> set receipt_digest_prefix. c < 128" "\<forall>c \<in> set outbox_entry_prefix. c < 128"
  "\<forall>c \<in> set (compatibility_key_prefix V2). c < 128"
  by (simp_all add: payload_digest_prefix_def plan_prefix_def serial_scope_prefix_def receipt_id_prefix_def
      receipt_digest_prefix_def outbox_entry_prefix_def compatibility_key_prefix_def u_def)

lemma sha256_id_shape [simp]: "prefixed_hex64 p (sha256_id p l v ps)"
  by (simp add: sha256_id_def)

lemmas sha256_id_ascii = prefixed_hex64_ascii [OF _ sha256_id_shape]

lemma derived_shape [simp]:
  "prefixed_hex64 serial_scope_prefix (derive_serial_scope_id t)"
  "prefixed_hex64 plan_prefix (derive_plan_digest turn scope vs)"
  "prefixed_hex64 receipt_id_prefix (derive_receipt_id e)"
  "prefixed_hex64 receipt_digest_prefix (derive_receipt_digest r pl v oc)"
  "prefixed_hex64 outbox_entry_prefix (derive_reply_outbox_entry_digest pl v s)"
  "prefixed_hex64 (compatibility_key_prefix V2) (derive_v2_compatibility_key_from_effect_id e)"
  by (simp_all add: derive_serial_scope_id_def derive_plan_digest_def derive_receipt_id_def derive_receipt_digest_def
      derive_reply_outbox_entry_digest_def derive_v2_compatibility_key_from_effect_id_def)

lemmas derived_ascii =
  prefixed_hex64_ascii [OF plan_prefixes_ascii(3) derived_shape(1)] prefixed_hex64_ascii [OF plan_prefixes_ascii(2) derived_shape(2)]
  prefixed_hex64_ascii [OF plan_prefixes_ascii(4) derived_shape(3)] prefixed_hex64_ascii [OF plan_prefixes_ascii(5) derived_shape(4)]
  prefixed_hex64_ascii [OF plan_prefixes_ascii(6) derived_shape(5)] prefixed_hex64_ascii [OF plan_prefixes_ascii(7) derived_shape(6)]

lemma intent_ascii:
  assumes "intent_ok v"
  shows "\<forall>c \<in> set (ei_turn_id v). c < 128" "\<forall>c \<in> set (ei_effect_id v). c < 128" "\<forall>c \<in> set (ei_payload_digest v). c < 128"
  using assms prefixed_hex64_ascii [OF prefix_ascii(1) derived_shapes(2)] prefixed_hex64_ascii [OF prefix_ascii(2)]
    prefixed_hex64_ascii [OF plan_prefixes_ascii(1)]
  unfolding intent_ok_def by metis+

lemma identity_ascii: "identity_ok U t \<Longrightarrow> \<forall>c \<in> set (ti_turn_id t). c < 128"
  by (rule prefixed_hex64_ascii [OF prefix_ascii(2) identity_turn_id])

section \<open>Which collections have a plan\<close>

definition singletons_ok :: "effect_intent list \<Rightarrow> bool" where
  "singletons_ok vs \<longleftrightarrow> list_all (\<lambda>v. ei_kind v = TOOL_CALL \<or> ei_kind v = AUDIT_EVENT \<or> ei_ordinal v = 0) vs"

definition intents_ok :: "turn_identity \<Rightarrow> effect_intent list \<Rightarrow> bool" where
  "intents_ok t vs \<longleftrightarrow> list_all (\<lambda>v. intent_ok v \<and> ei_turn_id v = ti_turn_id t) vs
     \<and> distinct (map occurrence vs) \<and> distinct (map ei_effect_id vs)"

lemma singleton_kinds: "k \<in> set SINGLETON_EFFECT_KINDS \<longleftrightarrow> k \<noteq> TOOL_CALL \<and> k \<noteq> AUDIT_EVENT"
  by (cases k) (simp_all add: SINGLETON_EFFECT_KINDS_def)

lemma occurrence_kind: "intent_ok v \<Longrightarrow> intent_ok w \<Longrightarrow> ei_kind v = ei_kind w \<Longrightarrow> ei_ordinal v = ei_ordinal w \<Longrightarrow> occurrence v = occurrence w"
  by (simp add: occurrence_def intent_ok_def)

lemma count_singletons_result:
  assumes "list_all intent_ok vs" "distinct (map occurrence vs)"
    and "\<And>v. v \<in> set vs \<Longrightarrow> ei_ordinal v = 0 \<Longrightarrow> counts (ei_kind v) = 0"
  shows "count_singletons counts n vs = Inr m \<longleftrightarrow>
    singletons_ok vs \<and> m = n + length (filter (\<lambda>v. ei_kind v = OUTBOUND_REPLY) vs)"
  using assms
proof (induction vs arbitrary: counts n)
  case Nil
  then show ?case by (auto simp: singletons_ok_def)
next
  case (Cons v vs)
  let ?k = "ei_kind v"
  have other: "ei_kind w \<noteq> ?k" if "w \<in> set vs" "ei_ordinal w = 0" "ei_ordinal v = 0" for w
    using occurrence_kind [of v w] that Cons.prems(1,2) by (auto simp: list_all_iff image_iff)
  have rest: "list_all intent_ok vs" "distinct (map occurrence vs)"
    and zero: "\<And>w. w \<in> set vs \<Longrightarrow> ei_ordinal w = 0 \<Longrightarrow> counts (ei_kind w) = 0" "ei_ordinal v = 0 \<Longrightarrow> counts ?k = 0"
    using Cons.prems by auto
  show ?case
  proof (cases "?k \<in> set SINGLETON_EFFECT_KINDS")
    case True
    have ih: "ei_ordinal v = 0 \<Longrightarrow> count_singletons (counts(?k := counts ?k + 1)) n' vs = Inr m \<longleftrightarrow>
        singletons_ok vs \<and> m = n' + length (filter (\<lambda>v. ei_kind v = OUTBOUND_REPLY) vs)" for n'
      using zero(1) other by (intro Cons.IH rest) auto
    show ?thesis using True ih zero(2) by (auto simp: Let_def singletons_ok_def singleton_kinds)
  next
    case False
    have ih: "count_singletons counts n' vs = Inr m \<longleftrightarrow>
        singletons_ok vs \<and> m = n' + length (filter (\<lambda>v. ei_kind v = OUTBOUND_REPLY) vs)" for n'
      using zero(1) by (intro Cons.IH rest) auto
    show ?thesis using False ih by (auto simp: Let_def singletons_ok_def singleton_kinds)
  qed
qed

lemma at_most_one: "distinct xs \<Longrightarrow> (\<And>x y. x \<in> set xs \<Longrightarrow> y \<in> set xs \<Longrightarrow> x = y) \<Longrightarrow> length xs \<le> 1"
  by (metis card_le_Suc0_iff_eq distinct_card finite_set One_nat_def)

lemma one_reply:
  assumes "intents_ok t vs" "singletons_ok vs"
  shows "length (filter (\<lambda>v. ei_kind v = OUTBOUND_REPLY) vs) \<le> 1"
proof (rule at_most_one)
  show "distinct (filter (\<lambda>v. ei_kind v = OUTBOUND_REPLY) vs)"
    using assms(1) by (auto simp: intents_ok_def distinct_map)
  fix x y assume "x \<in> set (filter (\<lambda>v. ei_kind v = OUTBOUND_REPLY) vs)" "y \<in> set (filter (\<lambda>v. ei_kind v = OUTBOUND_REPLY) vs)"
  then have xy: "x \<in> set vs" "y \<in> set vs" "ei_kind x = ei_kind y" "ei_kind x = OUTBOUND_REPLY" "ei_kind y = OUTBOUND_REPLY" by auto
  then have "ei_ordinal x = 0" "ei_ordinal y = 0" using assms(2) by (auto simp: singletons_ok_def list_all_iff)
  then have "occurrence x = occurrence y" using occurrence_kind [of x y] xy assms(1) by (auto simp: intents_ok_def list_all_iff)
  then show "x = y" using xy assms(1) by (auto simp: intents_ok_def distinct_map inj_on_def)
qed

lemma plan_semantics_result:
  assumes "intents_ok t vs"
  shows "validate_plan_semantics vs = Inr x \<longleftrightarrow> singletons_ok vs"
proof -
  have "list_all intent_ok vs" "distinct (map occurrence vs)" using assms by (auto simp: intents_ok_def list_all_iff)
  note r = count_singletons_result [OF this, of "\<lambda>_. 0"]
  show ?thesis using one_reply [OF assms] by (auto simp: validate_plan_semantics_def result_simps r)
qed

definition plan_of :: "turn_identity \<Rightarrow> effect_intent list \<Rightarrow> execution_plan" where
  "plan_of t vs = \<lparr>pl_turn_id = ti_turn_id t, pl_serial_scope = \<lparr>scope_id = derive_serial_scope_id t\<rparr>, pl_effect_intents = vs,
     pl_plan_digest = derive_plan_digest (ti_turn_id t) (derive_serial_scope_id t) vs\<rparr>"

lemma distinct_map_mset: "mset vs = mset ws \<Longrightarrow> distinct (map f vs) \<longleftrightarrow> distinct (map f ws)"
  by (rule mset_eq_imp_distinct_iff) simp

lemma intents_ok_mset: "mset vs = mset ws \<Longrightarrow> intents_ok t vs \<longleftrightarrow> intents_ok t ws"
  unfolding intents_ok_def list_all_iff by (simp only: distinct_map_mset [of vs ws] mset_eq_setD [of vs ws])

lemma singletons_ok_mset: "mset vs = mset ws \<Longrightarrow> singletons_ok vs \<longleftrightarrow> singletons_ok ws"
  unfolding singletons_ok_def list_all_iff by (simp only: mset_eq_setD [of vs ws])

lemma build_plan_result:
  "build_agent_turn_execution_plan U t vs = Inr p \<longleftrightarrow>
   identity_ok U t \<and> length vs \<le> MAX_EFFECT_INTENTS_PER_TURN \<and> intents_ok t vs \<and> singletons_ok vs
   \<and> p = plan_of t (sort_key canonical_effect_order vs)"
proof -
  have m: "mset (sort_key canonical_effect_order vs) = mset vs" by simp
  have s: "validate_plan_semantics (sort_key canonical_effect_order vs) = Inr x \<longleftrightarrow> singletons_ok vs" if "intents_ok t vs" for x
    using plan_semantics_result [of t "sort_key canonical_effect_order vs"] that intents_ok_mset [OF m] singletons_ok_mset [OF m]
    by blast
  show ?thesis
    by (auto simp: build_agent_turn_execution_plan_def result_simps validate_intents_result not_less Let_def
        build_agent_conversation_serial_scope_def plan_of_def s intents_ok_def [symmetric])
qed

lemma plan_of_eq:
  "p = plan_of t vs \<longleftrightarrow>
   pl_turn_id p = ti_turn_id t \<and> scope_id (pl_serial_scope p) = derive_serial_scope_id t \<and> pl_effect_intents p = vs
   \<and> pl_plan_digest p = derive_plan_digest (ti_turn_id t) (derive_serial_scope_id t) vs"
proof (cases p)
  case (fields turn scope ws digest)
  then show ?thesis by (cases scope) (auto simp: plan_of_def)
qed

lemma plan_of_simps [simp]:
  "pl_turn_id (plan_of t vs) = ti_turn_id t" "scope_id (pl_serial_scope (plan_of t vs)) = derive_serial_scope_id t"
  "pl_effect_intents (plan_of t vs) = vs"
  "pl_plan_digest (plan_of t vs) = derive_plan_digest (ti_turn_id t) (derive_serial_scope_id t) vs"
  by (simp_all add: plan_of_def)

lemma validate_plan_result:
  "validate_agent_turn_execution_plan U t p = Inr q \<longleftrightarrow>
   q = p \<and> build_agent_turn_execution_plan U t (pl_effect_intents p) = Inr p"
proof -
  let ?vs = "sort_key canonical_effect_order (pl_effect_intents p)"
  have eq: "safe_equal x (ti_turn_id t) \<longleftrightarrow> x = ti_turn_id t" if "identity_ok U t" for x
    by (rule safe_equal_ascii [OF identity_ascii [OF that]])
  have "validate_agent_turn_execution_plan U t p = Inr q \<longleftrightarrow>
      q = p \<and> identity_ok U t \<and> length (pl_effect_intents p) \<le> MAX_EFFECT_INTENTS_PER_TURN
      \<and> intents_ok t (pl_effect_intents p) \<and> singletons_ok (pl_effect_intents p)
      \<and> pl_turn_id p = ti_turn_id t \<and> scope_id (pl_serial_scope p) = derive_serial_scope_id t \<and> pl_effect_intents p = ?vs
      \<and> pl_plan_digest p = derive_plan_digest (ti_turn_id t) (derive_serial_scope_id t) ?vs"
    by (auto simp: validate_agent_turn_execution_plan_def result_simps build_plan_result eq require_serial_scope_def
        safe_equal_ascii [OF derived_ascii(1)] safe_equal_ascii [OF derived_ascii(2)])
  then show ?thesis by (auto simp: build_plan_result plan_of_eq)
qed

section \<open>The effects of an accepted plan\<close>

definition planned :: "unicode_db \<Rightarrow> turn_identity \<Rightarrow> execution_plan \<Rightarrow> bool" where
  "planned U t p \<longleftrightarrow> build_agent_turn_execution_plan U t (pl_effect_intents p) = Inr p"

lemma plannedD:
  assumes "planned U t p"
  shows "identity_ok U t" "intents_ok t (pl_effect_intents p)" "singletons_ok (pl_effect_intents p)"
    "sorted (map canonical_effect_order (pl_effect_intents p))" "p = plan_of t (pl_effect_intents p)"
    "length (pl_effect_intents p) \<le> MAX_EFFECT_INTENTS_PER_TURN"
proof -
  have p: "p = plan_of t (sort_key canonical_effect_order (pl_effect_intents p))"
    and r: "identity_ok U t" "intents_ok t (pl_effect_intents p)" "singletons_ok (pl_effect_intents p)"
      "length (pl_effect_intents p) \<le> MAX_EFFECT_INTENTS_PER_TURN"
    using assms by (simp_all add: planned_def build_plan_result)
  then have "pl_effect_intents p = sort_key canonical_effect_order (pl_effect_intents p)" by (metis plan_of_simps(3))
  with p r show "identity_ok U t" "intents_ok t (pl_effect_intents p)" "singletons_ok (pl_effect_intents p)"
    "sorted (map canonical_effect_order (pl_effect_intents p))" "p = plan_of t (pl_effect_intents p)"
    "length (pl_effect_intents p) \<le> MAX_EFFECT_INTENTS_PER_TURN"
    by (metis sorted_sort_key)+
qed

lemma planned_intent:
  assumes "planned U t p" "v \<in> set (pl_effect_intents p)"
  shows "intent_ok v" "ei_turn_id v = ti_turn_id t"
  using plannedD(2) [OF assms(1)] assms(2) by (auto simp: intents_ok_def list_all_iff)

lemma find_planned:
  assumes "distinct (map ei_effect_id vs)"
  shows "find (\<lambda>x. ei_effect_id x = ei_effect_id v) vs = Some v \<longleftrightarrow> v \<in> set vs"
  using assms
proof (induction vs)
  case (Cons x vs)
  then show ?case by (auto simp: image_iff)
qed simp

lemma require_plan_effect_result:
  assumes "planned U t p"
  shows "require_plan_effect U t p v = Inr w \<longleftrightarrow> w = v \<and> v \<in> set (pl_effect_intents p)"
proof -
  have d: "distinct (map ei_effect_id (pl_effect_intents p))" using plannedD(2) [OF assms] by (simp add: intents_ok_def)
  have "require_plan_effect U t p v = Inr w \<longleftrightarrow>
      identity_ok U t \<and> intent_ok v \<and> ei_turn_id v = ti_turn_id t \<and> w = v
      \<and> find (\<lambda>x. ei_effect_id x = ei_effect_id v) (pl_effect_intents p) = Some v"
    by (auto simp: require_plan_effect_def result_simps split: option.splits)
  then show ?thesis using find_planned [OF d, of v] planned_intent [OF assms] plannedD(1) [OF assms] by auto
qed

lemma planned_effect_result [result_simps]:
  "planned_effect U t p v = Inr x \<longleftrightarrow> x = (t, p, v) \<and> planned U t p \<and> v \<in> set (pl_effect_intents p)"
  by (auto simp: planned_effect_def result_simps validate_plan_result require_plan_effect_result planned_def [symmetric]
      dest: plannedD(1))

lemma planned_ascii:
  assumes "planned U t p"
  shows "\<forall>c \<in> set (ti_turn_id t). c < 128" "\<forall>c \<in> set (pl_plan_digest p). c < 128"
proof -
  show "\<forall>c \<in> set (ti_turn_id t). c < 128" by (rule identity_ascii [OF plannedD(1) [OF assms]])
  have "pl_plan_digest p = derive_plan_digest (ti_turn_id t) (derive_serial_scope_id t) (pl_effect_intents p)"
    using plannedD(5) [OF assms] by (metis plan_of_simps(4))
  then show "\<forall>c \<in> set (pl_plan_digest p). c < 128" using derived_ascii(2) by metis
qed

section \<open>Receipts\<close>

definition receipt_of :: "execution_plan \<Rightarrow> effect_intent \<Rightarrow> receipt_outcome \<Rightarrow> effect_receipt" where
  "receipt_of p v oc = mint_effect_receipt (pl_plan_digest p) v oc (derive_receipt_id (ei_effect_id v))
     (derive_receipt_digest (derive_receipt_id (ei_effect_id v)) (pl_plan_digest p) v oc)"

lemma build_receipt_result:
  "build_agent_effect_receipt U t p v oc = Inr r \<longleftrightarrow>
   planned U t p \<and> v \<in> set (pl_effect_intents p) \<and> r = receipt_of p v oc"
  by (auto simp: build_agent_effect_receipt_def result_simps receipt_of_def Let_def)

lemma receipt_of_eq:
  "r = receipt_of p v (er_outcome r) \<longleftrightarrow>
   er_plan_digest r = pl_plan_digest p \<and> er_turn_id r = ei_turn_id v \<and> er_effect_id r = ei_effect_id v \<and> er_kind r = ei_kind v
   \<and> er_payload_digest r = ei_payload_digest v \<and> er_receipt_id r = derive_receipt_id (ei_effect_id v)
   \<and> er_receipt_digest r = derive_receipt_digest (derive_receipt_id (ei_effect_id v)) (pl_plan_digest p) v (er_outcome r)"
  by (cases r) (auto simp: receipt_of_def mint_effect_receipt_def)

lemma validate_receipt_result:
  assumes "planned U t p" "v \<in> set (pl_effect_intents p)"
  shows "validate_effect_receipt t p v r = Inr s \<longleftrightarrow> s = r \<and> r = receipt_of p v (er_outcome r)"
proof -
  note v = planned_intent [OF assms]
  note eqs = safe_equal_ascii [OF derived_ascii(3)] safe_equal_ascii [OF derived_ascii(4)]
    safe_equal_ascii [OF planned_ascii(1) [OF assms(1)]] safe_equal_ascii [OF planned_ascii(2) [OF assms(1)]]
    safe_equal_ascii [OF intent_ascii(2) [OF v(1)]] safe_equal_ascii [OF intent_ascii(3) [OF v(1)]]
  show ?thesis
    unfolding receipt_of_eq by (auto simp: validate_effect_receipt_def result_simps eqs v(2) Let_def)
qed

section \<open>The outbox\<close>

fun outbox_run ::
  "unicode_db \<Rightarrow> turn_identity \<Rightarrow> execution_plan \<Rightarrow> reply_outbox_entry \<Rightarrow> outbox_event list
   \<Rightarrow> (execution_error, reply_outbox_entry) result" where
  "outbox_run U t p e [] = Inr e"
| "outbox_run U t p e (x # xs) = ebind (transition_agent_reply_outbox U t p e x) (\<lambda>e'. outbox_run U t p e' xs)"

fun outbox_states :: "outbox_state \<Rightarrow> outbox_event list \<Rightarrow> outbox_state option" where
  "outbox_states s [] = Some s"
| "outbox_states s (x # xs) = (case outbox_transitions (s, x) of None \<Rightarrow> None | Some s' \<Rightarrow> outbox_states s' xs)"

lemma outbox_closed: "outbox_transitions (ACCEPTED, x) = None" "outbox_transitions (AMBIGUOUS, x) = None"
  by simp_all

lemma closed_states: "s = ACCEPTED \<or> s = AMBIGUOUS \<Longrightarrow> outbox_states s xs = Some s' \<longleftrightarrow> xs = [] \<and> s' = s"
  by (cases xs) auto

definition failed_sends :: "nat \<Rightarrow> outbox_event list" where
  "failed_sends n = concat (replicate n [TRANSPORT_STARTED, PRE_SEND_FAILURE_PROVEN])"

definition last_send :: "outbox_event list \<Rightarrow> outbox_state \<Rightarrow> bool" where
  "last_send xs s \<longleftrightarrow> (xs, s) \<in> {([], PENDING), ([TRANSPORT_STARTED], IN_TRANSPORT),
     ([TRANSPORT_STARTED, TRANSPORT_ACCEPTED], ACCEPTED), ([TRANSPORT_STARTED, TRANSPORT_OUTCOME_AMBIGUOUS], AMBIGUOUS)}"

lemma failed_sends_simps [simp]:
  "failed_sends 0 = []" "failed_sends (Suc n) = TRANSPORT_STARTED # PRE_SEND_FAILURE_PROVEN # failed_sends n"
  by (simp_all add: failed_sends_def)

lemma sent_after_failures:
  "(\<exists>n ys. xs = failed_sends n @ ys \<and> last_send ys s) \<longleftrightarrow>
   last_send xs s \<or> (\<exists>zs. xs = TRANSPORT_STARTED # PRE_SEND_FAILURE_PROVEN # zs
     \<and> (\<exists>n ys. zs = failed_sends n @ ys \<and> last_send ys s))" (is "?l \<longleftrightarrow> ?r")
proof
  assume ?l
  then obtain n ys where "xs = failed_sends n @ ys" "last_send ys s" by blast
  then show ?r by (cases n) auto
next
  assume ?r
  then show ?l
  proof
    assume "last_send xs s"
    then have "xs = failed_sends 0 @ xs \<and> last_send xs s" by simp
    then show ?l by blast
  next
    assume "\<exists>zs. xs = TRANSPORT_STARTED # PRE_SEND_FAILURE_PROVEN # zs \<and> (\<exists>n ys. zs = failed_sends n @ ys \<and> last_send ys s)"
    then obtain n ys where "xs = failed_sends (Suc n) @ ys" "last_send ys s" by auto
    then show ?l by blast
  qed
qed

lemma outbox_language:
  "outbox_states PENDING xs = Some s \<longleftrightarrow> (\<exists>n ys. xs = failed_sends n @ ys \<and> last_send ys s)"
proof (induction xs rule: induct_list012)
  case 1
  show ?case by (subst sent_after_failures) (auto simp: last_send_def)
next
  case (2 x)
  show ?case by (subst sent_after_failures, cases x) (auto simp: last_send_def)
next
  case (3 x y zs)
  show ?case
  proof (cases "x = TRANSPORT_STARTED")
    case True
    show ?thesis
      by (subst sent_after_failures, cases y) (auto simp: True 3(1) last_send_def closed_states)
  next
    case False
    then show ?thesis by (subst sent_after_failures, cases x) (auto simp: last_send_def)
  qed
qed

lemma reply_from_planD:
  assumes "reply_intent_from_plan p = Inr v"
  shows "v \<in> set (pl_effect_intents p)" "ei_kind v = OUTBOUND_REPLY"
proof -
  let ?r = "filter (\<lambda>v. ei_kind v = OUTBOUND_REPLY) (pl_effect_intents p)"
  have "length ?r = 1" "v = hd ?r" using assms by (auto simp: reply_intent_from_plan_def Let_def split: if_splits)
  then have "v \<in> set ?r" by (cases ?r) auto
  then show "v \<in> set (pl_effect_intents p)" "ei_kind v = OUTBOUND_REPLY" by auto
qed

lemma entry_of_eq:
  "e = mint_reply_outbox_entry pl v (oe_state e) \<longleftrightarrow>
   oe_plan_digest e = pl \<and> oe_turn_id e = ei_turn_id v \<and> oe_effect_id e = ei_effect_id v \<and> oe_kind e = ei_kind v
   \<and> oe_payload_digest e = ei_payload_digest v \<and> oe_entry_digest e = derive_reply_outbox_entry_digest pl v (oe_state e)"
  by (cases e) (auto simp: mint_reply_outbox_entry_def)

lemma validate_entry_result:
  assumes "planned U t p" "reply_intent_from_plan p = Inr v"
  shows "validate_reply_outbox_entry t p e = Inr e' \<longleftrightarrow> e' = e \<and> e = mint_reply_outbox_entry (pl_plan_digest p) v (oe_state e)"
proof -
  note r = reply_from_planD [OF assms(2)]
  note v = planned_intent [OF assms(1) r(1)]
  note eqs = safe_equal_ascii [OF derived_ascii(5)]
    safe_equal_ascii [OF planned_ascii(1) [OF assms(1)]] safe_equal_ascii [OF planned_ascii(2) [OF assms(1)]]
    safe_equal_ascii [OF intent_ascii(2) [OF v(1)]] safe_equal_ascii [OF intent_ascii(3) [OF v(1)]]
  show ?thesis
    unfolding entry_of_eq by (auto simp: validate_reply_outbox_entry_def result_simps assms(2) eqs v(2) r(2))
qed

lemma minted_entry_state [simp]: "oe_state (mint_reply_outbox_entry pl v s) = s"
  by (simp add: mint_reply_outbox_entry_def)

lemma transition_result:
  assumes "planned U t p" "reply_intent_from_plan p = Inr v"
  shows "transition_agent_reply_outbox U t p (mint_reply_outbox_entry (pl_plan_digest p) v s) x = Inr e' \<longleftrightarrow>
    (\<exists>s'. outbox_transitions (s, x) = Some s' \<and> e' = mint_reply_outbox_entry (pl_plan_digest p) v s')"
proof -
  have p: "validate_agent_turn_execution_plan U t p = Inr p" "require_expected_identity U t = Inr t"
    using assms(1) plannedD(1) [OF assms(1)] by (auto simp: validate_plan_result planned_def expected_identity_result)
  have e: "validate_reply_outbox_entry t p (mint_reply_outbox_entry (pl_plan_digest p) v s)
      = Inr (mint_reply_outbox_entry (pl_plan_digest p) v s)" for s
    using validate_entry_result [OF assms] by auto
  show ?thesis
    by (cases s; cases x) (auto simp: transition_agent_reply_outbox_def p e assms(2))
qed

lemma outbox_run_states:
  assumes "planned U t p" "reply_intent_from_plan p = Inr v"
  shows "outbox_run U t p (mint_reply_outbox_entry (pl_plan_digest p) v s) xs = Inr e' \<longleftrightarrow>
    (\<exists>s'. outbox_states s xs = Some s' \<and> e' = mint_reply_outbox_entry (pl_plan_digest p) v s')"
proof (induction xs arbitrary: s)
  case (Cons x xs)
  show ?case by (auto simp: result_simps transition_result [OF assms] Cons split: option.splits)
qed auto

section \<open>Compatibility keys\<close>

definition key_of :: "execution_plan \<Rightarrow> effect_intent \<Rightarrow> compatibility_key" where
  "key_of p v = mint_compatibility_key V2 CURRENT_DERIVED (derive_v2_compatibility_key v) p v"

lemma build_key_result:
  "build_agent_effect_compatibility_key U t p v version = Inr c \<longleftrightarrow>
   planned U t p \<and> v \<in> set (pl_effect_intents p) \<and> ei_kind v = OUTBOUND_REPLY \<and> version = V2 \<and> c = key_of p v"
  by (auto simp: build_agent_effect_compatibility_key_def result_simps key_of_def)

lemma key_of_eq:
  "c = key_of p v \<longleftrightarrow>
   ck_version c = V2 \<and> ck_source c = CURRENT_DERIVED \<and> ck_key c = derive_v2_compatibility_key v
   \<and> ck_plan_digest c = pl_plan_digest p \<and> ck_turn_id c = ei_turn_id v \<and> ck_effect_id c = ei_effect_id v
   \<and> ck_kind c = ei_kind v \<and> ck_payload_digest c = ei_payload_digest v"
  by (cases c) (auto simp: key_of_def mint_compatibility_key_def)

lemma validate_key_result:
  assumes "planned U t p" "v \<in> set (pl_effect_intents p)"
  shows "validate_compatibility_key p v c = Inr d \<and> ck_version d = V2 \<longleftrightarrow>
    d = c \<and> c = key_of p v \<and> ei_kind v = OUTBOUND_REPLY"
proof -
  note v = planned_intent [OF assms]
  note eqs = safe_equal_ascii [OF derived_ascii(6)] safe_equal_ascii [OF planned_ascii(2) [OF assms(1)]]
    safe_equal_ascii [OF intent_ascii(1) [OF v(1)]]
    safe_equal_ascii [OF intent_ascii(2) [OF v(1)]] safe_equal_ascii [OF intent_ascii(3) [OF v(1)]]
  show ?thesis
    unfolding key_of_eq by (auto simp: validate_compatibility_key_def eqs derive_v2_compatibility_key_def split: if_splits)
qed

lemma key_of_simps [simp]:
  "ck_version (key_of p v) = V2" "ck_source (key_of p v) = CURRENT_DERIVED" "ck_key (key_of p v) = derive_v2_compatibility_key v"
  by (simp_all add: key_of_def mint_compatibility_key_def)

lemma resolve_key_result:
  "resolve_agent_effect_compatibility_keys U t p v cs = Inr k \<longleftrightarrow>
   planned U t p \<and> v \<in> set (pl_effect_intents p) \<and> ei_kind v = OUTBOUND_REPLY \<and> cs = [key_of p v]
   \<and> k = \<lparr>kr_selected_version = V2, kr_selected_key = derive_v2_compatibility_key v, kr_source = CURRENT_DERIVED\<rparr>"
proof -
  let ?k = "\<lambda>d. \<lparr>kr_selected_version = ck_version d, kr_selected_key = ck_key d, kr_source = ck_source d\<rparr>"
  have e: "resolve_agent_effect_compatibility_keys U t p v cs = Inr k \<longleftrightarrow>
      planned U t p \<and> v \<in> set (pl_effect_intents p)
      \<and> (\<exists>c d. cs = [c] \<and> (validate_compatibility_key p v c = Inr d \<and> ck_version d = V2) \<and> k = ?k d)"
    by (cases cs) (auto simp: resolve_agent_effect_compatibility_keys_def result_simps
        MAX_COMPATIBILITY_KEYS_PER_RESOLUTION_def)
  show ?thesis
  proof (cases "planned U t p \<and> v \<in> set (pl_effect_intents p)")
    case True
    then have r: "validate_compatibility_key p v c = Inr d \<and> ck_version d = V2 \<longleftrightarrow>
        d = c \<and> c = key_of p v \<and> ei_kind v = OUTBOUND_REPLY" for c d
      using validate_key_result [of U t p v] by blast
    show ?thesis unfolding e r using True by auto
  next
    case False
    then show ?thesis unfolding e by blast
  qed
qed

lemma reservation_result:
  "build_agent_outbound_reply_reservation_v2 U t = Inr r \<longleftrightarrow>
   identity_ok U t \<and> (let effect = derive_effect_id (ti_turn_id t) Slot_OUTBOUND_REPLY 0 in
     r = \<lparr>rr_version = V2, rr_source = CURRENT_DERIVED, rr_key = derive_v2_compatibility_key_from_effect_id effect,
          rr_turn_id = ti_turn_id t, rr_effect_id = effect, rr_kind = OUTBOUND_REPLY\<rparr>)"
  by (auto simp: build_agent_outbound_reply_reservation_v2_def result_simps derive_agent_outbound_reply_effect_id_def
      require_turn_identity_result Let_def ecatch_eq_Inr)

lemma planned_reply_id:
  assumes "planned U t p" "v \<in> set (pl_effect_intents p)" "ei_kind v = OUTBOUND_REPLY"
  shows "ei_effect_id v = derive_effect_id (ti_turn_id t) Slot_OUTBOUND_REPLY 0" "ei_ordinal v = 0"
proof -
  show o: "ei_ordinal v = 0" using plannedD(3) [OF assms(1)] assms(2,3) by (auto simp: singletons_ok_def list_all_iff)
  show "ei_effect_id v = derive_effect_id (ti_turn_id t) Slot_OUTBOUND_REPLY 0"
    using planned_intent [OF assms(1,2)] o assms(3) by (simp add: intent_ok_def)
qed

section \<open>A sample plan\<close>

definition sample_reply :: py where "sample_reply = PyDict [(u ''schema'', PyStr (u ''x''))]"

lemma sample_reply_intent:
  obtains v where "build_agent_effect_intent ascii_db sample_identity OUTBOUND_REPLY 0 sample_reply = Inr v"
proof -
  obtain b where "canonical_json_bytes sample_reply = Inr b" using sample_payload_bytes by (auto simp: sample_reply_def)
  then show thesis
    using that sample_identity_ok by (auto simp: build_intent_result digest_payload_result MAX_EFFECT_ORDINAL_def)
qed

lemma sample_plan:
  obtains v where "ei_kind v = OUTBOUND_REPLY" "planned ascii_db sample_identity (plan_of sample_identity [v])"
    "reply_intent_from_plan (plan_of sample_identity [v]) = Inr v"
proof -
  obtain v where b: "build_agent_effect_intent ascii_db sample_identity OUTBOUND_REPLY 0 sample_reply = Inr v"
    by (rule sample_reply_intent)
  then have v: "intent_ok v" "ei_turn_id v = ti_turn_id sample_identity" "ei_kind v = OUTBOUND_REPLY" "ei_ordinal v = 0"
    using built_intent_ok [OF b] by (auto simp: build_intent_result)
  moreover from v have "planned ascii_db sample_identity (plan_of sample_identity [v])"
    using sample_identity_ok
    by (simp add: planned_def build_plan_result intents_ok_def singletons_ok_def MAX_EFFECT_INTENTS_PER_TURN_def)
  moreover from v have "reply_intent_from_plan (plan_of sample_identity [v]) = Inr v" by (simp add: reply_intent_from_plan_def)
  ultimately show thesis using that by blast
qed

section \<open>Properties\<close>

lemma plan_reply_last:
  assumes "intents_ok t vs" "singletons_ok vs" "sorted (map canonical_effect_order vs)"
  shows "list_all (\<lambda>v. ei_kind v \<noteq> OUTBOUND_REPLY) (butlast vs)"
proof (cases vs rule: rev_cases)
  case (snoc ws w)
  have "ei_kind v \<noteq> OUTBOUND_REPLY" if v: "v \<in> set ws" for v
  proof
    assume r: "ei_kind v = OUTBOUND_REPLY"
    have "canonical_effect_order v \<le> canonical_effect_order w" using assms(3) v by (auto simp: snoc sorted_append)
    then have "ei_kind w = OUTBOUND_REPLY"
      using r by (cases "ei_kind w") (auto simp: canonical_effect_order_def less_eq_prod_def)
    moreover have "0 < length (filter (\<lambda>v. ei_kind v = OUTBOUND_REPLY) ws)"
      using v r by (auto simp: length_greater_0_conv filter_empty_conv)
    ultimately show False using one_reply [OF assms(1,2)] by (simp add: snoc)
  qed
  then show ?thesis by (simp add: snoc list_all_iff)
qed simp

lemma sorted_effects_unique:
  assumes "intents_ok t vs" "mset ws = mset vs" "sorted (map canonical_effect_order ws)"
  shows "sort_key canonical_effect_order vs = ws"
proof (rule sort_key_inj_key_eq)
  show "mset vs = mset ws" using assms(2) by simp
  have "inj_on ei_effect_id (set vs)" using assms(1) by (simp add: intents_ok_def distinct_map)
  then show "inj_on canonical_effect_order (set vs)" by (auto simp: inj_on_def canonical_effect_order_def)
qed (rule assms(3))

text \<open>
  C25. What a plan is.  A collection of intents has a plan exactly when it is a valid collection, of at
  most 256, of a well-formed turn, and every intent that is neither a tool call nor an audit event has ordinal
  zero, which leaves at most one of each of those kinds; the plan holds the same intents,
  in whatever order they were given, sorted by phase, ordinal and identifier, so that an outbound reply comes
  last and after every other effect, and it carries the turn, the scope of the conversation and
  the digest of all of them.
\<close>

theorem plan_canonical:
  "build_agent_turn_execution_plan U t vs = Inr p \<longleftrightarrow>
   identity_ok U t \<and> length vs \<le> 256 \<and> intents_ok t vs
   \<and> list_all (\<lambda>v. ei_kind v = TOOL_CALL \<or> ei_kind v = AUDIT_EVENT \<or> ei_ordinal v = 0) vs
   \<and> mset (pl_effect_intents p) = mset vs \<and> sorted (map canonical_effect_order (pl_effect_intents p))
   \<and> list_all (\<lambda>v. ei_kind v \<noteq> OUTBOUND_REPLY) (butlast (pl_effect_intents p))
   \<and> pl_turn_id p = ti_turn_id t \<and> scope_id (pl_serial_scope p) = derive_serial_scope_id t
   \<and> pl_plan_digest p = derive_plan_digest (ti_turn_id t) (derive_serial_scope_id t) (pl_effect_intents p)"
proof -
  have "build_agent_turn_execution_plan U t vs = Inr p \<longleftrightarrow>
      identity_ok U t \<and> length vs \<le> 256 \<and> intents_ok t vs \<and> singletons_ok vs
      \<and> p = plan_of t (sort_key canonical_effect_order vs)"
    by (simp add: build_plan_result MAX_EFFECT_INTENTS_PER_TURN_def)
  moreover have "list_all (\<lambda>v. ei_kind v \<noteq> OUTBOUND_REPLY) (butlast ws)"
    if "intents_ok t vs" "singletons_ok vs" "mset ws = mset vs" "sorted (map canonical_effect_order ws)" for ws
    using plan_reply_last [of t ws] that intents_ok_mset [OF that(3)] singletons_ok_mset [OF that(3)] by simp
  ultimately show ?thesis
    using sorted_effects_unique [of t vs "pl_effect_intents p"] unfolding plan_of_eq singletons_ok_def [symmetric]
    by (auto simp: sorted_sort_key)
qed

text \<open>The bytes of a plan's digest.\<close>

definition plan_material :: "execution_plan \<Rightarrow> bytes" where
  "plan_material p = binary_frame (ascii_bytes plan_domain # ascii_bytes (u ''v1'')
     # plan_parts (pl_turn_id p) (scope_id (pl_serial_scope p)) (pl_effect_intents p))"

lemma length_binary_frame: "length (binary_frame ps) = 4 + sum_list (map (\<lambda>p. 4 + length p) ps)"
  by (simp add: binary_frame_def length_concat comp_def frame_part_def)

lemma intent_lengths:
  assumes "intent_ok v"
  shows "length (ei_turn_id v) = 78" "length (ei_effect_id v) = 80" "length (ei_payload_digest v) = 81"
    "length (slot_value (ei_semantic_slot v)) < 32" "length (kind_value (ei_kind v)) < 32"
proof -
  have "prefixed_hex64 effect_id_prefix (ei_effect_id v)" using assms by (simp add: intent_ok_def)
  then show "length (ei_turn_id v) = 78" "length (ei_effect_id v) = 80" "length (ei_payload_digest v) = 81"
    using assms by (auto simp: intent_ok_def turn_id_prefix_def effect_id_prefix_def payload_digest_prefix_def
        dest!: prefixed_hex64_length)
qed (rule value_short)+

lemma effect_plan_frame_inj:
  assumes "intent_ok v" "intent_ok w" "effect_plan_frame v = effect_plan_frame w"
  shows "v = w"
proof -
  have fr: "frameable [ascii_bytes (ei_turn_id v), ascii_bytes (kind_value (ei_kind v)), ascii_bytes (slot_value (ei_semantic_slot v)),
       int_to_bytes 8 (nat (ei_ordinal v)), ascii_bytes (ei_effect_id v), ascii_bytes (ei_payload_digest v)]"
    if "intent_ok v" for v
    using intent_lengths [OF that] by (simp add: frameable_def)
  have e: "ascii_bytes (ei_turn_id v) = ascii_bytes (ei_turn_id w)" "ascii_bytes (kind_value (ei_kind v)) = ascii_bytes (kind_value (ei_kind w))"
      "ascii_bytes (slot_value (ei_semantic_slot v)) = ascii_bytes (slot_value (ei_semantic_slot w))"
      "int_to_bytes 8 (nat (ei_ordinal v)) = int_to_bytes 8 (nat (ei_ordinal w))"
      "ascii_bytes (ei_effect_id v) = ascii_bytes (ei_effect_id w)" "ascii_bytes (ei_payload_digest v) = ascii_bytes (ei_payload_digest w)"
    using binary_frame_inj [OF fr [OF assms(1)] fr [OF assms(2)]] assms(3) by (simp_all add: effect_plan_frame_def)
  have "nat (ei_ordinal x) < 256 ^ 8" if "intent_ok x" for x
    using that by (auto simp: intent_ok_def MAX_EFFECT_ORDINAL_def nat_less_iff)
  then have "nat (ei_ordinal v) = nat (ei_ordinal w)" using int_to_bytes_inj [OF _ _ e(4)] assms(1,2) by blast
  then have "ei_ordinal v = ei_ordinal w" using assms(1,2) by (simp add: intent_ok_def eq_nat_nat_iff)
  moreover have "ei_turn_id v = ei_turn_id w" "ei_effect_id v = ei_effect_id w" "ei_payload_digest v = ei_payload_digest w"
    using ascii_bytes_inj intent_ascii assms(1,2) e(1,5,6) by blast+
  moreover have "ei_kind v = ei_kind w" "ei_semantic_slot v = ei_semantic_slot w"
    using ascii_bytes_inj [OF value_ascii(1) value_ascii(1) e(2)] ascii_bytes_inj [OF value_ascii(2) value_ascii(2) e(3)]
    by (simp_all add: kind_value_inj slot_value_inj)
  ultimately show ?thesis by (cases v; cases w) simp
qed

lemma map_effect_frames_inj:
  "list_all intent_ok vs \<Longrightarrow> list_all intent_ok ws \<Longrightarrow> map effect_plan_frame vs = map effect_plan_frame ws \<Longrightarrow> vs = ws"
  by (rule map_inj_on [where f = effect_plan_frame]) (auto simp: inj_on_def list_all_iff intro!: effect_plan_frame_inj)

lemma plan_material_inj:
  assumes "planned U t p" "planned U' t' p'" "plan_material p = plan_material p'"
  shows "p = p'"
proof -
  let ?parts = "\<lambda>p. ascii_bytes plan_domain # ascii_bytes (u ''v1'')
     # plan_parts (pl_turn_id p) (scope_id (pl_serial_scope p)) (pl_effect_intents p)"
  have fr: "frameable (?parts p) \<and> list_all intent_ok (pl_effect_intents p)
      \<and> (\<forall>c \<in> set (pl_turn_id p). c < 128) \<and> (\<forall>c \<in> set (scope_id (pl_serial_scope p)). c < 128)
      \<and> pl_plan_digest p = plan_prefix @ hexdigest (sha256 (plan_material p))"
    if "planned U t p" for U t p
  proof -
    note p = plannedD [OF that]
    have eqs: "pl_turn_id p = ti_turn_id t" "scope_id (pl_serial_scope p) = derive_serial_scope_id t"
      "pl_plan_digest p = derive_plan_digest (ti_turn_id t) (derive_serial_scope_id t) (pl_effect_intents p)"
      using p(5) by (metis plan_of_simps)+
    have l: "length (ti_turn_id t) = 78" "length (derive_serial_scope_id t) = 86"
      using prefixed_hex64_length [OF identity_turn_id [OF p(1)]] prefixed_hex64_length [OF derived_shape(1), of t]
      by (simp_all add: turn_id_prefix_def serial_scope_prefix_def)
    have "length (effect_plan_frame v) < 4096" if "v \<in> set (pl_effect_intents p)" for v
      using intent_lengths [of v] planned_intent [OF \<open>planned U t p\<close> that]
      by (simp add: effect_plan_frame_def length_binary_frame)
    then have "\<forall>v \<in> set (pl_effect_intents p). length (effect_plan_frame v) < 4294967296" by force
    then have "frameable (?parts p)"
      using p(6) by (simp add: frameable_def plan_parts_def eqs l MAX_EFFECT_INTENTS_PER_TURN_def plan_domain_def)
    moreover have "list_all intent_ok (pl_effect_intents p)" using p(2) by (auto simp: intents_ok_def list_all_iff)
    ultimately show ?thesis
      using identity_ascii [OF p(1)] derived_ascii(1) by (simp add: eqs derive_plan_digest_def sha256_id_def plan_material_def)
  qed
  note a = fr [OF assms(1)] and b = fr [OF assms(2)]
  have "?parts p = ?parts p'" using binary_frame_inj a b assms(3) unfolding plan_material_def by blast
  then have e: "ascii_bytes (pl_turn_id p) = ascii_bytes (pl_turn_id p')"
      "ascii_bytes (scope_id (pl_serial_scope p)) = ascii_bytes (scope_id (pl_serial_scope p'))"
      "map effect_plan_frame (pl_effect_intents p) = map effect_plan_frame (pl_effect_intents p')"
    by (simp_all add: plan_parts_def)
  have "pl_turn_id p = pl_turn_id p'" "scope_id (pl_serial_scope p) = scope_id (pl_serial_scope p')"
      "pl_effect_intents p = pl_effect_intents p'" "pl_plan_digest p = pl_plan_digest p'"
    using ascii_bytes_inj [OF _ _ e(1)] ascii_bytes_inj [OF _ _ e(2)] map_effect_frames_inj [OF _ _ e(3)] a b assms(3) by simp_all
  then show ?thesis by (cases p; cases p'; cases "pl_serial_scope p"; cases "pl_serial_scope p'") simp
qed

text \<open>
  A plan's digest binds the plan.  Two plans that are accepted, for whatever turns and
  conversations, and that carry the same digest are the same plan (turn, scope and every field of every
  intent), unless the two digested byte strings are a collision of SHA-256.
\<close>

theorem plan_digest_binds:
  assumes "validate_agent_turn_execution_plan U t p = Inr q" "validate_agent_turn_execution_plan U' t' p' = Inr q'"
    and "pl_plan_digest p = pl_plan_digest p'"
  shows "p = p' \<or> plan_material p \<noteq> plan_material p' \<and> sha256 (plan_material p) = sha256 (plan_material p')"
proof -
  have p: "planned U t p" "planned U' t' p'" using assms(1,2) by (simp_all add: validate_plan_result planned_def)
  have d: "pl_plan_digest p = plan_prefix @ hexdigest (sha256 (plan_material p))" if "planned U t p" for U t p
    using plannedD(5) [OF that] plan_of_simps
    by (metis derive_plan_digest_def plan_material_def sha256_id_def)
  have "sha256 (plan_material p) = sha256 (plan_material p')"
    using d [OF p(1)] d [OF p(2)] assms(3) by (auto intro: hexdigest_inj)
  then show ?thesis using plan_material_inj [OF p] by blast
qed

theorem plan_digest_binds_witness:
  "\<exists>v. validate_agent_turn_execution_plan ascii_db sample_identity (plan_of sample_identity [v]) = Inr (plan_of sample_identity [v])"
proof -
  obtain v where "planned ascii_db sample_identity (plan_of sample_identity [v])" by (rule sample_plan)
  then have p: "validate_agent_turn_execution_plan ascii_db sample_identity (plan_of sample_identity [v]) = Inr (plan_of sample_identity [v])"
    by (simp add: validate_plan_result planned_def)
  from plan_digest_binds [OF p p refl] p show ?thesis by blast
qed

text \<open>
  C26. A receipt is accepted exactly when the module would issue it.  For a plan and an effect, the
  stored receipts resolve to a receipt exactly when there is just that one and it is, field by field, the
  receipt built for that plan, effect and its own outcome; and two receipts reconcile exactly when both are
  that receipt, so the outcome of a planned effect cannot be changed by a repetition.
\<close>

theorem receipt_exact:
  "(resolve_agent_effect_receipts U t p v rs = Inr (Some r) \<longleftrightarrow>
      rs = [r] \<and> build_agent_effect_receipt U t p v (er_outcome r) = Inr r)
   \<and> (reconcile_agent_effect_receipt_replay U t p v a b = Inr r \<longleftrightarrow>
      a = b \<and> r = a \<and> build_agent_effect_receipt U t p v (er_outcome a) = Inr a)"
proof (cases "planned U t p \<and> v \<in> set (pl_effect_intents p)")
  case True
  have res: "validate_effect_receipt t p v r = Inr s \<longleftrightarrow> s = r \<and> r = receipt_of p v (er_outcome r)" for r s
    using True by (intro validate_receipt_result [of U]) auto
  have asc: "safe_equal (er_receipt_id (receipt_of p v oc)) (er_receipt_id (receipt_of p v oc))"
      "safe_equal (er_receipt_digest (receipt_of p v oc)) (er_receipt_digest (receipt_of p v oc))" for oc
    using safe_equal_ascii [OF derived_ascii(3)] safe_equal_ascii [OF derived_ascii(4)]
    by (simp_all add: receipt_of_def mint_effect_receipt_def)
  have "resolve_agent_effect_receipts U t p v rs = Inr (Some r) \<longleftrightarrow> rs = [r] \<and> r = receipt_of p v (er_outcome r)"
    using True by (cases rs) (auto simp: resolve_agent_effect_receipts_def result_simps res MAX_EFFECT_RECEIPTS_PER_RESOLUTION_def)
  moreover have "reconcile_agent_effect_receipt_replay U t p v a b = Inr r \<longleftrightarrow> a = b \<and> r = a \<and> a = receipt_of p v (er_outcome a)"
  proof -
    have "reconcile_agent_effect_receipt_replay U t p v a b = Inr r \<longleftrightarrow>
        a = receipt_of p v (er_outcome a) \<and> b = receipt_of p v (er_outcome b) \<and> er_outcome a = er_outcome b
        \<and> safe_equal (er_receipt_id b) (er_receipt_id a) \<and> safe_equal (er_receipt_digest b) (er_receipt_digest a) \<and> r = a"
      using True by (auto simp: reconcile_agent_effect_receipt_replay_def result_simps res)
    then show ?thesis using asc by metis
  qed
  ultimately show ?thesis using True by (auto simp: build_receipt_result)
next
  case False
  then show ?thesis
    by (auto simp: build_receipt_result resolve_agent_effect_receipts_def reconcile_agent_effect_receipt_replay_def result_simps)
qed

text \<open>
  C13. A reply is sent at most once.  From the entry that is built for a plan, the sequences of
  transport events that are accepted are exactly: any number of attempts each of which is proven to have
  failed before sending, then nothing, or one attempt that is under way, was accepted, or is ambiguous.  An
  accepted or ambiguous reply has no further event, so it is never attempted again.
\<close>

theorem reply_sent_at_most_once:
  assumes "build_agent_reply_outbox_entry U t p = Inr e"
  shows "outbox_run U t p e xs = Inr e' \<longleftrightarrow>
    (\<exists>n ys s. xs = concat (replicate n [TRANSPORT_STARTED, PRE_SEND_FAILURE_PROVEN]) @ ys
      \<and> (ys, s) \<in> {([], PENDING), ([TRANSPORT_STARTED], IN_TRANSPORT), ([TRANSPORT_STARTED, TRANSPORT_ACCEPTED], ACCEPTED),
           ([TRANSPORT_STARTED, TRANSPORT_OUTCOME_AMBIGUOUS], AMBIGUOUS)}
      \<and> e' = e\<lparr>oe_state := s, oe_entry_digest := oe_entry_digest e'\<rparr>
      \<and> validate_reply_outbox_entry t p e' = Inr e')"
proof -
  obtain v where p: "planned U t p" and v: "reply_intent_from_plan p = Inr v" and e: "e = mint_reply_outbox_entry (pl_plan_digest p) v PENDING"
    using assms by (auto simp: build_agent_reply_outbox_entry_def result_simps validate_plan_result planned_def)
  have shape: "e' = mint_reply_outbox_entry (pl_plan_digest p) v s \<longleftrightarrow>
      e' = e\<lparr>oe_state := s, oe_entry_digest := oe_entry_digest e'\<rparr> \<and> validate_reply_outbox_entry t p e' = Inr e'" for s
    unfolding validate_entry_result [OF p v] by (cases e') (auto simp: e mint_reply_outbox_entry_def)
  have "outbox_run U t p e xs = Inr e' \<longleftrightarrow>
      (\<exists>s. outbox_states PENDING xs = Some s \<and> e' = mint_reply_outbox_entry (pl_plan_digest p) v s)"
    unfolding e by (rule outbox_run_states [OF p v])
  then show ?thesis unfolding outbox_language shape failed_sends_def last_send_def using assms by blast
qed

theorem reply_sent_at_most_once_witness:
  "\<exists>p e e'. build_agent_reply_outbox_entry ascii_db sample_identity p = Inr e
     \<and> outbox_run ascii_db sample_identity p e [TRANSPORT_STARTED, PRE_SEND_FAILURE_PROVEN, TRANSPORT_STARTED, TRANSPORT_ACCEPTED] = Inr e'
     \<and> (\<nexists>e''. outbox_run ascii_db sample_identity p e [TRANSPORT_STARTED, TRANSPORT_OUTCOME_AMBIGUOUS, TRANSPORT_STARTED] = Inr e'')"
proof -
  obtain v where p: "planned ascii_db sample_identity (plan_of sample_identity [v])"
    and v: "reply_intent_from_plan (plan_of sample_identity [v]) = Inr v" by (rule sample_plan)
  let ?p = "plan_of sample_identity [v]"
  let ?e = "mint_reply_outbox_entry (pl_plan_digest ?p) v PENDING"
  have e: "build_agent_reply_outbox_entry ascii_db sample_identity ?p = Inr ?e"
    using p v sample_identity_ok by (auto simp: build_agent_reply_outbox_entry_def result_simps validate_plan_result planned_def)
  have "\<exists>e'. outbox_run ascii_db sample_identity ?p ?e [TRANSPORT_STARTED, PRE_SEND_FAILURE_PROVEN, TRANSPORT_STARTED, TRANSPORT_ACCEPTED] = Inr e'"
    by (simp only: outbox_run_states [OF p v]) simp
  moreover have "\<nexists>e''. outbox_run ascii_db sample_identity ?p ?e [TRANSPORT_STARTED, TRANSPORT_OUTCOME_AMBIGUOUS, TRANSPORT_STARTED] = Inr e''"
  proof
    assume "\<exists>e''. outbox_run ascii_db sample_identity ?p ?e [TRANSPORT_STARTED, TRANSPORT_OUTCOME_AMBIGUOUS, TRANSPORT_STARTED] = Inr e''"
    then obtain e'' where r: "outbox_run ascii_db sample_identity ?p ?e [TRANSPORT_STARTED, TRANSPORT_OUTCOME_AMBIGUOUS, TRANSPORT_STARTED] = Inr e''"
      by blast
    obtain n ys s where "[TRANSPORT_STARTED, TRANSPORT_OUTCOME_AMBIGUOUS, TRANSPORT_STARTED] = failed_sends n @ ys" "last_send ys s"
      using iffD1 [OF reply_sent_at_most_once [OF e] r] by (auto simp: failed_sends_def last_send_def)
    then show False by (cases n) (auto simp: last_send_def)
  qed
  ultimately show ?thesis using e by blast
qed

text \<open>
  The reply's key is known before the reply.  The key reserved from the turn alone is the key of the
  reply of every later plan of the turn: the keys observed for that reply resolve exactly when there is one
  and it is the current key built for the plan, and what they resolve to is the reserved key; evidence of a legacy
  key never resolves.
\<close>

theorem reservation_key_stable:
  assumes "build_agent_outbound_reply_reservation_v2 U t = Inr r"
    and "validate_agent_turn_execution_plan U t p = Inr q" "v \<in> set (pl_effect_intents p)" "ei_kind v = OUTBOUND_REPLY"
  shows "\<exists>c. build_agent_effect_compatibility_key U t p v V2 = Inr c \<and> ck_key c = rr_key r \<and> ck_effect_id c = rr_effect_id r
    \<and> (resolve_agent_effect_compatibility_keys U t p v cs = Inr k \<longleftrightarrow>
        cs = [c] \<and> k = \<lparr>kr_selected_version = V2, kr_selected_key = rr_key r, kr_source = CURRENT_DERIVED\<rparr>)"
proof -
  have p: "planned U t p" using assms(2) by (simp add: validate_plan_result planned_def)
  have k: "derive_v2_compatibility_key v = rr_key r" "ei_effect_id v = rr_effect_id r"
    using assms(1) planned_reply_id(1) [OF p assms(3,4)] by (auto simp: reservation_result derive_v2_compatibility_key_def Let_def)
  have "ck_effect_id (key_of p v) = ei_effect_id v" by (simp add: key_of_def mint_compatibility_key_def)
  then show ?thesis using p assms(3,4) k by (auto simp: build_key_result resolve_key_result)
qed

theorem reservation_key_stable_witness:
  "\<exists>p v r c. validate_agent_turn_execution_plan ascii_db sample_identity p = Inr p
     \<and> build_agent_outbound_reply_reservation_v2 ascii_db sample_identity = Inr r
     \<and> build_agent_effect_compatibility_key ascii_db sample_identity p v V2 = Inr c \<and> ck_key c = rr_key r"
proof -
  obtain v where v: "ei_kind v = OUTBOUND_REPLY" "planned ascii_db sample_identity (plan_of sample_identity [v])" by (rule sample_plan)
  then have p: "validate_agent_turn_execution_plan ascii_db sample_identity (plan_of sample_identity [v]) = Inr (plan_of sample_identity [v])"
    by (simp add: validate_plan_result planned_def)
  obtain r where r: "build_agent_outbound_reply_reservation_v2 ascii_db sample_identity = Inr r"
    using sample_identity_ok by (auto simp: reservation_result Let_def)
  have "v \<in> set (pl_effect_intents (plan_of sample_identity [v]))" by simp
  from reservation_key_stable [OF r p this v(1)] p r show ?thesis by blast
qed

end
