(* ===== verification/TurnDigests.thy ===== *)
theory TurnDigests
  imports Sha256Bits TurnPlans
begin

text \<open>
  The identifiers of the sample turn and of four of its effects, computed down to the last hexadecimal digit.
  That the effects of a turn have different identifiers is a fact about SHA-256 which only the computation gives;
  the sample runs of a confirmation after a proposal and of a whole turn need it.
\<close>

section \<open>The digests\<close>

lemma turn_digest: "hexdigest (sha256 (turn_material 1 2 3 EVOLUTION (ascii_bytes (u ''msg'')))) = u ''a98c2ea0784dc7621786a3302e6586b186272d8db499f029d2599a998ba89de9''"
proof -
  define ns :: "nat list" where "ns = [0, 0, 0, 7, 0, 0, 0, 28, 112, 97, 115, 116, 111, 114, 97, 105, 46, 97, 103, 101, 110, 116, 46, 116, 117,
      114, 110, 45, 105, 100, 101, 110, 116, 105, 116, 121, 0, 0, 0, 2, 118, 49, 0, 0, 0, 16, 0, 0, 0, 0, 0, 0, 0,
      0, 0, 0, 0, 0, 0, 0, 0, 1, 0, 0, 0, 16, 0, 0, 0, 0, 0, 0, 0, 0, 0, 0, 0, 0, 0, 0, 0, 2, 0, 0, 0, 16, 0, 0,
      0, 0, 0, 0, 0, 0, 0, 0, 0, 0, 0, 0, 0, 3, 0, 0, 0, 9, 101, 118, 111, 108, 117, 116, 105, 111, 110, 0, 0, 0,
      3, 109, 115, 103]"
  define bs :: "nat list list" where
    "bs = [[7, 28, 1885434740, 1869767017, 778135397, 1853107828, 1970433581, 1768187246, 1953068153, 2, 1982922752,
       1048576, 0, 0, 0, 65536],
      [1048576, 0, 0, 0, 131072, 1048576, 0, 0, 0, 196608, 615798, 1869378932, 1768910336, 877, 1936162816, 0],
      [0, 0, 0, 0, 0, 0, 0, 0, 0, 0, 0, 0, 0, 0, 0, 976]]"
  define ws :: "word32 list" where "ws = [2844536480, 2018363234, 394699568, 778405553, 2250714509, 3029987369, 3529087641, 2343083497]"
  show ?thesis
  proof (rule known_digest)
    show "turn_material 1 2 3 EVOLUTION (ascii_bytes (u ''msg'')) = map byte ns" by (simp add: ns_def turn_material_def byte_eval)
    show "pack (ns @ [128, 0, 0, 0, 0, 0, 0, 0, 0, 0, 0, 0, 0, 0, 0, 0, 0, 0, 0, 0, 0, 0, 0, 0, 0, 0, 0, 0, 0, 0, 0, 0, 0, 0, 0,
      0, 0, 0, 0, 0, 0, 0, 0, 0, 0, 0, 0, 0, 0, 0, 0, 0, 0, 0, 0, 0, 0, 0, 0, 0, 0, 0, 0, 0, 0, 0, 0, 0, 3, 208]) = concat bs"
      by (simp only: ns_def bs_def pack_eval)
    show "padding (length ns) = [128, 0, 0, 0, 0, 0, 0, 0, 0, 0, 0, 0, 0, 0, 0, 0, 0, 0, 0, 0, 0, 0, 0, 0, 0, 0, 0, 0, 0, 0, 0, 0, 0, 0, 0,
      0, 0, 0, 0, 0, 0, 0, 0, 0, 0, 0, 0, 0, 0, 0, 0, 0, 0, 0, 0, 0, 0, 0, 0, 0, 0, 0, 0, 0, 0, 0, 0, 0, 3, 208]"
      by (simp add: ns_def pad_eval)
    show "blocks_b (map bits sha256_init) (map (map (\<lambda>n. bits (word_of_nat n))) bs) = map bits ws"
      by (simp only: bs_def ws_def word_eval)
  qed (simp_all add: ns_def bs_def ws_def hex_eval)
qed

lemma tool_call_digest: "hexdigest (sha256 (effect_material (u ''agent_turn_v1_a98c2ea0784dc7621786a3302e6586b186272d8db499f029d2599a998ba89de9'') Slot_TOOL_CALL 0)) = u ''0b4ecf376768bb4a8af9cf179d2ae87329a3848a87bfb0b616c02549a27264ef''"
proof -
  define ns :: "nat list" where "ns = [0, 0, 0, 6, 0, 0, 0, 28, 112, 97, 115, 116, 111, 114, 97, 105, 46, 97, 103, 101, 110, 116, 46, 101, 102,
      102, 101, 99, 116, 45, 105, 110, 116, 101, 110, 116, 0, 0, 0, 2, 118, 49, 0, 0, 0, 2, 118, 49, 0, 0, 0, 78,
      97, 103, 101, 110, 116, 95, 116, 117, 114, 110, 95, 118, 49, 95, 97, 57, 56, 99, 50, 101, 97, 48, 55, 56,
      52, 100, 99, 55, 54, 50, 49, 55, 56, 54, 97, 51, 51, 48, 50, 101, 54, 53, 56, 54, 98, 49, 56, 54, 50, 55,
      50, 100, 56, 100, 98, 52, 57, 57, 102, 48, 50, 57, 100, 50, 53, 57, 57, 97, 57, 57, 56, 98, 97, 56, 57, 100,
      101, 57, 0, 0, 0, 12, 118, 49, 47, 116, 111, 111, 108, 95, 99, 97, 108, 108, 0, 0, 0, 8, 0, 0, 0, 0, 0, 0,
      0, 0]"
  define bs :: "nat list list" where
    "bs = [[6, 28, 1885434740, 1869767017, 778135397, 1853107813, 1717986659, 1949133166, 1952804468, 2, 1982922752,
       161329, 78, 1634166126, 1952412789, 1919836022],
      [828334393, 946025061, 1630549816, 878994231, 909259063, 943087923, 858796645, 909457462, 1647392822,
       842478180, 946102836, 960063024, 842622002, 892942689, 960051298, 1631074660],
      [1698234368, 816689, 796159855, 1818190689, 1819017216, 524288, 0, 32768, 0, 0, 0, 0, 0, 0, 0, 1264]]"
  define ws :: "word32 list" where "ws = [189714231, 1734916938, 2331627287, 2636834931, 698582154, 2277486774, 381691209, 2725405935]"
  show ?thesis
  proof (rule known_digest)
    show "effect_material (u ''agent_turn_v1_a98c2ea0784dc7621786a3302e6586b186272d8db499f029d2599a998ba89de9'') Slot_TOOL_CALL 0 = map byte ns" by (simp add: ns_def effect_material_def byte_eval)
    show "pack (ns @ [128, 0, 0, 0, 0, 0, 0, 0, 0, 0, 0, 0, 0, 0, 0, 0, 0, 0, 0, 0, 0, 0, 0, 0, 0, 0, 0, 0, 0, 0, 0, 0, 4, 240]) = concat bs"
      by (simp only: ns_def bs_def pack_eval)
    show "padding (length ns) = [128, 0, 0, 0, 0, 0, 0, 0, 0, 0, 0, 0, 0, 0, 0, 0, 0, 0, 0, 0, 0, 0, 0, 0, 0, 0, 0, 0, 0, 0, 0, 0, 4, 240]"
      by (simp add: ns_def pad_eval)
    show "blocks_b (map bits sha256_init) (map (map (\<lambda>n. bits (word_of_nat n))) bs) = map bits ws"
      by (simp only: bs_def ws_def word_eval)
  qed (simp_all add: ns_def bs_def ws_def hex_eval)
qed

lemma second_call_digest: "hexdigest (sha256 (effect_material (u ''agent_turn_v1_a98c2ea0784dc7621786a3302e6586b186272d8db499f029d2599a998ba89de9'') Slot_TOOL_CALL 1)) = u ''720970906fb68ccebd619809b020737c02330536a5d9057a48bf9b741736e70d''"
proof -
  define ns :: "nat list" where "ns = [0, 0, 0, 6, 0, 0, 0, 28, 112, 97, 115, 116, 111, 114, 97, 105, 46, 97, 103, 101, 110, 116, 46, 101, 102,
      102, 101, 99, 116, 45, 105, 110, 116, 101, 110, 116, 0, 0, 0, 2, 118, 49, 0, 0, 0, 2, 118, 49, 0,
      0, 0, 78, 97, 103, 101, 110, 116, 95, 116, 117, 114, 110, 95, 118, 49, 95, 97, 57, 56, 99, 50, 101,
      97, 48, 55, 56, 52, 100, 99, 55, 54, 50, 49, 55, 56, 54, 97, 51, 51, 48, 50, 101, 54, 53, 56, 54,
      98, 49, 56, 54, 50, 55, 50, 100, 56, 100, 98, 52, 57, 57, 102, 48, 50, 57, 100, 50, 53, 57, 57, 97,
      57, 57, 56, 98, 97, 56, 57, 100, 101, 57, 0, 0, 0, 12, 118, 49, 47, 116, 111, 111, 108, 95, 99, 97,
      108, 108, 0, 0, 0, 8, 0, 0, 0, 0, 0, 0, 0, 1]"
  define bs :: "nat list list" where
    "bs = [[6, 28, 1885434740, 1869767017, 778135397, 1853107813, 1717986659, 1949133166, 1952804468, 2, 1982922752,
       161329, 78, 1634166126, 1952412789, 1919836022],
      [828334393, 946025061, 1630549816, 878994231, 909259063, 943087923, 858796645, 909457462, 1647392822,
       842478180, 946102836, 960063024, 842622002, 892942689, 960051298, 1631074660],
      [1698234368, 816689, 796159855, 1818190689, 1819017216, 524288, 0, 98304, 0, 0, 0, 0, 0, 0, 0, 1264]]"
  define ws :: "word32 list" where "ws = [1913221264, 1874234574, 3177289737, 2954916732, 36898102, 2782463354, 1220516724, 389474061]"
  show ?thesis
  proof (rule known_digest)
    show "effect_material (u ''agent_turn_v1_a98c2ea0784dc7621786a3302e6586b186272d8db499f029d2599a998ba89de9'') Slot_TOOL_CALL 1 = map byte ns" by (simp add: ns_def effect_material_def byte_eval)
    show "pack (ns @ [128, 0, 0, 0, 0, 0, 0, 0, 0, 0, 0, 0, 0, 0, 0, 0, 0, 0, 0, 0, 0, 0, 0, 0, 0, 0, 0, 0, 0, 0, 0, 0, 4, 240]) = concat bs"
      by (simp only: ns_def bs_def pack_eval)
    show "padding (length ns) = [128, 0, 0, 0, 0, 0, 0, 0, 0, 0, 0, 0, 0, 0, 0, 0, 0, 0, 0, 0, 0, 0, 0, 0, 0, 0, 0, 0, 0, 0, 0, 0, 4, 240]"
      by (simp add: ns_def pad_eval)
    show "blocks_b (map bits sha256_init) (map (map (\<lambda>n. bits (word_of_nat n))) bs) = map bits ws"
      by (simp only: bs_def ws_def word_eval)
  qed (simp_all add: ns_def bs_def ws_def hex_eval)
qed

lemma audit_event_digest: "hexdigest (sha256 (effect_material (u ''agent_turn_v1_a98c2ea0784dc7621786a3302e6586b186272d8db499f029d2599a998ba89de9'') Slot_AUDIT_EVENT 0)) = u ''2b8523eb3ff0c240d5dbaffbdcc0dc95e1e04e3d58b11e1d02de3f3990de147a''"
proof -
  define ns :: "nat list" where "ns = [0, 0, 0, 6, 0, 0, 0, 28, 112, 97, 115, 116, 111, 114, 97, 105, 46, 97, 103, 101, 110, 116, 46, 101, 102,
      102, 101, 99, 116, 45, 105, 110, 116, 101, 110, 116, 0, 0, 0, 2, 118, 49, 0, 0, 0, 2, 118, 49, 0, 0, 0, 78,
      97, 103, 101, 110, 116, 95, 116, 117, 114, 110, 95, 118, 49, 95, 97, 57, 56, 99, 50, 101, 97, 48, 55, 56,
      52, 100, 99, 55, 54, 50, 49, 55, 56, 54, 97, 51, 51, 48, 50, 101, 54, 53, 56, 54, 98, 49, 56, 54, 50, 55,
      50, 100, 56, 100, 98, 52, 57, 57, 102, 48, 50, 57, 100, 50, 53, 57, 57, 97, 57, 57, 56, 98, 97, 56, 57, 100,
      101, 57, 0, 0, 0, 14, 118, 49, 47, 97, 117, 100, 105, 116, 95, 101, 118, 101, 110, 116, 0, 0, 0, 8, 0, 0, 0,
      0, 0, 0, 0, 0]"
  define bs :: "nat list list" where
    "bs = [[6, 28, 1885434740, 1869767017, 778135397, 1853107813, 1717986659, 1949133166, 1952804468, 2, 1982922752,
       161329, 78, 1634166126, 1952412789, 1919836022],
      [828334393, 946025061, 1630549816, 878994231, 909259063, 943087923, 858796645, 909457462, 1647392822,
       842478180, 946102836, 960063024, 842622002, 892942689, 960051298, 1631074660],
      [1698234368, 947761, 794916196, 1769234277, 1986358900, 8, 0, 0, 2147483648, 0, 0, 0, 0, 0, 0, 1280]]"
  define ws :: "word32 list" where "ws = [730145771, 1072742976, 3587944443, 3703626901, 3789573693, 1488002589, 48119609, 2430473338]"
  show ?thesis
  proof (rule known_digest)
    show "effect_material (u ''agent_turn_v1_a98c2ea0784dc7621786a3302e6586b186272d8db499f029d2599a998ba89de9'') Slot_AUDIT_EVENT 0 = map byte ns" by (simp add: ns_def effect_material_def byte_eval)
    show "pack (ns @ [128, 0, 0, 0, 0, 0, 0, 0, 0, 0, 0, 0, 0, 0, 0, 0, 0, 0, 0, 0, 0, 0, 0, 0, 0, 0, 0, 0, 0, 0, 5, 0]) = concat bs"
      by (simp only: ns_def bs_def pack_eval)
    show "padding (length ns) = [128, 0, 0, 0, 0, 0, 0, 0, 0, 0, 0, 0, 0, 0, 0, 0, 0, 0, 0, 0, 0, 0, 0, 0, 0, 0, 0, 0, 0, 0, 5, 0]"
      by (simp add: ns_def pad_eval)
    show "blocks_b (map bits sha256_init) (map (map (\<lambda>n. bits (word_of_nat n))) bs) = map bits ws"
      by (simp only: bs_def ws_def word_eval)
  qed (simp_all add: ns_def bs_def ws_def hex_eval)
qed

lemma outbound_reply_digest: "hexdigest (sha256 (effect_material (u ''agent_turn_v1_a98c2ea0784dc7621786a3302e6586b186272d8db499f029d2599a998ba89de9'') Slot_OUTBOUND_REPLY 0)) = u ''83ebca89a85d43364e74e5cfcca6eab27c36d00a3b5ecb887ca265da522e0b26''"
proof -
  define ns :: "nat list" where "ns = [0, 0, 0, 6, 0, 0, 0, 28, 112, 97, 115, 116, 111, 114, 97, 105, 46, 97, 103, 101, 110, 116, 46, 101, 102,
      102, 101, 99, 116, 45, 105, 110, 116, 101, 110, 116, 0, 0, 0, 2, 118, 49, 0, 0, 0, 2, 118, 49, 0, 0, 0, 78,
      97, 103, 101, 110, 116, 95, 116, 117, 114, 110, 95, 118, 49, 95, 97, 57, 56, 99, 50, 101, 97, 48, 55, 56,
      52, 100, 99, 55, 54, 50, 49, 55, 56, 54, 97, 51, 51, 48, 50, 101, 54, 53, 56, 54, 98, 49, 56, 54, 50, 55,
      50, 100, 56, 100, 98, 52, 57, 57, 102, 48, 50, 57, 100, 50, 53, 57, 57, 97, 57, 57, 56, 98, 97, 56, 57, 100,
      101, 57, 0, 0, 0, 17, 118, 49, 47, 111, 117, 116, 98, 111, 117, 110, 100, 95, 114, 101, 112, 108, 121, 0, 0,
      0, 8, 0, 0, 0, 0, 0, 0, 0, 0]"
  define bs :: "nat list list" where
    "bs = [[6, 28, 1885434740, 1869767017, 778135397, 1853107813, 1717986659, 1949133166, 1952804468, 2, 1982922752,
       161329, 78, 1634166126, 1952412789, 1919836022],
      [828334393, 946025061, 1630549816, 878994231, 909259063, 943087923, 858796645, 909457462, 1647392822,
       842478180, 946102836, 960063024, 842622002, 892942689, 960051298, 1631074660],
      [1698234368, 1144369, 795833716, 1651471726, 1683976805, 1886157056, 2048, 0, 128, 0, 0, 0, 0, 0, 0, 1304]]"
  define ws :: "word32 list" where "ws = [2213268105, 2824684342, 1316283855, 3433491122, 2083966986, 996068232, 2091017690, 1378749222]"
  show ?thesis
  proof (rule known_digest)
    show "effect_material (u ''agent_turn_v1_a98c2ea0784dc7621786a3302e6586b186272d8db499f029d2599a998ba89de9'') Slot_OUTBOUND_REPLY 0 = map byte ns" by (simp add: ns_def effect_material_def byte_eval)
    show "pack (ns @ [128, 0, 0, 0, 0, 0, 0, 0, 0, 0, 0, 0, 0, 0, 0, 0, 0, 0, 0, 0, 0, 0, 0, 0, 0, 0, 0, 5, 24]) = concat bs"
      by (simp only: ns_def bs_def pack_eval)
    show "padding (length ns) = [128, 0, 0, 0, 0, 0, 0, 0, 0, 0, 0, 0, 0, 0, 0, 0, 0, 0, 0, 0, 0, 0, 0, 0, 0, 0, 0, 5, 24]"
      by (simp add: ns_def pad_eval)
    show "blocks_b (map bits sha256_init) (map (map (\<lambda>n. bits (word_of_nat n))) bs) = map bits ws"
      by (simp only: bs_def ws_def word_eval)
  qed (simp_all add: ns_def bs_def ws_def hex_eval)
qed

section \<open>The identifiers\<close>

lemma append_u: "u a @ u b = u (a @ b)"
  by (simp add: u_def)

lemma sample_turn_id: "ti_turn_id sample_identity = u ''agent_turn_v1_a98c2ea0784dc7621786a3302e6586b186272d8db499f029d2599a998ba89de9''"
  by (simp add: sample_identity_def derive_turn_id_def turn_digest turn_id_prefix_def append_u)

lemma sample_effect_ids:
  "derive_effect_id (ti_turn_id sample_identity) Slot_TOOL_CALL 0 = u ''agent_effect_v1_0b4ecf376768bb4a8af9cf179d2ae87329a3848a87bfb0b616c02549a27264ef''"
  "derive_effect_id (ti_turn_id sample_identity) Slot_TOOL_CALL 1 = u ''agent_effect_v1_720970906fb68ccebd619809b020737c02330536a5d9057a48bf9b741736e70d''"
  "derive_effect_id (ti_turn_id sample_identity) Slot_AUDIT_EVENT 0 = u ''agent_effect_v1_2b8523eb3ff0c240d5dbaffbdcc0dc95e1e04e3d58b11e1d02de3f3990de147a''"
  "derive_effect_id (ti_turn_id sample_identity) Slot_OUTBOUND_REPLY 0 = u ''agent_effect_v1_83ebca89a85d43364e74e5cfcca6eab27c36d00a3b5ecb887ca265da522e0b26''"
  by (simp_all add: sample_turn_id derive_effect_id_def tool_call_digest second_call_digest audit_event_digest outbound_reply_digest
      effect_id_prefix_def append_u)

end
