(* ===== verification/ReportProposal.thy ===== *)
theory ReportProposal
  imports ReportConfirm TurnDigests
begin

text \<open>
  The proposal of a cell report: what the stored proposal lets an operation do, the envelope it
  writes, and the properties of a run and of the runs that follow it.
\<close>

section \<open>Arguments\<close>

lemma proposal_material_Inr:
  assumes U: "unicode_ok (ev_text E)"
  shows "proposal_material_of E g r c a key msg e = Inr (b, patch, w, payload) \<longleftrightarrow>
    parse_cell_report_candidate (ev_text E) (ev_re E) msg = Inr patch \<and> \<not> is_empty patch
    \<and> start_cell_report_workflow (ev_text E) (PyStr key) (Some patch) = Inr w
    \<and> derive_cell_report_proposal_bindings g r c a = Inr b
    \<and> payload = proposal_effect_payload (PyDict (bindings_json b)) (scope_digest w) (PyDict (candidate_payload patch)) e"
  using derived_bindings_ok [of g r c a b] parsed_ok [OF U, of "ev_re E" msg patch] U
  by (auto simp: proposal_material_of_def Let_def app_Inr bindings_to_jsonb_result cell_report_candidate_payload_def)

lemma proposal_arguments_Inr:
  assumes U: "unicode_ok (ev_text E)"
  shows "proposal_arguments E g r c a key t v msg now expires = Inr (n, e, b, patch, w, i) \<longleftrightarrow>
    canonical_utc now = Inr n \<and> canonical_utc expires = Inr e
    \<and> instant n < instant e \<and> instant e - instant n \<le> MAX_CELL_REPORT_PROPOSAL_TTL
    \<and> parse_cell_report_candidate (ev_text E) (ev_re E) msg = Inr patch \<and> \<not> is_empty patch
    \<and> start_cell_report_workflow (ev_text E) (PyStr key) (Some patch) = Inr w
    \<and> derive_cell_report_proposal_bindings g r c a = Inr b \<and> i = v
    \<and> effect_for (ev_text E) t g c
        (proposal_effect_payload (PyDict (bindings_json b)) (scope_digest w) (PyDict (candidate_payload patch)) e) v"
proof -
  have nz: "g \<noteq> 0 \<and> r \<noteq> 0 \<and> c \<noteq> 0 \<and> a \<noteq> 0" if "derive_cell_report_proposal_bindings g r c a = Inr b"
    using that by (simp add: derived_bindings)
  then show ?thesis
    by (auto simp: proposal_arguments_def app_Inr proposal_material_Inr [OF U] trusted_effect_Inr)
      (intro exI [of _ e], simp)
qed

section \<open>The envelope an operation writes\<close>

definition envelope_of :: "workflow \<Rightarrow> bindings \<Rightarrow> datetime \<Rightarrow> receipt list \<Rightarrow> effect_intent \<Rightarrow> pystr \<Rightarrow> pending_proposal" where
  "envelope_of w b e prior v base =
     \<lparr>pp_workflow = w, pp_bindings = b, pp_expires_at = e,
      pp_operation_receipts = prior @ [\<lparr>r_effect_id = ei_effect_id v, r_payload_digest = ei_payload_digest v\<rparr>],
      pp_base_state_digest = base\<rparr>"

lemma next_proposal_Inr:
  assumes U: "unicode_ok U" and e: "valid_datetime e" "tzinfo e = TimezoneUtc"
  shows "next_proposal U v b base e w prior = Inr (p, j) \<longleftrightarrow>
    p = envelope_of w b e prior v base \<and> proposal_ok U p \<and> (prior = [] \<or> receipts_ok prior) \<and> proposal_to_jsonb U p = Inr j"
  by (auto simp: next_proposal_def app_Inr build_proposal_iff [OF U e(1)] canonical_utc_utc [OF e(1,2)] envelope_of_def)

lemma written_hydrates:
  assumes U: "unicode_ok U" and e: "valid_datetime (pp_expires_at p)" and p: "proposal_ok U p"
    and j: "proposal_to_jsonb U p = Inr j" and same: "same_json x j"
  shows "hydrate_pending U x = Inr p"
proof -
  obtain s n c q st a where m: "pp_workflow p = minted s n c q st a" "wf_parts U s n c q st a"
    using p by (auto simp: proposal_ok_def workflow_ok_def)
  obtain w where w: "cell_report_workflow_payload U (pp_workflow p) = Inr w"
    using payload_minted [OF U m(2)] m(1) by auto
  have "j = PyDict (proposal_value p w)" using to_jsonb_ok [OF U e p w] j by simp
  then show ?thesis using rehydrate_same_proposal [OF U e p w] same by (simp add: hydrate_Inr)
qed

lemma confirmation_of_ok:
  assumes U: "unicode_ok U" and w: "workflow_ok U w"
  shows "\<exists>x. confirmation_for U w = Inr x"
    and "confirmation_for U w = Inr (Some cmd) \<longleftrightarrow> cell_report_confirmation_command U w = Inr cmd"
proof -
  obtain s n c p st a where m: "w = minted s n c p st a" "wf_parts U s n c p st a" using w by (auto simp: workflow_ok_def)
  have "is_complete c" if "st = AWAITING_CONFIRMATION" using m(2) that by (simp add: wf_parts_def awaiting_status)
  then show "\<exists>x. confirmation_for U w = Inr x"
    "confirmation_for U w = Inr (Some cmd) \<longleftrightarrow> cell_report_confirmation_command U w = Inr cmd"
    using U m by (auto simp: confirmation_for_def cell_report_confirmation_command_def validate_minted translated_def)
qed

section \<open>The decision\<close>

text \<open>
  What the column lets a proposal do: open a first report, replay the last operation, revise the
  live proposal of the same scope, or open a report of another scope over an expired one.
\<close>

inductive proposal_move ::
  "unicode_db \<Rightarrow> meeting \<Rightarrow> effect_intent \<Rightarrow> bindings \<Rightarrow> candidate \<Rightarrow> workflow \<Rightarrow> pystr \<Rightarrow> datetime \<Rightarrow> datetime \<Rightarrow> proposal_decision \<Rightarrow> bool"
  for U m v b patch w base n e where
  first: "m_relatorio_snapshot m = PyNone \<Longrightarrow> proposal_move U m v b patch w base n e (WriteNext w [])"
| replay: "pending_row U m b p \<Longrightarrow> live p n \<Longrightarrow> pp_base_state_digest p = base \<Longrightarrow>
    scope_digest (pp_workflow p) = scope_digest w \<Longrightarrow> instant (pp_expires_at p) = instant e \<Longrightarrow>
    last (pp_operation_receipts p) = \<lparr>r_effect_id = ei_effect_id v, r_payload_digest = ei_payload_digest v\<rparr> \<Longrightarrow>
    proposal_move U m v b patch w base n e (ReplayOf p)"
| revise: "pending_row U m b p \<Longrightarrow> live p n \<Longrightarrow> pp_base_state_digest p = base \<Longrightarrow>
    scope_digest (pp_workflow p) = scope_digest w \<Longrightarrow> instant (pp_expires_at p) = instant e \<Longrightarrow>
    ei_effect_id v \<notin> r_effect_id ` set (pp_operation_receipts p) \<Longrightarrow> length (pp_operation_receipts p) < MAX_OPERATION_RECEIPTS \<Longrightarrow>
    revise_cell_report_workflow U (pp_workflow p) (overlay_candidate patch (wf_candidate (pp_workflow p))) = Inr w' \<Longrightarrow>
    proposal_move U m v b patch w base n e (WriteNext w' (pp_operation_receipts p))"
| reopen: "hydrate_pending U (m_relatorio_snapshot m) = Inr p \<Longrightarrow> instant (pp_expires_at p) \<le> instant n \<Longrightarrow>
    ei_effect_id v \<notin> r_effect_id ` set (pp_operation_receipts p) \<Longrightarrow> scope_digest (pp_workflow p) \<noteq> scope_digest w \<Longrightarrow>
    proposal_move U m v b patch w base n e (WriteNext w [])"

inductive_cases proposal_moveE: "proposal_move U m v b patch w base n e dec"

lemma find_receipt_result:
  "find_receipt k rs v = Inr x \<longleftrightarrow>
     (x = None \<and> ei_effect_id v \<notin> r_effect_id ` set rs)
     \<or> (\<exists>i. x = Some (k + i) \<and> i < length rs \<and> rs ! i = \<lparr>r_effect_id = ei_effect_id v, r_payload_digest = ei_payload_digest v\<rparr>
          \<and> ei_effect_id v \<notin> r_effect_id ` set (take i rs))"
proof (induction rs arbitrary: k)
  case (Cons r rs)
  show ?case
  proof (cases "r_effect_id r = ei_effect_id v")
    case True
    then have "(\<exists>i. x = Some (k + i) \<and> i < length (r # rs) \<and> (r # rs) ! i = \<lparr>r_effect_id = ei_effect_id v, r_payload_digest = ei_payload_digest v\<rparr>
          \<and> ei_effect_id v \<notin> r_effect_id ` set (take i (r # rs)))
      \<longleftrightarrow> x = Some k \<and> r = \<lparr>r_effect_id = ei_effect_id v, r_payload_digest = ei_payload_digest v\<rparr>"
      by (auto simp: take_Cons' gr0_conv_Suc split: if_splits)
    then show ?thesis using True by (cases r) auto
  next
    case False
    then have f: "find_receipt k (r # rs) v = find_receipt (k + 1) rs v" by simp
    have "(\<exists>i. x = Some (k + i) \<and> i < length (r # rs) \<and> (r # rs) ! i = \<lparr>r_effect_id = ei_effect_id v, r_payload_digest = ei_payload_digest v\<rparr>
          \<and> ei_effect_id v \<notin> r_effect_id ` set (take i (r # rs)))
      \<longleftrightarrow> (\<exists>i. x = Some (k + 1 + i) \<and> i < length rs \<and> rs ! i = \<lparr>r_effect_id = ei_effect_id v, r_payload_digest = ei_payload_digest v\<rparr>
          \<and> ei_effect_id v \<notin> r_effect_id ` set (take i rs))" (is "(\<exists>i. ?p i) \<longleftrightarrow> (\<exists>i. ?q i)")
    proof
      assume "\<exists>i. ?p i"
      then obtain i where i: "?p i" by blast
      then obtain i' where "i = Suc i'" using False by (cases i) auto
      then show "\<exists>i. ?q i" using i False by auto
    next
      assume "\<exists>i. ?q i"
      then obtain i where "?q i" by blast
      then show "\<exists>i. ?p i" using False by (intro exI [of _ "Suc i"]) auto
    qed
    then show ?thesis unfolding f Cons.IH using False by auto
  qed
qed auto

lemma last_receipt:
  assumes "receipts_ok rs" "find_receipt 0 rs v = Inr (Some i)"
  shows "i = length rs - 1 \<longleftrightarrow> last rs = \<lparr>r_effect_id = ei_effect_id v, r_payload_digest = ei_payload_digest v\<rparr>"
proof -
  have i: "i < length rs" "rs ! i = \<lparr>r_effect_id = ei_effect_id v, r_payload_digest = ei_payload_digest v\<rparr>"
    using assms(2) by (auto simp: find_receipt_result)
  have l: "last rs = rs ! (length rs - 1)" using assms(1) by (simp add: receipts_ok_def last_conv_nth)
  show ?thesis
  proof
    assume "last rs = \<lparr>r_effect_id = ei_effect_id v, r_payload_digest = ei_payload_digest v\<rparr>"
    then have "map r_effect_id rs ! i = map r_effect_id rs ! (length rs - 1)" using i l by simp
    then show "i = length rs - 1"
      using assms(1) i(1) nth_eq_iff_index_eq [of "map r_effect_id rs"] by (simp add: receipts_ok_def)
  qed (use i l in simp)
qed

lemma decide_proposal_move:
  assumes U: "unicode_ok U" and b: "bindings_ok b" and base: "base_state_of U m = Inr base" and k: "candidate_ok U patch"
    and d: "decide_proposal U m v b patch w base n e = Inr dec"
  shows "proposal_move U m v b patch w base n e dec"
proof (cases "m_relatorio_snapshot m = PyNone")
  case True
  then show ?thesis using d first by (auto simp: decide_proposal_def)
next
  case False
  then obtain p where p: "hydrate_pending U (m_relatorio_snapshot m) = Inr p"
    using d by (auto simp: decide_proposal_def ebind_eq_Inr)
  note ok = hydrated_ok [OF U p]
  have rs: "receipts_ok (pp_operation_receipts p)" using ok by (simp add: proposal_ok_def)
  obtain x where x: "find_receipt 0 (pp_operation_receipts p) v = Inr x"
    using d p False by (auto simp: decide_proposal_def ebind_eq_Inr)
  obtain y where y: "proposal_expired p n = Inr y" using d p x False by (auto simp: decide_proposal_def ebind_eq_Inr)
  show ?thesis
  proof (cases y)
    case True
    then have "instant (pp_expires_at p) \<le> instant n"
      using y by (auto simp: proposal_expired_def Let_def split: if_splits)
    moreover have "x = None" "scope_digest (pp_workflow p) \<noteq> scope_digest w" "dec = WriteNext w []"
      using d p x y True False by (auto simp: decide_proposal_def split: if_splits)
    ultimately show ?thesis using p x reopen [OF p] by (auto simp: find_receipt_result)
  next
    case n: False
    then have live: "live p n" using y not_expired_iff by simp
    have m: "cell_report_proposal_bindings_match (pp_bindings p) b = Inr (pp_bindings p = b)"
      using ok b by (simp add: bindings_match_ok proposal_ok_def)
    have f: "pp_base_state_digest p = base" "pp_bindings p = b" "scope_digest (pp_workflow p) = scope_digest w"
        "instant (pp_expires_at p) = instant e"
      using d p x y n m False by (auto simp: decide_proposal_def uncaught_proposal_def split: if_splits)
    have row: "pending_row U m b p" using p f base by (simp add: pending_row_def)
    have merge: "merge_cell_report_candidates U (wf_candidate (pp_workflow p)) patch
        = Inr (overlay_candidate patch (wf_candidate (pp_workflow p)))"
      using merge_ok [OF U _ k] ok by (auto simp: proposal_ok_def workflow_ok_def wf_parts_def)
    show ?thesis
    proof (cases x)
      case None
      then show ?thesis
        using d p x y n m f False merge revise [OF row live f(1,3,4)]
        by (auto simp: decide_proposal_def app_Inr find_receipt_result split: if_splits)
    next
      case (Some i)
      then have "i = length (pp_operation_receipts p) - 1" "dec = ReplayOf p"
        using d p x y n m f False by (auto simp: decide_proposal_def uncaught_proposal_def split: if_splits)
      then show ?thesis using replay [OF row live f(1,3,4)] last_receipt [OF rs, of v i] x Some by simp
    qed
  qed
qed

lemma move_decides:
  assumes U: "unicode_ok U" and b: "bindings_ok b" and k: "candidate_ok U patch"
    and mv: "proposal_move U m v b patch w base n e dec"
  shows "decide_proposal U m v b patch w base n e = Inr dec"
  using mv
proof cases
  case first
  then show ?thesis by (simp add: decide_proposal_def)
next
  case (replay p)
  then have p: "hydrate_pending U (m_relatorio_snapshot m) = Inr p" "pp_bindings p = b" by (simp_all add: pending_row_def)
  note ok = hydrated_ok [OF U p(1)]
  have rs: "receipts_ok (pp_operation_receipts p)" using ok by (simp add: proposal_ok_def)
  have "m_relatorio_snapshot m \<noteq> PyNone" using p(1) by (auto simp: hydrate_pending_def)
  let ?rs = "pp_operation_receipts p"
  have ne: "?rs \<noteq> []" using rs by (simp add: receipts_ok_def)
  have "ei_effect_id v \<notin> r_effect_id ` set (take (length ?rs - 1) ?rs)"
  proof -
    have "distinct (map r_effect_id (butlast ?rs @ [last ?rs]))" using rs ne by (simp add: receipts_ok_def)
    then show ?thesis using replay(7) by (simp add: butlast_conv_take)
  qed
  then have x: "find_receipt 0 ?rs v = Inr (Some (length ?rs - 1))"
    using replay(7) ne by (simp add: find_receipt_result last_conv_nth)
  have y: "proposal_expired p n = Inr False" using replay(3) not_expired_iff by blast
  have m: "cell_report_proposal_bindings_match (pp_bindings p) b = Inr True"
    using ok b p(2) by (simp add: bindings_match_ok proposal_ok_def)
  show ?thesis
    using p x y m replay \<open>m_relatorio_snapshot m \<noteq> PyNone\<close> by (simp add: decide_proposal_def uncaught_proposal_def)
next
  case (revise p w')
  then have p: "hydrate_pending U (m_relatorio_snapshot m) = Inr p" "pp_bindings p = b" by (simp_all add: pending_row_def)
  note ok = hydrated_ok [OF U p(1)]
  have s: "m_relatorio_snapshot m \<noteq> PyNone" using p(1) by (auto simp: hydrate_pending_def)
  have x: "find_receipt 0 (pp_operation_receipts p) v = Inr None" using revise(7) by (simp add: find_receipt_result)
  have y: "proposal_expired p n = Inr False" using revise(3) not_expired_iff by blast
  have m: "cell_report_proposal_bindings_match (pp_bindings p) b = Inr True"
    using ok b p(2) by (simp add: bindings_match_ok proposal_ok_def)
  have "merge_cell_report_candidates U (wf_candidate (pp_workflow p)) patch
      = Inr (overlay_candidate patch (wf_candidate (pp_workflow p)))"
    using merge_ok [OF U _ k] ok by (auto simp: proposal_ok_def workflow_ok_def wf_parts_def)
  then show ?thesis
    using p x y m revise s by (simp add: decide_proposal_def uncaught_proposal_def translated_def)
next
  case (reopen p)
  have s: "m_relatorio_snapshot m \<noteq> PyNone" using reopen(2) by (auto simp: hydrate_pending_def)
  have x: "find_receipt 0 (pp_operation_receipts p) v = Inr None" using reopen(4) by (simp add: find_receipt_result)
  have y: "proposal_expired p n = Inr True"
    using reopen(3) by (simp add: proposal_expired_def Let_def MAX_CELL_REPORT_PROPOSAL_TTL_def)
  show ?thesis using reopen x y s by (simp add: decide_proposal_def)
qed

section \<open>A run, taken apart\<close>

definition written_row :: "app_env \<Rightarrow> meeting \<Rightarrow> py \<Rightarrow> datetime \<Rightarrow> meeting" where
  "written_row E m j n = stored_row E (m\<lparr>m_relatorio_snapshot := j, m_updated_at := Some n\<rparr>)"

lemma written_row_sel [simp]:
  "m_id (written_row E m j n) = m_id m" "m_igreja_id (written_row E m j n) = m_igreja_id m"
  "m_celula_id (written_row E m j n) = m_celula_id m" "m_status (written_row E m j n) = m_status m"
  "m_data (written_row E m j n) = m_data m" "m_hora (written_row E m j n) = m_hora m"
  "m_relatorio_status (written_row E m j n) = m_relatorio_status m"
  "m_oferta_valor (written_row E m j n) = m_oferta_valor m" "m_observacoes (written_row E m j n) = m_observacoes m"
  "m_relatorio_enviado_em (written_row E m j n) = m_relatorio_enviado_em m"
  "m_relatorio_enviado_por (written_row E m j n) = m_relatorio_enviado_por m"
  "m_relatorio_snapshot (written_row E m j n) = ev_jsonb E j"
  by (simp_all add: written_row_def stored_row_def)

lemma written_row_base [simp]: "base_state_of U (written_row E m j n) = base_state_of U m"
  by (simp add: base_state_of_def)

text \<open>What a decision does to the session: nothing, or the write of the next envelope.\<close>

lemma apply_decision_run:
  assumes U: "unicode_ok (ev_text E)" and e: "valid_datetime e" "tzinfo e = TimezoneUtc"
  shows "apply_decision E m v b base n e dec d = (Inr (p, rep), d') \<longleftrightarrow>
    (case dec of
       ReplayOf q \<Rightarrow> p = q \<and> rep \<and> d' = d
     | WriteNext w prior \<Rightarrow> \<not> rep \<and> p = envelope_of w b e prior v base \<and> proposal_ok (ev_text E) p
         \<and> (prior = [] \<or> receipts_ok prior)
         \<and> (\<exists>j. proposal_to_jsonb (ev_text E) p = Inr j
              \<and> \<not> pg_failed (db_pg d) \<and> \<not> ev_fault E d (FlushMeeting (m_id m))
              \<and> d' = d\<lparr>db_log := db_log d @ [FlushMeeting (m_id m)],
                       db_meetings := replaced (written_row E m j n) (db_meetings d)\<rparr>))"
  by (cases dec)
    (auto simp: apply_decision_def sbind_Inr app_run next_proposal_Inr [OF U e] flush_run written_row_def split: prod.splits)

lemma effect_tail: "last (pp_operation_receipts (envelope_of w b e prior v base)) = \<lparr>r_effect_id = ei_effect_id v, r_payload_digest = ei_payload_digest v\<rparr>"
  by (simp add: envelope_of_def)

lemma propose_legacy_run:
  assumes U: "unicode_ok (ev_text E)"
  shows "propose_cell_report_legacy E g r c a key t v msg now expires db = (Inr res, db') \<longleftrightarrow>
   (\<exists>n e b patch w m d base dec p rep cmd.
      proposal_arguments E g r c a key t v msg now expires = Inr (n, e, b, patch, w, v)
      \<and> pg_transaction (db_pg db) \<noteq> None
      \<and> load_and_authorize E g r c a n db = (Inr m, d)
      \<and> m_relatorio_status m = RELATORIO_PENDENTE
      \<and> base_state_of (ev_text E) m = Inr base
      \<and> proposal_move (ev_text E) m v b patch w base n e dec
      \<and> apply_decision E m v b base n e dec d = (Inr (p, rep), db')
      \<and> confirmation_for (ev_text E) (pp_workflow p) = Inr cmd
      \<and> res = \<lparr>pr_proposal = p, pr_confirmation_command = cmd, pr_replayed = rep\<rparr>)" (is "?l \<longleftrightarrow> (\<exists>n e b patch w m d base dec p rep cmd. ?r n e b patch w m d base dec p rep cmd)")
proof -
  have eq: "proposal_arguments E g r c a key t v msg now expires = Inr (n, e, b, patch, w, i) \<Longrightarrow>
      base_state_of (ev_text E) m = Inr base \<Longrightarrow>
      i = v \<and> (decide_proposal (ev_text E) m i b patch w base n e = Inr dec
        \<longleftrightarrow> proposal_move (ev_text E) m v b patch w base n e dec)" for n e b patch w i m base dec
    using decide_proposal_move [OF U, of b m base patch i w n e dec] move_decides [OF U, of b patch m i w base n e dec]
      parsed_ok [OF U, of "ev_re E" msg patch] derived_bindings_ok [of g r c a b]
    by (auto simp: proposal_arguments_Inr [OF U])
  show ?thesis
  proof
    assume ?l
    then obtain n e b patch w i m d base dec p rep cmd where h:
      "proposal_arguments E g r c a key t v msg now expires = Inr (n, e, b, patch, w, i)" "pg_transaction (db_pg db) \<noteq> None"
      "load_and_authorize E g r c a n db = (Inr m, d)" "m_relatorio_status m = RELATORIO_PENDENTE"
      "base_state_of (ev_text E) m = Inr base" "decide_proposal (ev_text E) m i b patch w base n e = Inr dec"
      "apply_decision E m i b base n e dec d = (Inr (p, rep), db')" "confirmation_for (ev_text E) (pp_workflow p) = Inr cmd"
      "res = \<lparr>pr_proposal = p, pr_confirmation_command = cmd, pr_replayed = rep\<rparr>" unfolding propose_run by blast
    have i: "i = v" using eq [OF h(1,5)] by blast
    have "?r n e b patch w m d base dec p rep cmd" using h [unfolded i] eq [OF h(1,5) [unfolded i], of dec] by blast
    then show "\<exists>n e b patch w m d base dec p rep cmd. ?r n e b patch w m d base dec p rep cmd" by blast
  next
    assume "\<exists>n e b patch w m d base dec p rep cmd. ?r n e b patch w m d base dec p rep cmd"
    then obtain n e b patch w m d base dec p rep cmd where h: "?r n e b patch w m d base dec p rep cmd" by blast
    then have "decide_proposal (ev_text E) m v b patch w base n e = Inr dec" using eq [of n e b patch w v m base dec] by blast
    with h show ?l unfolding propose_run by blast
  qed
qed

text \<open>What a successful proposal says of the row it leaves, replayed or written.\<close>

definition proposed :: "app_env \<Rightarrow> bindings \<Rightarrow> workflow \<Rightarrow> datetime \<Rightarrow> datetime \<Rightarrow> effect_intent \<Rightarrow> meeting \<Rightarrow> pending_proposal \<Rightarrow> bool" where
  "proposed E b w n e v m p \<longleftrightarrow>
     m_relatorio_status m = RELATORIO_PENDENTE \<and> pending_row (ev_text E) m b p \<and> live p n
     \<and> instant (pp_expires_at p) = instant e \<and> scope_digest (pp_workflow p) = scope_digest w
     \<and> last (pp_operation_receipts p) = \<lparr>r_effect_id = ei_effect_id v, r_payload_digest = ei_payload_digest v\<rparr>"

lemma revised_scope:
  assumes "unicode_ok U" "workflow_ok U w" "candidate_ok U k" "revise_cell_report_workflow U w k = Inr w'"
  shows "scope_digest w' = scope_digest w"
proof -
  obtain s n c p st a where "w = minted s n c p st a" "wf_parts U s n c p st a" using assms(2) by (auto simp: workflow_ok_def)
  then show ?thesis using revise_minted [OF assms(1) _ assms(3)] assms(4) by (auto split: if_splits)
qed

lemma written_scope:
  assumes U: "unicode_ok U" and k: "candidate_ok U patch" and mv: "proposal_move U m v b patch w base n e (WriteNext w' prior)"
  shows "scope_digest w' = scope_digest w"
  using mv
proof cases
  case (revise p)
  then have "proposal_ok U p" using hydrated_ok [OF U, of "m_relatorio_snapshot m"] by (simp add: pending_row_def)
  then have w: "workflow_ok U (pp_workflow p)" by (simp add: proposal_ok_def)
  then have "candidate_ok U (overlay_candidate patch (wf_candidate (pp_workflow p)))"
    using overlay_candidate_ok [OF k] by (auto simp: workflow_ok_def wf_parts_def)
  then show ?thesis using revised_scope [OF U w] revise by simp
qed simp_all

lemma proposal_leaves:
  assumes U: "unicode_ok (ev_text E)" and x: "valid_datetime expires" and j: "\<And>y. same_json (ev_jsonb E y) y"
    and run: "propose_cell_report_legacy E g r c a key t v msg now expires db = (Inr res, db')"
  obtains n e b patch w where "proposal_arguments E g r c a key t v msg now expires = Inr (n, e, b, patch, w, v)"
    "confirmation_for (ev_text E) (pp_workflow (pr_proposal res)) = Inr (pr_confirmation_command res)"
    "\<And>db2 n2 m2. meeting_rows db2 g r = meeting_rows db' g r \<Longrightarrow> authorized E db2 g r c a n2 m2 \<Longrightarrow> proposed E b w n e v m2 (pr_proposal res)"
proof -
  let ?U = "ev_text E"
  obtain n e b patch w m d base dec p rep cmd where h:
      "proposal_arguments E g r c a key t v msg now expires = Inr (n, e, b, patch, w, v)"
      "load_and_authorize E g r c a n db = (Inr m, d)" "m_relatorio_status m = RELATORIO_PENDENTE"
      "base_state_of ?U m = Inr base" "proposal_move ?U m v b patch w base n e dec"
      "apply_decision E m v b base n e dec d = (Inr (p, rep), db')" "confirmation_for ?U (pp_workflow p) = Inr cmd"
      "res = \<lparr>pr_proposal = p, pr_confirmation_command = cmd, pr_replayed = rep\<rparr>"
    using propose_legacy_run [OF U, of g r c a key t v msg now expires db res db'] run by blast
  note args = h(1) [unfolded proposal_arguments_Inr [OF U]]
  have k: "candidate_ok ?U patch" using args parsed_ok [OF U] by blast
  have e: "valid_datetime e" "tzinfo e = TimezoneUtc" using canonical_utc_Inr [OF x] args by blast+
  note au = authorize_sound [OF h(2)]
  have mr: "meeting_row db g r m" using au by (simp add: authorized_def)
  note ap = h(6) [unfolded apply_decision_run [OF U e]]
  have "proposed E b w n e v m2 p" if t: "meeting_rows db2 g r = meeting_rows db' g r" and a2: "authorized E db2 g r c a n2 m2" for db2 n2 m2
  proof (cases dec)
    case (ReplayOf q)
    have "meeting_rows db2 g r = meeting_rows db g r"
      using rows_tables [of db' db] t ap au ReplayOf by (simp add: tables_def)
    then have "m2 = m" using a2 mr by (simp add: authorized_def meeting_row_def)
    moreover have "q = p" using ap ReplayOf by simp
    ultimately show ?thesis using h(5) ReplayOf h(3) by (auto simp: proposed_def elim: proposal_moveE)
  next
    case (WriteNext w' prior)
    then obtain j' where w: "p = envelope_of w' b e prior v base" "proposal_ok ?U p" "proposal_to_jsonb ?U p = Inr j'"
        "db_meetings db' = replaced (written_row E m j' n) (db_meetings db)" using ap au by auto
    have "m2 \<in> set (replaced (written_row E m j' n) (db_meetings db))" "m_id m2 = r"
      using left_row [OF t a2] w(4) by simp_all
    then have m2: "m2 = written_row E m j' n" using replaced_rows [of m2] meeting_row_id [OF mr] by fastforce
    have hy: "hydrate_pending ?U (ev_jsonb E j') = Inr p"
      using written_hydrates [OF U _ w(2,3) j] e(1) w(1) by (simp add: envelope_of_def)
    have "scope_digest w' = scope_digest w" using written_scope [OF U k] h(5) WriteNext by blast
    then show ?thesis
      using m2 hy h(3,4) w(1) args effect_tail [of w' b e prior v base]
      by (auto simp: proposed_def pending_row_def live_def envelope_of_def)
  qed
  with that h show thesis by simp
qed

section \<open>A sample run\<close>

lemma sample_expiry_length: "length (render_instant sample_expiry) \<le> 200"
  by (simp add: render_instant_def sample_expiry_def length_zero_pad)

lemma proposal_payload_digests:
  assumes b: "bindings_ok b" and s: "prefixed_hex64 scope_prefix s" and e: "prefixed_hex64 effect_id_prefix i"
    and x: "length (render_instant x) \<le> 200"
  shows "\<exists>d. digest_effect_payload i TOOL_CALL (proposal_effect_payload (PyDict (bindings_json b)) (PyStr s)
      (PyDict (candidate_payload sample_parsed)) x) = Inr d"
proof -
  define z where "z = render_instant x"
  let ?p = "proposal_effect_payload (PyDict (bindings_json b)) (PyStr s) (PyDict (candidate_payload sample_parsed)) x"
  have st: "(\<forall>c \<in> set (b_tenant b). c < 128) \<and> length (b_tenant b) \<le> 200"
    "(\<forall>c \<in> set (b_meeting b). c < 128) \<and> length (b_meeting b) \<le> 200"
    "(\<forall>c \<in> set (b_conversation b). c < 128) \<and> length (b_conversation b) \<le> 200"
    "(\<forall>c \<in> set (b_actor b). c < 128) \<and> length (b_actor b) \<le> 200"
    using b binding_short unfolding bindings_ok_def by blast+
  have sc: "(\<forall>c \<in> set s. c < 128) \<and> length s \<le> 200"
    using prefixed_hex64_ascii [OF _ s] prefixed_hex64_length [OF s] by (simp add: scope_prefix_def u_def)
  have zt: "(\<forall>c \<in> set z. c < 128) \<and> length z \<le> 200"
    using render_instant_ascii [of x] x by (simp add: z_def)
  have ok: "json_value_ok ?p"
    using st sc zt ascii_json_string
    by (simp add: json_value_ok_def proposal_effect_payload_def proposal_effect_schema_def bindings_json_def z_def
        candidate_payload_def sample_parsed_def py_of_int_def py_of_str_def MAX_CANONICAL_INTEGER_def
        MAX_CANONICAL_JSON_DEPTH_def MAX_CANONICAL_JSON_NODES_def MAX_CANONICAL_STRING_BYTES_def u_def ascii_json_string)
  obtain bs where bs: "utf8_encode (jtext (sort_keys ?p)) = Some bs" using validated_encodable [OF ok] by blast
  have "length (jtext (sort_keys ?p)) \<le> 16000"
    using length_jquote [of "b_tenant b"] length_jquote [of "b_meeting b"] length_jquote [of "b_conversation b"]
      length_jquote [of "b_actor b"] length_jquote [of s] length_jquote [of z] st sc zt
      digits_of_nat_bound [of 5 1]
    by (simp add: proposal_effect_payload_def proposal_effect_schema_def bindings_json_def z_def candidate_payload_def
        sample_parsed_def py_of_int_def py_of_str_def u_def)
      (simp add: jquote_def jchar_def str_of_int_def u_def)
  then have "length bs \<le> MAX_CANONICAL_JSON_BYTES" using utf8_encode_length [OF bs] by (simp add: MAX_CANONICAL_JSON_BYTES_def)
  then show ?thesis using ok bs e by (simp add: digest_payload_result canonical_json_iff)
qed

text \<open>The message corrects the number present in a stored complete report.\<close>

lemma sample_call_id:
  assumes "effect_for ascii_db sample_identity 1 2 payload v"
  shows "ei_effect_id v = derive_effect_id (ti_turn_id sample_identity) Slot_TOOL_CALL (ei_ordinal v)"
  using assms by (simp add: effect_for_def intent_ok_def)

text \<open>The identifiers of the stored operation and of the first two calls of the sample turn differ.\<close>

lemma sample_ids_differ:
  "sample_effect \<noteq> derive_effect_id (ti_turn_id sample_identity) Slot_TOOL_CALL 0"
  "sample_effect \<noteq> derive_effect_id (ti_turn_id sample_identity) Slot_TOOL_CALL 1"
  "derive_effect_id (ti_turn_id sample_identity) Slot_TOOL_CALL 0 \<noteq> derive_effect_id (ti_turn_id sample_identity) Slot_TOOL_CALL 1"
proof -
  have "last sample_effect = 97" by (simp add: sample_effect_def)
  moreover have "last (derive_effect_id (ti_turn_id sample_identity) Slot_TOOL_CALL 0) = 102"
    "last (derive_effect_id (ti_turn_id sample_identity) Slot_TOOL_CALL 1) = 100"
    by (simp_all only: sample_effect_ids(1,2)) (simp_all add: u_def)
  ultimately show "sample_effect \<noteq> derive_effect_id (ti_turn_id sample_identity) Slot_TOOL_CALL 0"
    "sample_effect \<noteq> derive_effect_id (ti_turn_id sample_identity) Slot_TOOL_CALL 1"
    "derive_effect_id (ti_turn_id sample_identity) Slot_TOOL_CALL 0 \<noteq> derive_effect_id (ti_turn_id sample_identity) Slot_TOOL_CALL 1"
    by (auto dest: arg_cong [where f = last])
qed

lemma sample_revision:
  obtains v j b w base w' prior where
    "proposal_arguments sample_env 1 5 2 4 sample_scope sample_identity v (PyStr sample_text) app_now sample_expiry
       = Inr (app_now, sample_expiry, b, sample_parsed, w, v)"
    "\<And>j. base_state_of ascii_db (sample_meeting j) = Inr base"
    "proposal_move ascii_db (sample_meeting j) v b sample_parsed w base app_now sample_expiry (WriteNext w' prior)"
    "proposal_ok ascii_db (envelope_of w' b sample_expiry prior v base)" "receipts_ok prior"
    "state w' = AWAITING_CONFIRMATION" "r_effect_id ` set prior = {sample_effect}" "ei_ordinal v = 0"
    "effect_for ascii_db sample_identity 1 2 (proposal_effect_payload (PyDict (bindings_json b)) (scope_digest w)
       (PyDict (candidate_payload sample_parsed)) sample_expiry) v"
proof -
  have "prefixed_hex64 scope_prefix sample_scope" using sample_parts by (simp add: wf_parts_def)
  then obtain s where s: "derive_scope_digest (PyStr sample_scope) = Inr s" using derive_scope_digest_ok by blast
  have sp: "prefixed_hex64 scope_prefix s" by (rule scope_digest_result [OF s])
  have pk: "candidate_ok ascii_db sample_parsed" using parsed_ok [OF ascii_db_ok sample_parse] .
  let ?w = "minted s 1 sample_parsed None (open_state sample_parsed) None"
  have w: "start_cell_report_workflow ascii_db (PyStr sample_scope) (Some sample_parsed) = Inr ?w"
    using s pk validate_candidate_ok [OF ascii_db_ok pk] ascii_db_ok by (simp add: start_cell_report_workflow_def)
  obtain b where b: "derive_cell_report_proposal_bindings 1 5 2 4 = Inr b" by (simp add: derived_bindings)
  obtain v where v: "effect_for ascii_db sample_identity 1 2 (proposal_effect_payload (PyDict (bindings_json b)) (PyStr s)
      (PyDict (candidate_payload sample_parsed)) sample_expiry) v" and o: "ei_ordinal v = 0"
    using proposal_payload_digests [OF derived_bindings_ok [OF b] sp derived_shapes(2) sample_expiry_length] sample_effect_for by blast
  have args: "proposal_arguments sample_env 1 5 2 4 sample_scope sample_identity v (PyStr sample_text) app_now sample_expiry
      = Inr (app_now, sample_expiry, b, sample_parsed, ?w, v)"
    using app_now_utc canonical_utc_same [OF sample_expiry_valid] sample_app_now_live [of ?w b "[]" "[]"] sample_parse w b v
    by (simp add: proposal_arguments_Inr live_def stored_proposal_def ascii_db_ok)
      (simp add: sample_expiry_def sample_parsed_def is_empty_def)
  let ?eff = sample_effect
  have eff: "prefixed_hex64 effect_id_prefix ?eff" "?eff \<noteq> ei_effect_id v"
    using sample_ids(1) sample_call_id [OF v] o sample_ids_differ by simp_all
  obtain base where base: "\<And>j. base_state_of ascii_db (sample_meeting j) = Inr base" "prefixed_hex64 base_digest_prefix base"
    by (rule sample_base_state) blast
  have parts: "wf_parts ascii_db s 1 sample_candidate None AWAITING_CONFIRMATION None"
    using sample_parts sp by (simp add: wf_parts_def awaiting_status)
  let ?q = "stored_proposal (minted s 1 sample_candidate None AWAITING_CONFIRMATION None) b base ?eff"
  obtain j where row: "pending_row ascii_db (sample_meeting j) b ?q"
    using stored_row_pending [OF derived_bindings_ok [OF b] base eff(1) parts] .
  let ?k = "overlay_candidate sample_parsed sample_candidate"
  have k: "candidate_ok ascii_db ?k" "is_complete ?k"
    using overlay_candidate_ok [OF pk sample_candidates_ok(1)] sample_complete
    by (simp_all add: is_complete_iff overlay_candidate_def overlay_def split: option.splits)
  define w' where "w' = minted s 2 ?k (Some (proposal_of s 1 sample_candidate None)) (open_state ?k) None"
  have rev: "revise_cell_report_workflow ascii_db (minted s 1 sample_candidate None AWAITING_CONFIRMATION None) ?k = Inr w'"
    using revise_minted [OF ascii_db_ok parts k(1)] by (simp add: REVISION_ALLOWED_REPORT_STATES_def report_limits w'_def)
  have mv: "proposal_move ascii_db (sample_meeting j) v b sample_parsed ?w base app_now sample_expiry (WriteNext w' (pp_operation_receipts ?q))"
    by (rule proposal_move.revise [OF row sample_app_now_live])
      (use eff rev in \<open>simp_all add: stored_proposal_def MAX_OPERATION_RECEIPTS_def\<close>)
  let ?p = "envelope_of w' b sample_expiry (pp_operation_receipts ?q) v base"
  have p: "proposal_ok ascii_db ?p"
    using eff derived_bindings_ok [OF b] base(2) sample_ids effect_shapes [OF v] k(2)
      minted_okI [OF revised_parts [OF parts k(1)] refl]
    by (simp add: proposal_ok_def envelope_of_def stored_proposal_def w'_def receipts_ok_def receipt_ok_def report_limits
        MAX_OPERATION_RECEIPTS_def sample_expiry_def open_state_awaiting [THEN iffD2])
  have "receipts_ok (pp_operation_receipts ?q)" using stored_proposal_ok [OF derived_bindings_ok [OF b] base(2) eff(1) parts]
    by (simp add: proposal_ok_def)
  moreover have "state w' = AWAITING_CONFIRMATION" using k(2) by (simp add: w'_def)
  moreover have "r_effect_id ` set (pp_operation_receipts ?q) = {sample_effect}" by (simp add: stored_proposal_def)
  ultimately show thesis using that [OF args base(1) mv p] v o by simp
qed

lemma sample_propose:
  obtains v j res db' row cmd where
    "propose_cell_report_legacy sample_env 1 5 2 4 sample_scope sample_identity v (PyStr sample_text) app_now sample_expiry
       (sample_db (sample_meeting j)) = (Inr res, db')"
    "pr_confirmation_command res = Some cmd" "live (pr_proposal res) app_now"
    "meeting_rows (sample_db row) 1 5 = meeting_rows db' 1 5" "authorized sample_env (sample_db row) 1 5 2 4 app_now row"
    "r_effect_id ` set (pp_operation_receipts (pr_proposal res))
       = {sample_effect, derive_effect_id (ti_turn_id sample_identity) Slot_TOOL_CALL 0}"
proof -
  obtain v j b w base w' prior where h:
    "proposal_arguments sample_env 1 5 2 4 sample_scope sample_identity v (PyStr sample_text) app_now sample_expiry
       = Inr (app_now, sample_expiry, b, sample_parsed, w, v)"
    "\<And>j. base_state_of ascii_db (sample_meeting j) = Inr base"
    "proposal_move ascii_db (sample_meeting j) v b sample_parsed w base app_now sample_expiry (WriteNext w' prior)"
    "proposal_ok ascii_db (envelope_of w' b sample_expiry prior v base)" "receipts_ok prior"
    "state w' = AWAITING_CONFIRMATION" "r_effect_id ` set prior = {sample_effect}" "ei_ordinal v = 0"
    "effect_for ascii_db sample_identity 1 2 (proposal_effect_payload (PyDict (bindings_json b)) (scope_digest w)
       (PyDict (candidate_payload sample_parsed)) sample_expiry) v" by (rule sample_revision) blast
  let ?m = "sample_meeting j" and ?db = "sample_db (sample_meeting j)" and ?p = "envelope_of w' b sample_expiry prior v base"
  let ?d = "?db\<lparr>db_log := authorization_locks ?db 1 2 4 ?m\<rparr>"
  have au: "load_and_authorize sample_env 1 5 2 4 app_now ?db = (Inr ?m, ?d)"
    using authorize_complete [OF sample_authorized sample_faultless, of ?m] by (simp add: sample_db_def)
  have w': "workflow_ok ascii_db w'" using h(4) by (simp add: proposal_ok_def envelope_of_def)
  obtain x where x: "confirmation_for ascii_db w' = Inr x" using confirmation_of_ok(1) [OF ascii_db_ok w'] by blast
  obtain cmd where cmd: "x = Some cmd" using x h(6) by (auto simp: confirmation_for_def app_Inr)
  obtain wj where wj: "cell_report_workflow_payload ascii_db w' = Inr wj"
    using w' payload_minted [OF ascii_db_ok] by (auto simp: workflow_ok_def)
  have pj: "proposal_to_jsonb ascii_db ?p = Inr (PyDict (proposal_value ?p wj))"
    by (rule to_jsonb_ok [OF ascii_db_ok _ h(4)]) (use sample_expiry_valid wj in \<open>simp_all add: envelope_of_def\<close>)
  have ap: "\<exists>d'. apply_decision sample_env ?m v b base app_now sample_expiry (WriteNext w' prior) ?d = (Inr (?p, False), d')
      \<and> tables d' = tables (sample_db (written_row sample_env ?m (PyDict (proposal_value ?p wj)) app_now))"
  proof -
    have "tzinfo sample_expiry = TimezoneUtc" by (simp add: sample_expiry_def)
    from apply_decision_run [OF _ sample_expiry_valid this, of sample_env] show ?thesis
      using h(4,5) pj ascii_db_ok by (simp add: sample_db_def sample_pg_def tables_def replaced_def)
  qed
  then obtain d' where ap: "apply_decision sample_env ?m v b base app_now sample_expiry (WriteNext w' prior) ?d = (Inr (?p, False), d')"
      "tables d' = tables (sample_db (written_row sample_env ?m (PyDict (proposal_value ?p wj)) app_now))" by blast
  let ?res = "\<lparr>pr_proposal = ?p, pr_confirmation_command = Some cmd, pr_replayed = False\<rparr>"
  have "propose_cell_report_legacy sample_env 1 5 2 4 sample_scope sample_identity v (PyStr sample_text) app_now sample_expiry ?db
      = (Inr ?res, d')"
    unfolding propose_legacy_run [of sample_env, simplified, OF ascii_db_ok]
    using h(1-3) au ap(1) x cmd
    by (intro exI conjI) (auto simp: sample_db_def sample_pg_def sample_meeting_def envelope_of_def)
  moreover have "sample_row (written_row sample_env ?m y app_now)" for y
    by (simp add: sample_row_def) (simp add: sample_meeting_def)
  moreover have "live ?p app_now" using sample_app_now_live by (simp add: live_def envelope_of_def stored_proposal_def)
  moreover have "r_effect_id ` set (pp_operation_receipts ?p)
      = {sample_effect, derive_effect_id (ti_turn_id sample_identity) Slot_TOOL_CALL 0}"
    using h(7,8) sample_call_id [OF h(9)] by (auto simp: envelope_of_def)
  ultimately show thesis using that [OF _ _ _ tables_rows [OF ap(2) [symmetric]] sample_authorized] by simp
qed

section \<open>Properties\<close>

text \<open>
  C7. What a proposal may do with the stored one is exactly four moves.  The decision of an
  operation on an authorised pending meeting succeeds only along, and always along, a move: open
  the first report of an empty column; replay the last operation of a live proposal of the same
  scope, expiry, bindings and base state; revise that proposal by the message, when the operation
  is new and fewer than 32 came before; or open a report of another scope over an expired one.
\<close>

theorem proposal_decision_exact:
  assumes "unicode_ok U" "derive_cell_report_proposal_bindings g r c a = Inr b" "base_state_of U m = Inr base"
    and "parse_cell_report_candidate U R msg = Inr patch"
  shows "decide_proposal U m v b patch w base n e = Inr dec \<longleftrightarrow> proposal_move U m v b patch w base n e dec"
  using decide_proposal_move [OF assms(1) derived_bindings_ok [OF assms(2)] assms(3) parsed_ok [OF assms(1,4)]]
    move_decides [OF assms(1) derived_bindings_ok [OF assms(2)] parsed_ok [OF assms(1,4)]] by blast

theorem proposal_decision_exact_witness:
  "\<exists>b base. derive_cell_report_proposal_bindings 1 5 2 4 = Inr b \<and> base_state_of ascii_db (sample_meeting PyNone) = Inr base
     \<and> (\<forall>v w n e. decide_proposal ascii_db (sample_meeting PyNone) v b sample_parsed w base n e = Inr (WriteNext w []))"
proof -
  obtain b where b: "derive_cell_report_proposal_bindings 1 5 2 4 = Inr b" by (simp add: derived_bindings)
  obtain base where base: "\<And>j. base_state_of ascii_db (sample_meeting j) = Inr base" by (rule sample_base_state) blast
  have "proposal_move ascii_db (sample_meeting PyNone) v b sample_parsed w base n e (WriteNext w [])" for v w n e
    by (rule proposal_move.first) (simp add: sample_meeting_def)
  with proposal_decision_exact [OF ascii_db_ok b base sample_parse] b base show ?thesis by blast
qed

text \<open>
  C22. A proposal can be repeated while it lives and is not superseded.  In a later session that finds the
  meeting's row as the first run left it, whatever else changed, that is in a transaction of the church in
  which no statement fails, whose actor still passes the checks under locks, and that runs before the
  expiry, the same message of the same turn with the same expiry is answered with the same proposal
  and command, marked as replayed, and the session only takes the locks of the checks.
\<close>

theorem proposal_replays:
  assumes U: "unicode_ok (ev_text E)" and x: "valid_datetime expires" and j: "\<And>y. same_json (ev_jsonb E y) y"
    and run: "propose_cell_report_legacy E g r c a key t v msg now expires db = (Inr res, db')"
    and later: "meeting_rows db2 g r = meeting_rows db' g r" "faultless E db2" "pg_transaction (db_pg db2) \<noteq> None"
      "canonical_utc now2 = Inr n2" "authorized E db2 g r c a n2 m2" "live (pr_proposal res) n2"
  shows "propose_cell_report_legacy E g r c a key t v msg now2 expires db2
     = (Inr (res\<lparr>pr_replayed := True\<rparr>), db2\<lparr>db_log := db_log db2 @ authorization_locks db2 g c a m2\<rparr>)"
proof -
  obtain n e b patch w where h: "proposal_arguments E g r c a key t v msg now expires = Inr (n, e, b, patch, w, v)"
    "confirmation_for (ev_text E) (pp_workflow (pr_proposal res)) = Inr (pr_confirmation_command res)"
    "proposed E b w n e v m2 (pr_proposal res)"
    by (rule proposal_leaves [OF U x j run]) (use later(1,5) in blast)
  note p = h(3) [unfolded proposed_def]
  have e: "valid_datetime e" "tzinfo e = TimezoneUtc"
    using canonical_utc_Inr [OF x] h(1) by (auto simp: proposal_arguments_Inr [OF U])
  let ?base = "pp_base_state_digest (pr_proposal res)" and ?d = "db2\<lparr>db_log := db_log db2 @ authorization_locks db2 g c a m2\<rparr>"
  have "proposal_arguments E g r c a key t v msg now2 expires = Inr (n2, e, b, patch, w, v)"
    using h(1) later(4,6) p by (auto simp: proposal_arguments_Inr [OF U] live_def)
  moreover have "proposal_move (ev_text E) m2 v b patch w ?base n2 e (ReplayOf (pr_proposal res))"
    by (rule proposal_move.replay) (use p later(6) in auto)
  moreover have "apply_decision E m2 v b ?base n2 e (ReplayOf (pr_proposal res)) ?d = (Inr (pr_proposal res, True), ?d)"
    by (simp add: apply_decision_run [OF U e])
  moreover have "base_state_of (ev_text E) m2 = Inr ?base" using p by (simp add: pending_row_def)
  ultimately have "propose_cell_report_legacy E g r c a key t v msg now2 expires db2
      = (Inr \<lparr>pr_proposal = pr_proposal res, pr_confirmation_command = pr_confirmation_command res, pr_replayed = True\<rparr>, ?d)"
    unfolding propose_legacy_run [OF U] using later(3) authorize_complete [OF later(5,2)] p h(2)
    by (intro exI [of _ n2] exI [of _ e] exI [of _ b] exI [of _ patch] exI [of _ w] exI [of _ m2] exI [of _ ?d]
        exI [of _ ?base] exI [of _ "ReplayOf (pr_proposal res)"] exI [of _ "pr_proposal res"] exI [of _ True]
        exI [of _ "pr_confirmation_command res"]) simp
  then show ?thesis by simp
qed

theorem proposal_replays_witness:
  "\<exists>v j res db' row d. propose_cell_report_legacy sample_env 1 5 2 4 sample_scope sample_identity v (PyStr sample_text)
       app_now sample_expiry (sample_db (sample_meeting j)) = (Inr res, db')
     \<and> propose_cell_report_legacy sample_env 1 5 2 4 sample_scope sample_identity v (PyStr sample_text)
         app_now sample_expiry (sample_db row) = (Inr (res\<lparr>pr_replayed := True\<rparr>), d)"
proof -
  obtain v j res db' row where h: "propose_cell_report_legacy sample_env 1 5 2 4 sample_scope sample_identity v (PyStr sample_text)
      app_now sample_expiry (sample_db (sample_meeting j)) = (Inr res, db')" "live (pr_proposal res) app_now"
    "meeting_rows (sample_db row) 1 5 = meeting_rows db' 1 5" "authorized sample_env (sample_db row) 1 5 2 4 app_now row"
    by (rule sample_propose)
  have "pg_transaction (db_pg (sample_db row)) \<noteq> None" by (simp add: sample_db_def sample_pg_def)
  from proposal_replays [OF _ sample_expiry_valid _ h(1,3) sample_faultless this app_now_utc(1) h(4,2)] h(1)
  show ?thesis using ascii_db_ok same_json_refl by (simp only: sample_env_sel simp_thms) blast
qed

text \<open>A confirmation under the identifier of an operation that is already in the proposal.\<close>

lemma confirm_conflict:
  assumes U: "unicode_ok (ev_text E)" and t: "pg_transaction (db_pg db) \<noteq> None"
    and a: "confirmation_arguments E g r c a command t v now = Inr (n, b, v)" and l: "load_and_authorize E g r c a n db = (Inr m, d)"
    and s: "m_relatorio_status m = RELATORIO_PENDENTE" and p: "pending_row (ev_text E) m b p" "live p n"
    and i: "ei_effect_id v \<in> r_effect_id ` set (pp_operation_receipts p)"
  shows "confirm_cell_report E g r c a command t v now False db = (Inl IDEMPOTENCY_CONFLICT, d)"
proof -
  have h: "hydrate_pending (ev_text E) (m_relatorio_snapshot m) = Inr p" "pp_bindings p = b" using p(1) by (simp_all add: pending_row_def)
  have "cell_report_proposal_bindings_match (pp_bindings p) b = Inr True"
    using hydrated_ok [OF U h(1)] h(2) by (simp add: bindings_match_ok proposal_ok_def)
  moreover have "list_ex (\<lambda>q. r_effect_id q = ei_effect_id v) (pp_operation_receipts p)" using i by (auto simp: list_ex_iff)
  moreover have "proposal_expired p n = Inr False" using p(2) not_expired_iff by blast
  ultimately have "accept_confirmation (ev_text E) m v b command n = Inl IDEMPOTENCY_CONFLICT"
    using h by (simp add: accept_confirmation_def uncaught_proposal_def)
  moreover have "RELATORIO_PENDENTE \<noteq> RELATORIO_ENVIADO" by (simp add: RELATORIO_PENDENTE_def RELATORIO_ENVIADO_def u_def)
  moreover obtain tx where "app_external_transaction db = (Inr tx, db)"
    using t by (auto simp: app_external_transaction_def)
  ultimately show ?thesis
    using a l s by (simp add: confirm_cell_report_def sbind_run from_result_def Let_def)
qed

text \<open>
  C5. What is proposed can be confirmed, until it is superseded.  When a proposal is answered with a
  confirmation command, take a later session that finds the meeting's row as that run left it, whatever
  else changed, that is in a transaction of the church in which no statement fails, whose actor still
  passes the checks under locks, and that runs before the expiry; and an intent minted for the
  confirmation with that command.  If the identifier of the intent is that of an operation recorded
  in the proposal, the confirmation is refused as a conflict and only takes locks.  Otherwise it
  succeeds: it answers the snapshot of the candidate of that very proposal and its accepted workflow, and
  the session is left with the locks, one flush, and the sent report of that candidate in the row of
  the meeting, all else as it was.
\<close>

theorem proposal_confirmable:
  assumes U: "unicode_ok (ev_text E)" and x: "valid_datetime expires" and j: "\<And>y. same_json (ev_jsonb E y) y"
    and run: "propose_cell_report_legacy E g r c a key t v msg now expires db = (Inr res, db')"
    and cmd: "pr_confirmation_command res = Some cmd"
    and intent: "build_cell_report_confirmation_effect_payload g r c a (PyStr cmd) = Inr payload"
      "validate_trusted_effect (ev_text E) t2 v2 g c payload = Inr v2"
    and later: "meeting_rows db2 g r = meeting_rows db' g r" "faultless E db2" "pg_transaction (db_pg db2) \<noteq> None"
      "canonical_utc now2 = Inr n2" "authorized E db2 g r c a n2 m2" "live (pr_proposal res) n2"
  shows "confirm_cell_report E g r c a (PyStr cmd) t2 v2 now2 False db2 =
     (if ei_effect_id v2 \<in> r_effect_id ` set (pp_operation_receipts (pr_proposal res))
      then (Inl IDEMPOTENCY_CONFLICT, db2\<lparr>db_log := db_log db2 @ authorization_locks db2 g c a m2\<rparr>)
      else (Inr \<lparr>cr_snapshot = report_value (wf_candidate (pp_workflow (pr_proposal res))) (ei_effect_id v2) (ei_payload_digest v2),
                 cr_accepted_workflow = Some (accept_workflow (pp_workflow (pr_proposal res))), cr_replayed = False,
                 cr_requires_caller_commit = True\<rparr>,
            db2\<lparr>db_log := db_log db2 @ authorization_locks db2 g c a m2 @ [FlushMeeting r],
                db_meetings := replaced (stored_row E (report_row (ev_text E) m2 (wf_candidate (pp_workflow (pr_proposal res))) v2 a n2))
                  (db_meetings db2)\<rparr>))"
proof -
  obtain n e b patch w where h: "proposal_arguments E g r c a key t v msg now expires = Inr (n, e, b, patch, w, v)"
    "confirmation_for (ev_text E) (pp_workflow (pr_proposal res)) = Inr (pr_confirmation_command res)"
    "proposed E b w n e v m2 (pr_proposal res)"
    by (rule proposal_leaves [OF U x j run]) (use later(1,5) in blast)
  note p = h(3) [unfolded proposed_def]
  let ?p = "pr_proposal res" and ?d = "db2\<lparr>db_log := db_log db2 @ authorization_locks db2 g c a m2\<rparr>"
  let ?row = "report_row (ev_text E) m2 (wf_candidate (pp_workflow ?p)) v2 a n2"
  let ?d' = "?d\<lparr>db_log := db_log ?d @ [FlushMeeting r], db_meetings := replaced (stored_row E ?row) (db_meetings db2)\<rparr>"
  have b: "derive_cell_report_proposal_bindings g r c a = Inr b" using h(1) by (simp add: proposal_arguments_Inr [OF U])
  have "payload = confirmation_effect_payload (PyDict (bindings_json b)) (PyStr cmd)"
    using intent(1) b derived_bindings_ok [OF b]
    by (auto simp: build_cell_report_confirmation_effect_payload_def confirmation_material_def app_Inr bindings_to_jsonb_result)
  then have ef: "effect_for (ev_text E) t2 g c (confirmation_effect_payload (PyDict (bindings_json b)) (PyStr cmd)) v2"
    using intent(2) by (simp add: trusted_effect_Inr)
  have "proposal_ok (ev_text E) ?p" using p hydrated_ok [OF U] by (auto simp: pending_row_def)
  then have c: "cell_report_confirmation_command (ev_text E) (pp_workflow ?p) = Inr cmd"
    using confirmation_of_ok(2) [OF U] h(2) cmd by (simp add: proposal_ok_def)
  have args: "confirmation_arguments E g r c a (PyStr cmd) t2 v2 now2 = Inr (n2, b, v2)"
    using b later(4) ef command_parses [OF U c] by (simp add: confirmation_arguments_Inr)
  note au = authorize_complete [OF later(5,2)]
  show ?thesis
  proof (cases "ei_effect_id v2 \<in> r_effect_id ` set (pp_operation_receipts ?p)")
    case True
    then show ?thesis using confirm_conflict [OF U later(3) args au _ _ later(6) True] p by auto
  next
    case False
    have "flush_meeting E ?row ?d = (Inr (), ?d')"
      using later(2) authorized_row [OF later(5)] by (simp add: flush_run faultless_def)
    then have "confirm_cell_report E g r c a (PyStr cmd) t2 v2 now2 False db2
        = (Inr \<lparr>cr_snapshot = report_value (wf_candidate (pp_workflow ?p)) (ei_effect_id v2) (ei_payload_digest v2),
                cr_accepted_workflow = Some (accept_workflow (pp_workflow ?p)), cr_replayed = False,
                cr_requires_caller_commit = True\<rparr>, ?d')"
      unfolding confirm_first_run [OF U] using b c p later ef False au
      by (intro exI [of _ n2] exI [of _ b] exI [of _ m2] exI [of _ ?d] exI [of _ ?p] exI [of _ cmd]) simp
    then show ?thesis using False by simp
  qed
qed

text \<open>The sample message is proposed, and confirmed with the second call of the turn: the report is stored.\<close>

theorem proposal_confirmable_witness:
  "\<exists>v j res db' row cmd v2 d. propose_cell_report_legacy sample_env 1 5 2 4 sample_scope sample_identity v (PyStr sample_text)
       app_now sample_expiry (sample_db (sample_meeting j)) = (Inr res, db')
     \<and> meeting_rows (sample_db row) 1 5 = meeting_rows db' 1 5
     \<and> confirm_cell_report sample_env 1 5 2 4 (PyStr cmd) sample_identity v2 app_now False (sample_db row) =
       (Inr \<lparr>cr_snapshot = report_value (wf_candidate (pp_workflow (pr_proposal res))) (ei_effect_id v2) (ei_payload_digest v2),
             cr_accepted_workflow = Some (accept_workflow (pp_workflow (pr_proposal res))), cr_replayed = False,
             cr_requires_caller_commit = True\<rparr>, d)
     \<and> db_meetings d = replaced (stored_row sample_env
          (report_row ascii_db row (wf_candidate (pp_workflow (pr_proposal res))) v2 4 app_now)) [row]"
proof -
  obtain v j res db' row cmd where h: "propose_cell_report_legacy sample_env 1 5 2 4 sample_scope sample_identity v (PyStr sample_text)
      app_now sample_expiry (sample_db (sample_meeting j)) = (Inr res, db')" "pr_confirmation_command res = Some cmd"
    "live (pr_proposal res) app_now" "meeting_rows (sample_db row) 1 5 = meeting_rows db' 1 5"
    "authorized sample_env (sample_db row) 1 5 2 4 app_now row"
    "r_effect_id ` set (pp_operation_receipts (pr_proposal res))
       = {sample_effect, derive_effect_id (ti_turn_id sample_identity) Slot_TOOL_CALL 0}" by (rule sample_propose)
  obtain b where b: "derive_cell_report_proposal_bindings 1 5 2 4 = Inr b" by (simp add: derived_bindings)
  obtain code where code: "parse_cell_report_confirmation_command (PyStr cmd) = Inr code"
    using h(1,2) unfolding propose_legacy_run [of sample_env, simplified, OF ascii_db_ok]
    by (auto simp: confirmation_for_def app_Inr split: if_splits dest!: command_parses [OF ascii_db_ok])
  let ?payload = "confirmation_effect_payload (PyDict (bindings_json b)) (PyStr cmd)"
  obtain d where "digest_effect_payload (derive_effect_id (ti_turn_id sample_identity) (semantic_slot TOOL_CALL) 1) TOOL_CALL ?payload = Inr d"
    using confirmation_payload_digests [OF derived_bindings_ok [OF b] code derived_shapes(2)] by blast
  then obtain v2 where v2: "effect_for ascii_db sample_identity 1 2 ?payload v2" "ei_ordinal v2 = 1"
    by (rule sample_effect_at) (simp_all add: MAX_EFFECT_ORDINAL_def)
  have new: "ei_effect_id v2 \<notin> r_effect_id ` set (pp_operation_receipts (pr_proposal res))"
    using sample_call_id [OF v2(1)] v2(2) sample_ids_differ by (simp add: h(6))
  have pay: "build_cell_report_confirmation_effect_payload 1 5 2 4 (PyStr cmd) = Inr ?payload"
    using b code derived_bindings_ok [OF b]
    by (simp add: build_cell_report_confirmation_effect_payload_def confirmation_material_def app_require_uuid_def translated_def
        bindings_to_jsonb_result [THEN iffD2] uncaught_proposal_def)
  have tr: "validate_trusted_effect (ev_text sample_env) sample_identity v2 1 2 ?payload = Inr v2"
    using v2(1) by (simp add: trusted_effect_Inr)
  have pg: "pg_transaction (db_pg (sample_db row)) \<noteq> None" by (simp add: sample_db_def sample_pg_def)
  have env: "unicode_ok (ev_text sample_env)" "\<And>y. same_json (ev_jsonb sample_env y) y" by (simp_all add: ascii_db_ok same_json_refl)
  note c = proposal_confirmable [OF env(1) sample_expiry_valid env(2) h(1,2) pay tr h(4) sample_faultless pg app_now_utc(1) h(5,3),
      unfolded if_not_P [OF new]]
  show ?thesis
    by (intro exI conjI, rule h(1), rule h(4), rule c) (simp add: sample_db_def)
qed

end
