(* ===== verification/ReportSteps.thy ===== *)
theory ReportSteps
  imports ReportProposal
begin

text \<open>
  The operations of the application service as steps of a history of sessions: what a run that
  raises leaves, what a run writes, the managed cycles, and the invariant of the stored rows.
\<close>

section \<open>Operations as steps\<close>

datatype app_op =
    Propose uuid uuid uuid uuid pystr turn_identity effect_intent py datetime datetime
  | PrepareCycle uuid uuid uuid uuid turn_identity
  | ProposeInCycle proposal_cycle turn_identity effect_intent py
  | Confirm uuid uuid uuid uuid py turn_identity effect_intent datetime bool

definition no_result :: "'a app \<Rightarrow> unit app" where
  "no_result m = sbind m (\<lambda>_. ret ())"

fun perform :: "app_env \<Rightarrow> app_op \<Rightarrow> unit app" where
  "perform E (Propose g r c a key t v msg now expires) = no_result (propose_cell_report_legacy E g r c a key t v msg now expires)"
| "perform E (PrepareCycle g r c a t) = no_result (prepare_cell_report_proposal_cycle E g r c a t)"
| "perform E (ProposeInCycle cycle t v msg) = no_result (propose_cell_report_from_cycle E cycle t v msg)"
| "perform E (Confirm g r c a command t v now replay) = no_result (confirm_cell_report E g r c a command t v now replay)"

text \<open>A value of \<open>datetime\<close> is always valid; the clock answers such values.\<close>

fun op_times_ok :: "app_op \<Rightarrow> bool" where
  "op_times_ok (Propose g r c a key t v msg now expires) \<longleftrightarrow> valid_datetime now \<and> valid_datetime expires"
| "op_times_ok (PrepareCycle g r c a t) \<longleftrightarrow> True"
| "op_times_ok (ProposeInCycle cycle t v msg) \<longleftrightarrow> valid_datetime (pc_expires_at cycle)"
| "op_times_ok (Confirm g r c a command t v now replay) \<longleftrightarrow> valid_datetime now"

section \<open>What a run writes\<close>

text \<open>The row an operation puts in the place of a pending one.\<close>

definition stays_pending :: "app_env \<Rightarrow> meeting \<Rightarrow> meeting \<Rightarrow> bool" where
  "stays_pending E m row \<longleftrightarrow>
     (\<exists>p c a j upd. row = m\<lparr>m_relatorio_snapshot := j, m_updated_at := upd\<rparr>
        \<and> hydrate_pending (ev_text E) j = Inr p
        \<and> derive_cell_report_proposal_bindings (m_igreja_id m) (m_id m) c a = Inr (pp_bindings p)
        \<and> base_state_of (ev_text E) m = Inr (pp_base_state_digest p))"

definition becomes_sent :: "app_env \<Rightarrow> meeting \<Rightarrow> meeting \<Rightarrow> bool" where
  "becomes_sent E m row \<longleftrightarrow>
     (\<exists>s n a j. row = m\<lparr>m_relatorio_status := RELATORIO_ENVIADO, m_oferta_valor := sn_oferta_valor s,
          m_observacoes := sn_observacoes s, m_relatorio_enviado_por := Some a, m_relatorio_enviado_em := Some n,
          m_updated_at := Some n, m_relatorio_snapshot := j\<rparr>
        \<and> tzinfo n = TimezoneUtc \<and> validate_cell_report_snapshot_v2 (ev_text E) j = Inr s)"

definition row_step :: "app_env \<Rightarrow> meeting \<Rightarrow> meeting \<Rightarrow> bool" where
  "row_step E m row \<longleftrightarrow> m_relatorio_status m = RELATORIO_PENDENTE \<and> (stays_pending E m row \<or> becomes_sent E m row)"

definition writes_row :: "app_env \<Rightarrow> app_db \<Rightarrow> app_db \<Rightarrow> bool" where
  "writes_row E db db' \<longleftrightarrow>
     (\<exists>m row. m \<in> set (db_meetings db) \<and> m_id row = m_id m \<and> row_step E m row
        \<and> tables db' = tables (db\<lparr>db_meetings := replaced row (db_meetings db)\<rparr>) \<and> connection db' = connection db)"

lemma no_result_run:
  "no_result m db = (Inr x, db') \<longleftrightarrow> (\<exists>y. m db = (Inr y, db'))"
  "no_result m db = (Inl e, db') \<longleftrightarrow> m db = (Inl e, db')"
  by (auto simp: no_result_def sbind_def split: prod.splits sum.splits)

lemma report_written:
  assumes U: "unicode_ok (ev_text E)" and k: "candidate_ok (ev_text E) k" "is_complete k"
    and ids: "prefixed_hex64 effect_id_prefix (ei_effect_id v)" "prefixed_hex64 payload_digest_prefix (ei_payload_digest v)"
    and n: "tzinfo n = TimezoneUtc" and j: "\<And>y. same_json (ev_jsonb E y) y"
  shows "becomes_sent E m (stored_row E (report_row (ev_text E) m k v a n))"
proof -
  let ?s = "report_view (ev_text E) k (ei_effect_id v) (ei_payload_digest v)"
  obtain z where "oferta k = Some z" using k(2) by (auto simp: is_complete_iff)
  then have "sn_oferta_valor ?s = Some (report_amount (ev_text E) k)" "sn_observacoes ?s = observacoes k"
    by (simp_all add: report_view_def snap_view_def report_amount_def)
  moreover have "validate_cell_report_snapshot_v2 (ev_text E) (ev_jsonb E (report_value k (ei_effect_id v) (ei_payload_digest v))) = Inr ?s"
    using report_value_views(2) [OF U k ids j] .
  ultimately show ?thesis
    unfolding becomes_sent_def using n
    by (intro exI [of _ ?s] exI [of _ n] exI [of _ a] exI [of _ "ev_jsonb E (report_value k (ei_effect_id v) (ei_payload_digest v))"])
      (simp add: stored_row_def report_row_def sent_meeting_def)
qed

lemma confirm_writes:
  assumes U: "unicode_ok (ev_text E)" and j: "\<And>y. same_json (ev_jsonb E y) y" and now: "valid_datetime now"
    and run: "confirm_cell_report E g r c a command t v now replay db = (Inr res, db')"
  shows "reads_only db db' \<or> writes_row E db db'"
proof (cases replay)
  case True
  then show ?thesis using run reads_authorize by (auto simp: confirm_run obeys_def)
next
  case False
  obtain n b m d p cmd where h: "canonical_utc now = Inr n"
      "effect_for (ev_text E) t g c (confirmation_effect_payload (PyDict (bindings_json b)) command) v"
      "load_and_authorize E g r c a n db = (Inr m, d)" "m_relatorio_status m = RELATORIO_PENDENTE" "pending_row (ev_text E) m b p"
      "cell_report_confirmation_command (ev_text E) (pp_workflow p) = Inr cmd"
      "flush_meeting E (report_row (ev_text E) m (wf_candidate (pp_workflow p)) v a n) d = (Inr (), db')"
    using confirm_first_run [OF U, of g r c a command t v now db res db'] run False by auto
  let ?row = "stored_row E (report_row (ev_text E) m (wf_candidate (pp_workflow p)) v a n)"
  note k = command_complete [OF U h(6)]
  note au = authorize_sound [OF h(3)]
  have "tzinfo n = TimezoneUtc" using canonical_utc_Inr [OF now h(1)] by blast
  then have "becomes_sent E m ?row" using report_written [OF U _ _ _ _ _ j] k effect_shapes [OF h(2)] by blast
  moreover have "m \<in> set (db_meetings db)" using au authorized_row by blast
  moreover have "tables db' = tables (db\<lparr>db_meetings := replaced ?row (db_meetings db)\<rparr>)" "connection db' = connection db"
    using h(7) au by (simp_all add: flush_run tables_def connection_def)
  ultimately show ?thesis unfolding writes_row_def row_step_def using h(4)
    by (intro disjI2 exI [of _ m] exI [of _ ?row]) simp
qed

lemma proposal_written:
  assumes U: "unicode_ok (ev_text E)" and j: "\<And>y. same_json (ev_jsonb E y) y"
    and p: "proposal_ok (ev_text E) p" "valid_datetime (pp_expires_at p)" "proposal_to_jsonb (ev_text E) p = Inr x"
    and b: "derive_cell_report_proposal_bindings (m_igreja_id m) (m_id m) c a = Inr (pp_bindings p)"
    and base: "base_state_of (ev_text E) m = Inr (pp_base_state_digest p)"
  shows "stays_pending E m (written_row E m x n)"
proof -
  have "hydrate_pending (ev_text E) (ev_jsonb E x) = Inr p" using written_hydrates [OF U p(2,1,3) j] .
  then show ?thesis
    unfolding stays_pending_def using b base
    by (intro exI [of _ p] exI [of _ c] exI [of _ a] exI [of _ "ev_jsonb E x"] exI [of _ "Some n"])
      (simp add: written_row_def stored_row_def)
qed

lemma propose_writes:
  assumes U: "unicode_ok (ev_text E)" and j: "\<And>y. same_json (ev_jsonb E y) y" and x: "valid_datetime expires"
    and run: "propose_cell_report_legacy E g r c a key t v msg now expires db = (Inr res, db')"
  shows "reads_only db db' \<or> writes_row E db db'"
proof -
  let ?U = "ev_text E"
  obtain n e b patch w m d base dec p rep where h:
      "proposal_arguments E g r c a key t v msg now expires = Inr (n, e, b, patch, w, v)"
      "load_and_authorize E g r c a n db = (Inr m, d)" "m_relatorio_status m = RELATORIO_PENDENTE"
      "base_state_of ?U m = Inr base" "apply_decision E m v b base n e dec d = (Inr (p, rep), db')"
    using propose_legacy_run [OF U, of g r c a key t v msg now expires db res db'] run by blast
  note args = h(1) [unfolded proposal_arguments_Inr [OF U]]
  have e: "valid_datetime e" "tzinfo e = TimezoneUtc" using canonical_utc_Inr [OF x] args by blast+
  note au = authorize_sound [OF h(2)]
  have m: "m_id m = r" "m_igreja_id m = g" "m \<in> set (db_meetings db)" using au authorized_row by blast+
  have d: "reads_only db d" using au by (simp add: reads_only_def tables_def connection_def)
  note ap = h(5) [unfolded apply_decision_run [OF U e]]
  show ?thesis
  proof (cases dec)
    case (ReplayOf q)
    then show ?thesis using ap d by simp
  next
    case (WriteNext w' prior)
    then obtain y where y: "p = envelope_of w' b e prior v base" "proposal_ok ?U p" "proposal_to_jsonb ?U p = Inr y"
        "db' = d\<lparr>db_log := db_log d @ [FlushMeeting (m_id m)], db_meetings := replaced (written_row E m y n) (db_meetings d)\<rparr>"
      using ap by auto
    have "stays_pending E m (written_row E m y n)"
      by (rule proposal_written [where c = c and a = a, OF U j y(2) _ y(3)]) (use y(1) e(1) args m h(4) in \<open>simp_all add: envelope_of_def\<close>)
    moreover have "tables db' = tables (db\<lparr>db_meetings := replaced (written_row E m y n) (db_meetings db)\<rparr>)"
        "connection db' = connection db"
      using y(4) au by (simp_all add: tables_def connection_def)
    ultimately show ?thesis unfolding writes_row_def row_step_def using h(3) m(3)
      by (intro disjI2 exI [of _ m] exI [of _ "written_row E m y n"]) simp
  qed
qed

section \<open>Managed cycles, taken apart\<close>

lemma require_cycle_same: "require_proposal_cycle E c = Inr c' \<Longrightarrow> c' = c"
  by (auto simp: require_proposal_cycle_def ebind_eq_Inr split: if_splits)

lemma cycle_run:
  assumes "propose_cell_report_from_cycle E cycle t v msg db = (Inr res, db')"
  obtains n d current where
    "require_proposal_cycle E cycle = Inr cycle" "pg_transaction (db_pg db) = Some (pc_transaction cycle)"
    "db_nested db = pc_nested_transaction cycle"
    "ti_inbound_message_id t = pc_inbound_message_id cycle" "ti_turn_id t = pc_turn_id cycle"
    "ti_provider_message_id t = pc_provider_message_id cycle"
    "canonical_utc (ev_clock E (db_reads db)) = Inr n"
    "prepare_cell_report_proposal_cycle E (pc_igreja_id cycle) (pc_reuniao_id cycle) (pc_conversa_id cycle)
       (pc_ator_pessoa_id cycle) t (db\<lparr>db_reads := db_reads db + 1\<rparr>) = (Inr current, d)"
    "same_proposal_cycle cycle current
     \<or> pc_opens_new_attempt cycle \<and> pc_opens_new_attempt current \<and> new_cycle_is_still_live cycle n"
    "propose_cell_report_legacy E (pc_igreja_id cycle) (pc_reuniao_id cycle) (pc_conversa_id cycle) (pc_ator_pessoa_id cycle)
       (pc_correlation_key cycle) t v msg n (pc_expires_at cycle) d = (Inr res, db')"
    "reads_only db d"
proof -
  have same: "require_managed_cycle_identity U t g c = Inr i \<Longrightarrow> i = t" for U g c i
    by (auto simp: require_managed_cycle_identity_def ebind_eq_Inr split: if_splits)
  obtain n d current where h: "require_proposal_cycle E cycle = Inr cycle"
    "pg_transaction (db_pg db) = Some (pc_transaction cycle)" "db_nested db = pc_nested_transaction cycle"
    "ti_inbound_message_id t = pc_inbound_message_id cycle" "ti_turn_id t = pc_turn_id cycle"
    "ti_provider_message_id t = pc_provider_message_id cycle" "canonical_utc (ev_clock E (db_reads db)) = Inr n"
    "prepare_cell_report_proposal_cycle E (pc_igreja_id cycle) (pc_reuniao_id cycle) (pc_conversa_id cycle)
       (pc_ator_pessoa_id cycle) t (db\<lparr>db_reads := db_reads db + 1\<rparr>) = (Inr current, d)"
    "same_proposal_cycle cycle current
     \<or> pc_opens_new_attempt cycle \<and> pc_opens_new_attempt current \<and> new_cycle_is_still_live cycle n"
    "propose_cell_report_legacy E (pc_igreja_id cycle) (pc_reuniao_id cycle) (pc_conversa_id cycle) (pc_ator_pessoa_id cycle)
       (pc_correlation_key cycle) t v msg n (pc_expires_at cycle) d = (Inr res, db')"
    using assms
    by (auto simp: propose_cell_report_from_cycle_def sbind_Inr app_run ebind_eq_Inr dest!: require_cycle_same same
        split: if_splits prod.splits)
  have "reads_only (db\<lparr>db_reads := db_reads db + 1\<rparr>) d" using reads_prepare h(8) by (auto simp: obeys_def)
  then have "reads_only db d" by (simp add: reads_only_def tables_def connection_def)
  with h that show thesis by blast
qed

section \<open>Raising runs\<close>

definition raises_clean :: "'a app \<Rightarrow> bool" where
  "raises_clean m \<longleftrightarrow> (\<forall>db e db'. m db = (Inl e, db') \<longrightarrow> reads_only db db')"

lemma raises_cleanI: "(\<And>db e db'. m db = (Inl e, db') \<Longrightarrow> reads_only db db') \<Longrightarrow> raises_clean m"
  by (auto simp: raises_clean_def)

lemma raises_clean_reads: "obeys reads_only m \<Longrightarrow> raises_clean m"
  by (auto simp: raises_clean_def obeys_def)

lemma raises_clean_bind:
  assumes "obeys reads_only m" "\<And>x db d. m db = (Inr x, d) \<Longrightarrow> raises_clean (f x)"
  shows "raises_clean (sbind m f)"
proof (rule raises_cleanI)
  fix db e db'
  assume r: "sbind m f db = (Inl e, db')"
  show "reads_only db db'"
  proof (cases "m db")
    case (Pair x d)
    have d: "reads_only db d" using assms(1) Pair by (auto simp: obeys_def)
    show ?thesis
    proof (cases x)
      case (Inl e')
      then show ?thesis using r Pair d by (simp add: sbind_def)
    next
      case (Inr y)
      then have "reads_only d db'" using r Pair assms(2) [of db y d] by (auto simp: sbind_def raises_clean_def)
      then show ?thesis using d by (simp add: reads_only_def)
    qed
  qed
qed

lemma flush_raises: "flush_meeting E m d = (Inl e, d') \<Longrightarrow> reads_only d d'"
  using reads_basic(1) [of E "FlushMeeting (m_id m)" "\<lambda>_. ()"]
  by (auto simp: flush_meeting_def sbind_def obeys_def split: prod.splits sum.splits)

lemma decision_raises:
  assumes U: "unicode_ok (ev_text E)" and e: "valid_datetime expiry" "tzinfo expiry = TimezoneUtc"
    and w: "\<And>q. dec = ReplayOf q \<Longrightarrow> proposal_ok (ev_text E) q"
  shows "raises_clean (sbind (apply_decision E m v b base n expiry dec) (\<lambda>(p, replayed).
    sbind (from_result (confirmation_for (ev_text E) (pp_workflow p))) (\<lambda>command.
      ret \<lparr>pr_proposal = p, pr_confirmation_command = command, pr_replayed = replayed\<rparr>)))" (is "raises_clean (sbind ?a ?f)")
proof (rule raises_cleanI)
  fix d er d'
  assume r: "sbind ?a ?f d = (Inl er, d')"
  show "reads_only d d'"
  proof (cases "?a d")
    case (Pair x d1)
    show ?thesis
    proof (cases x)
      case (Inl er')
      then have "?a d = (Inl er, d')" using r Pair by (simp add: sbind_def)
      then show ?thesis
        by (cases dec) (auto simp: apply_decision_def sbind_def from_result_def reads_only_def split: prod.splits sum.splits
            dest: flush_raises)
    next
      case (Inr y)
      obtain p rep where y: "y = (p, rep)" by (cases y)
      have "proposal_ok (ev_text E) p"
        using Pair Inr y w apply_decision_run [OF U e, of m v b base n dec d p rep d1] by (cases dec) auto
      then obtain c where "confirmation_for (ev_text E) (pp_workflow p) = Inr c"
        using confirmation_of_ok(1) [OF U] by (auto simp: proposal_ok_def)
      then show ?thesis using r Pair Inr y by (simp add: sbind_def from_result_def)
    qed
  qed
qed

lemma raises_clean_if: "raises_clean x \<Longrightarrow> raises_clean y \<Longrightarrow> raises_clean (if c then x else y)"
  by simp

lemma decide_replays_stored:
  "decide_proposal U m v b patch w base n e = Inr (ReplayOf q) \<Longrightarrow> hydrate_pending U (m_relatorio_snapshot m) = Inr q"
  by (auto simp: decide_proposal_def ebind_eq_Inr split: if_splits option.splits)

lemma propose_raises:
  assumes U: "unicode_ok (ev_text E)" and x: "valid_datetime expires"
  shows "raises_clean (propose_cell_report_legacy E g r c a key t v msg now expires)"
  unfolding propose_cell_report_legacy_def
proof (rule raises_clean_bind [OF reads_basic(2)], clarify)
  fix n e b patch w i db d
  assume "from_result (proposal_arguments E g r c a key t v msg now expires) db = (Inr (n, e, b, patch, w, i), d)"
  then have e: "valid_datetime e" "tzinfo e = TimezoneUtc"
    using canonical_utc_Inr [OF x] by (auto simp: from_result_Inr proposal_arguments_Inr [OF U])
  have w: "proposal_ok (ev_text E) q"
    if "from_result (decide_proposal (ev_text E) m i b patch w base n e) d1 = (Inr (ReplayOf q), d2)" for m base d1 d2 q
    using that by (auto simp: from_result_Inr dest!: decide_replays_stored dest: hydrated_ok [OF U])
  show "raises_clean (sbind app_external_transaction (\<lambda>_. sbind (load_and_authorize E g r c a n) (\<lambda>m.
      if m_relatorio_status m \<noteq> RELATORIO_PENDENTE then raising REPORT_CONFLICT
      else sbind (from_result (base_state_of (ev_text E) m)) (\<lambda>base.
           sbind (from_result (decide_proposal (ev_text E) m i b patch w base n e)) (\<lambda>decision.
           sbind (apply_decision E m i b base n e decision) (\<lambda>(p, replayed).
           sbind (from_result (confirmation_for (ev_text E) (pp_workflow p))) (\<lambda>command.
             ret \<lparr>pr_proposal = p, pr_confirmation_command = command, pr_replayed = replayed\<rparr>)))))))"
    by (intro raises_clean_bind reads_basic reads_authorize raises_clean_if raises_clean_reads [OF reads.obeys_raising]
        decision_raises [OF U e]) (use w in blast)
qed

lemma cycle_raises:
  assumes U: "unicode_ok (ev_text E)" and x: "valid_datetime (pc_expires_at cycle)"
  shows "raises_clean (propose_cell_report_from_cycle E cycle t v msg)"
  unfolding propose_cell_report_from_cycle_def
proof (rule raises_clean_bind [OF reads_basic(2)], clarify)
  fix c identity db d
  assume "from_result (ebind (require_proposal_cycle E cycle) (\<lambda>c.
        ebind (require_managed_cycle_identity (ev_text E) t (pc_igreja_id c) (pc_conversa_id c)) (\<lambda>identity.
        if ti_inbound_message_id identity \<noteq> pc_inbound_message_id c \<or> ti_turn_id identity \<noteq> pc_turn_id c
           \<or> ti_provider_message_id identity \<noteq> pc_provider_message_id c
        then Inl PROPOSAL_CYCLE_STALE else Inr (c, identity)))) db = (Inr (c, identity), d)"
  then have "c = cycle" by (auto simp: from_result_Inr ebind_eq_Inr dest: require_cycle_same split: if_splits)
  with x have "valid_datetime (pc_expires_at c)" by simp
  note legacy = propose_raises [OF U this]
  show "raises_clean (sbind app_external_transaction (\<lambda>(transaction, nested).
     if transaction \<noteq> pc_transaction c \<or> nested \<noteq> pc_nested_transaction c then raising PROPOSAL_CYCLE_STALE
     else sbind (utc_now E) (\<lambda>read.
     sbind (from_result (canonical_utc read)) (\<lambda>current_time.
     sbind (prepare_cell_report_proposal_cycle E (pc_igreja_id c) (pc_reuniao_id c) (pc_conversa_id c) (pc_ator_pessoa_id c)
              identity) (\<lambda>current_cycle.
     if \<not> same_proposal_cycle c current_cycle
        \<and> \<not> (pc_opens_new_attempt c \<and> pc_opens_new_attempt current_cycle \<and> new_cycle_is_still_live c current_time)
     then raising PROPOSAL_CYCLE_STALE
     else propose_cell_report_legacy E (pc_igreja_id c) (pc_reuniao_id c) (pc_conversa_id c) (pc_ator_pessoa_id c)
            (pc_correlation_key c) t v msg current_time (pc_expires_at c))))))"
    by (rule raises_clean_bind [OF reads_basic(4)], clarify)
      (intro raises_clean_bind reads_basic reads_prepare raises_clean_if raises_clean_reads [OF reads.obeys_raising] legacy)
qed

lemma confirm_raises:
  assumes U: "unicode_ok (ev_text E)"
  shows "raises_clean (confirm_cell_report E g r c a command t v now replay)"
  unfolding confirm_cell_report_def Let_def
proof (rule raises_clean_bind [OF reads_basic(2)], clarify)
  fix n b i db d
  assume "from_result (confirmation_arguments E g r c a command t v now) db = (Inr (n, b, i), d)"
  then have i: "bindings_ok b" "prefixed_hex64 effect_id_prefix (ei_effect_id i)" "prefixed_hex64 payload_digest_prefix (ei_payload_digest i)"
    using effect_shapes derived_bindings_ok by (auto simp: from_result_Inr confirmation_arguments_Inr)
  have last: "raises_clean (sbind (flush_meeting E row) (\<lambda>_. sbind (from_result (final_snapshot (ev_text E) s)) (\<lambda>final. ret (f final))))"
    if "from_result (accept_confirmation (ev_text E) m i b command n) d1 = (Inr (acc, s), d2)" for row m acc s d1 d2
      and f :: "py \<Rightarrow> confirmation_result"
  proof -
    have "final_snapshot (ev_text E) s = Inr s"
      using that accept_confirmation_Inr [OF U i] command_complete [OF U] final_report [OF U _ _ i(2,3)]
      by (simp add: from_result_Inr) blast
    then show ?thesis
      by (intro raises_cleanI) (auto simp: sbind_def from_result_def split: prod.splits sum.splits dest: flush_raises)
  qed
  show "raises_clean (sbind app_external_transaction (\<lambda>_. sbind (load_and_authorize E g r c a n) (\<lambda>m.
      if replay \<noteq> (m_relatorio_status m = RELATORIO_ENVIADO) then raising REPLAY_EXPECTATION_MISMATCH
      else if m_relatorio_status m = RELATORIO_ENVIADO then
        sbind (from_result (validate_final_replay (ev_text E) m a (ei_effect_id i) (ei_payload_digest i))) (\<lambda>s.
          ret \<lparr>cr_snapshot = s, cr_accepted_workflow = None, cr_replayed = True, cr_requires_caller_commit = False\<rparr>)
      else if m_relatorio_status m \<noteq> RELATORIO_PENDENTE then raising REPORT_CONFLICT
      else sbind (from_result (accept_confirmation (ev_text E) m i b command n)) (\<lambda>(accepted, s).
           sbind (from_result (confirmed_amount (ev_text E) accepted)) (\<lambda>amount.
           sbind (flush_meeting E (sent_meeting m (wf_candidate accepted) amount s a n)) (\<lambda>_.
           sbind (from_result (final_snapshot (ev_text E) s)) (\<lambda>final.
             ret \<lparr>cr_snapshot = final, cr_accepted_workflow = Some accepted, cr_replayed = False,
                  cr_requires_caller_commit = True\<rparr>)))))))"
    by (intro raises_clean_bind reads_basic reads_authorize raises_clean_if raises_clean_reads [OF reads.obeys_raising]
        raises_clean_reads [OF reads.obeys_ret]) (auto intro!: raises_clean_bind reads_basic last)
qed

section \<open>Statements that fail\<close>

text \<open>
  The connection only changes by a statement that fails: then its transaction has failed and the operation
  raises \<open>DATA_INTEGRITY\<close>.
\<close>

definition fault_told :: "'a app \<Rightarrow> bool" where
  "fault_told m \<longleftrightarrow> (\<forall>db x db'. m db = (x, db') \<longrightarrow>
     db_pg db' = db_pg db \<or> x = Inl DATA_INTEGRITY \<and> db_pg db' = (db_pg db)\<lparr>pg_failed := True\<rparr>)"

named_theorems fault_rules \<open>operations that tell of the statements that fail\<close>

lemma fault_sbind [fault_rules]:
  assumes "fault_told m" "\<And>x. fault_told (f x)"
  shows "fault_told (sbind m f)"
  unfolding fault_told_def
proof (intro allI impI)
  fix db x db'
  assume r: "sbind m f db = (x, db')"
  obtain y d where m: "m db = (y, d)" by (cases "m db")
  show "db_pg db' = db_pg db \<or> x = Inl DATA_INTEGRITY \<and> db_pg db' = (db_pg db)\<lparr>pg_failed := True\<rparr>"
  proof (cases y)
    case (Inl e)
    then show ?thesis using r m assms(1) by (auto simp: sbind_def fault_told_def)
  next
    case (Inr z)
    then have "db_pg d = db_pg db" using m assms(1) unfolding fault_told_def by blast
    moreover have "f z d = (x, db')" using r m Inr by (simp add: sbind_def)
    ultimately show ?thesis using assms(2) [of z] unfolding fault_told_def by metis
  qed
qed

lemma fault_cases [fault_rules]:
  "fault_told m \<Longrightarrow> fault_told n \<Longrightarrow> fault_told (if b then m else n)"
  "(\<And>x y. fault_told (g x y)) \<Longrightarrow> fault_told (case p of (x, y) \<Rightarrow> g x y)"
  "fault_told m \<Longrightarrow> (\<And>x. fault_told (f x)) \<Longrightarrow> (\<And>x y ys. fault_told (h x y ys)) \<Longrightarrow>
     fault_told (case v of [] \<Rightarrow> m | [x] \<Rightarrow> f x | x # y # ys \<Rightarrow> h x y ys)"
  by (auto split: list.split prod.split)

lemma fault_basic [fault_rules]:
  "fault_told (ret x)" "fault_told (raising e)" "fault_told (execute E st f)" "fault_told (from_result y)"
  "fault_told (utc_now E)" "fault_told app_external_transaction" "fault_told (app_require_tenant_scope g)"
  by (auto simp: fault_told_def execute_def from_result_def utc_now_def app_external_transaction_def
      app_require_tenant_scope_def verify_tenant_scope_cases split: option.splits if_splits)

lemma fault_flush [fault_rules]: "fault_told (flush_meeting E m)"
  unfolding flush_meeting_def by (rule fault_sbind [OF fault_basic(3)]) (auto simp: fault_told_def)

lemma fault_checks [fault_rules]: "fault_told (revalidate_locked_conversation_actor E g c a)" "fault_told (load_locked_meeting E g r)"
  "fault_told (revalidate_ministerial_access E g a)"
  unfolding revalidate_locked_conversation_actor_def load_locked_meeting_def revalidate_ministerial_access_def
  by (intro fault_rules)+

lemma fault_authorize [fault_rules]: "fault_told (load_and_authorize E g r c a now)"
  unfolding load_and_authorize_def revalidate_locked_leader_def by (intro fault_rules)

lemma fault_prepare [fault_rules]: "fault_told (prepare_cell_report_proposal_cycle E g r c a t)"
  unfolding prepare_cell_report_proposal_cycle_def Let_def by (intro fault_rules)

lemma fault_apply [fault_rules]: "fault_told (apply_decision E m v b base n e dec)"
  unfolding apply_decision_def by (cases dec) (simp_all, (intro fault_rules)+)

lemma fault_propose [fault_rules]: "fault_told (propose_cell_report_legacy E g r c a key t v msg now expires)"
  unfolding propose_cell_report_legacy_def by (intro fault_rules)

lemma fault_perform: "fault_told (perform E op)"
  by (cases op) (simp_all add: no_result_def propose_cell_report_from_cycle_def confirm_cell_report_def Let_def,
    (intro fault_rules)+)

section \<open>Histories\<close>

lemma clock_utc:
  assumes "\<And>k. valid_datetime (ev_clock E k)" "canonical_utc (ev_clock E k) = Inr n"
  shows "valid_datetime n"
  using canonical_utc_Inr [OF assms] by blast

lemma writes_row_reads: "reads_only db d \<Longrightarrow> reads_only d db' \<or> writes_row E d db' \<Longrightarrow> reads_only db db' \<or> writes_row E db db'"
  by (auto simp: reads_only_def writes_row_def tables_def connection_def)

lemma perform_raises:
  "unicode_ok (ev_text E) \<Longrightarrow> op_times_ok op \<Longrightarrow> perform E op db = (Inl e, db') \<Longrightarrow> reads_only db db'"
  using propose_raises cycle_raises confirm_raises raises_clean_reads [OF reads_prepare]
  by (cases op) (simp_all add: no_result_run raises_clean_def, blast+)

lemma perform_writes:
  assumes U: "unicode_ok (ev_text E)" and j: "\<And>y. same_json (ev_jsonb E y) y"
    and op: "op_times_ok op" and run: "perform E op db = (x, db')"
  shows "reads_only db db' \<or> writes_row E db db'"
proof (cases x)
  case (Inl e)
  then show ?thesis using perform_raises [OF U op] run by simp
next
  case (Inr y)
  note run = run [unfolded Inr]
  show ?thesis
  proof (cases op)
    case (Propose g r c a key t v msg now expires)
    then show ?thesis using run propose_writes [OF U j, of expires] op by (simp add: no_result_run) blast
  next
    case (PrepareCycle g r c a t)
    then show ?thesis using run reads_prepare by (auto simp: no_result_run obeys_def)
  next
    case (ProposeInCycle cycle t v msg)
    then obtain res where "propose_cell_report_from_cycle E cycle t v msg db = (Inr res, db')" using run by (auto simp: no_result_run)
    then show ?thesis
      by (rule cycle_run) (use propose_writes [OF U j] op ProposeInCycle writes_row_reads in fastforce)
  next
    case (Confirm g r c a command t v now replay)
    then show ?thesis using run confirm_writes [OF U j, of now] op by (simp add: no_result_run) blast
  qed
qed

inductive report_history :: "app_env \<Rightarrow> app_db \<Rightarrow> app_db \<Rightarrow> bool" for E db0 where
  start: "report_history E db0 db0"
| operation: "report_history E db0 db \<Longrightarrow> op_times_ok op \<Longrightarrow> perform E op db = (x, db') \<Longrightarrow> report_history E db0 db'"
| session: "report_history E db0 db \<Longrightarrow> tables db' = tables db \<Longrightarrow> report_history E db0 db'"

lemma row_step_id: "row_step E x y \<Longrightarrow> m_id y = m_id x"
  by (auto simp: row_step_def stays_pending_def becomes_sent_def)

lemma row_step_trans:
  assumes "row_step E x y" "row_step E y z"
  shows "row_step E x z"
proof -
  have "RELATORIO_ENVIADO \<noteq> RELATORIO_PENDENTE" by (simp add: RELATORIO_PENDENTE_def RELATORIO_ENVIADO_def u_def)
  then have "stays_pending E x y" using assms by (auto simp: row_step_def becomes_sent_def)
  then obtain j upd where y: "y = x\<lparr>m_relatorio_snapshot := j, m_updated_at := upd\<rparr>" by (auto simp: stays_pending_def)
  have base: "base_state_of (ev_text E) y = base_state_of (ev_text E) x" by (simp add: y base_state_of_def)
  have "stays_pending E x z" if pz: "stays_pending E y z"
  proof -
    obtain p c a k t where z: "z = y\<lparr>m_relatorio_snapshot := k, m_updated_at := t\<rparr>" "hydrate_pending (ev_text E) k = Inr p"
        "derive_cell_report_proposal_bindings (m_igreja_id x) (m_id x) c a = Inr (pp_bindings p)"
        "base_state_of (ev_text E) y = Inr (pp_base_state_digest p)"
      using pz by (auto simp: stays_pending_def y)
    have "z = x\<lparr>m_relatorio_snapshot := k, m_updated_at := t\<rparr>" by (simp add: z(1) y)
    then show ?thesis unfolding stays_pending_def using z base by metis
  qed
  moreover have "becomes_sent E x z" if sz: "becomes_sent E y z"
  proof -
    obtain s n a k where z: "z = y\<lparr>m_relatorio_status := RELATORIO_ENVIADO, m_oferta_valor := sn_oferta_valor s,
          m_observacoes := sn_observacoes s, m_relatorio_enviado_por := Some a, m_relatorio_enviado_em := Some n,
          m_updated_at := Some n, m_relatorio_snapshot := k\<rparr>" "tzinfo n = TimezoneUtc"
        "validate_cell_report_snapshot_v2 (ev_text E) k = Inr s"
      using sz by (auto simp: becomes_sent_def)
    have "z = x\<lparr>m_relatorio_status := RELATORIO_ENVIADO, m_oferta_valor := sn_oferta_valor s,
          m_observacoes := sn_observacoes s, m_relatorio_enviado_por := Some a, m_relatorio_enviado_em := Some n,
          m_updated_at := Some n, m_relatorio_snapshot := k\<rparr>" by (simp add: z(1) y)
    then show ?thesis unfolding becomes_sent_def using z by metis
  qed
  ultimately show ?thesis using assms by (auto simp: row_step_def)
qed

text \<open>The rows of a history, against the rows it began with.\<close>

definition rows_follow :: "app_env \<Rightarrow> app_db \<Rightarrow> app_db \<Rightarrow> bool" where
  "rows_follow E db0 db \<longleftrightarrow> list_all2 (\<lambda>x y. y = x \<or> row_step E x y) (db_meetings db0) (db_meetings db)"

lemma rows_follow_write:
  assumes f: "rows_follow E db0 db" and d: "distinct (map m_id (db_meetings db0))"
    and m: "m \<in> set (db_meetings db)" "row_step E m row" and db': "db_meetings db' = replaced row (db_meetings db)"
  shows "rows_follow E db0 db'"
proof -
  have ids: "map m_id (db_meetings db) = map m_id (db_meetings db0)"
    using f unfolding rows_follow_def by (induction rule: list_all2_induct) (auto dest: row_step_id)
  have one: "y = m" if "y \<in> set (db_meetings db)" "m_id y = m_id row" for y
    using d ids m row_step_id [OF m(2)] that by (metis distinct_map inj_onD)
  have "list_all2 (\<lambda>x y. y = x \<or> row_step E x y) (db_meetings db0)
      (map (\<lambda>y. if m_id y = m_id row then row else y) (db_meetings db))"
    unfolding list_all2_map2
    by (rule list.rel_mono_strong [OF f [unfolded rows_follow_def]]) (use one m(2) in \<open>auto dest: row_step_trans\<close>)
  then show ?thesis by (simp add: rows_follow_def db' replaced_def)
qed

lemma history_follows:
  assumes "report_history E db0 db" "unicode_ok (ev_text E)" "\<And>y. same_json (ev_jsonb E y) y"
    and "distinct (map m_id (db_meetings db0))"
  shows "rows_follow E db0 db \<and> db_conversations db = db_conversations db0 \<and> db_celulas db = db_celulas db0
    \<and> db_pessoas db = db_pessoas db0 \<and> db_users db = db_users db0 \<and> db_roles db = db_roles db0"
  using assms(1)
proof induction
  case start
  then show ?case by (auto simp: rows_follow_def intro: list.rel_refl)
next
  case (operation db op x db')
  have "reads_only db db' \<or> writes_row E db db'" using perform_writes [OF assms(2,3)] operation by blast
  then show ?case
  proof
    assume "reads_only db db'"
    then show ?thesis using operation.IH by (simp add: reads_only_def tables_def rows_follow_def)
  next
    assume "writes_row E db db'"
    then obtain m row where "m \<in> set (db_meetings db)" "row_step E m row"
        "tables db' = tables (db\<lparr>db_meetings := replaced row (db_meetings db)\<rparr>)" by (auto simp: writes_row_def)
    then show ?thesis using operation.IH rows_follow_write [OF _ assms(4), of E db m row db'] by (simp add: tables_def)
  qed
next
  case (session db db')
  then show ?case by (simp add: tables_def rows_follow_def)
qed

section \<open>Properties\<close>

text \<open>
  C10. An operation that raises writes nothing.  Whatever the arguments, the stored rows and the
  statements that fail, a run of a proposal, of a cycle, of a proposal in a cycle or of a
  confirmation that ends in an error leaves every table as it was; also the checks after the write
  of a successful run never fail.  The session stays in its transactions, and its connection
  is as it was too, unless the error is \<open>DATA_INTEGRITY\<close>: then it may be that a statement failed, and the
  only change is that the transaction of the connection has failed.
\<close>

theorem errors_write_nothing:
  assumes "unicode_ok (ev_text E)" "op_times_ok op" "perform E op db = (Inl e, db')"
  shows "tables db' = tables db \<and> db_nested db' = db_nested db
    \<and> (db_pg db' = db_pg db \<or> e = DATA_INTEGRITY \<and> db_pg db' = (db_pg db)\<lparr>pg_failed := True\<rparr>)"
  using perform_raises [OF assms] fault_perform [of E op] assms(3)
  by (simp add: reads_only_def connection_def fault_told_def) blast

text \<open>A confirmation that expects a repetition of a report that is still pending.\<close>

lemma sample_refusal_of_replay:
  obtains v j db' where "perform sample_env (Confirm 1 5 2 4 (PyStr sample_command) sample_identity v app_now True)
    (sample_db (sample_meeting j)) = (Inl REPLAY_EXPECTATION_MISMATCH, db')"
proof -
  obtain v b q j where h: "derive_cell_report_proposal_bindings 1 5 2 4 = Inr b"
    "effect_for ascii_db sample_identity 1 2 (confirmation_effect_payload (PyDict (bindings_json b)) (PyStr sample_command)) v"
    "pending_row ascii_db (sample_meeting j) b q" "live q app_now" "ei_effect_id v \<notin> r_effect_id ` set (pp_operation_receipts q)"
    "cell_report_confirmation_command ascii_db (pp_workflow q) = Inr sample_command" by (rule sample_pending)
  let ?m = "sample_meeting j" and ?db = "sample_db (sample_meeting j)"
  let ?d = "?db\<lparr>db_log := authorization_locks ?db 1 2 4 ?m\<rparr>"
  have "load_and_authorize sample_env 1 5 2 4 app_now ?db = (Inr ?m, ?d)"
    using authorize_complete [OF sample_authorized sample_faultless, of ?m] by (simp add: sample_db_def)
  moreover have "confirmation_arguments sample_env 1 5 2 4 (PyStr sample_command) sample_identity v app_now = Inr (app_now, b, v)"
    using h app_now_utc(1) command_parses [OF ascii_db_ok sample_confirms] by (simp add: confirmation_arguments_Inr)
  moreover have "app_external_transaction ?db = (Inr (1, None), ?db)"
    by (simp add: app_external_transaction_def sample_db_def sample_pg_def)
  moreover have "m_relatorio_status ?m \<noteq> RELATORIO_ENVIADO"
    by (simp add: sample_meeting_def RELATORIO_PENDENTE_def RELATORIO_ENVIADO_def u_def)
  ultimately have "confirm_cell_report sample_env 1 5 2 4 (PyStr sample_command) sample_identity v app_now True ?db
      = (Inl REPLAY_EXPECTATION_MISMATCH, ?d)"
    by (simp add: confirm_cell_report_def sbind_run from_result_def Let_def)
  then show thesis using that [of v j ?d] by (simp add: no_result_run)
qed

theorem errors_write_nothing_witness:
  "\<exists>v j db'. perform sample_env (Confirm 1 5 2 4 (PyStr sample_command) sample_identity v app_now True)
       (sample_db (sample_meeting j)) = (Inl REPLAY_EXPECTATION_MISMATCH, db') \<and> tables db' = tables (sample_db (sample_meeting j))
     \<and> db_pg db' = sample_pg"
proof -
  obtain v j db' where h: "perform sample_env (Confirm 1 5 2 4 (PyStr sample_command) sample_identity v app_now True)
    (sample_db (sample_meeting j)) = (Inl REPLAY_EXPECTATION_MISMATCH, db')" by (rule sample_refusal_of_replay)
  from errors_write_nothing [OF _ _ h] app_now_utc(2) ascii_db_ok h show ?thesis by (auto simp: sample_db_def)
qed

text \<open>
  C2. Along every history of operations and sessions the rows of the meetings stay consistent.  A
  row is the one the history began with, or it began pending and is now either pending still,
  with only its snapshot column and update time changed and in it a readable proposal bound to
  this church and meeting and to the row's present offering and observation; or sent, with a
  valid snapshot whose offering and observation are the row's, an actor and a UTC time.  A row
  that was sent never changes again, and no operation writes any other table.
\<close>

theorem stored_rows_consistent:
  assumes "unicode_ok (ev_text E)" "\<And>y. same_json (ev_jsonb E y) y" "distinct (map m_id (db_meetings db0))"
    and "report_history E db0 db"
  shows "list_all2 (\<lambda>x y. y = x \<or> m_relatorio_status x = RELATORIO_PENDENTE \<and> (stays_pending E x y \<or> becomes_sent E x y))
      (db_meetings db0) (db_meetings db)
    \<and> db_conversations db = db_conversations db0 \<and> db_celulas db = db_celulas db0 \<and> db_pessoas db = db_pessoas db0
    \<and> db_users db = db_users db0 \<and> db_roles db = db_roles db0"
  using history_follows [OF assms(4,1,2,3)] by (simp add: rows_follow_def row_step_def)

theorem stored_rows_consistent_witness:
  "\<exists>v j db'. perform sample_env (Confirm 1 5 2 4 (PyStr sample_command) sample_identity v app_now False)
       (sample_db (sample_meeting j)) = (Inr (), db')
     \<and> list_all2 (\<lambda>x y. y = x \<or> m_relatorio_status x = RELATORIO_PENDENTE
          \<and> (stays_pending sample_env x y \<or> becomes_sent sample_env x y)) [sample_meeting j] (db_meetings db')"
proof -
  obtain v j res db' where "confirm_cell_report sample_env 1 5 2 4 (PyStr sample_command) sample_identity v app_now False
      (sample_db (sample_meeting j)) = (Inr res, db')" by (rule sample_confirmation)
  then have p: "perform sample_env (Confirm 1 5 2 4 (PyStr sample_command) sample_identity v app_now False)
      (sample_db (sample_meeting j)) = (Inr (), db')" by (simp add: no_result_run)
  have "report_history sample_env (sample_db (sample_meeting j)) db'"
    by (rule report_history.operation [OF report_history.start _ p]) (simp add: app_now_utc(2))
  from stored_rows_consistent [OF _ _ _ this] ascii_db_ok same_json_refl p show ?thesis by (auto simp: sample_db_def)
qed

end
