(* ===== verification/ReportCycles.thy ===== *)
theory ReportCycles
  imports ReportSteps
begin

text \<open>
  Managed proposal cycles: the value a turn obtains before its effect is minted, sealed with the
  secret of the process, and what a proposal written under one is bound to.
\<close>

section \<open>Minting and requiring\<close>

lemma managed_key_Inr:
  assumes "valid_datetime e" "tzinfo e = TimezoneUtc"
  shows "managed_proposal_correlation_key g r c a e = Inr k \<longleftrightarrow>
    k = scope_prefix @ hexdigest (sha256 (binary_frame
      [ascii_bytes managed_cycle_domain, uuid_bytes g, uuid_bytes r, uuid_bytes c, uuid_bytes a, ascii_bytes (render_instant e)]))"
  using canonical_utc_same [OF assms] by (auto simp: managed_proposal_correlation_key_def ebind_eq_Inr)

lemma managed_identity_Inr:
  "require_managed_cycle_identity U t g c = Inr t' \<longleftrightarrow>
   t' = t \<and> identity_ok U t \<and> ti_igreja_id t = g \<and> ti_conversation_id t = c"
  by (auto simp: require_managed_cycle_identity_def app_Inr ecatch_raise_Inr validate_intents_result)

lemma built_identity_fields:
  "build_agent_turn_identity U i c m s p = Inr t \<Longrightarrow>
   ti_igreja_id t = i \<and> ti_conversation_id t = c \<and> ti_inbound_message_id t = m \<and> ti_provider_message_id t = s \<and> i \<noteq> 0 \<and> c \<noteq> 0 \<and> m \<noteq> 0"
  by (auto simp: build_agent_turn_identity_def ebind_eq_Inr require_uuid_result)

definition cycle_identity :: "app_env \<Rightarrow> proposal_cycle \<Rightarrow> (app_error, turn_identity) result" where
  "cycle_identity E c = translated PROPOSAL_CYCLE_INVALID
     (build_agent_turn_identity (ev_text E) (pc_igreja_id c) (pc_conversa_id c) (pc_inbound_message_id c)
        (pc_provider_message_id c) EVOLUTION)"

lemma required_cycle:
  assumes e: "valid_datetime (pc_expires_at c)" "tzinfo (pc_expires_at c) = TimezoneUtc" and l: "require_proposal_cycle E c = Inr c'"
  obtains t key material where "cycle_identity E c = Inr t"
        "managed_proposal_correlation_key (pc_igreja_id c) (pc_reuniao_id c) (pc_conversa_id c) (pc_ator_pessoa_id c) (pc_expires_at c) = Inr key"
        "proposal_cycle_material (pc_igreja_id c) (pc_reuniao_id c) (pc_conversa_id c) (pc_ator_pessoa_id c) key (pc_expires_at c)
          (pc_opens_new_attempt c) (pc_transaction c) (pc_nested_transaction c) t = Inr material"
        "pc_turn_id c = ti_turn_id t" "pc_correlation_key c = key" "pc_material c = hmac_sha256 (ev_secret E) material"
        "c' = c" "pc_reuniao_id c \<noteq> 0" "pc_ator_pessoa_id c \<noteq> 0"
proof -
  from l show thesis
    unfolding require_proposal_cycle_def cycle_identity_def [symmetric] ebind_eq_Inr app_uuid_Inr managed_identity_Inr
      canonical_utc_same [OF e] translated_Inr
    apply (elim exE conjE)
    apply (split if_split_asm)
    apply (simp only: sum.distinct)
    apply (simp only: ebind_eq_Inr sum.inject)
    apply (elim exE conjE)
    apply (split if_split_asm)
    apply (simp only: sum.distinct)
    apply (rule that)
    apply (assumption | simp)+
    done
qed

lemma minted_cycle:
  assumes e: "valid_datetime e" "tzinfo e = TimezoneUtc" and m: "mint_proposal_cycle E g r c a e opens tx nested t = Inr y"
  obtains key material where "managed_proposal_correlation_key g r c a e = Inr key"
    "proposal_cycle_material g r c a key e opens tx nested t = Inr material"
    "pc_correlation_key y = key" "pc_turn_id y = ti_turn_id t" "pc_material y = hmac_sha256 (ev_secret E) material"
  using m canonical_utc_same [OF e] by (auto simp: mint_proposal_cycle_def ebind_eq_Inr)

lemma require_cycle_iff:
  assumes e: "valid_datetime (pc_expires_at c)" "tzinfo (pc_expires_at c) = TimezoneUtc"
  shows "require_proposal_cycle E c = Inr c' \<longleftrightarrow>
    c' = c \<and> pc_reuniao_id c \<noteq> 0 \<and> pc_ator_pessoa_id c \<noteq> 0
    \<and> (\<exists>t. cycle_identity E c = Inr t
         \<and> mint_proposal_cycle E (pc_igreja_id c) (pc_reuniao_id c) (pc_conversa_id c) (pc_ator_pessoa_id c) (pc_expires_at c)
             (pc_opens_new_attempt c) (pc_transaction c) (pc_nested_transaction c) t = Inr c)"
    (is "?l \<longleftrightarrow> ?r")
proof -
  note x = canonical_utc_same [OF e]
  have id: "cycle_identity E c = Inr t \<Longrightarrow> identity_ok (ev_text E) t \<and> ti_igreja_id t = pc_igreja_id c
      \<and> ti_conversation_id t = pc_conversa_id c \<and> ti_inbound_message_id t = pc_inbound_message_id c
      \<and> ti_provider_message_id t = pc_provider_message_id c \<and> pc_igreja_id c \<noteq> 0 \<and> pc_conversa_id c \<noteq> 0 \<and> pc_inbound_message_id c \<noteq> 0" for t
    using built_identity_ok built_identity_fields by (simp add: cycle_identity_def translated_Inr)
  show ?thesis
  proof
    assume l: ?l
    obtain t key material where f: "cycle_identity E c = Inr t"
        "managed_proposal_correlation_key (pc_igreja_id c) (pc_reuniao_id c) (pc_conversa_id c) (pc_ator_pessoa_id c) (pc_expires_at c) = Inr key"
        "proposal_cycle_material (pc_igreja_id c) (pc_reuniao_id c) (pc_conversa_id c) (pc_ator_pessoa_id c) key (pc_expires_at c)
          (pc_opens_new_attempt c) (pc_transaction c) (pc_nested_transaction c) t = Inr material"
        "pc_turn_id c = ti_turn_id t" "pc_correlation_key c = key" "pc_material c = hmac_sha256 (ev_secret E) material"
        "c' = c" "pc_reuniao_id c \<noteq> 0" "pc_ator_pessoa_id c \<noteq> 0"
      by (rule required_cycle [OF e l])
    have "\<lparr>pc_igreja_id = pc_igreja_id c, pc_reuniao_id = pc_reuniao_id c, pc_conversa_id = pc_conversa_id c,
        pc_ator_pessoa_id = pc_ator_pessoa_id c, pc_correlation_key = key, pc_expires_at = pc_expires_at c,
        pc_opens_new_attempt = pc_opens_new_attempt c, pc_transaction = pc_transaction c,
        pc_nested_transaction = pc_nested_transaction c, pc_turn_id = ti_turn_id t,
        pc_inbound_message_id = ti_inbound_message_id t, pc_provider_message_id = ti_provider_message_id t,
        pc_material = hmac_sha256 (ev_secret E) material\<rparr> = c"
      using f(4-6) id [OF f(1)] by (cases c) simp
    then have "mint_proposal_cycle E (pc_igreja_id c) (pc_reuniao_id c) (pc_conversa_id c) (pc_ator_pessoa_id c) (pc_expires_at c)
        (pc_opens_new_attempt c) (pc_transaction c) (pc_nested_transaction c) t = Inr c"
      using x f(2,3) by (simp add: mint_proposal_cycle_def)
    then show ?r using f by blast
  next
    assume ?r
    then obtain t where t: "c' = c" "pc_reuniao_id c \<noteq> 0" "pc_ator_pessoa_id c \<noteq> 0" "cycle_identity E c = Inr t"
        "mint_proposal_cycle E (pc_igreja_id c) (pc_reuniao_id c) (pc_conversa_id c) (pc_ator_pessoa_id c) (pc_expires_at c)
             (pc_opens_new_attempt c) (pc_transaction c) (pc_nested_transaction c) t = Inr c" by blast
    from t(5) obtain key material where m: "managed_proposal_correlation_key (pc_igreja_id c) (pc_reuniao_id c) (pc_conversa_id c) (pc_ator_pessoa_id c)
          (pc_expires_at c) = Inr key"
        "proposal_cycle_material (pc_igreja_id c) (pc_reuniao_id c) (pc_conversa_id c) (pc_ator_pessoa_id c) key (pc_expires_at c)
          (pc_opens_new_attempt c) (pc_transaction c) (pc_nested_transaction c) t = Inr material"
        "pc_correlation_key c = key" "pc_turn_id c = ti_turn_id t" "pc_material c = hmac_sha256 (ev_secret E) material"
      by (rule minted_cycle [OF e])
    have r: "require_managed_cycle_identity (ev_text E) t (pc_igreja_id c) (pc_conversa_id c) = Inr t"
      using id [OF t(4)] by (simp add: managed_identity_Inr)
    show ?l
      using t x m r id [OF t(4)]
      by (simp add: require_proposal_cycle_def cycle_identity_def [symmetric] app_require_uuid_def translated_def [of _ "Inr _"])
  qed
qed

text \<open>What a proposal that succeeded says of itself.\<close>

lemma proposal_result_facts:
  assumes U: "unicode_ok (ev_text E)" and x: "valid_datetime expires"
    and run: "propose_cell_report_legacy E g r c a key t v msg now expires db = (Inr res, db')"
  obtains n e b w where "canonical_utc now = Inr n" "canonical_utc expires = Inr e"
    "derive_cell_report_proposal_bindings g r c a = Inr b" "derive_scope_digest (PyStr key) = Inr w"
    "pp_bindings (pr_proposal res) = b" "scope_digest (pp_workflow (pr_proposal res)) = PyStr w"
    "instant (pp_expires_at (pr_proposal res)) = instant e" "live (pr_proposal res) n"
proof -
  let ?U = "ev_text E"
  obtain n e b patch w m d base dec p rep where h:
      "proposal_arguments E g r c a key t v msg now expires = Inr (n, e, b, patch, w, v)"
      "proposal_move ?U m v b patch w base n e dec" "apply_decision E m v b base n e dec d = (Inr (p, rep), db')"
      "pr_proposal res = p"
    using propose_legacy_run [OF U, of g r c a key t v msg now expires db res db'] run by auto
  note args = h(1) [unfolded proposal_arguments_Inr [OF U]]
  have e: "valid_datetime e" "tzinfo e = TimezoneUtc" using canonical_utc_Inr [OF x] args by blast+
  have k: "candidate_ok ?U patch" using args parsed_ok [OF U] by blast
  obtain s where s: "derive_scope_digest (PyStr key) = Inr s" "scope_digest w = PyStr s"
    using start_result [OF U, of "PyStr key" "Some patch" w] args by (metis minted_sel(2))
  have "pp_bindings p = b \<and> scope_digest (pp_workflow p) = scope_digest w \<and> instant (pp_expires_at p) = instant e \<and> live p n"
  proof (cases dec)
    case (ReplayOf q)
    then have "q = p" using h(3) apply_decision_run [OF U e] by simp
    then show ?thesis using h(2) ReplayOf by (auto simp: pending_row_def elim: proposal_moveE)
  next
    case (WriteNext w' prior)
    then have "p = envelope_of w' b e prior v base" using h(3) apply_decision_run [OF U e] by simp
    then show ?thesis using written_scope [OF U k] h(2) WriteNext args by (auto simp: envelope_of_def live_def)
  qed
  with that args s h(4) show thesis by metis
qed

section \<open>A sample cycle\<close>

definition cycle_expiry :: datetime where
  "cycle_expiry = sample_expiry\<lparr>day := 2, hour := 6\<rparr>"

lemma cycle_expiry_day: "add_days 1 app_now = Some cycle_expiry"
  by (simp add: app_now_def cycle_expiry_def sample_expiry_def next_day_def days_in_month_def eval_nat_numeral)

lemma cycle_expiry_valid: "valid_datetime cycle_expiry" "tzinfo cycle_expiry = TimezoneUtc"
    "length (render_instant cycle_expiry) \<le> 200"
  by (simp_all add: cycle_expiry_def sample_expiry_def valid_datetime_def valid_date_def days_in_month_def is_leap_def
      render_instant_def length_zero_pad)

lemma cycle_expiry_instant: "instant cycle_expiry = instant app_now + 86400000000"
  using add_days_instant [OF app_now_utc(2) cycle_expiry_day] by simp

lemma sample_identity_built: "build_agent_turn_identity ascii_db 1 2 3 (u ''msg'') EVOLUTION = Inr sample_identity"
  by (simp add: build_agent_turn_identity_def require_non_nil_uuid_def sample_identity_def require_provider_message_id_def
      u_def ascii_bytes_def ascii_db_def utf8_char_def py_isspace_def MAX_PROVIDER_MESSAGE_ID_BYTES_def)

lemma sample_cycle:
  obtains c where "mint_proposal_cycle sample_env 1 5 2 4 cycle_expiry True 1 None sample_identity = Inr c"
    "require_proposal_cycle sample_env c = Inr c"
    "c = \<lparr>pc_igreja_id = 1, pc_reuniao_id = 5, pc_conversa_id = 2, pc_ator_pessoa_id = 4, pc_correlation_key = pc_correlation_key c,
          pc_expires_at = cycle_expiry, pc_opens_new_attempt = True, pc_transaction = 1, pc_nested_transaction = None,
          pc_turn_id = ti_turn_id sample_identity, pc_inbound_message_id = 3, pc_provider_message_id = u ''msg'',
          pc_material = pc_material c\<rparr>"
    "prefixed_hex64 scope_prefix (pc_correlation_key c)"
proof -
  obtain key where key: "managed_proposal_correlation_key 1 5 2 4 cycle_expiry = Inr key" "prefixed_hex64 scope_prefix key"
    by (simp add: managed_key_Inr [OF cycle_expiry_valid(1,2)])
  obtain material where mat: "proposal_cycle_material 1 5 2 4 key cycle_expiry True 1 None sample_identity = Inr material"
    by (simp add: proposal_cycle_material_def sample_identity_def u_def utf8_char_def)
  define c where "c = \<lparr>pc_igreja_id = 1, pc_reuniao_id = 5, pc_conversa_id = 2, pc_ator_pessoa_id = 4, pc_correlation_key = key,
      pc_expires_at = cycle_expiry, pc_opens_new_attempt = True, pc_transaction = 1, pc_nested_transaction = None,
      pc_turn_id = ti_turn_id sample_identity, pc_inbound_message_id = 3, pc_provider_message_id = u ''msg'',
      pc_material = hmac_sha256 (ev_secret sample_env) material\<rparr>"
  have m: "mint_proposal_cycle sample_env 1 5 2 4 cycle_expiry True 1 None sample_identity = Inr c"
    using key(1) mat canonical_utc_same [OF cycle_expiry_valid(1,2)]
    by (simp add: mint_proposal_cycle_def c_def) (simp add: sample_identity_def)
  moreover have "require_proposal_cycle sample_env c = Inr c"
    using m sample_identity_built cycle_expiry_valid
    by (simp add: require_cycle_iff c_def cycle_identity_def translated_Inr)
  ultimately show thesis using that [of c] key(2) by (simp add: c_def)
qed

text \<open>The state of a session after readings of the clock and locks.\<close>

definition later_db :: "meeting \<Rightarrow> nat \<Rightarrow> statement list \<Rightarrow> app_db" where
  "later_db m k l = (sample_db m)\<lparr>db_reads := k, db_log := l\<rparr>"

lemma later_authorized:
  assumes "sample_row m"
  shows "\<exists>l'. load_and_authorize sample_env 1 5 2 4 app_now (later_db m k l) = (Inr m, later_db m k l')"
proof -
  have t: "tables (later_db m k l) = tables (sample_db m)" by (simp add: later_db_def tables_def)
  note rows = rows_tables [OF t]
  have p: "db_pg (later_db m k l) = db_pg (sample_db m)" by (simp add: later_db_def)
  have "authorized sample_env (later_db m k l) 1 5 2 4 app_now m"
    using sample_authorized [OF assms] rows p
    unfolding authorized_def conversation_ok_def meeting_row_def leader_ok_def access_ok_def by (simp; metis)
  moreover have "faultless sample_env (later_db m k l)" using sample_faultless by (simp add: faultless_def p)
  ultimately show ?thesis using authorize_complete by (fastforce simp: later_db_def)
qed

lemma sample_cycle_prepared:
  assumes "mint_proposal_cycle sample_env 1 5 2 4 cycle_expiry True 1 None sample_identity = Inr c"
  shows "\<exists>l'. prepare_cell_report_proposal_cycle sample_env 1 5 2 4 sample_identity (later_db (sample_meeting PyNone) k l)
    = (Inr c, later_db (sample_meeting PyNone) (k + 1) l')"
proof -
  let ?m = "sample_meeting PyNone"
  obtain l' where l: "load_and_authorize sample_env 1 5 2 4 app_now (later_db ?m (k + 1) l) = (Inr ?m, later_db ?m (k + 1) l')"
    using later_authorized [of ?m "k + 1" l] by auto
  have "require_managed_cycle_identity ascii_db sample_identity 1 2 = Inr sample_identity"
    using sample_identity_ok by (simp add: managed_identity_Inr) (simp add: sample_identity_def)
  moreover have "app_external_transaction (later_db ?m k l) = (Inr (1, None), later_db ?m k l)"
    by (simp add: app_external_transaction_def later_db_def sample_db_def sample_pg_def)
  moreover have "utc_now sample_env (later_db ?m k l) = (Inr app_now, later_db ?m (k + 1) l)"
    by (simp add: utc_now_def sample_env_def later_db_def)
  moreover have "new_proposal_cycle_expiry app_now = Inr cycle_expiry"
    by (simp add: new_proposal_cycle_expiry_def cycle_expiry_day del: add_days.simps One_nat_def)
  moreover have "m_relatorio_status ?m = RELATORIO_PENDENTE" "m_relatorio_snapshot ?m = PyNone" by (simp_all add: sample_meeting_def)
  ultimately show ?thesis
    using l app_now_utc(1) assms
    by (intro exI [of _ l']) (simp add: prepare_cell_report_proposal_cycle_def app_require_uuid_def sbind_run from_result_def Let_def)
qed

text \<open>The message opens the first report of the meeting, in a session of the cycle's transaction.\<close>

lemma sample_first_proposal:
  assumes k: "prefixed_hex64 scope_prefix key"
  shows "\<exists>v res d'. propose_cell_report_legacy sample_env 1 5 2 4 key sample_identity v (PyStr sample_text) app_now cycle_expiry
    (later_db (sample_meeting PyNone) n l) = (Inr res, d')"
proof -
  let ?m = "sample_meeting PyNone"
  obtain s where s: "derive_scope_digest (PyStr key) = Inr s" using derive_scope_digest_ok [OF k] by blast
  have sp: "prefixed_hex64 scope_prefix s" by (rule scope_digest_result [OF s])
  have pk: "candidate_ok ascii_db sample_parsed" using parsed_ok [OF ascii_db_ok sample_parse] .
  define w where "w = minted s 1 sample_parsed None (open_state sample_parsed) None"
  have w: "start_cell_report_workflow ascii_db (PyStr key) (Some sample_parsed) = Inr w"
    using s pk validate_candidate_ok [OF ascii_db_ok pk] ascii_db_ok by (simp add: start_cell_report_workflow_def w_def)
  have wo: "workflow_ok ascii_db w"
    using minted_okI [of ascii_db s 1 sample_parsed None "open_state sample_parsed" None w] sp pk
    by (simp add: w_def wf_parts_def previous_ok_def status_ok_def report_limits)
  obtain b where b: "derive_cell_report_proposal_bindings 1 5 2 4 = Inr b" by (simp add: derived_bindings)
  obtain v where v: "effect_for ascii_db sample_identity 1 2 (proposal_effect_payload (PyDict (bindings_json b)) (scope_digest w)
      (PyDict (candidate_payload sample_parsed)) cycle_expiry) v"
    using proposal_payload_digests [OF derived_bindings_ok [OF b] sp derived_shapes(2) cycle_expiry_valid(3)] sample_effect_for
    by (simp add: w_def) blast
  have args: "proposal_arguments sample_env 1 5 2 4 key sample_identity v (PyStr sample_text) app_now cycle_expiry
      = Inr (app_now, cycle_expiry, b, sample_parsed, w, v)"
    using app_now_utc canonical_utc_same [OF cycle_expiry_valid(1,2)] cycle_expiry_instant sample_parse w b v
    by (simp add: proposal_arguments_Inr ascii_db_ok MAX_CELL_REPORT_PROPOSAL_TTL_def) (simp add: sample_parsed_def is_empty_def)
  obtain base where base: "\<And>j. base_state_of ascii_db (sample_meeting j) = Inr base" "prefixed_hex64 base_digest_prefix base"
    by (rule sample_base_state) blast
  let ?p = "envelope_of w b cycle_expiry [] v base"
  have st: "state w \<in> {EMPTY, COLLECTING, AWAITING_CONFIRMATION}" using open_state_cases by (simp add: w_def)
  have p: "proposal_ok ascii_db ?p"
    using wo st derived_bindings_ok [OF b] base(2) effect_shapes [OF v] cycle_expiry_valid(2)
    by (simp add: proposal_ok_def envelope_of_def receipts_ok_def receipt_ok_def MAX_OPERATION_RECEIPTS_def w_def)
  obtain wj where wj: "cell_report_workflow_payload ascii_db w = Inr wj"
    using wo payload_minted [OF ascii_db_ok] by (auto simp: workflow_ok_def)
  have pj: "proposal_to_jsonb ascii_db ?p = Inr (PyDict (proposal_value ?p wj))"
    by (rule to_jsonb_ok [OF ascii_db_ok _ p]) (use cycle_expiry_valid wj in \<open>simp_all add: envelope_of_def\<close>)
  obtain x where x: "confirmation_for ascii_db w = Inr x" using confirmation_of_ok(1) [OF ascii_db_ok wo] by blast
  obtain l' where au: "load_and_authorize sample_env 1 5 2 4 app_now (later_db ?m n l) = (Inr ?m, later_db ?m n l')"
    using later_authorized [of ?m n l] by auto
  have mv: "proposal_move ascii_db ?m v b sample_parsed w base app_now cycle_expiry (WriteNext w [])"
    by (rule proposal_move.first) (simp add: sample_meeting_def)
  have ap: "\<exists>d'. apply_decision sample_env ?m v b base app_now cycle_expiry (WriteNext w []) (later_db ?m n l') = (Inr (?p, False), d')"
    using apply_decision_run [OF _ cycle_expiry_valid(1,2), of sample_env] p pj ascii_db_ok
    by (simp add: later_db_def sample_db_def sample_pg_def)
  then obtain d' where ap: "apply_decision sample_env ?m v b base app_now cycle_expiry (WriteNext w []) (later_db ?m n l') = (Inr (?p, False), d')" ..
  have "propose_cell_report_legacy sample_env 1 5 2 4 key sample_identity v (PyStr sample_text) app_now cycle_expiry (later_db ?m n l)
      = (Inr \<lparr>pr_proposal = ?p, pr_confirmation_command = x, pr_replayed = False\<rparr>, d')"
    unfolding propose_legacy_run [of sample_env, simplified, OF ascii_db_ok]
    using args au base(1) mv ap x
    by (intro exI conjI) (auto simp: later_db_def sample_db_def sample_pg_def sample_meeting_def envelope_of_def)
  then show ?thesis by blast
qed

lemma sample_cycle_run:
  obtains c v res db' where
    "propose_cell_report_from_cycle sample_env c sample_identity v (PyStr sample_text) (sample_db (sample_meeting PyNone)) = (Inr res, db')"
    "require_proposal_cycle sample_env c = Inr c" "pc_expires_at c = cycle_expiry"
proof -
  obtain c where c: "mint_proposal_cycle sample_env 1 5 2 4 cycle_expiry True 1 None sample_identity = Inr c"
    "require_proposal_cycle sample_env c = Inr c"
    "c = \<lparr>pc_igreja_id = 1, pc_reuniao_id = 5, pc_conversa_id = 2, pc_ator_pessoa_id = 4, pc_correlation_key = pc_correlation_key c,
          pc_expires_at = cycle_expiry, pc_opens_new_attempt = True, pc_transaction = 1, pc_nested_transaction = None,
          pc_turn_id = ti_turn_id sample_identity, pc_inbound_message_id = 3, pc_provider_message_id = u ''msg'',
          pc_material = pc_material c\<rparr>"
    "prefixed_hex64 scope_prefix (pc_correlation_key c)" by (rule sample_cycle)
  have f: "pc_igreja_id c = 1" "pc_reuniao_id c = 5" "pc_conversa_id c = 2" "pc_ator_pessoa_id c = 4" "pc_expires_at c = cycle_expiry"
    "pc_transaction c = 1" "pc_nested_transaction c = None" "pc_turn_id c = ti_turn_id sample_identity"
    "pc_inbound_message_id c = 3" "pc_provider_message_id c = u ''msg''" by (subst c(3), simp)+
  let ?m = "sample_meeting PyNone"
  obtain l where prep: "prepare_cell_report_proposal_cycle sample_env 1 5 2 4 sample_identity (later_db ?m 1 []) = (Inr c, later_db ?m 2 l)"
    using sample_cycle_prepared [OF c(1), of 1 "[]"] by (auto simp: numeral_2_eq_2)
  obtain v res d' where pr: "propose_cell_report_legacy sample_env 1 5 2 4 (pc_correlation_key c) sample_identity v (PyStr sample_text)
      app_now cycle_expiry (later_db ?m 2 l) = (Inr res, d')" using sample_first_proposal [OF c(4)] by blast
  have "require_managed_cycle_identity ascii_db sample_identity 1 2 = Inr sample_identity"
    using sample_identity_ok by (simp add: managed_identity_Inr) (simp add: sample_identity_def)
  moreover have "app_external_transaction (sample_db ?m) = (Inr (1, None), sample_db ?m)"
    by (simp add: app_external_transaction_def sample_db_def sample_pg_def)
  moreover have "utc_now sample_env (sample_db ?m) = (Inr app_now, later_db ?m 1 [])"
    by (simp add: utc_now_def sample_env_def later_db_def sample_db_def)
  moreover have "ti_inbound_message_id sample_identity = 3" "ti_provider_message_id sample_identity = u ''msg''"
    by (simp_all add: sample_identity_def)
  moreover have "same_proposal_cycle c c" by (simp add: same_proposal_cycle_def)
  ultimately have "propose_cell_report_from_cycle sample_env c sample_identity v (PyStr sample_text) (sample_db ?m) = (Inr res, d')"
    using c(2) f prep pr app_now_utc(1)
    by (simp add: propose_cell_report_from_cycle_def sbind_run from_result_def)
  with that c(2) f(5) show thesis by blast
qed

section \<open>Properties\<close>

text \<open>
  C23. A cycle is accepted exactly when it is the one the module itself would mint from the cycle's
  own fields: the four identifiers and the message are present, the turn is the one derived from
  them, the correlation key is the key of these identifiers and this expiry, and the seal is the
  keyed digest, under the secret of the process, of every field.
\<close>

theorem accepted_cycles_minted:
  assumes "valid_datetime (pc_expires_at c)" "tzinfo (pc_expires_at c) = TimezoneUtc"
  shows "require_proposal_cycle E c = Inr c \<longleftrightarrow>
    pc_reuniao_id c \<noteq> 0 \<and> pc_ator_pessoa_id c \<noteq> 0
    \<and> (\<exists>t. build_agent_turn_identity (ev_text E) (pc_igreja_id c) (pc_conversa_id c) (pc_inbound_message_id c)
              (pc_provider_message_id c) EVOLUTION = Inr t
         \<and> mint_proposal_cycle E (pc_igreja_id c) (pc_reuniao_id c) (pc_conversa_id c) (pc_ator_pessoa_id c) (pc_expires_at c)
             (pc_opens_new_attempt c) (pc_transaction c) (pc_nested_transaction c) t = Inr c)"
  unfolding require_cycle_iff [OF assms] by (simp add: cycle_identity_def translated_Inr)

theorem accepted_cycles_minted_witness:
  "\<exists>c t. build_agent_turn_identity ascii_db (pc_igreja_id c) (pc_conversa_id c) (pc_inbound_message_id c)
        (pc_provider_message_id c) EVOLUTION = Inr t
     \<and> mint_proposal_cycle sample_env (pc_igreja_id c) (pc_reuniao_id c) (pc_conversa_id c) (pc_ator_pessoa_id c) cycle_expiry
         (pc_opens_new_attempt c) (pc_transaction c) (pc_nested_transaction c) t = Inr c"
proof -
  obtain c v res db' where c: "require_proposal_cycle sample_env c = Inr c" "pc_expires_at c = cycle_expiry"
    by (rule sample_cycle_run)
  from accepted_cycles_minted [of c sample_env] c cycle_expiry_valid show ?thesis by auto
qed

text \<open>
  C24. A proposal in a managed cycle is bound to the cycle and to its transaction.  When it succeeds,
  the session is in the very transaction, and savepoint, the cycle was prepared in, the turn is
  the cycle's turn and the cycle is one the module minted; and the proposal answered, whether
  written or replayed, has the bindings of the cycle's identifiers, the scope of its correlation
  key and the instant of its expiry, which lies ahead of the clock by a day at most.
\<close>

theorem cycle_proposal_bound:
  assumes U: "unicode_ok (ev_text E)" and x: "valid_datetime (pc_expires_at cycle)" and clock: "\<And>k. valid_datetime (ev_clock E k)"
    and run: "propose_cell_report_from_cycle E cycle t v msg db = (Inr res, db')"
  shows "require_proposal_cycle E cycle = Inr cycle
    \<and> pg_transaction (db_pg db) = Some (pc_transaction cycle) \<and> db_nested db = pc_nested_transaction cycle
    \<and> ti_turn_id t = pc_turn_id cycle \<and> ti_inbound_message_id t = pc_inbound_message_id cycle
    \<and> (\<exists>key. derive_scope_digest (PyStr (pc_correlation_key cycle)) = Inr key
         \<and> scope_digest (pp_workflow (pr_proposal res)) = PyStr key)
    \<and> derive_cell_report_proposal_bindings (pc_igreja_id cycle) (pc_reuniao_id cycle) (pc_conversa_id cycle)
        (pc_ator_pessoa_id cycle) = Inr (pp_bindings (pr_proposal res))
    \<and> instant (pp_expires_at (pr_proposal res)) = instant (pc_expires_at cycle)
    \<and> (\<exists>n. canonical_utc (ev_clock E (db_reads db)) = Inr n \<and> live (pr_proposal res) n)"
  using run
proof (rule cycle_run)
  fix n d current
  assume h: "require_proposal_cycle E cycle = Inr cycle" "pg_transaction (db_pg db) = Some (pc_transaction cycle)"
    "db_nested db = pc_nested_transaction cycle" "ti_inbound_message_id t = pc_inbound_message_id cycle"
    "ti_turn_id t = pc_turn_id cycle" "canonical_utc (ev_clock E (db_reads db)) = Inr n"
    "propose_cell_report_legacy E (pc_igreja_id cycle) (pc_reuniao_id cycle) (pc_conversa_id cycle) (pc_ator_pessoa_id cycle)
       (pc_correlation_key cycle) t v msg n (pc_expires_at cycle) d = (Inr res, db')"
  obtain n' e b w where f: "canonical_utc n = Inr n'" "canonical_utc (pc_expires_at cycle) = Inr e"
    "derive_cell_report_proposal_bindings (pc_igreja_id cycle) (pc_reuniao_id cycle) (pc_conversa_id cycle)
       (pc_ator_pessoa_id cycle) = Inr b"
    "derive_scope_digest (PyStr (pc_correlation_key cycle)) = Inr w" "pp_bindings (pr_proposal res) = b"
    "scope_digest (pp_workflow (pr_proposal res)) = PyStr w" "instant (pp_expires_at (pr_proposal res)) = instant e"
    "live (pr_proposal res) n'" by (rule proposal_result_facts [OF U x h(7)])
  have "n' = n" using canonical_utc_Inr [OF clock h(6)] canonical_utc_same f(1) by auto
  moreover have "instant e = instant (pc_expires_at cycle)" using canonical_utc_Inr [OF x f(2)] by blast
  ultimately show ?thesis using h f by auto
qed

theorem cycle_proposal_bound_witness:
  "\<exists>c v res db'. propose_cell_report_from_cycle sample_env c sample_identity v (PyStr sample_text)
       (sample_db (sample_meeting PyNone)) = (Inr res, db') \<and> pc_transaction c = 1
     \<and> instant (pp_expires_at (pr_proposal res)) = instant cycle_expiry"
proof -
  obtain c v res db' where h: "propose_cell_report_from_cycle sample_env c sample_identity v (PyStr sample_text)
      (sample_db (sample_meeting PyNone)) = (Inr res, db')" "pc_expires_at c = cycle_expiry" by (rule sample_cycle_run)
  have "valid_datetime (ev_clock sample_env k)" for k using app_now_utc(2) by (simp add: sample_env_def)
  from cycle_proposal_bound [OF _ _ this h(1)] h cycle_expiry_valid(1) ascii_db_ok show ?thesis
    by (simp add: sample_db_def sample_pg_def) blast
qed

end
