(* ===== verification/ReportTurn.thy ===== *)
theory ReportTurn
  imports ReportSteps TurnDigests
begin

text \<open>
  The unit of work of a confirmed report turn, \<open>services/cell_report_turn_uow.py\<close>: in one transaction of its
  caller it binds the confirmation, one audit row and the outbound reply to one plan of three effects, locks the
  reserved reply row, lets \<open>confirm_cell_report\<close> materialise the report, and stages the audit row and the
  reply.  It flushes only; the caller commits.

  The session is the one of the application service together with the two further tables, of which the
  columns the service reads or writes are modelled.  A statement of the unit of work runs in the same session,
  so a failure fails the whole transaction.
\<close>

section \<open>Vocabulary and session\<close>

definition reply_effect_schema :: pystr where "reply_effect_schema = u ''cell-report-turn-reply-effect/v1''"
definition audit_effect_schema :: pystr where "audit_effect_schema = u ''cell-report-turn-audit-effect/v1''"
definition CELL_REPORT_TURN_AUDIT_EVENT :: pystr where "CELL_REPORT_TURN_AUDIT_EVENT = u ''cell_report_turn_staged''"
definition MAX_AGENT_TURN_RESPONSE_BYTES :: nat where "MAX_AGENT_TURN_RESPONSE_BYTES = 32768"
definition AGENT_REPLY_EXECUTING :: pystr where "AGENT_REPLY_EXECUTING = u ''ia_executando''"
definition AGENT_REPLY_PENDING :: pystr where "AGENT_REPLY_PENDING = u ''ia_pendente''"

text \<open>The codes of the unit of work, and the errors of the application service that it lets through.\<close>

datatype uow_error =
    INVALID_ARGUMENT
  | TRANSACTION_REQUIRED
  | EFFECT_PLAN_INVALID
  | REPLY_KEY_INVALID
  | REPLY_MESSAGE_NOT_FOUND
  | REPLY_MESSAGE_CONFLICT
  | AUDIT_CONFLICT
  | REPLAY_CONFLICT
  | DATA_INTEGRITY
  | Application app_error

record message =
  ms_id :: uuid
  ms_igreja_id :: uuid
  ms_conversation_id :: uuid
  ms_direcao :: pystr
  ms_autor :: pystr
  ms_tipo :: pystr
  ms_media_path :: "pystr option"
  ms_media_mime :: "pystr option"
  ms_media_nome :: "pystr option"
  ms_media_tamanho :: "int option"
  ms_autor_nome :: "pystr option"
  ms_enviado_por :: "uuid option"
  ms_provider_message_id :: "pystr option"
  ms_agent_reply_state :: "pystr option"
  ms_texto :: "pystr option"

record audit_log =
  al_igreja_id :: uuid
  al_conversation_id :: "uuid option"
  al_evento :: "pystr option"
  al_payload :: py

record turn_db =
  td_app :: app_db
  td_messages :: "message list"
  td_audits :: "audit_log list"

type_synonym 'a turn = "(uow_error, turn_db, 'a) effect"

text \<open>An operation of the application's session inside the turn's, with a handler for its errors.\<close>

definition in_app :: "(app_error \<Rightarrow> uow_error) \<Rightarrow> 'a app \<Rightarrow> 'a turn" where
  "in_app handler m d =
     (case m (td_app d) of
        (Inl e, a) \<Rightarrow> (Inl (handler e), d\<lparr>td_app := a\<rparr>)
      | (Inr x, a) \<Rightarrow> (Inr x, d\<lparr>td_app := a\<rparr>))"

definition checked :: "(uow_error, 'a) result \<Rightarrow> 'a turn" where
  "checked r d = (r, d)"

text \<open>A statement over the turn's session: what it answers, and what it writes.\<close>

definition run_statement :: "app_env \<Rightarrow> statement \<Rightarrow> (turn_db \<Rightarrow> 'a) \<Rightarrow> (turn_db \<Rightarrow> turn_db) \<Rightarrow> 'a turn" where
  "run_statement E st answer write =
     sbind (in_app (\<lambda>_. DATA_INTEGRITY) (execute E st (\<lambda>_. ()))) (\<lambda>_ d. (Inr (answer d), write d))"

section \<open>Arguments\<close>

definition uow_require_uuid :: "uuid \<Rightarrow> (uow_error, uuid) result" where
  "uow_require_uuid i = (if i = 0 then Inl INVALID_ARGUMENT else Inr i)"

definition require_bounded_string :: "unicode_db \<Rightarrow> nat \<Rightarrow> uow_error \<Rightarrow> pystr \<Rightarrow> (uow_error, pystr) result" where
  "require_bounded_string U max_bytes code s =
     (if s = [] then Inl code
      else if length s > max_bytes then Inl code
      else if py_isspace (hd s) \<or> py_isspace (last s) \<or> \<not> list_all (ud_printable U) s then Inl code
      else case utf8_encode s of
             None \<Rightarrow> Inl code
           | Some b \<Rightarrow> if length b > max_bytes then Inl code else Inr s)"

definition require_effects ::
  "unicode_db \<Rightarrow> turn_identity \<Rightarrow> effect_intent \<Rightarrow> effect_intent option \<Rightarrow> effect_intent option
   \<Rightarrow> (uow_error, effect_intent list) result" where
  "require_effects U t submission audit reply =
     (let values = submission # (case audit of None \<Rightarrow> [] | Some a \<Rightarrow> [a]) @ (case reply of None \<Rightarrow> [] | Some r \<Rightarrow> [r]) in
      ebind (ecatch (validate_agent_effect_intents U t values) (\<lambda>_. Inl EFFECT_PLAN_INVALID)) (\<lambda>validated.
      let kinds = (if reply \<noteq> None \<and> audit = None then [TOOL_CALL, OUTBOUND_REPLY]
                   else if audit \<noteq> None \<and> reply \<noteq> None then [TOOL_CALL, AUDIT_EVENT, OUTBOUND_REPLY] else [TOOL_CALL]) in
      if length validated \<noteq> length kinds \<or> map ei_kind validated \<noteq> kinds \<or> list_ex (\<lambda>v. ei_ordinal v \<noteq> 0) validated
      then Inl EFFECT_PLAN_INVALID else Inr validated))"

definition build_cell_report_turn_reply_effect_payload ::
  "unicode_db \<Rightarrow> turn_identity \<Rightarrow> effect_intent \<Rightarrow> pystr \<Rightarrow> (uow_error, py) result" where
  "build_cell_report_turn_reply_effect_payload U t submission_intent reply_text =
     ebind (require_effects U t submission_intent None None) (\<lambda>vs.
     let submission = vs ! 0 in
     ebind (require_bounded_string U MAX_AGENT_TURN_RESPONSE_BYTES INVALID_ARGUMENT reply_text) (\<lambda>response.
       Inr (PyDict [(u ''schema'', PyStr reply_effect_schema), (u ''submission_effect_id'', PyStr (ei_effect_id submission)),
                    (u ''submission_payload_digest'', PyStr (ei_payload_digest submission)), (u ''reply_text'', PyStr response)])))"

definition audit_payload_entries :: "effect_intent \<Rightarrow> effect_intent \<Rightarrow> (pystr \<times> py) list" where
  "audit_payload_entries submission reply =
     [(u ''schema'', PyStr audit_effect_schema), (u ''evento'', PyStr CELL_REPORT_TURN_AUDIT_EVENT),
      (u ''submission_effect_id'', PyStr (ei_effect_id submission)),
      (u ''submission_payload_digest'', PyStr (ei_payload_digest submission)),
      (u ''reply_effect_id'', PyStr (ei_effect_id reply)), (u ''reply_payload_digest'', PyStr (ei_payload_digest reply))]"

definition build_cell_report_turn_audit_effect_payload ::
  "unicode_db \<Rightarrow> turn_identity \<Rightarrow> effect_intent \<Rightarrow> effect_intent \<Rightarrow> (uow_error, (pystr \<times> py) list) result" where
  "build_cell_report_turn_audit_effect_payload U t submission_intent reply_intent =
     ebind (require_effects U t submission_intent None (Some reply_intent)) (\<lambda>effects.
       if length effects \<noteq> 2 then Inl EFFECT_PLAN_INVALID
       else Inr (audit_payload_entries (effects ! 0) (effects ! 1)))"

definition validate_effect_payload :: "effect_intent \<Rightarrow> effect_kind \<Rightarrow> py \<Rightarrow> (uow_error, unit) result" where
  "validate_effect_payload intent expected_kind payload =
     (if ei_kind intent \<noteq> expected_kind then Inl EFFECT_PLAN_INVALID
      else ebind (ecatch (digest_effect_payload (ei_effect_id intent) expected_kind payload) (\<lambda>_. Inl EFFECT_PLAN_INVALID)) (\<lambda>expected.
        if ei_payload_digest intent \<noteq> expected then Inl EFFECT_PLAN_INVALID else Inr ()))"

definition bind_reply_key ::
  "unicode_db \<Rightarrow> turn_identity \<Rightarrow> execution_plan \<Rightarrow> effect_intent \<Rightarrow> key_version \<Rightarrow> pystr \<Rightarrow> (uow_error, unit) result" where
  "bind_reply_key U t plan reply version exact_locked_key =
     ebind (ecatch (if version = V2 then build_agent_effect_compatibility_key U t plan reply version
                    else bind_agent_legacy_reply_key_evidence U t plan reply version exact_locked_key)
              (\<lambda>_. Inl REPLY_KEY_INVALID)) (\<lambda>compatibility.
       if ck_key compatibility \<noteq> exact_locked_key then Inl REPLY_KEY_INVALID else Inr ())"

section \<open>The locked rows\<close>

definition reply_rows :: "turn_db \<Rightarrow> uuid \<Rightarrow> uuid \<Rightarrow> uuid \<Rightarrow> message list" where
  "reply_rows d igreja conversa reply =
     filter (\<lambda>x. ms_id x = reply \<and> ms_igreja_id x = igreja \<and> ms_conversation_id x = conversa) (td_messages d)"

definition load_locked_reply_message ::
  "app_env \<Rightarrow> uuid \<Rightarrow> uuid \<Rightarrow> uuid \<Rightarrow> pystr \<Rightarrow> pystr \<Rightarrow> (message \<times> bool) turn" where
  "load_locked_reply_message E igreja conversa reply expected_key reply_text =
     sbind (run_statement E (LockReply reply) (\<lambda>d. take 2 (reply_rows d igreja conversa reply)) (\<lambda>d. d)) (\<lambda>rows.
       case rows of
         [] \<Rightarrow> raising REPLY_MESSAGE_NOT_FOUND
       | [m] \<Rightarrow>
           if ms_id m \<noteq> reply \<or> ms_igreja_id m \<noteq> igreja \<or> ms_conversation_id m \<noteq> conversa
              \<or> ms_direcao m \<noteq> u ''out'' \<or> ms_autor m \<noteq> u ''ia'' \<or> ms_tipo m \<noteq> u ''texto''
              \<or> ms_media_path m \<noteq> None \<or> ms_media_mime m \<noteq> None \<or> ms_media_nome m \<noteq> None \<or> ms_media_tamanho m \<noteq> None
              \<or> ms_autor_nome m \<noteq> None \<or> ms_enviado_por m \<noteq> None \<or> ms_provider_message_id m \<noteq> Some expected_key
           then raising REPLY_MESSAGE_CONFLICT
           else if ms_agent_reply_state m = Some AGENT_REPLY_EXECUTING then
             (if ms_texto m \<noteq> None then raising REPLY_MESSAGE_CONFLICT else ret (m, False))
           else if ms_agent_reply_state m = Some AGENT_REPLY_PENDING then
             (if ms_texto m \<noteq> Some reply_text then raising REPLY_MESSAGE_CONFLICT else ret (m, True))
           else raising REPLY_MESSAGE_CONFLICT
       | _ \<Rightarrow> raising DATA_INTEGRITY)"

text \<open>
  \<open>payload ->> 'submission_effect_id'\<close> is the text of the entry; an effect identifier is never the JSON text
  of a value that is not a string.
\<close>

definition audit_rows :: "turn_db \<Rightarrow> uuid \<Rightarrow> uuid \<Rightarrow> pystr \<Rightarrow> audit_log list" where
  "audit_rows d igreja conversa submission_effect =
     filter (\<lambda>x. al_igreja_id x = igreja \<and> al_conversation_id x = Some conversa
       \<and> al_evento x = Some CELL_REPORT_TURN_AUDIT_EVENT
       \<and> (case al_payload x of PyDict e \<Rightarrow> py_get e (u ''submission_effect_id'') = PyStr submission_effect | _ \<Rightarrow> False))
     (td_audits d)"

definition load_matching_audit :: "app_env \<Rightarrow> uuid \<Rightarrow> uuid \<Rightarrow> pystr \<Rightarrow> py \<Rightarrow> audit_log option turn" where
  "load_matching_audit E igreja conversa submission_effect expected_payload =
     sbind (run_statement E (LockAudit submission_effect) (\<lambda>d. take 2 (audit_rows d igreja conversa submission_effect)) (\<lambda>d. d))
      (\<lambda>rows.
       case rows of
         [] \<Rightarrow> ret None
       | [a] \<Rightarrow>
           if al_igreja_id a \<noteq> igreja \<or> al_conversation_id a \<noteq> Some conversa \<or> al_evento a \<noteq> Some CELL_REPORT_TURN_AUDIT_EVENT
              \<or> \<not> same_json (al_payload a) expected_payload
           then raising AUDIT_CONFLICT else ret (Some a)
       | _ \<Rightarrow> raising AUDIT_CONFLICT)"

section \<open>Staging a confirmed turn\<close>

record stage_result =
  sr_snapshot :: py
  sr_plan :: execution_plan
  sr_replayed :: bool
  sr_requires_caller_commit :: bool

text \<open>The checks before the session is touched: the three effects, their plan and the payload of the audit row.\<close>

definition stage_arguments ::
  "app_env \<Rightarrow> uuid \<Rightarrow> uuid \<Rightarrow> uuid \<Rightarrow> uuid \<Rightarrow> turn_identity \<Rightarrow> effect_intent \<Rightarrow> effect_intent \<Rightarrow> effect_intent \<Rightarrow> uuid
   \<Rightarrow> pystr \<Rightarrow> key_version \<Rightarrow> pystr \<Rightarrow> (uow_error, effect_intent \<times> effect_intent \<times> execution_plan \<times> py) result" where
  "stage_arguments E igreja reuniao conversa ator t submission_intent audit_intent reply_intent reply_id provider_key version reply_text =
     (let U = ev_text E in
     ebind (uow_require_uuid igreja) (\<lambda>_.
     ebind (uow_require_uuid reuniao) (\<lambda>_.
     ebind (uow_require_uuid conversa) (\<lambda>_.
     ebind (uow_require_uuid ator) (\<lambda>_.
     ebind (uow_require_uuid reply_id) (\<lambda>_.
     ebind (require_bounded_string U MAX_PROVIDER_MESSAGE_ID_BYTES REPLY_KEY_INVALID provider_key) (\<lambda>key.
     ebind (require_bounded_string U MAX_AGENT_TURN_RESPONSE_BYTES INVALID_ARGUMENT reply_text) (\<lambda>response.
     ebind (require_effects U t submission_intent (Some audit_intent) (Some reply_intent)) (\<lambda>effects.
     if length effects \<noteq> 3 then Inl EFFECT_PLAN_INVALID
     else let submission = effects ! 0; audit = effects ! 1; reply = effects ! 2 in
     if ti_igreja_id t \<noteq> igreja \<or> ti_conversation_id t \<noteq> conversa then Inl EFFECT_PLAN_INVALID
     else
     ebind (build_cell_report_turn_reply_effect_payload U t submission response) (\<lambda>reply_payload.
     ebind (validate_effect_payload reply OUTBOUND_REPLY reply_payload) (\<lambda>_.
     ebind (build_cell_report_turn_audit_effect_payload U t submission reply) (\<lambda>audit_payload.
     ebind (validate_effect_payload audit AUDIT_EVENT (PyDict audit_payload)) (\<lambda>_.
     ebind (ecatch (build_agent_turn_execution_plan U t [submission, audit, reply]) (\<lambda>_. Inl EFFECT_PLAN_INVALID)) (\<lambda>plan.
     ebind (if version = V2 then bind_reply_key U t plan reply version key else Inr ()) (\<lambda>_.
       Inr (submission, reply, plan, PyDict (audit_payload @ [(u ''plan_digest'', PyStr (pl_plan_digest plan))])))))))))))))))))"

text \<open>The final flush: the reply row takes its text and state, and the audit row is inserted.\<close>

definition stage_rows :: "app_env \<Rightarrow> message \<Rightarrow> pystr \<Rightarrow> audit_log \<Rightarrow> unit turn" where
  "stage_rows E m response audit_row =
     run_statement E (FlushTurn (ms_id m)) (\<lambda>_. ())
       (\<lambda>d. d\<lparr>td_messages := map (\<lambda>x. if ms_id x = ms_id m
                 then m\<lparr>ms_texto := Some response, ms_agent_reply_state := Some AGENT_REPLY_PENDING\<rparr> else x) (td_messages d),
              td_audits := td_audits d @ [audit_row\<lparr>al_payload := ev_jsonb E (al_payload audit_row)\<rparr>]\<rparr>)"

definition confirmation_error :: "app_error \<Rightarrow> uow_error" where
  "confirmation_error e = (if e = REPLAY_EXPECTATION_MISMATCH then REPLAY_CONFLICT else Application e)"

definition provider_key_of :: "message \<Rightarrow> pystr" where
  "provider_key_of m = (case ms_provider_message_id m of None \<Rightarrow> [] | Some k \<Rightarrow> k)"

text \<open>The reserved reply and the audit row of the turn, under locks: whether the turn was staged before.\<close>

definition lock_turn_rows ::
  "app_env \<Rightarrow> uuid \<Rightarrow> uuid \<Rightarrow> turn_identity \<Rightarrow> effect_intent \<Rightarrow> effect_intent \<Rightarrow> execution_plan \<Rightarrow> py \<Rightarrow> uuid \<Rightarrow> pystr \<Rightarrow> key_version
   \<Rightarrow> pystr \<Rightarrow> (message \<times> bool) turn" where
  "lock_turn_rows E igreja conversa t submission reply plan persisted_audit_payload reply_id provider_key version reply_text =
     sbind (load_locked_reply_message E igreja conversa reply_id provider_key reply_text) (\<lambda>(m, replay_candidate).
     sbind (checked (if version \<noteq> V2 then bind_reply_key (ev_text E) t plan reply version (provider_key_of m) else Inr ())) (\<lambda>_.
     sbind (load_matching_audit E igreja conversa (ei_effect_id submission) persisted_audit_payload) (\<lambda>existing_audit.
     if replay_candidate \<noteq> (existing_audit \<noteq> None) then raising REPLAY_CONFLICT else ret (m, replay_candidate))))"

text \<open>What follows the confirmation.\<close>

definition finish_turn ::
  "app_env \<Rightarrow> uuid \<Rightarrow> uuid \<Rightarrow> execution_plan \<Rightarrow> py \<Rightarrow> pystr \<Rightarrow> message \<Rightarrow> bool \<Rightarrow> confirmation_result \<Rightarrow> stage_result turn" where
  "finish_turn E igreja conversa plan persisted_audit_payload reply_text m replay_candidate confirmation =
     (if replay_candidate then
        (if \<not> cr_replayed confirmation \<or> cr_requires_caller_commit confirmation then raising REPLAY_CONFLICT
         else ret \<lparr>sr_snapshot = cr_snapshot confirmation, sr_plan = plan, sr_replayed = True, sr_requires_caller_commit = True\<rparr>)
      else if cr_replayed confirmation \<or> \<not> cr_requires_caller_commit confirmation then raising REPLAY_CONFLICT
      else sbind (stage_rows E m reply_text
             \<lparr>al_igreja_id = igreja, al_conversation_id = Some conversa, al_evento = Some CELL_REPORT_TURN_AUDIT_EVENT,
              al_payload = persisted_audit_payload\<rparr>) (\<lambda>_.
        ret \<lparr>sr_snapshot = cr_snapshot confirmation, sr_plan = plan, sr_replayed = False, sr_requires_caller_commit = True\<rparr>))"

definition stage_confirmed_cell_report_turn ::
  "app_env \<Rightarrow> uuid \<Rightarrow> uuid \<Rightarrow> uuid \<Rightarrow> uuid \<Rightarrow> py \<Rightarrow> turn_identity \<Rightarrow> effect_intent \<Rightarrow> effect_intent \<Rightarrow> effect_intent \<Rightarrow> uuid
   \<Rightarrow> pystr \<Rightarrow> key_version \<Rightarrow> pystr \<Rightarrow> datetime \<Rightarrow> stage_result turn" where
  "stage_confirmed_cell_report_turn E igreja reuniao conversa ator command t submission_intent audit_intent reply_intent reply_id
      provider_key version reply_text now =
     sbind (checked (stage_arguments E igreja reuniao conversa ator t submission_intent audit_intent reply_intent reply_id
              provider_key version reply_text)) (\<lambda>(submission, reply, plan, persisted_audit_payload).
     sbind (in_app (\<lambda>_. TRANSACTION_REQUIRED) app_external_transaction) (\<lambda>_.
     sbind (in_app (\<lambda>_. DATA_INTEGRITY) (app_require_tenant_scope igreja)) (\<lambda>_.
     sbind (lock_turn_rows E igreja conversa t submission reply plan persisted_audit_payload reply_id provider_key version reply_text)
       (\<lambda>(m, replay_candidate).
     sbind (in_app confirmation_error
       (confirm_cell_report E igreja reuniao conversa ator command t submission now replay_candidate)) (\<lambda>confirmation.
     finish_turn E igreja conversa plan persisted_audit_payload reply_text m replay_candidate confirmation)))))"

section \<open>How the turn's session runs\<close>

named_theorems turn_run \<open>when the operations of the turn's session answer a value\<close>

lemma in_app_Inr [turn_run]: "in_app h m d = (Inr x, d') \<longleftrightarrow> (\<exists>a. m (td_app d) = (Inr x, a) \<and> d' = d\<lparr>td_app := a\<rparr>)"
  by (auto simp: in_app_def split: prod.splits sum.splits)

lemma in_app_Inl: "in_app h m d = (Inl e, d') \<longleftrightarrow> (\<exists>e' a. m (td_app d) = (Inl e', a) \<and> e = h e' \<and> d' = d\<lparr>td_app := a\<rparr>)"
  by (auto simp: in_app_def split: prod.splits sum.splits)

lemma checked_Inr [turn_run]: "checked r d = (Inr x, d') \<longleftrightarrow> r = Inr x \<and> d' = d"
  by (auto simp: checked_def)

text \<open>The session after further statements that only read.\<close>

definition logged :: "statement list \<Rightarrow> turn_db \<Rightarrow> turn_db" where
  "logged sts d = d\<lparr>td_app := (td_app d)\<lparr>db_log := db_log (td_app d) @ sts\<rparr>\<rparr>"

lemma logged_sel [simp]:
  "td_messages (logged sts d) = td_messages d" "td_audits (logged sts d) = td_audits d"
  "td_app (logged sts d) = (td_app d)\<lparr>db_log := db_log (td_app d) @ sts\<rparr>"
  by (simp_all add: logged_def)

lemma logged_logged [simp]: "logged ts (logged sts d) = logged (sts @ ts) d"
  by (simp add: logged_def)

lemma rows_logged [simp]:
  "reply_rows (logged sts d) = reply_rows d" "audit_rows (logged sts d) = audit_rows d"
  by (simp_all add: fun_eq_iff reply_rows_def audit_rows_def)

lemma run_statement_Inr [turn_run]:
  "run_statement E st f w d = (Inr x, d') \<longleftrightarrow>
   \<not> pg_failed (db_pg (td_app d)) \<and> \<not> ev_fault E (td_app d) st \<and> x = f (logged [st] d) \<and> d' = w (logged [st] d)"
  by (auto simp: run_statement_def sbind_Inr turn_run app_run logged_def)

text \<open>A reply row that may be staged, apart from its state and text.\<close>

definition reply_row_ok :: "message \<Rightarrow> pystr \<Rightarrow> bool" where
  "reply_row_ok m key \<longleftrightarrow> ms_direcao m = u ''out'' \<and> ms_autor m = u ''ia'' \<and> ms_tipo m = u ''texto''
     \<and> ms_media_path m = None \<and> ms_media_mime m = None \<and> ms_media_nome m = None \<and> ms_media_tamanho m = None
     \<and> ms_autor_nome m = None \<and> ms_enviado_por m = None \<and> ms_provider_message_id m = Some key"

definition reply_text_ok :: "message \<Rightarrow> bool \<Rightarrow> pystr \<Rightarrow> bool" where
  "reply_text_ok m staged text' \<longleftrightarrow>
     (if staged then ms_agent_reply_state m = Some AGENT_REPLY_PENDING \<and> ms_texto m = Some text'
      else ms_agent_reply_state m = Some AGENT_REPLY_EXECUTING \<and> ms_texto m = None)"

lemma reply_states: "AGENT_REPLY_PENDING \<noteq> AGENT_REPLY_EXECUTING"
  by (simp add: AGENT_REPLY_PENDING_def AGENT_REPLY_EXECUTING_def u_def)

lemma reply_rows_sound: "m \<in> set (reply_rows d g c i) \<Longrightarrow> ms_id m = i \<and> ms_igreja_id m = g \<and> ms_conversation_id m = c"
  by (auto simp: reply_rows_def)

lemma load_reply_run [turn_run]:
  "load_locked_reply_message E g c i key text' d = (Inr (m, staged), d') \<longleftrightarrow>
   \<not> pg_failed (db_pg (td_app d)) \<and> \<not> ev_fault E (td_app d) (LockReply i) \<and> reply_rows d g c i = [m]
   \<and> reply_row_ok m key \<and> reply_text_ok m staged text' \<and> d' = logged [LockReply i] d"
  using reply_rows_sound [of m d g c i] reply_states
  by (cases rule: single_row [of "reply_rows d g c i"])
    (auto simp: load_locked_reply_message_def sbind_Inr turn_run reply_row_ok_def reply_text_ok_def split: if_splits)

lemma audit_rows_sound: "x \<in> set (audit_rows d g c e) \<Longrightarrow>
    al_igreja_id x = g \<and> al_conversation_id x = Some c \<and> al_evento x = Some CELL_REPORT_TURN_AUDIT_EVENT"
  by (auto simp: audit_rows_def)

lemma load_audit_run [turn_run]:
  "load_matching_audit E g c e payload d = (Inr x, d') \<longleftrightarrow>
   \<not> pg_failed (db_pg (td_app d)) \<and> \<not> ev_fault E (td_app d) (LockAudit e)
   \<and> (case x of None \<Rightarrow> audit_rows d g c e = []
      | Some a \<Rightarrow> audit_rows d g c e = [a] \<and> same_json (al_payload a) payload)
   \<and> d' = logged [LockAudit e] d"
proof (cases rule: single_row [of "audit_rows d g c e"])
  case (1 a)
  then show ?thesis using audit_rows_sound [of a d g c e]
    by (auto simp: load_matching_audit_def sbind_Inr turn_run split: option.splits)
next
  case 2
  then show ?thesis by (auto simp: load_matching_audit_def sbind_Inr turn_run split: option.splits)
next
  case (3 a b)
  then show ?thesis by (auto simp: load_matching_audit_def sbind_Inr turn_run split: option.splits)
qed

section \<open>The arguments of a turn\<close>

lemma bounded_string_same: "require_bounded_string U n code x = Inr y \<Longrightarrow> y = x"
  by (auto simp: require_bounded_string_def split: if_splits option.splits)

lemma require_effects_result:
  "require_effects U t v au rp = Inr vs \<longleftrightarrow>
   identity_ok U t \<and> (let ws = v # (case au of None \<Rightarrow> [] | Some a \<Rightarrow> [a]) @ (case rp of None \<Rightarrow> [] | Some r \<Rightarrow> [r]) in
     vs = ws \<and> intents_ok t ws \<and> list_all (\<lambda>w. ei_ordinal w = 0) ws
     \<and> map ei_kind ws = (if rp \<noteq> None \<and> au = None then [TOOL_CALL, OUTBOUND_REPLY]
                       else if au \<noteq> None \<and> rp \<noteq> None then [TOOL_CALL, AUDIT_EVENT, OUTBOUND_REPLY] else [TOOL_CALL]))"
proof -
  let ?ws = "v # (case au of None \<Rightarrow> [] | Some a \<Rightarrow> [a]) @ (case rp of None \<Rightarrow> [] | Some r \<Rightarrow> [r])"
  have "validate_agent_effect_intents U t ?ws = Inr ys \<longleftrightarrow> ys = ?ws \<and> identity_ok U t \<and> intents_ok t ?ws" for ys
    unfolding validate_intents_result intents_ok_def by (auto simp: MAX_EFFECT_INTENTS_PER_TURN_def split: option.splits)
  then show ?thesis
    unfolding require_effects_def Let_def
    by (auto simp: result_simps list_ex_iff list_all_iff dest: arg_cong [of _ _ length] split: if_splits)
qed

definition turn_effects :: "unicode_db \<Rightarrow> turn_identity \<Rightarrow> effect_intent \<Rightarrow> effect_intent \<Rightarrow> effect_intent \<Rightarrow> bool" where
  "turn_effects U t v au rp \<longleftrightarrow>
     identity_ok U t \<and> intents_ok t [v, au, rp] \<and> ei_kind v = TOOL_CALL \<and> ei_kind au = AUDIT_EVENT \<and> ei_kind rp = OUTBOUND_REPLY
     \<and> ei_ordinal v = 0 \<and> ei_ordinal au = 0 \<and> ei_ordinal rp = 0"

definition turn_plan :: "turn_identity \<Rightarrow> effect_intent \<Rightarrow> effect_intent \<Rightarrow> effect_intent \<Rightarrow> execution_plan" where
  "turn_plan t v au rp = plan_of t [v, au, rp]"

definition audit_payload :: "turn_identity \<Rightarrow> effect_intent \<Rightarrow> effect_intent \<Rightarrow> effect_intent \<Rightarrow> py" where
  "audit_payload t v au rp =
     PyDict (audit_payload_entries v rp @ [(u ''plan_digest'', PyStr (pl_plan_digest (turn_plan t v au rp)))])"

lemma turn_plan_built:
  assumes "turn_effects U t v au rp"
  shows "build_agent_turn_execution_plan U t [v, au, rp] = Inr (turn_plan t v au rp)"
proof -
  note e = assms [unfolded turn_effects_def]
  have "sort_key canonical_effect_order [v, au, rp] = [v, au, rp]"
    by (rule sorted_effects_unique [of t]) (use e in \<open>simp_all add: canonical_effect_order_def\<close>)
  then show ?thesis using e by (simp add: build_plan_result turn_plan_def singletons_ok_def MAX_EFFECT_INTENTS_PER_TURN_def)
qed

lemma turn_plan_planned: "turn_effects U t v au rp \<Longrightarrow> planned U t (turn_plan t v au rp)"
  using turn_plan_built by (simp add: planned_def turn_plan_def)

lemma three_effects: "require_effects U t v (Some au) (Some rp) = Inr vs \<longleftrightarrow> vs = [v, au, rp] \<and> turn_effects U t v au rp"
  by (auto simp: require_effects_result turn_effects_def Let_def)

lemma fewer_effects:
  assumes "turn_effects U t v au rp"
  shows "require_effects U t v None None = Inr [v]" "require_effects U t v None (Some rp) = Inr [v, rp]"
  using assms by (auto simp: require_effects_result turn_effects_def Let_def intents_ok_def)

definition reply_payload :: "effect_intent \<Rightarrow> pystr \<Rightarrow> py" where
  "reply_payload v text' =
     PyDict [(u ''schema'', PyStr reply_effect_schema), (u ''submission_effect_id'', PyStr (ei_effect_id v)),
             (u ''submission_payload_digest'', PyStr (ei_payload_digest v)), (u ''reply_text'', PyStr text')]"

text \<open>What the caller must bring for a turn: the three effects, the reply's and the audit's payloads, and the reply's key.\<close>

definition turn_arguments ::
  "unicode_db \<Rightarrow> uuid \<Rightarrow> uuid \<Rightarrow> uuid \<Rightarrow> uuid \<Rightarrow> turn_identity \<Rightarrow> effect_intent \<Rightarrow> effect_intent \<Rightarrow> effect_intent \<Rightarrow> uuid \<Rightarrow> pystr
   \<Rightarrow> key_version \<Rightarrow> pystr \<Rightarrow> bool" where
  "turn_arguments U g r c a t v au rp i key ver text' \<longleftrightarrow>
     g \<noteq> 0 \<and> r \<noteq> 0 \<and> c \<noteq> 0 \<and> a \<noteq> 0 \<and> i \<noteq> 0
     \<and> require_bounded_string U MAX_PROVIDER_MESSAGE_ID_BYTES REPLY_KEY_INVALID key = Inr key
     \<and> require_bounded_string U MAX_AGENT_TURN_RESPONSE_BYTES INVALID_ARGUMENT text' = Inr text'
     \<and> turn_effects U t v au rp \<and> ti_igreja_id t = g \<and> ti_conversation_id t = c
     \<and> digest_effect_payload (ei_effect_id rp) OUTBOUND_REPLY (reply_payload v text') = Inr (ei_payload_digest rp)
     \<and> digest_effect_payload (ei_effect_id au) AUDIT_EVENT (PyDict (audit_payload_entries v rp)) = Inr (ei_payload_digest au)
     \<and> (ver = V2 \<longrightarrow> key = derive_v2_compatibility_key rp)"

lemma bind_v2_key:
  assumes "turn_effects U t v au rp"
  shows "bind_reply_key U t (turn_plan t v au rp) rp V2 key = Inr () \<longleftrightarrow> key = derive_v2_compatibility_key rp"
proof -
  have "rp \<in> set (pl_effect_intents (turn_plan t v au rp))" by (simp add: turn_plan_def)
  moreover have "ei_kind rp = OUTBOUND_REPLY" using assms by (simp add: turn_effects_def)
  ultimately have "build_agent_effect_compatibility_key U t (turn_plan t v au rp) rp V2 = Inr (key_of (turn_plan t v au rp) rp)"
    using turn_plan_planned [OF assms] by (simp add: build_key_result)
  then show ?thesis by (auto simp: bind_reply_key_def)
qed

lemma stage_arguments_result:
  "stage_arguments E g r c a t v au rp i key ver text' = Inr x \<longleftrightarrow>
   turn_arguments (ev_text E) g r c a t v au rp i key ver text'
   \<and> x = (v, rp, turn_plan t v au rp, audit_payload t v au rp)"
proof (cases "turn_effects (ev_text E) t v au rp")
  case True
  have k: "ei_kind au = AUDIT_EVENT" "ei_kind rp = OUTBOUND_REPLY" using True by (simp_all add: turn_effects_def)
  show ?thesis
    using turn_plan_built [OF True] fewer_effects [OF True] k
    by (auto simp: stage_arguments_def turn_arguments_def Let_def result_simps three_effects True bind_v2_key [OF True]
        build_cell_report_turn_audit_effect_payload_def build_cell_report_turn_reply_effect_payload_def
        validate_effect_payload_def uow_require_uuid_def audit_payload_def reply_payload_def dest: bounded_string_same split: if_splits)
next
  case False
  then show ?thesis by (auto simp: stage_arguments_def turn_arguments_def Let_def result_simps three_effects)
qed

lemma stage_arguments_sound:
  assumes "stage_arguments E g r c a t v au rp i key ver text' = Inr (v', rp', plan, payload)"
  shows "v' = v \<and> rp' = rp \<and> plan = turn_plan t v au rp \<and> payload = audit_payload t v au rp
    \<and> turn_effects (ev_text E) t v au rp \<and> ti_igreja_id t = g \<and> ti_conversation_id t = c \<and> g \<noteq> 0 \<and> c \<noteq> 0"
  using assms by (auto simp: stage_arguments_result turn_arguments_def)

section \<open>A turn, taken apart\<close>

lemma lock_turn_run:
  "lock_turn_rows E g c t v rp plan payload i key ver text' d = (Inr (m, staged), d') \<longleftrightarrow>
   \<not> pg_failed (db_pg (td_app d)) \<and> \<not> ev_fault E (td_app d) (LockReply i) \<and> reply_rows d g c i = [m]
   \<and> reply_row_ok m key \<and> reply_text_ok m staged text'
   \<and> (ver = V2 \<or> bind_reply_key (ev_text E) t plan rp ver key = Inr ())
   \<and> \<not> ev_fault E (td_app (logged [LockReply i] d)) (LockAudit (ei_effect_id v))
   \<and> (if staged then \<exists>x. audit_rows d g c (ei_effect_id v) = [x] \<and> same_json (al_payload x) payload
      else audit_rows d g c (ei_effect_id v) = [])
   \<and> d' = logged [LockReply i, LockAudit (ei_effect_id v)] d"
proof -
  have key: "provider_key_of m = key" if "reply_row_ok m key" for m using that by (simp add: reply_row_ok_def provider_key_of_def)
  show ?thesis
    unfolding lock_turn_rows_def
    by (cases staged) (auto simp: sbind_Inr turn_run app_run key split: option.splits if_splits, (use key [of m] in force)+)
qed

lemma finish_turn_run:
  "finish_turn E g c plan payload text' m staged conf d = (Inr res, d') \<longleftrightarrow>
   cr_replayed conf = staged \<and> cr_requires_caller_commit conf = (\<not> staged)
   \<and> (if staged then d' = d
      else stage_rows E m text' \<lparr>al_igreja_id = g, al_conversation_id = Some c, al_evento = Some CELL_REPORT_TURN_AUDIT_EVENT,
              al_payload = payload\<rparr> d = (Inr (), d'))
   \<and> res = \<lparr>sr_snapshot = cr_snapshot conf, sr_plan = plan, sr_replayed = staged, sr_requires_caller_commit = True\<rparr>"
  by (cases staged) (auto simp: finish_turn_def sbind_Inr app_run)

lemma stage_run:
  "stage_confirmed_cell_report_turn E g r c a command t v au rp i key ver text' now d = (Inr res, d') \<longleftrightarrow>
   (\<exists>plan payload m staged e conf b.
      stage_arguments E g r c a t v au rp i key ver text' = Inr (v, rp, plan, payload)
      \<and> pg_transaction (db_pg (td_app d)) \<noteq> None \<and> tenant_session (db_pg (td_app d)) g
      \<and> lock_turn_rows E g c t v rp plan payload i key ver text' d = (Inr (m, staged), e)
      \<and> confirm_cell_report E g r c a command t v now staged (td_app e) = (Inr conf, b)
      \<and> finish_turn E g c plan payload text' m staged conf (e\<lparr>td_app := b\<rparr>) = (Inr res, d'))"
proof -
  have ty: "x = v \<and> y = rp" if "stage_arguments E g r c a t v au rp i key ver text' = Inr (x, y, plan, payload)" for x y plan payload
    using stage_arguments_sound [OF that] by blast
  have pg: "\<not> pg_failed (db_pg (td_app d))" if "lock_turn_rows E g c t v rp plan payload i key ver text' d = (Inr (m, staged), e)"
    for plan payload m staged e using that lock_turn_run by blast
  show ?thesis
    unfolding stage_confirmed_cell_report_turn_def
    by (simp only: sbind_Inr checked_Inr) (auto simp: sbind_Inr turn_run app_run app_external_transaction_def dest: pg
        split: option.splits, (frule ty, blast)+)
qed

text \<open>The steps of a turn that was staged, and that a replay was recognised by its locked rows.\<close>

lemma stage_run_parts:
  assumes "stage_confirmed_cell_report_turn E g r c a command t v au rp i key ver text' now d = (Inr res, d')"
  obtains plan payload m e conf b where
    "stage_arguments E g r c a t v au rp i key ver text' = Inr (v, rp, plan, payload)"
    "lock_turn_rows E g c t v rp plan payload i key ver text' d = (Inr (m, sr_replayed res), e)"
    "confirm_cell_report E g r c a command t v now (sr_replayed res) (td_app e) = (Inr conf, b)"
    "finish_turn E g c plan payload text' m (sr_replayed res) conf (e\<lparr>td_app := b\<rparr>) = (Inr res, d')"
proof -
  have s: "staged = sr_replayed res" if "finish_turn E g c plan payload text' m staged conf w = (Inr res, d')" for plan payload m staged conf w
    using that by (auto simp: finish_turn_run split: if_splits)
  show thesis using assms that unfolding stage_run by (blast dest: s intro: that)
qed

section \<open>What a staged turn leaves\<close>

text \<open>
  The three records of a turn, agreeing on its effects: the reply row with its text, waiting to be sent; the one audit
  row of the submission; and the meeting's sent report, filed under the submission.
\<close>

definition turn_staged ::
  "app_env \<Rightarrow> turn_db \<Rightarrow> uuid \<Rightarrow> uuid \<Rightarrow> uuid \<Rightarrow> turn_identity \<Rightarrow> effect_intent \<Rightarrow> effect_intent \<Rightarrow> effect_intent \<Rightarrow> uuid \<Rightarrow> pystr \<Rightarrow> pystr \<Rightarrow> bool" where
  "turn_staged E d g r c t v au rp i key text' \<longleftrightarrow>
     (\<exists>m. reply_rows d g c i = [m] \<and> reply_row_ok m key \<and> reply_text_ok m True text')
   \<and> (\<exists>x. audit_rows d g c (ei_effect_id v) = [x] \<and> same_json (al_payload x) (audit_payload t v au rp))
   \<and> (\<exists>q s. meeting_rows (td_app d) g r = [q] \<and> m_relatorio_status q = RELATORIO_ENVIADO
        \<and> validate_cell_report_snapshot_v2 (ev_text E) (m_relatorio_snapshot q) = Inr s
        \<and> sn_submission_effect_id s = ei_effect_id v \<and> sn_submission_payload_digest s = ei_payload_digest v)"

lemma final_replay_ids:
  "validate_final_replay U m a e y = Inr x \<Longrightarrow>
   \<exists>s. validate_cell_report_snapshot_v2 U (m_relatorio_snapshot m) = Inr s \<and> sn_submission_effect_id s = e
     \<and> sn_submission_payload_digest s = y"
  by (auto simp: validate_final_replay_def ebind_eq_Inr app_Inr split: if_splits)

lemma logged_tables [simp]: "tables (d\<lparr>db_log := l\<rparr>) = tables d" "meeting_rows (d\<lparr>db_log := l\<rparr>) = meeting_rows d"
  by (simp_all add: tables_def meeting_rows_def fun_eq_iff)

text \<open>The rows a first run writes.\<close>

definition staged_reply :: "message \<Rightarrow> pystr \<Rightarrow> message" where
  "staged_reply m text' = m\<lparr>ms_texto := Some text', ms_agent_reply_state := Some AGENT_REPLY_PENDING\<rparr>"

definition staged_audit :: "app_env \<Rightarrow> uuid \<Rightarrow> uuid \<Rightarrow> py \<Rightarrow> audit_log" where
  "staged_audit E g c payload =
     \<lparr>al_igreja_id = g, al_conversation_id = Some c, al_evento = Some CELL_REPORT_TURN_AUDIT_EVENT, al_payload = ev_jsonb E payload\<rparr>"

lemma stage_rows_run:
  "stage_rows E m text' \<lparr>al_igreja_id = g, al_conversation_id = Some c, al_evento = Some CELL_REPORT_TURN_AUDIT_EVENT,
      al_payload = payload\<rparr> d = (Inr (), d') \<longleftrightarrow>
   \<not> pg_failed (db_pg (td_app d)) \<and> \<not> ev_fault E (td_app d) (FlushTurn (ms_id m))
   \<and> d' = (logged [FlushTurn (ms_id m)] d)
       \<lparr>td_messages := map (\<lambda>x. if ms_id x = ms_id m then staged_reply m text' else x) (td_messages d),
        td_audits := td_audits d @ [staged_audit E g c payload]\<rparr>"
  by (auto simp: stage_rows_def turn_run staged_reply_def staged_audit_def)

lemma fresh_turn_run:
  assumes U: "unicode_ok (ev_text E)"
    and run: "stage_confirmed_cell_report_turn E g r c a command t v au rp i key ver text' now d = (Inr res, d')"
    and fresh: "\<not> sr_replayed res"
  obtains n m q p where
    "turn_effects (ev_text E) t v au rp" "sr_plan res = turn_plan t v au rp" "sr_requires_caller_commit res"
    "reply_rows d g c i = [m]" "reply_row_ok m key" "reply_text_ok m False text'" "audit_rows d g c (ei_effect_id v) = []"
    "canonical_utc now = Inr n" "authorized E (td_app d) g r c a n q" "m_relatorio_status q = RELATORIO_PENDENTE"
    "pending_row (ev_text E) q (pp_bindings p) p" "live p n"
    "candidate_ok (ev_text E) (wf_candidate (pp_workflow p))" "is_complete (wf_candidate (pp_workflow p))"
    "prefixed_hex64 effect_id_prefix (ei_effect_id v)" "prefixed_hex64 payload_digest_prefix (ei_payload_digest v)"
    "sr_snapshot res = report_value (wf_candidate (pp_workflow p)) (ei_effect_id v) (ei_payload_digest v)"
    "tables (td_app d') = tables ((td_app d)\<lparr>db_meetings :=
       replaced (stored_row E (report_row (ev_text E) q (wf_candidate (pp_workflow p)) v a n)) (db_meetings (td_app d))\<rparr>)"
    "td_messages d' = map (\<lambda>x. if ms_id x = i then staged_reply m text' else x) (td_messages d)"
    "td_audits d' = td_audits d @ [staged_audit E g c (audit_payload t v au rp)]"
    "connection (td_app d') = connection (td_app d)"
proof -
  from run obtain plan payload m staged e conf b where
      args: "stage_arguments E g r c a t v au rp i key ver text' = Inr (v, rp, plan, payload)"
      and lock: "lock_turn_rows E g c t v rp plan payload i key ver text' d = (Inr (m, staged), e)"
      and conf: "confirm_cell_report E g r c a command t v now staged (td_app e) = (Inr conf, b)"
      and fin: "finish_turn E g c plan payload text' m staged conf (e\<lparr>td_app := b\<rparr>) = (Inr res, d')"
    unfolding stage_run by blast
  have st: "\<not> staged" using fin fresh by (auto simp: finish_turn_run split: if_splits)
  note arg = stage_arguments_sound [OF args]
  have e: "e = logged [LockReply i, LockAudit (ei_effect_id v)] d" and m: "reply_rows d g c i = [m]" "reply_row_ok m key"
      "reply_text_ok m False text'" "audit_rows d g c (ei_effect_id v) = []"
    using lock st by (auto simp: lock_turn_run)
  have mi: "ms_id m = i" using reply_rows_sound [of m d g c i] m(1) by simp
  from conf st obtain n bb q dd p cmd where q: "canonical_utc now = Inr n"
      "effect_for (ev_text E) t g c (confirmation_effect_payload (PyDict (bindings_json bb)) command) v"
      "load_and_authorize E g r c a n (td_app e) = (Inr q, dd)" "m_relatorio_status q = RELATORIO_PENDENTE"
      "pending_row (ev_text E) q bb p" "live p n" "cell_report_confirmation_command (ev_text E) (pp_workflow p) = Inr cmd"
      "flush_meeting E (report_row (ev_text E) q (wf_candidate (pp_workflow p)) v a n) dd = (Inr (), b)"
      "cr_snapshot conf = report_value (wf_candidate (pp_workflow p)) (ei_effect_id v) (ei_payload_digest v)"
    using confirm_first_run [OF U, of g r c a command t v now "td_app e" conf b] by auto
  have pend: "pending_row (ev_text E) q (pp_bindings p) p" using q(5) by (simp add: pending_row_def)
  note au = authorize_sound [OF q(3)]
  have aut: "authorized E (td_app d) g r c a n q" using au by (simp add: e authorized_def)
  have w: "d' = (logged [FlushTurn i] (e\<lparr>td_app := b\<rparr>))
       \<lparr>td_messages := map (\<lambda>x. if ms_id x = i then staged_reply m text' else x) (td_messages d),
        td_audits := td_audits d @ [staged_audit E g c payload]\<rparr>"
      "res = \<lparr>sr_snapshot = cr_snapshot conf, sr_plan = plan, sr_replayed = staged, sr_requires_caller_commit = True\<rparr>"
    using fin st unfolding finish_turn_run stage_rows_run by (simp_all add: e mi)
  have t: "tables (td_app d') = tables ((td_app d)\<lparr>db_meetings :=
       replaced (stored_row E (report_row (ev_text E) q (wf_candidate (pp_workflow p)) v a n)) (db_meetings (td_app d))\<rparr>)"
    "connection (td_app d') = connection (td_app d)"
    using q(8) au by (auto simp: w(1) e flush_run tables_def connection_def)
  have x: "sr_plan res = turn_plan t v au rp" "sr_requires_caller_commit res"
      "sr_snapshot res = report_value (wf_candidate (pp_workflow p)) (ei_effect_id v) (ei_payload_digest v)"
      "td_messages d' = map (\<lambda>x. if ms_id x = i then staged_reply m text' else x) (td_messages d)"
      "td_audits d' = td_audits d @ [staged_audit E g c (audit_payload t v au rp)]"
    using w arg q(9) by simp_all
  note k = command_complete [OF U q(7)] and ids = effect_shapes [OF q(2)]
  show thesis using that [OF _ x(1,2) m q(1) aut q(4) pend q(6) _ _ _ _ x(3) t(1) x(4,5) t(2)] arg k ids by blast
qed

text \<open>The three records after a first run.\<close>

lemma filter_replaced:
  "distinct (map f xs) \<Longrightarrow> x \<in> set xs \<Longrightarrow> f x = k \<Longrightarrow> f y = k \<Longrightarrow>
   filter (\<lambda>z. f z = k) (map (\<lambda>z. if f z = k then y else z) xs) = [y]"
proof (induction xs)
  case (Cons z zs)
  have none: "filter (\<lambda>z. f z = k) (map (\<lambda>z. if f z = k then y else z) zs) = []" if "k \<notin> f ` set zs"
    using that by (auto simp: filter_empty_conv image_iff)
  show ?case using Cons none by (cases "f z = k") auto
qed simp

lemma replaced_reply_rows:
  assumes "reply_rows d g c i = [m]" "td_messages d' = map (\<lambda>x. if ms_id x = i then staged_reply m text' else x) (td_messages d)"
    and "distinct (map ms_id (td_messages d))"
  shows "reply_rows d' g c i = [staged_reply m text']"
proof -
  have m: "m \<in> set (reply_rows d g c i)" using assms(1) by simp
  then have r: "ms_id m = i" "ms_igreja_id m = g" "ms_conversation_id m = c" "m \<in> set (td_messages d)"
    by (simp_all add: reply_rows_def)
  have "reply_rows d' g c i = filter (\<lambda>x. ms_igreja_id x = g \<and> ms_conversation_id x = c)
      (filter (\<lambda>x. ms_id x = i) (td_messages d'))"
    by (simp add: reply_rows_def conj_commute conj_left_commute)
  also have "filter (\<lambda>x. ms_id x = i) (td_messages d') = [staged_reply m text']"
    unfolding assms(2) using r by (intro filter_replaced [OF assms(3)]) (auto simp: staged_reply_def)
  finally show ?thesis using r by (simp add: staged_reply_def)
qed

lemma replaced_meeting_rows:
  assumes "meeting_rows a g r = [q]" "db_meetings a' = replaced row (db_meetings a)" "distinct (map m_id (db_meetings a))"
    and "m_id row = r" "m_igreja_id row = g"
  shows "meeting_rows a' g r = [row]"
proof -
  have "q \<in> set (meeting_rows a g r)" using assms(1) by simp
  then have q: "q \<in> set (db_meetings a)" "m_id q = r" by (auto simp: meeting_rows_def)
  have "meeting_rows a' g r = filter (\<lambda>x. m_igreja_id x = g) (filter (\<lambda>x. m_id x = r) (db_meetings a'))"
    by (simp add: meeting_rows_def conj_commute)
  also have "filter (\<lambda>x. m_id x = r) (db_meetings a') = [row]"
    unfolding assms(2) replaced_def assms(4) by (rule filter_replaced [OF assms(3) q assms(4)])
  finally show ?thesis using assms(5) by simp
qed

lemma staged_audit_rows:
  assumes "\<And>y. same_json (ev_jsonb E y) y" "td_audits d' = td_audits d @ [staged_audit E g c (audit_payload t v au rp)]"
  shows "audit_rows d' g c (ei_effect_id v) = audit_rows d g c (ei_effect_id v) @ [staged_audit E g c (audit_payload t v au rp)]"
proof -
  let ?x = "ev_jsonb E (audit_payload t v au rp)"
  have s: "same_json ?x (audit_payload t v au rp)" by (rule assms(1))
  define es where "es = audit_payload_entries v rp @ [(u ''plan_digest'', PyStr (pl_plan_digest (turn_plan t v au rp)))]"
  have es: "distinct (map fst es)" "py_get es (u ''submission_effect_id'') = PyStr (ei_effect_id v)"
    by (simp_all add: es_def audit_payload_entries_def py_get_def u_def)
  obtain e where "?x = PyDict e" "\<And>k. same_json (py_get e k) (py_get es k)"
    by (rule same_json_dict [OF s [unfolded audit_payload_def, folded es_def] es(1)])
      (use that in \<open>simp add: audit_payload_def es_def\<close>)
  then have "\<exists>e. ?x = PyDict e \<and> py_get e (u ''submission_effect_id'') = PyStr (ei_effect_id v)" using es(2) by (metis same_json_of(3))
  then show ?thesis using assms(2) by (auto simp: audit_rows_def staged_audit_def)
qed

lemma turn_staged_run:
  assumes U: "unicode_ok (ev_text E)" and j: "\<And>y. same_json (ev_jsonb E y) y" and ids: "distinct (map ms_id (td_messages d))"
      "distinct (map m_id (db_meetings (td_app d)))"
    and run: "stage_confirmed_cell_report_turn E g r c a command t v au rp i key ver text' now d = (Inr res, d')"
  shows "turn_staged E d' g r c t v au rp i key text'"
proof (cases "sr_replayed res")
  case True
  from run obtain plan payload m staged e conf b where
      args: "stage_arguments E g r c a t v au rp i key ver text' = Inr (v, rp, plan, payload)"
      and lock: "lock_turn_rows E g c t v rp plan payload i key ver text' d = (Inr (m, staged), e)"
      and conf: "confirm_cell_report E g r c a command t v now staged (td_app e) = (Inr conf, b)"
      and fin: "finish_turn E g c plan payload text' m staged conf (e\<lparr>td_app := b\<rparr>) = (Inr res, d')"
    unfolding stage_run by blast
  have st: "staged" using fin True by (auto simp: finish_turn_run split: if_splits)
  have d': "d' = e\<lparr>td_app := b\<rparr>" and e: "e = logged [LockReply i, LockAudit (ei_effect_id v)] d"
    using fin lock st by (auto simp: finish_turn_run lock_turn_run)
  from conf st obtain n bb q dd s where q: "load_and_authorize E g r c a n (td_app e) = (Inr q, dd)" "b = dd"
      "m_relatorio_status q = RELATORIO_ENVIADO" "validate_final_replay (ev_text E) q a (ei_effect_id v) (ei_payload_digest v) = Inr s"
    unfolding confirm_run by (auto simp: confirmation_arguments_Inr)
  note au = authorize_sound [OF q(1)]
  have "meeting_rows (td_app d') g r = [q]" using au q(2) by (simp add: d' e authorized_def meeting_row_def)
  moreover have "reply_rows d' g c i = reply_rows d g c i" "audit_rows d' g c (ei_effect_id v) = audit_rows d g c (ei_effect_id v)"
    by (simp_all add: d' e reply_rows_def audit_rows_def)
  ultimately show ?thesis
    using lock st stage_arguments_sound [OF args] final_replay_ids [OF q(4)] q(3) by (auto simp: turn_staged_def lock_turn_run)
next
  case False
  obtain n m q p where h:
    "turn_effects (ev_text E) t v au rp" "sr_plan res = turn_plan t v au rp" "sr_requires_caller_commit res"
    "reply_rows d g c i = [m]" "reply_row_ok m key" "reply_text_ok m False text'" "audit_rows d g c (ei_effect_id v) = []"
    "canonical_utc now = Inr n" "authorized E (td_app d) g r c a n q" "m_relatorio_status q = RELATORIO_PENDENTE"
    "pending_row (ev_text E) q (pp_bindings p) p" "live p n"
    "candidate_ok (ev_text E) (wf_candidate (pp_workflow p))" "is_complete (wf_candidate (pp_workflow p))"
    "prefixed_hex64 effect_id_prefix (ei_effect_id v)" "prefixed_hex64 payload_digest_prefix (ei_payload_digest v)"
    "sr_snapshot res = report_value (wf_candidate (pp_workflow p)) (ei_effect_id v) (ei_payload_digest v)"
    "tables (td_app d') = tables ((td_app d)\<lparr>db_meetings :=
       replaced (stored_row E (report_row (ev_text E) q (wf_candidate (pp_workflow p)) v a n)) (db_meetings (td_app d))\<rparr>)"
    "td_messages d' = map (\<lambda>x. if ms_id x = i then staged_reply m text' else x) (td_messages d)"
    "td_audits d' = td_audits d @ [staged_audit E g c (audit_payload t v au rp)]"
    "connection (td_app d') = connection (td_app d)"
    by (rule fresh_turn_run [OF U run False])
  let ?k = "wf_candidate (pp_workflow p)" and ?row = "stored_row E (report_row (ev_text E) q (wf_candidate (pp_workflow p)) v a n)"
  have q: "m_id q = r" "m_igreja_id q = g" using authorized_row [OF h(9)] by auto
  have rows: "meeting_rows (td_app d) g r = [q]" using h(9) by (simp add: authorized_def meeting_row_def)
  have ms: "db_meetings (td_app d') = replaced ?row (db_meetings (td_app d))" using h(18) by (simp add: tables_def)
  have "meeting_rows (td_app d') g r = [?row]"
    by (rule replaced_meeting_rows [OF rows ms ids(2)]) (use q in \<open>simp_all add: stored_row_def\<close>)
  moreover have "validate_cell_report_snapshot_v2 (ev_text E) (m_relatorio_snapshot ?row)
      = Inr (report_view (ev_text E) ?k (ei_effect_id v) (ei_payload_digest v))"
    using report_value_views(2) [OF U h(13-16) j] by (simp add: stored_row_def)
  moreover have "m_relatorio_status ?row = RELATORIO_ENVIADO" by (simp add: stored_row_def)
  moreover have "sn_submission_effect_id (report_view (ev_text E) ?k (ei_effect_id v) (ei_payload_digest v)) = ei_effect_id v"
    "sn_submission_payload_digest (report_view (ev_text E) ?k (ei_effect_id v) (ei_payload_digest v)) = ei_payload_digest v"
    by (simp_all add: report_view_def snap_view_def)
  moreover have "reply_rows d' g c i = [staged_reply m text']" by (rule replaced_reply_rows [OF h(4,19) ids(1)])
  moreover have "reply_row_ok (staged_reply m text') key" "reply_text_ok (staged_reply m text') True text'"
    using h(5) by (simp_all add: staged_reply_def reply_row_ok_def reply_text_ok_def)
  moreover have "audit_rows d' g c (ei_effect_id v) = [staged_audit E g c (audit_payload t v au rp)]"
    using staged_audit_rows [OF j h(20)] h(7) by simp
  moreover have "same_json (al_payload (staged_audit E g c (audit_payload t v au rp))) (audit_payload t v au rp)"
    using j by (simp add: staged_audit_def)
  ultimately show ?thesis unfolding turn_staged_def by blast
qed

section \<open>Failing turns\<close>

text \<open>What a run leaves when it only reads: every table, and the connection apart from its failure.\<close>

definition turn_reads :: "turn_db \<Rightarrow> turn_db \<Rightarrow> bool" where
  "turn_reads d d' \<longleftrightarrow> td_messages d' = td_messages d \<and> td_audits d' = td_audits d \<and> reads_only (td_app d) (td_app d')"

interpretation turn_frame: preorder_effects turn_reads
  by unfold_locales (auto simp: turn_reads_def reads_only_def)

lemma turn_reads_basic:
  "obeys reads_only m \<Longrightarrow> obeys turn_reads (in_app h m)" "obeys turn_reads (checked x)"
  by (auto simp: obeys_def turn_reads_def in_app_def checked_def reads_only_def split: prod.splits sum.splits)

lemma turn_reads_statement: "obeys turn_reads (run_statement E st f (\<lambda>d. d))"
  using reads_basic(1) [of E st "\<lambda>_. ()"]
  by (auto simp: run_statement_def obeys_def turn_reads_def in_app_def sbind_def split: prod.splits sum.splits)

lemmas turn_frame_rules = turn_frame.frame_rules turn_frame.obeys_rows turn_reads_basic turn_reads_statement

lemma turn_reads_locks: "obeys turn_reads (lock_turn_rows E g c t v rp plan payload i key ver text')"
  unfolding lock_turn_rows_def load_locked_reply_message_def load_matching_audit_def by (intro turn_frame_rules)

lemma stage_rows_raises: "stage_rows E m text' x d = (Inl er, d') \<Longrightarrow> pg_failed (db_pg (td_app d'))"
  by (auto simp: stage_rows_def run_statement_def sbind_def in_app_def execute_def split: prod.splits sum.splits if_splits)

lemma turn_reads_step:
  assumes "sbind f h d = (Inl er, d')" "obeys turn_reads f"
    and "\<And>x w. h x w = (Inl er, d') \<Longrightarrow> turn_reads w d' \<or> pg_failed (db_pg (td_app d'))"
  shows "turn_reads d d' \<or> pg_failed (db_pg (td_app d'))"
  using assms(1) unfolding sbind_Inl
proof (elim disjE exE conjE)
  assume "f d = (Inl er, d')"
  then show ?thesis using obeysD [OF assms(2)] by blast
next
  fix x w
  assume "f d = (Inr x, w)" "h x w = (Inl er, d')"
  then show ?thesis using obeysD [OF assms(2)] assms(3) turn_frame.trans by blast
qed

lemma stage_raises:
  assumes U: "unicode_ok (ev_text E)"
    and run: "stage_confirmed_cell_report_turn E g r c a command t v au rp i key ver text' now d = (Inl er, d')"
  shows "turn_reads d d' \<or> pg_failed (db_pg (td_app d'))"
proof -
  note basics = turn_reads_basic(1) [OF reads_basic(4), of "\<lambda>_. TRANSACTION_REQUIRED"]
    turn_reads_basic(1) [OF reads_basic(5), of "\<lambda>_. DATA_INTEGRITY" g]
  have last: "turn_reads e d' \<or> pg_failed (db_pg (td_app d'))"
    if r: "sbind (in_app confirmation_error (confirm_cell_report E g r c a command t v' now staged))
        (\<lambda>conf. finish_turn E g c plan payload text' m staged conf) e = (Inl er, d')" for e v' plan payload m staged
    using r unfolding sbind_Inl
  proof (elim disjE exE conjE)
    assume "in_app confirmation_error (confirm_cell_report E g r c a command t v' now staged) e = (Inl er, d')"
    then show ?thesis using confirm_raises [OF U, of g r c a command t v' now staged]
      by (auto simp: in_app_Inl raises_clean_def turn_reads_def)
  next
    fix conf w
    assume c: "in_app confirmation_error (confirm_cell_report E g r c a command t v' now staged) e = (Inr conf, w)"
      and f: "finish_turn E g c plan payload text' m staged conf w = (Inl er, d')"
    then have "cr_replayed conf = staged" "cr_requires_caller_commit conf = (\<not> staged)"
      by (auto simp: in_app_Inr confirm_run split: if_splits)
    then show ?thesis using f by (auto simp: finish_turn_def sbind_Inl dest: stage_rows_raises split: if_splits)
  qed
  from run show ?thesis
    unfolding stage_confirmed_cell_report_turn_def
  proof (rule turn_reads_step [OF _ turn_reads_basic(2)], goal_cases)
    case (1 x w)
    then show ?case
    proof (cases x)
      case (fields v' rp' plan payload)
      from 1 show ?thesis
        unfolding fields prod.case
      proof (rule turn_reads_step [OF _ basics(1)], goal_cases)
        case (1 y w)
        then show ?case
        proof (rule turn_reads_step [OF _ basics(2)], goal_cases)
          case (1 z w)
          then show ?case by (rule turn_reads_step [OF _ turn_reads_locks]) (auto dest: last split: prod.splits)
        qed
      qed
    qed
  qed
qed

section \<open>A sample turn\<close>

definition short_ascii :: "pystr \<Rightarrow> bool" where
  "short_ascii s \<longleftrightarrow> (\<forall>c \<in> set s. c < 128) \<and> length s \<le> 200"

lemma jitems_length: "list_all (\<lambda>x. length x \<le> k) xs \<Longrightarrow> length (jitems e xs) \<le> 1 + length xs * (k + 1)"
  by (induction e xs rule: jitems.induct) auto

definition short_entries :: "(pystr \<times> pystr) list \<Rightarrow> bool" where
  "short_entries es \<longleftrightarrow> list_all (\<lambda>(k, s). short_ascii k \<and> short_ascii s) es"

lemma short_entries_digest:
  assumes es': "short_entries es" "length es \<le> 6" and e: "prefixed_hex64 effect_id_prefix e"
  shows "\<exists>d. digest_effect_payload e kd (PyDict (map (\<lambda>(k, s). (k, PyStr s)) es)) = Inr d"
proof -
  note es = es' [unfolded short_entries_def]
  let ?es = "map (\<lambda>(k, s). (k, PyStr s)) es" and ?item = "\<lambda>(k, v). jquote k @ 58 # jtext v"
  have ok: "json_value_ok (PyDict ?es)"
  proof -
    have "\<forall>(k, s) \<in> set es. json_string_ok k \<and> json_string_ok s"
      using es(1) by (auto simp: list_all_iff short_ascii_def MAX_CANONICAL_STRING_BYTES_def intro!: ascii_json_string)
    moreover have "json_height (PyDict ?es) \<le> 2" "json_nodes (PyDict ?es) \<le> 1 + length es"
      by (induction es) auto
    ultimately show ?thesis using es(2) by (auto simp: json_value_ok_def list_all_iff MAX_CANONICAL_JSON_DEPTH_def MAX_CANONICAL_JSON_NODES_def)
  qed
  obtain b where b: "utf8_encode (jtext (sort_keys (PyDict ?es))) = Some b" using validated_encodable [OF ok] by blast
  have "map (\<lambda>(k, v). (k, sort_keys v)) ?es = ?es" by (simp add: comp_def case_prod_beta)
  then have "jtext (sort_keys (PyDict ?es)) = 123 # jitems 125 (map ?item (sort_key fst ?es))" by (simp only: sort_keys.simps jtext.simps)
  moreover have "list_all (\<lambda>x. length x \<le> 2405) (map ?item (sort_key fst ?es))"
  proof -
    have j: "length (jquote s) \<le> 1202" if "short_ascii s" for s using length_jquote [of s] that by (simp add: short_ascii_def)
    have "length (?item (k, PyStr s)) \<le> 2405" if "short_ascii k" "short_ascii s" for k s
      using j [OF that(1)] j [OF that(2)] by simp
    then have "length (?item y) \<le> 2405" if "y \<in> set ?es" for y using that es(1) by (auto simp: list_all_iff)
    then show ?thesis by (simp add: list_all_iff)
  qed
  then have "length (jitems 125 (map ?item (sort_key fst ?es))) \<le> 1 + length es * 2406"
    using jitems_length [of 2405 "map ?item (sort_key fst ?es)" 125] by simp
  ultimately have "length (jtext (sort_keys (PyDict ?es))) \<le> 16000" using es(2) by simp
  then have "length b \<le> MAX_CANONICAL_JSON_BYTES" using utf8_encode_length [OF b] by (simp add: MAX_CANONICAL_JSON_BYTES_def)
  then show ?thesis using ok b e by (simp add: digest_payload_result canonical_json_iff)
qed

definition sample_answer :: pystr where "sample_answer = u ''ok''"

definition sample_message :: "pystr \<Rightarrow> message" where
  "sample_message key = \<lparr>ms_id = 9, ms_igreja_id = 1, ms_conversation_id = 2, ms_direcao = u ''out'', ms_autor = u ''ia'',
     ms_tipo = u ''texto'', ms_media_path = None, ms_media_mime = None, ms_media_nome = None, ms_media_tamanho = None,
     ms_autor_nome = None, ms_enviado_por = None, ms_provider_message_id = Some key,
     ms_agent_reply_state = Some AGENT_REPLY_EXECUTING, ms_texto = None\<rparr>"

definition sample_turn_db :: "py \<Rightarrow> pystr \<Rightarrow> turn_db" where
  "sample_turn_db j key = \<lparr>td_app = sample_db (sample_meeting j), td_messages = [sample_message key], td_audits = []\<rparr>"

lemma sample_key_accepted:
  "require_bounded_string ascii_db MAX_PROVIDER_MESSAGE_ID_BYTES REPLY_KEY_INVALID (derive_v2_compatibility_key rp)
     = Inr (derive_v2_compatibility_key rp)"
proof -
  let ?p = "compatibility_key_prefix V2"
  have "prefixed_hex64 ?p (derive_v2_compatibility_key rp)"
    by (simp add: derive_v2_compatibility_key_def derive_v2_compatibility_key_from_effect_id_def)
  then obtain h where k: "derive_v2_compatibility_key rp = ?p @ h" and h: "length h = 64" "\<forall>c \<in> set h. is_hex c"
    by (auto simp: prefixed_hex64_def startswith_iff)
  have p: "\<forall>c \<in> set ?p. 32 \<le> c \<and> c \<le> 126" "hd ?p = 97" "?p \<noteq> []" "length ?p \<le> 100"
    by (simp_all add: compatibility_key_prefix_def u_def live_legacy_reply_prefix_def)
  have "hd (?p @ h) = 97" "last (?p @ h) = last h" "last h \<in> set h" "length (?p @ h) \<le> 164"
    using p h(1) by (cases "h = []"; simp)+
  moreover have c: "\<forall>c \<in> set (?p @ h). 32 \<le> c \<and> c \<le> 126" using p(1) h(2) by (auto simp: is_hex_def)
  moreover have "\<not> py_isspace (last h)" "\<not> py_isspace 97"
    using h(2) calculation(3) by (auto simp: py_isspace_def is_hex_def)
  moreover have "utf8_encode (?p @ h) = Some (map byte (?p @ h))" 
  proof (rule utf8_encode_ascii, rule ballI)
    show "x < 128" if "x \<in> set (?p @ h)" for x using bspec [OF c that] by simp
  qed
  moreover have "list_all (ud_printable ascii_db) (?p @ h)" using c by (simp add: list_all_iff ascii_db_def)
  ultimately show ?thesis
    unfolding k by (simp add: require_bounded_string_def MAX_PROVIDER_MESSAGE_ID_BYTES_def p(3) del: hd_append2 last_appendR)
qed

text \<open>The three effects of the sample turn.\<close>

lemma sample_intent:
  assumes "short_entries es" "length es \<le> 6"
  obtains w where "intent_ok w" "ei_turn_id w = ti_turn_id sample_identity" "ei_kind w = kd" "ei_ordinal w = 0"
    "digest_effect_payload (ei_effect_id w) kd (PyDict (map (\<lambda>(k, s). (k, PyStr s)) es)) = Inr (ei_payload_digest w)"
proof -
  let ?p = "PyDict (map (\<lambda>(k, s). (k, PyStr s)) es)"
  obtain d where "digest_effect_payload (derive_effect_id (ti_turn_id sample_identity) (semantic_slot kd) 0) kd ?p = Inr d"
    using short_entries_digest [OF assms] derived_shapes(2) by blast
  then obtain w where b: "build_agent_effect_intent ascii_db sample_identity kd 0 ?p = Inr w" "ei_kind w = kd" "ei_ordinal w = 0"
      "digest_effect_payload (ei_effect_id w) kd ?p = Inr (ei_payload_digest w)"
    using sample_identity_ok by (auto simp: build_intent_result MAX_EFFECT_ORDINAL_def)
  show thesis using that [OF _ _ b(2-4)] built_intent_ok [OF b(1)] by blast
qed

lemma intent_short:
  assumes "intent_ok w"
  shows "short_ascii (ei_effect_id w)" "short_ascii (ei_payload_digest w)"
  using intent_ascii [OF assms] intent_lengths [OF assms] by (simp_all add: short_ascii_def)

lemma short_u [simp]: "list_all (\<lambda>c. of_char c < (128 :: nat)) s \<Longrightarrow> length s \<le> 200 \<Longrightarrow> short_ascii (u s)"
  by (auto simp: short_ascii_def u_def list_all_iff)

lemma sample_turn:
  obtains v au rp j row where
    "\<forall>l. \<exists>res db'. confirm_cell_report sample_env 1 5 2 4 (PyStr sample_command) sample_identity v app_now False
         ((sample_db (sample_meeting j))\<lparr>db_log := l\<rparr>) = (Inr res, db') \<and> tables db' = tables (sample_db row) \<and> db_pg db' = sample_pg"
    "authorized sample_env (sample_db row) 1 5 2 4 app_now row"
    "turn_arguments ascii_db 1 5 2 4 sample_identity v au rp 9 (derive_v2_compatibility_key rp) V2 sample_answer"
proof -
  obtain v j row payload where h: "\<forall>l. \<exists>res db'. confirm_cell_report sample_env 1 5 2 4 (PyStr sample_command) sample_identity v app_now False
         ((sample_db (sample_meeting j))\<lparr>db_log := l\<rparr>) = (Inr res, db') \<and> tables db' = tables (sample_db row) \<and> db_pg db' = sample_pg"
    "authorized sample_env (sample_db row) 1 5 2 4 app_now row" "effect_for ascii_db sample_identity 1 2 payload v" "ei_ordinal v = 0"
    by (rule sample_confirmation_after)
  have v: "intent_ok v" "ei_turn_id v = ti_turn_id sample_identity" "ei_kind v = TOOL_CALL" using h(3) by (simp_all add: effect_for_def)
  let ?r = "[(u ''schema'', reply_effect_schema), (u ''submission_effect_id'', ei_effect_id v),
             (u ''submission_payload_digest'', ei_payload_digest v), (u ''reply_text'', sample_answer)]"
  have "short_entries ?r"
    using intent_short [OF v(1)] by (simp add: short_entries_def reply_effect_schema_def sample_answer_def)
  then obtain rp where rp: "intent_ok rp" "ei_turn_id rp = ti_turn_id sample_identity" "ei_kind rp = OUTBOUND_REPLY" "ei_ordinal rp = 0"
      "digest_effect_payload (ei_effect_id rp) OUTBOUND_REPLY (reply_payload v sample_answer) = Inr (ei_payload_digest rp)"
    by (rule sample_intent [of ?r OUTBOUND_REPLY]) (simp_all add: reply_payload_def)
  let ?a = "[(u ''schema'', audit_effect_schema), (u ''evento'', CELL_REPORT_TURN_AUDIT_EVENT),
      (u ''submission_effect_id'', ei_effect_id v), (u ''submission_payload_digest'', ei_payload_digest v),
      (u ''reply_effect_id'', ei_effect_id rp), (u ''reply_payload_digest'', ei_payload_digest rp)]"
  have "short_entries ?a"
    using intent_short [OF v(1)] intent_short [OF rp(1)]
    by (simp add: short_entries_def audit_effect_schema_def CELL_REPORT_TURN_AUDIT_EVENT_def)
  then obtain au where au: "intent_ok au" "ei_turn_id au = ti_turn_id sample_identity" "ei_kind au = AUDIT_EVENT" "ei_ordinal au = 0"
      "digest_effect_payload (ei_effect_id au) AUDIT_EVENT (PyDict (audit_payload_entries v rp)) = Inr (ei_payload_digest au)"
    by (rule sample_intent [of ?a AUDIT_EVENT]) (simp_all add: audit_payload_entries_def)
  have "ei_effect_id w = derive_effect_id (ti_turn_id sample_identity) (semantic_slot (ei_kind w)) (ei_ordinal w)"
    if "intent_ok w" "ei_turn_id w = ti_turn_id sample_identity" for w using that by (simp add: intent_ok_def)
  from this [OF v(1,2)] this [OF au(1,2)] this [OF rp(1,2)] sample_effect_ids
  have "distinct [ei_effect_id v, ei_effect_id au, ei_effect_id rp]" using v au rp h(4) by simp
  moreover have "distinct [occurrence v, occurrence au, occurrence rp]" using v au rp by (simp add: occurrence_def intent_ok_def)
  ultimately have "turn_effects ascii_db sample_identity v au rp"
    using v au rp h(4) sample_identity_ok by (simp add: turn_effects_def intents_ok_def)
  moreover have "require_bounded_string ascii_db MAX_AGENT_TURN_RESPONSE_BYTES INVALID_ARGUMENT sample_answer = Inr sample_answer"
    by (simp add: require_bounded_string_def sample_answer_def u_def MAX_AGENT_TURN_RESPONSE_BYTES_def ascii_db_def utf8_char_def py_isspace_def)
  ultimately have "turn_arguments ascii_db 1 5 2 4 sample_identity v au rp 9 (derive_v2_compatibility_key rp) V2 sample_answer"
    using rp(5) au(5) sample_key_accepted by (simp add: turn_arguments_def) (simp add: sample_identity_def)
  then show thesis using that h(1,2) by blast
qed

text \<open>A first run on the sample session, and the session it leaves.\<close>

lemma sample_turn_run:
  assumes conf: "\<forall>l. \<exists>res db'. confirm_cell_report sample_env 1 5 2 4 (PyStr sample_command) sample_identity v app_now False
       ((sample_db (sample_meeting j))\<lparr>db_log := l\<rparr>) = (Inr res, db') \<and> tables db' = tables (sample_db row) \<and> db_pg db' = sample_pg"
    and args: "turn_arguments ascii_db 1 5 2 4 sample_identity v au rp 9 (derive_v2_compatibility_key rp) V2 sample_answer"
  obtains res d' where
    "stage_confirmed_cell_report_turn sample_env 1 5 2 4 (PyStr sample_command) sample_identity v au rp 9
       (derive_v2_compatibility_key rp) V2 sample_answer app_now (sample_turn_db j (derive_v2_compatibility_key rp)) = (Inr res, d')"
    "\<not> sr_replayed res" "tables (td_app d') = tables (sample_db row)" "db_pg (td_app d') = sample_pg"
proof -
  let ?key = "derive_v2_compatibility_key rp" and ?d = "sample_turn_db j (derive_v2_compatibility_key rp)"
  let ?m = "sample_message (derive_v2_compatibility_key rp)"
  let ?e = "logged [LockReply 9, LockAudit (ei_effect_id v)] ?d"
  let ?plan = "turn_plan sample_identity v au rp" and ?payload = "audit_payload sample_identity v au rp"
  have lock: "lock_turn_rows sample_env 1 2 sample_identity v rp ?plan ?payload 9 ?key V2 sample_answer ?d = (Inr (?m, False), ?e)"
    by (simp add: lock_turn_run sample_turn_db_def sample_message_def reply_rows_def audit_rows_def reply_row_ok_def reply_text_ok_def
        sample_db_def sample_pg_def)
  have "td_app ?e = (sample_db (sample_meeting j))\<lparr>db_log := [LockReply 9, LockAudit (ei_effect_id v)]\<rparr>"
    by (simp add: sample_turn_db_def) (simp add: sample_db_def)
  with conf obtain cr b where c: "confirm_cell_report sample_env 1 5 2 4 (PyStr sample_command) sample_identity v app_now False (td_app ?e)
      = (Inr cr, b)" "tables b = tables (sample_db row)" "db_pg b = sample_pg" by metis
  have cr: "cr_replayed cr = False" "cr_requires_caller_commit cr = True" using c(1) by (auto simp: confirm_run split: if_splits)
  let ?d' = "(logged [FlushTurn 9] (?e\<lparr>td_app := b\<rparr>))
       \<lparr>td_messages := [staged_reply ?m sample_answer], td_audits := [staged_audit sample_env 1 2 ?payload]\<rparr>"
  let ?res = "\<lparr>sr_snapshot = cr_snapshot cr, sr_plan = ?plan, sr_replayed = False, sr_requires_caller_commit = True\<rparr>"
  have "finish_turn sample_env 1 2 ?plan ?payload sample_answer ?m False cr (?e\<lparr>td_app := b\<rparr>) = (Inr ?res, ?d')"
    using c(3) by (simp add: finish_turn_run stage_rows_run cr sample_turn_db_def sample_message_def sample_pg_def)
  moreover have "pg_transaction (db_pg (td_app ?d)) \<noteq> None" "tenant_session (db_pg (td_app ?d)) 1"
    by (simp_all add: sample_turn_db_def sample_db_def sample_pg_def tenant_session_def)
  moreover have "stage_arguments sample_env 1 5 2 4 sample_identity v au rp 9 ?key V2 sample_answer = Inr (v, rp, ?plan, ?payload)"
    using args by (simp add: stage_arguments_result)
  ultimately have "stage_confirmed_cell_report_turn sample_env 1 5 2 4 (PyStr sample_command) sample_identity v au rp 9 ?key V2
      sample_answer app_now ?d = (Inr ?res, ?d')"
    using lock c(1) unfolding stage_run by blast
  then show thesis by (rule that) (use c(2,3) in \<open>simp_all add: tables_def\<close>)
qed

section \<open>Properties\<close>

text \<open>
  C4. A confirmed turn leaves its three records together.  When staging answers, in a session whose rows have
  distinct identifiers, the plan it returns is the plan of exactly the three effects it was given, the reply row
  is the reserved one with the caller's text and waits to be sent, the conversation has exactly one audit row
  for the submission and it names the submission's and the reply's payloads and that plan, the meeting's report
  is sent and its snapshot is filed under the submission, and the caller is told to commit.
\<close>

theorem turn_staged_together:
  assumes "unicode_ok (ev_text E)" "\<And>y. same_json (ev_jsonb E y) y"
    and "distinct (map ms_id (td_messages d))" "distinct (map m_id (db_meetings (td_app d)))"
    and "stage_confirmed_cell_report_turn E g r c a command t v au rp i key ver text' now d = (Inr res, d')"
  shows "build_agent_turn_execution_plan (ev_text E) t [v, au, rp] = Inr (sr_plan res) \<and> sr_requires_caller_commit res
    \<and> (\<exists>m. reply_rows d' g c i = [m] \<and> ms_provider_message_id m = Some key \<and> ms_texto m = Some text'
         \<and> ms_agent_reply_state m = Some AGENT_REPLY_PENDING)
    \<and> (\<exists>x. audit_rows d' g c (ei_effect_id v) = [x]
         \<and> same_json (al_payload x)
             (PyDict (audit_payload_entries v rp @ [(u ''plan_digest'', PyStr (pl_plan_digest (sr_plan res)))])))
    \<and> (\<exists>q s. meeting_rows (td_app d') g r = [q] \<and> m_relatorio_status q = RELATORIO_ENVIADO
         \<and> validate_cell_report_snapshot_v2 (ev_text E) (m_relatorio_snapshot q) = Inr s
         \<and> sn_submission_effect_id s = ei_effect_id v \<and> sn_submission_payload_digest s = ei_payload_digest v)"
proof -
  have p: "turn_effects (ev_text E) t v au rp" "sr_plan res = turn_plan t v au rp" "sr_requires_caller_commit res"
    using assms(5) by (auto simp: stage_run stage_arguments_result turn_arguments_def finish_turn_run)
  have "turn_staged E d' g r c t v au rp i key text'" by (rule turn_staged_run [OF assms])
  then show ?thesis
    unfolding turn_staged_def reply_row_ok_def reply_text_ok_def p(2) audit_payload_def
    using turn_plan_built [OF p(1)] p(3) by simp blast
qed

theorem turn_staged_together_witness:
  "\<exists>v au rp key j res d'. stage_confirmed_cell_report_turn sample_env 1 5 2 4 (PyStr sample_command) sample_identity v au rp 9 key V2
       sample_answer app_now (sample_turn_db j key) = (Inr res, d')
     \<and> (\<exists>m. reply_rows d' 1 2 9 = [m] \<and> ms_texto m = Some sample_answer) \<and> (\<exists>x. audit_rows d' 1 2 (ei_effect_id v) = [x])"
proof -
  obtain v au rp j row where s: "\<forall>l. \<exists>res db'. confirm_cell_report sample_env 1 5 2 4 (PyStr sample_command) sample_identity v app_now False
         ((sample_db (sample_meeting j))\<lparr>db_log := l\<rparr>) = (Inr res, db') \<and> tables db' = tables (sample_db row) \<and> db_pg db' = sample_pg"
    "authorized sample_env (sample_db row) 1 5 2 4 app_now row"
    "turn_arguments ascii_db 1 5 2 4 sample_identity v au rp 9 (derive_v2_compatibility_key rp) V2 sample_answer" by (rule sample_turn)
  obtain res d' where r: "stage_confirmed_cell_report_turn sample_env 1 5 2 4 (PyStr sample_command) sample_identity v au rp 9
       (derive_v2_compatibility_key rp) V2 sample_answer app_now (sample_turn_db j (derive_v2_compatibility_key rp)) = (Inr res, d')"
    "\<not> sr_replayed res" "tables (td_app d') = tables (sample_db row)" "db_pg (td_app d') = sample_pg"
    by (rule sample_turn_run [OF s(1,3)])
  have d: "distinct (map ms_id (td_messages (sample_turn_db j k)))" "distinct (map m_id (db_meetings (td_app (sample_turn_db j k))))" for k
    by (simp_all add: sample_turn_db_def sample_db_def)
  have u: "unicode_ok (ev_text sample_env)" using ascii_db_ok by simp
  from turn_staged_together [OF u _ d r(1)] r(1) show ?thesis using same_json_refl by (simp only: sample_env_sel) blast
qed

text \<open>
  C12. A staged turn writes its rows and nothing else.  A first run gives the reserved reply row its text and
  the state in which it waits to be sent, appends one audit row, replaces the one meeting row by the sent report
  of the candidate that was confirmed, and leaves every other row of every table as it was; a replay leaves the
  tables untouched.
\<close>

theorem turn_writes_exactly:
  assumes U: "unicode_ok (ev_text E)"
    and run: "stage_confirmed_cell_report_turn E g r c a command t v au rp i key ver text' now d = (Inr res, d')"
  shows "if sr_replayed res
    then td_messages d' = td_messages d \<and> td_audits d' = td_audits d \<and> tables (td_app d') = tables (td_app d)
    else td_messages d' = map (\<lambda>x. if ms_id x = i then staged_reply (hd (reply_rows d g c i)) text' else x) (td_messages d)
      \<and> td_audits d' = td_audits d @ [staged_audit E g c (audit_payload t v au rp)]
      \<and> (\<exists>n q k. canonical_utc now = Inr n \<and> meeting_rows (td_app d) g r = [q] \<and> m_relatorio_status q = RELATORIO_PENDENTE
           \<and> tables (td_app d') = tables ((td_app d)\<lparr>db_meetings :=
               replaced (stored_row E (report_row (ev_text E) q k v a n)) (db_meetings (td_app d))\<rparr>))"
proof (cases "sr_replayed res")
  case True
  obtain plan payload m e conf b where
      lock: "lock_turn_rows E g c t v rp plan payload i key ver text' d = (Inr (m, sr_replayed res), e)"
      and conf: "confirm_cell_report E g r c a command t v now (sr_replayed res) (td_app e) = (Inr conf, b)"
      and fin: "finish_turn E g c plan payload text' m (sr_replayed res) conf (e\<lparr>td_app := b\<rparr>) = (Inr res, d')"
    by (rule stage_run_parts [OF run]) blast
  have e: "e = logged [LockReply i, LockAudit (ei_effect_id v)] d" and d': "d' = e\<lparr>td_app := b\<rparr>"
    using lock fin True by (simp_all add: lock_turn_run finish_turn_run)
  obtain n bb q dd where "load_and_authorize E g r c a n (td_app e) = (Inr q, dd)" "b = dd"
    using conf True unfolding confirm_run by (auto simp: confirmation_arguments_Inr)
  then have "tables b = tables (td_app e)" using authorize_sound by (fastforce simp: tables_def)
  then show ?thesis using True by (simp add: d' e)
next
  case False
  obtain n m q p where h:
    "turn_effects (ev_text E) t v au rp" "sr_plan res = turn_plan t v au rp" "sr_requires_caller_commit res"
    "reply_rows d g c i = [m]" "reply_row_ok m key" "reply_text_ok m False text'" "audit_rows d g c (ei_effect_id v) = []"
    "canonical_utc now = Inr n" "authorized E (td_app d) g r c a n q" "m_relatorio_status q = RELATORIO_PENDENTE"
    "pending_row (ev_text E) q (pp_bindings p) p" "live p n"
    "candidate_ok (ev_text E) (wf_candidate (pp_workflow p))" "is_complete (wf_candidate (pp_workflow p))"
    "prefixed_hex64 effect_id_prefix (ei_effect_id v)" "prefixed_hex64 payload_digest_prefix (ei_payload_digest v)"
    "sr_snapshot res = report_value (wf_candidate (pp_workflow p)) (ei_effect_id v) (ei_payload_digest v)"
    "tables (td_app d') = tables ((td_app d)\<lparr>db_meetings :=
       replaced (stored_row E (report_row (ev_text E) q (wf_candidate (pp_workflow p)) v a n)) (db_meetings (td_app d))\<rparr>)"
    "td_messages d' = map (\<lambda>x. if ms_id x = i then staged_reply m text' else x) (td_messages d)"
    "td_audits d' = td_audits d @ [staged_audit E g c (audit_payload t v au rp)]"
    "connection (td_app d') = connection (td_app d)"
    by (rule fresh_turn_run [OF U run False])
  have "meeting_rows (td_app d) g r = [q]" using h(9) by (simp add: authorized_def meeting_row_def)
  then show ?thesis using False h(4,8,10,18-20) by auto
qed

theorem turn_writes_exactly_witness:
  "\<exists>v au rp key j res d'. stage_confirmed_cell_report_turn sample_env 1 5 2 4 (PyStr sample_command) sample_identity v au rp 9 key V2
       sample_answer app_now (sample_turn_db j key) = (Inr res, d')
     \<and> td_messages d' = [staged_reply (sample_message key) sample_answer]
     \<and> td_audits d' = [staged_audit sample_env 1 2 (audit_payload sample_identity v au rp)]"
proof -
  obtain v au rp j row where s: "\<forall>l. \<exists>res db'. confirm_cell_report sample_env 1 5 2 4 (PyStr sample_command) sample_identity v app_now False
         ((sample_db (sample_meeting j))\<lparr>db_log := l\<rparr>) = (Inr res, db') \<and> tables db' = tables (sample_db row) \<and> db_pg db' = sample_pg"
    "authorized sample_env (sample_db row) 1 5 2 4 app_now row"
    "turn_arguments ascii_db 1 5 2 4 sample_identity v au rp 9 (derive_v2_compatibility_key rp) V2 sample_answer" by (rule sample_turn)
  obtain res d' where r: "stage_confirmed_cell_report_turn sample_env 1 5 2 4 (PyStr sample_command) sample_identity v au rp 9
       (derive_v2_compatibility_key rp) V2 sample_answer app_now (sample_turn_db j (derive_v2_compatibility_key rp)) = (Inr res, d')"
    "\<not> sr_replayed res" "tables (td_app d') = tables (sample_db row)" "db_pg (td_app d') = sample_pg"
    by (rule sample_turn_run [OF s(1,3)])
  have "unicode_ok (ev_text sample_env)" using ascii_db_ok by simp
  note w = turn_writes_exactly [OF this r(1)]
  have "reply_rows (sample_turn_db j k) 1 2 9 = [sample_message k]" "td_messages (sample_turn_db j k) = [sample_message k]"
    "ms_id (sample_message k) = 9" "td_audits (sample_turn_db j k) = []" for k
    by (simp_all add: sample_turn_db_def reply_rows_def sample_message_def)
  then show ?thesis using w r(1,2) by simp blast
qed








text \<open>
  C11. A failing turn leaves nothing to commit.  When staging raises, either every table is what it was (reply
  rows, audit rows, and the tables of the report), or a statement failed and with it the whole transaction,
  which can then only be rolled back.
\<close>

theorem turn_errors_uncommittable:
  assumes "unicode_ok (ev_text E)"
    and "stage_confirmed_cell_report_turn E g r c a command t v au rp i key ver text' now d = (Inl er, d')"
  shows "td_messages d' = td_messages d \<and> td_audits d' = td_audits d \<and> tables (td_app d') = tables (td_app d)
    \<or> pg_failed (db_pg (td_app d'))"
  using stage_raises [OF assms] by (auto simp: turn_reads_def reads_only_def)

theorem turn_errors_uncommittable_witness:
  "\<exists>v au rp key j er d'. stage_confirmed_cell_report_turn sample_env 1 5 2 4 (PyStr sample_command) sample_identity v au rp 9 key V2
       sample_answer app_now ((sample_turn_db j key)\<lparr>td_messages := []\<rparr>) = (Inl er, d')
     \<and> (td_audits d' = [] \<or> pg_failed (db_pg (td_app d')))"
proof -
  obtain v au rp j row where s: "\<forall>l. \<exists>res db'. confirm_cell_report sample_env 1 5 2 4 (PyStr sample_command) sample_identity v app_now False
         ((sample_db (sample_meeting j))\<lparr>db_log := l\<rparr>) = (Inr res, db') \<and> tables db' = tables (sample_db row) \<and> db_pg db' = sample_pg"
    "authorized sample_env (sample_db row) 1 5 2 4 app_now row"
    "turn_arguments ascii_db 1 5 2 4 sample_identity v au rp 9 (derive_v2_compatibility_key rp) V2 sample_answer" by (rule sample_turn)
  let ?key = "derive_v2_compatibility_key rp"
  let ?d = "(sample_turn_db j ?key)\<lparr>td_messages := []\<rparr>"
  have none: "reply_rows ?d 1 2 9 = []" by (simp add: reply_rows_def)
  obtain x d' where x: "stage_confirmed_cell_report_turn sample_env 1 5 2 4 (PyStr sample_command) sample_identity v au rp 9 ?key V2
       sample_answer app_now ?d = (x, d')" by fastforce
  moreover have "x \<noteq> Inr res" for res
    using x none stage_run_parts [of sample_env 1 5 2 4 "PyStr sample_command" sample_identity v au rp 9 ?key V2 sample_answer app_now ?d res d']
    by (auto simp: lock_turn_run)
  ultimately obtain er where er: "stage_confirmed_cell_report_turn sample_env 1 5 2 4 (PyStr sample_command) sample_identity v au rp 9 ?key V2
       sample_answer app_now ?d = (Inl er, d')" by (cases x) auto
  have u: "unicode_ok (ev_text sample_env)" using ascii_db_ok by simp
  have "td_audits ?d = []" by (simp add: sample_turn_db_def)
  with turn_errors_uncommittable [OF u er] er show ?thesis by fastforce
qed

end
