(* ===== verification/ConsentRetention.thy ===== *)
theory ConsentRetention
  imports ConsentEvidence
begin

text \<open>
  The retention deadlines of \<open>domain/consent_evidence_store.py\<close>: calendar years with the
  February 29 clamp for refusals, ninety days after abandonment or expiry for presentations.
  The lemmas count leap days, so that the deadlines are bounded in days of the calendar.
\<close>

section \<open>Deadlines\<close>

definition REFUSAL_RETENTION_YEARS :: int where "REFUSAL_RETENTION_YEARS = 5"
definition PRESENTATION_RETENTION_DAYS :: nat where "PRESENTATION_RETENTION_DAYS = 90"

definition replace_year :: "datetime \<Rightarrow> nat \<Rightarrow> (evidence_error, datetime) result" where
  "replace_year t y = (if valid_date y (month t) (day t) then Inr (t\<lparr>year := y\<rparr>) else Inl ValueError)"

definition replace_year_day :: "datetime \<Rightarrow> nat \<Rightarrow> nat \<Rightarrow> (evidence_error, datetime) result" where
  "replace_year_day t y d =
     (if valid_date y (month t) d then Inr (t\<lparr>year := y, day := d\<rparr>) else Inl ValueError)"

definition add_calendar_years :: "datetime \<Rightarrow> int \<Rightarrow> (evidence_error, datetime) result" where
  "add_calendar_years value years =
     ebind (require_utc value) (\<lambda>t.
       if years < 0 then Inl Rejected
       else ecatch (replace_year t (year t + nat years)) (\<lambda>e.
              if month t = 2 \<and> day t = 29 then replace_year_day t (year t + nat years) 28 else Inl e))"

definition refusal_retention_deadline :: "datetime \<Rightarrow> (evidence_error, datetime) result" where
  "refusal_retention_deadline recorded_at = add_calendar_years recorded_at REFUSAL_RETENTION_YEARS"

definition presentation_retention_deadline ::
  "datetime \<Rightarrow> datetime option \<Rightarrow> datetime option \<Rightarrow> (evidence_error, datetime) result" where
  "presentation_retention_deadline challenge_expires_at abandoned_at challenge_created_at =
     ebind (require_utc challenge_expires_at) (\<lambda>expires.
     ebind (require_optional_utc abandoned_at) (\<lambda>abandoned.
     ebind (require_optional_utc challenge_created_at) (\<lambda>created.
       if (case created of None \<Rightarrow> False | Some c \<Rightarrow> instant c \<ge> instant expires) then Inl Rejected
       else if (case (abandoned, created) of (Some a, Some c) \<Rightarrow> instant a < instant c | _ \<Rightarrow> False)
       then Inl Rejected
       else let start = (case abandoned of
                           None \<Rightarrow> expires
                         | Some a \<Rightarrow> if instant a \<ge> instant expires then expires else a)
            in case add_days PRESENTATION_RETENTION_DAYS start of None \<Rightarrow> Inl OverflowError | Some t \<Rightarrow> Inr t)))"

definition receipt_retention_deadline ::
  "consent_action \<Rightarrow> datetime \<Rightarrow> datetime option \<Rightarrow> datetime option \<Rightarrow> datetime option
   \<Rightarrow> (evidence_error, datetime) result" where
  "receipt_retention_deadline action recorded_at challenge_expires_at abandoned_at challenge_created_at =
     ebind (require_utc recorded_at) (\<lambda>recorded.
       if action = REFUSE_INITIAL then refusal_retention_deadline recorded
       else case challenge_expires_at of
              None \<Rightarrow> Inl Rejected
            | Some expires \<Rightarrow> presentation_retention_deadline expires abandoned_at challenge_created_at)"

section \<open>Calendar lemmas\<close>

lemma days_before_month_leap:
  assumes "1 \<le> m" "m \<le> 12"
  shows "days_before_month y m = days_before_month 1 m + (if 2 < m \<and> is_leap y then 1 else 0)"
proof -
  have "m \<in> {1, 2, 3, 4, 5, 6, 7, 8, 9, 10, 11, 12}" using assms by (simp only: insert_iff empty_iff) presburger
  moreover have "\<not> is_leap 1" by (simp add: is_leap_def)
  ultimately show ?thesis by (elim insertE) (simp_all add: eval_nat_numeral days_in_month_def)
qed

definition leap_days :: "nat \<Rightarrow> nat" where
  "leap_days y = (if is_leap y then 1 else 0)"

lemma days_before_year_5:
  assumes "1 \<le> y"
  shows "days_before_year (y + 5) = days_before_year y + 1825
    + (leap_days y + leap_days (y + 1) + leap_days (y + 2) + leap_days (y + 3) + leap_days (y + 4))"
proof -
  have s: "days_before_year w = days_before_year z + 365 + leap_days z" if "1 \<le> z" "w = Suc z" for w z
    using days_before_year_Suc [OF that(1)] that(2) by (simp add: leap_days_def)
  have "days_before_year (y + 1) = days_before_year y + 365 + leap_days y" by (rule s) (use assms in simp_all)
  moreover have "days_before_year (y + 2) = days_before_year (y + 1) + 365 + leap_days (y + 1)" by (rule s) simp_all
  moreover have "days_before_year (y + 3) = days_before_year (y + 2) + 365 + leap_days (y + 2)" by (rule s) simp_all
  moreover have "days_before_year (y + 4) = days_before_year (y + 3) + 365 + leap_days (y + 3)" by (rule s) simp_all
  moreover have "days_before_year (y + 5) = days_before_year (y + 4) + 365 + leap_days (y + 4)" by (rule s) simp_all
  ultimately show ?thesis by linarith
qed

lemma leap_days_five: "leap_days y + leap_days (y + 1) + leap_days (y + 2) + leap_days (y + 3) + leap_days (y + 4) \<le> 2"
proof -
  have no: "leap_days z = 0" if "z mod 4 \<noteq> 0" for z using that by (simp add: leap_days_def is_leap_def)
  have le: "leap_days z \<le> 1" for z by (simp add: leap_days_def)
  consider "y mod 4 = 0" | "y mod 4 = 1" | "y mod 4 = 2" | "y mod 4 = 3" by linarith
  then show ?thesis
  proof cases
    case 1
    then have "(y + 1) mod 4 \<noteq> 0" "(y + 2) mod 4 \<noteq> 0" "(y + 3) mod 4 \<noteq> 0" by presburger+
    then show ?thesis using no le [of y] le [of "y + 4"] by simp
  next
    case 2
    then have "y mod 4 \<noteq> 0" "(y + 1) mod 4 \<noteq> 0" "(y + 2) mod 4 \<noteq> 0" "(y + 4) mod 4 \<noteq> 0" by presburger+
    then show ?thesis using no le [of "y + 3"] by simp
  next
    case 3
    then have "y mod 4 \<noteq> 0" "(y + 1) mod 4 \<noteq> 0" "(y + 3) mod 4 \<noteq> 0" "(y + 4) mod 4 \<noteq> 0" by presburger+
    then show ?thesis using no le [of "y + 2"] by simp
  next
    case 4
    then have "y mod 4 \<noteq> 0" "(y + 2) mod 4 \<noteq> 0" "(y + 3) mod 4 \<noteq> 0" "(y + 4) mod 4 \<noteq> 0" by presburger+
    then show ?thesis using no le [of "y + 1"] by simp
  qed
qed

lemma days_in_month_other: "m \<noteq> 2 \<Longrightarrow> days_in_month y m = days_in_month z m"
  by (simp add: days_in_month_def)

lemma refusal_deadline_value:
  assumes v: "valid_datetime t" and z: "utcoffset t = Some 0" and y: "year t \<le> 9994"
  shows "refusal_retention_deadline t =
    Inr (t\<lparr>year := year t + 5, day := (if month t = 2 \<and> day t = 29 \<and> \<not> is_leap (year t + 5) then 28 else day t)\<rparr>)"
proof -
  have d: "valid_date (year t) (month t) (day t)" using v by (simp add: valid_datetime_def)
  show ?thesis
  proof (cases "month t = 2 \<and> day t = 29 \<and> \<not> is_leap (year t + 5)")
    case True
    then show ?thesis
      using z y by (simp add: refusal_retention_deadline_def add_calendar_years_def require_utc_iff [THEN iffD2]
          REFUSAL_RETENTION_YEARS_def replace_year_def replace_year_day_def valid_date_def days_in_month_def)
  next
    case False
    have "valid_date (year t + 5) (month t) (day t)"
    proof (cases "month t = 2")
      case True
      then have "day t \<le> 28 \<or> day t = 29" using d by (auto simp: valid_date_def days_in_month_def split: if_splits)
      then show ?thesis using True False d y by (auto simp: valid_date_def days_in_month_def)
    next
      case False
      then show ?thesis using d y days_in_month_other [of "month t" "year t" "year t + 5"] by (simp add: valid_date_def)
    qed
    then show ?thesis
      using False z by (auto simp: refusal_retention_deadline_def add_calendar_years_def require_utc_iff [THEN iffD2]
          REFUSAL_RETENTION_YEARS_def replace_year_def)
  qed
qed

text \<open>
  C38. The retention deadline of a refusal recorded up to the year 9994 exists, is the same day
  five calendar years later (the 28th for a February 29 without an anniversary), keeps the time
  of day, and lies between 1825 and 1827 days after the refusal.
\<close>

theorem refusal_retention_bounds:
  assumes v: "valid_datetime t" and z: "utcoffset t = Some 0" and y: "year t \<le> 9994"
  shows "\<exists>r. refusal_retention_deadline t = Inr r \<and> valid_datetime r \<and> year r = year t + 5 \<and> month r = month t
    \<and> (day r = day t \<or> month t = 2 \<and> day t = 29 \<and> day r = 28) \<and> day_micros r = day_micros t
    \<and> 1825 * 86400000000 \<le> instant r - instant t \<and> instant r - instant t \<le> 1827 * 86400000000"
proof -
  let ?clamp = "month t = 2 \<and> day t = 29 \<and> \<not> is_leap (year t + 5)"
  define r where "r = t\<lparr>year := year t + 5, day := (if ?clamp then 28 else day t)\<rparr>"
  have d: "valid_date (year t) (month t) (day t)" using v by (simp add: valid_datetime_def)
  have dr: "valid_date (year r) (month r) (day r)"
  proof (cases "month t = 2")
    case True
    then have "day t \<le> 28 \<or> day t = 29" using d by (auto simp: valid_date_def days_in_month_def split: if_splits)
    then show ?thesis using True d y by (auto simp: r_def valid_date_def days_in_month_def)
  next
    case False
    then show ?thesis using d y days_in_month_other [of "month t" "year t" "year t + 5"] by (simp add: r_def valid_date_def)
  qed
  then have vr: "valid_datetime r" using v by (simp add: valid_datetime_def r_def)
  have m: "1 \<le> month t" "month t \<le> 12" "1 \<le> year t" using d by (simp_all add: valid_date_def)
  define n where "n = leap_days (year t) + leap_days (year t + 1) + leap_days (year t + 2) + leap_days (year t + 3) + leap_days (year t + 4)"
  have n2: "n \<le> 2" unfolding n_def by (rule leap_days_five)
  have n2': "n - leap_days (year t) + leap_days (year t + 5) \<le> 2"
  proof -
    have "year t + 1 + 1 = year t + 2" "year t + 1 + 2 = year t + 3" "year t + 1 + 3 = year t + 4" "year t + 1 + 4 = year t + 5"
      by simp_all
    from leap_days_five [of "year t + 1", unfolded this] show ?thesis unfolding n_def by linarith
  qed
  have q: "days_before_year (year t + 5) = days_before_year (year t) + 1825 + n"
    unfolding n_def by (rule days_before_year_5) (rule m)
  have ord: "toordinal t + 1825 \<le> toordinal r \<and> toordinal r \<le> toordinal t + 1827"
  proof (cases "2 < month t")
    case True
    then have "days_before_month (year t) (month t) = days_before_month 1 (month t) + leap_days (year t)"
      "days_before_month (year t + 5) (month t) = days_before_month 1 (month t) + leap_days (year t + 5)"
      using days_before_month_leap [OF m(1,2), of "year t"] days_before_month_leap [OF m(1,2), of "year t + 5"]
      by (simp_all add: leap_days_def)
    moreover have "leap_days (year t) \<le> n" by (simp add: n_def)
    ultimately show ?thesis using q n2' True by (simp add: toordinal_def r_def)
  next
    case False
    then have "days_before_month (year t) (month t) = days_before_month (year t + 5) (month t)"
      using days_before_month_leap [OF m(1,2), of "year t"] days_before_month_leap [OF m(1,2), of "year t + 5"] by simp
    moreover have "1 \<le> n" if "?clamp"
      using that d by (simp add: n_def leap_days_def valid_date_def days_in_month_def split: if_splits)
    ultimately show ?thesis using q n2 by (auto simp: toordinal_def r_def)
  qed
  have us: "day_micros r = day_micros t" "utcoffset r = Some 0" using z by (simp_all add: r_def day_micros_def utcoffset_def)
  then have diff: "instant r - instant t = (int (toordinal r) - int (toordinal t)) * 86400000000"
    using z by (simp add: instant_def)
  have "int (toordinal r) - int (toordinal t) \<ge> 1825" "int (toordinal r) - int (toordinal t) \<le> 1827"
    using ord by linarith+
  then have "1825 * 86400000000 \<le> instant r - instant t" "instant r - instant t \<le> 1827 * 86400000000"
    unfolding diff by (simp_all only: mult_right_mono zero_le_numeral)
  then show ?thesis
    using refusal_deadline_value [OF assms] vr us by (intro exI [of _ r]) (auto simp: r_def)
qed

theorem refusal_retention_bounds_witness:
  "\<exists>r. refusal_retention_deadline ((sample_time 5)\<lparr>year := 2028, month := 2, day := 29\<rparr>) = Inr r \<and> year r = 2033 \<and> valid_datetime r"
proof -
  let ?t = "(sample_time 5)\<lparr>year := 2028, month := 2, day := 29\<rparr>"
  have "valid_datetime ?t" "utcoffset ?t = Some 0" "year ?t \<le> 9994"
    by (simp_all add: sample_time_def valid_datetime_def valid_date_def days_in_month_def is_leap_def utcoffset_def)
  from refusal_retention_bounds [OF this] show ?thesis by auto
qed

lemma next_day_None: "valid_date (year t) (month t) (day t) \<Longrightarrow> next_day t = None \<Longrightarrow> toordinal t = 3652059"
proof -
  assume "valid_date (year t) (month t) (day t)" "next_day t = None"
  then have "year t = 9999" "month t = 12" "day t = 31"
    by (auto simp: next_day_def valid_date_def days_in_month_def split: if_splits)
  moreover have "days_before_month 9999 12 = 334" 
    using days_before_month_13 [of 9999] days_before_month_Suc [of 12 9999]
    by (simp add: is_leap_def days_in_month_def del: days_before_month.simps)
  ultimately show ?thesis by (simp add: toordinal_def days_before_year_def)
qed

lemma add_days_defined:
  "valid_date (year t) (month t) (day t) \<Longrightarrow> toordinal t + n \<le> 3652059 \<Longrightarrow> \<exists>t'. add_days n t = Some t'"
proof (induction n arbitrary: t)
  case (Suc n)
  obtain s where s: "next_day t = Some s" using next_day_None [OF Suc.prems(1)] Suc.prems(2) by (cases "next_day t") auto
  with next_day_ordinal [OF Suc.prems(1) s] Suc.prems(2) Suc.IH [of s] show ?case by simp
qed simp

lemma toordinal_year_bound: "valid_datetime t \<Longrightarrow> year t \<le> 9998 \<Longrightarrow> toordinal t \<le> 3651694"
proof -
  assume v: "valid_datetime t" and y: "year t \<le> 9998"
  have "days_before_year 9999 = 3651694" by (simp add: days_before_year_def)
  then show ?thesis
    using days_before_year_mono [of "year t" 9999] day_of_year_bound(2) [of "year t" "month t" "day t"] v y
    by (simp add: toordinal_def valid_datetime_def valid_date_def)
qed

lemma instant_toordinal_mono:
  assumes "valid_datetime s" "valid_datetime t" "utcoffset s = Some 0" "utcoffset t = Some 0" "instant s \<le> instant t"
  shows "toordinal s \<le> toordinal t"
  using assms day_micros_bound [OF assms(1)] day_micros_bound [OF assms(2)] by (simp add: instant_def)

text \<open>
  The deadline of a presentation is ninety days after the abandonment, clamped to the
  technical expiry of the challenge: an observation after the expiry never extends it.  The
  only inputs refused are a creation that does not precede the expiry and an abandonment before
  the creation.
\<close>

theorem presentation_retention_clamped:
  assumes e: "valid_datetime expires" "utcoffset expires = Some 0" "year expires \<le> 9998"
    and a: "\<And>a. abandoned = Some a \<Longrightarrow> valid_datetime a \<and> utcoffset a = Some 0"
    and c: "\<And>c. created = Some c \<Longrightarrow> utcoffset c = Some 0"
  shows "if (\<exists>c. created = Some c \<and> (instant expires \<le> instant c \<or> (\<exists>a. abandoned = Some a \<and> instant a < instant c)))
    then presentation_retention_deadline expires abandoned created = Inl Rejected
    else \<exists>r. presentation_retention_deadline expires abandoned created = Inr r \<and> valid_datetime r
      \<and> instant r = min (case abandoned of None \<Rightarrow> instant expires | Some a \<Rightarrow> instant a) (instant expires) + 90 * 86400000000
      \<and> instant r \<le> instant expires + 90 * 86400000000"
    (is "if ?bad then _ else _")
proof (cases ?bad)
  case True
  then show ?thesis
    using e(2) a c by (auto simp: presentation_retention_deadline_def require_utc_iff [THEN iffD2] require_optional_utc_def
        split: option.splits)
next
  case False
  define start where "start = (case abandoned of None \<Rightarrow> expires | Some a \<Rightarrow> if instant a \<ge> instant expires then expires else a)"
  have s: "valid_datetime start" "utcoffset start = Some 0" "instant start \<le> instant expires"
    "instant start = min (case abandoned of None \<Rightarrow> instant expires | Some a \<Rightarrow> instant a) (instant expires)"
    using e a by (auto simp: start_def split: option.splits)
  have "toordinal start + 90 \<le> 3652059"
    using instant_toordinal_mono [OF s(1) e(1) s(2) e(2) s(3)] toordinal_year_bound [OF e(1,3)] by simp
  then obtain r where r: "add_days 90 start = Some r"
    using add_days_defined [of start 90] s(1) by (auto simp: valid_datetime_def)
  have v: "valid_datetime r" "instant r = instant start + 90 * 86400000000"
    using add_days_instant [OF s(1) r] by simp_all
  have "presentation_retention_deadline expires abandoned created =
      (case add_days PRESENTATION_RETENTION_DAYS start of None \<Rightarrow> Inl OverflowError | Some t \<Rightarrow> Inr t)"
    using False e(2) a c
    by (auto simp: presentation_retention_deadline_def start_def require_utc_iff [THEN iffD2] require_optional_utc_def
        Let_def split: option.splits)
  then have "presentation_retention_deadline expires abandoned created = Inr r"
    by (simp add: PRESENTATION_RETENTION_DAYS_def r)
  with v s(3,4) show ?thesis using False by auto
qed

theorem presentation_retention_clamped_witness:
  "(\<exists>r. presentation_retention_deadline (sample_time 20) (Some (sample_time 40)) (Some (sample_time 0)) = Inr r
      \<and> instant r = instant (sample_time 20) + 90 * 86400000000)
   \<and> presentation_retention_deadline (sample_time 20) (Some (sample_time 40)) (Some (sample_time 50)) = Inl Rejected"
  using presentation_retention_clamped [of "sample_time 20" "Some (sample_time 40)" "Some (sample_time 0)"]
    presentation_retention_clamped [of "sample_time 20" "Some (sample_time 40)" "Some (sample_time 50)"]
  by auto

end
