(* ===== verification/ConsentOutcomes.thy ===== *)
theory ConsentOutcomes
  imports ConsentPostgres
begin

text \<open>
  What the writers and the observation of the evidence store guarantee over the PostgreSQL adapter,
  whatever they answer: no other action passes, evidence is append-only, the tenant barrier fails
  closed, and a success has staged or found the whole chain.
\<close>

text \<open>
  An action other than an initial refusal is refused before anything is read or locked:
  \<open>ACCEPT\<close> and \<open>WITHDRAW\<close> are blocked in the writer and in the observation, whatever the store,
  the source and the clock are, and the world is untouched.
\<close>

theorem other_actions_blocked:
  assumes "rq_acao r = Some ACCEPT \<or> rq_acao r = Some WITHDRAW"
  shows "record_initial_refusal U r w = (Inl (Uow ACTION_BLOCKED), w)
    \<and> reconcile_initial_refusal U r w = (Inl (Uow ACTION_BLOCKED), w)
    \<and> record_presentation U r w = (Inl (Uow INVALID_ARGUMENT), w)"
  using assms
  by (auto simp: record_initial_refusal_def reconcile_initial_refusal_def record_presentation_def preflight_def
      require_allowed_action_def sbind_def)

theorem other_actions_blocked_witness:
  "\<forall>(U :: pg uow) w. record_initial_refusal U (sample_refusal\<lparr>rq_acao := Some WITHDRAW\<rparr>) w = (Inl (Uow ACTION_BLOCKED), w)"
proof -
  have "rq_acao (sample_refusal\<lparr>rq_acao := Some WITHDRAW\<rparr>) = Some ACCEPT \<or> rq_acao (sample_refusal\<lparr>rq_acao := Some WITHDRAW\<rparr>) = Some WITHDRAW"
    by simp
  note blocked = other_actions_blocked [OF this]
  show ?thesis by (simp add: blocked)
qed

text \<open>
  C18. Evidence is append-only and the ledger is never written: whatever a run of the writers
  answers, success or error, the stored evidence and receipts are a prefix of the rows it leaves,
  every stored challenge keeps its place and content and is at most closed from \<open>OPEN\<close>, and the
  ledger is unchanged; an observation changes nothing at all.
\<close>

theorem evidence_append_only:
  "db_extends (pg_db s) (pg_db (snd (record_presentation (postgres_uow U) r s)))
   \<and> db_extends (pg_db s) (pg_db (snd (record_initial_refusal (postgres_uow U) r s)))
   \<and> pg_db (snd (reconcile_initial_refusal (postgres_uow U) r s)) = pg_db s"
  using obeysD [OF pg.record_presentation_appends] obeysD [OF pg.record_initial_refusal_appends] obeysD [OF pg.reconcile_keeps]
  by (metis prod.collapse)

text \<open>A session to evaluate on: a writing transaction of tenant 2, whose person 3 has no evidence yet.\<close>

definition sample_session :: pg where
  "sample_session = \<lparr>pg_transaction = Some 1, pg_lock_scope = None, pg_read_only = False, pg_xid_assigned = False,
     pg_isolation = u ''read committed'', pg_role = Some TENANT_ROLE, pg_igreja = Some 2,
     pg_tenant_guc = Some (str_of_uuid 2), pg_failed = False, pg_held = [], pg_people = [(2, 3)],
     pg_db = \<lparr>db_challenges = [], db_evidence = [], db_receipts = [], db_ledger = []\<rparr>\<rparr>"

lemma pg_tenant_scope: "require_tenant_scope (postgres_uow U) g s =
    (if pg_failed s \<or> \<not> tenant_session s g then (Inl (Uow TENANT_SCOPE_REQUIRED), s) else (Inr (), s))"
  by (simp add: require_tenant_scope_def postgres_store_def pg_require_tenant_scope_def scatch_def sbind_def verify_tenant_scope_cases)

lemma pg_external_transaction: "require_external_transaction (postgres_uow U) s =
    (if pg_transaction s = None then (Inl (Uow TRANSACTION_REQUIRED), s) else (Inr (), s))"
  by (simp add: require_external_transaction_def postgres_store_def transaction_active_def scatch_def sbind_def)

text \<open>
  C20. Tenant isolation fails closed: in a transaction that is not under the tenant role with both
  the derived tenant and the transactional setting equal to the tenant of the request, every
  operation answers \<open>TENANT_SCOPE_REQUIRED\<close> with the session as it was; an observation that is not
  an independent read-only one answers \<open>UNKNOWN\<close> instead, also without reading.
\<close>

theorem tenant_scope_fails_closed:
  assumes "pg_transaction s \<noteq> None" "\<not> tenant_session s (ch_igreja_id (rq_desafio r))" "rq_acao r = Some REFUSE_INITIAL"
  shows "record_initial_refusal (postgres_uow U) r s = (Inl (Uow TENANT_SCOPE_REQUIRED), s)
    \<and> record_presentation (postgres_uow U) (r\<lparr>rq_acao := None\<rparr>) s = (Inl (Uow TENANT_SCOPE_REQUIRED), s)
    \<and> reconcile_initial_refusal (postgres_uow U) r s =
        (if pg_read_only s \<and> \<not> pg_xid_assigned s \<and> \<not> pg_failed s then (Inl (Uow TENANT_SCOPE_REQUIRED), s)
         else (Inr \<lparr>rr_status = reconciliation_status.UNKNOWN, rr_operation = None\<rparr>, s))"
proof -
  have p: "preflight (postgres_uow U) q b s = (Inl (Uow TENANT_SCOPE_REQUIRED), s)"
    if "rq_desafio q = rq_desafio r" "require_allowed_action q b s = (Inr (), s)" for q b
    using assms that by (simp add: preflight_def sbind_def pg_external_transaction pg_tenant_scope)
  have "record_initial_refusal (postgres_uow U) r s = (Inl (Uow TENANT_SCOPE_REQUIRED), s)"
    unfolding record_initial_refusal_def using p [of r False] assms(3) by (simp add: require_allowed_action_def sbind_def)
  moreover have "record_presentation (postgres_uow U) (r\<lparr>rq_acao := None\<rparr>) s = (Inl (Uow TENANT_SCOPE_REQUIRED), s)"
    unfolding record_presentation_def using p [of "r\<lparr>rq_acao := None\<rparr>" True] by (simp add: require_allowed_action_def sbind_def)
  moreover have "reconcile_initial_refusal (postgres_uow U) r s =
      (if pg_read_only s \<and> \<not> pg_xid_assigned s \<and> \<not> pg_failed s then (Inl (Uow TENANT_SCOPE_REQUIRED), s)
       else (Inr \<lparr>rr_status = reconciliation_status.UNKNOWN, rr_operation = None\<rparr>, s))"
    using assms
    by (auto simp: reconcile_initial_refusal_def require_allowed_action_def pg_external_transaction pg_tenant_scope sbind_def
        scatch_def require_read_only_observation_def postgres_store_def require_readonly_observation_def transaction_active_def
        select_value_def sql_def reconciled_def reconciliation_post_init_def)
  ultimately show ?thesis by blast
qed

definition sample_uow :: "pg uow" where
  "sample_uow = \<lparr>uw_store = postgres_store sample_secret, uw_resolve = (\<lambda>r now w. Inr (SourceValue sample_authority)),
     uw_revalidate = (\<lambda>r a now w. Inr (SourceValue sample_authority)), uw_clock = (\<lambda>w. ClockValue (sample_time 8)),
     uw_secret = sample_secret, uw_entropy = replicate 32 5, uw_presentation_id = 21, uw_manifestation_id = 22, uw_receipt_id = 23\<rparr>"

theorem tenant_scope_fails_closed_witness:
  "record_initial_refusal (postgres_uow sample_uow) sample_refusal (sample_session\<lparr>pg_tenant_guc := Some (str_of_uuid 9)\<rparr>)
     = (Inl (Uow TENANT_SCOPE_REQUIRED), sample_session\<lparr>pg_tenant_guc := Some (str_of_uuid 9)\<rparr>)"
proof -
  have "(9 :: uuid) \<noteq> 2" by simp
  then have "\<not> tenant_session (sample_session\<lparr>pg_tenant_guc := Some (str_of_uuid 9)\<rparr>) (ch_igreja_id (rq_desafio sample_refusal))"
    by (simp add: tenant_session_def sample_refusal_def sample_challenge_def str_of_uuid_inj)
  from tenant_scope_fails_closed [OF _ this] show ?thesis by (simp add: sample_session_def sample_refusal_def)
qed

end
