(* ===== verification/ConsentLocks.thy ===== *)
theory ConsentLocks
  imports ConsentOutcomes
begin

text \<open>
  The order in which the writers take their locks.  A small calculus follows the sequence of locks
  the session holds through every branch of a run, errors included; two writers of one stream
  can therefore wait for each other but never in a cycle.
\<close>

section \<open>Following the locks\<close>

text \<open>
  A run is followed by the locks it holds: from a set \<open>H\<close> of held sequences it reaches, by a
  normal return, the set \<open>H' x\<close>, and by an error some sequence of \<open>A\<close>.
\<close>

definition locks :: "pg_lock list set \<Rightarrow> pg_lock list set \<Rightarrow> (pg, 'a) op \<Rightarrow> ('a \<Rightarrow> pg_lock list set) \<Rightarrow> bool" where
  "locks A H m H' \<longleftrightarrow>
     (\<forall>s r s'. m s = (r, s') \<longrightarrow> pg_held s \<in> H \<longrightarrow> (case r of Inl _ \<Rightarrow> pg_held s' \<in> A | Inr x \<Rightarrow> pg_held s' \<in> H' x))"

lemma locks_sbind:
  assumes "locks A H m H1" "\<And>x. locks A (H1 x) (f x) H2"
  shows "locks A H (sbind m f) H2"
  using assms unfolding locks_def sbind_def by (fastforce split: prod.splits sum.splits)

lemma locks_frame:
  assumes "obeys (\<lambda>s s'. pg_held s' = pg_held s) m" "H \<subseteq> A"
  shows "locks A H m (\<lambda>_. H)"
  using assms unfolding locks_def obeys_def by (fastforce split: sum.splits)

lemma locks_store_call:
  assumes "locks A H m H'"
  shows "locks A H (store_call m) H'"
  unfolding locks_def
proof (intro allI impI)
  fix s r s'
  assume s: "store_call m s = (r, s')" "pg_held s \<in> H"
  obtain r' where r': "m s = (r', s')" "\<forall>x. r = Inr x \<longleftrightarrow> r' = Inr x" using store_call_state [OF s(1)] by blast
  then have "case r' of Inl _ \<Rightarrow> pg_held s' \<in> A | Inr x \<Rightarrow> pg_held s' \<in> H' x"
    using assms s(2) unfolding locks_def by blast
  moreover have "r = r' \<or> (\<exists>a b. r = Inl a \<and> r' = Inl b)" using r'(2) by (cases r; cases r') blast+
  ultimately show "case r of Inl _ \<Rightarrow> pg_held s' \<in> A | Inr x \<Rightarrow> pg_held s' \<in> H' x" by auto
qed

lemma locks_if: "(b \<Longrightarrow> locks A H m H') \<Longrightarrow> (\<not> b \<Longrightarrow> locks A H n H') \<Longrightarrow> locks A H (if b then m else n) H'"
  by simp

lemma locks_weaken: "locks A H m H1 \<Longrightarrow> (\<And>x. H1 x \<subseteq> H2 x) \<Longrightarrow> locks A H m H2"
  unfolding locks_def by (fastforce split: sum.splits)

interpretation held: preorder_effects "\<lambda>s s'. pg_held s' = pg_held s"
  by unfold_locales auto

lemma held_basic: "obeys (\<lambda>s s'. pg_held s' = pg_held s) (enter_key_scope t k)"
  "obeys (\<lambda>s s'. pg_held s' = pg_held s) (enter_stream_scope k)" "obeys (\<lambda>s s'. pg_held s' = pg_held s) transaction_active"
  "obeys (\<lambda>s s'. pg_held s' = pg_held s) (select_value f)" "obeys (\<lambda>s s'. pg_held s' = pg_held s) (one_or_none xs)"
  "obeys (\<lambda>s s'. pg_held s' = pg_held s) pg_flush"
  unfolding pg_basic
  by (auto intro!: obeys_sql split: if_splits) (auto simp: obeys_def split: option.splits if_splits list.splits)

lemma held_reads:
  "obeys (\<lambda>s s'. pg_held s' = pg_held s) (pg_get_challenge g i)"
  "obeys (\<lambda>s s'. pg_held s' = pg_held s) (pg_get_challenge_by_binding_interaction g b i)"
  "obeys (\<lambda>s s'. pg_held s' = pg_held s) (pg_get_evidence_by_idempotency g k)"
  "obeys (\<lambda>s s'. pg_held s' = pg_held s) (pg_get_evidence_by_challenge_type g i t)"
  "obeys (\<lambda>s s'. pg_held s' = pg_held s) (pg_get_receipt_by_evidence g i)"
  "obeys (\<lambda>s s'. pg_held s' = pg_held s) (pg_get_ledger_state g i p)"
  "obeys (\<lambda>s s'. pg_held s' = pg_held s) (pg_require_tenant_scope g)"
  unfolding pg_get_challenge_def pg_get_challenge_by_binding_interaction_def pg_get_evidence_by_idempotency_def
    pg_get_evidence_by_challenge_type_def pg_get_receipt_by_evidence_def pg_get_ledger_state_def select_one_def
    challenge_of_row_def evidence_of_row_def receipt_of_row_def pg_require_tenant_scope_def
    verify_tenant_scope_def probe_tenant_scope_def Let_def
  by (intro held.effect_rules held_basic)+

lemma held_receipt: "obeys (\<lambda>s s'. pg_held s' = pg_held s) (pg_insert_receipt r)"
  unfolding pg_insert_receipt_def
  by (intro held.effect_rules obeys_sql) (auto split: if_splits)

lemma held_checks: "obeys (\<lambda>s s'. pg_held s' = pg_held s) (require_clock U)"
  "obeys (\<lambda>s s'. pg_held s' = pg_held s) (source_call ask)" "obeys (\<lambda>s s'. pg_held s' = pg_held s) (validate_authority r a)"
  "obeys (\<lambda>s s'. pg_held s' = pg_held s) (require_allowed_action r p)"
  "obeys (\<lambda>s s'. pg_held s' = pg_held s) (ensure_not_expired c now)" "obeys (\<lambda>s s'. pg_held s' = pg_held s) (same_ledger a l b)"
  "obeys (\<lambda>s s'. pg_held s' = pg_held s) (check_challenge_row c d)"
  "obeys (\<lambda>s s'. pg_held s' = pg_held s) (new_challenge_state c st t)"
  "obeys (\<lambda>s s'. pg_held s' = pg_held s) (op_result_new res)"
  by (rule held.obeys_pure, simp add: require_clock_def source_call_def validate_authority_def require_allowed_action_def
      ensure_not_expired_def same_ledger_def check_challenge_row_def new_challenge_state_def op_result_new_def domain_def
      split: sum.split option.split prod.split clock_answer.split source_answer.split)+

definition key_lock :: "consent_request \<Rightarrow> pg_lock" where
  "key_lock r = Advisory (key_lock_text (ch_igreja_id (rq_desafio r)) (rq_chave_idempotencia r))"

definition row_lock :: "challenge \<Rightarrow> pg_lock" where
  "row_lock c = RowLock (ch_igreja_id c) (ch_id c)"

definition stream_lock :: "challenge \<Rightarrow> pg_lock" where
  "stream_lock c = Advisory (stream_lock_text (ch_igreja_id c) (ch_pessoa_id c) (ch_finalidade c))"

text \<open>The sequences in which a run may hold its locks: key, challenge row, stream.\<close>

definition lock_sequences :: "consent_request \<Rightarrow> pg_lock list set" where
  "lock_sequences r =
     (let k = key_lock r; c = row_lock (rq_desafio r); s = stream_lock (rq_desafio r)
      in {[], [k], [k, c], [k, s], [k, c, s]})"

lemma key_lock_not_stream [simp]: "key_lock r \<noteq> stream_lock c"
proof -
  have "hd (hexdigest (uuid_bytes g)) \<in> set (hexdigest (uuid_bytes g))" for g
    using length_uuid_hex [of g] by (intro hd_in_set) auto
  then have "hd (hexdigest (uuid_bytes g)) \<noteq> 112" for g
    using hexdigest_hex [of "uuid_bytes g"] by (fastforce simp: is_hex_def)
  moreover have "hd (str_of_uuid g) = hd (hexdigest (uuid_bytes g))" for g
    using length_uuid_hex [of g] by (cases "hexdigest (uuid_bytes g)") (auto simp: str_of_uuid_def)
  ultimately have h: "hd (str_of_uuid g @ xs) \<noteq> 112" for g xs by simp
  show ?thesis
  proof
    assume "key_lock r = stream_lock c"
    then have "hd (key_lock_text (ch_igreja_id (rq_desafio r)) (rq_chave_idempotencia r)) =
        hd (stream_lock_text (ch_igreja_id c) (ch_pessoa_id c) (ch_finalidade c))"
      by (simp add: key_lock_def stream_lock_def)
    then show False using h by (simp add: key_lock_text_def stream_lock_text_def u_def del: hd_append2)
  qed
qed

lemma row_lock_distinct [simp]: "row_lock c \<noteq> key_lock r" "key_lock r \<noteq> row_lock c" "row_lock c \<noteq> stream_lock d"
  "stream_lock d \<noteq> row_lock c" "stream_lock c \<noteq> key_lock r"
  using key_lock_not_stream [of r c] by (auto simp: row_lock_def key_lock_def stream_lock_def)

lemma compare_locks: "compare_challenges c d \<Longrightarrow> row_lock c = row_lock d \<and> stream_lock c = stream_lock d"
  by (simp add: compare_challenges_def row_lock_def stream_lock_def)

lemma locks_domain: "(\<And>x. m = Inr x \<Longrightarrow> locks A H (f x) H') \<Longrightarrow> H \<subseteq> A \<Longrightarrow> locks A H (sbind (domain m) f) H'"
  unfolding locks_def sbind_def domain_def raising_def ret_def by (fastforce split: sum.splits)

lemma locks_empty: "locks A {} m H'"
  by (simp add: locks_def)

lemma locks_key:
  assumes "[] \<in> A"
  shows "locks A {[]} (pg_lock_idempotency_key secret (ch_igreja_id (rq_desafio r)) (rq_chave_idempotencia r)) (\<lambda>_. {[key_lock r]})"
  using assms
  by (auto simp: locks_def pg_lock_idempotency_key_def key_lock_def select_value_def enter_key_scope_def advisory_lock_def
      sql_def sbind_def ret_def raising_def acquire_def split: if_splits option.splits)

lemma locks_stream:
  assumes "h \<in> A" "stream_lock c \<notin> set h"
  shows "locks A {h} (pg_lock_ledger_stream (ch_igreja_id c) (ch_pessoa_id c) (ch_finalidade c)) (\<lambda>_. {h @ [stream_lock c]})"
  using assms
  by (auto simp: locks_def pg_lock_ledger_stream_def stream_lock_def enter_stream_scope_def advisory_lock_def
      sql_def sbind_def ret_def raising_def acquire_def split: if_splits option.splits)

lemma locks_insert_challenge:
  assumes "h \<in> A" "row_lock c \<notin> set h"
  shows "locks A {h} (pg_insert_challenge c) (\<lambda>b. {if b then h @ [row_lock c] else h})"
  using assms unfolding locks_def
  by (auto simp: pg_insert_challenge_def row_lock_def sql_def sbind_def domain_def ret_def raising_def acquire_def
      challenge_post_init_iff split: if_splits sum.splits)

lemma locks_insert_evidence:
  assumes "h \<in> A" "RowLock (ev_igreja_id e) (ev_desafio_id e) \<in> set h"
  shows "locks A {h} (pg_insert_evidence e) (\<lambda>_. {h})"
  using assms unfolding locks_def
  by (auto simp: pg_insert_evidence_def sql_def sbind_def domain_def ret_def raising_def acquire_def
      evidence_post_init_iff split: if_splits sum.splits)

lemma locks_transition:
  assumes "h \<in> A" "RowLock g i \<in> set h"
  shows "locks A {h} (pg_transition_challenge g i st t) (\<lambda>_. {h})"
  using assms unfolding locks_def
  by (auto simp: pg_transition_challenge_def sql_def sbind_def ret_def raising_def acquire_def
      split: if_splits sum.splits option.splits prod.splits)

section \<open>The locks of each step\<close>

lemma locks_reads:
  assumes "H \<subseteq> A"
  shows "locks A H (get_challenge (postgres_uow U) c) (\<lambda>_. H)" "locks A H (get_binding (postgres_uow U) c) (\<lambda>_. H)"
    "locks A H (evidence_by_key (postgres_uow U) c r) (\<lambda>_. H)" "locks A H (evidence_by_type (postgres_uow U) c t) (\<lambda>_. H)"
    "locks A H (store_call (st_get_receipt_by_evidence (uw_store (postgres_uow U)) g i)) (\<lambda>_. H)"
    "locks A H (store_call (st_get_ledger_state (uw_store (postgres_uow U)) g i p)) (\<lambda>_. H)"
  unfolding get_challenge_def get_binding_def evidence_by_key_def evidence_by_type_def postgres_store_simps postgres_store_def store.simps
  by (intro locks_frame [OF held.obeys_store_call assms] held_reads)+

lemma locks_secure:
  assumes "[k] \<in> A" "[k, row_lock c] \<in> A" "k \<noteq> row_lock c"
  shows "locks A {[k]} (secure_challenge (postgres_uow U) c now) (\<lambda>x. {if x = None then [k, row_lock c] else [k]})"
proof -
  have k: "{[k]} \<subseteq> A" using assms(1) by simp
  have winner: "locks A {[k]} (sbind (insert_conflict_winner (postgres_uow U) c) (\<lambda>d. ret (Some d)))
      (\<lambda>x. {if x = None then [k, row_lock c] else [k]})"
  proof (rule locks_sbind)
    have "obeys (\<lambda>s s'. pg_held s' = pg_held s) (insert_conflict_winner (postgres_uow U) c)"
      unfolding insert_conflict_winner_def get_challenge_def get_binding_def postgres_store_simps postgres_store_def store.simps
      by (intro held.effect_rules held_reads)
    from locks_frame [OF this k] show "locks A {[k]} (insert_conflict_winner (postgres_uow U) c) (\<lambda>_. {[k]})" .
  qed (simp add: locks_def)
  have ins: "locks A {[k]} (store_call (st_insert_challenge (uw_store (postgres_uow U)) c)) (\<lambda>b. {if b then [k, row_lock c] else [k]})"
    using locks_store_call [OF locks_insert_challenge [of "[k]" A c]] assms(1,3) unfolding append.simps by (simp add: postgres_store_def)
  have return: "locks A {[k]} (ret (Some d)) (\<lambda>x. {if x = None then [k, row_lock c] else [k]})" for d :: challenge
    by (simp add: locks_def)
  have failing: "locks A {[k]} (fail e) H'" for e and H' :: "challenge option \<Rightarrow> pg_lock list set"
    using assms(1) by (simp add: locks_def)
  have new: "locks A {[k]} (sbind (store_call (st_insert_challenge (uw_store (postgres_uow U)) c)) (\<lambda>inserted.
        if inserted then ret None else sbind (insert_conflict_winner (postgres_uow U) c) (\<lambda>d. ret (Some d))))
      (\<lambda>x. {if x = None then [k, row_lock c] else [k]})"
    by (rule locks_sbind [OF ins]) (use winner in \<open>auto simp: locks_def\<close>)
  show ?thesis
    unfolding secure_challenge_def
  proof (rule locks_sbind [OF locks_reads(1) [OF k]], goal_cases)
    case (1 existing)
    show ?case
    proof (cases existing)
      case None
      have "locks A {[k]} (get_binding (postgres_uow U) c) (\<lambda>_. {[k]})" by (rule locks_reads(2) [OF k])
      then show ?thesis unfolding None option.case
      proof (rule locks_sbind, goal_cases)
        case (1 binding)
        have "locks A {[k]} (ensure_not_expired c now) (\<lambda>_. {[k]})" by (rule locks_frame [OF held_checks(5) k])
        then show ?case using return failing new by (cases binding) (auto intro: locks_sbind)
      qed
    qed (use return in simp)
  qed
qed

definition locked :: "pg_lock \<Rightarrow> challenge \<Rightarrow> pg_lock list set" where
  "locked k c = {h. h = [k, row_lock c] \<or> (h = [k] \<and> ch_estado c \<noteq> OPEN)}"

lemma locks_existing:
  assumes "[k] \<in> A" "[k, row_lock c] \<in> A" "k \<noteq> row_lock c"
  shows "locks A {[k]} (lock_existing (postgres_uow U) c d) (\<lambda>c'. {h. compare_challenges c' c \<and> h \<in> locked k c'})"
proof -
  let ?lock = "store_call (pg_lock_challenge (ch_igreja_id c) (ch_id c))"
  have lock: "pg_held s' \<in> {[k], [k, row_lock c]}" if "?lock s = (r, s')" "pg_held s = [k]" for s r s'
    using store_call_state [OF that(1)] that(2) assms(3)
    by (auto simp: pg_lock_challenge_def sql_def acquire_def row_lock_def split: if_splits)
  have open_row: "pg_held s' = [k, row_lock c]"
    if h: "?lock s = (Inr (), s')" "pg_held s = [k]" and c': "pg_get_challenge (ch_igreja_id c) (ch_id c) s' = (Inr (Some c'), s'')"
      "ch_estado c' = OPEN" for s s' s'' c'
  proof -
    have l: "pg_lock_challenge (ch_igreja_id c) (ch_id c) s = (Inr (), s')" using h(1) by (simp add: store_call_Inr)
    then have fr: "pg_db s' = pg_db s \<and> visible s' = visible s \<and> pg_failed s' = pg_failed s"
      by (auto simp: pg_lock_challenge_def sql_Inr acquire_def visible_def fun_eq_iff split: if_splits)
    have "c' \<in> set (db_challenges (pg_db s')) \<and> ch_igreja_id c' = ch_igreja_id c \<and> ch_id c' = ch_id c \<and> visible s' (ch_igreja_id c)"
      using c'(1) by (auto simp: pg_get_challenge_def sbind_Inr select_one_Inr row_Inr dest: filter_single)
    then have ex: "\<exists>x \<in> set (db_challenges (pg_db s)). ch_igreja_id x = ch_igreja_id c \<and> ch_id x = ch_id c \<and> visible s (ch_igreja_id c)
        \<and> (pg_role s = Some TENANT_ROLE \<longrightarrow> ch_estado x = OPEN)"
      using fr c'(2) by (intro bexI [of _ c']) auto
    have "s' = (acquire (row_lock c) s)\<lparr>pg_xid_assigned := True\<rparr>"
      using l unfolding pg_lock_challenge_def sql_Inr if_P [OF ex] row_lock_def by (simp split: if_splits)
    then show ?thesis using h(2) assms(3) by (simp add: acquire_def)
  qed
  show ?thesis
    unfolding locks_def
  proof (intro allI impI)
    fix s r s'
    assume run: "lock_existing (postgres_uow U) c d s = (r, s')" "pg_held s \<in> {[k]}"
    have frames: "obeys (\<lambda>s s'. pg_held s' = pg_held s) (get_challenge (postgres_uow U) c)"
      "obeys (\<lambda>s s'. pg_held s' = pg_held s) (check_challenge_row c x)" for x
      unfolding get_challenge_def postgres_store_simps postgres_store_def store.simps
      by (intro held.obeys_store_call held_reads held_checks)+
    show "case r of Inl _ \<Rightarrow> pg_held s' \<in> A | Inr c' \<Rightarrow> pg_held s' \<in> {h. compare_challenges c' c \<and> h \<in> locked k c'}"
    proof (cases r)
      case (Inl e)
      consider "s' = s" | "?lock s = (Inl e, s')"
        | s1 where "?lock s = (Inr (), s1)" "get_challenge (postgres_uow U) c s1 = (Inl e, s')"
        | s1 re s2 where "?lock s = (Inr (), s1)" "get_challenge (postgres_uow U) c s1 = (Inr re, s2)"
            "check_challenge_row c re s2 = (Inl e, s')"
        using run(1) unfolding Inl by (auto simp: lock_existing_def sbind_Inl postgres_store_def split: if_splits)
      then have "pg_held s' \<in> {[k], [k, row_lock c]}"
      proof cases
        case 3
        then show ?thesis using lock [OF 3(1)] run(2) obeysD [OF frames(1) 3(2)] by simp
      next
        case 4
        then show ?thesis using lock [OF 4(1)] run(2) obeysD [OF frames(1) 4(2)] obeysD [OF frames(2) 4(3)] by simp
      qed (use run(2) lock in auto)
      then show ?thesis using Inl assms(1,2) by auto
    next
      case (Inr c')
      obtain s1 re s2 where 1: "?lock s = (Inr (), s1)" "get_challenge (postgres_uow U) c s1 = (Inr re, s2)"
          "check_challenge_row c re s2 = (Inr c', s')"
        using run(1) Inr by (auto simp: lock_existing_def sbind_Inr postgres_store_def split: if_splits)
      then have re: "re = Some c' \<and> compare_challenges c' c"
        by (cases re) (auto simp: check_challenge_row_def split: if_splits)
      have h: "pg_held s' = pg_held s1" using frames(1) [THEN obeysD, OF 1(2)] frames(2) [THEN obeysD, OF 1(3)] by simp
      have "ch_estado c' = OPEN \<Longrightarrow> pg_held s1 = [k, row_lock c]"
        using open_row [OF 1(1)] run(2) 1(2) re by (simp add: get_challenge_def store_call_Inr postgres_store_def)
      then show ?thesis using lock [OF 1(1)] run(2) Inr re h compare_locks [of c' c] by (auto simp: locked_def)
    qed
  qed
qed

section \<open>The locks of a run\<close>

lemma locks_each: "(\<And>h. h \<in> H \<Longrightarrow> locks A {h} m H') \<Longrightarrow> locks A H m H'"
  unfolding locks_def by auto

lemma locks_ret: "H \<subseteq> H' x \<Longrightarrow> locks A H (ret x) H'"
  by (auto simp: locks_def)

lemma locks_fail: "H \<subseteq> A \<Longrightarrow> locks A H (fail e) H'" "H \<subseteq> A \<Longrightarrow> locks A H (raising ex) H'"
  by (auto simp: locks_def)

text \<open>The challenge a run works under, and what is then held.\<close>

definition secured_locks :: "consent_request \<Rightarrow> challenge \<Rightarrow> pg_lock list set" where
  "secured_locks r c =
     {h. compare_challenges c (rq_desafio r)
         \<and> (h = [key_lock r, row_lock c, stream_lock c] \<or> (h = [key_lock r, stream_lock c] \<and> ch_estado c \<noteq> OPEN))}"

lemma secured_locks_sub: "secured_locks r c \<subseteq> lock_sequences r"
  by (auto simp: secured_locks_def lock_sequences_def Let_def dest: compare_locks)

lemma locked_sub: "{h. compare_challenges c (rq_desafio r) \<and> h \<in> locked (key_lock r) c} \<subseteq> lock_sequences r"
  by (auto simp: locked_def lock_sequences_def Let_def dest: compare_locks)

lemma locks_preflight: "locks (lock_sequences r) {[]} (preflight (postgres_uow U) q p) (\<lambda>_. {[]})"
proof (rule locks_frame)
  show "obeys (\<lambda>s s'. pg_held s' = pg_held s) (preflight (postgres_uow U) q p)"
    unfolding preflight_def require_external_transaction_def require_tenant_scope_def postgres_store_simps postgres_store_def store.simps
    by (intro held.effect_rules held_checks held_basic held_reads)
qed (simp add: lock_sequences_def Let_def)

lemma locks_lock_and_revalidate:
  "locks (lock_sequences r) {[]} (lock_and_revalidate (postgres_uow U) r a now b x) (\<lambda>(c, _, _). secured_locks r c)"
proof -
  let ?c = "rq_desafio r" and ?A = "lock_sequences r" and ?k = "key_lock r"
  note A = lock_sequences_def Let_def
  have key: "locks ?A {[]} (store_call (st_lock_idempotency_key (uw_store (postgres_uow U)) (ch_igreja_id ?c) (rq_chave_idempotencia r)))
      (\<lambda>_. {[?k]})"
    using locks_store_call [OF locks_key [of ?A]] by (simp add: A postgres_store_def)
  have existing: "locks ?A {if e = None then [?k, row_lock ?c] else [?k]}
      (case e of None \<Rightarrow> ret ?c | Some d \<Rightarrow> lock_existing (postgres_uow U) ?c d)
      (\<lambda>c. {h. compare_challenges c ?c \<and> h \<in> locked ?k c})" for e
    using locks_existing [of ?k ?A ?c]
    by (cases e) (auto simp: A locked_def compare_challenges_equiv(1) intro!: locks_ret)
  have stream: "locks ?A {h. compare_challenges c ?c \<and> h \<in> locked ?k c}
      (store_call (st_lock_ledger_stream (uw_store (postgres_uow U)) (ch_igreja_id c) (ch_pessoa_id c) (ch_finalidade c)))
      (\<lambda>_. secured_locks r c)" for c
  proof (rule locks_each)
    fix h
    assume h: "h \<in> {h. compare_challenges c ?c \<and> h \<in> locked ?k c}"
    then have "h \<in> ?A" "stream_lock c \<notin> set h" using locked_sub by (auto simp: locked_def)
    from locks_store_call [OF locks_stream [OF this]]
    show "locks ?A {h} (store_call (st_lock_ledger_stream (uw_store (postgres_uow U)) (ch_igreja_id c) (ch_pessoa_id c) (ch_finalidade c)))
        (\<lambda>_. secured_locks r c)"
      unfolding postgres_store_simps postgres_store_def store.simps
      by (rule locks_weaken) (use h in \<open>auto simp: secured_locks_def locked_def\<close>)
  qed
  show ?thesis
    unfolding lock_and_revalidate_def Let_def
    apply (rule locks_sbind [OF key])
    apply (rule locks_sbind [OF locks_secure], simp add: A, simp add: A, simp)
    apply (rule locks_sbind [OF existing] locks_sbind [OF stream])+
    apply (rule locks_sbind [OF locks_frame [OF held_checks(1) secured_locks_sub]]
        locks_sbind [OF locks_frame [OF held_checks(2) secured_locks_sub]]
        locks_sbind [OF locks_frame [OF held_checks(3) secured_locks_sub]]
        locks_sbind [OF locks_reads(2) [OF secured_locks_sub]] locks_sbind [OF locks_reads(6) [OF secured_locks_sub]]
        locks_sbind [OF locks_frame [OF held_checks(6) secured_locks_sub]]
        locks_if locks_fail(1) [OF secured_locks_sub] locks_ret)+
    apply simp
    done
qed

text \<open>Staging takes no further lock: the challenge row is already held.\<close>

lemma built_row: "build_evidence secret i (ch_igreja_id c) (ch_id c) tipo k c t p a = Inr e \<Longrightarrow>
    RowLock (ev_igreja_id e) (ev_desafio_id e) = row_lock c"
  by (auto simp: build_evidence_def result_simps evidence_post_init_iff row_lock_def split: if_splits)

definition holds_row :: "pg_lock list set \<Rightarrow> pg_lock list set \<Rightarrow> challenge \<Rightarrow> bool" where
  "holds_row A H c \<longleftrightarrow> H \<subseteq> A \<and> (\<forall>h \<in> H. row_lock c \<in> set h)"

lemma holds_row_sub: "holds_row A H c \<Longrightarrow> H \<subseteq> A"
  by (simp add: holds_row_def)

lemma locks_stage_evidence:
  assumes "holds_row A H c" "build_evidence secret i (ch_igreja_id c) (ch_id c) tipo k c t p a = Inr e"
  shows "locks A H (store_call (st_insert_evidence (uw_store (postgres_uow U)) e)) (\<lambda>_. H)"
proof (rule locks_each)
  fix h assume "h \<in> H"
  with assms(1) have h: "h \<in> A" "row_lock c \<in> set h" by (auto simp: holds_row_def)
  with locks_weaken [OF locks_store_call [OF locks_insert_evidence [OF h(1)]]] built_row [OF assms(2)] \<open>h \<in> H\<close>
  show "locks A {h} (store_call (st_insert_evidence (uw_store (postgres_uow U)) e)) (\<lambda>_. H)"
    by (simp add: postgres_store_def)
qed

lemma locks_stage_transition:
  assumes "holds_row A H c"
  shows "locks A H (store_call (st_transition_challenge (uw_store (postgres_uow U)) (ch_igreja_id c) (ch_id c) st t)) (\<lambda>_. H)"
proof (rule locks_each)
  fix h assume "h \<in> H"
  with assms(1) have h: "h \<in> A" "row_lock c \<in> set h" by (auto simp: holds_row_def)
  with locks_weaken [OF locks_store_call [OF locks_transition [OF h(1)]]] \<open>h \<in> H\<close>
  show "locks A {h} (store_call (st_transition_challenge (uw_store (postgres_uow U)) (ch_igreja_id c) (ch_id c) st t)) (\<lambda>_. H)"
    by (simp add: postgres_store_def row_lock_def)
qed

lemma locks_stage_rest:
  assumes "holds_row A H c"
  shows "locks A H (store_call (st_flush (uw_store (postgres_uow U)))) (\<lambda>_. H)"
    "locks A H (store_call (st_insert_receipt (uw_store (postgres_uow U)) rc)) (\<lambda>_. H)"
    "locks A H (ensure_not_expired c now) (\<lambda>_. H)" "locks A H (new_challenge_state c st t) (\<lambda>_. H)"
    "locks A H (op_result_new res) (\<lambda>_. A)" "locks A H (fail e) H'"
  using holds_row_sub [OF assms] locks_frame [OF held_checks(5)] locks_frame [OF held_checks(8)] locks_fail(1)
    locks_weaken [OF locks_frame [OF held_checks(9)]]
    locks_store_call [OF locks_frame [OF held_basic(6)]] locks_store_call [OF locks_frame [OF held_receipt]]
  by (simp_all add: postgres_store_def)

lemma locks_domain_row:
  "holds_row A H c \<Longrightarrow> (\<And>x. m = Inr x \<Longrightarrow> locks A H (f x) H') \<Longrightarrow> locks A H (sbind (domain m) f) H'"
  by (intro locks_domain holds_row_sub)

lemmas stage_rules = locks_sbind [OF locks_stage_rest(1)] locks_sbind [OF locks_stage_rest(2)] locks_sbind [OF locks_stage_rest(3)]
  locks_sbind [OF locks_stage_rest(4)] locks_sbind [OF locks_stage_evidence] locks_sbind [OF locks_stage_transition]
  locks_stage_rest(5,6) locks_if locks_domain_row

lemma locks_stage_presentation: "holds_row A H c \<Longrightarrow> locks A H (stage_presentation (postgres_uow U) r c now) (\<lambda>_. A)"
  unfolding stage_presentation_def by (rule stage_rules | assumption)+

lemma locks_obtain: "holds_row A H c \<Longrightarrow> locks A H (obtain_presentation (postgres_uow U) r c p) (\<lambda>_. H)"
  unfolding obtain_presentation_def
  by (cases p) (simp_all only: option.case, (rule stage_rules | assumption | rule locks_ret subset_refl)+)

lemma locks_stage_refusal: "holds_row A H c \<Longrightarrow> locks A H (stage_refusal (postgres_uow U) r c p) (\<lambda>_. A)"
  unfolding stage_refusal_def
  by (rule locks_sbind [OF locks_obtain] stage_rules | assumption)+

lemma locks_replays:
  assumes "H \<subseteq> A"
  shows "locks A H (replay_presentation r c k e) (\<lambda>_. A)" "locks A H (check_presentation r c p) (\<lambda>_. H)"
    "locks A H (replay_refusal (postgres_uow U) r c ko po m) (\<lambda>_. A)"
proof -
  have "obeys (\<lambda>s s'. pg_held s' = pg_held s) (replay_presentation r c k e)"
    unfolding replay_presentation_def by (intro held.effect_rules held_checks)
  then show "locks A H (replay_presentation r c k e) (\<lambda>_. A)"
    by (intro locks_weaken [OF locks_frame [OF _ assms]] assms)
  have "obeys (\<lambda>s s'. pg_held s' = pg_held s) (check_presentation r c p)"
    unfolding check_presentation_def by (intro held.effect_rules held_checks)
  then show "locks A H (check_presentation r c p) (\<lambda>_. H)" using locks_frame assms by blast
  have "obeys (\<lambda>s s'. pg_held s' = pg_held s) (replay_refusal (postgres_uow U) r c ko po m)"
    unfolding replay_refusal_def postgres_store_simps postgres_store_def store.simps
    by (cases ko; cases po) (simp_all only: prod.case option.case; intro held.effect_rules held_checks held_reads)+
  then show "locks A H (replay_refusal (postgres_uow U) r c ko po m) (\<lambda>_. A)"
    by (intro locks_weaken [OF locks_frame [OF _ assms]] assms)
qed

lemma secured_holds_row: "ch_estado c = OPEN \<Longrightarrow> holds_row (lock_sequences r) (secured_locks r c) c"
  using secured_locks_sub [of r c] by (auto simp: holds_row_def secured_locks_def)

lemma locks_prod: "(\<And>x y. v = (x, y) \<Longrightarrow> locks A H (f x y) H') \<Longrightarrow> locks A H (case v of (x, y) \<Rightarrow> f x y) H'"
  by (cases v) simp

lemma locks_record_presentation:
  "locks (lock_sequences r) {[]} (record_presentation (postgres_uow U) r) (\<lambda>_. lock_sequences r)"
  unfolding record_presentation_def
proof (rule locks_sbind [OF locks_preflight], rule locks_prod, rule locks_prod, rule locks_sbind [OF locks_lock_and_revalidate], goal_cases)
  case (1 _ _ _ a now x)
  obtain c a' post where x: "x = (c, a', post)" by (cases x)
  show ?case
    unfolding x prod.case
  proof (rule locks_sbind [OF locks_reads(3) [OF secured_locks_sub]], rule locks_sbind [OF locks_reads(4) [OF secured_locks_sub]], goal_cases)
    case (1 k e)
    have "locks (lock_sequences r) (secured_locks r c) (stage_presentation (postgres_uow U) r c post) (\<lambda>_. lock_sequences r)"
    proof (cases "ch_estado c = OPEN")
      case False
      then show ?thesis
        by (simp add: stage_presentation_def locks_fail(1) [OF secured_locks_sub])
    qed (intro locks_stage_presentation secured_holds_row)
    then show ?case
      by (cases e) (simp_all add: locks_replays(1) locks_fail(1) secured_locks_sub)
  qed
qed

lemma locks_record_initial_refusal:
  "locks (lock_sequences r) {[]} (record_initial_refusal (postgres_uow U) r) (\<lambda>_. lock_sequences r)"
  unfolding record_initial_refusal_def
proof (rule locks_sbind [OF locks_preflight], rule locks_prod, rule locks_prod, rule locks_sbind [OF locks_lock_and_revalidate], goal_cases)
  case (1 _ _ _ a now x)
  obtain c a' post where x: "x = (c, a', post)" by (cases x)
  show ?case
    unfolding x prod.case
  proof (rule locks_sbind [OF locks_reads(3) [OF secured_locks_sub]], rule locks_sbind [OF locks_reads(4) [OF secured_locks_sub]],
      rule locks_sbind [OF locks_reads(4) [OF secured_locks_sub]], rule locks_sbind [OF locks_replays(2) [OF secured_locks_sub]], goal_cases)
    case (1 k m p _)
    have "locks (lock_sequences r) (secured_locks r c) (sbind (ensure_not_expired c post) (\<lambda>_. stage_refusal (postgres_uow U) r c p))
        (\<lambda>_. lock_sequences r)" if "ch_estado c = OPEN"
      by (rule locks_sbind [OF locks_stage_rest(3)] locks_stage_refusal secured_holds_row that)+
    then show ?case
      by (cases m) (simp_all add: locks_replays(3) locks_fail(1) secured_locks_sub)
  qed
qed

text \<open>
  C19. Locks are taken in one global order: a writer that starts without locks holds, whatever it
  answers, at most the advisory lock of the idempotency key, then the row of the challenge, then
  the advisory lock of the consent stream, acquired in this order and no other; the inserts and
  the transition that follow take no new lock.
\<close>

theorem writers_lock_in_order:
  assumes "pg_held s = []"
  shows "pg_held (snd (record_presentation (postgres_uow U) r s)) \<in> lock_sequences r
    \<and> pg_held (snd (record_initial_refusal (postgres_uow U) r s)) \<in> lock_sequences r"
proof -
  have run: "pg_held (snd (m s)) \<in> A" if "locks A {[]} m (\<lambda>_. A)" for m :: "(pg, op_result) op" and A
    using that assms unfolding locks_def by (cases "m s") (auto split: sum.splits)
  show ?thesis using run locks_record_presentation locks_record_initial_refusal by blast
qed

theorem writers_lock_in_order_witness:
  "pg_held (snd (record_initial_refusal (postgres_uow sample_uow) sample_refusal sample_session)) \<in> lock_sequences sample_refusal"
  using writers_lock_in_order [of sample_session sample_uow sample_refusal] by (simp add: sample_session_def)

end
