(* ===== verification/ConsentProgress.thy ===== *)
theory ConsentProgress
  imports ConsentOutcomes
begin

text \<open>
  Runs that succeed: a calculus of total correctness over the PostgreSQL adapter (an operation
  returns this value from every session of a set), the steps of a refusal in it, and the theorem
  that a refusal which may be recorded is recorded.
\<close>

section \<open>Runs that succeed\<close>

text \<open>From every session of \<open>P\<close>, the operation returns \<open>x\<close> in a session of \<open>Q\<close>.\<close>

definition does :: "(pg, 'a) op \<Rightarrow> (pg \<Rightarrow> bool) \<Rightarrow> 'a \<Rightarrow> (pg \<Rightarrow> bool) \<Rightarrow> bool" where
  "does m P x Q \<longleftrightarrow> (\<forall>s. P s \<longrightarrow> (\<exists>s'. m s = (Inr x, s') \<and> Q s'))"

lemma does_sbind: "does m P x Q \<Longrightarrow> does (f x) Q y R \<Longrightarrow> does (sbind m f) P y R"
  unfolding does_def by (fastforce simp: sbind_Inr)

lemma does_run: "does m P x Q \<Longrightarrow> P s \<Longrightarrow> \<exists>s'. m s = (Inr x, s') \<and> Q s'"
  by (simp add: does_def)

lemma does_ret: "does (ret x) P x P"
  by (simp add: does_def)

lemma does_domain: "m = Inr x \<Longrightarrow> does (domain m) P x P"
  by (simp add: does_def)

lemma does_store_call: "does m P x Q \<Longrightarrow> does (store_call m) P x Q"
  unfolding does_def by (simp add: store_call_Inr)

lemma does_if: "\<not> b \<Longrightarrow> does m P x Q \<Longrightarrow> does (if b then n else m) P x Q" "b \<Longrightarrow> does m P x Q \<Longrightarrow> does (if b then m else n) P x Q"
  by simp_all

text \<open>
  A session in transaction \<open>t\<close> of tenant \<open>g\<close>, read-only when \<open>ro\<close>, with lock scope \<open>sc\<close> and content \<open>d\<close>.
\<close>

definition ready ::
  "nat \<Rightarrow> uuid \<Rightarrow> (uuid \<times> uuid) list \<Rightarrow> bool \<Rightarrow> (nat \<times> pystr \<times> pystr option) option \<Rightarrow> evidence_db \<Rightarrow> pg \<Rightarrow> bool" where
  "ready t g people ro sc d s \<longleftrightarrow>
     pg_transaction s = Some t \<and> tenant_session s g \<and> pg_people s = people \<and> pg_read_only s = ro \<and> \<not> pg_failed s
     \<and> pg_isolation s = u ''read committed'' \<and> pg_lock_scope s = sc \<and> pg_db s = d"

lemma ready_visible: "ready t g people ro sc d s \<Longrightarrow> visible s g"
  by (simp add: ready_def tenant_session_def visible_def)

lemma ready_acquire [simp]: "ready t g people ro sc d (acquire l s) = ready t g people ro sc d s"
  by (simp add: ready_def acquire_def tenant_session_def)

lemma ready_update [simp]: "ready t g people ro sc d (s\<lparr>pg_xid_assigned := b\<rparr>) = ready t g people ro sc d s"
  by (simp add: ready_def tenant_session_def)

lemma ready_db: "ready t g people ro sc d s \<Longrightarrow> ready t g people ro sc d' (s\<lparr>pg_db := d', pg_xid_assigned := b\<rparr>)"
  "ready t g people ro sc d s \<Longrightarrow> ready t g people ro sc d' ((acquire l s)\<lparr>pg_db := d', pg_xid_assigned := b\<rparr>)"
  by (simp_all add: ready_def tenant_session_def acquire_def)

lemma ready_fields: "ready t g people ro sc d s \<Longrightarrow> pg_db s = d \<and> pg_read_only s = ro \<and> \<not> pg_failed s \<and> pg_people s = people"
  by (simp add: ready_def)

lemma does_transaction: "does (require_external_transaction (postgres_uow U)) (ready t g people ro sc d) () (ready t g people ro sc d)"
  by (simp add: does_def pg_external_transaction ready_def)

lemma does_tenant: "does (require_tenant_scope (postgres_uow U) g) (ready t g people ro sc d) () (ready t g people ro sc d)"
  by (simp add: does_def pg_tenant_scope ready_def)

lemma does_key_lock:
  assumes "was_server_minted_in_this_process (uw_secret U) k"
  shows "does (store_call (st_lock_idempotency_key (uw_store (postgres_uow U)) g k)) (ready t g people ro None d) ()
    (ready t g people ro (Some (t, key_lock_text g k, None)) d)"
  using assms
  by (intro does_store_call)
    (simp add: does_def postgres_store_def pg_lock_idempotency_key_def select_value_def sql_def sbind_def enter_key_scope_def
      advisory_lock_def ret_def ready_def acquire_def tenant_session_def)

lemma does_stream_lock:
  "does (store_call (st_lock_ledger_stream (uw_store (postgres_uow U)) g p f)) (ready t g people ro (Some (t, k, None)) d) ()
    (ready t g people ro (Some (t, k, Some (stream_lock_text g p f))) d)"
  by (intro does_store_call)
    (simp add: does_def postgres_store_def pg_lock_ledger_stream_def sql_def sbind_def enter_stream_scope_def
      advisory_lock_def ret_def ready_def acquire_def tenant_session_def)

text \<open>A query that finds no row, or one.\<close>

definition the_row :: "('a \<Rightarrow> bool) \<Rightarrow> 'a list \<Rightarrow> 'a option \<Rightarrow> bool" where
  "the_row P xs x \<longleftrightarrow> filter P xs = (case x of None \<Rightarrow> [] | Some y \<Rightarrow> [y])"

lemma the_row_None: "(\<And>y. y \<in> set xs \<Longrightarrow> \<not> P y) \<Longrightarrow> the_row P xs None"
  by (simp add: the_row_def)

lemma filter_unique: "distinct (map f xs) \<Longrightarrow> y \<in> set xs \<Longrightarrow> (\<And>z. z \<in> set xs \<Longrightarrow> P z \<longleftrightarrow> f z = f y) \<Longrightarrow> filter P xs = [y]"
proof (induction xs)
  case (Cons x xs)
  show ?case
  proof (cases "x = y")
    case True
    then have "f z \<noteq> f y" if "z \<in> set xs" for z using Cons.prems(1) that by (auto simp: image_iff)
    then have "filter P xs = []" using Cons.prems(3) by simp
    then show ?thesis using True Cons.prems(3) [of x] by simp
  next
    case False
    then have "y \<in> set xs" "\<not> P x" using Cons.prems by force+
    then show ?thesis using Cons by simp
  qed
qed simp

lemma filter_self:
  assumes "distinct (map f xs)" "y \<in> set xs" "P y" "\<And>z. z \<in> set xs \<Longrightarrow> P z \<Longrightarrow> f z = f y"
  shows "filter P xs = [y]"
proof (rule filter_unique [OF assms(1,2)])
  have "inj_on f (set xs)" using assms(1) by (simp add: distinct_map)
  then show "P z \<longleftrightarrow> f z = f y" if "z \<in> set xs" for z
    using assms(2-4) that by (metis inj_onD)
qed

lemma find_filter: "filter P xs = [y] \<Longrightarrow> find P xs = Some y"
  by (induction xs) (auto split: if_splits)

lemma the_row_Some:
  "distinct (map f xs) \<Longrightarrow> y \<in> set xs \<Longrightarrow> P y \<Longrightarrow> (\<And>z. z \<in> set xs \<Longrightarrow> P z \<Longrightarrow> f z = f y) \<Longrightarrow> the_row P xs (Some y)"
  unfolding the_row_def option.case by (rule filter_self)

lemma the_row_cong: "the_row P xs x \<Longrightarrow> (\<And>y. y \<in> set xs \<Longrightarrow> P y \<longleftrightarrow> Q y) \<Longrightarrow> filter Q xs = (case x of None \<Rightarrow> [] | Some y \<Rightarrow> [y])"
  unfolding the_row_def by (metis filter_cong)

lemma does_select:
  assumes "the_row P (f d) x" "\<And>s y. ready t g people ro sc d s \<Longrightarrow> y \<in> set (f d) \<Longrightarrow> P y \<longleftrightarrow> Q s y"
  shows "does (select_one (\<lambda>s. filter (Q s) (f (pg_db s)))) (ready t g people ro sc d) x (ready t g people ro sc d)"
  using the_row_cong [OF assms(1)] assms(2)
  by (auto simp: does_def select_one_Inr ready_fields split: option.splits)

lemma does_row:
  "(\<And>c. x = Some c \<Longrightarrow> valid_challenge c) \<Longrightarrow> does (challenge_of_row x) P x P"
  "(\<And>e. y = Some e \<Longrightarrow> valid_evidence e) \<Longrightarrow> does (evidence_of_row y) P y P"
  "(\<And>r. z = Some r \<Longrightarrow> valid_receipt r) \<Longrightarrow> does (receipt_of_row z) P z P"
  by (auto simp: does_def row_Inr split: option.splits)


lemma does_get_challenge:
  assumes "the_row (\<lambda>x. ch_igreja_id x = g \<and> ch_id x = ch_id c) (db_challenges d) x" "\<And>c. x = Some c \<Longrightarrow> valid_challenge c"
    and "ch_igreja_id c = g"
  shows "does (get_challenge (postgres_uow U) c) (ready t g people ro sc d) x (ready t g people ro sc d)"
  unfolding get_challenge_def postgres_store_simps postgres_store_def store.simps pg_get_challenge_def assms(3)
  by (intro does_store_call does_sbind [OF does_select [where f = db_challenges, OF assms(1)] does_row(1)])
    (simp_all add: ready_visible assms)

lemma does_get_binding:
  assumes "the_row (\<lambda>x. ch_igreja_id x = g \<and> ch_binding_id x = ch_binding_id c \<and> ch_interaction_id x = ch_interaction_id c)
      (db_challenges d) x" "\<And>c. x = Some c \<Longrightarrow> valid_challenge c" and "ch_igreja_id c = g"
  shows "does (get_binding (postgres_uow U) c) (ready t g people ro sc d) x (ready t g people ro sc d)"
  unfolding get_binding_def postgres_store_simps postgres_store_def store.simps pg_get_challenge_by_binding_interaction_def assms(3)
  by (intro does_store_call does_sbind [OF does_select [where f = db_challenges, OF assms(1)] does_row(1)])
    (simp_all add: ready_visible assms)

lemma does_by_key:
  assumes "the_row (\<lambda>e. ev_igreja_id e = g \<and> ev_chave_idempotencia e = key_value (rq_chave_idempotencia r)) (db_evidence d) x"
    and "\<And>e. x = Some e \<Longrightarrow> valid_evidence e" "ch_igreja_id c = g"
    and "prefixed_hex64 IDEMPOTENCY_KEY_PREFIX (key_value (rq_chave_idempotencia r))"
  shows "does (evidence_by_key (postgres_uow U) c r) (ready t g people ro sc d) x (ready t g people ro sc d)"
  unfolding evidence_by_key_def postgres_store_simps postgres_store_def store.simps pg_get_evidence_by_idempotency_def assms(3)
  by (intro does_store_call does_sbind [OF does_domain [of _ "key_value (rq_chave_idempotencia r)"]]
        does_sbind [OF does_select [where f = db_evidence, OF assms(1)] does_row(2)])
    (simp_all add: ready_visible assms require_key_iff)

lemma does_by_type:
  assumes "the_row (\<lambda>e. ev_igreja_id e = g \<and> ev_desafio_id e = ch_id c \<and> ev_tipo e = ty) (db_evidence d) x"
    and "\<And>e. x = Some e \<Longrightarrow> valid_evidence e" "ch_igreja_id c = g"
  shows "does (evidence_by_type (postgres_uow U) c ty) (ready t g people ro sc d) x (ready t g people ro sc d)"
  unfolding evidence_by_type_def postgres_store_simps postgres_store_def store.simps pg_get_evidence_by_challenge_type_def assms(3)
  by (intro does_store_call does_sbind [OF does_select [where f = db_evidence, OF assms(1)] does_row(2)])
    (simp_all add: ready_visible assms)

lemma does_receipt:
  assumes "the_row (\<lambda>q. rc_igreja_id q = g \<and> rc_evidencia_id q = i) (db_receipts d) x" "\<And>q. x = Some q \<Longrightarrow> valid_receipt q"
  shows "does (store_call (st_get_receipt_by_evidence (uw_store (postgres_uow U)) g i)) (ready t g people ro sc d) x
    (ready t g people ro sc d)"
  unfolding postgres_store_simps postgres_store_def store.simps pg_get_receipt_by_evidence_def
  by (intro does_store_call does_sbind [OF does_select [where f = db_receipts, OF assms(1)] does_row(3)])
    (simp_all add: ready_visible assms)

definition no_consent :: "uuid \<Rightarrow> uuid \<Rightarrow> purpose \<Rightarrow> evidence_db \<Rightarrow> bool" where
  "no_consent g p f d \<longleftrightarrow> (\<forall>e \<in> set (db_ledger d). \<not> (le_igreja_id e = g \<and> le_pessoa_id e = p \<and> le_finalidade e = f))"

lemma does_ledger:
  assumes "no_consent g p f d"
  shows "does (store_call (st_get_ledger_state (uw_store (postgres_uow U)) g p f)) (ready t g people ro sc d) (ABSENT, None)
    (ready t g people ro sc d)"
proof (rule does_store_call)
  have "filter (\<lambda>e. visible s g \<and> le_igreja_id e = g \<and> le_pessoa_id e = p \<and> le_finalidade e = f) (db_ledger d) = []" for s
    using assms by (auto simp: no_consent_def filter_empty_conv)
  then show "does (st_get_ledger_state (uw_store (postgres_uow U)) g p f) (ready t g people ro sc d) (ABSENT, None) (ready t g people ro sc d)"
    by (simp add: does_def postgres_store_def pg_get_ledger_state_def sbind_def select_value_def sql_def ready_fields latest_event_def)
qed

section \<open>Writes that succeed\<close>

lemma open_not_ended: "valid_challenge c \<Longrightarrow> ch_estado c = OPEN \<Longrightarrow> ch_encerrado_em c = None"
  by (simp add: valid_challenge_def challenge_end_ok_def)

lemma does_insert_challenge:
  assumes "valid_challenge c" "ch_estado c = OPEN" "fresh_challenge c d" "(ch_igreja_id c, ch_pessoa_id c) \<in> set people"
  shows "does (store_call (st_insert_challenge (uw_store (postgres_uow U)) c)) (ready t (ch_igreja_id c) people False sc d) True
    (ready t (ch_igreja_id c) people False sc (add_challenge c d))"
proof -
  have "\<not> challenge_conflict c (db_challenges d)" using assms(3) by (auto simp: challenge_conflict_def fresh_challenge_def)
  then have "\<exists>s'. pg_insert_challenge c s = (Inr True, s') \<and> ready t (ch_igreja_id c) people False sc (add_challenge c d) s'"
    if "ready t (ch_igreja_id c) people False sc d s" for s
    unfolding pg_insert_challenge_Inr
    using assms open_not_ended ready_visible [OF that] ready_fields [OF that] ready_db(2) [OF that] by simp
  then show ?thesis by (intro does_store_call) (simp add: does_def postgres_store_def)
qed

lemma does_insert_evidence:
  assumes "valid_evidence e" "fresh_evidence e d"
    and c: "c \<in> set (db_challenges d)" "ch_igreja_id c = ev_igreja_id e" "ch_id c = ev_desafio_id e" "ch_estado c = OPEN"
      "instant (ch_criado_em c) \<le> instant (ev_registrado_em e)" "instant (ev_registrado_em e) < instant (ch_expira_em c)"
    and p: "ev_tipo e = MANIFESTATION \<Longrightarrow> p \<in> set (db_evidence d) \<and> ev_igreja_id p = ev_igreja_id e \<and> ev_desafio_id p = ev_desafio_id e
      \<and> ev_apresentacao_id e = Some (ev_id p) \<and> ev_tipo p = PRESENTATION \<and> instant (ev_registrado_em p) \<le> instant (ev_registrado_em e)"
  shows "does (store_call (st_insert_evidence (uw_store (postgres_uow U)) e)) (ready t (ev_igreja_id e) people False sc d) ()
    (ready t (ev_igreja_id e) people False sc (add_evidence e d))"
proof -
  have conflict: "\<not> evidence_conflict e (db_evidence d)" using assms(2) by (auto simp: evidence_conflict_def fresh_evidence_def)
  have "\<exists>s'. pg_insert_evidence e s = (Inr (), s') \<and> ready t (ev_igreja_id e) people False sc (add_evidence e d) s'"
    if s: "ready t (ev_igreja_id e) people False sc d s" for s
  proof -
    have "case ev_tipo e of PRESENTATION \<Rightarrow> ev_apresentacao_id e = None \<and> ev_acao e = None
      | MANIFESTATION \<Rightarrow> ev_acao e = Some REFUSE_INITIAL \<and> (\<exists>p \<in> set (db_evidence d). ev_igreja_id p = ev_igreja_id e
            \<and> ev_desafio_id p = ev_desafio_id e \<and> ev_apresentacao_id e = Some (ev_id p) \<and> ev_tipo p = PRESENTATION
            \<and> instant (ev_registrado_em p) \<le> instant (ev_registrado_em e))"
      using assms(1) p by (cases "ev_tipo e") (auto simp: valid_evidence_def)
    then have "evidence_insert_valid s e"
      unfolding evidence_insert_valid_def using c ready_visible [OF s] ready_fields [OF s] by blast
    then show ?thesis
      unfolding pg_insert_evidence_Inr using assms(1) conflict ready_fields [OF s] ready_db(2) [OF s] by simp
  qed
  then show ?thesis by (intro does_store_call) (simp add: does_def postgres_store_def)
qed

lemma does_insert_receipt:
  assumes "valid_receipt q" "fresh_receipt q d" "m \<in> set (db_evidence d)" "ev_tipo m = MANIFESTATION" "ev_acao m = Some (rc_acao q)"
    "ev_igreja_id m = rc_igreja_id q" "ev_id m = rc_evidencia_id q" "ev_chave_idempotencia m = rc_chave_idempotencia q"
    "instant (ev_registrado_em m) = instant (rc_registrado_em q)"
  shows "does (store_call (st_insert_receipt (uw_store (postgres_uow U)) q)) (ready t (rc_igreja_id q) people False sc d) ()
    (ready t (rc_igreja_id q) people False sc (add_receipt q d))"
proof -
  have conflict: "\<not> receipt_conflict q (db_receipts d)" using assms(2) by (auto simp: receipt_conflict_def fresh_receipt_def)
  have "\<exists>s'. pg_insert_receipt q s = (Inr (), s') \<and> ready t (rc_igreja_id q) people False sc (add_receipt q d) s'"
    if s: "ready t (rc_igreja_id q) people False sc d s" for s
  proof -
    have "receipt_insert_valid s q"
      unfolding receipt_insert_valid_def using assms(3-) ready_visible [OF s] ready_fields [OF s] by blast
    then show ?thesis
      unfolding pg_insert_receipt_Inr using assms(1) conflict ready_fields [OF s] ready_db(1) [OF s] by simp
  qed
  then show ?thesis by (intro does_store_call) (simp add: does_def postgres_store_def)
qed

lemma does_lock_challenge: "does (store_call (st_lock_challenge (uw_store (postgres_uow U)) h i)) (ready t g people False sc d) ()
    (ready t g people False sc d)"
  by (intro does_store_call) (auto simp: does_def postgres_store_def pg_lock_challenge_def sql_def ready_fields)

lemma does_flush: "does (store_call (st_flush (uw_store (postgres_uow U)))) P () P"
  by (intro does_store_call) (simp add: does_def postgres_store_def pg_flush_def)

text \<open>A clock and a source that answer throughout the run, and whose answer covers the request.\<close>

definition source_answers :: "pg uow \<Rightarrow> consent_request \<Rightarrow> datetime \<Rightarrow> authority \<Rightarrow> bool" where
  "source_answers U r now a \<longleftrightarrow>
     (\<forall>w. uw_clock U w = ClockValue now) \<and> utcoffset now = Some 0
     \<and> (\<forall>w. uw_resolve U r now w = Inr (SourceValue a)) \<and> (\<forall>w. uw_revalidate U r a now w = Inr (SourceValue a))
     \<and> validate_source_binding r a = Inr () \<and> au_prior_ledger_state a = ABSENT \<and> au_prior_event_id a = None"

lemma does_source:
  assumes "source_answers U r now a"
  shows "does (require_clock (postgres_uow U)) P now P" "does (source_call (uw_resolve (postgres_uow U) r now)) P a P"
    "does (source_call (uw_revalidate (postgres_uow U) r a now)) P a P" "does (validate_authority r a) P () P"
    "does (same_ledger a (ABSENT, None) True) P () P"
  using assms require_utc_iff [of now now]
  by (auto simp: does_def require_clock_def source_call_def validate_authority_def same_ledger_def source_answers_def)

lemma does_preflight:
  assumes "source_answers U r now a" "rq_acao r = Some REFUSE_INITIAL" "ch_igreja_id (rq_desafio r) = g"
  shows "does (preflight (postgres_uow U) r False) (ready t g people ro sc d) (rq_desafio r, a, now) (ready t g people ro sc d)"
proof -
  have allowed: "does (require_allowed_action r False) P () P" for P :: "pg \<Rightarrow> bool"
    using assms(2) by (simp add: does_def require_allowed_action_def)
  show ?thesis
    unfolding preflight_def assms(3)
    by (rule does_sbind [OF allowed], (rule does_sbind [OF does_transaction] does_sbind [OF does_tenant] does_sbind [OF does_source(1) [OF assms(1)]]
        does_sbind [OF does_source(2) [OF assms(1)]] does_sbind [OF does_source(4) [OF assms(1)]] does_ret)+)
qed

section \<open>Locking and revalidating\<close>

abbreviation key_text where "key_text r \<equiv> key_lock_text (ch_igreja_id (rq_desafio r)) (rq_chave_idempotencia r)"
abbreviation stream_text where "stream_text c \<equiv> stream_lock_text (ch_igreja_id c) (ch_pessoa_id c) (ch_finalidade c)"

lemma does_secure_new:
  assumes "valid_challenge c" "ch_estado c = OPEN" "fresh_challenge c d" "(ch_igreja_id c, ch_pessoa_id c) \<in> set people"
    and "instant now < instant (ch_expira_em c)"
  shows "does (secure_challenge (postgres_uow U) c now) (ready t (ch_igreja_id c) people False sc d) None
    (ready t (ch_igreja_id c) people False sc (add_challenge c d))"
proof -
  let ?P = "ready t (ch_igreja_id c) people False sc d"
  have "the_row (\<lambda>x. ch_igreja_id x = ch_igreja_id c \<and> ch_id x = ch_id c) (db_challenges d) None"
    "the_row (\<lambda>x. ch_igreja_id x = ch_igreja_id c \<and> ch_binding_id x = ch_binding_id c \<and> ch_interaction_id x = ch_interaction_id c)
      (db_challenges d) None"
    using assms(3) by (auto intro!: the_row_None simp: fresh_challenge_def)
  then have get: "does (get_challenge (postgres_uow U) c) ?P None ?P" "does (get_binding (postgres_uow U) c) ?P None ?P"
    by (auto intro: does_get_challenge does_get_binding)
  have expiry: "does (ensure_not_expired c now) ?P () ?P" using assms(5) by (simp add: does_def ensure_not_expired_def)
  show ?thesis
    unfolding secure_challenge_def
    by (rule does_sbind [OF get(1)], unfold option.case, rule does_sbind [OF get(2)], unfold option.case, rule does_if(1), simp add: assms(2),
        rule does_sbind [OF expiry], rule does_sbind [OF does_insert_challenge [OF assms(1-4)]], rule does_if(2), simp, rule does_ret)
qed

lemma does_revalidate:
  assumes src: "source_answers U r now a" and c: "ch_igreja_id c = g" "valid_challenge c" "\<not> terminal_unusable c True"
    and d: "the_row (\<lambda>x. ch_igreja_id x = g \<and> ch_binding_id x = ch_binding_id c \<and> ch_interaction_id x = ch_interaction_id c)
      (db_challenges d) (Some c)" "no_consent g (ch_pessoa_id c) (ch_finalidade c) d"
  shows "does (sbind (store_call (st_lock_ledger_stream (uw_store (postgres_uow U)) (ch_igreja_id c) (ch_pessoa_id c) (ch_finalidade c))) (\<lambda>_.
      sbind (require_clock (postgres_uow U)) (\<lambda>post_lock_now.
      sbind (source_call (uw_revalidate (postgres_uow U) r a post_lock_now)) (\<lambda>a.
      sbind (validate_authority r a) (\<lambda>_.
        if terminal_unusable c True then fail CHALLENGE_CONFLICT
        else sbind (get_binding (postgres_uow U) c) (\<lambda>existing_binding.
          if foreign_challenge existing_binding c then fail CHALLENGE_CONFLICT
          else sbind (store_call (st_get_ledger_state (uw_store (postgres_uow U)) (ch_igreja_id c) (ch_pessoa_id c) (ch_finalidade c))) (\<lambda>ledger.
               sbind (same_ledger a ledger True) (\<lambda>_.
                 ret (c, a, post_lock_now)))))))))
    (ready t g people ro (Some (t, k, None)) d) (c, a, now) (ready t g people ro (Some (t, k, Some (stream_text c))) d)"
proof -
  have b: "does (get_binding (postgres_uow U) c) (ready t g people ro sc d) (Some c) (ready t g people ro sc d)" for sc
    using c d(1) by (intro does_get_binding) auto
  have own: "\<not> foreign_challenge (Some c) c" by (simp add: foreign_challenge_def compare_challenges_equiv)
  note stream = does_stream_lock [of U g "ch_pessoa_id c" "ch_finalidade c" t people ro k d]
  show ?thesis
    unfolding c(1)
    by (rule does_sbind [OF stream], rule does_sbind [OF does_source(1) [OF src]], rule does_sbind [OF does_source(3) [OF src]],
        rule does_sbind [OF does_source(4) [OF src]], rule does_if(1) [OF c(3)], rule does_sbind [OF b], rule does_if(1) [OF own],
        rule does_sbind [OF does_ledger [OF d(2)]], rule does_sbind [OF does_source(5) [OF src]], rule does_ret)
qed

lemma does_lock_new:
  assumes src: "source_answers U r now a" and k: "was_server_minted_in_this_process (uw_secret U) (rq_chave_idempotencia r)"
    and c: "rq_desafio r = c" "valid_challenge c" "ch_estado c = OPEN" "fresh_challenge c d" "(ch_igreja_id c, ch_pessoa_id c) \<in> set people"
      "instant now < instant (ch_expira_em c)" "no_consent (ch_igreja_id c) (ch_pessoa_id c) (ch_finalidade c) d"
  shows "does (lock_and_revalidate (postgres_uow U) r a now True True) (ready t (ch_igreja_id c) people False None d) (c, a, now)
    (ready t (ch_igreja_id c) people False (Some (t, key_text r, Some (stream_text c))) (add_challenge c d))"
proof -
  let ?P = "\<lambda>x. ch_igreja_id x = ch_igreja_id c \<and> ch_binding_id x = ch_binding_id c \<and> ch_interaction_id x = ch_interaction_id c"
  have "filter ?P (db_challenges d) = []" using c(4) by (auto simp: filter_empty_conv fresh_challenge_def)
  then have row: "the_row ?P (db_challenges (add_challenge c d)) (Some c)" by (simp add: the_row_def)
  have usable: "\<not> terminal_unusable c True" using c(3) by (simp add: terminal_unusable_def)
  have quiet: "no_consent (ch_igreja_id c) (ch_pessoa_id c) (ch_finalidade c) (add_challenge c d)" using c(7) by (simp add: no_consent_def)
  show ?thesis
    unfolding lock_and_revalidate_def Let_def c(1)
    by (rule does_sbind [OF does_key_lock [OF k]], rule does_sbind [OF does_secure_new [OF c(2-6)]], unfold option.case,
        rule does_sbind [OF does_ret], rule does_revalidate [OF src refl c(2) usable row quiet])
qed

lemma does_lock_existing:
  assumes "the_row (\<lambda>x. ch_igreja_id x = g \<and> ch_id x = ch_id c) (db_challenges d) (Some c')" "valid_challenge c'"
    and "compare_challenges c' c" "ch_igreja_id c = g"
  shows "does (secure_challenge (postgres_uow U) c now) (ready t g people ro sc d) (Some c') (ready t g people ro sc d)"
    "does (lock_existing (postgres_uow U) c c') (ready t g people False sc d) c' (ready t g people False sc d)"
proof -
  have get: "does (get_challenge (postgres_uow U) c) (ready t g people ro sc d) (Some c') (ready t g people ro sc d)" for ro
    using assms by (intro does_get_challenge) auto
  show "does (secure_challenge (postgres_uow U) c now) (ready t g people ro sc d) (Some c') (ready t g people ro sc d)"
    unfolding secure_challenge_def by (rule does_sbind [OF get], unfold option.case, rule does_ret)
  have check: "does (check_challenge_row c (Some c')) P c' P" for P :: "pg \<Rightarrow> bool"
    using assms(3) by (simp add: does_def check_challenge_row_def)
  show "does (lock_existing (postgres_uow U) c c') (ready t g people False sc d) c' (ready t g people False sc d)"
    unfolding lock_existing_def
    by (rule does_if(1), simp add: assms(3), rule does_sbind [OF does_lock_challenge], rule does_sbind [OF get], rule check)
qed

lemma does_lock_stored:
  assumes src: "source_answers U r now a" and k: "was_server_minted_in_this_process (uw_secret U) (rq_chave_idempotencia r)"
    and c: "ch_igreja_id (rq_desafio r) = g" "compare_challenges c (rq_desafio r)" "valid_challenge c" "\<not> terminal_unusable c True"
    and d: "c \<in> set (db_challenges d)" "rows_unique d" "no_consent g (ch_pessoa_id c) (ch_finalidade c) d"
  shows "does (lock_and_revalidate (postgres_uow U) r a now True True) (ready t g people False None d) (c, a, now)
    (ready t g people False (Some (t, key_text r, Some (stream_text c))) d)"
proof -
  have g: "ch_igreja_id c = g" "ch_id c = ch_id (rq_desafio r)" using c(1,2) by (simp_all add: compare_challenges_def)
  have row: "the_row (\<lambda>x. ch_igreja_id x = g \<and> ch_id x = ch_id (rq_desafio r)) (db_challenges d) (Some c)"
    using g by (intro the_row_Some [OF rows_unique_challenge [OF d(2)] d(1)]) auto
  have "distinct (map (\<lambda>c. (ch_igreja_id c, ch_binding_id c, ch_interaction_id c)) (db_challenges d))"
    using d(2) by (simp add: rows_unique_def unique_challenges_def)
  from the_row_Some [OF this d(1)]
  have binding: "the_row (\<lambda>x. ch_igreja_id x = g \<and> ch_binding_id x = ch_binding_id c \<and> ch_interaction_id x = ch_interaction_id c)
      (db_challenges d) (Some c)"
    using g by simp
  note key = does_key_lock [OF k, of g t people False d]
  note existing = does_lock_existing [OF row c(3,2,1)]
  show ?thesis
    unfolding lock_and_revalidate_def Let_def c(1)
    by (rule does_sbind [OF key], rule does_sbind [OF existing(1)], unfold option.case, rule does_sbind [OF existing(2)],
        rule does_revalidate [OF src g(1) c(3,4) binding d(3)])
qed

section \<open>A fresh refusal\<close>

text \<open>The rows a fresh refusal stages, for the key \<open>k0\<close> minted for its presentation.\<close>

definition new_presentation :: "pg uow \<Rightarrow> consent_request \<Rightarrow> opaque_key \<Rightarrow> evidence" where
  "new_presentation U r k0 =
     (let c = rq_desafio r in
      sealed_evidence (provisional_evidence (uw_presentation_id U) (ch_igreja_id c) (ch_id c) PRESENTATION (key_value k0)
        (rq_apresentada_em r) None None) c)"

definition new_manifestation :: "pg uow \<Rightarrow> consent_request \<Rightarrow> evidence" where
  "new_manifestation U r =
     (let c = rq_desafio r in
      sealed_evidence (provisional_evidence (uw_manifestation_id U) (ch_igreja_id c) (ch_id c) MANIFESTATION
        (key_value (rq_chave_idempotencia r)) (manifested_at r) (Some (uw_presentation_id U)) (Some REFUSE_INITIAL)) c)"

definition new_refusal :: "pg uow \<Rightarrow> consent_request \<Rightarrow> opaque_key \<Rightarrow> op_result" where
  "new_refusal U r k0 =
     \<lparr>or_challenge = (rq_desafio r)\<lparr>ch_estado := CONSUMED, ch_encerrado_em := Some (manifested_at r)\<rparr>,
      or_presentation = new_presentation U r k0, or_manifestation = Some (new_manifestation U r),
      or_receipt = Some (refusal_receipt U r (rq_desafio r) (new_manifestation U r)), or_replayed = False\<rparr>"

definition with_refusal :: "pg uow \<Rightarrow> consent_request \<Rightarrow> opaque_key \<Rightarrow> evidence_db \<Rightarrow> evidence_db" where
  "with_refusal U r k0 d =
     (let c = rq_desafio r; m = new_manifestation U r in
      close_challenge (ch_igreja_id c) (ch_id c) CONSUMED (manifested_at r)
        (add_receipt (refusal_receipt U r c m) (add_evidence m (add_evidence (new_presentation U r k0) (add_challenge c d)))))"

text \<open>
  A request that can be recorded anew: constructed for an open challenge, under identifiers and
  keys that no row of the tenant uses.
\<close>

definition recordable :: "pg uow \<Rightarrow> consent_request \<Rightarrow> opaque_key \<Rightarrow> evidence_db \<Rightarrow> bool" where
  "recordable U r k0 d \<longleftrightarrow>
     (let c = rq_desafio r; k = key_value (rq_chave_idempotencia r) in
      request_post_init (uw_secret U) r = Inr r \<and> rq_acao r = Some REFUSE_INITIAL \<and> valid_challenge c \<and> ch_estado c = OPEN
      \<and> opaque_key_generate (uw_secret U) (uw_entropy U) = Inr k0 \<and> key_value k0 \<noteq> k
      \<and> uw_presentation_id U \<noteq> 0 \<and> uw_manifestation_id U \<noteq> 0 \<and> uw_receipt_id U \<noteq> 0
      \<and> uw_presentation_id U \<noteq> uw_manifestation_id U
      \<and> fresh_challenge c d
      \<and> (\<forall>f \<in> set (db_evidence d). ev_id f \<noteq> uw_presentation_id U \<and> ev_id f \<noteq> uw_manifestation_id U
           \<and> (ev_igreja_id f = ch_igreja_id c \<longrightarrow>
                ev_desafio_id f \<noteq> ch_id c \<and> ev_chave_idempotencia f \<noteq> k \<and> ev_chave_idempotencia f \<noteq> key_value k0))
      \<and> (\<forall>q \<in> set (db_receipts d). rc_id q \<noteq> uw_receipt_id U
           \<and> (rc_igreja_id q = ch_igreja_id c \<longrightarrow> rc_evidencia_id q \<noteq> uw_manifestation_id U \<and> rc_chave_idempotencia q \<noteq> k)))"

lemma request_facts:
  assumes "request_post_init secret r = Inr r" "rq_acao r = Some REFUSE_INITIAL"
  shows "was_server_minted_in_this_process secret (rq_chave_idempotencia r) \<and> utcoffset (rq_apresentada_em r) = Some 0
    \<and> rq_manifestada_em r = Some (manifested_at r) \<and> utcoffset (manifested_at r) = Some 0
    \<and> instant (ch_criado_em (rq_desafio r)) \<le> instant (rq_apresentada_em r)
    \<and> instant (rq_apresentada_em r) \<le> instant (manifested_at r) \<and> instant (manifested_at r) < instant (ch_expira_em (rq_desafio r))"
proof -
  obtain t where t: "rq_manifestada_em r = Some t"
    using assms by (auto simp: request_post_init_def request_action_ok_def result_simps require_iffs split: if_splits option.splits)
  then show ?thesis
    using assms by (auto simp: request_post_init_def request_action_ok_def result_simps require_iffs manifested_at_def split: if_splits)
qed

lemma minted_key:
  assumes "opaque_key_generate secret entropy = Inr k"
  shows "was_server_minted_in_this_process secret k"
  using assms by (auto simp: opaque_key_generate_def was_server_minted_in_this_process_def Let_def split: if_splits)

lemma minted_hex: "was_server_minted_in_this_process secret k \<Longrightarrow> prefixed_hex64 IDEMPOTENCY_KEY_PREFIX (key_value k)"
  by (simp add: was_server_minted_in_this_process_def)

lemma consumed_valid:
  assumes "valid_challenge c" "utcoffset t = Some 0" "instant (ch_criado_em c) \<le> instant t"
  shows "valid_challenge (c\<lparr>ch_estado := CONSUMED, ch_encerrado_em := Some t\<rparr>)"
  using assms by (simp add: valid_challenge_def challenge_end_ok_def)

lemma new_rows_valid:
  assumes "recordable U r k0 d"
  shows "valid_evidence (new_presentation U r k0)" "valid_evidence (new_manifestation U r)"
    "valid_receipt (refusal_receipt U r (rq_desafio r) (new_manifestation U r))"
proof -
  have r: "request_post_init (uw_secret U) r = Inr r" "rq_acao r = Some REFUSE_INITIAL" "valid_challenge (rq_desafio r)"
    "opaque_key_generate (uw_secret U) (uw_entropy U) = Inr k0" "uw_presentation_id U \<noteq> 0" "uw_manifestation_id U \<noteq> 0" "uw_receipt_id U \<noteq> 0"
    using assms by (simp_all add: recordable_def Let_def)
  note f = request_facts [OF r(1,2)] minted_hex [OF minted_key [OF r(4)]]
  have k: "prefixed_hex64 IDEMPOTENCY_KEY_PREFIX (key_value (rq_chave_idempotencia r))" using f(1) minted_hex by blast
  have c: "ch_id (rq_desafio r) \<noteq> 0" "ch_igreja_id (rq_desafio r) \<noteq> 0" using r(3) by (simp_all add: valid_challenge_def)
  show "valid_evidence (new_presentation U r k0)" "valid_evidence (new_manifestation U r)"
    "valid_receipt (refusal_receipt U r (rq_desafio r) (new_manifestation U r))"
    using f k c r(5-7)
    by (simp_all add: new_presentation_def new_manifestation_def Let_def valid_evidence_def valid_receipt_def refusal_receipt_def)
qed

lemma new_rows_build:
  assumes "recordable U r k0 d" "rq_desafio r = c"
  shows "build_evidence (uw_secret U) (uw_presentation_id U) (ch_igreja_id c) (ch_id c) PRESENTATION k0 c (rq_apresentada_em r) None None
      = Inr (new_presentation U r k0)"
    "build_evidence (uw_secret U) (uw_manifestation_id U) (ch_igreja_id c) (ch_id c) MANIFESTATION (rq_chave_idempotencia r) c
      (manifested_at r) (Some (ev_id (new_presentation U r k0))) (Some REFUSE_INITIAL) = Inr (new_manifestation U r)"
proof -
  have r: "request_post_init (uw_secret U) r = Inr r" "rq_acao r = Some REFUSE_INITIAL" "valid_challenge c"
    "opaque_key_generate (uw_secret U) (uw_entropy U) = Inr k0"
    using assms by (simp_all add: recordable_def Let_def)
  show "build_evidence (uw_secret U) (uw_presentation_id U) (ch_igreja_id c) (ch_id c) PRESENTATION k0 c (rq_apresentada_em r) None None
      = Inr (new_presentation U r k0)"
    "build_evidence (uw_secret U) (uw_manifestation_id U) (ch_igreja_id c) (ch_id c) MANIFESTATION (rq_chave_idempotencia r) c
      (manifested_at r) (Some (ev_id (new_presentation U r k0))) (Some REFUSE_INITIAL) = Inr (new_manifestation U r)"
    unfolding build_evidence_iff [OF r(3)]
    using new_rows_valid [OF assms(1)] minted_key [OF r(4)] request_facts [OF r(1,2)]
    by (simp_all add: assms(2) new_presentation_def new_manifestation_def Let_def)
qed

lemma new_refusal_checks:
  assumes "recordable U r k0 d"
  shows "op_result_post_init (new_refusal U r k0) = Inr (new_refusal U r k0)"
proof -
  let ?c = "rq_desafio r" and ?c' = "(rq_desafio r)\<lparr>ch_estado := CONSUMED, ch_encerrado_em := Some (manifested_at r)\<rparr>"
  have r: "request_post_init (uw_secret U) r = Inr r" "rq_acao r = Some REFUSE_INITIAL" "valid_challenge ?c"
    using assms by (simp_all add: recordable_def Let_def)
  note f = request_facts [OF r(1,2)]
  have c': "valid_challenge ?c'" using f by (intro consumed_valid [OF r(3)]) auto
  note v = new_rows_valid [OF assms]
  have "evidence_matches_digest (new_presentation U r k0) ?c' = Inr True"
    using evidence_matches_iff [OF v(1) c'] by (simp add: new_presentation_def Let_def)
  moreover have "evidence_matches_digest (new_manifestation U r) ?c' = Inr True"
    using evidence_matches_iff [OF v(2) c'] by (simp add: new_manifestation_def Let_def)
  ultimately show ?thesis
    by (simp add: op_result_post_init_def Let_def new_refusal_def receipt_matches_def refusal_receipt_def)
      (simp add: new_presentation_def new_manifestation_def Let_def)
qed

lemma refusal_receipt_uow [simp]: "refusal_receipt (postgres_uow U) r c m = refusal_receipt U r c m"
  by (simp add: refusal_receipt_def)

lemma new_row_fields [simp]:
  "ev_id (new_presentation U r k0) = uw_presentation_id U" "ev_igreja_id (new_presentation U r k0) = ch_igreja_id (rq_desafio r)"
  "ev_desafio_id (new_presentation U r k0) = ch_id (rq_desafio r)" "ev_tipo (new_presentation U r k0) = PRESENTATION"
  "ev_chave_idempotencia (new_presentation U r k0) = key_value k0" "ev_registrado_em (new_presentation U r k0) = rq_apresentada_em r"
  "ev_id (new_manifestation U r) = uw_manifestation_id U" "ev_igreja_id (new_manifestation U r) = ch_igreja_id (rq_desafio r)"
  "ev_desafio_id (new_manifestation U r) = ch_id (rq_desafio r)" "ev_tipo (new_manifestation U r) = MANIFESTATION"
  "ev_chave_idempotencia (new_manifestation U r) = key_value (rq_chave_idempotencia r)"
  "ev_registrado_em (new_manifestation U r) = manifested_at r"
  "ev_apresentacao_id (new_manifestation U r) = Some (uw_presentation_id U)" "ev_acao (new_manifestation U r) = Some REFUSE_INITIAL"
  by (simp_all add: new_presentation_def new_manifestation_def Let_def)

lemma new_receipt_fields [simp]:
  "rc_id (refusal_receipt U r c m) = uw_receipt_id U" "rc_igreja_id (refusal_receipt U r c m) = ch_igreja_id c"
  "rc_evidencia_id (refusal_receipt U r c m) = ev_id m" "rc_acao (refusal_receipt U r c m) = REFUSE_INITIAL"
  "rc_chave_idempotencia (refusal_receipt U r c m) = key_value (rq_chave_idempotencia r)"
  "rc_registrado_em (refusal_receipt U r c m) = manifested_at r"
  by (simp_all add: refusal_receipt_def)

lemma does_stage_refusal:
  assumes rec: "recordable U r k0 d" and c: "rq_desafio r = c"
  shows "does (stage_refusal (postgres_uow U) r c None) (ready t (ch_igreja_id c) people False sc (add_challenge c d))
    (new_refusal U r k0) (ready t (ch_igreja_id c) people False sc (with_refusal U r k0 d))"
proof -
  define p where "p = new_presentation U r k0"
  define m where "m = new_manifestation U r"
  define q where "q = refusal_receipt U r c m"
  define d1 where "d1 = add_evidence p (add_challenge c d)"
  define d2 where "d2 = add_evidence m d1"
  define d3 where "d3 = add_receipt q d2"
  let ?R = "\<lambda>d. ready t (ch_igreja_id c) people False sc d"
  have r: "request_post_init (uw_secret U) r = Inr r" "rq_acao r = Some REFUSE_INITIAL" "valid_challenge c" "ch_estado c = OPEN"
    "opaque_key_generate (uw_secret U) (uw_entropy U) = Inr k0" "key_value k0 \<noteq> key_value (rq_chave_idempotencia r)"
    "uw_presentation_id U \<noteq> uw_manifestation_id U" "fresh_challenge c d"
    "\<And>f. f \<in> set (db_evidence d) \<Longrightarrow> ev_id f \<noteq> uw_presentation_id U \<and> ev_id f \<noteq> uw_manifestation_id U
       \<and> (ev_igreja_id f = ch_igreja_id c \<longrightarrow> ev_desafio_id f \<noteq> ch_id c \<and> ev_chave_idempotencia f \<noteq> key_value (rq_chave_idempotencia r)
            \<and> ev_chave_idempotencia f \<noteq> key_value k0)"
    "\<And>q. q \<in> set (db_receipts d) \<Longrightarrow> rc_id q \<noteq> uw_receipt_id U
       \<and> (rc_igreja_id q = ch_igreja_id c \<longrightarrow> rc_evidencia_id q \<noteq> uw_manifestation_id U
            \<and> rc_chave_idempotencia q \<noteq> key_value (rq_chave_idempotencia r))"
    using rec unfolding recordable_def Let_def c by blast+
  note f = request_facts [OF r(1,2), unfolded c] and v = new_rows_valid [OF rec, unfolded c]
  have fresh_p: "fresh_evidence p (add_challenge c d)" using r(9) by (auto simp: fresh_evidence_def p_def c)
  have fresh_m: "fresh_evidence m d1" using r(6,7,9) by (auto simp: fresh_evidence_def d1_def m_def p_def c)
  have fresh_q: "fresh_receipt q d2" using r(10) by (auto simp: fresh_receipt_def d2_def d1_def q_def m_def)
  have ins_p: "does (store_call (st_insert_evidence (uw_store (postgres_uow U)) p)) (?R (add_challenge c d)) () (?R d1)"
    using does_insert_evidence [of p "add_challenge c d" c undefined U t people sc] fresh_p v(1) r(4) f
    by (simp add: p_def c d1_def)
  have ins_m: "does (store_call (st_insert_evidence (uw_store (postgres_uow U)) m)) (?R d1) () (?R d2)"
    using does_insert_evidence [of m d1 c p U t people sc] fresh_m v(2) r(4) f
    by (simp add: m_def c d2_def d1_def p_def)
  have ins_q: "does (store_call (st_insert_receipt (uw_store (postgres_uow U)) q)) (?R d2) () (?R d3)"
    using does_insert_receipt [of q d2 m U t people sc] fresh_q v(3) by (simp add: q_def m_def c d3_def d2_def)
  have close: "does (store_call (st_transition_challenge (uw_store (postgres_uow U)) (ch_igreja_id c) (ch_id c) CONSUMED (manifested_at r)))
      (?R d3) () (?R (with_refusal U r k0 d))"
  proof -
    have open_row: "find (\<lambda>x. is_open_row (ch_igreja_id c) (ch_id c) x \<and> visible s (ch_igreja_id c)) (db_challenges d3) = Some c"
      if s: "?R d3 s" for s
    proof (rule find_filter)
      have "filter (\<lambda>x. is_open_row (ch_igreja_id c) (ch_id c) x \<and> visible s (ch_igreja_id c)) (db_challenges d) = []"
        using r(8) by (auto simp: filter_empty_conv is_open_row_def fresh_challenge_def)
      then show "filter (\<lambda>x. is_open_row (ch_igreja_id c) (ch_id c) x \<and> visible s (ch_igreja_id c)) (db_challenges d3) = [c]"
        using r(4) ready_visible [OF s] by (simp add: d3_def d2_def d1_def is_open_row_def)
    qed
    have "\<exists>s'. pg_transition_challenge (ch_igreja_id c) (ch_id c) CONSUMED (manifested_at r) s = (Inr (), s') \<and> ?R (with_refusal U r k0 d) s'"
      if s: "?R d3 s" for s
      unfolding pg_transition_Inr using f open_row [OF s] ready_fields [OF s] ready_db(2) [OF s]
      by (simp add: transition_valid_def with_refusal_def Let_def c d3_def d2_def d1_def p_def m_def q_def)
    then show ?thesis by (intro does_store_call) (simp add: does_def postgres_store_def)
  qed
  have obtained: "does (obtain_presentation (postgres_uow U) r c None) (?R (add_challenge c d)) p (?R d1)"
    unfolding obtain_presentation_def option.case postgres_store_simps(2-)
    by (rule does_sbind [OF does_domain [OF r(5)]], rule does_sbind [OF does_domain [OF new_rows_build(1) [OF rec c, folded p_def]]],
        rule does_sbind [OF ins_p], rule does_ret)
  have receipt: "receipt_post_init (refusal_receipt U r c m) = Inr q"
    using v(3) by (simp add: receipt_post_init_iff q_def m_def)
  have closed: "does (new_challenge_state c CONSUMED (manifested_at r)) P (c\<lparr>ch_estado := CONSUMED, ch_encerrado_em := Some (manifested_at r)\<rparr>) P"
    for P :: "pg \<Rightarrow> bool"
  proof -
    have "challenge_post_init (c\<lparr>ch_estado := CONSUMED, ch_encerrado_em := Some (manifested_at r)\<rparr>)
        = Inr (c\<lparr>ch_estado := CONSUMED, ch_encerrado_em := Some (manifested_at r)\<rparr>)"
      unfolding challenge_post_init_iff using f by (intro conjI refl consumed_valid [OF r(3)]) auto
    moreover have "require_utc (manifested_at r) = Inr (manifested_at r)" using f require_utc_iff by blast
    ultimately show ?thesis using r(4) by (simp add: does_def new_challenge_state_def with_state_def)
  qed
  have result: "does (op_result_new (new_refusal U r k0)) P (new_refusal U r k0) P" for P :: "pg \<Rightarrow> bool"
    using new_refusal_checks [OF rec] by (simp add: does_def op_result_new_def)
  have eq: "\<lparr>or_challenge = c\<lparr>ch_estado := CONSUMED, ch_encerrado_em := Some (manifested_at r)\<rparr>, or_presentation = p,
      or_manifestation = Some m, or_receipt = Some q, or_replayed = False\<rparr> = new_refusal U r k0"
    by (simp add: new_refusal_def p_def m_def q_def c)
  show ?thesis
    unfolding stage_refusal_def refusal_receipt_uow postgres_store_simps(2-)
    by (rule does_sbind [OF obtained], rule does_sbind [OF does_domain [OF new_rows_build(2) [OF rec c, folded p_def m_def]]],
        rule does_sbind [OF does_domain [OF receipt]], rule does_sbind [OF ins_m],
        rule does_sbind [OF ins_q], rule does_sbind [OF close],
        rule does_sbind [OF does_flush], rule does_sbind [OF closed], unfold eq, rule result)
qed

lemma fresh_refusal_runs:
  assumes s: "ready t (ch_igreja_id c) people False None d s" and src: "source_answers U r now a" and rec: "recordable U r k0 d"
    and c: "rq_desafio r = c" "(ch_igreja_id c, ch_pessoa_id c) \<in> set people"
      "no_consent (ch_igreja_id c) (ch_pessoa_id c) (ch_finalidade c) d" "instant now < instant (ch_expira_em c)"
  shows "\<exists>s'. record_initial_refusal (postgres_uow U) r s = (Inr (new_refusal U r k0), s')
    \<and> ready t (ch_igreja_id c) people False (Some (t, key_text r, Some (stream_text c))) (with_refusal U r k0 d) s'"
proof -
  have r: "request_post_init (uw_secret U) r = Inr r" "rq_acao r = Some REFUSE_INITIAL" "valid_challenge c" "ch_estado c = OPEN"
    "fresh_challenge c d"
    "\<And>f. f \<in> set (db_evidence d) \<Longrightarrow> ev_igreja_id f = ch_igreja_id c \<Longrightarrow>
       ev_desafio_id f \<noteq> ch_id c \<and> ev_chave_idempotencia f \<noteq> key_value (rq_chave_idempotencia r)"
    using rec unfolding recordable_def Let_def c(1) by auto
  have k: "was_server_minted_in_this_process (uw_secret U) (rq_chave_idempotencia r)" using request_facts [OF r(1,2)] by blast
  let ?d = "add_challenge c d" and ?R = "ready t (ch_igreja_id c) people False (Some (t, key_text r, Some (stream_text c)))"
  have pre: "does (preflight (postgres_uow U) r False) (ready t (ch_igreja_id c) people False None d) (c, a, now)
      (ready t (ch_igreja_id c) people False None d)"
    using does_preflight [OF src r(2)] c(1) by auto
  note lock = does_lock_new [OF src k c(1) r(3-5) c(2,4,3)]
  have key: "does (evidence_by_key (postgres_uow U) c r) (?R ?d) None (?R ?d)"
    using r(6) minted_hex [OF k] by (intro does_by_key the_row_None) auto
  have type: "does (evidence_by_type (postgres_uow U) c ty) (?R ?d) None (?R ?d)" for ty
    using r(6) by (intro does_by_type the_row_None) auto
  have check: "does (check_presentation r c None) P () P" for P :: "pg \<Rightarrow> bool" by (simp add: does_def check_presentation_def)
  have expiry: "does (ensure_not_expired c now) P () P" for P :: "pg \<Rightarrow> bool" using c(4) by (simp add: does_def ensure_not_expired_def)
  have "does (record_initial_refusal (postgres_uow U) r) (ready t (ch_igreja_id c) people False None d) (new_refusal U r k0)
      (?R (with_refusal U r k0 d))"
    unfolding record_initial_refusal_def
    by (rule does_sbind [OF pre], unfold prod.case, rule does_sbind [OF lock], unfold prod.case, rule does_sbind [OF key],
        rule does_sbind [OF type], rule does_sbind [OF type], rule does_sbind [OF check], unfold option.case,
        rule does_if(1), simp add: r(4), rule does_if(1), simp, rule does_sbind [OF expiry], rule does_stage_refusal [OF rec c(1)])
  then show ?thesis using s by (simp add: does_def)
qed

text \<open>
  C14. A refusal that may be recorded is recorded: in a writing transaction of the tenant, with the
  source confirming the request and no consent in the ledger, on a challenge not stored yet and
  with identifiers and keys no row uses, the writer answers with a fresh result, the one whose
  rows are determined by the request, and leaves exactly these rows added and the challenge
  consumed.
\<close>

theorem fresh_refusal_succeeds:
  assumes "ready t (ch_igreja_id c) people False None d s" "source_answers U r now a" "recordable U r k0 d" "rq_desafio r = c"
    and "(ch_igreja_id c, ch_pessoa_id c) \<in> set people" "no_consent (ch_igreja_id c) (ch_pessoa_id c) (ch_finalidade c) d"
    and "instant now < instant (ch_expira_em c)"
  shows "\<exists>s'. record_initial_refusal (postgres_uow U) r s = (Inr (new_refusal U r k0), s') \<and> pg_db s' = with_refusal U r k0 d"
  using fresh_refusal_runs [OF assms] by (auto simp: ready_fields)

definition sample_extra_key :: opaque_key where
  "sample_extra_key =
     \<lparr>key_value = IDEMPOTENCY_KEY_PREFIX @ hexdigest (replicate 32 5),
      mint_proof = hmac_sha256 sample_secret (ascii_bytes (IDEMPOTENCY_KEY_PREFIX @ hexdigest (replicate 32 5)))\<rparr>"

lemma sample_ready: "ready 1 (ch_igreja_id sample_challenge) [(2, 3)] False None \<lparr>db_challenges = [], db_evidence = [], db_receipts = [], db_ledger = []\<rparr> sample_session"
  by (simp add: ready_def sample_session_def tenant_session_def sample_challenge_def)

lemma sample_source: "source_answers sample_uow sample_refusal (sample_time 8) sample_authority"
  by (simp add: source_answers_def sample_uow_def validate_source_binding_def Let_def validate_choice_def validate_chronology_def
      sample_refusal_def sample_authority_def sample_challenge_def authority_mirrors_def adult_self_proven_def same_instant_def)

lemma sample_recordable:
  "recordable sample_uow sample_refusal sample_extra_key \<lparr>db_challenges = [], db_evidence = [], db_receipts = [], db_ledger = []\<rparr>"
proof -
  have "prefixed_hex64 IDEMPOTENCY_KEY_PREFIX (IDEMPOTENCY_KEY_PREFIX @ hexdigest (replicate 32 5))"
    using hexdigest_hex [of "replicate 32 5"] hexdigest_length [of "replicate 32 5"] by (simp add: prefixed_hex64_def)
  then have key: "opaque_key_generate (uw_secret sample_uow) (uw_entropy sample_uow) = Inr sample_extra_key"
    by (simp add: opaque_key_generate_def sample_extra_key_def sample_uow_def Let_def)
  have "hexdigest (5 # replicate 31 5) \<noteq> 49 # replicate 63 49"
    unfolding hexdigest_def by (simp add: hex_of_byte_def hex_char_def)
  then have "hexdigest (replicate 32 5) \<noteq> replicate 64 49" by (simp add: replicate_Suc [symmetric] del: replicate_Suc)
  then have "key_value sample_extra_key \<noteq> key_value (rq_chave_idempotencia sample_refusal)"
    by (simp add: sample_extra_key_def sample_refusal_def sample_opaque_key_def)
  then show ?thesis
    using key sample_refusal_valid sample_challenge_valid(1)
    by (simp add: recordable_def Let_def fresh_challenge_def)
      (simp add: sample_uow_def sample_refusal_def sample_challenge_def)
qed

theorem fresh_refusal_succeeds_witness:
  "\<exists>s'. record_initial_refusal (postgres_uow sample_uow) sample_refusal sample_session
       = (Inr (new_refusal sample_uow sample_refusal sample_extra_key), s')
     \<and> ch_estado (or_challenge (new_refusal sample_uow sample_refusal sample_extra_key)) = CONSUMED"
proof -
  have "rq_desafio sample_refusal = sample_challenge" "(ch_igreja_id sample_challenge, ch_pessoa_id sample_challenge) \<in> set [(2, 3)]"
    "instant (sample_time 8) < instant (ch_expira_em sample_challenge)"
    by (simp_all add: sample_refusal_def sample_challenge_def)
  from fresh_refusal_succeeds [OF sample_ready sample_source sample_recordable this(1,2) _ this(3)] show ?thesis
    by (auto simp: no_consent_def new_refusal_def)
qed

end
