(* ===== verification/ConsentReplay.thy ===== *)
theory ConsentReplay
  imports ConsentProgress
begin

text \<open>
  What becomes of a recorded refusal: repeated it replays, observed it is confirmed, and every
  store that commits can lead to is complete.
\<close>

text \<open>
  C17. A fresh initial refusal stages the whole chain at once and nothing else: on an open challenge,
  already stored or stored by this run, it adds the presentation unless it was there, the
  manifestation under the request's key, and the receipt that matches it, all at the instants of
  the request, and consumes the challenge at the instant of the manifestation.
\<close>

theorem refusal_stages_chain:
  assumes "record_initial_refusal (postgres_uow U) r s = (Inr res, s')" "\<not> or_replayed res"
  shows "\<exists>c d0. secured (pg_db s) c d0 \<and> compare_challenges c (rq_desafio r) \<and> refusal_staged r c d0 res (pg_db s')"
  using pg.record_initial_refusal_Inr [OF assms(1)] assms(2) by auto

text \<open>
  A replay writes nothing and answers with stored rows only: the challenge it reports is stored
  and consumed, and the presentation, the manifestation under the request's key and its receipt
  are rows of the store.
\<close>

theorem replay_writes_nothing:
  assumes "record_initial_refusal (postgres_uow U) r s = (Inr res, s')" "or_replayed res"
  shows "pg_db s' = pg_db s \<and> or_challenge res \<in> set (db_challenges (pg_db s)) \<and> ch_estado (or_challenge res) = CONSUMED
    \<and> or_presentation res \<in> set (db_evidence (pg_db s))
    \<and> (\<exists>m rc. or_manifestation res = Some m \<and> m \<in> set (db_evidence (pg_db s))
         \<and> ev_chave_idempotencia m = key_value (rq_chave_idempotencia r)
         \<and> or_receipt res = Some rc \<and> rc \<in> set (db_receipts (pg_db s)) \<and> receipt_matches rc m (or_challenge res))"
proof -
  obtain d0 m rc where d0: "secured (pg_db s) (or_challenge res) d0" "op_result_post_init res = Inr res" "pg_db s' = d0"
      "or_presentation res \<in> set (db_evidence (pg_db s))" "or_manifestation res = Some m" "m \<in> set (db_evidence (pg_db s))"
      "or_receipt res = Some rc" "rc \<in> set (db_receipts (pg_db s))" "ev_chave_idempotencia m = key_value (rq_chave_idempotencia r)"
    using pg.record_initial_refusal_Inr [OF assms(1)] assms(2) by auto
  moreover have "ch_estado (or_challenge res) = CONSUMED" "receipt_matches rc m (or_challenge res)"
    using op_result_facts [OF d0(2)] d0(5,7) by auto
  ultimately show ?thesis by (auto simp: secured_def)
qed

section \<open>A recorded refusal\<close>

text \<open>The rows of the store that record a request's refusal.\<close>

definition recorded_refusal :: "consent_request \<Rightarrow> evidence_db \<Rightarrow> challenge \<Rightarrow> evidence \<Rightarrow> evidence \<Rightarrow> consent_receipt \<Rightarrow> bool" where
  "recorded_refusal r d c p m q \<longleftrightarrow>
     c \<in> set (db_challenges d) \<and> compare_challenges c (rq_desafio r) \<and> ch_estado c = CONSUMED
     \<and> p \<in> set (db_evidence d) \<and> m \<in> set (db_evidence d) \<and> q \<in> set (db_receipts d)
     \<and> op_result_post_init \<lparr>or_challenge = c, or_presentation = p, or_manifestation = Some m, or_receipt = Some q, or_replayed = True\<rparr>
        = Inr \<lparr>or_challenge = c, or_presentation = p, or_manifestation = Some m, or_receipt = Some q, or_replayed = True\<rparr>
     \<and> compare_evidence_intent m r (Some (ev_id p)) = Inr True \<and> receipt_of_request (Some q) m r (rq_desafio r)
     \<and> ev_chave_idempotencia m = key_value (rq_chave_idempotencia r)
     \<and> instant (ev_registrado_em p) = instant (rq_apresentada_em r)"

lemma receipt_of_request_cong: "compare_challenges c d \<Longrightarrow> receipt_of_request q m r c = receipt_of_request q m r d"
  by (simp add: receipt_of_request_def compare_challenges_def split: option.split)

lemma op_result_replayed: "op_result_post_init res = Inr res \<Longrightarrow>
    op_result_post_init (res\<lparr>or_replayed := True\<rparr>) = Inr (res\<lparr>or_replayed := True\<rparr>)"
  by (cases "or_manifestation res"; cases "or_receipt res")
    (auto simp: op_result_post_init_def Let_def ebind_eq_Inr split: if_splits)

lemma record_refusal_action: "record_initial_refusal U r w = (Inr res, w') \<Longrightarrow> rq_acao r = Some REFUSE_INITIAL"
  by (auto simp: record_initial_refusal_def sbind_Inr dest: preflight_Inr split: prod.splits)

lemma manifestation_intent:
  assumes "valid_evidence m" "valid_challenge c" "well_timed c" "valid_challenge (rq_desafio r)" "well_timed (rq_desafio r)"
    and "compare_challenges c (rq_desafio r)" "evidence_matches_digest m c = Inr True" "ev_tipo m = MANIFESTATION"
    and "ev_chave_idempotencia m = key_value (rq_chave_idempotencia r)" "same_instant (Some (ev_registrado_em m)) (rq_manifestada_em r)"
    and "ev_apresentacao_id m = Some i" "ev_acao m = Some REFUSE_INITIAL" "rq_acao r = Some REFUSE_INITIAL"
  shows "compare_evidence_intent m r (Some i) = Inr True"
proof -
  have e: "ev_desafio_id m = ch_id c" "ev_igreja_id m = ch_igreja_id c" "ev_evidence_digest m = evidence_digest m c"
    using matches_facts [OF assms(1,2,7)] by auto
  then have "evidence_matches_digest m (rq_desafio r) = Inr True"
    using evidence_matches_iff [OF assms(1,4)] compare_challenges_digest [OF assms(2,4,3,5,6), of m] assms(6)
    by (simp add: compare_challenges_def)
  then show ?thesis using assms(6,8-13) e(1) by (simp add: compare_evidence_intent_def compare_challenges_def)
qed

lemma recorded_by_run:
  assumes d: "\<forall>c \<in> set (db_challenges (pg_db s')). well_timed c"
    and r: "request_post_init (uw_secret U) r = Inr r" "valid_challenge (rq_desafio r)" "well_timed (rq_desafio r)"
    and run: "record_initial_refusal (postgres_uow U) r s = (Inr res, s')"
  shows "\<exists>m q. or_manifestation res = Some m \<and> or_receipt res = Some q
    \<and> recorded_refusal r (pg_db s') (or_challenge res) (or_presentation res) m q"
proof -
  obtain c d0 where 1: "secured (pg_db s) c d0" "compare_challenges c (rq_desafio r)" "op_result_post_init res = Inr res"
      "if or_replayed res then pg_db s' = d0 \<and> or_challenge res = c \<and> or_presentation res \<in> set (db_evidence (pg_db s))
         \<and> (\<exists>m rc. or_manifestation res = Some m \<and> m \<in> set (db_evidence (pg_db s))
              \<and> or_receipt res = Some rc \<and> rc \<in> set (db_receipts (pg_db s))
              \<and> ev_chave_idempotencia m = key_value (rq_chave_idempotencia r)
              \<and> compare_evidence_intent m r (Some (ev_id (or_presentation res))) = Inr True
              \<and> receipt_of_request (Some rc) m r (or_challenge res)
              \<and> instant (ev_registrado_em (or_presentation res)) = instant (rq_apresentada_em r))
       else refusal_staged r c d0 res (pg_db s')"
    using pg.record_initial_refusal_Inr [OF run] by blast
  have acao: "rq_acao r = Some REFUSE_INITIAL" by (rule record_refusal_action [OF run])
  have c: "valid_challenge c" "c \<in> set (db_challenges d0)"
    using 1(1) by (auto simp: secured_def)
  note res = op_result_replayed [OF 1(3)]
  show ?thesis
  proof (cases "or_replayed res")
    case True
    then obtain m q where mq: "or_manifestation res = Some m" "or_receipt res = Some q" using 1(4) by auto
    then have eq: "res\<lparr>or_replayed := True\<rparr> = \<lparr>or_challenge = or_challenge res, or_presentation = or_presentation res,
        or_manifestation = Some m, or_receipt = Some q, or_replayed = True\<rparr>" by simp
    show ?thesis
      using True 1 c mq res [unfolded eq] op_result_facts [OF 1(3)] receipt_of_request_cong [OF 1(2), of "Some q" m r]
      by (auto simp: recorded_refusal_def secured_def)
  next
    case False
    then have st: "refusal_staged r c d0 res (pg_db s')" using 1(4) by simp
    then obtain m q where mq: "or_manifestation res = Some m" "or_receipt res = Some q" by (auto simp: refusal_staged_def)
    have eq: "res\<lparr>or_replayed := True\<rparr> = \<lparr>or_challenge = or_challenge res, or_presentation = or_presentation res,
        or_manifestation = Some m, or_receipt = Some q, or_replayed = True\<rparr>" using mq by simp
    have ch: "or_challenge res = c\<lparr>ch_estado := CONSUMED, ch_encerrado_em := Some (manifested_at r)\<rparr>" "ch_estado c = OPEN"
      "valid_challenge (or_challenge res)" "valid_evidence m" "ev_tipo m = MANIFESTATION" "ev_registrado_em m = manifested_at r"
      "ev_chave_idempotencia m = key_value (rq_chave_idempotencia r)" "rc_registrado_em q = manifested_at r"
      "instant (ev_registrado_em (or_presentation res)) = instant (rq_apresentada_em r)"
      using st mq by (auto simp: refusal_staged_def)
    note f = op_result_facts [OF 1(3)] request_facts [OF r(1) acao]
    have stored: "or_challenge res \<in> set (db_challenges (pg_db s'))" "or_presentation res \<in> set (db_evidence (pg_db s'))"
      "m \<in> set (db_evidence (pg_db s'))" "q \<in> set (db_receipts (pg_db s'))"
    proof -
      obtain d1 where d1: "d1 = d0 \<and> or_presentation res \<in> set (db_evidence d0) \<or> d1 = add_evidence (or_presentation res) d0"
          "pg_db s' = close_challenge (ch_igreja_id c) (ch_id c) CONSUMED (manifested_at r) (add_receipt q (add_evidence m d1))"
        using st mq by (auto simp: refusal_staged_def)
      show "or_presentation res \<in> set (db_evidence (pg_db s'))" "m \<in> set (db_evidence (pg_db s'))" "q \<in> set (db_receipts (pg_db s'))"
        using d1 by auto
      have "c \<in> set (db_challenges (add_receipt q (add_evidence m d1)))" using d1(1) c(2) by auto
      then show "or_challenge res \<in> set (db_challenges (pg_db s'))"
        unfolding d1(2) ch(1) close_challenge_def using ch(2) by (auto simp: is_open_row_def image_iff intro!: bexI [of _ c])
    qed
    have intent: "compare_evidence_intent m r (Some (ev_id (or_presentation res))) = Inr True"
      using f mq ch 1(2) acao r d stored(1)
      by (intro manifestation_intent [of m "or_challenge res" r]) (auto simp: same_instant_def)
    have receipt: "receipt_of_request (Some q) m r (rq_desafio r)"
      using f mq ch 1(2) by (simp add: receipt_of_request_def receipt_matches_def same_instant_def compare_challenges_def)
    show ?thesis
      using mq stored intent receipt res [unfolded eq] ch(1,7,9) 1(2) by (auto simp: recorded_refusal_def)
  qed
qed

lemma recorded_rows:
  assumes "recorded_refusal r d c p m q" "complete_db d" "ch_igreja_id (rq_desafio r) = g"
  shows "the_row (\<lambda>x. ch_igreja_id x = g \<and> ch_id x = ch_id (rq_desafio r)) (db_challenges d) (Some c)"
    "the_row (\<lambda>e. ev_igreja_id e = g \<and> ev_chave_idempotencia e = key_value (rq_chave_idempotencia r)) (db_evidence d) (Some m)"
    "the_row (\<lambda>e. ev_igreja_id e = g \<and> ev_desafio_id e = ch_id (rq_desafio r) \<and> ev_tipo e = PRESENTATION) (db_evidence d) (Some p)"
    "the_row (\<lambda>e. ev_igreja_id e = g \<and> ev_desafio_id e = ch_id (rq_desafio r) \<and> ev_tipo e = MANIFESTATION) (db_evidence d) (Some m)"
    "the_row (\<lambda>x. rc_igreja_id x = g \<and> rc_evidencia_id x = ev_id m) (db_receipts d) (Some q)"
    "valid_challenge c" "valid_evidence p" "valid_evidence m" "ch_igreja_id c = g" "ch_id c = ch_id (rq_desafio r)"
    "ch_estado c = CONSUMED" "compare_challenges c (rq_desafio r)" "ev_tipo p = PRESENTATION" "ev_desafio_id p = ch_id c"
    "ev_igreja_id p = g" "instant (ev_registrado_em p) = instant (rq_apresentada_em r)" "ev_apresentacao_id p = None" "ev_acao p = None"
    "evidence_matches_digest p c = Inr True"
proof -
  note r = assms(1) [unfolded recorded_refusal_def]
  then have f: "ev_igreja_id p = ch_igreja_id c" "ev_desafio_id p = ch_id c" "ev_tipo p = PRESENTATION"
      "evidence_matches_digest p c = Inr True" "ev_igreja_id m = ch_igreja_id c" "ev_desafio_id m = ch_id c" "ev_tipo m = MANIFESTATION"
      "receipt_matches q m c"
    using op_result_facts [of "\<lparr>or_challenge = c, or_presentation = p, or_manifestation = Some m, or_receipt = Some q, or_replayed = True\<rparr>"]
    by auto
  have ids: "ch_igreja_id c = g" "ch_id c = ch_id (rq_desafio r)" using r assms(3) by (auto simp: compare_challenges_def)
  have u: "distinct (map ch_id (db_challenges d))" "distinct (map (\<lambda>e. (ev_igreja_id e, ev_chave_idempotencia e)) (db_evidence d))"
    "distinct (map (\<lambda>e. (ev_igreja_id e, ev_desafio_id e, ev_tipo e)) (db_evidence d))"
    "distinct (map (\<lambda>r. (rc_igreja_id r, rc_evidencia_id r)) (db_receipts d))"
    using assms(2) by (simp_all add: complete_db_def rows_unique_def unique_challenges_def unique_evidence_def unique_receipts_def)
  have v: "valid_challenge c" "valid_evidence p" "valid_evidence m" using r assms(2) by (auto simp: complete_db_def)
  have q: "rc_igreja_id q = ch_igreja_id c" "rc_evidencia_id q = ev_id m" using f(8) by (simp_all add: receipt_matches_def)
  show "the_row (\<lambda>x. ch_igreja_id x = g \<and> ch_id x = ch_id (rq_desafio r)) (db_challenges d) (Some c)"
    using r ids by (intro the_row_Some [OF u(1)]) auto
  show "the_row (\<lambda>e. ev_igreja_id e = g \<and> ev_chave_idempotencia e = key_value (rq_chave_idempotencia r)) (db_evidence d) (Some m)"
    using r ids f by (intro the_row_Some [OF u(2)]) auto
  show "the_row (\<lambda>e. ev_igreja_id e = g \<and> ev_desafio_id e = ch_id (rq_desafio r) \<and> ev_tipo e = PRESENTATION) (db_evidence d) (Some p)"
    "the_row (\<lambda>e. ev_igreja_id e = g \<and> ev_desafio_id e = ch_id (rq_desafio r) \<and> ev_tipo e = MANIFESTATION) (db_evidence d) (Some m)"
    using r ids f by (auto intro!: the_row_Some [OF u(3)])
  show "the_row (\<lambda>x. rc_igreja_id x = g \<and> rc_evidencia_id x = ev_id m) (db_receipts d) (Some q)"
    using r ids q by (intro the_row_Some [OF u(4)]) auto
  show "valid_challenge c" "valid_evidence p" "valid_evidence m" by (fact v)+
  show "ch_igreja_id c = g" "ch_id c = ch_id (rq_desafio r)" by (fact ids)+
  show "ch_estado c = CONSUMED" "compare_challenges c (rq_desafio r)" "ev_tipo p = PRESENTATION" "ev_desafio_id p = ch_id c"
    "ev_igreja_id p = g" "instant (ev_registrado_em p) = instant (rq_apresentada_em r)" "ev_apresentacao_id p = None" "ev_acao p = None"
    "evidence_matches_digest p c = Inr True"
    using r f ids v(2) by (auto simp: valid_evidence_def)
qed

lemma recorded_valid_receipt: "recorded_refusal r d c p m q \<Longrightarrow> complete_db d \<Longrightarrow> valid_receipt q"
  by (simp add: recorded_refusal_def complete_db_def)

lemma does_recorded_reads:
  assumes "recorded_refusal r d c p m q" "complete_db d" "ch_igreja_id (rq_desafio r) = g"
    and k: "prefixed_hex64 IDEMPOTENCY_KEY_PREFIX (key_value (rq_chave_idempotencia r))"
    and x: "x = rq_desafio r \<or> x = c"
  shows "does (evidence_by_key (postgres_uow U) x r) (ready t g people ro sc d) (Some m) (ready t g people ro sc d)"
    "does (evidence_by_type (postgres_uow U) x PRESENTATION) (ready t g people ro sc d) (Some p) (ready t g people ro sc d)"
    "does (evidence_by_type (postgres_uow U) x MANIFESTATION) (ready t g people ro sc d) (Some m) (ready t g people ro sc d)"
    "does (get_challenge (postgres_uow U) (rq_desafio r)) (ready t g people ro sc d) (Some c) (ready t g people ro sc d)"
    "does (store_call (st_get_receipt_by_evidence (uw_store (postgres_uow U)) (ch_igreja_id x) (ev_id m)))
      (ready t g people ro sc d) (Some q) (ready t g people ro sc d)"
proof -
  note R = recorded_rows [OF assms(1-3)]
  have ids: "ch_igreja_id x = g" "ch_id x = ch_id (rq_desafio r)" using x R(9,10) assms(3) by auto
  show "does (evidence_by_key (postgres_uow U) x r) (ready t g people ro sc d) (Some m) (ready t g people ro sc d)"
    using R(2,8) ids k by (intro does_by_key) auto
  show "does (evidence_by_type (postgres_uow U) x PRESENTATION) (ready t g people ro sc d) (Some p) (ready t g people ro sc d)"
    "does (evidence_by_type (postgres_uow U) x MANIFESTATION) (ready t g people ro sc d) (Some m) (ready t g people ro sc d)"
    using R(3,4,7,8) ids by (auto intro!: does_by_type)
  show "does (get_challenge (postgres_uow U) (rq_desafio r)) (ready t g people ro sc d) (Some c) (ready t g people ro sc d)"
    using R(1,6) assms(3) by (intro does_get_challenge) auto
  show "does (store_call (st_get_receipt_by_evidence (uw_store (postgres_uow U)) (ch_igreja_id x) (ev_id m)))
      (ready t g people ro sc d) (Some q) (ready t g people ro sc d)"
    unfolding ids using R(5) recorded_valid_receipt [OF assms(1,2)] by (intro does_receipt) auto
qed

lemma recorded_replays:
  assumes rec: "recorded_refusal r d c p m q" "complete_db d" and src: "source_answers U r now a"
    and r: "request_post_init (uw_secret U) r = Inr r" "rq_acao r = Some REFUSE_INITIAL"
    and quiet: "no_consent (ch_igreja_id c) (ch_pessoa_id c) (ch_finalidade c) d"
  shows "does (record_initial_refusal (postgres_uow U) r) (ready t (ch_igreja_id c) people False None d)
    \<lparr>or_challenge = c, or_presentation = p, or_manifestation = Some m, or_receipt = Some q, or_replayed = True\<rparr>
    (ready t (ch_igreja_id c) people False (Some (t, key_text r, Some (stream_text c))) d)"
proof -
  let ?R = "ready t (ch_igreja_id c) people False (Some (t, key_text r, Some (stream_text c))) d"
  let ?res = "\<lparr>or_challenge = c, or_presentation = p, or_manifestation = Some m, or_receipt = Some q, or_replayed = True\<rparr>"
  have g: "ch_igreja_id (rq_desafio r) = ch_igreja_id c" using rec(1) by (simp add: recorded_refusal_def compare_challenges_def)
  note R = recorded_rows [OF rec g] and k = request_facts [OF r, THEN conjunct1]
  have facts: "c \<in> set (db_challenges d)" "op_result_post_init ?res = Inr ?res" "compare_evidence_intent m r (Some (ev_id p)) = Inr True"
    "receipt_of_request (Some q) m r c"
    using rec(1) receipt_of_request_cong [of c "rq_desafio r" "Some q" m r] by (simp_all add: recorded_refusal_def)
  have usable: "\<not> terminal_unusable c True" using R(11) by (simp add: terminal_unusable_def)
  have unique: "rows_unique d" using rec(2) by (simp add: complete_db_def)
  have pre: "does (preflight (postgres_uow U) r False) (ready t (ch_igreja_id c) people False None d) (rq_desafio r, a, now)
      (ready t (ch_igreja_id c) people False None d)"
    using does_preflight [OF src r(2) g] .
  note lock = does_lock_stored [OF src k g R(12,6) usable facts(1) unique quiet]
  have check: "does (check_presentation r c (Some p)) ?R () ?R"
    using R(13-16,19) by (simp add: check_presentation_def does_def sbind_def)
  note reads = does_recorded_reads [OF rec g minted_hex [OF k] disjI2 [OF refl]]
  have replay: "does (replay_refusal (postgres_uow U) r c (Some m) (Some p) m) ?R ?res ?R"
    unfolding replay_refusal_def
  proof (rule does_sbind [OF reads(5)], unfold prod.case option.case, rule does_if(1))
    show "\<not> (ch_estado c \<noteq> CONSUMED \<or> ev_id m \<noteq> ev_id m)" using R(11) by simp
    show "does (sbind (domain (compare_evidence_intent m r (Some (ev_id p)))) (\<lambda>same.
        if \<not> same \<or> \<not> receipt_of_request (Some q) m r c then fail IDEMPOTENCY_CONFLICT else op_result_new ?res)) ?R ?res ?R"
      using facts(2-4) by (simp add: does_def sbind_def op_result_new_def)
  qed
  show ?thesis
    unfolding record_initial_refusal_def
    by (rule does_sbind [OF pre], unfold prod.case, rule does_sbind [OF lock], unfold prod.case, rule does_sbind [OF reads(1)],
        rule does_sbind [OF reads(3)], rule does_sbind [OF reads(2)], rule does_sbind [OF check], unfold option.case, rule replay)
qed




section \<open>Committed stores\<close>

text \<open>
  The contents a database can have: an empty store with any ledger; what a writer that succeeded
  has left when its transaction commits (one that failed is rolled back and adds nothing); what
  the ledger's own writer leaves; and what is left when a person is erased.
\<close>

inductive committed :: "evidence_db \<Rightarrow> bool" where
  start: "committed \<lparr>db_challenges = [], db_evidence = [], db_receipts = [], db_ledger = l\<rparr>"
| presented: "committed (pg_db s) \<Longrightarrow> record_presentation (postgres_uow U) r s = (Inr res, s') \<Longrightarrow> committed (pg_db s')"
| refused: "committed (pg_db s) \<Longrightarrow> record_initial_refusal (postgres_uow U) r s = (Inr res, s') \<Longrightarrow> committed (pg_db s')"
| ledger_written: "committed d \<Longrightarrow> committed (d\<lparr>db_ledger := l\<rparr>)"
| person_erased: "committed d \<Longrightarrow> committed (erase_person g p d)"

lemma complete_start: "complete_db \<lparr>db_challenges = [], db_evidence = [], db_receipts = [], db_ledger = l\<rparr>"
  by (simp add: complete_db_def rows_unique_def unique_challenges_def unique_evidence_def unique_receipts_def)

text \<open>
  C3. Every committed store is complete: its rows pass their construction checks and respect the
  uniqueness constraints, every evidence row belongs to a stored challenge and carries its digest,
  every manifestation has its presentation, its receipt and a challenge consumed at its instant,
  and a consumed challenge or a receipt never lacks its manifestation, whatever sequence of
  presentations, refusals, replays, ledger writes and erasures led there.
\<close>

theorem committed_complete:
  assumes "committed d"
  shows "complete_db d"
  using assms
proof induction
  case (presented s U r res s')
  show ?case by (rule pg.record_presentation_complete [OF presented.IH presented.hyps(2)])
next
  case (refused s U r res s')
  show ?case by (rule pg.record_initial_refusal_complete [OF refused.IH refused.hyps(2)])
qed (simp_all add: complete_start complete_erase)

section \<open>The properties on a concrete run\<close>

lemma sample_request_facts: "rq_desafio sample_refusal = sample_challenge" "(ch_igreja_id sample_challenge, ch_pessoa_id sample_challenge) \<in> set [(2, 3)]"
  "instant (sample_time 8) < instant (ch_expira_em sample_challenge)" "pg_db sample_session = \<lparr>db_challenges = [], db_evidence = [], db_receipts = [], db_ledger = []\<rparr>"
  by (simp_all add: sample_refusal_def sample_challenge_def sample_session_def)

definition sample_result :: op_result where "sample_result = new_refusal sample_uow sample_refusal sample_extra_key"

definition sample_committed :: evidence_db where
  "sample_committed = with_refusal sample_uow sample_refusal sample_extra_key (pg_db sample_session)"

lemma sample_run: "\<exists>s'. record_initial_refusal (postgres_uow sample_uow) sample_refusal sample_session = (Inr sample_result, s')
    \<and> pg_db s' = sample_committed"
  using fresh_refusal_runs [OF sample_ready sample_source sample_recordable sample_request_facts(1,2) _ sample_request_facts(3)]
  by (auto simp: no_consent_def sample_result_def sample_committed_def sample_request_facts(4) ready_fields)

lemma sample_committed_facts: "db_ledger sample_committed = []" "\<forall>c \<in> set (db_challenges sample_committed). well_timed c"
  "no_consent g p f sample_committed"
  using sample_challenge_valid(2)
  by (simp_all add: sample_committed_def with_refusal_def Let_def sample_request_facts close_challenge_def no_consent_def well_timed_def)

lemma sample_committed: "committed sample_committed"
proof -
  obtain s' where "record_initial_refusal (postgres_uow sample_uow) sample_refusal sample_session = (Inr sample_result, s')"
      "pg_db s' = sample_committed"
    using sample_run by blast
  then show ?thesis using committed.refused [of sample_session] committed.start [of "[]"] sample_request_facts(4) by metis
qed

theorem committed_complete_witness:
  "complete_db (erase_person 2 9 sample_committed) \<and> complete_db sample_committed"
  using committed_complete [OF sample_committed] committed_complete [OF committed.person_erased [OF sample_committed]] by blast

lemma sample_sessions:
  "ready 2 (ch_igreja_id (rq_desafio sample_refusal)) [(2, 3)] ro None sample_committed
    (sample_session\<lparr>pg_transaction := Some 2, pg_read_only := ro, pg_db := sample_committed\<rparr>)"
  by (simp add: ready_def sample_session_def tenant_session_def sample_request_facts sample_challenge_def)



lemma sample_replay:
  "\<exists>s3. record_initial_refusal (postgres_uow sample_uow) sample_refusal
      (sample_session\<lparr>pg_transaction := Some 2, pg_read_only := False, pg_db := sample_committed\<rparr>)
    = (Inr (sample_result\<lparr>or_replayed := True\<rparr>), s3)"
proof -
  obtain s' where run: "record_initial_refusal (postgres_uow sample_uow) sample_refusal sample_session = (Inr sample_result, s')"
      "pg_db s' = sample_committed"
    using sample_run by blast
  have r: "request_post_init (uw_secret sample_uow) sample_refusal = Inr sample_refusal" "rq_acao sample_refusal = Some REFUSE_INITIAL"
    "valid_challenge (rq_desafio sample_refusal)" "well_timed (rq_desafio sample_refusal)"
    using sample_refusal_valid sample_challenge_valid by (simp_all add: sample_uow_def sample_refusal_def)
  obtain m q where rec: "or_manifestation sample_result = Some m" "or_receipt sample_result = Some q"
      "recorded_refusal sample_refusal sample_committed (or_challenge sample_result) (or_presentation sample_result) m q"
    using recorded_by_run [OF _ r(1,3,4) run(1)] sample_committed_facts(2) unfolding run(2) by blast
  have c: "ch_igreja_id (or_challenge sample_result) = ch_igreja_id (rq_desafio sample_refusal)"
    using rec(3) by (simp add: recorded_refusal_def compare_challenges_def)
  have "complete_db (pg_db s')"
    by (rule pg.record_initial_refusal_complete [OF _ run(1)]) (simp add: complete_start sample_request_facts(4))
  note runs = recorded_replays [OF rec(3) this [unfolded run(2)] sample_source r(1,2) sample_committed_facts(3), unfolded c]
  have "\<lparr>or_challenge = or_challenge sample_result, or_presentation = or_presentation sample_result, or_manifestation = Some m,
      or_receipt = Some q, or_replayed = True\<rparr> = sample_result\<lparr>or_replayed := True\<rparr>"
    using rec(1,2) by simp
  from does_run [OF runs [unfolded this] sample_sessions] show ?thesis by blast
qed

theorem refusal_stages_chain_witness:
  "\<exists>s'. record_initial_refusal (postgres_uow sample_uow) sample_refusal sample_session = (Inr sample_result, s')
    \<and> (\<exists>c d0. refusal_staged sample_refusal c d0 sample_result (pg_db s'))"
proof -
  obtain s' where run: "record_initial_refusal (postgres_uow sample_uow) sample_refusal sample_session = (Inr sample_result, s')"
    using sample_run by blast
  have "\<not> or_replayed sample_result" by (simp add: sample_result_def new_refusal_def)
  from refusal_stages_chain [OF run this] run show ?thesis by blast
qed

theorem replay_writes_nothing_witness:
  "\<exists>s3. record_initial_refusal (postgres_uow sample_uow) sample_refusal
      (sample_session\<lparr>pg_transaction := Some 2, pg_read_only := False, pg_db := sample_committed\<rparr>)
    = (Inr (sample_result\<lparr>or_replayed := True\<rparr>), s3) \<and> pg_db s3 = sample_committed"
proof -
  obtain s3 where run: "record_initial_refusal (postgres_uow sample_uow) sample_refusal
      (sample_session\<lparr>pg_transaction := Some 2, pg_read_only := False, pg_db := sample_committed\<rparr>)
    = (Inr (sample_result\<lparr>or_replayed := True\<rparr>), s3)"
    using sample_replay by blast
  from replay_writes_nothing [OF run] run show ?thesis by simp
qed

end
