(* ===== verification/LeaderChain.thy ===== *)
theory LeaderChain
  imports PyText "HOL-Library.While_Combinator"
begin

text \<open>
  Who may edit a cell: its leader, or somebody above the leader in the chain \<open>pessoas.lider_id\<close>
  (\<open>domain/hierarchy.py\<close>).  The rows are data, so the chain may have cycles; the loop of the source stops at the
  second visit of a person or after 64 people.  It is kept as a loop (\<open>while_option\<close>), so that its return is a theorem.
\<close>

section \<open>The walk\<close>

definition MAX_DEPTH :: nat where "MAX_DEPTH = 64"

type_synonym lider_of = "pystr \<Rightarrow> pystr option option"

text \<open>\<open>lider_of.get(x)\<close>: an absent person and a person without a leader read the same.\<close>

definition leader_get :: "lider_of \<Rightarrow> pystr \<Rightarrow> pystr option" where
  "leader_get f x = (case f x of None \<Rightarrow> None | Some p \<Rightarrow> p)"

record walk =
  wk_current :: "pystr option"
  wk_seen :: "pystr set"
  wk_depth :: nat
  wk_left :: "bool option"

text \<open>One round: \<open>wk_left\<close> is set when the loop is left by \<open>return True\<close> or by \<open>break\<close>.\<close>

definition walk_goes_on :: "walk \<Rightarrow> bool" where
  "walk_goes_on w \<longleftrightarrow> wk_left w = None \<and> wk_current w \<noteq> None \<and> wk_depth w < MAX_DEPTH"

definition walk_round :: "lider_of \<Rightarrow> pystr \<Rightarrow> walk \<Rightarrow> walk" where
  "walk_round f actor w =
     (case wk_current w of
        None \<Rightarrow> w
      | Some x \<Rightarrow>
          if x = actor then w\<lparr>wk_left := Some True\<rparr>
          else if x \<in> wk_seen w then w\<lparr>wk_left := Some False\<rparr>
          else w\<lparr>wk_seen := insert x (wk_seen w), wk_current := leader_get f x, wk_depth := wk_depth w + 1\<rparr>)"

definition walk_start :: "pystr \<Rightarrow> walk" where
  "walk_start leader = \<lparr>wk_current = Some leader, wk_seen = {}, wk_depth = 0, wk_left = None\<rparr>"

definition truthy_id :: "pystr option \<Rightarrow> bool" where
  "truthy_id i \<longleftrightarrow> i \<noteq> None \<and> i \<noteq> Some []"

text \<open>\<open>None\<close> would be a walk that never ends.\<close>

definition is_leader_or_superior :: "pystr option \<Rightarrow> pystr option \<Rightarrow> lider_of \<Rightarrow> bool option" where
  "is_leader_or_superior actor leader f =
     (if \<not> truthy_id actor \<or> \<not> truthy_id leader then Some False
      else map_option (\<lambda>w. wk_left w = Some True)
             (while_option walk_goes_on (walk_round f (the actor)) (walk_start (the leader))))"

section \<open>The chain\<close>

fun superior :: "lider_of \<Rightarrow> pystr \<Rightarrow> nat \<Rightarrow> pystr option" where
  "superior f leader 0 = Some leader"
| "superior f leader (Suc k) = (case superior f leader k of None \<Rightarrow> None | Some x \<Rightarrow> leader_get f x)"

lemma superior_ends: "superior f l n = None \<Longrightarrow> n \<le> k \<Longrightarrow> superior f l k = None"
  by (induction k) (auto simp: le_Suc_eq)

lemma superior_repeats: "superior f l i = superior f l j \<Longrightarrow> i < j \<Longrightarrow> \<exists>m < j. superior f l k = superior f l m"
proof (induction k)
  case 0
  then show ?case by (intro exI [of _ 0]) simp
next
  case (Suc k)
  then obtain m where m: "m < j" "superior f l k = superior f l m" by blast
  then have s: "superior f l (Suc k) = superior f l (Suc m)" by simp
  show ?case
  proof (cases "Suc m = j")
    case True
    with s Suc.prems show ?thesis by (intro exI [of _ i]) simp
  next
    case False
    with m(1) s show ?thesis by (intro exI [of _ "Suc m"]) simp
  qed
qed

text \<open>What holds before every round, and when the loop is left.\<close>

definition walked :: "lider_of \<Rightarrow> pystr \<Rightarrow> pystr \<Rightarrow> walk \<Rightarrow> bool" where
  "walked f actor leader w \<longleftrightarrow>
     wk_current w = superior f leader (wk_depth w) \<and> wk_depth w \<le> MAX_DEPTH
     \<and> wk_seen w = {x. \<exists>i < wk_depth w. superior f leader i = Some x}
     \<and> (\<forall>i < wk_depth w. superior f leader i \<noteq> Some actor)
     \<and> (wk_left w = Some True \<longrightarrow> wk_depth w < MAX_DEPTH \<and> superior f leader (wk_depth w) = Some actor)
     \<and> (wk_left w = Some False \<longrightarrow> (\<forall>k. superior f leader k \<noteq> Some actor))"

lemma walked_start: "walked f actor leader (walk_start leader)"
  by (simp add: walked_def walk_start_def)

lemma walked_round:
  assumes w: "walked f actor leader w" and go: "walk_goes_on w"
  shows "walked f actor leader (walk_round f actor w)"
proof -
  obtain x where x: "wk_current w = Some x" "superior f leader (wk_depth w) = Some x" "wk_depth w < MAX_DEPTH" "wk_left w = None"
    using w go by (auto simp: walked_def walk_goes_on_def)
  consider "x = actor" | "x \<noteq> actor" "x \<in> wk_seen w" | "x \<noteq> actor" "x \<notin> wk_seen w" by blast
  then show ?thesis
  proof cases
    case 1
    then show ?thesis using w x by (simp add: walked_def walk_round_def)
  next
    case 2
    then obtain i where "i < wk_depth w" "superior f leader i = superior f leader (wk_depth w)" using w x by (auto simp: walked_def)
    then have "\<forall>k. superior f leader k \<noteq> Some actor" using superior_repeats [of f leader i "wk_depth w"] w by (metis walked_def)
    then show ?thesis using w x 2 by (simp add: walked_def walk_round_def)
  next
    case 3
    then show ?thesis using w x by (auto simp: walked_def walk_round_def less_Suc_eq)
  qed
qed

lemma walk_returns: "\<exists>w. while_option walk_goes_on (walk_round f actor) (walk_start leader) = Some w \<and> walked f actor leader w \<and> \<not> walk_goes_on w"
proof -
  let ?m = "\<lambda>w. 2 * (MAX_DEPTH - wk_depth w) + (if wk_left w = None then 1 else 0)"
  have "?m (walk_round f actor w) < ?m w" if "walk_goes_on w" for w
    using that by (auto simp: walk_goes_on_def walk_round_def MAX_DEPTH_def split: if_splits)
  then have "\<exists>w. while_option walk_goes_on (walk_round f actor) (walk_start leader) = Some w"
    by (intro measure_while_option_Some [where P = "\<lambda>_. True" and f = ?m]) auto
  then obtain w where w: "while_option walk_goes_on (walk_round f actor) (walk_start leader) = Some w" ..
  have "walked f actor leader w"
  proof (rule while_option_rule [where P = "walked f actor leader" and b = walk_goes_on and c = "walk_round f actor"
        and s = "walk_start leader"])
    show "walked f actor leader (walk_round f actor s)" if "walked f actor leader s" "walk_goes_on s" for s
      using that by (rule walked_round)
  qed (use w walked_start in simp_all)
  moreover have "\<not> walk_goes_on w" using w by (rule while_option_stop)
  ultimately show ?thesis using w by blast
qed

section \<open>Properties\<close>

text \<open>
  C36. The walk up the leaders returns, for every mapping of people to leaders, cyclic ones included, and its
  answer is whether both identifiers are given and the actor is one of the first 64 people of the chain that starts
  at the cell's leader.
\<close>

theorem leader_walk_returns:
  "is_leader_or_superior actor leader f =
     Some (case (actor, leader) of
             (Some a, Some l) \<Rightarrow> a \<noteq> [] \<and> l \<noteq> [] \<and> (\<exists>k < 64. superior f l k = Some a)
           | _ \<Rightarrow> False)"
proof (cases "truthy_id actor \<and> truthy_id leader")
  case True
  then obtain a l where i: "actor = Some a" "leader = Some l" "a \<noteq> []" "l \<noteq> []" by (auto simp: truthy_id_def)
  obtain w where w: "while_option walk_goes_on (walk_round f a) (walk_start l) = Some w" "walked f a l w" "\<not> walk_goes_on w"
    using walk_returns by blast
  have "wk_left w = Some True \<longleftrightarrow> (\<exists>k < 64. superior f l k = Some a)"
  proof (cases "wk_left w")
    case None
    then have "wk_depth w = MAX_DEPTH \<or> superior f l (wk_depth w) = None"
      using w(2,3) by (auto simp: walk_goes_on_def walked_def)
    moreover have "superior f l k \<noteq> Some a" if "k < wk_depth w" for k using w(2) that by (simp add: walked_def)
    ultimately have "\<not> (\<exists>k < 64. superior f l k = Some a)"
      using superior_ends [of f l "wk_depth w"] by (metis MAX_DEPTH_def not_less option.simps(3))
    then show ?thesis using None by simp
  qed (use w(2) in \<open>auto simp: walked_def MAX_DEPTH_def\<close>)
  then show ?thesis using True w(1) i by (simp add: is_leader_or_superior_def)
next
  case False
  then show ?thesis by (auto simp: is_leader_or_superior_def truthy_id_def split: option.splits)
qed

end
