(* ===== verification/Spec2Isabelle.thy ===== *)
theory Spec2Isabelle
  imports ReportCycles ReportTurn ConsentRetention ConsentLocks ConsentReplay LeaderChain
begin

text \<open>
  Verification of the decision core of a multi-tenant church-operations backend (Python, under
  \<open>src/backend/app\<close>).  Two workflows are modelled, each from its value objects to its
  persistence, and the rule that says who may edit a cell.

  \<^bold>\<open>The cell report.\<close>  A leader reports a cell meeting through a conversation.  What was said becomes
  a candidate, the candidate a numbered proposal, and nothing is committed before the literal
  command that names the proposal's code.  \<open>domain/cell_report_workflow.py\<close> holds the candidate and
  the state machine, \<open>domain/cell_report_snapshot.py\<close> the record that is finally stored,
  \<open>domain/cell_report_pending_proposal.py\<close> the envelope in which an open workflow waits in a JSON
  column between two messages, and \<open>domain/cell_report_legacy_snapshot.py\<close> recognises the third shape of
  that column, a report filed in the panel.  \<open>services/cell_report_application.py\<close> puts them to work:
  in one transaction of its caller, and under row locks, it revalidates who speaks about which meeting, writes the
  proposal, and turns the meeting into a sent report when the confirmation arrives.  Each of its
  writes needs an intent of the turn (\<open>agent/turn_identity.py\<close>), and whether a report may be filed yet
  depends on the schedule of the meeting (\<open>domain/cell_meetings_schedule.py\<close>).  When the confirmation comes over
  a channel that must be answered, \<open>services/cell_report_turn_uow.py\<close> files the report, an audit row and the reserved
  reply in that one transaction, under a plan of three effects (\<open>agent/turn_execution.py\<close>), so that a repeated message
  finds all three or none.

  \<^bold>\<open>The consent evidence.\<close>  A person is shown a consent text and refuses.  The presentation, the
  manifestation and its receipt are staged in one transaction the caller owns, under a fixed order
  of locks, so that a repetition replays the same rows.  \<open>domain/consent_evidence_store.py\<close> holds
  the value objects and the checks, \<open>services/consent_evidence_store.py\<close> the unit of work,
  \<open>services/consent_evidence_store_postgres.py\<close> its adapter, \<open>db/rls_observability.py\<close> the tenant
  barrier and \<open>migrations/20260909_004005_consent_evidence_store_lab.sql\<close> the constraints, triggers and
  row policies of the tables.

  \<^bold>\<open>The leaders.\<close>  \<open>domain/hierarchy.py\<close> answers whether a person leads a cell or stands above its leader.
\<close>

section \<open>The theories\<close>

text \<open>
  \<^bold>\<open>Language.\<close>  \<open>Prelude\<close> has results (\<open>Inl\<close> a raised error, \<open>Inr\<close> a value), \<open>ebind\<close>, \<open>emap\<close> and the
  collections the proofs run with.  \<open>PyText\<close>, \<open>PyHash\<close>, \<open>PyData\<close>, \<open>PyJson\<close> and \<open>PyTime\<close> define
  what the source uses of the standard library: strings as code points, UTF-8, white space;
  SHA-256 in full, base 32, length-prefixed frames; decimals; dynamically typed values and their canonical
  JSON; aware instants and calendar arithmetic.  Their main lemmas are that frames and canonical
  JSON determine their content, that minted digests have the shape the validators ask for, and that
  instants survive rendering and parsing.

  \<^bold>\<open>Report.\<close>  \<open>ReportCandidate\<close>: limits, the normalisers of counts, offerings and observations,
  \<open>candidate\<close>, merging, canonical bytes and digest.  \<open>ReportText\<close>: the extraction of a candidate from a
  message, with the regular expressions of the source over the matcher of \<open>PyRegex\<close>.  \<open>ReportWorkflow\<close>: \<open>workflow_state\<close>, \<open>workflow\<close>,
  minting, starting, revision, validation, payload and rehydration, confirmation, commit and termination;
  \<open>reachable\<close> is the closure of the operations, and sequences of events say when a commit can happen.
  \<open>ReportSnapshot\<close>: totals, the snapshot, its builder, projection and
  validator.  \<open>PendingProposal\<close>: bindings to channel and conversation, the digest of the base state, operation
  receipts, the envelope, its builder and rehydration.

  \<^bold>\<open>Report, service.\<close>  \<open>TurnIdentity\<close>: turn identifiers, canonical JSON with its limits, effect intents
  and the validation of a turn's collection of them.  \<open>MeetingSchedule\<close>: weekdays, meeting times, what has passed
  and what is overdue.  \<open>LegacySnapshot\<close>: the recogniser of panel reports, and that the three shapes
  of the column exclude each other.  \<open>ReportApplication\<close>: the session \<open>app_db\<close> (tables, transaction, executed
  statements), the environment \<open>app_env\<close>, and every operation of the service as a function from a session to a
  result and the session it leaves, also when it raises.  \<open>ReportRules\<close>: what each operation may do to the
  session (an interpretation of \<open>preorder_effects\<close>) and \<open>authorized\<close>, the
  meaning of the checks under locks.  \<open>ReportConfirm\<close>: when a first confirmation succeeds and what it
  writes, and that it can be repeated.  \<open>ReportProposal\<close>: \<open>proposal_move\<close>, the abstract moves a proposal may
  make, which the decision of the code implements exactly; a proposal can be repeated and confirmed as long as nobody
  rewrites the meeting's row.
  \<open>ReportSteps\<close>: \<open>report_history\<close>, sequences of operations, successful or not, in consecutive sessions, and the invariant of the meeting
  rows; \<open>fault_told\<close>, closed under sequencing, says that only a failing statement touches the connection.  \<open>ReportCycles\<close>: the sealed cycle that binds a proposal to a turn and a transaction.

  \<^bold>\<open>Report, turn.\<close>  \<open>TurnExecution\<close>: the serial scope of a conversation, execution plans, effect receipts, the outbox of a reply with
  its transitions, and the keys under which a reply is reserved.  \<open>TurnPlans\<close>: which intents have a plan and which plan, that every artefact is accepted exactly when the
  module would issue it, and the accepted histories of a reply.  \<open>ReportTurn\<close>: the unit of work over the session \<open>turn_db\<close>, the
  service's session with the reply and audit tables; \<open>stage_run\<close> takes a successful turn apart, \<open>turn_staged\<close> is what it leaves, and an
  interpretation of \<open>preorder_effects\<close> gives what a failing turn leaves.  \<open>Sha256Bits\<close> evaluates SHA-256 on lists of
  bits, proved equal to the definition, and \<open>TurnDigests\<close> computes with it the identifiers of the turn of the sample runs,
  which have to be known to differ.

  \<^bold>\<open>Consent, pure part.\<close>  \<open>ConsentEvidence\<close>: challenges, evidence, receipts, requests, authorities, their
  construction checks, the digest of a row, source binding and the comparison of replays.
  \<open>ConsentRetention\<close>: retention deadlines.

  \<^bold>\<open>Consent, stateful part.\<close>  \<open>ConsentStore\<close>: the unit of work over the record \<open>store\<close> of operations, an
  operation being a function from a world to a result and the world it leaves, also when it
  raises.  \<open>ConsentLaws\<close>: the abstract content \<open>evidence_db\<close> and the locales
  \<open>evidence_store\<close> (what every operation of a store may do to it) and \<open>evidence_reads\<close>.
  \<open>ConsentRuns\<close> extends them to \<open>evidence_unique\<close> (inserts refuse duplicates) and proves once, for
  every such store, which checks a successful run has passed and which rows it staged.
  \<open>ConsentComplete\<close>: \<open>complete_db\<close>, the invariant of committed content, and the abstract step
  \<open>refusal_chain\<close>.  \<open>ConsentPostgres\<close>: the adapter over the session \<open>pg\<close>, and the interpretation of the locales
  by it.  \<open>ConsentOutcomes\<close>, \<open>ConsentLocks\<close>, \<open>ConsentProgress\<close> and \<open>ConsentReplay\<close>: what the unit of work over
  this adapter guarantees, whatever it answers (append only, lock order, tenant barrier), when it
  succeeds (a calculus of total correctness), and after commits (\<open>committed\<close>, an inductive closure of committed runs,
  ledger writes and erasures of a person).

  \<^bold>\<open>Leaders.\<close>  \<open>LeaderChain\<close>: the walk from a cell's leader upwards, kept as the loop it is (\<open>while_option\<close>), its invariant
  \<open>walked\<close>, and the chain of superiors it searches.

  \<^bold>\<open>Interfaces.\<close>  \<open>preorder_effects\<close> (in \<open>Prelude\<close>) is shared by both workflows: operations that keep within a
  reflexive and transitive relation between the state before and after, closed under sequencing.
\<close>

section \<open>Parameters, bounds and termination\<close>

text \<open>
  What is not in the repository is an argument: the Unicode character database (\<open>unicode_db\<close>:
  normalisation form C, printability), the answers of the server-owned consent source, the clock, the
  entropy behind a minted key, and fresh row identifiers.  For the application service the record
  \<open>app_env\<close> holds them: the statements that fail, the key order a JSON column gives back
  (\<open>ev_jsonb\<close>; the properties that read a column back assume it returns the same value up to the order of
  keys), the clock, the secret of the process, the time zone, the Unicode tables (\<open>unicode_ok\<close>:
  normalising is idempotent and keeps substrings and ASCII, and ASCII is classified as it is) and those of the regular expressions (\<open>re_db\<close>).
  Nothing is assumed of them beyond the named hypotheses of a property, and each such property has a
  witness with concrete values.  SHA-256 is defined, not assumed; "up to collisions" means that the conclusion
  holds or two different byte strings with one digest are exhibited.

  Machine words appear in SHA-256 (32 bits) and bytes (8 bits); every other integer of the source is
  unbounded, and the limits of the code (counts, cents, code points, bytes, 32 receipts) are its own
  guards.  All recursions are structural or have a measure, so every definition is total and no
  fuel is used; the one loop that is kept as a loop is proved to return; that a run \<^emph>\<open>succeeds\<close> is proved as such in \<open>ConsentProgress\<close>, \<open>ConsentReplay\<close>, \<open>ReportConfirm\<close>,
  \<open>ReportProposal\<close> and \<open>ReportTurn\<close>.
\<close>

section \<open>Not modelled\<close>

text \<open>
  In the modelled components: logging, the custom \<open>repr\<close> methods, and the module-level wrappers that only construct the unit of work.  A check \<open>type(x) is not C\<close> on a typed value is the typing of the model.  The adapter and the application service are one
  session: what others commit while it waits for a lock, and collisions of the hash that names an advisory lock, are
  left out; times of the tables are instants in UTC.

  Of the reply and audit tables (\<open>Message\<close>, \<open>AgentConversationLog\<close>) only the columns the unit of work reads or writes are modelled.

  The callers of the unit of work (the WhatsApp coordinator, the finalizer), which
  choose the transaction and the meeting, and the second report path (\<open>cell_report_v1a.py\<close> and the audio report) are not modelled.
  The rest of the repository is listed in the manifest: routers, workers, the agent runtime, channel adapters, persistence models and the frontend are
  mostly input and output, and further decision modules under \<open>domain\<close> (permissions, service
  levels, pipelines, purpose consent) are pure and self-contained and can be added beside these
  theories.
\<close>

end
